(* ===== verification/Prelude.thy ===== *)
theory Prelude
  imports
    Main
    "HOL-Library.Char_ord"
    "HOL-Library.List_Lexorder"
    "HOL-Library.Product_Lexorder"
    "HOL-Library.Sublist"
begin

text \<open>
  Shared vocabulary of the development.  The exceptions of \<^verbatim>\<open>core/errors.py\<close> and the
  built-in ones the modelled code raises are the values of \<open>py_error\<close>; a fallible
  operation returns \<open>py_error + 'a\<close> and operations are chained with \<open>res_bind\<close>.  The
  Python string operations the code uses (\<open>strip\<close>, \<open>startswith\<close>, \<open>str\<close> and \<open>int\<close> on
  decimal integers) and the SQL idioms it uses (\<open>SELECT ... fetchone\<close>,
  \<open>UPDATE ... WHERE\<close>, \<open>COUNT\<close>, \<open>MAX\<close>) are defined here with the lemmas the
  components share.  A string is a list of characters whose code points are below 256.
\<close>

section \<open>Errors and results\<close>

datatype py_error =
    ValueError string
  | TypeError string
  | PermissionError string
  | OverflowError string
  | KeyError string
  | NotFoundError string
  | InvalidTransitionError string
  | DuplicateActionError string
  | EventConflictError string
  | IntegrityError string
  | AssertionError string
  | MigrationPolicyConflictError string
  | WalletExecutionError string
  | WalletChainReorganizationError string
  | OperationInvalidated string
  | SqliteIntegrityError string

type_synonym 'a res = "py_error + 'a"

definition res_bind :: "('e + 'a) \<Rightarrow> ('a \<Rightarrow> 'e + 'b) \<Rightarrow> 'e + 'b" where
  "res_bind m f = (case m of Inl e \<Rightarrow> Inl e | Inr x \<Rightarrow> f x)"

text \<open>\<open>except\<close> clauses that turn every error of a step into another one.\<close>

definition res_wrap :: "'e \<Rightarrow> ('e + 'a) \<Rightarrow> 'e + 'a" where
  "res_wrap e m = (case m of Inl _ \<Rightarrow> Inl e | Inr x \<Rightarrow> Inr x)"

definition is_ok :: "('e + 'a) \<Rightarrow> bool" where
  "is_ok m = (case m of Inl _ \<Rightarrow> False | Inr _ \<Rightarrow> True)"

text \<open>A condition on a value that may be absent.\<close>

definition opt_ex :: "('a \<Rightarrow> bool) \<Rightarrow> 'a option \<Rightarrow> bool" where
  "opt_ex P v = (case v of None \<Rightarrow> False | Some x \<Rightarrow> P x)"

definition opt_all :: "('a \<Rightarrow> bool) \<Rightarrow> 'a option \<Rightarrow> bool" where
  "opt_all P v = (case v of None \<Rightarrow> True | Some x \<Rightarrow> P x)"

lemma opt_quantifiers [simp]:
  "opt_ex P v \<longleftrightarrow> (\<exists>x. v = Some x \<and> P x)" "opt_all P v \<longleftrightarrow> (\<forall>x. v = Some x \<longrightarrow> P x)"
  by (auto simp: opt_ex_def opt_all_def split: option.splits)

named_theorems res_simps

lemma res_bind_simps [simp, res_simps]:
  "res_bind (Inl e) f = Inl e"
  "res_bind (Inr x) f = f x"
  by (simp_all add: res_bind_def)

lemma res_bind_Inr_iff [simp, res_simps]:
  "res_bind m f = Inr y \<longleftrightarrow> (\<exists>x. m = Inr x \<and> f x = Inr y)"
  by (cases m) simp_all

lemma res_wrap_simps [simp, res_simps]:
  "res_wrap e (Inl e') = Inl e"
  "res_wrap e (Inr x) = Inr x"
  "res_wrap e m = Inr y \<longleftrightarrow> m = Inr y"
  by (simp_all add: res_wrap_def split: sum.splits)

lemma is_ok_simps [simp, res_simps]: "is_ok (Inr x)" "\<not> is_ok (Inl e)"
  by (simp_all add: is_ok_def)

lemma is_ok_iff: "is_ok m \<longleftrightarrow> (\<exists>x. m = Inr x)"
  by (cases m) simp_all

text \<open>A loop whose body may raise: the first error stops it.\<close>

fun res_all :: "('a \<Rightarrow> 'e + unit) \<Rightarrow> 'a list \<Rightarrow> 'e + unit" where
  "res_all f [] = Inr ()"
| "res_all f (x # xs) = res_bind (f x) (\<lambda>_. res_all f xs)"

lemma res_all_ok [simp]: "res_all f xs = Inr () \<longleftrightarrow> (\<forall>x\<in>set xs. f x = Inr ())"
  by (induction xs) auto

fun res_map :: "('a \<Rightarrow> 'e + 'b) \<Rightarrow> 'a list \<Rightarrow> 'e + 'b list" where
  "res_map f [] = Inr []"
| "res_map f (x # xs) =
     res_bind (f x) (\<lambda>y. res_bind (res_map f xs) (\<lambda>ys. Inr (y # ys)))"

lemma res_map_ok: "(\<And>x. x \<in> set xs \<Longrightarrow> f x = Inr (g x)) \<Longrightarrow> res_map f xs = Inr (map g xs)"
  by (induction xs) auto

fun res_fold :: "('a \<Rightarrow> 's \<Rightarrow> 'e + 's) \<Rightarrow> 'a list \<Rightarrow> 's \<Rightarrow> 'e + 's" where
  "res_fold f [] s = Inr s"
| "res_fold f (x # xs) s = res_bind (f x s) (res_fold f xs)"

text \<open>An invariant of the body of a fallible loop is an invariant of the loop.\<close>

lemma res_fold_invariant:
  assumes "res_fold f xs s = Inr t" and "P s"
    and "\<And>x s t. x \<in> set xs \<Longrightarrow> f x s = Inr t \<Longrightarrow> P s \<Longrightarrow> P t"
  shows "P t"
  using assms
proof (induction xs arbitrary: s)
  case (Cons x xs)
  from Cons.prems(1) obtain u where u: "f x s = Inr u" "res_fold f xs u = Inr t" by auto
  with Cons.prems(2,3) have "P u" by auto
  with Cons.IH [OF u(2)] Cons.prems(3) show ?case by auto
qed simp

lemma res_fold_total:
  assumes "P s" and "\<And>x s. x \<in> set xs \<Longrightarrow> P s \<Longrightarrow> \<exists>t. f x s = Inr t \<and> P t"
  shows "\<exists>t. res_fold f xs s = Inr t \<and> P t"
  using assms
proof (induction xs arbitrary: s)
  case (Cons x xs)
  from Cons.prems obtain u where u: "f x s = Inr u" "P u" by auto
  with Cons.IH [OF u(2)] Cons.prems(2) show ?case by auto
qed simp

section \<open>Python strings\<close>

definition py_isspace :: "char \<Rightarrow> bool" where
  "py_isspace c =
     (let n = (of_char c :: nat) in 9 \<le> n \<and> n \<le> 13 \<or> 28 \<le> n \<and> n \<le> 32 \<or> n = 133 \<or> n = 160)"

definition py_strip :: "string \<Rightarrow> string" where
  "py_strip s = rev (dropWhile py_isspace (rev (dropWhile py_isspace s)))"

text \<open>\<open>not s.strip()\<close>, the guard most operations start with.\<close>

definition blank :: "string \<Rightarrow> bool" where
  "blank s = (py_strip s = [])"

lemma blank_iff: "blank s \<longleftrightarrow> (\<forall>c\<in>set s. py_isspace c)"
proof -
  have "blank s \<longleftrightarrow> dropWhile py_isspace s = []"
  proof (cases "dropWhile py_isspace s")
    case (Cons a as)
    then have "\<not> py_isspace a" by (simp add: dropWhile_eq_Cons_conv)
    then have "\<exists>x\<in>set (rev (a # as)). \<not> py_isspace x" by simp
    then have "dropWhile py_isspace (rev (a # as)) \<noteq> []"
      by (simp add: dropWhile_eq_Nil_conv)
    with Cons show ?thesis by (simp add: blank_def py_strip_def)
  qed (auto simp: blank_def py_strip_def dropWhile_eq_Nil_conv dest: set_dropWhileD)
  then show ?thesis by (simp add: dropWhile_eq_Nil_conv)
qed

lemma blank_Nil [simp]: "blank []"
  by (simp add: blank_iff)

definition opt_blank :: "string option \<Rightarrow> bool" where
  "opt_blank s = (case s of None \<Rightarrow> True | Some t \<Rightarrow> blank t)"

definition py_startswith :: "string \<Rightarrow> string \<Rightarrow> bool" where
  "py_startswith s p = prefix p s"

subsection \<open>Decimal integers\<close>

definition digit_char :: "nat \<Rightarrow> char" where
  "digit_char d = char_of (48 + d)"

definition is_digit :: "char \<Rightarrow> bool" where
  "is_digit c = (48 \<le> (of_char c :: nat) \<and> (of_char c :: nat) \<le> 57)"

definition digit_val :: "char \<Rightarrow> nat" where
  "digit_val c = of_char c - 48"

fun show_nat :: "nat \<Rightarrow> string" where
  "show_nat n = (if n < 10 then [digit_char n] else show_nat (n div 10) @ [digit_char (n mod 10)])"

declare show_nat.simps [simp del]

definition nat_of_digits :: "string \<Rightarrow> nat" where
  "nat_of_digits s = foldl (\<lambda>n c. 10 * n + digit_val c) 0 s"

definition show_int :: "int \<Rightarrow> string" where
  "show_int i = (if i < 0 then CHR ''-'' # show_nat (nat (- i)) else show_nat (nat i))"

lemma digit_char_simps [simp]:
  assumes "d < 10"
  shows "is_digit (digit_char d)" "digit_val (digit_char d) = d"
proof -
  have "(of_char (char_of (48 + d) :: char) :: nat) = 48 + d"
    using assms by simp
  with assms show "is_digit (digit_char d)" "digit_val (digit_char d) = d"
    by (simp_all add: is_digit_def digit_val_def digit_char_def)
qed

lemma show_nat_digits: "\<forall>c\<in>set (show_nat n). is_digit c"
proof (induction n rule: show_nat.induct)
  case (1 n)
  then show ?case by (cases "n < 10") (auto simp: show_nat.simps [of n])
qed

lemma show_nat_not_Nil [simp]: "show_nat n \<noteq> []"
  by (subst show_nat.simps) simp

lemma nat_of_digits_show [simp]: "nat_of_digits (show_nat n) = n"
proof (induction n rule: show_nat.induct)
  case (1 n)
  then show ?case
    by (cases "n < 10") (auto simp: show_nat.simps [of n] nat_of_digits_def)
qed

lemma nat_of_digits_snoc [simp]:
  "nat_of_digits (s @ [c]) = 10 * nat_of_digits s + digit_val c"
  by (simp add: nat_of_digits_def)

lemma nat_of_digits_Nil [simp]: "nat_of_digits [] = 0"
  by (simp add: nat_of_digits_def)

lemma show_nat_hd_zero: "hd (show_nat n) = CHR ''0'' \<Longrightarrow> n = 0"
proof (induction n rule: show_nat.induct)
  case (1 n)
  show ?case
  proof (cases "n < 10")
    case True
    with "1.prems" have "digit_val (digit_char n) = digit_val (CHR ''0'')"
      by (simp add: show_nat.simps [of n])
    moreover have "digit_val (CHR ''0'') = 0" by (simp add: digit_val_def)
    ultimately show ?thesis using True digit_char_simps(2) [of n] by linarith
  next
    case False
    with "1.prems" have "hd (show_nat (n div 10)) = CHR ''0''"
      by (simp add: show_nat.simps [of n])
    with "1.IH" False have "n div 10 = 0" by blast
    with False show ?thesis by simp
  qed
qed

lemma show_nat_inject [simp]: "show_nat m = show_nat n \<longleftrightarrow> m = n"
  by (metis nat_of_digits_show)

lemma show_int_inject [simp]: "show_int i = show_int j \<longleftrightarrow> i = j"
proof
  have nd: "CHR ''-'' # s \<noteq> show_nat n" for s n
  proof
    assume "CHR ''-'' # s = show_nat n"
    with show_nat_digits [of n] have "is_digit (CHR ''-'')" by (metis list.set_intros(1))
    then show False by (simp add: is_digit_def)
  qed
  assume "show_int i = show_int j"
  then show "i = j" using nd by (auto simp: show_int_def split: if_splits) (metis nd)+
qed simp

subsection \<open>Hexadecimal digests\<close>

definition hex_lower :: "char \<Rightarrow> bool" where
  "hex_lower c = (c \<in> set ''0123456789abcdef'')"

definition valid_hash :: "string \<Rightarrow> bool" where
  "valid_hash value = (length value = 64 \<and> list_all hex_lower value)"

section \<open>Tables\<close>

text \<open>
  A table is the list of its rows in \<open>rowid\<close> order: \<open>INSERT\<close> appends.
\<close>

definition fetchone :: "('r \<Rightarrow> bool) \<Rightarrow> 'r list \<Rightarrow> 'r option" where
  "fetchone p t = List.find p t"

definition update_where :: "('r \<Rightarrow> bool) \<Rightarrow> ('r \<Rightarrow> 'r) \<Rightarrow> 'r list \<Rightarrow> 'r list" where
  "update_where p f t = map (\<lambda>r. if p r then f r else r) t"

definition count_where :: "('r \<Rightarrow> bool) \<Rightarrow> 'r list \<Rightarrow> nat" where
  "count_where p t = length (filter p t)"

text \<open>\<open>COALESCE(MAX(f), 0)\<close> over the rows that satisfy \<open>p\<close>, for a column that is never negative.\<close>

fun max_of :: "nat list \<Rightarrow> nat" where
  "max_of [] = 0"
| "max_of (x # xs) = max x (max_of xs)"

definition fetchall_by :: "('r \<Rightarrow> bool) \<Rightarrow> ('r \<Rightarrow> 'k::linorder) \<Rightarrow> 'r list \<Rightarrow> 'r list" where
  "fetchall_by p k t = sort_key k (filter p t)"

named_theorems table_simps

lemma fetchone_Some: "fetchone p t = Some r \<Longrightarrow> r \<in> set t \<and> p r"
  by (auto simp: fetchone_def find_Some_iff)

lemma fetchone_None: "fetchone p t = None \<longleftrightarrow> (\<forall>r\<in>set t. \<not> p r)"
  by (auto simp: fetchone_def find_None_iff)

lemma fetchone_append [table_simps]:
  "fetchone p (t @ u) = (case fetchone p t of None \<Rightarrow> fetchone p u | Some r \<Rightarrow> Some r)"
  by (induction t) (auto simp: fetchone_def)

lemma fetchone_Nil [simp]: "fetchone p [] = None"
  by (simp add: fetchone_def)

lemma fetchone_Cons [simp]: "fetchone p (r # t) = (if p r then Some r else fetchone p t)"
  by (simp add: fetchone_def)

lemma update_where_simps [simp]:
  "update_where p f [] = []"
  "update_where p f (r # t) = (if p r then f r else r) # update_where p f t"
  by (simp_all add: update_where_def)

lemma update_where_append [table_simps]:
  "update_where p f (t @ u) = update_where p f t @ update_where p f u"
  by (simp add: update_where_def)

lemma set_update_where:
  "x \<in> set (update_where p f t) \<longleftrightarrow> (\<exists>r\<in>set t. x = (if p r then f r else r))"
  by (auto simp: update_where_def)

lemma length_update_where [simp]: "length (update_where p f t) = length t"
  by (simp add: update_where_def)

lemma update_where_none: "(\<And>r. r \<in> set t \<Longrightarrow> \<not> p r) \<Longrightarrow> update_where p f t = t"
  by (simp add: update_where_def map_idI)

lemma map_update_where:
  "(\<And>r. p r \<Longrightarrow> g (f r) = g r) \<Longrightarrow> map g (update_where p f t) = map g t"
  by (induction t) auto

lemma image_update_where: "(\<And>r. p r \<Longrightarrow> g (f r) = g r) \<Longrightarrow> g ` set (update_where p f t) = g ` set t"
  by (induction t) auto

text \<open>A predicate the update leaves alone selects the updated rows.\<close>

lemma filter_update_where:
  "(\<And>r. p r \<Longrightarrow> q (f r) = q r) \<Longrightarrow> filter q (update_where p f t) = update_where p f (filter q t)"
  by (induction t) auto

lemma filter_update_where_same:
  "(\<And>r. p r \<Longrightarrow> \<not> q r \<and> \<not> q (f r)) \<Longrightarrow> filter q (update_where p f t) = filter q t"
  by (induction t) auto

lemma fetchone_update_where:
  "(\<And>r. p r \<Longrightarrow> q (f r) = q r) \<Longrightarrow>
   fetchone q (update_where p f t) = map_option (\<lambda>r. if p r then f r else r) (fetchone q t)"
  by (induction t) auto

lemma count_where_simps [simp]:
  "count_where p [] = 0"
  "count_where p (r # t) = (if p r then Suc (count_where p t) else count_where p t)"
  by (simp_all add: count_where_def)

lemma count_where_append [table_simps]:
  "count_where p (t @ u) = count_where p t + count_where p u"
  by (simp add: count_where_def)

lemma max_of_append [table_simps, simp]: "max_of (xs @ ys) = max (max_of xs) (max_of ys)"
  by (induction xs) auto

lemma max_of_ge: "x \<in> set xs \<Longrightarrow> x \<le> max_of xs"
  by (induction xs) auto

lemma max_of_upt [simp]: "max_of [1..<Suc n] = n"
  by (induction n) auto

text \<open>Rows with pairwise distinct keys: a key selects at most one row.\<close>

lemma distinct_key_eq:
  "distinct (map k t) \<Longrightarrow> r \<in> set t \<Longrightarrow> s \<in> set t \<Longrightarrow> k r = k s \<Longrightarrow> r = s"
  by (metis distinct_map inj_on_def)

lemma fetchone_key:
  "distinct (map k t) \<Longrightarrow> r \<in> set t \<Longrightarrow> fetchone (\<lambda>x. k x = k r) t = Some r"
  by (induction t) (auto simp: rev_image_eqI)

lemma fetchone_fresh_key: "x \<notin> k ` set t \<Longrightarrow> fetchone (\<lambda>r. k r = x) t = None"
  by (auto simp: fetchone_None)

lemma fetchone_snoc_fresh:
  "fetchone p t = None \<Longrightarrow> p r \<Longrightarrow> fetchone p (t @ [r]) = Some r"
  by (simp add: fetchone_append)

lemma filter_key_single:
  "distinct (map k t) \<Longrightarrow> r \<in> set t \<Longrightarrow> k r = a \<Longrightarrow> filter (\<lambda>x. k x = a) t = [r]"
proof (induction t)
  case (Cons x t)
  show ?case
  proof (cases "x = r")
    case True
    with Cons.prems have "\<forall>y\<in>set t. k y \<noteq> a" by (auto simp: rev_image_eqI)
    with True Cons.prems(3) show ?thesis by (simp add: filter_empty_conv)
  next
    case False
    with Cons.prems have "r \<in> set t" "k x \<noteq> a" by (auto simp: rev_image_eqI)
    with Cons show ?thesis by simp
  qed
qed simp

section \<open>Sorting\<close>

lemma insort_key_snoc: "k a \<le> k x \<Longrightarrow> insort_key k a (ys @ [x]) = insort_key k a ys @ [x]"
  by (induction ys) auto

lemma sort_key_snoc_max:
  "(\<And>y. y \<in> set xs \<Longrightarrow> k y \<le> k x) \<Longrightarrow> sort_key k (xs @ [x]) = sort_key k xs @ [x]"
  by (induction xs) (auto simp: insort_key_snoc)

lemma sort_key_cong_on:
  assumes "\<And>x y. x \<in> set xs \<Longrightarrow> y \<in> set xs \<Longrightarrow> (f x \<le> f y) = (g x \<le> g y)"
  shows "sort_key f xs = sort_key g xs"
  using assms
proof (induction xs)
  case (Cons x xs)
  have "insort_key f x ys = insort_key g x ys" if "set ys \<subseteq> set xs" for ys
    using that by (induction ys) (use Cons.prems in auto)
  moreover have "sort_key f xs = sort_key g xs" using Cons by simp
  ultimately show ?case by simp
qed simp

section \<open>Running an operation\<close>

text \<open>The state after an operation, or the old one when it raised.\<close>

definition after :: "('r \<times> 'db) res \<Rightarrow> 'db \<Rightarrow> 'db" where
  "after m db = (case m of Inr (r, db') \<Rightarrow> db' | Inl e \<Rightarrow> db)"

lemma after_ok: "is_ok m \<Longrightarrow> \<exists>r. m = Inr (r, after m db)"
  by (auto simp: after_def is_ok_iff)

end
