(* ===== verification/PyJson.thy ===== *)
theory PyJson
  imports Prelude "HOL-Library.AList"
begin

text \<open>
  The value layer of \<^verbatim>\<open>core/types.py\<close>: \<open>canonical_json\<close> (\<open>json.dumps\<close> with sorted keys,
  no spaces, no ASCII escaping), \<open>strict_json_loads\<close>, the SQLite scalar readers
  \<open>strict_int\<close> and \<open>strict_bool\<close>, and \<open>content_hash\<close>.  A Python value that can be
  written as JSON is a \<open>json\<close>; a \<open>dict\<close> is the list of its items in insertion order,
  with distinct keys (\<open>json_wf\<close>); a finite \<open>float\<close> is represented by its \<open>repr\<close>.
  \<open>json_norm\<close> orders the items of every object by key; it is what the text of a value
  determines.  The parser takes fuel \<open>2 * length s + 2\<close>: \<open>parse_fuel_enough\<close> shows that
  more fuel never changes its answer.  The digest \<open>sha256\<close> is a parameter of every
  definition that hashes: the results hold for every function.  Two bounds of the model: a
  text nested beyond the recursion limit of the interpreter, for which the source raises
  \<open>ValueError\<close>, is read here like any other; and characters have code points below 256, so a
  \<^verbatim>\<open>\uXXXX\<close> escape of a larger one is refused.
\<close>

section \<open>Printing\<close>

datatype json =
    JNull
  | JBool bool
  | JInt int
  | JFloat string
  | JStr string
  | JList "json list"
  | JObj "(string \<times> json) list"

definition hex_digit :: "nat \<Rightarrow> char" where
  "hex_digit d = (if d < 10 then char_of (48 + d) else char_of (87 + d))"

definition escape_char :: "char \<Rightarrow> string" where
  "escape_char c =
     (if c = CHR 0x22 then [CHR 0x5C, CHR 0x22]
      else if c = CHR 0x5C then [CHR 0x5C, CHR 0x5C]
      else if c = CHR 0x08 then [CHR 0x5C, CHR ''b'']
      else if c = CHR 0x0C then [CHR 0x5C, CHR ''f'']
      else if c = CHR 0x0A then [CHR 0x5C, CHR ''n'']
      else if c = CHR 0x0D then [CHR 0x5C, CHR ''r'']
      else if c = CHR 0x09 then [CHR 0x5C, CHR ''t'']
      else if (of_char c :: nat) < 32
        then [CHR 0x5C, CHR ''u'', CHR ''0'', CHR ''0'',
              hex_digit (of_char c div 16), hex_digit (of_char c mod 16)]
      else [c])"

definition json_quote :: "string \<Rightarrow> string" where
  "json_quote s = CHR 0x22 # concat (map escape_char s) @ [CHR 0x22]"

fun join_comma :: "string list \<Rightarrow> string" where
  "join_comma [] = []"
| "join_comma [x] = x"
| "join_comma (x # y # zs) = x @ '','' @ join_comma (y # zs)"

fun canonical_json :: "json \<Rightarrow> string" where
  "canonical_json JNull = ''null''"
| "canonical_json (JBool b) = (if b then ''true'' else ''false'')"
| "canonical_json (JInt i) = show_int i"
| "canonical_json (JFloat r) = r"
| "canonical_json (JStr s) = json_quote s"
| "canonical_json (JList vs) = ''['' @ join_comma (map canonical_json vs) @ '']''"
| "canonical_json (JObj kvs) =
     ''{'' @ join_comma (map (\<lambda>(k, t). json_quote k @ '':'' @ t)
        (sort_key fst (map (\<lambda>(k, v). (k, canonical_json v)) kvs))) @ ''}''"

fun json_norm :: "json \<Rightarrow> json" where
  "json_norm (JList vs) = JList (map json_norm vs)"
| "json_norm (JObj kvs) = JObj (sort_key fst (map (\<lambda>(k, v). (k, json_norm v)) kvs))"
| "json_norm v = v"

definition content_hash :: "(string \<Rightarrow> string) \<Rightarrow> json \<Rightarrow> string" where
  "content_hash sha256 v = sha256 (canonical_json v)"

section \<open>Parsing\<close>

definition json_space :: "char \<Rightarrow> bool" where
  "json_space c = (c = CHR '' '' \<or> c = CHR 0x09 \<or> c = CHR 0x0A \<or> c = CHR 0x0D)"

definition skip_ws :: "string \<Rightarrow> string" where
  "skip_ws s = dropWhile json_space s"

definition hex_val :: "char \<Rightarrow> nat option" where
  "hex_val c =
     (let n = (of_char c :: nat) in
      if 48 \<le> n \<and> n \<le> 57 then Some (n - 48)
      else if 97 \<le> n \<and> n \<le> 102 then Some (n - 87)
      else if 65 \<le> n \<and> n \<le> 70 then Some (n - 55)
      else None)"

definition hex4 :: "char \<Rightarrow> char \<Rightarrow> char \<Rightarrow> char \<Rightarrow> nat option" where
  "hex4 a b c d =
     (case (hex_val a, hex_val b, hex_val c, hex_val d) of
        (Some i, Some j, Some k, Some l) \<Rightarrow> Some (((i * 16 + j) * 16 + k) * 16 + l)
      | _ \<Rightarrow> None)"

definition unescape :: "char \<Rightarrow> char option" where
  "unescape e =
     (if e = CHR 0x22 then Some (CHR 0x22)
      else if e = CHR 0x5C then Some (CHR 0x5C)
      else if e = CHR ''/'' then Some (CHR ''/'')
      else if e = CHR ''b'' then Some (CHR 0x08)
      else if e = CHR ''f'' then Some (CHR 0x0C)
      else if e = CHR ''n'' then Some (CHR 0x0A)
      else if e = CHR ''r'' then Some (CHR 0x0D)
      else if e = CHR ''t'' then Some (CHR 0x09)
      else None)"

definition cons_char :: "char \<Rightarrow> (string \<times> string) option \<Rightarrow> (string \<times> string) option" where
  "cons_char c p = map_option (\<lambda>(s, r). (c # s, r)) p"

text \<open>The body of a string, after its opening quote.\<close>

fun parse_chars :: "string \<Rightarrow> (string \<times> string) option" where
  "parse_chars [] = None"
| "parse_chars (c # r) =
     (if c = CHR 0x22 then Some ([], r)
      else if c = CHR 0x5C then
        (case r of
           [] \<Rightarrow> None
         | e # r1 \<Rightarrow>
             if e = CHR ''u'' then
               (case r1 of
                  h1 # h2 # h3 # h4 # r2 \<Rightarrow>
                    (case hex4 h1 h2 h3 h4 of
                       Some n \<Rightarrow> if n < 256 then cons_char (char_of n) (parse_chars r2) else None
                     | None \<Rightarrow> None)
                | _ \<Rightarrow> None)
             else (case unescape e of Some x \<Rightarrow> cons_char x (parse_chars r1) | None \<Rightarrow> None))
      else if (of_char c :: nat) < 32 then None
      else cons_char c (parse_chars r))"

definition parse_frac :: "string \<Rightarrow> string" where
  "parse_frac s =
     (case s of [] \<Rightarrow> []
      | c # r \<Rightarrow> if c = CHR ''.'' \<and> takeWhile is_digit r \<noteq> [] then c # takeWhile is_digit r else [])"

definition exp_sign :: "string \<Rightarrow> string" where
  "exp_sign s = (case s of [] \<Rightarrow> [] | d # _ \<Rightarrow> if d = CHR ''+'' \<or> d = CHR ''-'' then [d] else [])"

definition parse_exp :: "string \<Rightarrow> string" where
  "parse_exp s =
     (case s of [] \<Rightarrow> []
      | c # r \<Rightarrow>
          if c = CHR ''e'' \<or> c = CHR ''E'' then
            (let sg = exp_sign r;
                 ds = takeWhile is_digit (drop (length sg) r)
             in if ds = [] then [] else c # sg @ ds)
          else [])"

definition parse_sign :: "string \<Rightarrow> string" where
  "parse_sign s = (case s of [] \<Rightarrow> [] | c # _ \<Rightarrow> if c = CHR ''-'' then [c] else [])"

definition parse_int_part :: "string \<Rightarrow> string" where
  "parse_int_part s =
     (case s of [] \<Rightarrow> [] | c # _ \<Rightarrow> if c = CHR ''0'' then [c] else takeWhile is_digit s)"

definition parse_number :: "string \<Rightarrow> (json \<times> string) option" where
  "parse_number s =
     (let sg = parse_sign s; r0 = drop (length sg) s;
          ds = parse_int_part r0; r1 = drop (length ds) r0;
          fr = parse_frac r1; r2 = drop (length fr) r1;
          ex = parse_exp r2; r3 = drop (length ex) r2
      in if ds = [] then None
         else if fr = [] \<and> ex = []
           then Some (JInt (if sg = [] then int (nat_of_digits ds) else - int (nat_of_digits ds)), r3)
         else Some (JFloat (sg @ ds @ fr @ ex), r3))"

fun strip_prefix :: "string \<Rightarrow> string \<Rightarrow> string option" where
  "strip_prefix [] s = Some s"
| "strip_prefix (p # ps) [] = None"
| "strip_prefix (p # ps) (c # s) = (if p = c then strip_prefix ps s else None)"

definition parse_literal :: "string \<Rightarrow> (json \<times> string) option" where
  "parse_literal s =
     (case strip_prefix ''null'' s of Some r \<Rightarrow> Some (JNull, r)
      | None \<Rightarrow> (case strip_prefix ''true'' s of Some r \<Rightarrow> Some (JBool True, r)
      | None \<Rightarrow> (case strip_prefix ''false'' s of Some r \<Rightarrow> Some (JBool False, r)
      | None \<Rightarrow> parse_number s)))"

text \<open>\<open>dict\<close> of a sequence of items: a repeated key keeps its place and takes the last value.\<close>

definition dict_of :: "(string \<times> json) list \<Rightarrow> (string \<times> json) list" where
  "dict_of kvs = fold (\<lambda>(k, v) d. AList.update k v d) kvs []"

fun parse_value :: "nat \<Rightarrow> string \<Rightarrow> (json \<times> string) option"
  and parse_elems :: "nat \<Rightarrow> string \<Rightarrow> (json list \<times> string) option"
  and parse_members :: "nat \<Rightarrow> string \<Rightarrow> ((string \<times> json) list \<times> string) option" where
  "parse_value 0 s = None"
| "parse_value (Suc n) s =
     (case s of
        [] \<Rightarrow> None
      | c # r \<Rightarrow>
          if c = CHR 0x22 then map_option (\<lambda>(t, r'). (JStr t, r')) (parse_chars r)
          else if c = CHR ''['' then
            (case skip_ws r of
               [] \<Rightarrow> None
             | d # r' \<Rightarrow> if d = CHR '']'' then Some (JList [], r')
                        else map_option (\<lambda>(vs, q). (JList vs, q)) (parse_elems n (d # r')))
          else if c = CHR ''{'' then
            (case skip_ws r of
               [] \<Rightarrow> None
             | d # r' \<Rightarrow> if d = CHR ''}'' then Some (JObj [], r')
                        else map_option (\<lambda>(kvs, q). (JObj (dict_of kvs), q)) (parse_members n (d # r')))
          else parse_literal s)"
| "parse_elems 0 s = None"
| "parse_elems (Suc n) s =
     (case parse_value n s of
        None \<Rightarrow> None
      | Some (v, r) \<Rightarrow>
          (case skip_ws r of
             [] \<Rightarrow> None
           | c # r' \<Rightarrow>
               if c = CHR '']'' then Some ([v], r')
               else if c = CHR '','' then map_option (\<lambda>(vs, q). (v # vs, q)) (parse_elems n (skip_ws r'))
               else None))"
| "parse_members 0 s = None"
| "parse_members (Suc n) s =
     (case s of
        [] \<Rightarrow> None
      | q0 # s1 \<Rightarrow>
          if q0 \<noteq> CHR 0x22 then None
          else (case parse_chars s1 of
             None \<Rightarrow> None
           | Some (k, s2) \<Rightarrow>
               (case skip_ws s2 of
                  [] \<Rightarrow> None
                | cl # s3 \<Rightarrow>
                    if cl \<noteq> CHR '':'' then None
                    else (case parse_value n (skip_ws s3) of
                       None \<Rightarrow> None
                     | Some (v, r) \<Rightarrow>
                         (case skip_ws r of
                            [] \<Rightarrow> None
                          | c # r' \<Rightarrow>
                              if c = CHR ''}'' then Some ([(k, v)], r')
                              else if c = CHR '',''
                                then map_option (\<lambda>(kvs, q). ((k, v) # kvs, q)) (parse_members n (skip_ws r'))
                              else None)))))"

definition parse_fuel :: "string \<Rightarrow> nat" where
  "parse_fuel s = 2 * length s + 2"

definition strict_json_loads :: "string \<Rightarrow> json res" where
  "strict_json_loads s =
     (case parse_value (parse_fuel s) (skip_ws s) of
        Some (v, r) \<Rightarrow> if skip_ws r = [] then Inr v else Inl (ValueError ''Extra data'')
      | None \<Rightarrow> Inl (ValueError ''Expecting value''))"

section \<open>SQLite scalars\<close>

text \<open>
  What a column read through \<open>sqlite3.Row\<close> can hold.  \<open>SReal\<close> carries the float by its
  \<open>repr\<close> together with the integer it is equal to, when it is one.
\<close>

datatype sqlval = SNull | SInt int | SReal string "int option" | SText string | SBlob "nat list"

text \<open>\<open>int(s, 10)\<close>: an optional sign and digits, with single underscores between digits.\<close>

fun int_lexeme :: "bool \<Rightarrow> string \<Rightarrow> string option" where
  "int_lexeme b [] = (if b then Some [] else None)"
| "int_lexeme b (c # s) =
     (if is_digit c then map_option (Cons c) (int_lexeme True s)
      else if c = CHR ''_'' \<and> b then int_lexeme False s
      else None)"

definition parse_py_int :: "string \<Rightarrow> int res" where
  "parse_py_int s =
     (let t = py_strip s;
          sg = (case t of [] \<Rightarrow> [] | c # _ \<Rightarrow> if c = CHR ''-'' \<or> c = CHR ''+'' then [c] else [])
      in case int_lexeme False (drop (length sg) t) of
           None \<Rightarrow> Inl (ValueError ''invalid literal for int()'')
         | Some ds \<Rightarrow> Inr (if sg = ''-'' then - int (nat_of_digits ds) else int (nat_of_digits ds)))"

definition strict_int :: "sqlval \<Rightarrow> int res" where
  "strict_int v =
     (case v of
        SInt i \<Rightarrow> Inr i
      | SReal r (Some i) \<Rightarrow> Inr i
      | SReal r None \<Rightarrow> Inl (ValueError ''value is not an exact finite integer'')
      | SText s \<Rightarrow> parse_py_int s
      | _ \<Rightarrow> Inl (TypeError ''value is not an integer-compatible SQLite scalar''))"

definition strict_bool :: "sqlval \<Rightarrow> bool res" where
  "strict_bool v =
     res_bind (strict_int v) (\<lambda>i.
       if i \<noteq> 0 \<and> i \<noteq> 1 then Inl (ValueError ''boolean flags must be exactly zero or one'')
       else Inr (i = 1))"

text \<open>An optional text as a value.\<close>

definition json_opt :: "string option \<Rightarrow> json" where
  "json_opt s = (case s of None \<Rightarrow> JNull | Some t \<Rightarrow> JStr t)"

text \<open>\<open>isinstance(v, dict)\<close>.\<close>

definition is_object :: "json \<Rightarrow> bool" where
  "is_object v = (case v of JObj _ \<Rightarrow> True | _ \<Rightarrow> False)"

section \<open>Well-formed values\<close>

text \<open>A Python value: distinct keys in every \<open>dict\<close>, and floats given by a number's text.\<close>

fun json_wf :: "json \<Rightarrow> bool" where
  "json_wf (JFloat r) = (parse_number r = Some (JFloat r, []))"
| "json_wf (JList vs) = (\<forall>v\<in>set vs. json_wf v)"
| "json_wf (JObj kvs) = (distinct (map fst kvs) \<and> (\<forall>kv\<in>set kvs. json_wf (snd kv)))"
| "json_wf v = True"

text \<open>What can follow a value in a text, and what a value or a member can start with.\<close>

definition json_delim :: "string \<Rightarrow> bool" where
  "json_delim s = (s = [] \<or> hd s = CHR '','' \<or> hd s = CHR '']'' \<or> hd s = CHR ''}'')"

definition value_start :: "string \<Rightarrow> bool" where
  "value_start s = (s \<noteq> [] \<and> \<not> json_space (hd s) \<and> hd s \<noteq> CHR '']'' \<and> hd s \<noteq> CHR ''}'')"

definition member_text :: "string \<times> json \<Rightarrow> string" where
  "member_text kv = json_quote (fst kv) @ '':'' @ canonical_json (snd kv)"

section \<open>The text of a value determines it\<close>

lemma hex_val_digit: "d < 16 \<Longrightarrow> hex_val (hex_digit d) = Some d"
  by (cases "d < 10") (simp_all add: hex_val_def hex_digit_def Let_def)

lemma hex4_control:
  assumes "n < 32"
  shows "hex4 (CHR ''0'') (CHR ''0'') (hex_digit (n div 16)) (hex_digit (n mod 16)) = Some n"
proof -
  have "hex_val (CHR ''0'') = Some 0" by (simp add: hex_val_def)
  with assms show ?thesis by (simp add: hex4_def hex_val_digit less_mult_imp_div_less)
qed

lemma parse_escape_char: "parse_chars (escape_char c @ s) = cons_char c (parse_chars s)"
proof -
  consider (q) "c = CHR 0x22" | (b) "c = CHR 0x5C" | (e) "c \<in> {CHR 0x08, CHR 0x0C, CHR 0x0A, CHR 0x0D, CHR 0x09}"
    | (u) "c \<noteq> CHR 0x22" "c \<noteq> CHR 0x5C" "c \<notin> {CHR 0x08, CHR 0x0C, CHR 0x0A, CHR 0x0D, CHR 0x09}" "(of_char c :: nat) < 32"
    | (p) "c \<noteq> CHR 0x22" "c \<noteq> CHR 0x5C" "\<not> (of_char c :: nat) < 32"
    by blast
  then show ?thesis
  proof cases
    case q then show ?thesis by (simp add: escape_char_def unescape_def)
  next
    case b then show ?thesis by (simp add: escape_char_def unescape_def)
  next
    case e then show ?thesis by (elim insertE) (simp_all add: escape_char_def unescape_def)
  next
    case u
    then have "escape_char c = [CHR 0x5C, CHR ''u'', CHR ''0'', CHR ''0'',
              hex_digit (of_char c div 16), hex_digit (of_char c mod 16)]"
      by (simp add: escape_char_def)
    moreover have "(of_char c :: nat) < 256" "char_of (of_char c :: nat) = c" by simp_all
    ultimately show ?thesis using hex4_control [OF u(4)] by simp
  next
    case p
    then have "escape_char c = [c]" by (auto simp: escape_char_def)
    with p show ?thesis by simp
  qed
qed

lemma parse_chars_quoted:
  "parse_chars (concat (map escape_char s) @ CHR 0x22 # r) = Some (s, r)"
  by (induction s) (simp_all add: parse_escape_char cons_char_def)

lemma json_quote_inject [simp]: "json_quote s = json_quote t \<longleftrightarrow> s = t"
proof
  assume "json_quote s = json_quote t"
  then have "concat (map escape_char s) @ CHR 0x22 # [] = concat (map escape_char t) @ CHR 0x22 # []"
    by (simp add: json_quote_def)
  then have "Some (s, [] :: string) = Some (t, [])"
    by (metis parse_chars_quoted)
  then show "s = t" by simp
qed simp

lemma json_delim_not_digit: "json_delim r \<Longrightarrow> takeWhile is_digit r = []"
  by (cases r) (auto simp: json_delim_def is_digit_def)

lemma takeWhile_digit_delim:
  "json_delim r \<Longrightarrow> takeWhile is_digit (s @ r) = takeWhile is_digit s"
  by (induction s) (simp_all add: json_delim_not_digit)

lemma parse_sign_append: "json_delim r \<Longrightarrow> parse_sign (s @ r) = parse_sign s"
  by (cases s; cases r) (auto simp: parse_sign_def json_delim_def)

lemma parse_int_part_append: "json_delim r \<Longrightarrow> parse_int_part (s @ r) = parse_int_part s"
  using takeWhile_digit_delim [of r s]
  by (cases s; cases r) (auto simp: parse_int_part_def json_delim_def is_digit_def)

lemma parse_frac_append:
  assumes "json_delim r"
  shows "parse_frac (s @ r) = parse_frac s"
proof (cases s)
  case Nil
  with assms show ?thesis by (cases r) (auto simp: parse_frac_def json_delim_def)
next
  case (Cons c t)
  with takeWhile_digit_delim [OF assms, of t] show ?thesis by (simp add: parse_frac_def)
qed

lemma parse_exp_append: "json_delim r \<Longrightarrow> parse_exp (s @ r) = parse_exp s"
proof (cases s)
  case Nil
  assume "json_delim r"
  with Nil show ?thesis by (cases r) (auto simp: parse_exp_def json_delim_def)
next
  case (Cons c t)
  assume r: "json_delim r"
  have "exp_sign (t @ r) = exp_sign t"
    using r by (cases t; cases r) (auto simp: exp_sign_def json_delim_def)
  moreover have "length (exp_sign t) \<le> length t" by (cases t) (auto simp: exp_sign_def)
  ultimately show ?thesis using r Cons by (simp add: parse_exp_def takeWhile_digit_delim)
qed

lemma parse_parts_length:
  "length (parse_sign s) \<le> length s" "length (parse_int_part s) \<le> length s"
  "length (parse_frac s) \<le> length s" "length (parse_exp s) \<le> length s"
proof -
  show "length (parse_sign s) \<le> length s" by (cases s) (auto simp: parse_sign_def)
  show "length (parse_int_part s) \<le> length s"
    by (cases s) (auto simp: parse_int_part_def length_takeWhile_le le_SucI)
  show "length (parse_frac s) \<le> length s"
    by (cases s) (auto simp: parse_frac_def length_takeWhile_le)
  show "length (parse_exp s) \<le> length s"
  proof (cases s)
    case (Cons c t)
    have "length (takeWhile is_digit (drop n t)) + n \<le> length t" if "n \<le> length t" for n
      using length_takeWhile_le [of is_digit "drop n t"] that by simp
    from this [of 0] this [of 1] Cons show ?thesis
      by (cases t) (auto simp: parse_exp_def exp_sign_def Let_def le_SucI)
  qed (simp add: parse_exp_def)
qed

lemma parse_number_append:
  assumes "json_delim r"
  shows "parse_number (s @ r) = map_option (\<lambda>(v, q). (v, q @ r)) (parse_number s)"
proof -
  note pa = parse_sign_append [OF assms] parse_int_part_append [OF assms]
    parse_frac_append [OF assms] parse_exp_append [OF assms]
  have drop_part: "length x \<le> length t \<Longrightarrow> drop (length x) (t @ r) = drop (length x) t @ r"
    for x t :: string by simp
  show ?thesis
    by (auto simp: parse_number_def Let_def pa parse_parts_length drop_part
        simp del: drop_append drop_drop length_drop)
qed

lemma parse_int_part_show_nat: "parse_int_part (show_nat n) = show_nat n"
proof (cases "show_nat n")
  case (Cons c t)
  have digits: "takeWhile is_digit (show_nat n) = show_nat n"
    using show_nat_digits by (simp add: takeWhile_eq_all_conv)
  show ?thesis
  proof (cases "c = CHR ''0''")
    case True
    with Cons have "n = 0" using show_nat_hd_zero by simp
    moreover have "digit_char 0 = CHR ''0''" by code_simp
    ultimately show ?thesis by (simp add: parse_int_part_def show_nat.simps)
  next
    case False
    with Cons digits show ?thesis by (simp add: parse_int_part_def)
  qed
qed simp

lemma parse_number_show_int: "parse_number (show_int i) = Some (JInt i, [])"
proof -
  have sg: "parse_sign (show_nat n) = []" for n
  proof (cases "show_nat n")
    case (Cons c t)
    then have "is_digit c" using show_nat_digits [of n] by simp
    with Cons show ?thesis by (auto simp: parse_sign_def is_digit_def)
  qed simp
  have "parse_sign (CHR ''-'' # s) = ''-''" for s by (simp add: parse_sign_def)
  with sg show ?thesis
    by (simp add: parse_number_def show_int_def Let_def parse_int_part_show_nat parse_frac_def parse_exp_def)
qed

text \<open>Every number starts with a digit or a sign.\<close>

lemma parse_number_first:
  assumes "parse_number s = Some v"
  obtains c t where "s = c # t" "is_digit c \<or> c = CHR ''-''"
proof (cases s)
  case Nil
  with assms show ?thesis by (simp add: parse_number_def parse_sign_def parse_int_part_def Let_def)
next
  case (Cons c t)
  have "is_digit (CHR ''0'')" by (simp add: is_digit_def)
  with assms Cons have "is_digit c \<or> c = CHR ''-''"
    by (auto simp: parse_number_def parse_sign_def parse_int_part_def Let_def split: if_splits)
  with Cons that show ?thesis by blast
qed

lemma value_start_number:
  assumes "parse_number s = Some v"
  shows "value_start s" "hd s \<noteq> CHR 0x22" "hd s \<noteq> CHR ''[''" "hd s \<noteq> CHR ''{''"
    "parse_literal s = parse_number s"
proof -
  from parse_number_first [OF assms] obtain c t where s: "s = c # t"
    and c: "is_digit c \<or> c = CHR ''-''" by blast
  from c have nc: "c \<noteq> CHR '' ''" "c \<noteq> CHR 0x09" "c \<noteq> CHR 0x0A" "c \<noteq> CHR 0x0D"
    "c \<noteq> CHR '']''" "c \<noteq> CHR ''}''" "c \<noteq> CHR 0x22" "c \<noteq> CHR ''[''" "c \<noteq> CHR ''{''"
    "c \<noteq> CHR ''n''" "c \<noteq> CHR ''t''" "c \<noteq> CHR ''f''"
    by (auto simp: is_digit_def)
  with s show "value_start s" "hd s \<noteq> CHR 0x22" "hd s \<noteq> CHR ''[''" "hd s \<noteq> CHR ''{''"
    "parse_literal s = parse_number s"
    by (simp_all add: value_start_def json_space_def parse_literal_def)
qed

lemma value_start_canonical: "json_wf v \<Longrightarrow> value_start (canonical_json v)"
proof (cases v)
  case (JInt i)
  then show ?thesis using value_start_number(1) [OF parse_number_show_int] by simp
next
  case (JFloat r)
  assume "json_wf v"
  with JFloat show ?thesis using value_start_number(1) by simp
qed (simp_all add: value_start_def json_space_def json_quote_def)

lemma skip_ws_start: "value_start s \<Longrightarrow> skip_ws (s @ r) = s @ r"
  by (cases s) (auto simp: value_start_def skip_ws_def)

lemma parse_value_number:
  assumes "parse_number s = Some (v, [])" "json_delim r"
  shows "parse_value (Suc n) (s @ r) = Some (v, r)"
proof -
  have p: "parse_number (s @ r) = Some (v, r)"
    using assms by (simp add: parse_number_append)
  obtain c t where "s @ r = c # t" using parse_number_first [OF p] by blast
  with value_start_number [OF p] p show ?thesis by simp
qed

lemma insort_key_fst_map:
  "insort_key fst (k, f v) (map (\<lambda>(k, v). (k, f v)) kvs)
     = map (\<lambda>(k, v). (k, f v)) (insort_key fst (k, v) kvs)"
  by (induction kvs) auto

lemma sort_key_fst_map:
  "sort_key fst (map (\<lambda>(k, v). (k, f v)) kvs) = map (\<lambda>(k, v). (k, f v)) (sort_key fst kvs)"
  by (induction kvs) (auto simp: insort_key_fst_map)

lemma dict_of_distinct: "distinct (map fst kvs) \<Longrightarrow> dict_of kvs = kvs"
proof -
  have "fold (\<lambda>(k, v) d. AList.update k v d) kvs acc = acc @ kvs"
    if "distinct (map fst (acc @ kvs))" for acc
    using that
  proof (induction kvs arbitrary: acc)
    case (Cons kv kvs)
    obtain k v where kv: "kv = (k, v)" by force
    with Cons.prems have "k \<notin> fst ` set acc" by auto
    then have "AList.update k v acc = acc @ [(k, v)]"
      by (induction acc) auto
    moreover have "distinct (map fst ((acc @ [(k, v)]) @ kvs))" using Cons.prems kv by auto
    ultimately show ?case using Cons.IH [of "acc @ [(k, v)]"] kv by simp
  qed simp
  from this [of "[]"] show "distinct (map fst kvs) \<Longrightarrow> dict_of kvs = kvs"
    by (simp add: dict_of_def)
qed

lemma parse_elems_join:
  assumes "vs \<noteq> []" and "\<And>v. v \<in> set vs \<Longrightarrow> json_wf v"
    and "\<And>v n r. v \<in> set vs \<Longrightarrow> json_delim r \<Longrightarrow> 2 * length (canonical_json v) \<le> n
      \<Longrightarrow> parse_value n (canonical_json v @ r) = Some (json_norm v, r)"
    and "2 * length (join_comma (map canonical_json vs)) < n"
  shows "parse_elems n (join_comma (map canonical_json vs) @ CHR '']'' # r) = Some (map json_norm vs, r)"
  using assms
proof (induction vs arbitrary: n rule: list_nonempty_induct)
  case (single v)
  then obtain m where n: "n = Suc m" by (cases n) auto
  have "parse_value m (canonical_json v @ CHR '']'' # r) = Some (json_norm v, CHR '']'' # r)"
    using single n by (intro single(2)) (auto simp: json_delim_def)
  with n show ?case by (simp add: skip_ws_def json_space_def)
next
  case (cons v vs)
  then obtain m where n: "n = Suc m" by (cases n) auto
  obtain w ws where vs: "vs = w # ws" using cons(1) by (cases vs) auto
  let ?rest = "join_comma (map canonical_json vs)"
  have start: "value_start (canonical_json v)" "value_start (canonical_json w)"
    using cons.prems(1) vs by (auto intro: value_start_canonical)
  have len: "2 * (length (canonical_json v) + 1 + length ?rest) < Suc m"
    using cons.prems(3) n vs by simp
  have "value_start ?rest"
    using start(2) vs by (cases ws) (auto simp: value_start_def)
  then have sk: "skip_ws (?rest @ CHR '']'' # r) = ?rest @ CHR '']'' # r" by (rule skip_ws_start)
  have "parse_value m (canonical_json v @ CHR '','' # ?rest @ CHR '']'' # r)
      = Some (json_norm v, CHR '','' # ?rest @ CHR '']'' # r)"
    using len by (intro cons.prems(2)) (auto simp: json_delim_def)
  moreover have "parse_elems m (?rest @ CHR '']'' # r) = Some (map json_norm vs, r)"
    using len start(1) by (intro cons.IH) (auto simp: cons.prems value_start_def)
  ultimately show ?case using n vs sk by (simp add: skip_ws_def json_space_def)
qed

lemma canonical_json_obj:
  "canonical_json (JObj kvs) = ''{'' @ join_comma (map member_text (sort_key fst kvs)) @ ''}''"
  by (simp add: sort_key_fst_map member_text_def [abs_def] comp_def split_beta)

lemma value_start_member: "value_start (member_text kv)"
  by (simp add: member_text_def value_start_def json_quote_def json_space_def)

text \<open>One member and what follows it: the key, the colon and the value are consumed.\<close>

lemma skip_ws_nonspace [simp]: "\<not> json_space c \<Longrightarrow> skip_ws (c # s) = c # s"
  by (simp add: skip_ws_def)

lemma json_space_simps [simp]:
  "\<not> json_space (CHR '','')" "\<not> json_space (CHR '':'')" "\<not> json_space (CHR '']'')"
  "\<not> json_space (CHR ''}'')"
  by (simp_all add: json_space_def)

lemma parse_members_step:
  assumes "skip_ws t = t" and "parse_value m t = Some (v, r)"
  shows "parse_members (Suc m) (json_quote k @ CHR '':'' # t) =
    (case skip_ws r of
       [] \<Rightarrow> None
     | c # r' \<Rightarrow>
         if c = CHR ''}'' then Some ([(k, v)], r')
         else if c = CHR '',''
           then map_option (\<lambda>(kvs, q). ((k, v) # kvs, q)) (parse_members m (skip_ws r'))
         else None)"
  using assms parse_chars_quoted [of k "CHR '':'' # t"] by (simp add: json_quote_def)

lemma parse_members_join:
  assumes "kvs \<noteq> []" and "\<And>kv. kv \<in> set kvs \<Longrightarrow> json_wf (snd kv)"
    and "\<And>kv n r. kv \<in> set kvs \<Longrightarrow> json_delim r \<Longrightarrow> 2 * length (canonical_json (snd kv)) \<le> n
      \<Longrightarrow> parse_value n (canonical_json (snd kv) @ r) = Some (json_norm (snd kv), r)"
    and "2 * length (join_comma (map member_text kvs)) < n"
  shows "parse_members n (join_comma (map member_text kvs) @ CHR ''}'' # r)
     = Some (map (\<lambda>(k, v). (k, json_norm v)) kvs, r)"
  using assms
proof (induction kvs arbitrary: n rule: list_nonempty_induct)
  case (single kv)
  then obtain m where n: "n = Suc m" by (cases n) auto
  obtain k v where kv: "kv = (k, v)" by force
  have "parse_value m (canonical_json v @ CHR ''}'' # r) = Some (json_norm v, CHR ''}'' # r)"
    using single(2) [of kv "CHR ''}'' # r" m] single(3) n kv by (auto simp: json_delim_def member_text_def)
  moreover have "skip_ws (canonical_json v @ CHR ''}'' # r) = canonical_json v @ CHR ''}'' # r"
    using single(1) kv by (auto intro: skip_ws_start value_start_canonical)
  ultimately show ?case using n kv parse_members_step by (simp add: member_text_def)
next
  case (cons kv kvs)
  then obtain m where n: "n = Suc m" by (cases n) auto
  obtain k v where kv: "kv = (k, v)" by force
  obtain w ws where kvs: "kvs = w # ws" using cons(1) by (cases kvs) auto
  let ?rest = "join_comma (map member_text kvs)"
  have len: "2 * (length (member_text kv) + 1 + length ?rest) < Suc m"
    using cons.prems(3) n kvs by simp
  have "value_start ?rest"
    using value_start_member [of w] kvs by (cases ws) (auto simp: value_start_def)
  then have sk: "skip_ws (?rest @ CHR ''}'' # r) = ?rest @ CHR ''}'' # r" by (rule skip_ws_start)
  have "parse_value m (canonical_json v @ CHR '','' # ?rest @ CHR ''}'' # r)
      = Some (json_norm v, CHR '','' # ?rest @ CHR ''}'' # r)"
    using cons.prems(2) [of kv "CHR '','' # ?rest @ CHR ''}'' # r" m] len kv
    by (auto simp: json_delim_def member_text_def)
  moreover have "skip_ws (canonical_json v @ CHR '','' # ?rest @ CHR ''}'' # r)
      = canonical_json v @ CHR '','' # ?rest @ CHR ''}'' # r"
    using cons.prems(1) [of kv] kv by (auto intro: skip_ws_start value_start_canonical)
  moreover have "parse_members m (?rest @ CHR ''}'' # r) = Some (map (\<lambda>(k, v). (k, json_norm v)) kvs, r)"
    using len value_start_member [of kv] by (intro cons.IH) (auto simp: cons.prems value_start_def)
  moreover have "join_comma (map member_text (kv # kvs)) @ CHR ''}'' # r
      = json_quote k @ CHR '':'' # canonical_json v @ CHR '','' # ?rest @ CHR ''}'' # r"
    using kv kvs by (simp add: member_text_def [of "(k, v)"])
  ultimately show ?case using n kv sk parse_members_step by simp
qed

lemma parse_value_canonical:
  "json_wf v \<Longrightarrow> json_delim r \<Longrightarrow> 2 * length (canonical_json v) \<le> n
    \<Longrightarrow> parse_value n (canonical_json v @ r) = Some (json_norm v, r)"
proof (induction v arbitrary: n r)
  case JNull
  then obtain m where "n = Suc m" by (cases n) auto
  then show ?case by (simp add: parse_literal_def)
next
  case (JBool b)
  then obtain m where "n = Suc m" by (cases n) (auto split: if_splits)
  then show ?case by (simp add: parse_literal_def)
next
  case (JInt i)
  then obtain m where "n = Suc m" by (cases n) (auto simp: show_int_def split: if_splits)
  then show ?case using JInt parse_value_number [OF parse_number_show_int] by simp
next
  case (JFloat f)
  then have "f \<noteq> []" using value_start_canonical [of "JFloat f"] by (simp add: value_start_def)
  with JFloat obtain m where "n = Suc m" by (cases n) auto
  then show ?case using JFloat parse_value_number [of f "JFloat f" r m] by simp
next
  case (JStr s)
  then obtain m where "n = Suc m" by (cases n) (auto simp: json_quote_def)
  then show ?case using parse_chars_quoted [of s r] by (simp add: json_quote_def)
next
  case (JList vs)
  then obtain m where n: "n = Suc m" by (cases n) auto
  show ?case
  proof (cases "vs = []")
    case True
    with n show ?thesis by (simp add: skip_ws_def json_space_def)
  next
    case False
    let ?body = "join_comma (map canonical_json vs)"
    have body: "parse_elems m (?body @ CHR '']'' # r) = Some (map json_norm vs, r)"
      using JList n False by (intro parse_elems_join) auto
    have st: "value_start ?body"
      using False JList.prems(1) value_start_canonical
      by (cases vs rule: remdups_adj.cases) (auto simp: value_start_def)
    then obtain c t where ct: "?body = c # t" by (cases ?body) (auto simp: value_start_def)
    with st body n show ?thesis
      using skip_ws_start [OF st, of "CHR '']'' # r"] by (simp add: value_start_def)
  qed
next
  case (JObj kvs)
  then obtain m where n: "n = Suc m" by (cases n) auto
  show ?case
  proof (cases "kvs = []")
    case True
    with n show ?thesis by (simp add: skip_ws_def json_space_def)
  next
    case False
    let ?kvs = "sort_key fst kvs"
    let ?body = "join_comma (map member_text ?kvs)"
    have ne: "?kvs \<noteq> []" using False by (metis length_0_conv length_sort)
    have len: "2 * length ?body < m" using JObj.prems(3) n by (simp only: canonical_json_obj) auto
    have IH: "parse_value n (canonical_json (snd kv) @ r) = Some (json_norm (snd kv), r)"
      if "kv \<in> set ?kvs" "json_delim r" "2 * length (canonical_json (snd kv)) \<le> n" for kv n r
      using JObj.IH [of kv "snd kv" r n] JObj.prems(1) that by (cases kv) auto
    have body: "parse_members m (?body @ CHR ''}'' # r)
        = Some (map (\<lambda>(k, v). (k, json_norm v)) ?kvs, r)"
      using JObj.prems(1) ne len IH by (intro parse_members_join) auto
    have st: "value_start ?body"
      using ne value_start_member
      by (cases ?kvs rule: remdups_adj.cases) (auto simp: value_start_def)
    then obtain c t where ct: "?body = c # t" by (cases ?body) (auto simp: value_start_def)
    have "distinct (map fst ?kvs)" using JObj.prems(1) by (simp add: distinct_map)
    then have "dict_of (map (\<lambda>(k, v). (k, json_norm v)) ?kvs) = map (\<lambda>(k, v). (k, json_norm v)) ?kvs"
      by (intro dict_of_distinct) (simp add: comp_def split_beta)
    with st body n ct show ?thesis
      using skip_ws_start [OF st, of "CHR ''}'' # r"]
      by (simp add: value_start_def canonical_json_obj sort_key_fst_map del: canonical_json.simps(7))
  qed
qed

lemma strict_json_loads_canonical:
  assumes "json_wf v"
  shows "strict_json_loads (canonical_json v) = Inr (json_norm v)"
proof -
  have "parse_value (parse_fuel (canonical_json v)) (canonical_json v @ []) = Some (json_norm v, [])"
    using assms by (intro parse_value_canonical) (simp_all add: json_delim_def parse_fuel_def)
  moreover have "skip_ws (canonical_json v) = canonical_json v"
    using skip_ws_start [OF value_start_canonical [OF assms], of "[]"] by simp
  ultimately show ?thesis by (simp add: strict_json_loads_def skip_ws_def)
qed

lemma canonical_json_norm [simp]: "canonical_json (json_norm v) = canonical_json v"
proof (induction v)
  case (JObj kvs)
  have "map (member_text \<circ> (\<lambda>(k, v). (k, json_norm v))) (sort_key fst kvs) = map member_text (sort_key fst kvs)"
    using JObj by (auto simp: member_text_def)
  then show ?case
    by (simp add: canonical_json_obj sort_key_fst_map sort_key_id_if_sorted
        del: canonical_json.simps(7) map_eq_conv)
qed (simp_all cong: map_cong)

text \<open>The digest of a value fixes the value up to the order of its keys, or exhibits a collision.\<close>

lemma canonical_json_inject:
  "json_wf v \<Longrightarrow> json_wf w \<Longrightarrow> canonical_json v = canonical_json w \<longleftrightarrow> json_norm v = json_norm w"
  by (metis canonical_json_norm strict_json_loads_canonical sum.inject(2))

lemma distinct_map_fst_sort: "distinct (map fst kvs) \<Longrightarrow> distinct (map fst (sort_key fst kvs))"
  by (simp add: distinct_map)

lemma map_of_sort_key_fst:
  assumes "distinct (map fst kvs)"
  shows "map_of (sort_key fst kvs) = map_of kvs"
  using assms by (intro ext) (metis (no_types, lifting) distinct_map_fst_sort map_of_eq_Some_iff
      not_None_eq set_sort)

lemma json_norm_obj_lookup:
  assumes "distinct (map fst a)" "distinct (map fst b)" "json_norm (JObj a) = json_norm (JObj b)"
  shows "map_option json_norm (map_of a k) = map_option json_norm (map_of b k)"
proof -
  have *: "map_of (map (\<lambda>(k, v). (k, json_norm v)) c) k = map_option json_norm (map_of c k)" for c
    by (induction c) auto
  have "map_of (sort_key fst (map (\<lambda>(k, v). (k, json_norm v)) c))
      = map_of (map (\<lambda>(k, v). (k, json_norm v)) c)" if "distinct (map fst c)" for c
    using that by (intro map_of_sort_key_fst) (simp add: comp_def split_beta)
  from this [OF assms(1)] this [OF assms(2)] assms(3)
  have "map_of (map (\<lambda>(k, v). (k, json_norm v)) a) = map_of (map (\<lambda>(k, v). (k, json_norm v)) b)" by simp
  then show ?thesis by (simp flip: *)
qed

lemma canonical_json_obj_inject:
  assumes "distinct (map fst a)" "map fst b = map fst a"
    "\<forall>v\<in>set (map snd a). json_wf v" "\<forall>v\<in>set (map snd b). json_wf v"
  shows "canonical_json (JObj a) = canonical_json (JObj b)
    \<longleftrightarrow> map (json_norm \<circ> snd) a = map (json_norm \<circ> snd) b"
proof
  assume "canonical_json (JObj a) = canonical_json (JObj b)"
  with assms have n: "json_norm (JObj a) = json_norm (JObj b)"
    by (subst (asm) canonical_json_inject) auto
  show "map (json_norm \<circ> snd) a = map (json_norm \<circ> snd) b"
  proof (rule nth_equalityI)
    show "length (map (json_norm \<circ> snd) a) = length (map (json_norm \<circ> snd) b)"
      using assms(2) by (metis length_map)
    fix i assume "i < length (map (json_norm \<circ> snd) a)"
    then have i: "i < length a" "i < length b" using assms(2) by (simp, metis length_map)
    then have k: "fst (a ! i) = fst (b ! i)" using assms(2) by (metis nth_map)
    have la: "map_of a (fst (a ! i)) = Some (snd (a ! i))"
      using assms(1) i by (intro map_of_is_SomeI) simp_all
    have lb: "map_of b (fst (b ! i)) = Some (snd (b ! i))"
      using assms(1,2) i by (intro map_of_is_SomeI) simp_all
    from json_norm_obj_lookup [OF _ _ n, of "fst (a ! i)"] la lb k assms(1,2)
    have "Some (json_norm (snd (a ! i))) = Some (json_norm (snd (b ! i)))" by (metis option.map(2))
    then show "map (json_norm \<circ> snd) a ! i = map (json_norm \<circ> snd) b ! i" using i by simp
  qed
next
  assume eq: "map (json_norm \<circ> snd) a = map (json_norm \<circ> snd) b"
  have z: "map (\<lambda>(k, v). (k, json_norm v)) c = zip (map fst c) (map (json_norm \<circ> snd) c)" for c
    by (induction c) auto
  have "json_norm (JObj a) = json_norm (JObj b)" by (simp only: json_norm.simps z eq assms(2))
  then show "canonical_json (JObj a) = canonical_json (JObj b)" by (metis canonical_json_norm)
qed

lemma skip_ws_length: "length (skip_ws s) \<le> length s"
  by (simp add: skip_ws_def length_dropWhile_le)

lemma skip_ws_Cons: "skip_ws s = c # t \<Longrightarrow> length t < length s"
  using skip_ws_length [of s] by simp

lemma cons_char_Some: "cons_char c p = Some (t, r) \<longleftrightarrow> (\<exists>u. p = Some (u, r) \<and> t = c # u)"
  by (auto simp: cons_char_def)

lemma parse_chars_length: "parse_chars s = Some (t, r) \<Longrightarrow> length r < length s"
proof (induction "length s" arbitrary: s t r rule: less_induct)
  case less
  have IH: "parse_chars u = Some (v, q) \<Longrightarrow> length u < length s \<Longrightarrow> length q < length u" for u v q
    by (rule less.hyps)
  show ?case
  proof (cases s)
    case (Cons c u)
    with less.prems show ?thesis
      by (auto simp: cons_char_Some split: if_splits list.splits option.splits dest!: IH)
  qed (use less.prems in simp)
qed

lemma strip_prefix_length: "strip_prefix p s = Some r \<Longrightarrow> length s = length p + length r"
  by (induction p s rule: strip_prefix.induct) (auto split: if_splits)

lemma parse_number_length:
  assumes "parse_number s = Some (v, r)"
  shows "length r < length s"
proof -
  define sg r0 where "sg = parse_sign s" and "r0 = drop (length sg) s"
  define ds where "ds = parse_int_part r0"
  define r1 where "r1 = drop (length ds) r0"
  from assms have "ds \<noteq> []"
    by (auto simp: parse_number_def Let_def ds_def r0_def sg_def)
  then have "length r1 < length r0"
    using parse_parts_length(2) [of r0] by (cases r0) (auto simp: r1_def ds_def)
  moreover have "length r \<le> length r1"
    using assms by (auto simp: parse_number_def Let_def ds_def r0_def r1_def sg_def split: if_splits)
  moreover have "length r0 \<le> length s" by (simp add: r0_def)
  ultimately show ?thesis by simp
qed

lemma parse_literal_length: "parse_literal s = Some (v, r) \<Longrightarrow> length r < length s"
  by (auto simp: parse_literal_def parse_number_length split: option.splits dest!: strip_prefix_length)

text \<open>Every parser consumes input, so nested calls run on shorter and shorter text.\<close>

lemma parse_length:
  "(\<forall>s v r. parse_value n s = Some (v, r) \<longrightarrow> length r < length s) \<and>
   (\<forall>s vs r. parse_elems n s = Some (vs, r) \<longrightarrow> length r < length s) \<and>
   (\<forall>s kvs r. parse_members n s = Some (kvs, r) \<longrightarrow> length r < length s)"
proof (induction n)
  case (Suc n)
  have val: "parse_value n s = Some (v, r) \<Longrightarrow> length r < length s" for s v r using Suc by blast
  have els: "parse_elems n s = Some (vs, r) \<Longrightarrow> length r < length s" for s vs r using Suc by blast
  have mem: "parse_members n s = Some (kvs, r) \<Longrightarrow> length r < length s" for s kvs r using Suc by blast
  have 1: "length r < length s" if "parse_value (Suc n) s = Some (v, r)" for s v r
    using that
    by (auto split: if_splits list.splits dest!: parse_chars_length parse_literal_length skip_ws_Cons els mem)
  have 2: "length r < length s" if "parse_elems (Suc n) s = Some (vs, r)" for s vs r
  proof -
    from that obtain v q where q: "parse_value n s = Some (v, q)" by (auto split: option.splits)
    from that q val [OF q] show ?thesis
      by (auto split: if_splits list.splits dest!: skip_ws_Cons els)
        (meson le_less_trans less_trans skip_ws_length)
  qed
  have 3: "length r < length s" if "parse_members (Suc n) s = Some (kvs, r)" for s kvs r
  proof -
    from that obtain s1 k s2 s3 v q where s: "s = CHR 0x22 # s1" and k: "parse_chars s1 = Some (k, s2)"
      and c: "skip_ws s2 = CHR '':'' # s3" and q: "parse_value n (skip_ws s3) = Some (v, q)"
      by (auto split: option.splits list.splits if_splits)
    have "length q < length s"
      using val [OF q] skip_ws_length [of s3] skip_ws_Cons [OF c] parse_chars_length [OF k] s by simp
    with that s k c q show ?thesis
      by (auto split: if_splits list.splits dest!: skip_ws_Cons mem)
        (meson le_less_trans less_trans skip_ws_length)
  qed
  from 1 2 3 show ?case by blast
qed simp

text \<open>Fuel: beyond twice the length of the input it changes nothing.\<close>

lemma parse_fuel_step:
  "(\<forall>s. 2 * length s < n \<longrightarrow> parse_value (Suc n) s = parse_value n s) \<and>
   (\<forall>s. 2 * length s + 1 < n \<longrightarrow> parse_elems (Suc n) s = parse_elems n s) \<and>
   (\<forall>s. 2 * length s + 1 < n \<longrightarrow> parse_members (Suc n) s = parse_members n s)"
proof (induction n)
  case (Suc n)
  have val: "2 * length s < n \<Longrightarrow> parse_value (Suc n) s = parse_value n s" for s using Suc by blast
  have els: "2 * length s + 1 < n \<Longrightarrow> parse_elems (Suc n) s = parse_elems n s" for s using Suc by blast
  have mem: "2 * length s + 1 < n \<Longrightarrow> parse_members (Suc n) s = parse_members n s" for s using Suc by blast
  have 1: "parse_value (Suc (Suc n)) s = parse_value (Suc n) s" if "2 * length s < Suc n" for s
  proof (cases s)
    case (Cons c t)
    have "parse_elems (Suc n) (d # u) = parse_elems n (d # u)"
      "parse_members (Suc n) (d # u) = parse_members n (d # u)" if "skip_ws t = d # u" for d u
    proof -
      have l: "2 * length (d # u) + 1 < n"
        using skip_ws_Cons [OF that] Cons \<open>2 * length s < Suc n\<close> by simp
      show "parse_elems (Suc n) (d # u) = parse_elems n (d # u)" by (rule els [OF l])
      show "parse_members (Suc n) (d # u) = parse_members n (d # u)" by (rule mem [OF l])
    qed
    then show ?thesis using Cons
      by (simp only: parse_value.simps list.case) (simp split: list.split)
  qed simp
  have 2: "parse_elems (Suc (Suc n)) s = parse_elems (Suc n) s" if l: "2 * length s + 1 < Suc n" for s
  proof -
    have v: "parse_value (Suc n) s = parse_value n s" using l by (intro val) simp
    have "parse_elems (Suc n) (skip_ws u) = parse_elems n (skip_ws u)"
      if "parse_value n s = Some (w, r)" "skip_ws r = c # u" for w r c u
    proof -
      have "length r < length s" using parse_length that(1) by blast
      with skip_ws_Cons [OF that(2)] skip_ws_length [of u] l show ?thesis by (intro els) simp
    qed
    then show ?thesis
      by (simp only: parse_elems.simps v) (simp split: option.split list.split prod.split)
  qed
  have 3: "parse_members (Suc (Suc n)) s = parse_members (Suc n) s" if l: "2 * length s + 1 < Suc n" for s
  proof -
    have v: "parse_value (Suc n) (skip_ws s3) = parse_value n (skip_ws s3)"
      and m: "parse_value n (skip_ws s3) = Some (w, r) \<Longrightarrow> skip_ws r = c # u \<Longrightarrow>
        parse_members (Suc n) (skip_ws u) = parse_members n (skip_ws u)"
      if "s = q0 # s1" "parse_chars s1 = Some (k, s2)" "skip_ws s2 = cl # s3" for q0 s1 k s2 cl s3 w r c u
    proof -
      have s3: "length s3 + 2 < length s"
        using parse_chars_length [OF that(2)] skip_ws_Cons [OF that(3)] that(1) by simp
      show "parse_value (Suc n) (skip_ws s3) = parse_value n (skip_ws s3)"
        using s3 skip_ws_length [of s3] l by (intro val) simp
      assume r: "parse_value n (skip_ws s3) = Some (w, r)" "skip_ws r = c # u"
      have "length r < length (skip_ws s3)" using parse_length r(1) by blast
      with skip_ws_Cons [OF r(2)] skip_ws_length [of u] skip_ws_length [of s3] s3 l
      show "parse_members (Suc n) (skip_ws u) = parse_members n (skip_ws u)" by (intro mem) simp
    qed
    then show ?thesis
      by (simp only: parse_members.simps) (simp split: option.split list.split prod.split)
  qed
  from 1 2 3 show ?case by blast
qed simp

lemma parse_fuel_enough:
  assumes "parse_fuel s \<le> n"
  shows "parse_value n (skip_ws s) = parse_value (parse_fuel s) (skip_ws s)"
  using assms
proof (induction n rule: dec_induct)
  case (step n)
  have "2 * length (skip_ws s) < n"
    using step(1) skip_ws_length [of s] by (simp add: parse_fuel_def)
  with step show ?case using parse_fuel_step by metis
qed simp

section \<open>Properties\<close>

text \<open>
  C32. Every value written by \<open>canonical_json\<close> is read back by \<open>strict_json_loads\<close>, with
  the keys of its objects in order, and the value read back has the same canonical text.
\<close>

theorem json_roundtrip:
  assumes "json_wf v"
  shows "strict_json_loads (canonical_json v) = Inr (json_norm v)
    \<and> canonical_json (json_norm v) = canonical_json v"
  using assms by (simp add: strict_json_loads_canonical)

theorem json_roundtrip_witness:
  "strict_json_loads (canonical_json (JObj [(''b'', JInt (- 12)), (''a'', JList [JStr [CHR 0x22], JNull])]))
    = Inr (JObj [(''a'', JList [JStr [CHR 0x22], JNull]), (''b'', JInt (- 12))])"
  using json_roundtrip [of "JObj [(''b'', JInt (- 12)), (''a'', JList [JStr [CHR 0x22], JNull])]"]
  by simp

text \<open>
  C33. Two values have the same \<open>content_hash\<close> exactly when they are equal up to the order
  of keys, or when their canonical texts are an explicit collision of the digest.
\<close>

theorem content_hash_binds:
  assumes "json_wf v" "json_wf w"
  shows "content_hash h v = content_hash h w \<longleftrightarrow>
    json_norm v = json_norm w
    \<or> canonical_json v \<noteq> canonical_json w \<and> h (canonical_json v) = h (canonical_json w)"
  using canonical_json_inject [OF assms] by (auto simp: content_hash_def)

theorem content_hash_binds_witness:
  "content_hash (\<lambda>s. s) (JObj [(''b'', JInt 1), (''a'', JInt 2)])
     = content_hash (\<lambda>s. s) (JObj [(''a'', JInt 2), (''b'', JInt 1)])
   \<and> content_hash (\<lambda>s. s) (JObj [(''a'', JInt 1)]) \<noteq> content_hash (\<lambda>s. s) (JObj [(''a'', JStr ''1'')])"
  using content_hash_binds [of "JObj [(''b'', JInt 1), (''a'', JInt 2)]" "JObj [(''a'', JInt 2), (''b'', JInt 1)]" "\<lambda>s. s"]
    content_hash_binds [of "JObj [(''a'', JInt 1)]" "JObj [(''a'', JStr ''1'')]" "\<lambda>s. s"]
  by simp

end
