(* ===== verification/PyTime.thy ===== *)
theory PyTime
  imports Prelude
begin

text \<open>
  The part of \<^verbatim>\<open>datetime\<close> the program uses, and the timestamp helpers built on it:
  \<open>canonical_timestamp\<close> of \<^verbatim>\<open>wallet/types.py\<close>,
  \<open>EventStore._normalize_timestamp\<close> of \<^verbatim>\<open>core/events.py\<close>,
  \<open>validate_wallet_timestamp\<close> of \<^verbatim>\<open>core/wallet_schema.py\<close> and \<open>_parse_time\<close> of
  \<^verbatim>\<open>wallet/economy.py\<close> and \<^verbatim>\<open>autonomy/workflow.py\<close>.  A datetime is the record of its
  calendar fields and its offset from UTC in seconds (absent for a naive one).
  \<open>fromisoformat\<close> reads the extended calendar format (any separator, optional minutes,
  seconds with a fraction, \<open>Z\<close> or a numeric offset in whole seconds); the basic and week formats
  and offsets with a fraction, which Python accepts too and the program never writes, are
  rejected.  The main result is that the text order of
  canonical timestamps, by which the SQL queries compare, is the order of time.
\<close>

section \<open>Calendar\<close>

record datetime =
  dt_year :: nat
  dt_month :: nat
  dt_day :: nat
  dt_hour :: nat
  dt_minute :: nat
  dt_second :: nat
  dt_micro :: nat
  dt_offset :: "int option"

definition is_leap :: "nat \<Rightarrow> bool" where
  "is_leap y = (y mod 4 = 0 \<and> (y mod 100 \<noteq> 0 \<or> y mod 400 = 0))"

definition days_in_month :: "nat \<Rightarrow> nat \<Rightarrow> nat" where
  "days_in_month y m =
     (if m = 2 then (if is_leap y then 29 else 28)
      else if m = 4 \<or> m = 6 \<or> m = 9 \<or> m = 11 then 30 else 31)"

definition valid_fields :: "nat \<Rightarrow> nat \<Rightarrow> nat \<Rightarrow> nat \<Rightarrow> nat \<Rightarrow> nat \<Rightarrow> bool" where
  "valid_fields y m d h mi s =
     (1 \<le> y \<and> y \<le> 9999 \<and> 1 \<le> m \<and> m \<le> 12 \<and> 1 \<le> d \<and> d \<le> days_in_month y m
      \<and> h < 24 \<and> mi < 60 \<and> s < 60)"

definition valid_datetime :: "datetime \<Rightarrow> bool" where
  "valid_datetime d =
     (valid_fields (dt_year d) (dt_month d) (dt_day d) (dt_hour d) (dt_minute d) (dt_second d)
      \<and> dt_micro d < 1000000)"

definition next_day :: "nat \<times> nat \<times> nat \<Rightarrow> (nat \<times> nat \<times> nat) res" where
  "next_day ymd = (case ymd of (y, m, d) \<Rightarrow>
     if d < days_in_month y m then Inr (y, m, d + 1)
     else if m < 12 then Inr (y, m + 1, 1)
     else if y < 9999 then Inr (y + 1, 1, 1)
     else Inl (OverflowError ''date value out of range''))"

definition prev_day :: "nat \<times> nat \<times> nat \<Rightarrow> (nat \<times> nat \<times> nat) res" where
  "prev_day ymd = (case ymd of (y, m, d) \<Rightarrow>
     if 1 < d then Inr (y, m, d - 1)
     else if 1 < m then Inr (y, m - 1, days_in_month y (m - 1))
     else if 1 < y then Inr (y - 1, 12, 31)
     else Inl (OverflowError ''date value out of range''))"

text \<open>\<open>astimezone(UTC)\<close> of an aware datetime: an offset is shorter than a day.\<close>

definition astimezone_utc :: "datetime \<Rightarrow> datetime res" where
  "astimezone_utc d =
     (case dt_offset d of
        None \<Rightarrow> Inl (ValueError ''naive datetime'')
      | Some off \<Rightarrow>
          let t = int (dt_hour d * 3600 + dt_minute d * 60 + dt_second d) - off;
              ymd = (dt_year d, dt_month d, dt_day d)
          in res_bind (if t < 0 then prev_day ymd else if t \<ge> 86400 then next_day ymd else Inr ymd)
            (\<lambda>(y, m, dd).
              let u = nat (t mod 86400)
              in Inr (d\<lparr>dt_year := y, dt_month := m, dt_day := dd, dt_hour := u div 3600,
                       dt_minute := u div 60 mod 60, dt_second := u mod 60, dt_offset := Some 0\<rparr>)))"

definition days_before_year :: "nat \<Rightarrow> nat" where
  "days_before_year y = (y - 1) * 365 + (y - 1) div 4 + (y - 1) div 400 - (y - 1) div 100"

fun days_before_month :: "nat \<Rightarrow> nat \<Rightarrow> nat" where
  "days_before_month y 0 = 0"
| "days_before_month y (Suc m) = (if m = 0 then 0 else days_before_month y m + days_in_month y m)"

definition dt_days :: "datetime \<Rightarrow> nat" where
  "dt_days d = days_before_year (dt_year d) + days_before_month (dt_year d) (dt_month d) + dt_day d"

text \<open>Microseconds from the start of the calendar, for a datetime in UTC.\<close>

definition dt_micros :: "datetime \<Rightarrow> nat" where
  "dt_micros d =
     (((dt_days d * 24 + dt_hour d) * 60 + dt_minute d) * 60 + dt_second d) * 1000000 + dt_micro d"

definition start_of_day :: "datetime \<Rightarrow> datetime" where
  "start_of_day d = d\<lparr>dt_hour := 0, dt_minute := 0, dt_second := 0, dt_micro := 0\<rparr>"

definition start_of_month :: "datetime \<Rightarrow> datetime" where
  "start_of_month d = (start_of_day d)\<lparr>dt_day := 1\<rparr>"

section \<open>Text\<close>

fun pad :: "nat \<Rightarrow> nat \<Rightarrow> string" where
  "pad 0 n = []"
| "pad (Suc k) n = pad k (n div 10) @ [digit_char (n mod 10)]"

definition iso_seconds :: "datetime \<Rightarrow> string" where
  "iso_seconds d =
     pad 4 (dt_year d) @ ''-'' @ pad 2 (dt_month d) @ ''-'' @ pad 2 (dt_day d) @ ''T''
     @ pad 2 (dt_hour d) @ '':'' @ pad 2 (dt_minute d) @ '':'' @ pad 2 (dt_second d)"

text \<open>\<open>isoformat(timespec="milliseconds")\<close> and \<open>isoformat()\<close> of a datetime in UTC.\<close>

definition isoformat_ms :: "datetime \<Rightarrow> string" where
  "isoformat_ms d = iso_seconds d @ ''.'' @ pad 3 (dt_micro d div 1000) @ ''+00:00''"

definition isoformat :: "datetime \<Rightarrow> string" where
  "isoformat d =
     iso_seconds d @ (if dt_micro d = 0 then [] else ''.'' @ pad 6 (dt_micro d)) @ ''+00:00''"

definition read_digits :: "nat \<Rightarrow> string \<Rightarrow> (nat \<times> string) option" where
  "read_digits k s =
     (if length (take k s) = k \<and> list_all is_digit (take k s)
      then Some (nat_of_digits (take k s), drop k s) else None)"

definition read_char :: "char \<Rightarrow> string \<Rightarrow> string option" where
  "read_char c s = (case s of [] \<Rightarrow> None | d # r \<Rightarrow> if d = c then Some r else None)"

text \<open>An optional \<open>:MM\<close> or \<open>:SS\<close> part: absent parts are zero.\<close>

definition read_part :: "string \<Rightarrow> (nat \<times> string) option" where
  "read_part s = (case read_char (CHR '':'') s of None \<Rightarrow> Some (0, s) | Some r \<Rightarrow> read_digits 2 r)"

definition read_hms :: "string \<Rightarrow> (nat \<times> nat \<times> nat \<times> string) option" where
  "read_hms s =
     Option.bind (read_digits 2 s) (\<lambda>(h, r1).
     Option.bind (read_part r1) (\<lambda>(m, r2).
     Option.bind (if read_char (CHR '':'') r1 = None then Some (0, r2) else read_part r2) (\<lambda>(sec, r3).
     Some (h, m, sec, r3))))"

definition read_fraction :: "string \<Rightarrow> (nat \<times> string) option" where
  "read_fraction s =
     (case s of [] \<Rightarrow> Some (0, [])
      | c # r \<Rightarrow>
          if c = CHR ''.'' \<or> c = CHR '','' then
            (let ds = takeWhile is_digit r
             in if ds = [] then None
                else Some (nat_of_digits (take 6 (ds @ replicate 6 (CHR ''0''))), dropWhile is_digit r))
          else Some (0, s))"

definition read_offset :: "string \<Rightarrow> int option option" where
  "read_offset s =
     (case s of [] \<Rightarrow> Some None
      | c # r \<Rightarrow>
          if c = CHR ''Z'' then (if r = [] then Some (Some 0) else None)
          else if c = CHR ''+'' \<or> c = CHR ''-'' then
            Option.bind (read_hms r) (\<lambda>(h, m, sec, q).
              if q \<noteq> [] \<or> h \<ge> 24 \<or> m \<ge> 60 \<or> sec \<ge> 60 then None
              else let off = int (h * 3600 + m * 60 + sec)
                   in Some (Some (if c = CHR ''+'' then off else - off)))
          else None)"

text \<open>The fraction belongs to the seconds: it is read only after \<open>HH:MM:SS\<close>.\<close>

definition has_seconds :: "string \<Rightarrow> bool" where
  "has_seconds s = (take 1 (drop 2 s) = '':'' \<and> take 1 (drop 5 s) = '':'')"

definition read_time :: "string \<Rightarrow> (nat \<times> nat \<times> nat \<times> nat \<times> int option) option" where
  "read_time s =
     Option.bind (read_hms s) (\<lambda>(h, m, sec, r).
     Option.bind (if has_seconds s then read_fraction r else Some (0, r)) (\<lambda>(us, r').
     Option.bind (read_offset r') (\<lambda>off.
     Some (h, m, sec, us, off))))"

definition read_date :: "string \<Rightarrow> (nat \<times> nat \<times> nat \<times> string) option" where
  "read_date s =
     Option.bind (read_digits 4 s) (\<lambda>(y, r1).
     Option.bind (read_char (CHR ''-'') r1) (\<lambda>r2.
     Option.bind (read_digits 2 r2) (\<lambda>(m, r3).
     Option.bind (read_char (CHR ''-'') r3) (\<lambda>r4.
     Option.bind (read_digits 2 r4) (\<lambda>(d, r5).
     Some (y, m, d, r5))))))"

definition fromisoformat :: "string \<Rightarrow> datetime res" where
  "fromisoformat s =
     (case read_date s of
        None \<Rightarrow> Inl (ValueError ''Invalid isoformat string'')
      | Some (y, m, d, r) \<Rightarrow>
          (case (case r of [] \<Rightarrow> Some (0, 0, 0, 0, None) | _ # t \<Rightarrow> read_time t) of
             None \<Rightarrow> Inl (ValueError ''Invalid isoformat string'')
           | Some (h, mi, sec, us, off) \<Rightarrow>
               if valid_fields y m d h mi sec
               then Inr \<lparr>dt_year = y, dt_month = m, dt_day = d, dt_hour = h, dt_minute = mi,
                         dt_second = sec, dt_micro = us, dt_offset = off\<rparr>
               else Inl (ValueError ''field is out of range'')))"

section \<open>The program's timestamp helpers\<close>

text \<open>\<open>canonical_timestamp\<close> of the wallet's input types.\<close>

definition canonical_timestamp :: "string \<Rightarrow> string res" where
  "canonical_timestamp value =
     res_bind (res_wrap (ValueError ''wallet observation time must be ISO-8601'') (fromisoformat value))
       (\<lambda>parsed.
         if dt_offset parsed = None
         then Inl (ValueError ''wallet observation time must include a timezone'')
         else res_bind (astimezone_utc parsed) (\<lambda>u. Inr (isoformat_ms u)))"

text \<open>The calendar fields of a timestamp to the millisecond, most significant first.\<close>

definition dt_key :: "datetime \<Rightarrow> nat list" where
  "dt_key d = [dt_year d, dt_month d, dt_day d, dt_hour d, dt_minute d, dt_second d, dt_micro d div 1000]"

text \<open>\<open>EventStore._normalize_timestamp\<close>.\<close>

definition normalize_timestamp :: "string \<Rightarrow> string res" where
  "normalize_timestamp value =
     res_bind (res_wrap (ValueError ''event occurred_at must be an ISO-8601 timestamp'') (fromisoformat value))
       (\<lambda>parsed.
         if dt_offset parsed = None
         then Inl (ValueError ''event occurred_at must include a timezone'')
         else res_bind (astimezone_utc parsed) (\<lambda>u. Inr (isoformat_ms u)))"

text \<open>\<open>validate_wallet_timestamp\<close>: the guard of every ledger and policy digest.\<close>

definition validate_wallet_timestamp :: "string \<Rightarrow> string res" where
  "validate_wallet_timestamp value =
     res_bind (fromisoformat value) (\<lambda>parsed.
       if dt_offset parsed = None then Inl (ValueError ''wallet timestamp must include a timezone'')
       else Inr value)"

text \<open>\<open>_parse_time\<close> of the wallet economy.\<close>

definition parse_time :: "string \<Rightarrow> datetime res" where
  "parse_time value =
     res_bind (fromisoformat value) (\<lambda>parsed.
       if dt_offset parsed = None then Inl (ValueError ''timestamp must include timezone'')
       else astimezone_utc parsed)"

section \<open>Reading back what is written\<close>

lemma length_pad [simp]: "length (pad k n) = k"
  by (induction k arbitrary: n) auto

lemma pad_digits: "\<forall>c\<in>set (pad k n). is_digit c"
  by (induction k arbitrary: n) auto

lemma nat_of_digits_pad: "nat_of_digits (pad k n) = n mod 10 ^ k"
proof (induction k arbitrary: n)
  case (Suc k)
  have "10 * (n div 10 mod 10 ^ k) + n mod 10 = n mod 10 ^ Suc k"
    using mod_mult2_eq [of n 10 "10 ^ k"] by (simp add: mult.commute)
  with Suc show ?case by simp
qed simp

lemma read_digits_pad [simp]: "n < 10 ^ k \<Longrightarrow> read_digits k (pad k n @ r) = Some (n, r)"
  by (simp add: read_digits_def nat_of_digits_pad list_all_iff pad_digits)

lemma read_char_simps [simp]:
  "read_char c (d # r) = (if d = c then Some r else None)" "read_char c [] = None"
  by (simp_all add: read_char_def)

lemma digit_not_sep:
  "is_digit c \<Longrightarrow> c \<noteq> CHR '':'' \<and> c \<noteq> CHR ''+'' \<and> c \<noteq> CHR ''-'' \<and> c \<noteq> CHR ''.''"
  by (auto simp: is_digit_def)

lemma pad_append_digit: "takeWhile is_digit (pad k n @ c # r) = pad k n" if "\<not> is_digit c"
  using that by (simp add: takeWhile_append2 pad_digits)

lemma read_hms_pad [simp]:
  assumes "h < 100" "m < 100" "s < 100" "r = [] \<or> hd r \<noteq> CHR '':''"
  shows "read_hms (pad 2 h @ CHR '':'' # pad 2 m @ CHR '':'' # pad 2 s @ r) = Some (h, m, s, r)"
  using assms by (simp add: read_hms_def read_part_def)

lemma read_offset_utc: "read_offset ''+00:00'' = Some (Some 0)"
  by code_simp

lemma read_fraction_pad:
  assumes "0 < k" "\<not> is_digit c"
  shows "read_fraction (CHR ''.'' # pad k n @ c # r)
    = Some (nat_of_digits (take 6 (pad k n @ replicate 6 (CHR ''0''))), c # r)"
proof -
  have "dropWhile is_digit (pad k n @ c # r) = c # r"
    using assms(2) by (simp add: dropWhile_append2 pad_digits)
  moreover have "pad k n \<noteq> []" using assms(1) by (metis length_0_conv length_pad less_not_refl)
  ultimately show ?thesis
    using assms(2) by (simp add: read_fraction_def pad_append_digit)
qed

lemma valid_bounds:
  assumes "valid_datetime d"
  shows "dt_year d < 10000" "dt_month d < 100" "dt_day d < 100" "dt_hour d < 100"
    "dt_minute d < 100" "dt_second d < 100" "dt_micro d < 1000000"
proof -
  have "days_in_month y m \<le> 31" for y m by (simp add: days_in_month_def)
  then have "dt_day d \<le> 31" using assms le_trans unfolding valid_datetime_def valid_fields_def by blast
  then show "dt_year d < 10000" "dt_month d < 100" "dt_day d < 100" "dt_hour d < 100"
    "dt_minute d < 100" "dt_second d < 100" "dt_micro d < 1000000"
    using assms by (auto simp: valid_datetime_def valid_fields_def)
qed

lemma has_seconds_pad: "has_seconds (pad 2 h @ '':'' @ pad 2 m @ '':'' @ r)"
proof -
  have "pad 2 n = [digit_char (n div 10 mod 10), digit_char (n mod 10)]" for n by (simp add: numeral_2_eq_2)
  then show ?thesis by (simp add: has_seconds_def)
qed

lemma fromisoformat_seconds:
  assumes "valid_datetime d" and "r = [] \<or> hd r \<noteq> CHR '':''"
    and "read_fraction r = Some (us, ''+00:00'')"
  shows "fromisoformat (iso_seconds d @ r) = Inr (d\<lparr>dt_micro := us, dt_offset := Some 0\<rparr>)"
proof -
  note b = valid_bounds [OF assms(1)]
  have "read_date (iso_seconds d @ r) = Some (dt_year d, dt_month d, dt_day d,
      ''T'' @ pad 2 (dt_hour d) @ '':'' @ pad 2 (dt_minute d) @ '':'' @ pad 2 (dt_second d) @ r)"
    using b by (simp add: read_date_def iso_seconds_def)
  moreover have "read_time (pad 2 (dt_hour d) @ '':'' @ pad 2 (dt_minute d) @ '':'' @ pad 2 (dt_second d) @ r)
      = Some (dt_hour d, dt_minute d, dt_second d, us, Some 0)"
    using b assms(2,3) by (simp add: read_time_def read_offset_utc has_seconds_pad [simplified])
  ultimately show ?thesis
    using assms(1) by (simp add: fromisoformat_def valid_datetime_def)
qed

lemma nat_of_digits_append_zeros:
  "nat_of_digits (s @ replicate k (CHR ''0'')) = nat_of_digits s * 10 ^ k"
proof (induction k)
  case (Suc k)
  have "digit_val (CHR ''0'') = 0" by code_simp
  with Suc show ?case by (simp add: replicate_append_same [symmetric] flip: append_assoc)
qed simp

lemma fromisoformat_ms:
  assumes "valid_datetime d"
  shows "fromisoformat (isoformat_ms d)
    = Inr (d\<lparr>dt_micro := dt_micro d div 1000 * 1000, dt_offset := Some 0\<rparr>)"
proof -
  have "\<not> is_digit (CHR ''+'')" by code_simp
  moreover have "take 6 (pad 3 n @ replicate 6 (CHR ''0'')) = pad 3 n @ replicate 3 (CHR ''0'')" for n
    by simp
  moreover have "nat_of_digits (pad 3 (dt_micro d div 1000) @ replicate 3 (CHR ''0''))
      = dt_micro d div 1000 * 1000"
    using valid_bounds(7) [OF assms]
    by (simp only: nat_of_digits_append_zeros nat_of_digits_pad) simp
  ultimately have "read_fraction (''.'' @ pad 3 (dt_micro d div 1000) @ ''+00:00'')
      = Some (dt_micro d div 1000 * 1000, ''+00:00'')"
    using read_fraction_pad [of 3 "CHR ''+''" "dt_micro d div 1000" "''00:00''"] by simp
  from fromisoformat_seconds [OF assms _ this] show ?thesis by (simp add: isoformat_ms_def)
qed

lemma fromisoformat_isoformat:
  assumes "valid_datetime d"
  shows "fromisoformat (isoformat d) = Inr (d\<lparr>dt_offset := Some 0\<rparr>)"
proof (cases "dt_micro d = 0")
  case True
  have "read_fraction ''+00:00'' = Some (0, ''+00:00'')" by (simp add: read_fraction_def)
  from fromisoformat_seconds [OF assms _ this] True show ?thesis by (simp add: isoformat_def)
next
  case False
  have "\<not> is_digit (CHR ''+'')" by code_simp
  then have "read_fraction (''.'' @ pad 6 (dt_micro d) @ ''+00:00'') = Some (dt_micro d, ''+00:00'')"
    using valid_bounds(7) [OF assms] by (simp add: read_fraction_pad nat_of_digits_pad)
  from fromisoformat_seconds [OF assms _ this] False show ?thesis by (simp add: isoformat_def)
qed

lemma hms_split:
  assumes "h < 24" "m < 60" "s < (60::nat)"
  shows "(h * 3600 + m * 60 + s) div 3600 = h" "(h * 3600 + m * 60 + s) div 60 mod 60 = m"
    "(h * 3600 + m * 60 + s) mod 60 = s" "h * 3600 + m * 60 + s < 86400"
proof -
  let ?t = "h * 3600 + m * 60 + s"
  have 60: "?t div 60 = h * 60 + m" using assms by (intro div_nat_eqI) simp_all
  show "?t div 3600 = h" using assms by (intro div_nat_eqI) simp_all
  show "?t div 60 mod 60 = m" using assms unfolding 60 by simp
  show "?t mod 60 = s" using 60 by (simp add: modulo_nat_def)
  show "?t < 86400" using assms by simp
qed

lemma astimezone_utc_zero:
  assumes "valid_datetime d" "dt_offset d = Some 0"
  shows "astimezone_utc d = Inr d"
proof -
  let ?t = "dt_hour d * 3600 + dt_minute d * 60 + dt_second d"
  have v: "dt_hour d < 24" "dt_minute d < 60" "dt_second d < 60"
    using assms(1) by (auto simp: valid_datetime_def valid_fields_def)
  note sp = hms_split [OF v]
  have "\<not> int ?t < 0" "\<not> 86400 \<le> int ?t" "nat (int ?t mod 86400) = ?t"
    using sp(4) by (auto simp del: of_nat_add of_nat_mult simp: nat_mod_distrib)
  then show ?thesis
    using assms(2) sp(1-3) by (simp add: astimezone_utc_def Let_def del: of_nat_add of_nat_mult)
qed

lemma days_in_month_ge: "28 \<le> days_in_month y m"
  by (simp add: days_in_month_def)

lemma shift_day_valid:
  assumes "1 \<le> y" "y \<le> 9999" "1 \<le> m" "m \<le> 12" "1 \<le> d" "d \<le> days_in_month y m"
    and "next_day (y, m, d) = Inr (y', m', d') \<or> prev_day (y, m, d) = Inr (y', m', d')"
  shows "1 \<le> y' \<and> y' \<le> 9999 \<and> 1 \<le> m' \<and> m' \<le> 12 \<and> 1 \<le> d' \<and> d' \<le> days_in_month y' m'"
proof -
  have "1 \<le> days_in_month y m" "days_in_month y 12 = 31" for y m
    using days_in_month_ge [of y m] by (auto simp: days_in_month_def)
  with assms show ?thesis
    by (auto simp: next_day_def prev_day_def split: if_splits)
qed

lemma astimezone_utc_valid:
  assumes "valid_datetime d" "astimezone_utc d = Inr u"
  shows "valid_datetime u" "dt_offset u = Some 0" "dt_micro u = dt_micro d"
proof -
  from assms(2) obtain off where off: "dt_offset d = Some off"
    by (auto simp: astimezone_utc_def split: option.splits)
  define t where "t = int (dt_hour d * 3600 + dt_minute d * 60 + dt_second d) - off"
  define n where "n = nat (t mod 86400)"
  have n: "n < 86400" by (simp add: n_def nat_less_iff)
  have "astimezone_utc d = res_bind (if t < 0 then prev_day (dt_year d, dt_month d, dt_day d)
      else if t \<ge> 86400 then next_day (dt_year d, dt_month d, dt_day d)
      else Inr (dt_year d, dt_month d, dt_day d)) (\<lambda>(y, m, dd).
        Inr (d\<lparr>dt_year := y, dt_month := m, dt_day := dd, dt_hour := n div 3600,
          dt_minute := n div 60 mod 60, dt_second := n mod 60, dt_offset := Some 0\<rparr>))"
    by (simp add: astimezone_utc_def off t_def n_def Let_def)
  with assms(2) obtain y m dd where
    ymd: "(if t < 0 then prev_day (dt_year d, dt_month d, dt_day d)
      else if t \<ge> 86400 then next_day (dt_year d, dt_month d, dt_day d)
      else Inr (dt_year d, dt_month d, dt_day d)) = Inr (y, m, dd)"
    and u: "u = d\<lparr>dt_year := y, dt_month := m, dt_day := dd, dt_hour := n div 3600,
      dt_minute := n div 60 mod 60, dt_second := n mod 60, dt_offset := Some 0\<rparr>"
    by (auto simp del: if_split)
  have v: "1 \<le> y \<and> y \<le> 9999 \<and> 1 \<le> m \<and> m \<le> 12 \<and> 1 \<le> dd \<and> dd \<le> days_in_month y m"
    using ymd assms(1) shift_day_valid [of "dt_year d" "dt_month d" "dt_day d" y m dd]
    by (auto simp: valid_datetime_def valid_fields_def split: if_splits)
  moreover have "n div 3600 < 24" using n by (simp add: less_mult_imp_div_less)
  ultimately show "valid_datetime u" "dt_offset u = Some 0" "dt_micro u = dt_micro d"
    using u assms(1) by (auto simp: valid_datetime_def valid_fields_def)
qed

lemma nat_of_digits_bound: "list_all is_digit s \<Longrightarrow> nat_of_digits s < 10 ^ length s"
proof (induction s rule: rev_induct)
  case (snoc c s)
  then have "nat_of_digits s < 10 ^ length s" "digit_val c \<le> 9"
    by (auto simp: digit_val_def is_digit_def)
  then show ?case by simp
qed simp

lemma read_fraction_bound:
  assumes "read_fraction s = Some (us, r)"
  shows "us < 1000000"
proof -
  have d0: "is_digit (CHR ''0'')" by code_simp
  have "nat_of_digits (take 6 (takeWhile is_digit ds @ replicate 6 (CHR ''0''))) < 1000000" for ds
  proof -
    define x where "x = take 6 (takeWhile is_digit ds @ replicate 6 (CHR ''0''))"
    have "\<forall>c\<in>set (takeWhile is_digit ds @ replicate 6 (CHR ''0'')). is_digit c"
      using d0 by (auto dest: set_takeWhileD)
    then have "list_all is_digit x" by (auto simp: x_def list_all_iff dest: in_set_takeD)
    moreover have "length x = 6" by (simp add: x_def)
    ultimately have "nat_of_digits x < 1000000" using nat_of_digits_bound [of x] by simp
    then show ?thesis by (simp only: x_def)
  qed
  with assms show ?thesis by (auto simp: read_fraction_def Let_def split: list.splits if_splits)
qed

lemma fromisoformat_valid: "fromisoformat s = Inr d \<Longrightarrow> valid_datetime d"
  by (auto simp: fromisoformat_def read_time_def valid_datetime_def bind_eq_Some_conv
      dest!: read_fraction_bound split: option.splits list.splits if_splits)

lemma parse_time_isoformat_ms:
  assumes "valid_datetime d" "dt_offset d = Some 0"
  shows "parse_time (isoformat_ms d) = Inr (d\<lparr>dt_micro := dt_micro d div 1000 * 1000\<rparr>)"
proof -
  let ?d = "d\<lparr>dt_micro := dt_micro d div 1000 * 1000\<rparr>"
  have "valid_datetime ?d" using assms(1) by (auto simp: valid_datetime_def)
  moreover have eq: "d\<lparr>dt_micro := n, dt_offset := Some 0\<rparr> = d\<lparr>dt_micro := n\<rparr>" for n
    using assms(2) by (cases d) simp
  ultimately show ?thesis
    using fromisoformat_ms [OF assms(1)] astimezone_utc_zero [of ?d] assms(2)
    by (simp add: parse_time_def eq)
qed

lemma canonical_timestamp_obtain:
  assumes "canonical_timestamp s = Inr t"
  obtains u where "valid_datetime u" "dt_offset u = Some 0" "t = isoformat_ms u" "parse_time s = Inr u"
  using assms fromisoformat_valid astimezone_utc_valid
  by (auto simp: canonical_timestamp_def parse_time_def split: if_splits) blast

subsection \<open>Text order is time order\<close>

lemma radix_less:
  fixes q1 q2 r1 r2 n :: nat
  assumes "r1 < n" "r2 < n"
  shows "(q1 * n + r1 < q2 * n + r2) = (q1 < q2 \<or> q1 = q2 \<and> r1 < r2)"
proof (cases q1 q2 rule: linorder_cases)
  case less
  then have "(q1 + 1) * n \<le> q2 * n" by (intro mult_le_mono1) simp
  with assms less show ?thesis by simp
next
  case greater
  then have "(q2 + 1) * n \<le> q1 * n" by (intro mult_le_mono1) simp
  with assms greater show ?thesis by simp
qed simp

lemma radix_eq:
  fixes q1 q2 r1 r2 n :: nat
  assumes "r1 < n" "r2 < n"
  shows "(q1 * n + r1 = q2 * n + r2) = (q1 = q2 \<and> r1 = r2)"
  using radix_less [OF assms, of q1 q2] radix_less [OF assms(2,1), of q2 q1] by auto

lemma list_le_append_len:
  fixes xs ys us vs :: "'a::linorder list"
  assumes "length xs = length us"
  shows "(xs @ ys \<le> us @ vs) = (xs < us \<or> xs = us \<and> ys \<le> vs)"
  using assms by (induction xs us rule: list_induct2) auto

lemma snoc_less_len:
  fixes xs us :: "'a::linorder list"
  assumes "length xs = length us"
  shows "(xs @ [x] < us @ [u]) = (xs < us \<or> xs = us \<and> x < u)"
  using assms by (induction xs us rule: list_induct2) auto

lemma digit_char_less: "a < 10 \<Longrightarrow> b < 10 \<Longrightarrow> (digit_char a < digit_char b) = (a < b)"
  by (simp add: digit_char_def less_char_def)

lemma pad_less: "a < 10 ^ k \<Longrightarrow> b < 10 ^ k \<Longrightarrow> (pad k a < pad k b) = (a < b)"
  and pad_eq: "a < 10 ^ k \<Longrightarrow> b < 10 ^ k \<Longrightarrow> (pad k a = pad k b) = (a = b)"
proof -
  have eq: "(pad k a = pad k b) = (a = b)" if "a < 10 ^ k" "b < 10 ^ k" for a b k :: nat
    using that by (metis mod_less nat_of_digits_pad)
  have "(pad k a < pad k b) = (a < b)" if "a < 10 ^ k" "b < 10 ^ k" for a b
    using that
  proof (induction k arbitrary: a b)
    case (Suc k)
    have d: "a div 10 < 10 ^ k" "b div 10 < 10 ^ k" using Suc.prems by auto
    have "(a < b) = (a div 10 < b div 10 \<or> a div 10 = b div 10 \<and> a mod 10 < b mod 10)"
      using radix_less [of "a mod 10" 10 "b mod 10" "a div 10" "b div 10"] by simp
    then show ?case using Suc.IH [OF d] eq [OF d]
      by (simp add: snoc_less_len digit_char_less)
  qed simp
  with eq show "a < 10 ^ k \<Longrightarrow> b < 10 ^ k \<Longrightarrow> (pad k a < pad k b) = (a < b)"
    "a < 10 ^ k \<Longrightarrow> b < 10 ^ k \<Longrightarrow> (pad k a = pad k b) = (a = b)" by blast+
qed

lemma pad_append_le:
  "a < 10 ^ k \<Longrightarrow> b < 10 ^ k \<Longrightarrow> (pad k a @ s \<le> pad k b @ t) = (a < b \<or> a = b \<and> s \<le> t)"
  by (simp add: list_le_append_len pad_less pad_eq)

lemma isoformat_ms_le_key:
  assumes "valid_datetime a" "valid_datetime b"
  shows "(isoformat_ms a \<le> isoformat_ms b) = (dt_key a \<le> dt_key b)"
proof -
  note v = valid_bounds [OF assms(1)] valid_bounds [OF assms(2)]
  have "dt_micro a div 1000 < 1000" "dt_micro b div 1000 < 1000" using v by auto
  with v show ?thesis
    by (simp add: isoformat_ms_def iso_seconds_def dt_key_def pad_append_le)
qed

lemma days_before_year_Suc:
  "1 \<le> y \<Longrightarrow> days_before_year (Suc y) = days_before_year y + (if is_leap y then 366 else 365)"
proof -
  assume "1 \<le> y"
  then obtain n where y: "y = Suc n" by (cases y) auto
  have "Suc n mod 100 = 0 \<Longrightarrow> Suc n mod 4 = 0" "Suc n mod 400 = 0 \<Longrightarrow> Suc n mod 100 = 0"
    by presburger+
  moreover have "n div 100 \<le> n" by simp
  moreover have "n div 100 \<le> n * 365" by (metis div_le_dividend le_trans mult_le_mono2 nat_mult_1_right one_le_numeral)
  ultimately show ?thesis
    by (auto simp: y days_before_year_def is_leap_def div_Suc add_ac)
qed

lemma days_before_year_mono:
  assumes "1 \<le> y" "y \<le> z"
  shows "days_before_year y \<le> days_before_year z"
  using assms(2)
proof (induction z rule: dec_induct)
  case (step n)
  with assms(1) show ?case using days_before_year_Suc [of n] by simp
qed simp

lemma days_before_month_mono: "1 \<le> m \<Longrightarrow> m \<le> n \<Longrightarrow> days_before_month y m \<le> days_before_month y n"
proof (induction n)
  case (Suc n)
  then show ?case by (cases "m = Suc n") auto
qed simp

lemma days_before_month_last:
  "days_before_month y 12 + days_in_month y 12 = (if is_leap y then 366 else 365)"
  by (simp add: days_in_month_def numeral_eq_Suc)

lemma day_of_year_bound:
  assumes "1 \<le> m" "m \<le> 12" "d \<le> days_in_month y m"
  shows "days_before_month y m + d \<le> (if is_leap y then 366 else 365)"
proof (cases "m = 12")
  case False
  then have "days_before_month y (Suc m) \<le> days_before_month y 12"
    using assms by (intro days_before_month_mono) auto
  with assms(1,3) show ?thesis using days_before_month_last [of y] by (cases m) auto
qed (use assms days_before_month_last [of y] in auto)

lemma dt_days_less:
  assumes a: "valid_datetime a" and b: "valid_datetime b"
    and lt: "dt_year a < dt_year b \<or> dt_year a = dt_year b \<and>
      (dt_month a < dt_month b \<or> dt_month a = dt_month b \<and> dt_day a < dt_day b)"
  shows "dt_days a < dt_days b"
proof -
  have va: "1 \<le> dt_year a" "1 \<le> dt_month a" "dt_month a \<le> 12" "dt_day a \<le> days_in_month (dt_year a) (dt_month a)"
    and vb: "1 \<le> dt_month b" "1 \<le> dt_day b"
    using a b by (auto simp: valid_datetime_def valid_fields_def)
  from lt consider (y) "dt_year a < dt_year b" | (m) "dt_year a = dt_year b" "dt_month a < dt_month b"
    | (d) "dt_year a = dt_year b" "dt_month a = dt_month b" "dt_day a < dt_day b" by blast
  then show ?thesis
  proof cases
    case y
    have "days_before_year (Suc (dt_year a)) \<le> days_before_year (dt_year b)"
      using y by (intro days_before_year_mono) auto
    with va vb show ?thesis
      using days_before_year_Suc [OF va(1)] day_of_year_bound [OF va(2,3,4)] by (simp add: dt_days_def)
  next
    case m
    then have "days_before_month (dt_year a) (Suc (dt_month a)) \<le> days_before_month (dt_year a) (dt_month b)"
      by (intro days_before_month_mono) auto
    with m va vb show ?thesis by (simp add: dt_days_def)
  qed (simp add: dt_days_def)
qed

lemma dt_micros_less_key:
  assumes "valid_datetime a" "valid_datetime b" and "dt_key a < dt_key b"
  shows "dt_micros a < dt_micros b"
proof -
  have v: "dt_hour a < 24" "dt_minute a < 60" "dt_second a < 60" "dt_micro a < 1000000"
    "dt_hour b < 24" "dt_minute b < 60" "dt_second b < 60" "dt_micro b < 1000000"
    using assms(1,2) by (auto simp: valid_datetime_def valid_fields_def)
  have "dt_days a < dt_days b \<or> dt_days a = dt_days b \<and>
      [dt_hour a, dt_minute a, dt_second a, dt_micro a div 1000] < [dt_hour b, dt_minute b, dt_second b, dt_micro b div 1000]"
    using assms(3) dt_days_less [OF assms(1,2)] by (auto simp: dt_key_def dt_days_def)
  moreover have "dt_micro a div 1000 < dt_micro b div 1000 \<Longrightarrow> dt_micro a < dt_micro b"
    by (meson div_le_mono not_less)
  ultimately show ?thesis
    using v by (auto simp: dt_micros_def radix_less radix_eq)
qed

lemma isoformat_ms_order:
  assumes "valid_datetime a" "valid_datetime b" "1000 dvd dt_micro a" "1000 dvd dt_micro b"
  shows "isoformat_ms a \<le> isoformat_ms b \<longleftrightarrow> dt_micros a \<le> dt_micros b"
proof -
  have eq: "dt_micros a = dt_micros b" if "dt_key a = dt_key b"
    using that assms(3,4) by (auto simp: dt_key_def dt_micros_def dt_days_def elim!: dvdE)
  show ?thesis
    unfolding isoformat_ms_le_key [OF assms(1,2)]
    using dt_micros_less_key [OF assms(1,2)] dt_micros_less_key [OF assms(2,1)] eq
    by (metis less_le_not_le linorder_not_less nle_le order_less_le)
qed

section \<open>Evaluation\<close>

lemma digit_char_eval:
  "digit_char 0 = CHR ''0''" "digit_char (Suc 0) = CHR ''1''" "digit_char 2 = CHR ''2''" "digit_char 3 = CHR ''3''"
  "digit_char 4 = CHR ''4''" "digit_char 5 = CHR ''5''" "digit_char 6 = CHR ''6''" "digit_char 7 = CHR ''7''"
  "digit_char 8 = CHR ''8''" "digit_char 9 = CHR ''9''"
  by code_simp+

lemma pad_eval:
  "pad 2 n = [digit_char (n div 10 mod 10), digit_char (n mod 10)]"
  "pad 3 n = [digit_char (n div 10 div 10 mod 10), digit_char (n div 10 mod 10), digit_char (n mod 10)]"
  "pad 4 n = [digit_char (n div 10 div 10 div 10 mod 10), digit_char (n div 10 div 10 mod 10),
     digit_char (n div 10 mod 10), digit_char (n mod 10)]"
proof -
  have e: "(2::nat) = Suc (Suc 0)" "(3::nat) = Suc (Suc (Suc 0))" "(4::nat) = Suc (Suc (Suc (Suc 0)))"
    by simp_all
  show "pad 2 n = [digit_char (n div 10 mod 10), digit_char (n mod 10)]"
    by (simp only: e pad.simps append.simps)
  show "pad 3 n = [digit_char (n div 10 div 10 mod 10), digit_char (n div 10 mod 10), digit_char (n mod 10)]"
    by (simp only: e pad.simps append.simps)
  show "pad 4 n = [digit_char (n div 10 div 10 div 10 mod 10), digit_char (n div 10 div 10 mod 10),
     digit_char (n div 10 mod 10), digit_char (n mod 10)]"
    by (simp only: e pad.simps append.simps)
qed
lemma replicate_eval: "replicate (numeral k) x = x # replicate (pred_numeral k) x"
  by (simp add: numeral_eq_Suc)

lemmas time_eval = replicate_eval canonical_timestamp_def fromisoformat_def read_date_def read_time_def has_seconds_def
  read_hms_def read_part_def read_fraction_def read_offset_def read_digits_def read_char_def
  is_digit_def digit_val_def nat_of_digits_def valid_fields_def days_in_month_def is_leap_def
  astimezone_utc_def prev_day_def next_day_def isoformat_ms_def iso_seconds_def digit_char_eval Let_def pad_eval
  parse_time_def dt_micros_def

text \<open>A timestamp in canonical form is its own normal form.\<close>

lemma canonical_timestamp_idem:
  assumes "canonical_timestamp s = Inr t"
  shows "canonical_timestamp t = Inr t"
proof -
  obtain u where u: "valid_datetime u" "dt_offset u = Some 0" "t = isoformat_ms u"
    using canonical_timestamp_obtain [OF assms] .
  let ?w = "u\<lparr>dt_micro := dt_micro u div 1000 * 1000\<rparr>"
  have "valid_datetime ?w" using u(1) by (auto simp: valid_datetime_def)
  then have "astimezone_utc (?w\<lparr>dt_offset := Some 0\<rparr>) = Inr (?w\<lparr>dt_offset := Some 0\<rparr>)"
    by (intro astimezone_utc_zero) (auto simp: valid_datetime_def)
  moreover have "isoformat_ms (?w\<lparr>dt_offset := Some 0\<rparr>) = isoformat_ms u"
    by (simp add: isoformat_ms_def iso_seconds_def)
  ultimately show ?thesis
    using fromisoformat_ms [OF u(1)] u(3) by (simp add: canonical_timestamp_def)
qed

section \<open>Properties\<close>

text \<open>
  Normalising a timestamp is idempotent: whatever text and offset it was given in,
  the canonical UTC millisecond text is accepted again and is its own normal form.
\<close>

theorem canonical_timestamp_idempotent:
  assumes "canonical_timestamp s = Inr t"
  shows "canonical_timestamp t = Inr t"
  by (rule canonical_timestamp_idem [OF assms])

theorem canonical_timestamp_idempotent_witness:
  "canonical_timestamp ''2026-03-01T00:30:00.250999+02:00'' = Inr ''2026-02-28T22:30:00.250+00:00''
   \<and> canonical_timestamp ''2026-02-28T22:30:00.250+00:00'' = Inr ''2026-02-28T22:30:00.250+00:00''"
proof -
  have h: "canonical_timestamp ''2026-03-01T00:30:00.250999+02:00'' = Inr ''2026-02-28T22:30:00.250+00:00''"
    by (simp add: time_eval)
  show ?thesis using h canonical_timestamp_idempotent [OF h] by simp
qed

text \<open>
  C34. The SQL comparisons on stored timestamps are sound: for canonical timestamps, the
  lexicographic order of the texts is the order of the instants they denote.
\<close>

theorem canonical_timestamp_order:
  assumes "canonical_timestamp s = Inr a" and "canonical_timestamp t = Inr b"
    and "parse_time a = Inr da" and "parse_time b = Inr db"
  shows "a \<le> b \<longleftrightarrow> dt_micros da \<le> dt_micros db"
proof -
  obtain u where u: "valid_datetime u" "dt_offset u = Some 0" "a = isoformat_ms u"
    using canonical_timestamp_obtain [OF assms(1)] .
  obtain v where v: "valid_datetime v" "dt_offset v = Some 0" "b = isoformat_ms v"
    using canonical_timestamp_obtain [OF assms(2)] .
  have da: "da = u\<lparr>dt_micro := dt_micro u div 1000 * 1000\<rparr>"
    and db: "db = v\<lparr>dt_micro := dt_micro v div 1000 * 1000\<rparr>"
    using assms(3,4) u v by (simp_all add: parse_time_isoformat_ms)
  have "valid_datetime da" "valid_datetime db"
    using u(1) v(1) da db by (auto simp: valid_datetime_def)
  moreover have "a = isoformat_ms da" "b = isoformat_ms db"
    using u(3) v(3) da db by (simp_all add: isoformat_ms_def iso_seconds_def)
  ultimately show ?thesis using isoformat_ms_order [of da db] da db by simp
qed

theorem canonical_timestamp_order_witness:
  "let a = ''2026-02-28T22:30:00.250+00:00''; b = ''2026-03-01T00:00:00.000+00:00'' in
   (\<exists>da db. parse_time a = Inr da \<and> parse_time b = Inr db \<and> (a \<le> b) = (dt_micros da \<le> dt_micros db)) \<and> a \<le> b"
proof -
  let ?a = "''2026-02-28T22:30:00.250+00:00''" and ?b = "''2026-03-01T00:00:00.000+00:00''"
  have c: "canonical_timestamp ?a = Inr ?a" "canonical_timestamp ?b = Inr ?b"
    by (simp_all add: time_eval)
  have "is_ok (parse_time ?a)" "is_ok (parse_time ?b)" by (simp_all add: time_eval)
  then obtain da db where p: "parse_time ?a = Inr da" "parse_time ?b = Inr db"
    by (auto simp: is_ok_iff)
  have "?a \<le> ?b" by simp
  with canonical_timestamp_order [OF c p] p show ?thesis by (auto simp: Let_def)
qed

end
