(* ===== verification/Kernel.thy ===== *)
theory Kernel
  imports PyJson PyTime
begin

text \<open>
  The durable kernel every component writes to: the tables of \<^verbatim>\<open>core/schema/base.py\<close> that
  the event store and the lifecycle share, as a record \<open>kernel_db\<close> that the component
  theories extend, and the environment \<open>env\<close>: the digest \<open>hashlib.sha256\<close>, the readings of
  \<open>utc_now\<close> and the values of \<open>uuid4().hex\<close> in the order they are drawn (\<open>ticks\<close> and
  \<open>fresh_ids\<close> count the draws), and the payloads of archived event segments.  The
  training store of \<^verbatim>\<open>core/storage.py\<close> is modelled as far as recording an event needs it.

  An operation that runs in \<open>Database.transaction()\<close> is a function from a database to an
  error or a result and the new database; an error is a rollback, so it carries no
  database.  A violated constraint of the schema is a \<open>SqliteIntegrityError\<close>.
\<close>

section \<open>Environment\<close>

record env =
  env_sha256 :: "string \<Rightarrow> string"
  env_clock :: "nat \<Rightarrow> string"
  env_uuid :: "nat \<Rightarrow> string"
  env_segment :: "string \<Rightarrow> string \<Rightarrow> (string \<Rightarrow> json option) res"

text \<open>\<open>hexdigest\<close> gives 64 hexadecimal characters.\<close>

definition digests_valid :: "env \<Rightarrow> bool" where
  "digests_valid E = (\<forall>s. valid_hash (env_sha256 E s))"

section \<open>Rows\<close>

record runtime_row =
  rt_subject_id :: string
  rt_state :: string
  rt_reason :: string
  rt_version :: int
  rt_changed_at :: string

record event_row =
  ev_event_id :: string
  ev_subject_id :: string
  ev_event_type :: string
  ev_source :: string
  ev_occurred_at :: string
  ev_observed_at :: string
  ev_payload_json :: string
  ev_payload_hash :: string
  ev_privacy_level :: string
  ev_parents_json :: string
  ev_processing_status :: string
  ev_archive_key :: "string option"

record chain_row =
  ch_event_id :: string
  ch_subject_id :: string
  ch_sequence :: int
  ch_previous :: "string option"
  ch_root :: string
  ch_created_at :: string

record training_policy_row =
  tp_subject_id :: string
  tp_record_enabled :: bool
  tp_export_enabled :: bool
  tp_private_psychology :: bool
  tp_conversations :: bool
  tp_model_io :: bool
  tp_external_actions :: bool
  tp_workspace :: bool
  tp_policy_version :: int
  tp_updated_at :: string

record training_row =
  tr_record_id :: string
  tr_subject_id :: string
  tr_event_id :: string
  tr_record_kind :: string
  tr_privacy_level :: string
  tr_eligibility :: string
  tr_source_hash :: string
  tr_redaction :: string
  tr_consent_version :: int
  tr_created_at :: string
  tr_updated_at :: string

record audit_row =
  au_audit_id :: string
  au_subject_id :: string
  au_action :: string
  au_actor :: string
  au_payload_json :: string
  au_occurred_at :: string

record kernel_db =
  ticks :: nat
  fresh_ids :: nat
  subject_identity :: "string list"
  runtime_state :: "runtime_row list"
  events :: "event_row list"
  event_chain_roots :: "chain_row list"
  training_policies :: "training_policy_row list"
  training_records :: "training_row list"
  audit_records :: "audit_row list"
  private_conversation_messages :: "(string \<times> string) list"
  private_conversations :: "(string \<times> string) list"

section \<open>Clock, identifiers, audit\<close>

definition utc_now :: "env \<Rightarrow> 'a kernel_db_scheme \<Rightarrow> string \<times> 'a kernel_db_scheme" where
  "utc_now E db = (env_clock E (ticks db), db\<lparr>ticks := Suc (ticks db)\<rparr>)"

definition new_id :: "env \<Rightarrow> string \<Rightarrow> 'a kernel_db_scheme \<Rightarrow> string \<times> 'a kernel_db_scheme" where
  "new_id E pfx db =
     (pfx @ ''_'' @ env_uuid E (fresh_ids db), db\<lparr>fresh_ids := Suc (fresh_ids db)\<rparr>)"

definition insert_audit :: "audit_row \<Rightarrow> 'a kernel_db_scheme \<Rightarrow> ('a kernel_db_scheme) res" where
  "insert_audit r db =
     (if au_audit_id r \<in> au_audit_id ` set (audit_records db)
      then Inl (SqliteIntegrityError ''UNIQUE constraint failed: audit_records.audit_id'')
      else if au_subject_id r \<notin> set (subject_identity db)
      then Inl (SqliteIntegrityError ''FOREIGN KEY constraint failed'')
      else Inr (db\<lparr>audit_records := audit_records db @ [r]\<rparr>))"

section \<open>Training provenance\<close>

definition training_classification ::
    "string \<Rightarrow> string \<Rightarrow> training_policy_row \<Rightarrow> string \<times> string" where
  "training_classification event_type privacy_level p =
     (let restricted = (privacy_level \<in> {''private'', ''secret''});
          psychology = (event_type \<in> {''psychological_snapshot'', ''sleep_reflection'',
              ''metacognitive_outcome'', ''self_model_committed'', ''intrinsic_thought''}
            \<or> py_startswith event_type ''affect_'' \<or> py_startswith event_type ''thought_'');
          conversation = (event_type \<in> {''human_message'', ''interaction_received'', ''interaction_sent''});
          model_io = (py_startswith event_type ''model_''
            \<or> event_type \<in> {''cognition_proposal'', ''cognition_rejected'', ''self_model_committed''});
          external_action = (py_startswith event_type ''action_''
            \<or> event_type \<in> {''external_action'', ''web_action'', ''browser_action''});
          workspace = (py_startswith event_type ''workspace_''
            \<or> event_type \<in> {''project_artifact_created'', ''project_artifact_updated''});
          excluded = (restricted \<and> psychology \<and> \<not> tp_private_psychology p
            \<or> conversation \<and> \<not> tp_conversations p
            \<or> model_io \<and> \<not> tp_model_io p
            \<or> external_action \<and> \<not> tp_external_actions p
            \<or> workspace \<and> \<not> tp_workspace p);
          explicitly_included_private = (privacy_level = ''private'' \<and>
            (psychology \<and> tp_private_psychology p
             \<or> conversation \<and> tp_conversations p
             \<or> model_io \<and> tp_model_io p
             \<or> external_action \<and> tp_external_actions p
             \<or> workspace \<and> tp_workspace p))
      in if excluded then (''excluded'', ''excluded'')
         else if explicitly_included_private then (''eligible'', ''redacted'')
         else if restricted then (''restricted'', ''pending'') else (''eligible'', ''clear''))"

text \<open>\<open>INSERT OR IGNORE\<close>: a duplicate key is ignored, a missing parent row is an error.\<close>

definition insert_event_record ::
    "env \<Rightarrow> string \<Rightarrow> event_row \<Rightarrow> training_policy_row \<Rightarrow> 'a kernel_db_scheme
      \<Rightarrow> ('a kernel_db_scheme) res" where
  "insert_event_record E subject_id row policy db =
     (let (eligibility, redaction) =
            training_classification (ev_event_type row) (ev_privacy_level row) policy;
          (now, db1) = utc_now E db;
          (rid, db2) = new_id E ''train'' db1;
          r = \<lparr>tr_record_id = rid, tr_subject_id = subject_id, tr_event_id = ev_event_id row,
               tr_record_kind = ev_event_type row, tr_privacy_level = ev_privacy_level row,
               tr_eligibility = eligibility, tr_source_hash = ev_payload_hash row,
               tr_redaction = redaction, tr_consent_version = tp_policy_version policy,
               tr_created_at = ev_occurred_at row,
               tr_updated_at = (if ev_observed_at row = [] then now else ev_observed_at row)\<rparr>
      in if rid \<in> tr_record_id ` set (training_records db2)
            \<or> ev_event_id row \<in> tr_event_id ` set (training_records db2)
         then Inr db2
         else if subject_id \<notin> set (subject_identity db2)
         then Inl (SqliteIntegrityError ''FOREIGN KEY constraint failed'')
         else Inr (db2\<lparr>training_records := training_records db2 @ [r]\<rparr>))"

text \<open>The record is read back: a row that was ignored for another event's key is missing then.\<close>

definition store_event_record ::
    "env \<Rightarrow> string \<Rightarrow> event_row \<Rightarrow> training_policy_row \<Rightarrow> 'a kernel_db_scheme \<Rightarrow> ('a kernel_db_scheme) res" where
  "store_event_record E subject_id row policy db =
     res_bind (insert_event_record E subject_id row policy db) (\<lambda>db1.
       case fetchone (\<lambda>r. tr_subject_id r = subject_id \<and> tr_event_id r = ev_event_id row) (training_records db1) of
         None \<Rightarrow> Inl (TypeError ''NoneType object is not subscriptable'')
       | Some r \<Rightarrow> Inr db1)"

definition default_training_policy :: "string \<Rightarrow> string \<Rightarrow> training_policy_row" where
  "default_training_policy subject_id now =
     \<lparr>tp_subject_id = subject_id, tp_record_enabled = True, tp_export_enabled = True,
      tp_private_psychology = False, tp_conversations = False, tp_model_io = False,
      tp_external_actions = True, tp_workspace = False, tp_policy_version = 1,
      tp_updated_at = now\<rparr>"

definition insert_training_policy ::
    "training_policy_row \<Rightarrow> 'a kernel_db_scheme \<Rightarrow> ('a kernel_db_scheme) res" where
  "insert_training_policy p db =
     (if tp_subject_id p \<notin> set (subject_identity db)
      then Inl (SqliteIntegrityError ''FOREIGN KEY constraint failed'')
      else Inr (db\<lparr>training_policies := training_policies db @ [p]\<rparr>))"

definition record_event ::
    "env \<Rightarrow> string \<Rightarrow> string \<Rightarrow> string \<Rightarrow> string \<Rightarrow> string \<Rightarrow> 'a kernel_db_scheme
      \<Rightarrow> ('a kernel_db_scheme) res" where
  "record_event E subject_id event_id event_type privacy_level source_hash db =
     (case fetchone (\<lambda>e. ev_event_id e = event_id) (events db) of
        None \<Rightarrow> Inl (NotFoundError (''event not found: '' @ event_id))
      | Some row \<Rightarrow>
          if ev_subject_id row \<noteq> subject_id \<or> ev_event_type row \<noteq> event_type
             \<or> ev_privacy_level row \<noteq> privacy_level \<or> ev_payload_hash row \<noteq> source_hash
          then Inl (IntegrityError ''training provenance event subject or content mismatch'')
          else
            (case fetchone (\<lambda>p. tp_subject_id p = subject_id) (training_policies db) of
               Some policy \<Rightarrow>
                 if tp_record_enabled policy then store_event_record E subject_id row policy db
                 else Inr db
             | None \<Rightarrow>
                 (let (now, db1) = utc_now E db; policy = default_training_policy subject_id now
                  in res_bind (insert_training_policy policy db1) (\<lambda>db2.
                       if tp_record_enabled policy then store_event_record E subject_id row policy db2
                       else Inr db2))))"

section \<open>Lemmas\<close>

named_theorems kernel_defs

lemmas [kernel_defs] = utc_now_def new_id_def insert_audit_def Let_def split_beta

text \<open>
  Recording provenance touches the training tables and the counters only: the frame on
  which the other components' invariants rest.
\<close>

lemma insert_event_record_frame:
  assumes "insert_event_record E sid row p db = Inr db'"
  obtains n m tr where
    "db' = db\<lparr>ticks := n, fresh_ids := m, training_records := tr\<rparr>" "ticks db \<le> n"
proof -
  have "\<exists>tr. db' = db\<lparr>ticks := Suc (ticks db), fresh_ids := Suc (fresh_ids db), training_records := tr\<rparr>"
    using assms
    by (auto simp: insert_event_record_def kernel_defs split: if_splits
        intro: exI [of _ "training_records db"])
  then obtain tr where
    "db' = db\<lparr>ticks := Suc (ticks db), fresh_ids := Suc (fresh_ids db), training_records := tr\<rparr>" ..
  with that [where n = "Suc (ticks db)" and m = "Suc (fresh_ids db)" and tr = tr] show thesis by simp
qed

lemma store_event_record_Inr:
  "store_event_record E sid row p db = Inr db' \<longleftrightarrow> insert_event_record E sid row p db = Inr db'
     \<and> (\<exists>r\<in>set (training_records db'). tr_subject_id r = sid \<and> tr_event_id r = ev_event_id row)"
  by (auto simp: store_event_record_def fetchone_None split: option.splits dest: fetchone_Some)

lemma store_event_record_again:
  assumes "r \<in> set (training_records db)" "tr_subject_id r = sid" "tr_event_id r = ev_event_id row"
  shows "\<exists>db'. store_event_record E sid row p db = Inr db'"
proof -
  have "ev_event_id row \<in> tr_event_id ` set (training_records db)" using assms(1,3) by (metis image_eqI)
  then have "\<exists>db'. insert_event_record E sid row p db = Inr db' \<and> training_records db' = training_records db"
    by (simp add: insert_event_record_def kernel_defs)
  with assms show ?thesis unfolding store_event_record_Inr by auto
qed

lemma record_event_frame:
  assumes "record_event E sid eid ty pl h db = Inr db'"
  obtains n m tp tr where
    "db' = db\<lparr>ticks := n, fresh_ids := m, training_policies := tp, training_records := tr\<rparr>"
    "ticks db \<le> n"
proof -
  obtain row where row: "fetchone (\<lambda>e. ev_event_id e = eid) (events db) = Some row"
    using assms by (auto simp: record_event_def split: option.splits)
  show thesis
  proof (cases "fetchone (\<lambda>p. tp_subject_id p = sid) (training_policies db)")
    case None
    obtain db1 where db1: "insert_event_record E sid row (default_training_policy sid (env_clock E (ticks db)))
        (db\<lparr>ticks := Suc (ticks db),
            training_policies := training_policies db @ [default_training_policy sid (env_clock E (ticks db))]\<rparr>)
        = Inr db1" "db' = db1"
      using assms row None
      by (auto simp: record_event_def insert_training_policy_def kernel_defs default_training_policy_def store_event_record_Inr
          split: if_splits)
    obtain n m tr where
      *: "db1 = db\<lparr>ticks := Suc (ticks db),
            training_policies := training_policies db @ [default_training_policy sid (env_clock E (ticks db))]\<rparr>
            \<lparr>ticks := n, fresh_ids := m, training_records := tr\<rparr>" "Suc (ticks db) \<le> n"
      by (rule insert_event_record_frame [OF db1(1)]) auto
    with db1(2) that [where n = n and m = m and tr = tr
      and tp = "training_policies db @ [default_training_policy sid (env_clock E (ticks db))]"]
    show thesis by simp
  next
    case (Some p)
    then have "db' = db \<or> insert_event_record E sid row p db = Inr db'"
      using assms row by (auto simp: record_event_def store_event_record_Inr split: if_splits)
    then show thesis
    proof
      assume "db' = db"
      with that [where n = "ticks db" and m = "fresh_ids db" and tp = "training_policies db" and tr = "training_records db"] show thesis
        by simp
    next
      assume "insert_event_record E sid row p db = Inr db'"
      from insert_event_record_frame [OF this] obtain n m tr where
        *: "db' = db\<lparr>ticks := n, fresh_ids := m, training_records := tr\<rparr>" "ticks db \<le> n" .
      with that [where n = n and m = m and tp = "training_policies db" and tr = tr] show thesis by simp
    qed
  qed
qed

text \<open>What was recorded once is recorded again, while the training tables stay as they are.\<close>

lemma record_event_again:
  assumes first: "record_event E sid eid ty pl h db = Inr db1"
    and row: "fetchone (\<lambda>e. ev_event_id e = eid) (events db2) = fetchone (\<lambda>e. ev_event_id e = eid) (events db)"
    and same: "training_policies db2 = training_policies db1" "training_records db2 = training_records db1"
  shows "\<exists>db'. record_event E sid eid ty pl h db2 = Inr db'"
proof -
  let ?policy = "\<lambda>d. fetchone (\<lambda>p. tp_subject_id p = sid) (training_policies d)"
  obtain e where e: "fetchone (\<lambda>e. ev_event_id e = eid) (events db) = Some e"
      "\<not> (ev_subject_id e \<noteq> sid \<or> ev_event_type e \<noteq> ty \<or> ev_privacy_level e \<noteq> pl \<or> ev_payload_hash e \<noteq> h)"
    using first by (auto simp: record_event_def split: option.splits if_splits)
  have again: ?thesis if "?policy db2 = Some p" "\<not> tp_record_enabled p \<or> store_event_record E sid e q d = Inr db1" for p q d
    using that e row same store_event_record_again [of _ db2 sid e E p]
    by (auto simp: record_event_def store_event_record_Inr)
  show ?thesis
  proof (cases "?policy db")
    case None
    let ?p = "default_training_policy sid (env_clock E (ticks db))"
    let ?d = "db\<lparr>ticks := Suc (ticks db), training_policies := training_policies db @ [?p]\<rparr>"
    have st: "store_event_record E sid e ?p ?d = Inr db1"
      using first e None by (auto simp: record_event_def insert_training_policy_def utc_now_def default_training_policy_def Let_def split: if_splits)
    then have "training_policies db1 = training_policies ?d"
      by (auto simp: store_event_record_Inr elim: insert_event_record_frame)
    then have "?policy db2 = Some ?p" using None same(1) by (simp add: fetchone_append default_training_policy_def)
    then show ?thesis using again st by blast
  next
    case (Some p)
    then have d: "\<not> tp_record_enabled p \<and> db1 = db \<or> store_event_record E sid e p db = Inr db1"
      using first e by (auto simp: record_event_def split: if_splits)
    then have "training_policies db1 = training_policies db"
      by (auto simp: store_event_record_Inr elim: insert_event_record_frame)
    then have "?policy db2 = Some p" using Some same(1) by simp
    then show ?thesis using again d by blast
  qed
qed

end
