(* ===== verification/HashChain.thy ===== *)
theory HashChain
  imports Prelude
begin

text \<open>
  The contract of an append-only log in which every entry is hashed together with its
  position and the hash of the entry before it.  A provider gives the digest, the text it
  digests for an entry and what of the entry that text fixes; its clients get that equal
  final roots mean equal histories, or a collision of the digest at a known position.
\<close>

locale hash_chain =
  fixes digest :: "string \<Rightarrow> string"
    and preimage :: "'e \<Rightarrow> int \<Rightarrow> string option \<Rightarrow> string"
    and content :: "'e \<Rightarrow> 'c"
  assumes preimage_inject:
    "preimage e n p = preimage e' n' p' \<Longrightarrow> content e = content e' \<and> n = n' \<and> p = p'"
begin

text \<open>The texts hashed for the entries \<open>es\<close> that follow \<open>n\<close> others with root \<open>p\<close>, and the root after them.\<close>

fun texts :: "int \<Rightarrow> string option \<Rightarrow> 'e list \<Rightarrow> string list" where
  "texts n p [] = []"
| "texts n p (e # es) =
     preimage e (n + 1) p # texts (n + 1) (Some (digest (preimage e (n + 1) p))) es"

definition root :: "int \<Rightarrow> string option \<Rightarrow> 'e list \<Rightarrow> string option" where
  "root n p es = (if es = [] then p else Some (digest (last (texts n p es))))"

lemma length_texts [simp]: "length (texts n p es) = length es"
  by (induction n p es rule: texts.induct) simp_all

lemma root_Cons: "root n p (e # es) = root (n + 1) (Some (digest (preimage e (n + 1) p))) es"
  using length_texts [of "n + 1" "Some (digest (preimage e (n + 1) p))" es]
  by (cases es) (simp_all add: root_def)

lemma texts_snoc:
  "texts n p (es @ [e]) = texts n p es @ [preimage e (n + int (length es) + 1) (root n p es)]"
proof (induction n p es rule: texts.induct)
  case (2 n p x es)
  then show ?case by (simp only: append_Cons texts.simps root_Cons) (simp add: algebra_simps)
qed (simp add: root_def)

lemma equal_roots:
  assumes "length xs = length ys" "root n p xs = root n p ys"
  shows "map content xs = map content ys \<or>
    (\<exists>k<length xs. texts n p xs ! k \<noteq> texts n p ys ! k
      \<and> digest (texts n p xs ! k) = digest (texts n p ys ! k))"
  using assms
proof (induction xs arbitrary: ys rule: rev_induct)
  case (snoc x xs ys')
  then obtain ys y where ys': "ys' = ys @ [y]" and len: "length xs = length ys"
    by (cases ys' rule: rev_cases) auto
  let ?s = "preimage x (n + int (length xs) + 1) (root n p xs)"
  let ?t = "preimage y (n + int (length ys) + 1) (root n p ys)"
  have d: "digest ?s = digest ?t" using snoc.prems(2) by (simp add: ys' root_def texts_snoc)
  show ?case
  proof (cases "?s = ?t")
    case True
    from preimage_inject [OF True] have c: "content x = content y" "root n p xs = root n p ys" by simp_all
    from snoc.IH [OF len c(2)] c(1) len show ?thesis
      by (auto simp: ys' texts_snoc nth_append intro: exI [of _ "_ :: nat"])
  next
    case False
    with d len have "texts n p (xs @ [x]) ! length xs \<noteq> texts n p ys' ! length xs
      \<and> digest (texts n p (xs @ [x]) ! length xs) = digest (texts n p ys' ! length xs)"
      by (simp add: ys' texts_snoc nth_append)
    then show ?thesis by auto
  qed
qed simp

end

end
