(* ===== verification/EventStore.thy ===== *)
theory EventStore
  imports Kernel HashChain
begin

text \<open>
  The event store of \<^verbatim>\<open>core/events.py\<close>: appending evidence, the hash chain over a
  subject's events, reading events back and marking them processed.  The encrypted
  archive a cold payload is read from (\<^verbatim>\<open>core/event_archive.py\<close>) is the parameter
  \<open>env_segment\<close>; the cache of decrypted segments is not state of the model, as it only
  saves loads.  Columns are typed, so the \<open>isinstance\<close> tests on text and integer columns
  are the types of the row records.
\<close>

section \<open>Model\<close>

definition processing_states :: "string list" where
  "processing_states = [''recorded'', ''processed'', ''failed'']"

record event_record =
  er_event_id :: string
  er_subject_id :: string
  er_event_type :: string
  er_source :: string
  er_occurred_at :: string
  er_observed_at :: string
  er_payload :: json
  er_payload_hash :: string
  er_privacy_level :: string
  er_causal_parent_ids :: "string list"
  er_processing_status :: string

text \<open>A JSON value compared with a text column: SQLite gives it text affinity.\<close>

definition json_as_text :: "json \<Rightarrow> string option" where
  "json_as_text v =
     (case v of JNull \<Rightarrow> None | JBool b \<Rightarrow> Some (if b then ''1'' else ''0'')
      | JStr s \<Rightarrow> Some s | _ \<Rightarrow> Some (canonical_json v))"

definition json_extract :: "string \<Rightarrow> string \<Rightarrow> string option res" where
  "json_extract payload_json key =
     (case strict_json_loads payload_json of
        Inl _ \<Rightarrow> Inl (SqliteIntegrityError ''malformed JSON'')
      | Inr (JObj kvs) \<Rightarrow> Inr (case map_of kvs key of None \<Rightarrow> None | Some v \<Rightarrow> json_as_text v)
      | Inr _ \<Rightarrow> Inr None)"

text \<open>\<open>assert_event_sources_available\<close> of \<^verbatim>\<open>core/private_sources.py\<close>.\<close>

definition assert_event_sources_available :: "string \<Rightarrow> string \<Rightarrow> 'a kernel_db_scheme \<Rightarrow> unit res" where
  "assert_event_sources_available subject_id event_id db =
     (case fetchone (\<lambda>e. ev_subject_id e = subject_id \<and> ev_event_id e = event_id) (events db) of
        None \<Rightarrow> Inr ()
      | Some e \<Rightarrow>
          res_bind (json_extract (ev_payload_json e) ''interaction_id'') (\<lambda>iid.
            if \<exists>m\<in>set (private_conversation_messages db). Some (fst m) = iid \<and>
                 (\<exists>c\<in>set (private_conversations db). fst c = snd m \<and> snd c \<in> {''deleting'', ''deleted''})
            then Inl (PermissionError ''private event source has been withdrawn'')
            else Inr ()))"

definition chain_value :: "event_row \<Rightarrow> int \<Rightarrow> string option \<Rightarrow> json" where
  "chain_value event sequence previous =
     JObj [(''subject_id'', JStr (ev_subject_id event)),
           (''sequence_number'', JInt sequence),
           (''previous_root_hash'', case previous of None \<Rightarrow> JNull | Some h \<Rightarrow> JStr h),
           (''event_id'', JStr (ev_event_id event)),
           (''event_type'', JStr (ev_event_type event)),
           (''source'', JStr (ev_source event)),
           (''occurred_at'', JStr (ev_occurred_at event)),
           (''observed_at'', JStr (ev_observed_at event)),
           (''payload_hash'', JStr (ev_payload_hash event)),
           (''privacy_level'', JStr (ev_privacy_level event)),
           (''causal_parent_ids_json'', JStr (ev_parents_json event))]"

definition chain_hash :: "env \<Rightarrow> event_row \<Rightarrow> int \<Rightarrow> string option \<Rightarrow> string" where
  "chain_hash E event sequence previous = content_hash (env_sha256 E) (chain_value event sequence previous)"

definition insert_chain_root :: "chain_row \<Rightarrow> 'a kernel_db_scheme \<Rightarrow> ('a kernel_db_scheme) res" where
  "insert_chain_root r db =
     (if ch_event_id r \<in> ch_event_id ` set (event_chain_roots db)
         \<or> (\<exists>q\<in>set (event_chain_roots db). ch_subject_id q = ch_subject_id r \<and> ch_sequence q = ch_sequence r)
      then Inl (SqliteIntegrityError ''UNIQUE constraint failed: event_chain_roots'')
      else if ch_sequence r \<le> 0 then Inl (SqliteIntegrityError ''CHECK constraint failed: sequence_number'')
      else if ch_event_id r \<notin> ev_event_id ` set (events db) \<or> ch_subject_id r \<notin> set (subject_identity db)
      then Inl (SqliteIntegrityError ''FOREIGN KEY constraint failed'')
      else Inr (db\<lparr>event_chain_roots := event_chain_roots db @ [r]\<rparr>))"

definition add_chain_root ::
    "env \<Rightarrow> string \<Rightarrow> event_row \<Rightarrow> int \<Rightarrow> string option \<Rightarrow> 'a kernel_db_scheme \<Rightarrow> ('a kernel_db_scheme) res" where
  "add_chain_root E subject_id event sequence previous db =
     (let root = chain_hash E event sequence previous; (now, db1) = utc_now E db
      in insert_chain_root \<lparr>ch_event_id = ev_event_id event, ch_subject_id = subject_id,
           ch_sequence = sequence, ch_previous = previous, ch_root = root, ch_created_at = now\<rparr> db1)"

fun rebuild_chain ::
    "env \<Rightarrow> string \<Rightarrow> event_row list \<Rightarrow> int \<Rightarrow> string option \<Rightarrow> 'a kernel_db_scheme \<Rightarrow> ('a kernel_db_scheme) res" where
  "rebuild_chain E subject_id [] sequence previous db = Inr db"
| "rebuild_chain E subject_id (event # rest) sequence previous db =
     res_bind (add_chain_root E subject_id event sequence previous db)
       (rebuild_chain E subject_id rest (sequence + 1) (Some (chain_hash E event sequence previous)))"

definition subject_events :: "string \<Rightarrow> 'a kernel_db_scheme \<Rightarrow> event_row list" where
  "subject_events subject_id db = filter (\<lambda>e. ev_subject_id e = subject_id) (events db)"

definition subject_roots :: "string \<Rightarrow> 'a kernel_db_scheme \<Rightarrow> chain_row list" where
  "subject_roots subject_id db = fetchall_by (\<lambda>r. ch_subject_id r = subject_id) ch_sequence (event_chain_roots db)"

definition append_chain_connection ::
    "env \<Rightarrow> string \<Rightarrow> string \<Rightarrow> 'a kernel_db_scheme \<Rightarrow> ('a kernel_db_scheme) res" where
  "append_chain_connection E subject_id event_id db =
     (let event_count = int (count_where (\<lambda>e. ev_subject_id e = subject_id) (events db));
          chain_count = int (count_where (\<lambda>r. ch_subject_id r = subject_id) (event_chain_roots db))
      in if chain_count = 0 \<and> event_count > 1
         then rebuild_chain E subject_id (subject_events subject_id db) 1 None db
         else if chain_count \<noteq> event_count - 1
         then Inl (IntegrityError ''event chain is incomplete before append'')
         else
           (let roots = subject_roots subject_id db;
                previous = (if roots = [] then None else Some (ch_root (last roots)))
            in case fetchone (\<lambda>e. ev_event_id e = event_id) (events db) of
                 None \<Rightarrow> Inl (TypeError ''NoneType object is not subscriptable'')
               | Some event \<Rightarrow> add_chain_root E subject_id event event_count previous db))"

definition payload_from_row :: "env \<Rightarrow> event_row \<Rightarrow> json res" where
  "payload_from_row E row =
     (case ev_archive_key row of
        None \<Rightarrow>
          res_bind (res_wrap (IntegrityError (''event payload JSON is invalid: '' @ ev_event_id row))
              (strict_json_loads (ev_payload_json row))) (\<lambda>payload.
            case payload of
              JObj kvs \<Rightarrow> Inr payload
            | _ \<Rightarrow> Inl (IntegrityError (''event payload is not an object: '' @ ev_event_id row)))
      | Some key \<Rightarrow>
          res_bind (env_segment E (ev_subject_id row) key) (\<lambda>segment.
            case segment (ev_event_id row) of
              None \<Rightarrow> Inl (IntegrityError (''event is missing from archive segment: '' @ ev_event_id row))
            | Some payload \<Rightarrow> Inr payload))"

fun json_strings :: "json list \<Rightarrow> string list option" where
  "json_strings [] = Some []"
| "json_strings (JStr s # vs) = map_option (Cons s) (json_strings vs)"
| "json_strings (_ # vs) = None"

definition from_row :: "env \<Rightarrow> event_row \<Rightarrow> event_record res" where
  "from_row E row =
     res_bind (payload_from_row E row) (\<lambda>payload.
     let bad_parents = IntegrityError (''event causal parents are invalid: '' @ ev_event_id row)
     in res_bind (res_wrap bad_parents (strict_json_loads (ev_parents_json row))) (\<lambda>raw.
     res_bind (case raw of
         JList vs \<Rightarrow> (case json_strings vs of None \<Rightarrow> Inl bad_parents | Some ps \<Rightarrow> Inr ps)
       | _ \<Rightarrow> Inl bad_parents) (\<lambda>parents.
     if content_hash (env_sha256 E) payload \<noteq> ev_payload_hash row
     then Inl (IntegrityError (''event payload hash mismatch: '' @ ev_event_id row))
     else if ev_processing_status row \<notin> set processing_states
     then Inl (IntegrityError (''event processing status is invalid: '' @ ev_event_id row))
     else Inr \<lparr>er_event_id = ev_event_id row, er_subject_id = ev_subject_id row,
       er_event_type = ev_event_type row, er_source = ev_source row,
       er_occurred_at = ev_occurred_at row, er_observed_at = ev_observed_at row,
       er_payload = payload, er_payload_hash = ev_payload_hash row,
       er_privacy_level = ev_privacy_level row, er_causal_parent_ids = parents,
       er_processing_status = ev_processing_status row\<rparr>)))"

definition insert_event :: "event_row \<Rightarrow> 'a kernel_db_scheme \<Rightarrow> ('a kernel_db_scheme) res" where
  "insert_event e db =
     (if ev_event_id e \<in> ev_event_id ` set (events db)
      then Inl (SqliteIntegrityError ''UNIQUE constraint failed: events.event_id'')
      else if ev_subject_id e \<notin> set (subject_identity db)
      then Inl (SqliteIntegrityError ''FOREIGN KEY constraint failed'')
      else Inr (db\<lparr>events := events db @ [e]\<rparr>))"

definition check_parent :: "string \<Rightarrow> bool \<Rightarrow> string \<Rightarrow> 'a kernel_db_scheme \<Rightarrow> string \<Rightarrow> unit res" where
  "check_parent subject_id runtime_timestamp occurred_at db parent_id =
     (case fetchone (\<lambda>e. ev_event_id e = parent_id) (events db) of
        None \<Rightarrow> Inl (ValueError (''event causal parent is unavailable: '' @ parent_id))
      | Some parent \<Rightarrow>
          if ev_subject_id parent \<noteq> subject_id
          then Inl (PermissionError ''event causal parent belongs to another subject'')
          else if runtime_timestamp \<and> ev_occurred_at parent > occurred_at
          then Inl (ValueError ''event causal parent occurred_at cannot be after the child event'')
          else Inr ())"

text \<open>The arguments of \<open>append\<close>, with the keyword arguments' defaults left to the caller.\<close>

record event_args =
  ea_subject_id :: string
  ea_event_type :: string
  ea_source :: string
  ea_payload :: json
  ea_privacy_level :: string
  ea_parents :: "string list"
  ea_occurred_at :: "string option"
  ea_event_id :: "string option"

definition same_event :: "env \<Rightarrow> event_args \<Rightarrow> event_row \<Rightarrow> bool" where
  "same_event E a row =
     (ev_subject_id row = ea_subject_id a \<and> ev_event_type row = ea_event_type a
      \<and> ev_source row = ea_source a
      \<and> ev_payload_hash row = content_hash (env_sha256 E) (ea_payload a)
      \<and> ev_privacy_level row = ea_privacy_level a
      \<and> ev_parents_json row = canonical_json (JList (map JStr (ea_parents a))))"

definition new_event_row :: "env \<Rightarrow> event_args \<Rightarrow> string \<Rightarrow> string \<Rightarrow> string \<Rightarrow> event_row" where
  "new_event_row E a event_id occurred_at observed_at =
     \<lparr>ev_event_id = event_id, ev_subject_id = ea_subject_id a, ev_event_type = ea_event_type a,
      ev_source = ea_source a, ev_occurred_at = occurred_at, ev_observed_at = observed_at,
      ev_payload_json = canonical_json (ea_payload a),
      ev_payload_hash = content_hash (env_sha256 E) (ea_payload a),
      ev_privacy_level = ea_privacy_level a,
      ev_parents_json = canonical_json (JList (map JStr (ea_parents a))),
      ev_processing_status = ''recorded'', ev_archive_key = None\<rparr>"

definition append_existing ::
    "env \<Rightarrow> event_args \<Rightarrow> event_row \<Rightarrow> 'a kernel_db_scheme \<Rightarrow> (event_record \<times> 'a kernel_db_scheme) res" where
  "append_existing E a existing db =
     (if \<not> same_event E a existing
      then Inl (EventConflictError
        (''event ID already exists with different content: '' @ ev_event_id existing))
      else res_bind (record_event E (ea_subject_id a) (ev_event_id existing) (ea_event_type a)
             (ea_privacy_level a) (content_hash (env_sha256 E) (ea_payload a)) db) (\<lambda>db1.
           res_bind (from_row E existing) (\<lambda>r. Inr (r, db1))))"

definition append_new ::
    "env \<Rightarrow> event_args \<Rightarrow> string \<Rightarrow> string \<Rightarrow> string \<Rightarrow> 'a kernel_db_scheme
      \<Rightarrow> (event_record \<times> 'a kernel_db_scheme) res" where
  "append_new E a event_id occurred_at observed_at db =
     res_bind (res_all (check_parent (ea_subject_id a) (ea_occurred_at a = None) occurred_at db) (ea_parents a)) (\<lambda>_.
     res_bind (insert_event (new_event_row E a event_id occurred_at observed_at) db) (\<lambda>db1.
     res_bind (record_event E (ea_subject_id a) event_id (ea_event_type a) (ea_privacy_level a)
         (content_hash (env_sha256 E) (ea_payload a)) db1) (\<lambda>db2.
     res_bind (append_chain_connection E (ea_subject_id a) event_id db2) (\<lambda>db3.
     Inr (\<lparr>er_event_id = event_id, er_subject_id = ea_subject_id a, er_event_type = ea_event_type a,
           er_source = ea_source a, er_occurred_at = occurred_at, er_observed_at = observed_at,
           er_payload = ea_payload a, er_payload_hash = content_hash (env_sha256 E) (ea_payload a),
           er_privacy_level = ea_privacy_level a, er_causal_parent_ids = ea_parents a,
           er_processing_status = ''recorded''\<rparr>, db3)))))"

definition draw_event_id :: "env \<Rightarrow> event_args \<Rightarrow> 'a kernel_db_scheme \<Rightarrow> string \<times> 'a kernel_db_scheme" where
  "draw_event_id E a db =
     (case ea_event_id a of
        None \<Rightarrow> new_id E ''evt'' db
      | Some i \<Rightarrow> if i = [] then new_id E ''evt'' db else (i, db))"

definition draw_occurred_at :: "env \<Rightarrow> event_args \<Rightarrow> 'a kernel_db_scheme \<Rightarrow> string \<times> 'a kernel_db_scheme" where
  "draw_occurred_at E a db =
     (case ea_occurred_at a of
        None \<Rightarrow> utc_now E db
      | Some t \<Rightarrow> if t = [] then utc_now E db else (t, db))"

definition append_connection ::
    "env \<Rightarrow> event_args \<Rightarrow> 'a kernel_db_scheme \<Rightarrow> (event_record \<times> 'a kernel_db_scheme) res" where
  "append_connection E a db =
     (if blank (ea_event_type a) \<or> blank (ea_source a)
      then Inl (ValueError ''event_type and source are required'')
      else if blank (ea_privacy_level a) then Inl (ValueError ''privacy_level is required'')
      else
        let (event_id, db1) = draw_event_id E a db;
            (raw_time, db2) = draw_occurred_at E a db1
        in res_bind (normalize_timestamp raw_time) (\<lambda>occurred_at.
           let (observed_at, db3) = utc_now E db2
           in if \<not> distinct (ea_parents a) \<or> event_id \<in> set (ea_parents a)
              then Inl (ValueError ''event causal parents must be distinct prior events'')
              else
                res_bind (res_all (\<lambda>p. assert_event_sources_available (ea_subject_id a) p db3) (ea_parents a)) (\<lambda>_.
                case fetchone (\<lambda>e. ev_event_id e = event_id) (events db3) of
                  Some existing \<Rightarrow> append_existing E a existing db3
                | None \<Rightarrow> append_new E a event_id occurred_at observed_at db3)))"

definition get_event :: "env \<Rightarrow> string \<Rightarrow> 'a kernel_db_scheme \<Rightarrow> event_record res" where
  "get_event E event_id db =
     (case fetchone (\<lambda>e. ev_event_id e = event_id) (events db) of
        None \<Rightarrow> Inl (NotFoundError (''event not found: '' @ event_id))
      | Some row \<Rightarrow> from_row E row)"

definition clamp_limit :: "int \<Rightarrow> nat" where
  "clamp_limit limit = nat (max 1 (min limit 1000))"

text \<open>\<open>ORDER BY occurred_at DESC, event_id DESC LIMIT n\<close>; an empty status is no filter.\<close>

definition list_events :: "env \<Rightarrow> string \<Rightarrow> int \<Rightarrow> string option \<Rightarrow> 'a kernel_db_scheme \<Rightarrow> event_record list res" where
  "list_events E subject_id limit status db =
     (let wanted = (\<lambda>e. ev_subject_id e = subject_id \<and>
            (case status of None \<Rightarrow> True | Some s \<Rightarrow> s = [] \<or> ev_processing_status e = s));
          rows = rev (fetchall_by wanted (\<lambda>e. (ev_occurred_at e, ev_event_id e)) (events db))
      in res_map (from_row E) (take (clamp_limit limit) rows))"

definition mark_processed :: "string \<Rightarrow> string \<Rightarrow> string \<Rightarrow> 'a kernel_db_scheme \<Rightarrow> ('a kernel_db_scheme) res" where
  "mark_processed event_id status subject_id db =
     (if status \<notin> {''processed'', ''failed''}
      then Inl (ValueError (''invalid event processing status: '' @ status))
      else
        let hit = (\<lambda>e. ev_event_id e = event_id \<and> ev_subject_id e = subject_id)
        in if count_where hit (events db) \<noteq> 1
           then Inl (NotFoundError (''event not found: '' @ event_id))
           else Inr (db\<lparr>events := update_where hit (\<lambda>e. e\<lparr>ev_processing_status := status\<rparr>) (events db)\<rparr>))"

fun verify_roots ::
    "env \<Rightarrow> int \<Rightarrow> string option \<Rightarrow> (chain_row \<times> event_row) list \<Rightarrow> (int \<times> string option) res" where
  "verify_roots E verified previous [] = Inr (verified, previous)"
| "verify_roots E verified previous ((r, e) # rows) =
     (let sequence = verified + 1; expected = chain_hash E e sequence previous
      in if ch_sequence r \<noteq> sequence \<or> ch_event_id r \<noteq> ev_event_id e
            \<or> ch_previous r \<noteq> previous \<or> ch_root r \<noteq> expected
         then Inl (IntegrityError (''event chain mismatch at sequence '' @ show_int sequence))
         else verify_roots E sequence (Some expected) rows)"

definition chain_join :: "string \<Rightarrow> 'a kernel_db_scheme \<Rightarrow> (chain_row \<times> event_row) list" where
  "chain_join subject_id db =
     concat (map (\<lambda>r. map (Pair r) (filter (\<lambda>e. ev_event_id e = ch_event_id r \<and> ev_subject_id e = ch_subject_id r)
       (events db))) (subject_roots subject_id db))"

definition verify_chain :: "env \<Rightarrow> string \<Rightarrow> 'a kernel_db_scheme \<Rightarrow> (int \<times> string option) res" where
  "verify_chain E subject_id db =
     (let event_count = int (count_where (\<lambda>e. ev_subject_id e = subject_id) (events db));
          root_count = int (count_where (\<lambda>r. ch_subject_id r = subject_id) (event_chain_roots db))
      in if event_count \<noteq> root_count then Inl (IntegrityError ''event chain coverage mismatch'')
         else res_bind (verify_roots E 0 None (chain_join subject_id db)) (\<lambda>(verified, root).
           if verified \<noteq> event_count then Inl (IntegrityError ''event chain coverage mismatch'')
           else Inr (verified, root)))"

definition json_each :: "json \<Rightarrow> json list" where
  "json_each v = (case v of JList vs \<Rightarrow> vs | JObj kvs \<Rightarrow> map snd kvs | _ \<Rightarrow> [v])"

definition parent_ids :: "event_row \<Rightarrow> string list" where
  "parent_ids e =
     (case strict_json_loads (ev_parents_json e) of
        Inl _ \<Rightarrow> [] | Inr v \<Rightarrow> List.map_filter json_as_text (json_each v))"

text \<open>The rows of the causality query: child, its time, parent, its time.\<close>

definition causal_edges :: "string \<Rightarrow> 'a kernel_db_scheme \<Rightarrow> (event_row \<times> event_row) list" where
  "causal_edges subject_id db =
     concat (map (\<lambda>c. concat (map (\<lambda>pid. map (Pair c)
         (filter (\<lambda>p. ev_event_id p = pid \<and> ev_subject_id p = ev_subject_id c
            \<and> ev_occurred_at p > ev_occurred_at c) (events db))) (parent_ids c)))
       (filter (\<lambda>c. ev_subject_id c = subject_id \<and> ev_parents_json c \<noteq> ''[]'') (events db)))"

definition causal_anomalies :: "string \<Rightarrow> int \<Rightarrow> 'a kernel_db_scheme
    \<Rightarrow> (string \<times> string \<times> string \<times> string) list res" where
  "causal_anomalies subject_id limit db =
     (let nonempty = filter (\<lambda>e. ev_subject_id e = subject_id \<and> ev_parents_json e \<noteq> ''[]'') (events db)
      in if nonempty = [] then Inr []
         else case fetchone (\<lambda>e. \<not> is_ok (strict_json_loads (ev_parents_json e))) nonempty of
             Some bad \<Rightarrow> Inl (IntegrityError (''event causal parents are invalid: '' @ ev_event_id bad))
           | None \<Rightarrow> Inr (map (\<lambda>(c, p). (ev_event_id c, ev_event_id p, ev_occurred_at c, ev_occurred_at p))
               (take (clamp_limit limit)
                 (sort_key (\<lambda>(c, p). (ev_occurred_at c, ev_event_id c, ev_event_id p))
                   (causal_edges subject_id db)))))"

section \<open>The chain\<close>

lemma verify_roots_append:
  "verify_roots E v p (xs @ ys) = res_bind (verify_roots E v p xs) (\<lambda>(n, q). verify_roots E n q ys)"
  by (induction E v p xs rule: verify_roots.induct) (auto simp: Let_def)

lemma verify_roots_ok:
  assumes "verify_roots E v p rows = Inr (n, q)"
  shows "n = v + int (length rows)"
    and "map (ch_sequence \<circ> fst) rows = map (\<lambda>i. v + 1 + int i) [0..<length rows]"
    and "q = (if rows = [] then p else Some (ch_root (fst (last rows))))"
proof -
  have "n = v + int (length rows)
      \<and> (\<forall>i<length rows. ch_sequence (fst (rows ! i)) = v + 1 + int i)
      \<and> q = (if rows = [] then p else Some (ch_root (fst (last rows))))"
    using assms
  proof (induction E v p rows rule: verify_roots.induct)
    case (2 E v p r e rows)
    then have "ch_sequence r = v + 1" "ch_root r = chain_hash E e (v + 1) p"
      and rest: "verify_roots E (v + 1) (Some (chain_hash E e (v + 1) p)) rows = Inr (n, q)"
      by (auto simp: Let_def split: if_splits)
    with 2 show ?case by (fastforce simp: Let_def nth_Cons split: nat.splits)
  qed simp
  then show "n = v + int (length rows)"
    "map (ch_sequence \<circ> fst) rows = map (\<lambda>i. v + 1 + int i) [0..<length rows]"
    "q = (if rows = [] then p else Some (ch_root (fst (last rows))))"
    by (auto intro!: nth_equalityI)
qed

text \<open>A join in which every row on the left has at most one partner and no row is lost.\<close>

lemma join_total:
  assumes "\<And>r. r \<in> set rs \<Longrightarrow> length (f r) \<le> 1"
    and "length (concat (map (\<lambda>r. map (Pair r) (f r)) rs)) = length rs"
  shows "map fst (concat (map (\<lambda>r. map (Pair r) (f r)) rs)) = rs"
  using assms
proof (induction rs)
  case (Cons r rs)
  have le: "length (concat (map (\<lambda>r. map (Pair r) (f r)) rs)) \<le> length rs"
    using Cons.prems(1) by (induction rs) (auto, fastforce)
  have "length (f r) + length (concat (map (\<lambda>r. map (Pair r) (f r)) rs)) = Suc (length rs)" "length (f r) \<le> 1"
    using Cons.prems by simp_all
  with le have "length (f r) = 1 \<and> length (concat (map (\<lambda>r. map (Pair r) (f r)) rs)) = length rs"
    by linarith
  with Cons show ?case by (auto simp: length_Suc_conv)
qed simp

lemma concat_part_small:
  assumes "distinct (map g (concat (map (\<lambda>r. map (Pair r) (f r)) rs)))" and "r \<in> set rs"
    and "\<And>x. g (r, x) = c r"
  shows "length (f r) \<le> 1"
proof -
  obtain ys zs where "rs = ys @ r # zs" using assms(2) by (meson split_list)
  with assms(1) have "distinct (map g (map (Pair r) (f r)))" by simp
  with assms(3) have "distinct (map (\<lambda>_. c r) (f r))" by (simp add: comp_def)
  then show ?thesis by (cases "f r" rule: list.exhaust; cases "tl (f r)") auto
qed

lemma chain_join_fst:
  assumes "verify_chain E sid db = Inr (n, q)"
  shows "map fst (chain_join sid db) = subject_roots sid db"
proof -
  let ?f = "\<lambda>r. filter (\<lambda>e. ev_event_id e = ch_event_id r \<and> ev_subject_id e = ch_subject_id r) (events db)"
  from assms have v: "verify_roots E 0 None (chain_join sid db) = Inr (n, q)"
    and n: "n = int (count_where (\<lambda>r. ch_subject_id r = sid) (event_chain_roots db))"
    by (auto simp: verify_chain_def Let_def split: if_splits)
  have "distinct (map (ch_sequence \<circ> fst) (chain_join sid db))"
    unfolding verify_roots_ok(2) [OF v] by (simp add: distinct_map inj_on_def)
  then have "length (?f r) \<le> 1" if "r \<in> set (subject_roots sid db)" for r
    unfolding chain_join_def
    by (rule concat_part_small [OF _ that, where c = ch_sequence]) simp
  moreover have "length (chain_join sid db) = length (subject_roots sid db)"
    using verify_roots_ok(1) [OF v] n by (simp add: subject_roots_def fetchall_by_def count_where_def)
  ultimately show ?thesis unfolding chain_join_def by (intro join_total) simp_all
qed

lemma verify_chain_roots:
  assumes "verify_chain E sid db = Inr (n, q)"
  shows "n = int (count_where (\<lambda>e. ev_subject_id e = sid) (events db))"
    and "n = int (count_where (\<lambda>r. ch_subject_id r = sid) (event_chain_roots db))"
    and "q = (if subject_roots sid db = [] then None else Some (ch_root (last (subject_roots sid db))))"
    and "\<And>r. r \<in> set (event_chain_roots db) \<Longrightarrow> ch_subject_id r = sid \<Longrightarrow> ch_sequence r \<le> n"
proof -
  note fst = chain_join_fst [OF assms]
  from assms have v: "verify_roots E 0 None (chain_join sid db) = Inr (n, q)"
    and n: "n = int (count_where (\<lambda>r. ch_subject_id r = sid) (event_chain_roots db))"
    "n = int (count_where (\<lambda>e. ev_subject_id e = sid) (events db))"
    by (auto simp: verify_chain_def Let_def split: if_splits)
  from n show "n = int (count_where (\<lambda>e. ev_subject_id e = sid) (events db))"
    "n = int (count_where (\<lambda>r. ch_subject_id r = sid) (event_chain_roots db))" by simp_all
  have "subject_roots sid db = [] \<longleftrightarrow> chain_join sid db = []" by (simp flip: fst)
  moreover have "last (subject_roots sid db) = fst (last (chain_join sid db))" if "chain_join sid db \<noteq> []"
    using that by (simp add: last_map flip: fst)
  ultimately show "q = (if subject_roots sid db = [] then None else Some (ch_root (last (subject_roots sid db))))"
    using verify_roots_ok(3) [OF v] by simp
  fix r assume "r \<in> set (event_chain_roots db)" "ch_subject_id r = sid"
  then have "r \<in> set (subject_roots sid db)" by (simp add: subject_roots_def fetchall_by_def)
  then have "r \<in> fst ` set (chain_join sid db)" by (metis fst list.set_map)
  then have "ch_sequence r \<in> set (map (ch_sequence \<circ> fst) (chain_join sid db))" by auto
  then show "ch_sequence r \<le> n" using verify_roots_ok(1,2) [OF v] by auto
qed

lemma verify_chain_cong:
  "events db' = events db \<Longrightarrow> event_chain_roots db' = event_chain_roots db \<Longrightarrow>
   verify_chain E sid db' = verify_chain E sid db"
  by (simp add: verify_chain_def chain_join_def subject_roots_def)

lemma verify_chain_extend:
  assumes ok: "verify_chain E sid db = Inr (n, q)"
    and ev: "events db' = events db @ [e]" and ro: "event_chain_roots db' = event_chain_roots db @ [r]"
    and e: "ev_subject_id e = sid" "ev_event_id e \<notin> ev_event_id ` set (events db)"
    and fresh: "ev_event_id e \<notin> ch_event_id ` set (event_chain_roots db)"
    and r: "ch_event_id r = ev_event_id e" "ch_subject_id r = sid" "ch_sequence r = n + 1"
      "ch_previous r = q" "ch_root r = chain_hash E e (n + 1) q"
  shows "verify_chain E sid db' = Inr (n + 1, Some (chain_hash E e (n + 1) q))"
proof -
  note old = verify_chain_roots [OF ok]
  have roots: "subject_roots sid db' = subject_roots sid db @ [r]"
    using old(4) r by (auto simp: subject_roots_def fetchall_by_def ro intro!: sort_key_snoc_max, fastforce)
  have keep: "filter (\<lambda>x. ev_event_id x = ch_event_id s \<and> ev_subject_id x = ch_subject_id s) (events db')
      = filter (\<lambda>x. ev_event_id x = ch_event_id s \<and> ev_subject_id x = ch_subject_id s) (events db)"
    if "s \<in> set (subject_roots sid db)" for s
    using that fresh by (auto simp: ev subject_roots_def fetchall_by_def)
  have new: "filter (\<lambda>x. ev_event_id x = ch_event_id r \<and> ev_subject_id x = ch_subject_id r) (events db') = [e]"
    using e r by (auto simp: ev filter_empty_conv image_iff)
  have join: "chain_join sid db' = chain_join sid db @ [(r, e)]"
    using keep new by (simp add: chain_join_def roots cong: map_cong)
  have v: "verify_roots E 0 None (chain_join sid db) = Inr (n, q)"
    using ok by (auto simp: verify_chain_def Let_def split: if_splits)
  have "verify_roots E 0 None (chain_join sid db') = Inr (n + 1, Some (chain_hash E e (n + 1) q))"
    using r by (simp add: join verify_roots_append v Let_def)
  with old(1,2) e r show ?thesis
    by (simp add: verify_chain_def Let_def ev ro count_where_append)
qed

lemma verify_chain_other:
  assumes "events db' = events db @ [e]" "event_chain_roots db' = event_chain_roots db @ [r]"
    and "ev_subject_id e \<noteq> sid" "ch_subject_id r \<noteq> sid"
  shows "verify_chain E sid db' = verify_chain E sid db"
proof -
  have "filter (\<lambda>x. ev_event_id x = ch_event_id s \<and> ev_subject_id x = ch_subject_id s) (events db')
      = filter (\<lambda>x. ev_event_id x = ch_event_id s \<and> ev_subject_id x = ch_subject_id s) (events db)"
    if "s \<in> set (subject_roots sid db)" for s
    using that assms by (auto simp: subject_roots_def fetchall_by_def)
  moreover have "subject_roots sid db' = subject_roots sid db"
    using assms by (simp add: subject_roots_def fetchall_by_def)
  ultimately have "chain_join sid db' = chain_join sid db"
    by (simp add: chain_join_def cong: map_cong)
  then show ?thesis using assms by (simp add: verify_chain_def count_where_append Let_def)
qed

section \<open>Appending\<close>

lemma insert_chain_root_Inr:
  "insert_chain_root r db = Inr db' \<longleftrightarrow>
     ch_event_id r \<notin> ch_event_id ` set (event_chain_roots db)
     \<and> \<not> (\<exists>q\<in>set (event_chain_roots db). ch_subject_id q = ch_subject_id r \<and> ch_sequence q = ch_sequence r)
     \<and> 0 < ch_sequence r \<and> ch_event_id r \<in> ev_event_id ` set (events db)
     \<and> ch_subject_id r \<in> set (subject_identity db)
     \<and> db' = db\<lparr>event_chain_roots := event_chain_roots db @ [r]\<rparr>"
  by (auto simp: insert_chain_root_def)

lemma insert_event_Inr:
  "insert_event e db = Inr db' \<longleftrightarrow>
     ev_event_id e \<notin> ev_event_id ` set (events db) \<and> ev_subject_id e \<in> set (subject_identity db)
     \<and> db' = db\<lparr>events := events db @ [e]\<rparr>"
  by (auto simp: insert_event_def)

lemma rebuild_chain_frame:
  "rebuild_chain E sid es n p db = Inr db' \<Longrightarrow>
   \<exists>t ro. db' = db\<lparr>ticks := t, event_chain_roots := ro\<rparr>"
proof (induction E sid es n p db rule: rebuild_chain.induct)
  case (1 E sid n p db)
  then show ?case by (intro exI [of _ "ticks db"] exI [of _ "event_chain_roots db"]) simp
next
  case (2 E sid e es n p db)
  from "2.prems" obtain db1 where s: "add_chain_root E sid e n p db = Inr db1"
    "rebuild_chain E sid es (n + 1) (Some (chain_hash E e n p)) db1 = Inr db'" by auto
  from s(1) obtain t ro where "db1 = db\<lparr>ticks := t, event_chain_roots := ro\<rparr>"
    by (auto simp: add_chain_root_def kernel_defs insert_chain_root_Inr)
  moreover from "2.IH" [OF s(2)] obtain t' ro' where "db' = db1\<lparr>ticks := t', event_chain_roots := ro'\<rparr>" by blast
  ultimately have "db' = db\<lparr>ticks := t', event_chain_roots := ro'\<rparr>" by simp
  then show ?case by blast
qed

lemma append_chain_frame:
  assumes "append_chain_connection E sid eid db = Inr db'"
  shows "\<exists>t ro. db' = db\<lparr>ticks := t, event_chain_roots := ro\<rparr>"
  using assms
  by (auto simp: append_chain_connection_def add_chain_root_def kernel_defs insert_chain_root_Inr
      split: if_splits option.splits dest: rebuild_chain_frame)

text \<open>What appending may change: the clients' own tables are not among it.\<close>

definition evidence_update ::
    "nat \<Rightarrow> nat \<Rightarrow> event_row list \<Rightarrow> chain_row list \<Rightarrow> training_policy_row list \<Rightarrow> training_row list
      \<Rightarrow> 'a kernel_db_scheme \<Rightarrow> 'a kernel_db_scheme" where
  "evidence_update t m ev ro tp tr db =
     db\<lparr>ticks := t, fresh_ids := m, training_policies := tp, training_records := tr,
        events := ev, event_chain_roots := ro\<rparr>"

lemma evidence_update_simps [simp]:
  "subject_identity (evidence_update t m ev ro tp tr db) = subject_identity db"
  "runtime_state (evidence_update t m ev ro tp tr db) = runtime_state db"
  "audit_records (evidence_update t m ev ro tp tr db) = audit_records db"
  "events (evidence_update t m ev ro tp tr db) = ev"
  "event_chain_roots (evidence_update t m ev ro tp tr db) = ro"
  "ticks (evidence_update t m ev ro tp tr db) = t"
  "kernel_db.more (evidence_update t m ev ro tp tr db) = kernel_db.more db"
  by (simp_all add: evidence_update_def)

lemma evidence_update_absorb [simp]:
  "evidence_update t m ev ro tp tr (db\<lparr>ticks := t', fresh_ids := m'\<rparr>) = evidence_update t m ev ro tp tr db"
  "evidence_update t m ev ro tp tr (db\<lparr>events := ev'\<rparr>) = evidence_update t m ev ro tp tr db"
  "(evidence_update t m ev ro tp tr db)\<lparr>ticks := t', event_chain_roots := ro'\<rparr> = evidence_update t' m ev ro' tp tr db"
  by (simp_all add: evidence_update_def)

lemma record_event_evidence:
  assumes "record_event E sid eid ty pl h db = Inr db'"
  shows "\<exists>t m tp tr. db' = evidence_update t m (events db) (event_chain_roots db) tp tr db"
proof -
  obtain n m tp tr where
    "db' = db\<lparr>ticks := n, fresh_ids := m, training_policies := tp, training_records := tr\<rparr>"
    by (rule record_event_frame [OF assms])
  then have "db' = evidence_update n m (events db) (event_chain_roots db) tp tr db"
    by (simp add: evidence_update_def)
  then show ?thesis by blast
qed

text \<open>The two ways an append succeeds.\<close>

lemma append_connection_cases:
  assumes "append_connection E a db = Inr (rec, db')"
  obtains (existing) t m row where
      "row \<in> set (events db)" "fst (draw_event_id E a db) = ev_event_id row"
      "append_existing E a row (db\<lparr>ticks := t, fresh_ids := m\<rparr>) = Inr (rec, db')"
    | (new) t m eid occ obs where
      "eid \<notin> ev_event_id ` set (events db)" "eid \<notin> set (ea_parents a)" "distinct (ea_parents a)"
      "append_new E a eid occ obs (db\<lparr>ticks := t, fresh_ids := m\<rparr>) = Inr (rec, db')"
      "fst (draw_event_id E a db) = eid" "\<exists>s. normalize_timestamp s = Inr occ"
proof -
  obtain eid db1 where i: "draw_event_id E a db = (eid, db1)" by (cases "draw_event_id E a db")
  obtain raw db2 where o: "draw_occurred_at E a db1 = (raw, db2)" by (cases "draw_occurred_at E a db1")
  have "db1 = db\<lparr>fresh_ids := fresh_ids db1\<rparr>"
    using i by (auto simp: draw_event_id_def new_id_def split: option.splits if_splits)
  then obtain m where m: "db1 = db\<lparr>fresh_ids := m\<rparr>" ..
  have "db2 = db1\<lparr>ticks := ticks db2\<rparr>"
    using o by (auto simp: draw_occurred_at_def utc_now_def split: option.splits if_splits)
  then obtain t where t: "db2 = db1\<lparr>ticks := t\<rparr>" ..
  let ?db = "db\<lparr>ticks := Suc t, fresh_ids := m\<rparr>"
  have now: "utc_now E db2 = (env_clock E t, ?db)" by (simp add: utc_now_def m t)
  have ev: "events ?db = events db" by simp
  from assms i o obtain occ where
    g: "normalize_timestamp raw = Inr occ" "distinct (ea_parents a)" "eid \<notin> set (ea_parents a)"
    and c: "(case fetchone (\<lambda>e. ev_event_id e = eid) (events db) of
               Some row \<Rightarrow> append_existing E a row ?db
             | None \<Rightarrow> append_new E a eid occ (env_clock E t) ?db) = Inr (rec, db')"
    unfolding append_connection_def i o Let_def prod.case ev by (auto simp: now split: if_splits)
  show thesis
  proof (cases "fetchone (\<lambda>e. ev_event_id e = eid) (events db)")
    case None
    then have "eid \<notin> ev_event_id ` set (events db)" by (auto simp: fetchone_None)
    with None c g i show thesis by (intro that(2) [where t = "Suc t" and m = m]) auto
  next
    case (Some row)
    with c i fetchone_Some [OF Some] show thesis by (intro that(1) [where t = "Suc t" and m = m]) auto
  qed
qed


lemma append_new_effect:
  assumes "append_new E a eid occ obs db = Inr (rec, db')" and ok: "verify_chain E (ea_subject_id a) db = Inr (n, q)"
  defines "e \<equiv> new_event_row E a eid occ obs"
  shows "\<exists>t m tp tr now. db' = evidence_update t m (events db @ [e])
      (event_chain_roots db @ [\<lparr>ch_event_id = eid, ch_subject_id = ea_subject_id a, ch_sequence = n + 1,
         ch_previous = q, ch_root = chain_hash E e (n + 1) q, ch_created_at = now\<rparr>]) tp tr db"
    and "eid \<notin> ev_event_id ` set (events db)" and "eid \<notin> ch_event_id ` set (event_chain_roots db)"
    and "er_event_id rec = eid"
proof -
  have es: "ev_event_id e = eid" "ev_subject_id e = ea_subject_id a" by (simp_all add: e_def new_event_row_def)
  from assms(1) obtain db1 db2 where s: "insert_event e db = Inr db1"
      "record_event E (ea_subject_id a) eid (ea_event_type a) (ea_privacy_level a)
         (content_hash (env_sha256 E) (ea_payload a)) db1 = Inr db2"
      "append_chain_connection E (ea_subject_id a) eid db2 = Inr db'" "er_event_id rec = eid"
    unfolding append_new_def e_def by (auto simp del: res_all_ok)
  from s(1) have i: "eid \<notin> ev_event_id ` set (events db)" "db1 = db\<lparr>events := events db @ [e]\<rparr>"
    by (auto simp: insert_event_Inr es)
  obtain t m tp tr where d2: "db2 = evidence_update t m (events db @ [e]) (event_chain_roots db) tp tr db"
    using record_event_evidence [OF s(2)] by (auto simp: i(2) evidence_update_def)
  have ec: "int (count_where (\<lambda>x. ev_subject_id x = ea_subject_id a) (events db2)) = n + 1"
    and cc: "int (count_where (\<lambda>r. ch_subject_id r = ea_subject_id a) (event_chain_roots db2)) = n"
    using verify_chain_roots(1,2) [OF ok] by (simp_all add: d2 es count_where_append)
  have f: "fetchone (\<lambda>x. ev_event_id x = eid) (events db2) = Some e"
  proof -
    have "fetchone (\<lambda>x. ev_event_id x = eid) (events db) = None" using i(1) by (auto simp: fetchone_None)
    then show ?thesis by (simp add: d2 fetchone_append es)
  qed
  have r: "subject_roots (ea_subject_id a) db2 = subject_roots (ea_subject_id a) db"
    by (simp add: subject_roots_def d2)
  have "add_chain_root E (ea_subject_id a) e (n + 1) q db2 = Inr db'"
    using s(3) verify_chain_roots(3) [OF ok] unfolding append_chain_connection_def ec cc f r Let_def
    by (simp split: if_splits)
  then have fresh: "eid \<notin> ch_event_id ` set (event_chain_roots db)"
    and d: "db' = db2\<lparr>ticks := Suc t, event_chain_roots := event_chain_roots db @ [\<lparr>ch_event_id = eid, ch_subject_id = ea_subject_id a, ch_sequence = n + 1,
         ch_previous = q, ch_root = chain_hash E e (n + 1) q, ch_created_at = env_clock E t\<rparr>]\<rparr>"
    by (auto simp: add_chain_root_def kernel_defs insert_chain_root_Inr d2 es)
  have "db' = evidence_update (Suc t) m (events db @ [e])
      (event_chain_roots db @ [\<lparr>ch_event_id = eid, ch_subject_id = ea_subject_id a, ch_sequence = n + 1,
         ch_previous = q, ch_root = chain_hash E e (n + 1) q, ch_created_at = env_clock E t\<rparr>]) tp tr db"
    by (simp add: d d2 evidence_update_def)
  then show "\<exists>t m tp tr now. db' = evidence_update t m (events db @ [e])
      (event_chain_roots db @ [\<lparr>ch_event_id = eid, ch_subject_id = ea_subject_id a, ch_sequence = n + 1,
         ch_previous = q, ch_root = chain_hash E e (n + 1) q, ch_created_at = now\<rparr>]) tp tr db" by blast
  show "eid \<notin> ev_event_id ` set (events db)" "eid \<notin> ch_event_id ` set (event_chain_roots db)"
    "er_event_id rec = eid" by (fact i(1), fact fresh, fact s(4))
qed

lemma append_existing_effect:
  assumes "append_existing E a row db = Inr (rec, db')"
  shows "\<exists>t m tp tr. db' = evidence_update t m (events db) (event_chain_roots db) tp tr db"
    and "er_event_id rec = ev_event_id row" and "same_event E a row" and "from_row E row = Inr rec"
proof -
  from assms obtain db1 where r: "record_event E (ea_subject_id a) (ev_event_id row) (ea_event_type a)
      (ea_privacy_level a) (content_hash (env_sha256 E) (ea_payload a)) db = Inr db1"
    "db' = db1" "from_row E row = Inr rec" "same_event E a row"
    unfolding append_existing_def by (auto split: if_splits)
  then show "\<exists>t m tp tr. db' = evidence_update t m (events db) (event_chain_roots db) tp tr db"
    using record_event_evidence by blast
  show "er_event_id rec = ev_event_id row" "same_event E a row" "from_row E row = Inr rec"
    using r(3,4) by (auto simp: from_row_def Let_def split: if_splits)
qed

lemma append_connection_frame:
  assumes "append_connection E a db = Inr (rec, db')"
  shows "\<exists>t m ev ro tp tr. db' = evidence_update t m ev ro tp tr db"
  using assms
proof (cases rule: append_connection_cases)
  case (existing t m row)
  from append_existing_effect(1) [OF this(3)] show ?thesis by simp blast
next
  case (new t m eid occ obs)
  then obtain e db1 db2 where s: "insert_event e (db\<lparr>ticks := t, fresh_ids := m\<rparr>) = Inr db1"
      "record_event E (ea_subject_id a) eid (ea_event_type a) (ea_privacy_level a)
         (content_hash (env_sha256 E) (ea_payload a)) db1 = Inr db2"
      "append_chain_connection E (ea_subject_id a) eid db2 = Inr db'"
    by (auto simp: append_new_def simp del: res_all_ok)
  from s(1) have "db1 = (db\<lparr>ticks := t, fresh_ids := m\<rparr>)\<lparr>events := events db @ [e]\<rparr>"
    by (simp add: insert_event_Inr)
  with record_event_evidence [OF s(2)] obtain t m ev ro tp tr where "db2 = evidence_update t m ev ro tp tr db"
    by (metis evidence_update_absorb(1,2))
  with append_chain_frame [OF s(3)] show ?thesis by (metis evidence_update_absorb(3))
qed

lemma append_connection_chain:
  assumes ok: "verify_chain E (ea_subject_id a) db = Inr (n, root)"
    and app: "append_connection E a db = Inr (rec, db')"
  shows "verify_chain E (ea_subject_id a) db' =
      Inr (if er_event_id rec \<in> ev_event_id ` set (events db) then (n, root)
           else (n + 1, Some (chain_hash E (last (events db')) (n + 1) root)))"
    and "sid \<noteq> ea_subject_id a \<Longrightarrow> verify_chain E sid db' = verify_chain E sid db"
proof -
  from app have "verify_chain E (ea_subject_id a) db' =
      Inr (if er_event_id rec \<in> ev_event_id ` set (events db) then (n, root)
           else (n + 1, Some (chain_hash E (last (events db')) (n + 1) root)))
    \<and> (sid \<noteq> ea_subject_id a \<longrightarrow> verify_chain E sid db' = verify_chain E sid db)"
  proof (cases rule: append_connection_cases)
    case (existing t m row)
    from append_existing_effect(1) [OF existing(3)]
    have "events db' = events db" "event_chain_roots db' = event_chain_roots db" by auto
    then have "verify_chain E s db' = verify_chain E s db" for s by (rule verify_chain_cong)
    with existing(1) append_existing_effect(2) [OF existing(3)] ok show ?thesis by auto
  next
    case (new t m eid occ obs)
    let ?db = "db\<lparr>ticks := t, fresh_ids := m\<rparr>"
    let ?e = "new_event_row E a eid occ obs"
    have ok': "verify_chain E (ea_subject_id a) ?db = Inr (n, root)"
      using ok by (subst verify_chain_cong [of ?db db]) simp_all
    note eff = append_new_effect [OF new(4) ok']
    from eff(1) obtain r where ev: "events db' = events db @ [?e]" and ro: "event_chain_roots db' = event_chain_roots db @ [r]"
      and r: "ch_event_id r = ev_event_id ?e" "ch_subject_id r = ea_subject_id a" "ch_sequence r = n + 1"
        "ch_previous r = root" "ch_root r = chain_hash E ?e (n + 1) root"
      by (fastforce simp: new_event_row_def)
    have e: "ev_subject_id ?e = ea_subject_id a" "ev_event_id ?e = eid" by (simp_all add: new_event_row_def)
    have "verify_chain E (ea_subject_id a) db' = Inr (n + 1, Some (chain_hash E ?e (n + 1) root))"
      using eff(2,3) e by (intro verify_chain_extend [OF ok ev ro _ _ _ r]) simp_all
    moreover have "verify_chain E sid db' = verify_chain E sid db" if "sid \<noteq> ea_subject_id a"
      using that e r by (intro verify_chain_other [OF ev ro]) auto
    ultimately show ?thesis using ev eff(2,4) by simp
  qed
  then show "verify_chain E (ea_subject_id a) db' =
      Inr (if er_event_id rec \<in> ev_event_id ` set (events db) then (n, root)
           else (n + 1, Some (chain_hash E (last (events db')) (n + 1) root)))"
    and "sid \<noteq> ea_subject_id a \<Longrightarrow> verify_chain E sid db' = verify_chain E sid db" by blast+
qed

lemma chain_hash_status [simp]: "chain_hash E (e\<lparr>ev_processing_status := s\<rparr>) n p = chain_hash E e n p"
  by (simp add: chain_hash_def chain_value_def)

lemma verify_roots_map:
  assumes "\<And>e. chain_hash E (f e) = chain_hash E e" "\<And>e. ev_event_id (f e) = ev_event_id e"
  shows "verify_roots E n p (map (\<lambda>(r, e). (r, f e)) rows) = verify_roots E n p rows"
  using assms by (induction E n p rows rule: verify_roots.induct) (auto simp: Let_def)

lemma verify_chain_map:
  assumes db': "events db' = map f (events db)" "event_chain_roots db' = event_chain_roots db"
    and f: "\<And>e. chain_hash E (f e) = chain_hash E e" "\<And>e. ev_event_id (f e) = ev_event_id e"
      "\<And>e. ev_subject_id (f e) = ev_subject_id e"
  shows "verify_chain E s db' = verify_chain E s db"
proof -
  have "chain_join s db' = map (\<lambda>(r, e). (r, f e)) (chain_join s db)"
    by (simp add: chain_join_def db' f subject_roots_def map_concat filter_map comp_def)
  moreover have "count_where (\<lambda>e. ev_subject_id e = s) (map f es) = count_where (\<lambda>e. ev_subject_id e = s) es" for es
    by (induction es) (simp_all add: f)
  ultimately show ?thesis by (simp add: verify_chain_def Let_def db' verify_roots_map f)
qed

lemma mark_processed_chain:
  assumes "mark_processed eid st sid db = Inr db'"
  shows "verify_chain E s db' = verify_chain E s db"
  using assms
  by (intro verify_chain_map [where f = "\<lambda>e. if ev_event_id e = eid \<and> ev_subject_id e = sid
        then e\<lparr>ev_processing_status := st\<rparr> else e"])
    (auto simp: mark_processed_def Let_def update_where_def fun_eq_iff split: if_splits)

section \<open>Tamper evidence\<close>

definition chain_content :: "event_row \<Rightarrow> string list" where
  "chain_content e = [ev_subject_id e, ev_event_id e, ev_event_type e, ev_source e, ev_occurred_at e,
     ev_observed_at e, ev_payload_hash e, ev_privacy_level e, ev_parents_json e]"

definition chain_events :: "string \<Rightarrow> 'a kernel_db_scheme \<Rightarrow> event_row list" where
  "chain_events subject_id db = map snd (chain_join subject_id db)"

fun chain_texts :: "env \<Rightarrow> int \<Rightarrow> string option \<Rightarrow> event_row list \<Rightarrow> string list" where
  "chain_texts E n p [] = []"
| "chain_texts E n p (e # es) =
     canonical_json (chain_value e (n + 1) p) # chain_texts E (n + 1) (Some (chain_hash E e (n + 1) p)) es"

lemma chain_value_inject:
  "canonical_json (chain_value e n p) = canonical_json (chain_value e' n' p') \<longleftrightarrow>
   chain_content e = chain_content e' \<and> n = n' \<and> p = p'"
  unfolding chain_value_def
  by (subst canonical_json_obj_inject) (auto simp: chain_content_def split: option.splits)

interpretation event_chain: hash_chain "env_sha256 E" "\<lambda>e n p. canonical_json (chain_value e n p)" chain_content
  for E :: env
  by unfold_locales (simp add: chain_value_inject)

lemma chain_texts_eq: "chain_texts E n p es = event_chain.texts E n p es"
  by (induction E n p es rule: chain_texts.induct) (simp_all add: chain_hash_def content_hash_def)

lemma verify_roots_root:
  "verify_roots E n p rows = Inr (m, q) \<Longrightarrow> q = event_chain.root E n p (map snd rows)"
proof (induction E n p rows rule: verify_roots.induct)
  case (2 E n p r e rows)
  then show ?case
    by (auto simp: Let_def event_chain.root_Cons chain_hash_def content_hash_def split: if_splits)
qed (simp add: event_chain.root_def)

section \<open>Reachable stores\<close>

inductive event_step :: "env \<Rightarrow> 'a kernel_db_scheme \<Rightarrow> 'a kernel_db_scheme \<Rightarrow> bool" for E where
  step_append: "append_connection E a db = Inr (r, db') \<Longrightarrow> event_step E db db'"
| step_mark: "mark_processed eid st sid db = Inr db' \<Longrightarrow> event_step E db db'"

inductive event_reachable :: "env \<Rightarrow> 'a kernel_db_scheme \<Rightarrow> bool" for E where
  reach_empty: "events db = [] \<Longrightarrow> event_chain_roots db = [] \<Longrightarrow> event_reachable E db"
| reach_step: "event_reachable E db \<Longrightarrow> event_step E db db' \<Longrightarrow> event_reachable E db'"

lemma verify_chain_empty:
  "events db = [] \<Longrightarrow> event_chain_roots db = [] \<Longrightarrow> verify_chain E sid db = Inr (0, None)"
  by (simp add: verify_chain_def chain_join_def subject_roots_def fetchall_by_def)

lemma event_step_chain:
  assumes "event_step E db db'" and "\<And>sid. \<exists>root. verify_chain E sid db = Inr (int (length (subject_events sid db)), root)"
  shows "\<exists>root. verify_chain E sid db' = Inr (int (length (subject_events sid db')), root)"
  using assms(1)
proof cases
  case (step_append a r)
  have "\<exists>p. verify_chain E sid db' = Inr p"
    using append_connection_chain [OF _ step_append] assms(2) by (metis old.prod.exhaust)
  then show ?thesis using verify_chain_roots(1) [of E sid db']
    by (auto simp: subject_events_def count_where_def)
next
  case (step_mark eid st s)
  then have "verify_chain E sid db' = verify_chain E sid db" by (rule mark_processed_chain)
  with assms(2) [of sid] show ?thesis using verify_chain_roots(1) [of E sid db']
    by (auto simp: subject_events_def count_where_def)
qed

section \<open>Reading back\<close>

definition event_record_of :: "env \<Rightarrow> event_args \<Rightarrow> string \<Rightarrow> string \<Rightarrow> string \<Rightarrow> event_record" where
  "event_record_of E a eid occ obs =
     \<lparr>er_event_id = eid, er_subject_id = ea_subject_id a, er_event_type = ea_event_type a,
      er_source = ea_source a, er_occurred_at = occ, er_observed_at = obs,
      er_payload = ea_payload a, er_payload_hash = content_hash (env_sha256 E) (ea_payload a),
      er_privacy_level = ea_privacy_level a, er_causal_parent_ids = ea_parents a,
      er_processing_status = ''recorded''\<rparr>"

lemma json_strings_JStr [simp]: "json_strings (map JStr ps) = Some ps"
  by (induction ps) simp_all

lemma loads_strings: "strict_json_loads (canonical_json (JList (map JStr ps))) = Inr (JList (map JStr ps))"
  using strict_json_loads_canonical [of "JList (map JStr ps)"] by (simp add: comp_def)

lemma from_row_new:
  assumes "json_wf (ea_payload a)" "ea_payload a = JObj kvs"
  shows "from_row E (new_event_row E a eid occ obs)
    = Inr ((event_record_of E a eid occ obs)\<lparr>er_payload := json_norm (ea_payload a)\<rparr>)"
proof -
  have "payload_from_row E (new_event_row E a eid occ obs) = Inr (json_norm (ea_payload a))"
    using strict_json_loads_canonical [OF assms(1)] assms(2)
    by (simp add: payload_from_row_def new_event_row_def)
  moreover have "content_hash h (json_norm (ea_payload a)) = content_hash h (ea_payload a)" for h
    by (simp add: content_hash_def del: json_norm.simps)
  moreover have "''recorded'' \<in> set processing_states" by (simp add: processing_states_def)
  ultimately show ?thesis
    using loads_strings [of "ea_parents a"]
    by (simp add: from_row_def new_event_row_def event_record_of_def Let_def del: canonical_json.simps)
qed

lemma append_new_events:
  assumes "append_new E a eid occ obs db = Inr (rec, db')"
  shows "events db' = events db @ [new_event_row E a eid occ obs]"
    and "rec = event_record_of E a eid occ obs"
    and "\<forall>p\<in>set (ea_parents a). \<exists>e\<in>set (events db). ev_event_id e = p \<and> ev_subject_id e = ea_subject_id a
      \<and> (ea_occurred_at a = None \<longrightarrow> ev_occurred_at e \<le> occ)"
    and "ea_subject_id a \<in> set (subject_identity db)"
proof -
  let ?e = "new_event_row E a eid occ obs"
  from assms obtain db1 db2 where s: "insert_event ?e db = Inr db1"
      "record_event E (ea_subject_id a) eid (ea_event_type a) (ea_privacy_level a)
         (content_hash (env_sha256 E) (ea_payload a)) db1 = Inr db2"
      "append_chain_connection E (ea_subject_id a) eid db2 = Inr db'"
      and r: "rec = event_record_of E a eid occ obs"
      and p: "\<forall>p\<in>set (ea_parents a). check_parent (ea_subject_id a) (ea_occurred_at a = None) occ db p = Inr ()"
    unfolding append_new_def by (auto simp: event_record_of_def)
  show "rec = event_record_of E a eid occ obs" by (fact r)
  from s(1) have "events db1 = events db @ [?e]" by (auto simp: insert_event_Inr)
  with record_event_evidence [OF s(2)] append_chain_frame [OF s(3)]
  show "events db' = events db @ [new_event_row E a eid occ obs]" by auto
  from s(1) show "ea_subject_id a \<in> set (subject_identity db)"
    by (simp add: insert_event_Inr new_event_row_def)
  show "\<forall>p\<in>set (ea_parents a). \<exists>e\<in>set (events db). ev_event_id e = p \<and> ev_subject_id e = ea_subject_id a
      \<and> (ea_occurred_at a = None \<longrightarrow> ev_occurred_at e \<le> occ)"
  proof
    fix p assume "p \<in> set (ea_parents a)"
    with p have "check_parent (ea_subject_id a) (ea_occurred_at a = None) occ db p = Inr ()" by blast
    then obtain e where "fetchone (\<lambda>e. ev_event_id e = p) (events db) = Some e" "ev_subject_id e = ea_subject_id a"
      "ea_occurred_at a = None \<longrightarrow> \<not> ev_occurred_at e > occ"
      by (auto simp: check_parent_def split: option.splits if_splits)
    then show "\<exists>e\<in>set (events db). ev_event_id e = p \<and> ev_subject_id e = ea_subject_id a
      \<and> (ea_occurred_at a = None \<longrightarrow> ev_occurred_at e \<le> occ)"
      by (intro bexI [of _ e]) (auto simp: not_less dest: fetchone_Some)
  qed
qed

lemma append_new_recorded:
  fixes db db' :: "'a kernel_db_scheme"
  assumes "append_new E a eid occ obs db = Inr (rec, db')"
  obtains d1 d2 :: "'a kernel_db_scheme" where "record_event E (ea_subject_id a) eid (ea_event_type a) (ea_privacy_level a)
      (content_hash (env_sha256 E) (ea_payload a)) d1 = Inr d2"
    "events d1 = events db @ [new_event_row E a eid occ obs]"
    "training_policies db' = training_policies d2" "training_records db' = training_records d2"
proof -
  from assms obtain d1 d2 where s: "insert_event (new_event_row E a eid occ obs) db = Inr d1"
      "record_event E (ea_subject_id a) eid (ea_event_type a) (ea_privacy_level a)
         (content_hash (env_sha256 E) (ea_payload a)) d1 = Inr d2"
      "append_chain_connection E (ea_subject_id a) eid d2 = Inr db'"
    unfolding append_new_def by (auto simp: event_record_of_def)
  have "events d1 = events db @ [new_event_row E a eid occ obs]" using s(1) by (auto simp: insert_event_Inr)
  moreover have "training_policies db' = training_policies d2" "training_records db' = training_records d2"
    using append_chain_frame [OF s(3)] by auto
  ultimately show thesis by (rule that [OF s(2)])
qed

lemma sources_available_snoc:
  assumes "assert_event_sources_available sid p db = Inr ()"
    and "\<exists>x\<in>set (events db). ev_event_id x = p \<and> ev_subject_id x = sid"
    and "events db' = events db @ [e]"
    and "private_conversation_messages db' = private_conversation_messages db"
      "private_conversations db' = private_conversations db"
  shows "assert_event_sources_available sid p db' = Inr ()"
proof -
  obtain x where "x \<in> set (events db)" "ev_event_id x = p" "ev_subject_id x = sid" using assms(2) by blast
  then have "fetchone (\<lambda>e. ev_subject_id e = sid \<and> ev_event_id e = p) (events db) \<noteq> None"
    by (auto simp: fetchone_None)
  then have "fetchone (\<lambda>e. ev_subject_id e = sid \<and> ev_event_id e = p) (events db')
      = fetchone (\<lambda>e. ev_subject_id e = sid \<and> ev_event_id e = p) (events db)"
    using assms(3) by (auto simp: fetchone_append)
  then show ?thesis using assms(1) unfolding assert_event_sources_available_def assms(4,5) by simp
qed


lemma sources_available_counters [simp]:
  "assert_event_sources_available sid p (db\<lparr>ticks := t\<rparr>) = assert_event_sources_available sid p db"
  "assert_event_sources_available sid p (db\<lparr>fresh_ids := m\<rparr>) = assert_event_sources_available sid p db"
  by (simp_all add: assert_event_sources_available_def cong: option.case_cong)

lemma sources_available_draws [simp]:
  "assert_event_sources_available sid p (snd (draw_event_id E a db)) = assert_event_sources_available sid p db"
  "assert_event_sources_available sid p (snd (draw_occurred_at E a db)) = assert_event_sources_available sid p db"
  "assert_event_sources_available sid p (snd (utc_now E db)) = assert_event_sources_available sid p db"
  by (simp_all add: draw_event_id_def draw_occurred_at_def utc_now_def new_id_def split: option.splits)

lemma append_connection_guards:
  assumes "append_connection E a db = Inr (rec, db')"
  shows "\<not> blank (ea_event_type a)" "\<not> blank (ea_source a)" "\<not> blank (ea_privacy_level a)"
    and "is_ok (normalize_timestamp (fst (draw_occurred_at E a (snd (draw_event_id E a db)))))"
    and "\<forall>p\<in>set (ea_parents a). assert_event_sources_available (ea_subject_id a) p db = Inr ()"
proof -
  note u = assms [unfolded append_connection_def split_beta Let_def]
  from u show "\<not> blank (ea_event_type a)" "\<not> blank (ea_source a)" "\<not> blank (ea_privacy_level a)"
    by (auto split: if_splits)
  from u show "is_ok (normalize_timestamp (fst (draw_occurred_at E a (snd (draw_event_id E a db)))))"
    by (auto split: if_splits)
  from u show "\<forall>p\<in>set (ea_parents a). assert_event_sources_available (ea_subject_id a) p db = Inr ()"
    by (auto split: if_splits)
qed

lemma append_connection_existing:
  assumes "\<not> blank (ea_event_type a)" "\<not> blank (ea_source a)" "\<not> blank (ea_privacy_level a)"
    and "ea_event_id a = Some eid" "eid \<noteq> []" "distinct (ea_parents a)" "eid \<notin> set (ea_parents a)"
    and "is_ok (normalize_timestamp (fst (draw_occurred_at E a db)))"
    and "\<forall>p\<in>set (ea_parents a). assert_event_sources_available (ea_subject_id a) p db = Inr ()"
    and "fetchone (\<lambda>e. ev_event_id e = eid) (events db) = Some row"
  shows "\<exists>t. append_connection E a db = append_existing E a row (db\<lparr>ticks := t\<rparr>)"
proof -
  have d: "draw_event_id E a db = (eid, db)" using assms(4,5) by (simp add: draw_event_id_def)
  obtain raw db2 where o: "draw_occurred_at E a db = (raw, db2)" by (cases "draw_occurred_at E a db")
  then have "db2 = db\<lparr>ticks := ticks db2\<rparr>"
    by (auto simp: draw_occurred_at_def utc_now_def split: option.splits if_splits)
  then obtain t where t: "db2 = db\<lparr>ticks := t\<rparr>" ..
  obtain occ where "normalize_timestamp raw = Inr occ" using assms(8) o by (auto simp: is_ok_iff)
  moreover have "res_all (\<lambda>p. assert_event_sources_available (ea_subject_id a) p (db\<lparr>ticks := Suc t\<rparr>)) (ea_parents a) = Inr ()"
    using assms(9) by simp
  ultimately have "append_connection E a db = append_existing E a row (db\<lparr>ticks := Suc t\<rparr>)"
    using assms(1-3,6,7,10) by (simp add: append_connection_def d o t utc_now_def del: res_all_ok)
  then show ?thesis by blast
qed


lemma append_connection_replay:
  fixes db db' :: "'a kernel_db_scheme"
  assumes app: "append_connection E a db = Inr (rec, db')"
    and fresh: "er_event_id rec \<notin> ev_event_id ` set (events db)" and ne: "er_event_id rec \<noteq> []"
    and payload: "json_wf (JObj kvs)" "ea_payload a = JObj kvs"
    and clock: "\<And>n. is_ok (normalize_timestamp (env_clock E n))"
  shows "\<exists>db''. append_connection E (a\<lparr>ea_event_id := Some (er_event_id rec)\<rparr>) db'
      = Inr (rec\<lparr>er_payload := json_norm (JObj kvs)\<rparr>, db'')
    \<and> events db'' = events db' \<and> event_chain_roots db'' = event_chain_roots db'"
  using app
proof (cases rule: append_connection_cases)
  case (existing t m row)
  with append_existing_effect(2) [OF existing(3)] fresh show ?thesis by auto
next
  case (new t m eid occ obs)
  note g = append_connection_guards [OF app] and n = append_new_events [OF new(4)]
  let ?a = "a\<lparr>ea_event_id := Some eid\<rparr>" and ?row = "new_event_row E a eid occ obs"
  have eid: "er_event_id rec = eid" by (simp add: n(2) event_record_of_def)
  have row: "fetchone (\<lambda>e. ev_event_id e = eid) (events db') = Some ?row"
    using new(1) n(1) by (intro trans [OF arg_cong [of _ _ "fetchone _"] fetchone_snoc_fresh])
      (auto simp: fetchone_None new_event_row_def)
  obtain t' m' ev ro tp tr where db': "db' = evidence_update t' m' ev ro tp tr db"
    using append_connection_frame [OF app] by blast
  have priv: "private_conversation_messages db' = private_conversation_messages db"
    "private_conversations db' = private_conversations db" "subject_identity db' = subject_identity db"
    by (simp_all add: db' evidence_update_def)
  have src: "\<forall>p\<in>set (ea_parents a). assert_event_sources_available (ea_subject_id a) p db' = Inr ()"
    using g(5) n(3) by (auto intro!: sources_available_snoc [OF _ _ n(1) [simplified] priv(1,2)])
  have "is_ok (normalize_timestamp (fst (draw_occurred_at E ?a db')))"
    using g(4) clock by (auto simp: draw_occurred_at_def utc_now_def split: option.splits)
  then obtain t'' where ex: "append_connection E ?a db' = append_existing E ?a ?row (db'\<lparr>ticks := t''\<rparr>)"
    using append_connection_existing [of ?a eid E db' ?row] g(1-3) new(2,3) ne src row eid by auto
  have same: "same_event E ?a ?row" by (simp add: same_event_def new_event_row_def)
  obtain d1 d2 :: "'a kernel_db_scheme" where rec1: "record_event E (ea_subject_id a) eid (ea_event_type a) (ea_privacy_level a)
      (content_hash (env_sha256 E) (ea_payload a)) d1 = Inr d2" "events d1 = events db'"
      "training_policies db' = training_policies d2" "training_records db' = training_records d2"
    using new(4) n(1) by (auto elim!: append_new_recorded)
  have "\<exists>d. record_event E (ea_subject_id a) eid (ea_event_type a) (ea_privacy_level a)
      (content_hash (env_sha256 E) (ea_payload a)) (db'\<lparr>ticks := t''\<rparr>) = Inr d"
    by (rule record_event_again [OF rec1(1)]) (simp_all add: rec1)
  then obtain db'' where rec: "record_event E (ea_subject_id a) eid (ea_event_type a) (ea_privacy_level a)
      (content_hash (env_sha256 E) (ea_payload a)) (db'\<lparr>ticks := t''\<rparr>) = Inr db''" ..
  have "append_existing E ?a ?row (db'\<lparr>ticks := t''\<rparr>)
      = Inr (rec\<lparr>er_payload := json_norm (JObj kvs)\<rparr>, db'')"
    using same rec from_row_new [of a kvs E eid occ obs] payload
    by (simp add: append_existing_def n(2) del: json_norm.simps json_wf.simps) (simp add: new_event_row_def)
  moreover have "events db'' = events db'" "event_chain_roots db'' = event_chain_roots db'"
    using record_event_evidence [OF rec] by auto
  ultimately show ?thesis using ex eid by auto
qed



section \<open>A sample store\<close>

definition sample_time :: string where "sample_time = ''2026-01-02T03:04:05.678+00:00''"

definition sample_env :: env where
  "sample_env = \<lparr>env_sha256 = (\<lambda>s. ''h''), env_clock = (\<lambda>n. sample_time),
     env_uuid = (\<lambda>n. replicate n (CHR ''a'')),
     env_segment = (\<lambda>_ _. Inl (IntegrityError ''no archive''))\<rparr>"

definition sample_db :: kernel_db where
  "sample_db = \<lparr>ticks = 0, fresh_ids = 0, subject_identity = [''s''], runtime_state = [], events = [],
     event_chain_roots = [], training_policies = [], training_records = [], audit_records = [],
     private_conversation_messages = [], private_conversations = []\<rparr>"

definition sample_event :: event_args where
  "sample_event = \<lparr>ea_subject_id = ''s'', ea_event_type = ''boot'', ea_source = ''kernel'', ea_payload = JObj [],
     ea_privacy_level = ''private'', ea_parents = [], ea_occurred_at = None, ea_event_id = Some ''e1''\<rparr>"

definition hex_env :: "(nat \<Rightarrow> string) \<Rightarrow> env" where
  "hex_env clock = sample_env\<lparr>env_sha256 := (\<lambda>s. replicate 64 (CHR ''a'')), env_clock := clock\<rparr>"

lemma hex_env_digests: "digests_valid (hex_env clock)"
  by (simp add: digests_valid_def hex_env_def valid_hash_def hex_lower_def list_all_iff)

lemma hex_env_simps [simp]: "env_clock (hex_env clock) = clock"
  by (simp add: hex_env_def)

definition hexa_env :: env where
  "hexa_env = hex_env (\<lambda>_. sample_time)"

lemma hexa_env_digest [simp]: "valid_hash (content_hash (env_sha256 hexa_env) v)"
  using hex_env_digests by (simp add: hexa_env_def digests_valid_def content_hash_def)

lemma hexa_env_simps [simp]: "env_clock hexa_env = (\<lambda>_. sample_time)" "env_uuid hexa_env = env_uuid sample_env"
  by (simp_all add: hexa_env_def hex_env_def)

lemma sample_time_normal [simp]: "normalize_timestamp sample_time = Inr sample_time"
  by (simp add: sample_time_def normalize_timestamp_def time_eval)

definition sample_db1 :: kernel_db where
  "sample_db1 = (case append_connection sample_env sample_event sample_db of Inr (r, db) \<Rightarrow> db | Inl e \<Rightarrow> sample_db)"

definition sample_db2 :: kernel_db where
  "sample_db2 = (case append_connection sample_env (sample_event\<lparr>ea_event_id := Some ''e2''\<rparr>) sample_db of
     Inr (r, db) \<Rightarrow> db | Inl e \<Rightarrow> sample_db)"

lemmas store_eval = append_connection_def sample_event_def sample_db_def blank_iff py_isspace_def
  draw_event_id_def draw_occurred_at_def utc_now_def sample_env_def append_new_def insert_event_def
  new_event_row_def record_event_def insert_training_policy_def default_training_policy_def
  store_event_record_def insert_event_record_def training_classification_def py_startswith_def new_id_def
  append_chain_connection_def subject_roots_def fetchall_by_def add_chain_root_def
  insert_chain_root_def content_hash_def chain_hash_def event_record_of_def Let_def

lemma sample_append: "append_connection sample_env sample_event sample_db
   = Inr (event_record_of sample_env sample_event ''e1'' sample_time sample_time, sample_db1)"
  by (simp add: sample_db1_def store_eval)

lemma sample_append2: "append_connection sample_env (sample_event\<lparr>ea_event_id := Some ''e2''\<rparr>) sample_db
   = Inr (event_record_of sample_env sample_event ''e2'' sample_time sample_time, sample_db2)"
  by (simp add: sample_db2_def store_eval)

lemma sample_events:
  "events sample_db1 = [new_event_row sample_env sample_event ''e1'' sample_time sample_time]"
  by (simp add: sample_db1_def store_eval)

lemma sample_chain_events:
  "chain_events ''s'' sample_db1 = [new_event_row sample_env sample_event ''e1'' sample_time sample_time]"
  "chain_events ''s'' sample_db2 = [new_event_row sample_env sample_event ''e2'' sample_time sample_time]"
  by (simp_all add: chain_events_def chain_join_def sample_db1_def sample_db2_def store_eval)

lemma sample_verifies:
  "verify_chain sample_env ''s'' sample_db1 = Inr (1, Some ''h'')"
  "verify_chain sample_env ''s'' sample_db2 = Inr (1, Some ''h'')"
  by (simp_all add: verify_chain_def chain_join_def sample_db1_def sample_db2_def store_eval)

section \<open>Properties\<close>

text \<open>
  A successful append to a subject whose chain verifies leaves a chain that verifies:
  with the same root when the event was already there, otherwise one event longer and with
  the root that binds the new event to the old root.  No other subject's chain changes.
\<close>

theorem append_extends_chain:
  assumes "verify_chain E (ea_subject_id a) db = Inr (n, root)"
    and "append_connection E a db = Inr (rec, db')"
  shows "verify_chain E (ea_subject_id a) db' =
      Inr (if er_event_id rec \<in> ev_event_id ` set (events db) then (n, root)
           else (n + 1, Some (chain_hash E (last (events db')) (n + 1) root)))
    \<and> (\<forall>sid. sid \<noteq> ea_subject_id a \<longrightarrow> verify_chain E sid db' = verify_chain E sid db)"
  using append_connection_chain [OF assms] by blast

theorem append_extends_chain_witness:
  "verify_chain sample_env ''s'' sample_db1 = Inr (1, Some ''h'')"
proof -
  have "verify_chain sample_env (ea_subject_id sample_event) sample_db = Inr (0, None)"
    by (simp add: verify_chain_empty sample_db_def)
  from append_extends_chain [OF this sample_append] show ?thesis
    by (simp add: event_record_of_def sample_db_def sample_event_def chain_hash_def content_hash_def
        sample_env_def)
qed

text \<open>
  C16. Every store reached from an empty one by appends and status updates verifies, for
  every subject, with as many links as the subject has events.
\<close>

theorem reachable_chain_verifies:
  assumes "event_reachable E db"
  shows "\<exists>root. verify_chain E sid db = Inr (int (length (subject_events sid db)), root)"
  using assms
proof (induction arbitrary: sid)
  case (reach_empty db)
  then show ?case by (simp add: verify_chain_empty subject_events_def)
next
  case (reach_step db db')
  then show ?case using event_step_chain by blast
qed

theorem reachable_chain_verifies_witness:
  "\<exists>root. verify_chain sample_env ''s'' sample_db1 = Inr (int (length (subject_events ''s'' sample_db1)), root)"
proof -
  have "event_reachable sample_env sample_db" by (rule reach_empty) (simp_all add: sample_db_def)
  then have "event_reachable sample_env sample_db1"
    by (rule reach_step) (rule step_append [OF sample_append])
  then show ?thesis by (rule reachable_chain_verifies)
qed

text \<open>
  C17. Tamper evidence: two stores whose chains for a subject verify with the same length
  and the same root hold the same events in the same order, in every field the chain
  hashes; otherwise some position of the two chains shows two different texts with the
  same digest.
\<close>

theorem chain_tamper_evident:
  assumes "verify_chain E sid db = Inr (n, root)" and "verify_chain E sid db' = Inr (n, root)"
  defines "s \<equiv> chain_texts E 0 None (chain_events sid db)"
    and "t \<equiv> chain_texts E 0 None (chain_events sid db')"
  shows "map chain_content (chain_events sid db) = map chain_content (chain_events sid db')
    \<or> (\<exists>k<nat n. s ! k \<noteq> t ! k \<and> env_sha256 E (s ! k) = env_sha256 E (t ! k))"
proof -
  have v: "verify_roots E 0 None (chain_join sid db) = Inr (n, root)"
    "verify_roots E 0 None (chain_join sid db') = Inr (n, root)"
    using assms(1,2) by (auto simp: verify_chain_def Let_def split: if_splits)
  have l: "length (chain_events sid db) = nat n" "length (chain_events sid db') = nat n"
    using verify_roots_ok(1) [OF v(1)] verify_roots_ok(1) [OF v(2)] by (simp_all add: chain_events_def)
  have "event_chain.root E 0 None (chain_events sid db) = event_chain.root E 0 None (chain_events sid db')"
    using verify_roots_root [OF v(1)] verify_roots_root [OF v(2)] by (simp add: chain_events_def)
  from event_chain.equal_roots [OF _ this] l show ?thesis
    by (simp add: s_def t_def chain_texts_eq)
qed

theorem chain_tamper_evident_witness:
  "\<exists>k<nat 1. chain_texts sample_env 0 None (chain_events ''s'' sample_db1) ! k
         \<noteq> chain_texts sample_env 0 None (chain_events ''s'' sample_db2) ! k"
  using chain_tamper_evident [OF sample_verifies]
  by (auto simp: sample_chain_events chain_content_def new_event_row_def)

text \<open>
  C35. What is appended under a fresh id is read back by \<open>get\<close>: the same record, with the
  keys of the payload in canonical order.
\<close>

theorem append_then_get:
  assumes "append_connection E a db = Inr (rec, db')" and "er_event_id rec \<notin> ev_event_id ` set (events db)"
    and "json_wf (JObj kvs)" and "ea_payload a = JObj kvs"
  shows "get_event E (er_event_id rec) db' = Inr (rec\<lparr>er_payload := json_norm (JObj kvs)\<rparr>)
    \<and> er_payload rec = JObj kvs \<and> er_causal_parent_ids rec = ea_parents a"
  using assms(1)
proof (cases rule: append_connection_cases)
  case (existing t m row)
  with append_existing_effect(2) [OF existing(3)] assms(2) show ?thesis by auto
next
  case (new t m eid occ obs)
  note n = append_new_events [OF new(4)]
  have "fetchone (\<lambda>e. ev_event_id e = eid) (events db) = None" using new(1) by (auto simp: fetchone_None)
  then have "fetchone (\<lambda>e. ev_event_id e = eid) (events db') = Some (new_event_row E a eid occ obs)"
    using n(1) by (simp add: fetchone_append) (simp add: new_event_row_def)
  then show ?thesis using from_row_new [of a kvs E eid occ obs] assms(3,4) n(2)
    by (simp add: get_event_def event_record_of_def del: json_norm.simps json_wf.simps)
qed

theorem append_then_get_witness:
  "get_event sample_env ''e1'' sample_db1 = Inr (event_record_of sample_env sample_event ''e1'' sample_time sample_time)"
  using append_then_get [OF sample_append, of "[]"]
  by (simp add: event_record_of_def sample_event_def sample_db_def)

text \<open>
  An event id names one content for ever: an append under the id of a stored event
  succeeds only with that event's content, and then returns the stored event and leaves
  the events and the chain as they are.
\<close>

theorem append_same_id:
  assumes "append_connection E a db = Inr (rec, db')" and "row \<in> set (events db)"
    and "distinct (map ev_event_id (events db))"
    and "ea_event_id a = Some (ev_event_id row)" and "ev_event_id row \<noteq> []"
  shows "same_event E a row \<and> from_row E row = Inr rec \<and> events db' = events db
    \<and> event_chain_roots db' = event_chain_roots db"
  using assms(1)
proof (cases rule: append_connection_cases)
  case (existing t m r)
  have "ev_event_id r = ev_event_id row"
    using existing(2) assms(4,5) by (simp add: draw_event_id_def)
  with existing assms have "r = row" by (metis distinct_key_eq)
  with existing append_existing_effect [OF existing(3)] show ?thesis by auto
next
  case (new t m eid occ obs)
  with assms show ?thesis by (auto simp: draw_event_id_def)
qed


theorem append_same_id_witness:
  "same_event sample_env sample_event (hd (events sample_db1))"
proof -
  have ev: "events sample_db1 = [new_event_row sample_env sample_event ''e1'' sample_time sample_time]"
    by (rule sample_events)
  obtain rec db where "append_connection sample_env sample_event sample_db1 = Inr (rec, db)"
    using append_connection_replay [OF sample_append, of "[]"]
    by (auto simp: event_record_of_def sample_event_def sample_db_def sample_env_def)
  from append_same_id [OF this, of "hd (events sample_db1)"] show ?thesis
    by (simp add: ev sample_event_def new_event_row_def)
qed

text \<open>
  Repeating an append with the id it was given succeeds, returns the stored event and
  adds nothing: retries after a lost answer are safe.  The clock is assumed to give ISO
  timestamps with a timezone, as \<open>utc_now\<close> does.
\<close>

theorem append_replay:
  assumes app: "append_connection E a db = Inr (rec, db')"
    and fresh: "er_event_id rec \<notin> ev_event_id ` set (events db)" and ne: "er_event_id rec \<noteq> []"
    and payload: "json_wf (JObj kvs)" "ea_payload a = JObj kvs"
    and clock: "\<And>n. is_ok (normalize_timestamp (env_clock E n))"
  shows "\<exists>db''. append_connection E (a\<lparr>ea_event_id := Some (er_event_id rec)\<rparr>) db'
      = Inr (rec\<lparr>er_payload := json_norm (JObj kvs)\<rparr>, db'')
    \<and> events db'' = events db' \<and> event_chain_roots db'' = event_chain_roots db'"
  using append_connection_replay [OF assms] .

theorem append_replay_witness:
  "\<exists>db. append_connection sample_env sample_event sample_db1
      = Inr (event_record_of sample_env sample_event ''e1'' sample_time sample_time, db)
    \<and> events db = events sample_db1 \<and> event_chain_roots db = event_chain_roots sample_db1"
  using append_replay [OF sample_append, of "[]"]
  by (simp add: event_record_of_def sample_event_def sample_db_def sample_env_def)

end
