(* ===== verification/StateMachine.thy ===== *)
theory StateMachine
  imports Prelude
begin

text \<open>
  The contract of a transition table such as \<open>ALLOWED_TRANSITIONS\<close>: the statuses it knows and
  the successors it allows.  Every component that guards a status column with a table
  interprets it; the lemmas say what a run along the table can and cannot do.
\<close>

locale status_machine =
  fixes statuses :: "'s set" and allowed :: "'s \<Rightarrow> 's set"
  assumes allowed_known: "s \<in> statuses \<Longrightarrow> allowed s \<subseteq> statuses"
begin

definition moves :: "'s \<Rightarrow> 's \<Rightarrow> bool" where
  "moves s t = (\<lambda>s t. t \<in> allowed s)\<^sup>*\<^sup>* s t"

lemma moves_refl: "moves s s"
  by (simp add: moves_def)

lemma moves_step: "moves s t \<Longrightarrow> u \<in> allowed t \<Longrightarrow> moves s u"
  unfolding moves_def by (rule rtranclp.rtrancl_into_rtrancl)

lemma moves_trans: "moves s t \<Longrightarrow> moves t u \<Longrightarrow> moves s u"
  unfolding moves_def by (rule rtranclp_trans)

lemma moves_known: "moves s t \<Longrightarrow> s \<in> statuses \<Longrightarrow> t \<in> statuses"
  unfolding moves_def by (induction rule: rtranclp_induct) (use allowed_known in auto)

lemma moves_closed:
  "moves s t \<Longrightarrow> s \<in> A \<Longrightarrow> (\<And>u. u \<in> A \<Longrightarrow> allowed u \<subseteq> A) \<Longrightarrow> t \<in> A"
  unfolding moves_def by (induction rule: rtranclp_induct) blast+

text \<open>A status without successors is final.\<close>

lemma final_stays: "moves s t \<Longrightarrow> allowed s = {} \<Longrightarrow> t = s"
  using moves_closed [of s t "{s}"] by auto

end

end
