(* ===== verification/Lifecycle.thy ===== *)
theory Lifecycle
  imports EventStore StateMachine
begin

text \<open>
  The lifecycle manager of \<^verbatim>\<open>core/lifecycle.py\<close>: the transition table, the initial state,
  guarded transitions that write the state row and append an event in one transaction,
  the fail-closed safe pause and the recovery after a restart.  The optional
  \<open>mutation_guard\<close> (the epoch fence of a deployment) is a parameter of every operation
  that takes it.  An operation that catches an error of an inner transaction continues
  from the database before that transaction, as after a rollback.
\<close>

section \<open>Model\<close>

definition allowed_transitions :: "(string \<times> string list) list" where
  "allowed_transitions =
     [(''booting'', [''orienting'', ''active'', ''stopped'']),
      (''orienting'', [''active'', ''stopped'']),
      (''active'', [''paused'', ''winding_down'', ''stopped'']),
      (''paused'', [''active'', ''stopped'']),
      (''winding_down'', [''reflective_sleep'', ''stopped'']),
      (''reflective_sleep'', [''deep_sleep'', ''stopped'']),
      (''deep_sleep'', [''waking'', ''stopped'']),
      (''waking'', [''active'', ''stopped'']),
      (''stopped'', [''booting'', ''resetting'']),
      (''resetting'', [''booting'', ''stopped''])]"

definition known_state :: "string \<Rightarrow> bool" where
  "known_state s = (map_of allowed_transitions s \<noteq> None)"

definition successors :: "string \<Rightarrow> string set" where
  "successors s = (case map_of allowed_transitions s of None \<Rightarrow> {} | Some ts \<Rightarrow> set ts)"

type_synonym 'db guard = "('db \<Rightarrow> unit res) option"

definition run_guard :: "'db guard \<Rightarrow> 'db \<Rightarrow> unit res" where
  "run_guard g db = (case g of None \<Rightarrow> Inr () | Some f \<Rightarrow> f db)"

definition runtime_from_row :: "runtime_row \<Rightarrow> runtime_row res" where
  "runtime_from_row row =
     (if \<not> known_state (rt_state row) \<or> rt_version row < 0
      then Inl (IntegrityError (''invalid persisted lifecycle state: '' @ rt_state row @ '' v'' @ show_int (rt_version row)))
      else Inr row)"

definition runtime_of :: "string \<Rightarrow> 'a kernel_db_scheme \<Rightarrow> runtime_row option" where
  "runtime_of sid db = fetchone (\<lambda>r. rt_subject_id r = sid) (runtime_state db)"

definition insert_runtime :: "runtime_row \<Rightarrow> 'a kernel_db_scheme \<Rightarrow> ('a kernel_db_scheme) res" where
  "insert_runtime r db =
     (if rt_subject_id r \<in> rt_subject_id ` set (runtime_state db)
      then Inl (SqliteIntegrityError ''UNIQUE constraint failed: runtime_state.subject_id'')
      else if \<not> known_state (rt_state r) \<or> rt_version r < 0
      then Inl (SqliteIntegrityError ''CHECK constraint failed: runtime_state'')
      else if rt_subject_id r \<notin> set (subject_identity db)
      then Inl (SqliteIntegrityError ''FOREIGN KEY constraint failed'')
      else Inr (db\<lparr>runtime_state := runtime_state db @ [r]\<rparr>))"

definition update_runtime ::
    "string \<Rightarrow> string \<Rightarrow> string \<Rightarrow> int \<Rightarrow> string \<Rightarrow> 'a kernel_db_scheme \<Rightarrow> 'a kernel_db_scheme" where
  "update_runtime sid state reason version changed_at db =
     db\<lparr>runtime_state := update_where (\<lambda>r. rt_subject_id r = sid)
       (\<lambda>r. r\<lparr>rt_state := state, rt_reason := reason, rt_version := version, rt_changed_at := changed_at\<rparr>)
       (runtime_state db)\<rparr>"

definition ensure_initial ::
    "env \<Rightarrow> string \<Rightarrow> ('a kernel_db_scheme) guard \<Rightarrow> string \<Rightarrow> string \<Rightarrow> 'a kernel_db_scheme
      \<Rightarrow> (runtime_row \<times> 'a kernel_db_scheme) res" where
  "ensure_initial E sid g state reason db =
     (if \<not> known_state state then Inl (ValueError (''unknown lifecycle state: '' @ state))
      else if blank reason then Inl (ValueError ''initial lifecycle reason is required'')
      else case runtime_of sid db of
          Some row \<Rightarrow> res_bind (runtime_from_row row) (\<lambda>r. Inr (r, db))
        | None \<Rightarrow>
            res_bind (run_guard g db) (\<lambda>_.
              let (changed_at, db1) = utc_now E db;
                  row = \<lparr>rt_subject_id = sid, rt_state = state, rt_reason = reason, rt_version = 0,
                         rt_changed_at = changed_at\<rparr>
              in res_bind (insert_runtime row db1) (\<lambda>db2. Inr (row, db2))))"

definition lifecycle_current :: "string \<Rightarrow> 'a kernel_db_scheme \<Rightarrow> runtime_row res" where
  "lifecycle_current sid db =
     (case runtime_of sid db of
        None \<Rightarrow> Inl (NotFoundError (''lifecycle state not found: '' @ sid))
      | Some row \<Rightarrow> runtime_from_row row)"

definition lifecycle_event ::
    "string \<Rightarrow> string \<Rightarrow> string \<Rightarrow> string \<Rightarrow> string \<Rightarrow> string \<Rightarrow> int \<Rightarrow> string \<Rightarrow> event_args" where
  "lifecycle_event sid event_type actor from to reason version changed_at =
     \<lparr>ea_subject_id = sid, ea_event_type = event_type, ea_source = actor,
      ea_payload = JObj [(''from'', JStr from), (''to'', JStr to), (''reason'', JStr reason),
        (''version'', JInt version)],
      ea_privacy_level = ''public_status'', ea_parents = [], ea_occurred_at = Some changed_at,
      ea_event_id = None\<rparr>"

definition transition_connection ::
    "env \<Rightarrow> string \<Rightarrow> string \<Rightarrow> string \<Rightarrow> string \<Rightarrow> 'a kernel_db_scheme \<Rightarrow> (runtime_row \<times> 'a kernel_db_scheme) res" where
  "transition_connection E sid new_state reason actor db =
     (if \<not> known_state new_state then Inl (ValueError (''unknown lifecycle state: '' @ new_state))
      else if blank reason then Inl (ValueError ''transition reason is required'')
      else if blank actor then Inl (ValueError ''transition actor is required'')
      else case runtime_of sid db of
          None \<Rightarrow> Inl (NotFoundError (''lifecycle state not found: '' @ sid))
        | Some row \<Rightarrow>
            (case map_of allowed_transitions (rt_state row) of
               None \<Rightarrow> Inl (KeyError (rt_state row))
             | Some targets \<Rightarrow>
                 if new_state \<notin> set targets
                 then Inl (InvalidTransitionError (''cannot transition '' @ rt_state row @ '' -> '' @ new_state))
                 else
                   let (changed_at, db1) = utc_now E db;
                       version = rt_version row + 1;
                       db2 = update_runtime sid new_state reason version changed_at db1
                   in res_bind (append_connection E
                        (lifecycle_event sid ''lifecycle_transition'' actor (rt_state row) new_state reason version changed_at)
                        db2) (\<lambda>(_, db3).
                      Inr (\<lparr>rt_subject_id = sid, rt_state = new_state, rt_reason = reason,
                            rt_version = version, rt_changed_at = changed_at\<rparr>, db3))))"

definition transition ::
    "env \<Rightarrow> string \<Rightarrow> ('a kernel_db_scheme) guard \<Rightarrow> string \<Rightarrow> string \<Rightarrow> string \<Rightarrow> 'a kernel_db_scheme
      \<Rightarrow> (runtime_row \<times> 'a kernel_db_scheme) res" where
  "transition E sid g new_state reason actor db =
     (if \<not> known_state new_state then Inl (ValueError (''unknown lifecycle state: '' @ new_state))
      else if blank reason then Inl (ValueError ''transition reason is required'')
      else if blank actor then Inl (ValueError ''transition actor is required'')
      else res_bind (run_guard g db) (\<lambda>_. transition_connection E sid new_state reason actor db))"

definition safe_pause_fallback ::
    "env \<Rightarrow> string \<Rightarrow> ('a kernel_db_scheme) guard \<Rightarrow> string \<Rightarrow> string \<Rightarrow> 'a kernel_db_scheme
      \<Rightarrow> (runtime_row \<times> 'a kernel_db_scheme) res" where
  "safe_pause_fallback E sid g reason actor db =
     (let (changed_at, db1) = utc_now E db
      in res_bind (run_guard g db1) (\<lambda>_.
         case runtime_of sid db1 of
           None \<Rightarrow> Inl (NotFoundError (''lifecycle state not found: '' @ sid))
         | Some row \<Rightarrow>
             if rt_state row = ''paused'' then res_bind (runtime_from_row row) (\<lambda>r. Inr (r, db1))
             else if rt_state row \<noteq> ''active''
             then Inl (InvalidTransitionError (''cannot safe-pause from state '' @ rt_state row))
             else
               let version = rt_version row + 1;
                   db2 = update_runtime sid ''paused'' reason version changed_at db1;
                   (aid, db3) = new_id E ''audit'' db2
               in res_bind (insert_audit \<lparr>au_audit_id = aid, au_subject_id = sid,
                      au_action = ''integrity_safe_pause_fallback'', au_actor = actor,
                      au_payload_json = canonical_json (JObj [(''from'', JStr ''active''), (''to'', JStr ''paused''),
                        (''reason'', JStr reason), (''version'', JInt version)]),
                      au_occurred_at = changed_at\<rparr> db3) (\<lambda>db4.
                  Inr (\<lparr>rt_subject_id = sid, rt_state = ''paused'', rt_reason = reason,
                        rt_version = version, rt_changed_at = changed_at\<rparr>, db4))))"

text \<open>
  The fallback starts from the database before the transition, whose readings of the clock and
  of \<open>uuid4\<close> are rolled back with it; \<open>env\<close> is arbitrary, so any later readings are covered.
\<close>

definition safe_pause ::
    "env \<Rightarrow> string \<Rightarrow> ('a kernel_db_scheme) guard \<Rightarrow> string \<Rightarrow> string \<Rightarrow> 'a kernel_db_scheme
      \<Rightarrow> (runtime_row \<times> 'a kernel_db_scheme) res" where
  "safe_pause E sid g reason actor db =
     res_bind (lifecycle_current sid db) (\<lambda>current.
       if rt_state current = ''paused'' then Inr (current, db)
       else if rt_state current \<noteq> ''active''
       then Inl (InvalidTransitionError (''cannot safe-pause from state '' @ rt_state current))
       else case transition E sid g ''paused'' reason actor db of
           Inl (IntegrityError _) \<Rightarrow> safe_pause_fallback E sid g reason actor db
         | outcome \<Rightarrow> outcome)"

definition sleep_states :: "string list" where
  "sleep_states = [''winding_down'', ''reflective_sleep'', ''deep_sleep'', ''waking'']"

definition recovered_state :: "string \<Rightarrow> string" where
  "recovered_state s = (if s \<in> set sleep_states then s else ''booting'')"

definition recover_for_restart ::
    "env \<Rightarrow> string \<Rightarrow> ('a kernel_db_scheme) guard \<Rightarrow> string \<Rightarrow> 'a kernel_db_scheme
      \<Rightarrow> (runtime_row \<times> 'a kernel_db_scheme) res" where
  "recover_for_restart E sid g reason db =
     (if blank reason then Inl (ValueError ''restart recovery reason is required'')
      else res_bind (run_guard g db) (\<lambda>_.
        case runtime_of sid db of
          None \<Rightarrow> Inl (NotFoundError (''lifecycle state not found: '' @ sid))
        | Some row \<Rightarrow>
            res_bind (runtime_from_row row) (\<lambda>current.
              if rt_state current = ''booting'' then Inr (current, db)
              else if rt_state current \<in> {''stopped'', ''resetting''}
              then Inl (InvalidTransitionError (''cannot recover restart from state '' @ rt_state current))
              else if rt_state current = ''paused'' then Inr (current, db)
              else
                let (changed_at, db1) = utc_now E db;
                    version = rt_version current + 1;
                    recovered = recovered_state (rt_state current);
                    db2 = update_runtime sid recovered reason version changed_at db1
                in res_bind (append_connection E
                     (lifecycle_event sid ''lifecycle_recovery'' ''supervisor'' (rt_state current) recovered reason
                       version changed_at) db2) (\<lambda>(_, db3).
                   Inr (\<lparr>rt_subject_id = sid, rt_state = recovered, rt_reason = reason,
                         rt_version = version, rt_changed_at = changed_at\<rparr>, db3)))))"

section \<open>Runtime rows\<close>

lemma runtime_of_update:
  "runtime_of s (update_runtime sid st reason v ts db) =
     (if s = sid then map_option (\<lambda>r. r\<lparr>rt_state := st, rt_reason := reason, rt_version := v, rt_changed_at := ts\<rparr>)
        (runtime_of sid db) else runtime_of s db)"
proof (cases "runtime_of s db")
  case None
  then show ?thesis by (auto simp: runtime_of_def update_runtime_def fetchone_update_where)
next
  case (Some r)
  then have "rt_subject_id r = s" by (auto simp: runtime_of_def dest: fetchone_Some)
  with Some show ?thesis by (auto simp: runtime_of_def update_runtime_def fetchone_update_where)
qed

lemma runtime_of_subject: "runtime_of sid db = Some r \<Longrightarrow> rt_subject_id r = sid"
  by (auto simp: runtime_of_def dest: fetchone_Some)

lemma runtime_of_cong: "runtime_state db' = runtime_state db \<Longrightarrow> runtime_of s db' = runtime_of s db"
  by (simp add: runtime_of_def)

lemma update_runtime_simps [simp]:
  "events (update_runtime sid st reason v ts db) = events db"
  "event_chain_roots (update_runtime sid st reason v ts db) = event_chain_roots db"
  "audit_records (update_runtime sid st reason v ts db) = audit_records db"
  "fresh_ids (update_runtime sid st reason v ts db) = fresh_ids db"
  by (simp_all add: update_runtime_def)

lemma known_state_iff: "known_state s \<longleftrightarrow> s \<in> fst ` set allowed_transitions"
  by (simp add: known_state_def map_of_eq_None_iff)

lemma successors_known: "t \<in> successors s \<Longrightarrow> known_state t"
  by (auto simp: successors_def known_state_iff allowed_transitions_def split: option.splits if_splits)

interpretation lifecycle: status_machine "{s. known_state s}" successors
  by unfold_locales (auto simp: successors_known)

section \<open>Logged changes\<close>

text \<open>
  A change of the state row together with the event that records it, as transitions and
  recoveries make it.
\<close>

lemma logged_change:
  assumes "append_connection E (lifecycle_event sid ty actor f st reason v ts)
      (update_runtime sid st reason v ts db) = Inr (rec, db')"
  shows "runtime_of s db' = (if s = sid
      then map_option (\<lambda>r. r\<lparr>rt_state := st, rt_reason := reason, rt_version := v, rt_changed_at := ts\<rparr>) (runtime_of sid db)
      else runtime_of s db)"
    and "audit_records db' = audit_records db"
    and "''evt_'' @ env_uuid E (fresh_ids db) \<notin> ev_event_id ` set (events db) \<Longrightarrow>
      \<exists>e. events db' = events db @ [e] \<and> ev_subject_id e = sid \<and> ev_event_type e = ty
        \<and> ev_payload_json e = canonical_json (JObj [(''from'', JStr f), (''to'', JStr st), (''reason'', JStr reason), (''version'', JInt v)])"
    and "verify_chain E sid db = Inr (n, root) \<Longrightarrow> is_ok (verify_chain E sid db')"
proof -
  let ?a = "lifecycle_event sid ty actor f st reason v ts" and ?db = "update_runtime sid st reason v ts db"
  obtain t m ev ro tp tr where "db' = evidence_update t m ev ro tp tr ?db"
    using append_connection_frame [OF assms] by blast
  then have fr: "runtime_state db' = runtime_state ?db" "audit_records db' = audit_records ?db" by simp_all
  from runtime_of_cong [OF fr(1)] runtime_of_update show "runtime_of s db' = (if s = sid
      then map_option (\<lambda>r. r\<lparr>rt_state := st, rt_reason := reason, rt_version := v, rt_changed_at := ts\<rparr>) (runtime_of sid db)
      else runtime_of s db)" by metis
  show "audit_records db' = audit_records db" using fr(2) by simp
  show "is_ok (verify_chain E sid db')" if "verify_chain E sid db = Inr (n, root)"
  proof -
    have "verify_chain E (ea_subject_id ?a) ?db = Inr (n, root)"
      using that by (simp add: lifecycle_event_def verify_chain_cong [of ?db db])
    from append_connection_chain(1) [OF this assms] show ?thesis by (simp add: lifecycle_event_def)
  qed
  show "\<exists>e. events db' = events db @ [e] \<and> ev_subject_id e = sid \<and> ev_event_type e = ty
        \<and> ev_payload_json e = canonical_json (JObj [(''from'', JStr f), (''to'', JStr st), (''reason'', JStr reason), (''version'', JInt v)])"
    if fresh: "''evt_'' @ env_uuid E (fresh_ids db) \<notin> ev_event_id ` set (events db)"
    using assms
  proof (cases rule: append_connection_cases)
    case (existing t m row)
    with fresh show ?thesis by (auto simp: draw_event_id_def lifecycle_event_def new_id_def)
  next
    case (new t m eid occ obs)
    from append_new_events(1) [OF new(4)] show ?thesis
      by (simp add: new_event_row_def lifecycle_event_def del: canonical_json.simps)
  qed
qed

text \<open>What a successful change of the lifecycle is.\<close>

definition legal_change :: "runtime_row \<Rightarrow> runtime_row \<Rightarrow> bool" where
  "legal_change r r' =
     (rt_version r' = rt_version r + 1 \<and>
      (rt_state r' \<in> successors (rt_state r) \<or>
       rt_state r' = recovered_state (rt_state r) \<and>
         rt_state r \<notin> {''booting'', ''paused'', ''stopped'', ''resetting''}))"

definition lifecycle_log :: "string \<Rightarrow> 'a kernel_db_scheme \<Rightarrow> nat" where
  "lifecycle_log sid db =
     count_where (\<lambda>e. ev_subject_id e = sid \<and> ev_event_type e \<in> {''lifecycle_transition'', ''lifecycle_recovery''})
       (events db)
     + count_where (\<lambda>a. au_subject_id a = sid \<and> au_action a = ''integrity_safe_pause_fallback'') (audit_records db)"

definition no_fresh_clash :: "env \<Rightarrow> 'a kernel_db_scheme \<Rightarrow> bool" where
  "no_fresh_clash E db = (''evt_'' @ env_uuid E (fresh_ids db) \<notin> ev_event_id ` set (events db))"

text \<open>One step of the manager: unchanged, or a legal change with one more entry in the log.\<close>

definition lifecycle_effect :: "string \<Rightarrow> runtime_row \<Rightarrow> 'a kernel_db_scheme \<Rightarrow> 'a kernel_db_scheme \<Rightarrow> bool" where
  "lifecycle_effect sid r db db' =
     (\<exists>old. runtime_of sid db = Some old \<and> runtime_of sid db' = Some r \<and> legal_change old r
       \<and> (\<forall>s. s \<noteq> sid \<longrightarrow> runtime_of s db' = runtime_of s db)
       \<and> lifecycle_log sid db' = lifecycle_log sid db + 1)"

lemma transition_connection_effect:
  assumes "transition_connection E sid st reason actor db = Inr (r, db')"
  shows "\<exists>old. runtime_of sid db = Some old \<and> st \<in> successors (rt_state old)
      \<and> r = \<lparr>rt_subject_id = sid, rt_state = st, rt_reason = reason, rt_version = rt_version old + 1,
             rt_changed_at = env_clock E (ticks db)\<rparr>
      \<and> runtime_of sid db' = Some r \<and> (\<forall>s. s \<noteq> sid \<longrightarrow> runtime_of s db' = runtime_of s db)"
    and "verify_chain E sid db = Inr (n, root) \<Longrightarrow> is_ok (verify_chain E sid db')"
    and "no_fresh_clash E db \<Longrightarrow> lifecycle_effect sid r db db'"
    and "\<not> blank reason \<and> \<not> blank actor"
proof -
  let ?db = "db\<lparr>ticks := Suc (ticks db)\<rparr>" and ?ts = "env_clock E (ticks db)"
  from assms obtain old rec where old: "runtime_of sid db = Some old" "st \<in> successors (rt_state old)"
    and r: "r = \<lparr>rt_subject_id = sid, rt_state = st, rt_reason = reason, rt_version = rt_version old + 1,
             rt_changed_at = ?ts\<rparr>"
    and app: "append_connection E (lifecycle_event sid ''lifecycle_transition'' actor (rt_state old) st reason
        (rt_version old + 1) ?ts) (update_runtime sid st reason (rt_version old + 1) ?ts ?db) = Inr (rec, db')"
    and nb: "\<not> blank reason \<and> \<not> blank actor"
    unfolding transition_connection_def
    by (auto simp: utc_now_def Let_def successors_def split: if_splits option.splits)
  show "\<not> blank reason \<and> \<not> blank actor" by (fact nb)
  note ch = logged_change [OF app]
  have rt: "runtime_of s ?db = runtime_of s db" for s by (simp add: runtime_of_def)
  have post: "runtime_of sid db' = Some r" "\<forall>s. s \<noteq> sid \<longrightarrow> runtime_of s db' = runtime_of s db"
    using ch(1) old(1) runtime_of_subject [OF old(1)] by (simp_all add: r rt)
  with old r show "\<exists>old. runtime_of sid db = Some old \<and> st \<in> successors (rt_state old)
      \<and> r = \<lparr>rt_subject_id = sid, rt_state = st, rt_reason = reason, rt_version = rt_version old + 1,
             rt_changed_at = env_clock E (ticks db)\<rparr>
      \<and> runtime_of sid db' = Some r \<and> (\<forall>s. s \<noteq> sid \<longrightarrow> runtime_of s db' = runtime_of s db)" by blast
  show "verify_chain E sid db = Inr (n, root) \<Longrightarrow> is_ok (verify_chain E sid db')"
    using ch(4) by (simp add: verify_chain_cong [of ?db db])
  show "lifecycle_effect sid r db db'" if "no_fresh_clash E db"
    using ch(2,3) that post old
    by (auto simp: lifecycle_effect_def no_fresh_clash_def legal_change_def r lifecycle_log_def count_where_append)
qed

lemma recover_for_restart_effect:
  assumes "recover_for_restart E sid g reason db = Inr (r, db')"
  shows "\<exists>old. runtime_of sid db = Some old \<and> rt_state old \<notin> {''stopped'', ''resetting''} \<and> known_state (rt_state old)
      \<and> (if rt_state old \<in> {''booting'', ''paused''} then r = old \<and> db' = db
         else r = \<lparr>rt_subject_id = sid, rt_state = recovered_state (rt_state old), rt_reason = reason,
                   rt_version = rt_version old + 1, rt_changed_at = env_clock E (ticks db)\<rparr>)
      \<and> runtime_of sid db' = Some r \<and> (\<forall>s. s \<noteq> sid \<longrightarrow> runtime_of s db' = runtime_of s db)"
    and "verify_chain E sid db = Inr (n, root) \<Longrightarrow> is_ok (verify_chain E sid db')"
    and "no_fresh_clash E db \<Longrightarrow> db' = db \<and> runtime_of sid db = Some r \<or> lifecycle_effect sid r db db'"
proof -
  let ?db = "db\<lparr>ticks := Suc (ticks db)\<rparr>" and ?ts = "env_clock E (ticks db)"
  from assms obtain old where old: "runtime_of sid db = Some old" "known_state (rt_state old)"
    "rt_state old \<notin> {''stopped'', ''resetting''}"
    unfolding recover_for_restart_def
    by (auto simp: runtime_from_row_def Let_def split: if_splits option.splits)
  have "(\<exists>old. runtime_of sid db = Some old \<and> rt_state old \<notin> {''stopped'', ''resetting''} \<and> known_state (rt_state old)
      \<and> (if rt_state old \<in> {''booting'', ''paused''} then r = old \<and> db' = db
         else r = \<lparr>rt_subject_id = sid, rt_state = recovered_state (rt_state old), rt_reason = reason,
                   rt_version = rt_version old + 1, rt_changed_at = env_clock E (ticks db)\<rparr>)
      \<and> runtime_of sid db' = Some r \<and> (\<forall>s. s \<noteq> sid \<longrightarrow> runtime_of s db' = runtime_of s db))
    \<and> (verify_chain E sid db = Inr (n, root) \<longrightarrow> is_ok (verify_chain E sid db'))
    \<and> (no_fresh_clash E db \<longrightarrow> db' = db \<and> runtime_of sid db = Some r \<or> lifecycle_effect sid r db db')"
  proof (cases "rt_state old \<in> {''booting'', ''paused''}")
    case True
    with assms old have "r = old \<and> db' = db"
      unfolding recover_for_restart_def by (auto simp: runtime_from_row_def split: if_splits)
    with True old show ?thesis by auto
  next
    case False
    with assms old obtain rec where r: "r = \<lparr>rt_subject_id = sid, rt_state = recovered_state (rt_state old),
          rt_reason = reason, rt_version = rt_version old + 1, rt_changed_at = ?ts\<rparr>"
      and app: "append_connection E (lifecycle_event sid ''lifecycle_recovery'' ''supervisor'' (rt_state old)
          (recovered_state (rt_state old)) reason (rt_version old + 1) ?ts)
          (update_runtime sid (recovered_state (rt_state old)) reason (rt_version old + 1) ?ts ?db) = Inr (rec, db')"
      unfolding recover_for_restart_def
      by (auto simp: runtime_from_row_def utc_now_def Let_def split: if_splits)
    note ch = logged_change [OF app]
    have rt: "runtime_of s ?db = runtime_of s db" for s by (simp add: runtime_of_def)
    have post: "runtime_of sid db' = Some r" "\<forall>s. s \<noteq> sid \<longrightarrow> runtime_of s db' = runtime_of s db"
      using ch(1) old(1) runtime_of_subject [OF old(1)] by (simp_all add: r rt)
    have "lifecycle_effect sid r db db'" if "no_fresh_clash E db"
      using ch(2,3) that post old False
      by (auto simp: lifecycle_effect_def no_fresh_clash_def legal_change_def r lifecycle_log_def count_where_append)
    moreover have "is_ok (verify_chain E sid db')" if "verify_chain E sid db = Inr (n, root)"
      using ch(4) that by (simp add: verify_chain_cong [of ?db db])
    ultimately show ?thesis using old r post False by auto
  qed
  then show "\<exists>old. runtime_of sid db = Some old \<and> rt_state old \<notin> {''stopped'', ''resetting''} \<and> known_state (rt_state old)
      \<and> (if rt_state old \<in> {''booting'', ''paused''} then r = old \<and> db' = db
         else r = \<lparr>rt_subject_id = sid, rt_state = recovered_state (rt_state old), rt_reason = reason,
                   rt_version = rt_version old + 1, rt_changed_at = env_clock E (ticks db)\<rparr>)
      \<and> runtime_of sid db' = Some r \<and> (\<forall>s. s \<noteq> sid \<longrightarrow> runtime_of s db' = runtime_of s db)"
    "verify_chain E sid db = Inr (n, root) \<Longrightarrow> is_ok (verify_chain E sid db')"
    "no_fresh_clash E db \<Longrightarrow> db' = db \<and> runtime_of sid db = Some r \<or> lifecycle_effect sid r db db'"
    by blast+
qed

lemma safe_pause_fallback_effect:
  assumes "safe_pause_fallback E sid g reason actor db = Inr (r, db')"
  shows "rt_state r = ''paused''" and "runtime_of sid db' = Some r"
    and "events db' = events db" and "event_chain_roots db' = event_chain_roots db"
    and "runtime_of sid db = Some r \<and> audit_records db' = audit_records db \<or> lifecycle_effect sid r db db'"
    and "s \<noteq> sid \<Longrightarrow> runtime_of s db' = runtime_of s db"
proof -
  let ?db = "db\<lparr>ticks := Suc (ticks db)\<rparr>" and ?ts = "env_clock E (ticks db)"
  have rt: "runtime_of s ?db = runtime_of s db" for s by (simp add: runtime_of_def)
  from assms obtain old where old: "runtime_of sid db = Some old"
    by (auto simp: safe_pause_fallback_def utc_now_def rt split: option.splits)
  have act: "''paused'' \<in> successors ''active''" by (simp add: successors_def allowed_transitions_def)
  have ne: "''active'' \<noteq> ''paused''" by simp
  have "rt_state r = ''paused'' \<and> runtime_of sid db' = Some r \<and> events db' = events db
    \<and> event_chain_roots db' = event_chain_roots db
    \<and> (runtime_of sid db = Some r \<and> audit_records db' = audit_records db \<or> lifecycle_effect sid r db db')
    \<and> (s \<noteq> sid \<longrightarrow> runtime_of s db' = runtime_of s db)"
  proof (cases "rt_state old = ''paused''")
    case True
    with assms old have "r = old" "db' = ?db"
      by (auto simp: safe_pause_fallback_def utc_now_def rt runtime_from_row_def split: if_splits)
    with True old show ?thesis by (simp add: rt)
  next
    case False
    let ?v = "rt_version old + 1"
    let ?db2 = "update_runtime sid ''paused'' reason ?v ?ts ?db"
    from False assms old have st: "rt_state old = ''active''"
      by (auto simp: safe_pause_fallback_def utc_now_def rt Let_def split: if_splits)
    from False assms old obtain a where db': "db' = ?db2\<lparr>fresh_ids := Suc (fresh_ids db), audit_records := audit_records db @ [a]\<rparr>"
      and a: "au_subject_id a = sid" "au_action a = ''integrity_safe_pause_fallback''"
      and r: "r = \<lparr>rt_subject_id = sid, rt_state = ''paused'', rt_reason = reason, rt_version = ?v, rt_changed_at = ?ts\<rparr>"
      by (auto simp: safe_pause_fallback_def utc_now_def new_id_def rt Let_def insert_audit_def
          simp del: canonical_json.simps split: if_splits)
    have rt': "runtime_of s db' = runtime_of s ?db2" for s by (rule runtime_of_cong) (simp add: db')
    have post: "runtime_of sid db' = Some r" "\<forall>s. s \<noteq> sid \<longrightarrow> runtime_of s db' = runtime_of s db"
      using old runtime_of_subject [OF old] by (simp_all add: rt' runtime_of_update rt r)
    have "lifecycle_log sid db' = lifecycle_log sid db + 1"
      using a by (simp add: lifecycle_log_def db' count_where_append)
    then have "lifecycle_effect sid r db db'"
      using post old st act by (auto simp: lifecycle_effect_def legal_change_def r)
    with post show ?thesis by (simp add: db' r)
  qed
  then show "rt_state r = ''paused''" "runtime_of sid db' = Some r"
    "events db' = events db" "event_chain_roots db' = event_chain_roots db"
    "runtime_of sid db = Some r \<and> audit_records db' = audit_records db \<or> lifecycle_effect sid r db db'"
    "s \<noteq> sid \<Longrightarrow> runtime_of s db' = runtime_of s db" by blast+
qed

lemma transition_Inr:
  "transition E sid g st reason actor db = Inr (r, db') \<longleftrightarrow>
   run_guard g db = Inr () \<and> transition_connection E sid st reason actor db = Inr (r, db')"
  by (auto simp: transition_def transition_connection_def split: if_splits)

lemma safe_pause_cases:
  assumes "safe_pause E sid g reason actor db = Inr (r, db')"
  obtains (paused) "runtime_of sid db = Some r" "db' = db" "rt_state r = ''paused''"
    | (normal) "transition_connection E sid ''paused'' reason actor db = Inr (r, db')" "run_guard g db = Inr ()"
    | (fallback) m where "transition E sid g ''paused'' reason actor db = Inl (IntegrityError m)"
        "safe_pause_fallback E sid g reason actor db = Inr (r, db')"
proof -
  from assms obtain c where c: "runtime_of sid db = Some c" "runtime_from_row c = Inr c"
    and rest: "(if rt_state c = ''paused'' then Inr (c, db)
       else if rt_state c \<noteq> ''active'' then Inl (InvalidTransitionError (''cannot safe-pause from state '' @ rt_state c))
       else case transition E sid g ''paused'' reason actor db of
           Inl (IntegrityError _) \<Rightarrow> safe_pause_fallback E sid g reason actor db
         | outcome \<Rightarrow> outcome) = Inr (r, db')"
    by (auto simp: safe_pause_def lifecycle_current_def runtime_from_row_def split: option.splits if_splits)
  show thesis
  proof (cases "rt_state c = ''paused''")
    case True
    with rest have "r = c" "db' = db" by simp_all
    with c True show thesis by (intro that(1)) simp_all
  next
    case False
    with rest have "(case transition E sid g ''paused'' reason actor db of
           Inl (IntegrityError _) \<Rightarrow> safe_pause_fallback E sid g reason actor db
         | outcome \<Rightarrow> outcome) = Inr (r, db')" by (simp split: if_splits)
    then have "transition E sid g ''paused'' reason actor db = Inr (r, db')
      \<or> (\<exists>m. transition E sid g ''paused'' reason actor db = Inl (IntegrityError m)
          \<and> safe_pause_fallback E sid g reason actor db = Inr (r, db'))"
      by (simp split: sum.splits py_error.splits)
    with that(2,3) transition_Inr [of E sid g "''paused''" reason actor db r db'] show thesis by blast
  qed
qed

section \<open>Runs\<close>

inductive lifecycle_step ::
    "env \<Rightarrow> string \<Rightarrow> ('a kernel_db_scheme) guard \<Rightarrow> 'a kernel_db_scheme \<Rightarrow> 'a kernel_db_scheme \<Rightarrow> bool"
  for E sid g where
  lc_initial: "ensure_initial E sid g st reason db = Inr (r, db') \<Longrightarrow> lifecycle_step E sid g db db'"
| lc_transition: "transition E sid g st reason actor db = Inr (r, db') \<Longrightarrow> lifecycle_step E sid g db db'"
| lc_pause: "safe_pause E sid g reason actor db = Inr (r, db') \<Longrightarrow> lifecycle_step E sid g db db'"
| lc_restart: "recover_for_restart E sid g reason db = Inr (r, db') \<Longrightarrow> lifecycle_step E sid g db db'"

inductive lifecycle_reachable ::
    "env \<Rightarrow> string \<Rightarrow> ('a kernel_db_scheme) guard \<Rightarrow> 'a kernel_db_scheme \<Rightarrow> bool" for E sid g where
  lc_empty: "runtime_of sid db = None \<Longrightarrow> lifecycle_log sid db = 0 \<Longrightarrow> lifecycle_reachable E sid g db"
| lc_step: "lifecycle_reachable E sid g db \<Longrightarrow> lifecycle_step E sid g db db' \<Longrightarrow> no_fresh_clash E db
    \<Longrightarrow> lifecycle_reachable E sid g db'"

lemma ensure_initial_effect:
  assumes "ensure_initial E sid g st reason db = Inr (r, db')"
  shows "runtime_of sid db = Some r \<and> db' = db
    \<or> runtime_of sid db = None \<and> runtime_of sid db' = Some r \<and> known_state (rt_state r) \<and> rt_version r = 0
      \<and> lifecycle_log sid db' = lifecycle_log sid db"
proof (cases "runtime_of sid db")
  case None
  with assms obtain ts where "r = \<lparr>rt_subject_id = sid, rt_state = st, rt_reason = reason, rt_version = 0, rt_changed_at = ts\<rparr>"
    "db' = db\<lparr>ticks := Suc (ticks db), runtime_state := runtime_state db @ [r]\<rparr>" "known_state st"
    by (auto simp: ensure_initial_def utc_now_def insert_runtime_def Let_def split: if_splits)
  with None show ?thesis
    by (simp add: runtime_of_def fetchone_append lifecycle_log_def)
next
  case (Some row)
  with assms show ?thesis by (auto simp: ensure_initial_def runtime_from_row_def split: if_splits)
qed

lemma lifecycle_step_effect:
  assumes "lifecycle_step E sid g db db'" and "no_fresh_clash E db"
  shows "runtime_of sid db' = runtime_of sid db \<and> lifecycle_log sid db' = lifecycle_log sid db
    \<or> runtime_of sid db = None \<and> lifecycle_log sid db' = lifecycle_log sid db
      \<and> (\<exists>r. runtime_of sid db' = Some r \<and> known_state (rt_state r) \<and> rt_version r = 0)
    \<or> (\<exists>r. lifecycle_effect sid r db db')"
  using assms(1)
proof cases
  case (lc_initial st reason r)
  from ensure_initial_effect [OF this] show ?thesis by auto
next
  case (lc_transition st reason actor r)
  then have "transition_connection E sid st reason actor db = Inr (r, db')" by (simp add: transition_Inr)
  from transition_connection_effect(3) [OF this assms(2)] show ?thesis by blast
next
  case (lc_pause reason actor r)
  then show ?thesis
  proof (cases rule: safe_pause_cases)
    case normal
    from transition_connection_effect(3) [OF normal(1) assms(2)] show ?thesis by blast
  next
    case (fallback m)
    note f = safe_pause_fallback_effect [OF fallback(2)]
    from f(5) show ?thesis
    proof
      assume "runtime_of sid db = Some r \<and> audit_records db' = audit_records db"
      with f(2,3) show ?thesis by (simp add: lifecycle_log_def)
    qed blast
  qed simp
next
  case (lc_restart reason r)
  from recover_for_restart_effect(3) [OF this assms(2)] show ?thesis by auto
qed

text \<open>
  The version of a lifecycle row counts its recorded changes: on every run from an
  uninitialised subject the state is one of the table and the version is the number of
  lifecycle events plus the number of fail-closed pauses in the audit log, so no change is
  unrecorded and none is recorded twice.  Drawn event identifiers are assumed not to repeat.
\<close>

theorem lifecycle_version_counts_log:
  assumes "lifecycle_reachable E sid g db" and "runtime_of sid db = Some r"
  shows "known_state (rt_state r) \<and> rt_version r = int (lifecycle_log sid db)"
proof -
  have "case runtime_of sid db of None \<Rightarrow> lifecycle_log sid db = 0
    | Some r \<Rightarrow> known_state (rt_state r) \<and> rt_version r = int (lifecycle_log sid db)"
    using assms(1)
  proof induction
    case (lc_step db db')
    have rk: "known_state (recovered_state s)" for s
      by (simp add: recovered_state_def sleep_states_def known_state_def allowed_transitions_def)
    from lifecycle_step_effect [OF lc_step(2,3)] lc_step.IH show ?case
      by (auto simp: lifecycle_effect_def legal_change_def successors_known rk split: option.splits)
  qed simp
  with assms(2) show ?thesis by simp
qed


text \<open>
  A transition succeeds only along an edge of the table; it then stores the new state
  with the next version, touches no other subject and keeps a verifying event chain
  verifying.
\<close>

theorem transition_follows_table:
  assumes "transition E sid g st reason actor db = Inr (r, db')"
  shows "\<exists>old. runtime_of sid db = Some old \<and> st \<in> successors (rt_state old)
      \<and> runtime_of sid db' = Some r \<and> rt_state r = st \<and> rt_version r = rt_version old + 1
      \<and> (\<forall>s. s \<noteq> sid \<longrightarrow> runtime_of s db' = runtime_of s db)
      \<and> (is_ok (verify_chain E sid db) \<longrightarrow> is_ok (verify_chain E sid db'))"
proof -
  from assms have t: "transition_connection E sid st reason actor db = Inr (r, db')" by (simp add: transition_Inr)
  have "is_ok (verify_chain E sid db')" if "is_ok (verify_chain E sid db)"
    using that transition_connection_effect(2) [OF t] by (auto simp: is_ok_iff)
  with transition_connection_effect(1) [OF t] show ?thesis by auto
qed

text \<open>
  C30. Recovery after a restart never leaves a subject active: running states go back to
  \<open>booting\<close>, sleep states and \<open>paused\<close> are kept, and \<open>stopped\<close> and \<open>resetting\<close> are refused.
\<close>

theorem recover_never_resumes_activity:
  assumes "recover_for_restart E sid g reason db = Inr (r, db')"
  shows "runtime_of sid db' = Some r
    \<and> rt_state r \<in> {''booting'', ''paused'', ''winding_down'', ''reflective_sleep'', ''deep_sleep'', ''waking''}
    \<and> (\<exists>old. runtime_of sid db = Some old \<and>
        rt_state r = (if rt_state old \<in> {''active'', ''orienting''} then ''booting'' else rt_state old))"
proof -
  from recover_for_restart_effect(1) [OF assms] obtain old where
    o: "runtime_of sid db = Some old" "rt_state old \<notin> {''stopped'', ''resetting''}" "known_state (rt_state old)"
      "runtime_of sid db' = Some r"
    and r: "if rt_state old \<in> {''booting'', ''paused''} then r = old \<and> db' = db
         else r = \<lparr>rt_subject_id = sid, rt_state = recovered_state (rt_state old), rt_reason = reason,
                   rt_version = rt_version old + 1, rt_changed_at = env_clock E (ticks db)\<rparr>" by blast
  have "rt_state r \<in> {''booting'', ''paused'', ''winding_down'', ''reflective_sleep'', ''deep_sleep'', ''waking''}
    \<and> rt_state r = (if rt_state old \<in> {''active'', ''orienting''} then ''booting'' else rt_state old)"
    using o(2,3) r
    by (auto simp: known_state_iff allowed_transitions_def recovered_state_def sleep_states_def split: if_splits)
  with o show ?thesis by blast
qed

text \<open>
  C31. The safe pause fails closed: when damage to the event chain makes the normal
  transition raise an \<open>IntegrityError\<close>, the subject is paused nevertheless, with the next
  version and an audit record instead of an event.
\<close>

theorem safe_pause_fails_closed:
  assumes "lifecycle_current sid db = Inr c" "rt_state c = ''active''"
    and "transition E sid g ''paused'' reason actor db = Inl (IntegrityError m)"
    and "run_guard g (db\<lparr>ticks := Suc (ticks db)\<rparr>) = Inr ()"
    and "''audit_'' @ env_uuid E (fresh_ids db) \<notin> au_audit_id ` set (audit_records db)"
    and "sid \<in> set (subject_identity db)"
  shows "\<exists>r db'. safe_pause E sid g reason actor db = Inr (r, db') \<and> runtime_of sid db' = Some r
    \<and> rt_state r = ''paused'' \<and> rt_version r = rt_version c + 1
    \<and> events db' = events db \<and> length (audit_records db') = Suc (length (audit_records db))"
proof -
  let ?db = "db\<lparr>ticks := Suc (ticks db)\<rparr>"
  from assms(1) have c: "runtime_of sid db = Some c" "runtime_of sid ?db = Some c"
    by (auto simp: lifecycle_current_def runtime_from_row_def runtime_of_def split: option.splits if_splits)
  have "\<exists>r db'. safe_pause_fallback E sid g reason actor db = Inr (r, db') \<and> rt_version r = rt_version c + 1
      \<and> length (audit_records db') = Suc (length (audit_records db))"
    using assms(2,4,5,6) c(2)
    by (simp add: safe_pause_fallback_def utc_now_def new_id_def Let_def insert_audit_def update_runtime_def
        del: canonical_json.simps)
  then obtain r db' where f: "safe_pause_fallback E sid g reason actor db = Inr (r, db')"
    "rt_version r = rt_version c + 1" "length (audit_records db') = Suc (length (audit_records db))" by blast
  then have "safe_pause E sid g reason actor db = Inr (r, db')"
    using assms(1,2,3) by (simp add: safe_pause_def)
  with f safe_pause_fallback_effect(1,2,3) [OF f(1)] show ?thesis by blast
qed

lemma sample_time_not_Nil [simp]: "sample_time \<noteq> []"
  by (simp add: sample_time_def)

text \<open>Witness inputs: a subject with a running lifecycle, with an intact and with a damaged chain.\<close>

definition active_db :: kernel_db where
  "active_db = sample_db\<lparr>runtime_state := [\<lparr>rt_subject_id = ''s'', rt_state = ''active'', rt_reason = ''r'',
     rt_version = 3, rt_changed_at = sample_time\<rparr>]\<rparr>"

definition damaged_db :: kernel_db where
  "damaged_db = active_db\<lparr>event_chain_roots := [\<lparr>ch_event_id = ''e0'', ch_subject_id = ''s'', ch_sequence = 1,
     ch_previous = None, ch_root = ''h'', ch_created_at = sample_time\<rparr>]\<rparr>"

lemmas lifecycle_eval = transition_def transition_connection_def run_guard_def known_state_def runtime_of_def
  allowed_transitions_def active_db_def damaged_db_def update_runtime_def lifecycle_event_def
  lifecycle_current_def runtime_from_row_def

theorem transition_follows_table_witness:
  "\<exists>r db'. transition sample_env ''s'' None ''paused'' ''r'' ''op'' active_db = Inr (r, db') \<and> rt_version r = 4"
proof -
  have "is_ok (transition sample_env ''s'' None ''paused'' ''r'' ''op'' active_db)"
    by (simp add: lifecycle_eval store_eval)
  then obtain r db' where t: "transition sample_env ''s'' None ''paused'' ''r'' ''op'' active_db = Inr (r, db')"
    by (auto simp: is_ok_iff)
  from transition_follows_table [OF t] t show ?thesis by (auto simp: active_db_def runtime_of_def)
qed

theorem recover_never_resumes_activity_witness:
  "\<exists>r db'. recover_for_restart sample_env ''s'' None ''r'' active_db = Inr (r, db') \<and> rt_state r = ''booting''"
proof -
  have "is_ok (recover_for_restart sample_env ''s'' None ''r'' active_db)"
    by (simp add: recover_for_restart_def recovered_state_def sleep_states_def lifecycle_eval store_eval)
  then obtain r db' where t: "recover_for_restart sample_env ''s'' None ''r'' active_db = Inr (r, db')"
    by (auto simp: is_ok_iff)
  from recover_never_resumes_activity [OF t] t show ?thesis by (auto simp: active_db_def runtime_of_def)
qed

theorem safe_pause_fails_closed_witness:
  "\<exists>r db'. safe_pause sample_env ''s'' None ''r'' ''op'' damaged_db = Inr (r, db') \<and> rt_state r = ''paused''"
proof -
  have "transition sample_env ''s'' None ''paused'' ''r'' ''op'' damaged_db
      = Inl (IntegrityError ''event chain is incomplete before append'')"
    by (simp add: lifecycle_eval store_eval)
  moreover have "lifecycle_current ''s'' damaged_db = Inr (hd (runtime_state damaged_db))"
    by (simp add: lifecycle_eval)
  ultimately show ?thesis
    using safe_pause_fails_closed [of "''s''" damaged_db "hd (runtime_state damaged_db)" sample_env None "''r''" "''op''"]
    by (auto simp: damaged_db_def active_db_def sample_db_def run_guard_def)
qed

definition stopped_db :: kernel_db where
  "stopped_db = sample_db\<lparr>ticks := 1, runtime_state := [\<lparr>rt_subject_id = ''s'', rt_state = ''stopped'', rt_reason = ''r'',
     rt_version = 0, rt_changed_at = sample_time\<rparr>]\<rparr>"

theorem lifecycle_version_counts_log_witness:
  "\<exists>(db :: kernel_db) r. lifecycle_reachable sample_env ''s'' None db \<and> runtime_of ''s'' db = Some r
     \<and> rt_version r = 1 \<and> lifecycle_log ''s'' db = 1"
proof -
  have "ensure_initial sample_env ''s'' None ''stopped'' ''r'' sample_db = Inr (hd (runtime_state stopped_db), stopped_db)"
    by (simp add: ensure_initial_def insert_runtime_def lifecycle_eval store_eval stopped_db_def)
  then have s1: "lifecycle_step sample_env ''s'' None sample_db stopped_db" by (rule lc_initial)
  have s0: "lifecycle_reachable sample_env ''s'' None sample_db"
    by (rule lc_empty) (simp_all add: runtime_of_def lifecycle_log_def sample_db_def)
  have nc: "no_fresh_clash sample_env sample_db" "no_fresh_clash sample_env stopped_db"
    by (simp_all add: no_fresh_clash_def stopped_db_def sample_db_def)
  have "lifecycle_reachable sample_env ''s'' None stopped_db" by (rule lc_step [OF s0 s1 nc(1)])
  moreover have "is_ok (transition sample_env ''s'' None ''booting'' ''r'' ''op'' stopped_db)"
    by (simp add: lifecycle_eval store_eval stopped_db_def)
  then obtain r db where t: "transition sample_env ''s'' None ''booting'' ''r'' ''op'' stopped_db = Inr (r, db)"
    by (auto simp: is_ok_iff)
  ultimately have re: "lifecycle_reachable sample_env ''s'' None db"
    using lc_step lc_transition nc(2) by blast
  from t have "runtime_of ''s'' db = Some r" "rt_version r = 1"
    using transition_connection_effect(1) [of sample_env "''s''" "''booting''" "''r''" "''op''" stopped_db r db]
    by (auto simp: transition_Inr runtime_of_def stopped_db_def)
  moreover from lifecycle_version_counts_log [OF re this(1)] this(2) have "lifecycle_log ''s'' db = 1" by simp
  ultimately show ?thesis using re by blast
qed

end
