(* ===== verification/Revisions.thy ===== *)
theory Revisions
  imports Prelude
begin

text \<open>
  The contract of the append-only revision tables (\<open>action_revisions\<close>,
  \<open>behavior_log_revisions\<close> and their kin): an insert appends a row whose number is one more
  than the greatest number already stored for its key, which the schema's triggers enforce.
  The clients get that the numbers of every key are \<open>1, 2, \<dots>, n\<close> in insertion order, which is
  what the integrity checks of the program demand of a history.
\<close>

fun max_int :: "int list \<Rightarrow> int" where
  "max_int [] = 0"
| "max_int (x # xs) = max x (max_int xs)"

text \<open>\<open>COALESCE(MAX(revision_number), 0) + 1\<close>: a revision number is positive.\<close>

definition next_revision :: "int list \<Rightarrow> int" where
  "next_revision ns = max_int ns + 1"

definition contiguous :: "int list \<Rightarrow> bool" where
  "contiguous ns = (ns = map int [1..<Suc (length ns)])"

lemma max_int_append [simp]: "max_int (xs @ [x]) = max x (max_int xs)" if "\<forall>y\<in>set xs. 0 \<le> y" "0 \<le> x"
  using that by (induction xs) auto

lemma contiguous_Nil [simp]: "contiguous []"
  by (simp add: contiguous_def)

lemma max_int_upto: "max_int (map int [1..<Suc n]) = int n"
  by (induction n) simp_all

lemma contiguous_next: "contiguous ns \<Longrightarrow> next_revision ns = int (length ns) + 1"
  using max_int_upto [of "length ns"] by (simp add: contiguous_def next_revision_def)

lemma contiguous_snoc: "contiguous ns \<Longrightarrow> contiguous (ns @ [next_revision ns])"
  unfolding contiguous_next by (simp add: contiguous_def)

lemma contiguous_sorted: "contiguous ns \<Longrightarrow> sorted ns"
proof -
  assume "contiguous ns"
  moreover have "sorted (map int [1..<Suc n])" for n
    by (induction n) (auto simp: sorted_append)
  ultimately show ?thesis unfolding contiguous_def by metis
qed

lemma contiguous_nth:
  assumes "contiguous ns" "i < length ns"
  shows "ns ! i = int i + 1"
proof -
  have "ns ! i = map int [1..<Suc (length ns)] ! i" using assms(1) unfolding contiguous_def by metis
  also have "\<dots> = int ([1..<Suc (length ns)] ! i)" using assms(2) by (intro nth_map) simp
  also have "\<dots> = int i + 1" using assms(2) by (subst nth_upt) simp_all
  finally show ?thesis .
qed

locale revision_log =
  fixes rows :: "'db \<Rightarrow> 'r list" and key :: "'r \<Rightarrow> 'k" and num :: "'r \<Rightarrow> int"
    and ins :: "'r \<Rightarrow> 'db \<Rightarrow> 'db res"
  assumes ins_appends: "ins r db = Inr db' \<Longrightarrow> rows db' = rows db @ [r]"
    and ins_next: "ins r db = Inr db' \<Longrightarrow> num r = next_revision (map num (filter (\<lambda>x. key x = key r) (rows db)))"
begin

definition history :: "'k \<Rightarrow> 'db \<Rightarrow> 'r list" where
  "history k db = filter (\<lambda>x. key x = k) (rows db)"

lemma history_ins:
  "ins r db = Inr db' \<Longrightarrow> history k db' = history k db @ (if key r = k then [r] else [])"
  by (simp add: history_def ins_appends)

lemma ins_keeps_contiguous:
  assumes "ins r db = Inr db'" and "contiguous (map num (history k db))"
  shows "contiguous (map num (history k db'))"
proof (cases "key r = k")
  case True
  then have "num r = next_revision (map num (history k db))"
    using ins_next [OF assms(1)] by (simp add: history_def)
  with True contiguous_snoc [OF assms(2)] show ?thesis by (simp add: history_ins [OF assms(1)])
qed (use assms in \<open>simp add: history_ins [OF assms(1)]\<close>)

text \<open>Reading a history \<open>ORDER BY revision_number\<close> gives it in insertion order.\<close>

lemma history_ordered:
  "contiguous (map num (history k db)) \<Longrightarrow> sort_key num (history k db) = history k db"
  by (simp add: sort_key_id_if_sorted contiguous_sorted)

end

end
