(* ===== verification/ActionLedger.thy ===== *)
theory ActionLedger
  imports Lifecycle Revisions
begin

text \<open>
  The action ledger of \<^verbatim>\<open>core/actions.py\<close>: durable intents (\<open>prepare\<close>), execution
  (\<open>start\<close>, \<open>finish\<close>, \<open>cancel\<close>), recovery of interrupted actions and reconciliation of
  unknown outcomes, each writing the action row, its revision and, at completion, the
  public behaviour log with its own revisions; and \<open>verify_integrity\<close> over all of it.  The
  digests are those of \<^verbatim>\<open>core/schema/evidence.py\<close>, the admission limit that of
  \<^verbatim>\<open>core/evidence_capacity.py\<close> (the limit itself, read from the process environment, is a
  parameter; the per-subject counters it compares with are kept equal to the row counts by
  triggers).  The tables of goals, projects, phases and retry blocks are read only.
\<close>

section \<open>Rows\<close>

record action_row =
  ac_action_id :: string
  ac_subject_id :: string
  ac_goal_id :: "string option"
  ac_project_id :: "string option"
  ac_phase_id :: "string option"
  ac_strategy_id :: "string option"
  ac_action_type :: string
  ac_tool :: string
  ac_target :: string
  ac_input_hash :: string
  ac_idempotency_key :: string
  ac_expected_outcome :: string
  ac_side_effect :: bool
  ac_status :: string
  ac_retry_count :: int
  ac_resource_cost_json :: string
  ac_result_json :: "string option"
  ac_prepared_at :: string
  ac_started_at :: "string option"
  ac_completed_at :: "string option"

record action_revision_row =
  ar_revision_id :: string
  ar_action_id :: string
  ar_subject_id :: string
  ar_revision_number :: int
  ar_status :: string
  ar_state_hash :: string
  ar_reason :: string
  ar_created_at :: string

record behavior_log_row =
  bl_log_id :: string
  bl_action_id :: string
  bl_subject_id :: string
  bl_occurred_at :: string
  bl_action_type :: string
  bl_public_goal_reference :: "string option"
  bl_tool :: string
  bl_public_target :: string
  bl_result_status :: string
  bl_side_effect_summary :: string
  bl_resource_summary :: string
  bl_public_explanation :: string
  bl_redaction_reason :: "string option"

record behavior_revision_row =
  br_revision_id :: string
  br_revision_number :: int
  br_log :: behavior_log_row
  br_state_hash :: string
  br_reason :: string
  br_created_at :: string

record retry_block_row =
  rb_subject_id :: string
  rb_goal_id :: "string option"
  rb_strategy_id :: "string option"
  rb_tool :: string
  rb_target :: string
  rb_status :: string

record action_db = kernel_db +
  goals :: "(string \<times> string) list"
  autonomous_projects :: "(string \<times> string) list"
  autonomous_project_phases :: "(string \<times> string) list"
  retry_blocks :: "retry_block_row list"
  actions :: "action_row list"
  action_revisions :: "action_revision_row list"
  behavior_logs :: "behavior_log_row list"
  behavior_log_revisions :: "behavior_revision_row list"

definition action_states :: "string list" where
  "action_states = [''prepared'', ''executing'', ''succeeded'', ''failed'', ''unknown'', ''cancelled'']"

definition executor_completion_states :: "string list" where
  "executor_completion_states = [''succeeded'', ''failed'', ''unknown'', ''cancelled'']"

definition reconciliation_states :: "string list" where
  "reconciliation_states = [''succeeded'', ''failed'', ''cancelled'']"

section \<open>Digests\<close>

definition action_state :: "action_row \<Rightarrow> json" where
  "action_state row =
     JObj [(''action_id'', JStr (ac_action_id row)), (''subject_id'', JStr (ac_subject_id row)),
           (''goal_id'', json_opt (ac_goal_id row)), (''project_id'', json_opt (ac_project_id row)),
           (''phase_id'', json_opt (ac_phase_id row)), (''strategy_id'', json_opt (ac_strategy_id row)),
           (''action_type'', JStr (ac_action_type row)), (''tool'', JStr (ac_tool row)),
           (''target'', JStr (ac_target row)), (''input_hash'', JStr (ac_input_hash row)),
           (''idempotency_key'', JStr (ac_idempotency_key row)),
           (''expected_outcome'', JStr (ac_expected_outcome row)),
           (''side_effect'', JBool (ac_side_effect row)), (''status'', JStr (ac_status row)),
           (''retry_count'', JInt (ac_retry_count row)),
           (''resource_cost_json'', JStr (ac_resource_cost_json row)),
           (''result_json'', json_opt (ac_result_json row)),
           (''prepared_at'', JStr (ac_prepared_at row)), (''started_at'', json_opt (ac_started_at row)),
           (''completed_at'', json_opt (ac_completed_at row))]"

definition action_state_hash :: "env \<Rightarrow> action_row \<Rightarrow> string" where
  "action_state_hash E row = content_hash (env_sha256 E) (action_state row)"

definition behavior_log_state :: "behavior_log_row \<Rightarrow> int \<Rightarrow> string \<Rightarrow> json" where
  "behavior_log_state l revision_number reason =
     JObj [(''log_id'', JStr (bl_log_id l)), (''action_id'', JStr (bl_action_id l)),
           (''subject_id'', JStr (bl_subject_id l)), (''revision_number'', JInt revision_number),
           (''occurred_at'', JStr (bl_occurred_at l)), (''action_type'', JStr (bl_action_type l)),
           (''public_goal_reference'', json_opt (bl_public_goal_reference l)),
           (''tool'', JStr (bl_tool l)), (''public_target'', JStr (bl_public_target l)),
           (''result_status'', JStr (bl_result_status l)),
           (''side_effect_summary'', JStr (bl_side_effect_summary l)),
           (''resource_summary'', JStr (bl_resource_summary l)),
           (''public_explanation'', JStr (bl_public_explanation l)),
           (''redaction_reason'', json_opt (bl_redaction_reason l)), (''reason'', JStr reason)]"

definition behavior_log_state_hash :: "env \<Rightarrow> behavior_log_row \<Rightarrow> int \<Rightarrow> string \<Rightarrow> string" where
  "behavior_log_state_hash E l n reason = content_hash (env_sha256 E) (behavior_log_state l n reason)"

section \<open>Reading rows\<close>

text \<open>An \<open>ActionRecord\<close> is its row with the two JSON columns decoded.\<close>

type_synonym action_record = "action_row \<times> json \<times> json option"

definition action_from_row :: "action_row \<Rightarrow> action_record res" where
  "action_from_row row =
     (if ac_status row \<notin> set action_states
      then Inl (IntegrityError (''invalid persisted action status: '' @ ac_status row))
      else
        let bad = IntegrityError (''invalid persisted action data: '' @ ac_action_id row)
        in res_bind (res_wrap bad (strict_json_loads (ac_resource_cost_json row))) (\<lambda>cost.
           res_bind (case ac_result_json row of None \<Rightarrow> Inr None
               | Some t \<Rightarrow> res_bind (res_wrap bad (strict_json_loads t)) (\<lambda>v. Inr (if v = JNull then None else Some v))) (\<lambda>result.
           if \<not> is_object cost \<or> (case result of None \<Rightarrow> False | Some v \<Rightarrow> \<not> is_object v)
           then Inl (IntegrityError (''invalid persisted action JSON: '' @ ac_action_id row))
           else Inr (row, cost, result))))"

definition get_action_row :: "string \<Rightarrow> 'a action_db_scheme \<Rightarrow> action_row res" where
  "get_action_row action_id db =
     (case fetchone (\<lambda>r. ac_action_id r = action_id) (actions db) of
        None \<Rightarrow> Inl (NotFoundError (''action not found: '' @ action_id)) | Some row \<Rightarrow> Inr row)"

definition load_action :: "string \<Rightarrow> 'a action_db_scheme \<Rightarrow> action_record res" where
  "load_action action_id db = res_bind (get_action_row action_id db) action_from_row"

section \<open>Constrained inserts\<close>

definition insert_action :: "action_row \<Rightarrow> 'a action_db_scheme \<Rightarrow> ('a action_db_scheme) res" where
  "insert_action r db =
     (if ac_action_id r \<in> ac_action_id ` set (actions db)
         \<or> (\<exists>q\<in>set (actions db). ac_subject_id q = ac_subject_id r \<and> ac_idempotency_key q = ac_idempotency_key r)
      then Inl (SqliteIntegrityError ''UNIQUE constraint failed: actions'')
      else if ac_subject_id r \<notin> set (subject_identity db)
      then Inl (SqliteIntegrityError ''FOREIGN KEY constraint failed'')
      else Inr (db\<lparr>actions := actions db @ [r]\<rparr>))"

definition insert_action_revision :: "action_revision_row \<Rightarrow> 'a action_db_scheme \<Rightarrow> ('a action_db_scheme) res" where
  "insert_action_revision r db =
     (if \<not> (\<exists>a\<in>set (actions db). ac_action_id a = ar_action_id r \<and> ac_subject_id a = ar_subject_id r
              \<and> ac_status a = ar_status r)
         \<or> ar_revision_number r \<noteq> next_revision (map ar_revision_number
              (filter (\<lambda>q. ar_action_id q = ar_action_id r) (action_revisions db)))
      then Inl (SqliteIntegrityError ''action revision does not match the current action state'')
      else if ar_revision_id r \<in> ar_revision_id ` set (action_revisions db)
      then Inl (SqliteIntegrityError ''UNIQUE constraint failed: action_revisions.revision_id'')
      else Inr (db\<lparr>action_revisions := action_revisions db @ [r]\<rparr>))"

definition insert_behavior_log_row :: "behavior_log_row \<Rightarrow> 'a action_db_scheme \<Rightarrow> ('a action_db_scheme) res" where
  "insert_behavior_log_row l db =
     (if \<not> (\<exists>a\<in>set (actions db). ac_action_id a = bl_action_id l \<and> ac_subject_id a = bl_subject_id l
              \<and> ac_status a = bl_result_status l)
      then Inl (SqliteIntegrityError ''behavior log does not match its action'')
      else if bl_result_status l \<notin> set executor_completion_states
      then Inl (SqliteIntegrityError ''CHECK constraint failed: result_status'')
      else if bl_log_id l \<in> bl_log_id ` set (behavior_logs db) \<or> bl_action_id l \<in> bl_action_id ` set (behavior_logs db)
      then Inl (SqliteIntegrityError ''UNIQUE constraint failed: behavior_logs'')
      else Inr (db\<lparr>behavior_logs := behavior_logs db @ [l]\<rparr>))"

text \<open>The fields a reconciliation must not change.\<close>

definition stable_fields :: "behavior_log_row \<Rightarrow> string \<times> string option \<times> string \<times> string \<times> string \<times> string option" where
  "stable_fields l = (bl_action_type l, bl_public_goal_reference l, bl_tool l, bl_public_target l,
     bl_resource_summary l, bl_redaction_reason l)"

definition br_log_id :: "behavior_revision_row \<Rightarrow> string" where
  "br_log_id r = bl_log_id (br_log r)"

definition insert_behavior_revision :: "behavior_revision_row \<Rightarrow> 'a action_db_scheme \<Rightarrow> ('a action_db_scheme) res" where
  "insert_behavior_revision r db =
     (let l = br_log r; n = br_revision_number r;
          earlier = filter (\<lambda>q. br_log_id q = br_log_id r) (behavior_log_revisions db)
      in if \<not> ((\<exists>k\<in>set (behavior_logs db). bl_log_id k = bl_log_id l \<and> bl_action_id k = bl_action_id l
                  \<and> bl_subject_id k = bl_subject_id l)
               \<and> (\<exists>a\<in>set (actions db). ac_action_id a = bl_action_id l \<and> ac_subject_id a = bl_subject_id l
                  \<and> ac_status a = bl_result_status l)
               \<and> n = next_revision (map br_revision_number earlier)
               \<and> (n = 1 \<or> n = 2 \<and> bl_result_status l \<noteq> ''unknown''
                    \<and> (\<exists>p\<in>set earlier. br_revision_number p = 1 \<and> bl_result_status (br_log p) = ''unknown''
                         \<and> stable_fields (br_log p) = stable_fields l)))
         then Inl (SqliteIntegrityError ''behavior log revision does not match reconciliation contract'')
         else if br_revision_id r \<in> br_revision_id ` set (behavior_log_revisions db)
         then Inl (SqliteIntegrityError ''UNIQUE constraint failed: behavior_log_revisions.revision_id'')
         else Inr (db\<lparr>behavior_log_revisions := behavior_log_revisions db @ [r]\<rparr>))"

section \<open>Revisions and behaviour logs\<close>

definition record_revision ::
    "env \<Rightarrow> string \<Rightarrow> string \<Rightarrow> 'a action_db_scheme \<Rightarrow> ('a action_db_scheme) res" where
  "record_revision E action_id reason db =
     res_bind (get_action_row action_id db) (\<lambda>row.
       let n = next_revision (map ar_revision_number
                 (filter (\<lambda>q. ar_action_id q = action_id) (action_revisions db)));
           (rid, db1) = new_id E ''arev'' db;
           (now, db2) = utc_now E db1
       in insert_action_revision \<lparr>ar_revision_id = rid, ar_action_id = ac_action_id row,
            ar_subject_id = ac_subject_id row, ar_revision_number = n, ar_status = ac_status row,
            ar_state_hash = action_state_hash E row, ar_reason = reason, ar_created_at = now\<rparr> db2)"

definition append_behavior_log_revision ::
    "env \<Rightarrow> behavior_log_row \<Rightarrow> string \<Rightarrow> string \<Rightarrow> string \<Rightarrow> string \<Rightarrow> string
      \<Rightarrow> 'a action_db_scheme \<Rightarrow> ('a action_db_scheme) res" where
  "append_behavior_log_revision E source occurred_at result_status side_effect_summary public_explanation reason db =
     (let n = next_revision (map br_revision_number
                (filter (\<lambda>q. br_log_id q = bl_log_id source) (behavior_log_revisions db)));
          l = source\<lparr>bl_occurred_at := occurred_at, bl_result_status := result_status,
                bl_side_effect_summary := side_effect_summary, bl_public_explanation := public_explanation\<rparr>;
          (rid, db1) = new_id E ''brev'' db;
          (now, db2) = utc_now E db1
      in insert_behavior_revision \<lparr>br_revision_id = rid, br_revision_number = n, br_log = l,
           br_state_hash = behavior_log_state_hash E l n reason, br_reason = reason, br_created_at = now\<rparr> db2)"

record public_summary =
  ps_goal_reference :: "string option"
  ps_target :: "string option"
  ps_side_effect :: string
  ps_resource :: string
  ps_explanation :: string
  ps_redaction_reason :: "string option"

definition new_behavior_log :: "string \<Rightarrow> action_row \<Rightarrow> string \<Rightarrow> string \<Rightarrow> public_summary \<Rightarrow> behavior_log_row" where
  "new_behavior_log log_id row completed_at result_status s =
     (let target_is_private = opt_blank (ps_target s)
      in \<lparr>bl_log_id = log_id, bl_action_id = ac_action_id row, bl_subject_id = ac_subject_id row,
          bl_occurred_at = completed_at, bl_action_type = ac_action_type row,
          bl_public_goal_reference = ps_goal_reference s, bl_tool = ac_tool row,
          bl_public_target = (if target_is_private then ''[private]'' else the (ps_target s)),
          bl_result_status = result_status, bl_side_effect_summary = ps_side_effect s,
          bl_resource_summary = ps_resource s, bl_public_explanation = ps_explanation s,
          bl_redaction_reason = (if target_is_private \<and> ps_redaction_reason s = None
             then Some ''target withheld by default'' else ps_redaction_reason s)\<rparr>)"

definition insert_behavior_log ::
    "env \<Rightarrow> action_row \<Rightarrow> string \<Rightarrow> string \<Rightarrow> public_summary \<Rightarrow> 'a action_db_scheme \<Rightarrow> ('a action_db_scheme) res" where
  "insert_behavior_log E row completed_at result_status s db =
     (let (log_id, db1) = new_id E ''blog'' db;
          l = new_behavior_log log_id row completed_at result_status s
      in res_bind (insert_behavior_log_row l db1) (\<lambda>db2.
         append_behavior_log_revision E l completed_at result_status (ps_side_effect s) (ps_explanation s)
           ''initial outcome recorded'' db2))"

section \<open>Operations\<close>

record action_args =
  aa_subject_id :: string
  aa_action_type :: string
  aa_tool :: string
  aa_target :: string
  aa_input :: json
  aa_goal_id :: "string option"
  aa_project_id :: "string option"
  aa_phase_id :: "string option"
  aa_strategy_id :: "string option"
  aa_expected_outcome :: string
  aa_side_effect :: bool
  aa_resource_cost :: "json option"
  aa_idempotency_key :: "string option"

text \<open>\<open>resource_cost or {}\<close> and the default idempotency key.\<close>

definition effective_cost :: "action_args \<Rightarrow> json" where
  "effective_cost a = (case aa_resource_cost a of None \<Rightarrow> JObj [] | Some v \<Rightarrow> v)"

definition effective_key :: "env \<Rightarrow> action_args \<Rightarrow> string" where
  "effective_key E a =
     (case aa_idempotency_key a of
        Some k \<Rightarrow> k
      | None \<Rightarrow> content_hash (env_sha256 E)
          (JObj [(''subject_id'', JStr (aa_subject_id a)), (''action_type'', JStr (aa_action_type a)),
                 (''tool'', JStr (aa_tool a)), (''target'', JStr (aa_target a)), (''input'', aa_input a)]))"

definition check_action_scope :: "action_args \<Rightarrow> 'a action_db_scheme \<Rightarrow> unit res" where
  "check_action_scope a db =
     (let sid = aa_subject_id a in
      if (case aa_goal_id a of None \<Rightarrow> False | Some g \<Rightarrow>
            (case fetchone (\<lambda>r. fst r = g) (goals db) of None \<Rightarrow> True | Some r \<Rightarrow> snd r \<noteq> sid))
      then Inl (PermissionError ''action goal is missing or belongs to another subject'')
      else if (case aa_project_id a of None \<Rightarrow> False | Some p \<Rightarrow>
            (case fetchone (\<lambda>r. fst r = p) (autonomous_projects db) of None \<Rightarrow> True | Some r \<Rightarrow> snd r \<noteq> sid))
      then Inl (PermissionError ''action project is missing or belongs to another subject'')
      else if (case aa_phase_id a of None \<Rightarrow> False | Some ph \<Rightarrow>
            (case fetchone (\<lambda>r. fst r = ph) (autonomous_project_phases db) of None \<Rightarrow> True
             | Some r \<Rightarrow>
                 (case fetchone (\<lambda>q. fst q = snd r) (autonomous_projects db) of None \<Rightarrow> True
                  | Some q \<Rightarrow> snd q \<noteq> sid \<or> (case aa_project_id a of None \<Rightarrow> False | Some p \<Rightarrow> snd r \<noteq> p))))
      then Inl (PermissionError ''action phase is missing or outside the subject project'')
      else Inr ())"

definition retry_blocked :: "action_args \<Rightarrow> 'a action_db_scheme \<Rightarrow> bool" where
  "retry_blocked a db =
     (\<exists>b\<in>set (retry_blocks db). rb_subject_id b = aa_subject_id a \<and> rb_status b = ''active''
        \<and> rb_tool b = aa_tool a \<and> rb_target b = aa_target a
        \<and> (rb_goal_id b = None \<or> rb_goal_id b = aa_goal_id a)
        \<and> (rb_strategy_id b = None \<or> rb_strategy_id b = aa_strategy_id a))"

text \<open>\<open>require_evidence_capacity(connection, subject_id, "actions")\<close>, for a limit of \<open>max_rows\<close>.\<close>

definition require_action_capacity :: "nat \<Rightarrow> string \<Rightarrow> 'a action_db_scheme \<Rightarrow> unit res" where
  "require_action_capacity max_rows sid db =
     (if sid \<notin> set (subject_identity db)
      then Inl (SqliteIntegrityError ''evidence subject does not exist'')
      else if count_where (\<lambda>r. ac_subject_id r = sid) (actions db) \<ge> max_rows
           \<or> count_where (\<lambda>r. bl_subject_id r = sid) (behavior_logs db) \<ge> max_rows
      then Inl (InvalidTransitionError ''evidence_capacity_reached'') else Inr ())"

definition same_action :: "env \<Rightarrow> action_args \<Rightarrow> action_row \<Rightarrow> bool" where
  "same_action E a row =
     (ac_action_type row = aa_action_type a \<and> ac_tool row = aa_tool a \<and> ac_target row = aa_target a
      \<and> ac_input_hash row = content_hash (env_sha256 E) (aa_input a)
      \<and> ac_side_effect row = aa_side_effect a \<and> ac_project_id row = aa_project_id a
      \<and> ac_phase_id row = aa_phase_id a)"

definition new_action_row :: "env \<Rightarrow> action_args \<Rightarrow> string \<Rightarrow> string \<Rightarrow> action_row" where
  "new_action_row E a action_id prepared_at =
     \<lparr>ac_action_id = action_id, ac_subject_id = aa_subject_id a, ac_goal_id = aa_goal_id a,
      ac_project_id = aa_project_id a, ac_phase_id = aa_phase_id a, ac_strategy_id = aa_strategy_id a,
      ac_action_type = aa_action_type a, ac_tool = aa_tool a, ac_target = aa_target a,
      ac_input_hash = content_hash (env_sha256 E) (aa_input a), ac_idempotency_key = effective_key E a,
      ac_expected_outcome = aa_expected_outcome a, ac_side_effect = aa_side_effect a,
      ac_status = ''prepared'', ac_retry_count = 0,
      ac_resource_cost_json = canonical_json (effective_cost a), ac_result_json = None,
      ac_prepared_at = prepared_at, ac_started_at = None, ac_completed_at = None\<rparr>"

definition prepare_new ::
    "env \<Rightarrow> nat \<Rightarrow> action_args \<Rightarrow> 'a action_db_scheme \<Rightarrow> (action_record \<times> 'a action_db_scheme) res" where
  "prepare_new E max_rows a db =
     res_bind (require_action_capacity max_rows (aa_subject_id a) db) (\<lambda>_.
     let (action_id, db1) = new_id E ''act'' db;
         (prepared_at, db2) = utc_now E db1
     in res_bind (insert_action (new_action_row E a action_id prepared_at) db2) (\<lambda>db3.
        res_bind (record_revision E action_id ''prepared'' db3) (\<lambda>db4.
        res_bind (load_action action_id db4) (\<lambda>r. Inr (r, db4)))))"

definition prepare ::
    "env \<Rightarrow> nat \<Rightarrow> action_args \<Rightarrow> 'a action_db_scheme \<Rightarrow> (action_record \<times> 'a action_db_scheme) res" where
  "prepare E max_rows a db =
     (if blank (aa_action_type a) \<or> blank (aa_tool a) \<or> blank (aa_target a)
      then Inl (ValueError ''action_type, tool and target are required'')
      else if (case aa_idempotency_key a of None \<Rightarrow> False | Some k \<Rightarrow> blank k)
      then Inl (ValueError ''idempotency_key cannot be blank'')
      else res_bind (check_action_scope a db) (\<lambda>_.
        let state = (case runtime_of (aa_subject_id a) db of None \<Rightarrow> [] | Some r \<Rightarrow> rt_state r) in
        if state \<in> set sleep_states
        then Inl (InvalidTransitionError (''new actions are disabled while lifecycle is '' @ state))
        else if retry_blocked a db
        then Inl (InvalidTransitionError ''this strategy is blocked until genuinely new evidence is recorded'')
        else case fetchone (\<lambda>r. ac_subject_id r = aa_subject_id a \<and> ac_idempotency_key r = effective_key E a)
               (actions db) of
            Some existing \<Rightarrow>
              if \<not> same_action E a existing
              then Inl (DuplicateActionError ''idempotency key already identifies a different action'')
              else res_bind (action_from_row existing) (\<lambda>r. Inr (r, db))
          | None \<Rightarrow> prepare_new E max_rows a db))"

definition update_action ::
    "string \<Rightarrow> (action_row \<Rightarrow> action_row) \<Rightarrow> 'a action_db_scheme \<Rightarrow> 'a action_db_scheme" where
  "update_action action_id f db = db\<lparr>actions := update_where (\<lambda>r. ac_action_id r = action_id) f (actions db)\<rparr>"

definition start ::
    "env \<Rightarrow> string \<Rightarrow> 'a action_db_scheme \<Rightarrow> (action_record \<times> 'a action_db_scheme) res" where
  "start E action_id db =
     res_bind (get_action_row action_id db) (\<lambda>row.
       if ac_status row \<noteq> ''prepared''
       then Inl (InvalidTransitionError (''cannot start action in state '' @ ac_status row))
       else
         let (now, db1) = utc_now E db;
             db2 = update_action action_id (\<lambda>r. r\<lparr>ac_status := ''executing'',
                     ac_retry_count := ac_retry_count r + 1, ac_started_at := Some now, ac_completed_at := None\<rparr>) db1
         in res_bind (record_revision E action_id ''started'' db2) (\<lambda>db3.
            res_bind (load_action action_id db3) (\<lambda>r. Inr (r, db3))))"

definition complete_action :: "string \<Rightarrow> json \<Rightarrow> string \<Rightarrow> action_row \<Rightarrow> action_row" where
  "complete_action status result completed_at r =
     r\<lparr>ac_status := status, ac_result_json := Some (canonical_json result), ac_completed_at := Some completed_at\<rparr>"

definition finish ::
    "env \<Rightarrow> string \<Rightarrow> string \<Rightarrow> json \<Rightarrow> public_summary \<Rightarrow> 'a action_db_scheme
      \<Rightarrow> (action_record \<times> 'a action_db_scheme) res" where
  "finish E action_id status result s db =
     (if status \<notin> set executor_completion_states
      then Inl (ValueError (''invalid action completion status: '' @ status))
      else res_bind (get_action_row action_id db) (\<lambda>row.
        if ac_status row \<noteq> ''executing''
        then Inl (InvalidTransitionError (''cannot finish action in state '' @ ac_status row))
        else
          let (completed_at, db1) = utc_now E db;
              db2 = update_action action_id (complete_action status result completed_at) db1
          in res_bind (insert_behavior_log E row completed_at status s db2) (\<lambda>db3.
             res_bind (record_revision E action_id ''finished'' db3) (\<lambda>db4.
             res_bind (load_action action_id db4) (\<lambda>r. Inr (r, db4))))))"

definition cancel ::
    "env \<Rightarrow> string \<Rightarrow> string \<Rightarrow> 'a action_db_scheme \<Rightarrow> (action_record \<times> 'a action_db_scheme) res" where
  "cancel E action_id reason db =
     (if blank reason then Inl (ValueError ''cancellation reason is required'')
      else res_bind (get_action_row action_id db) (\<lambda>row.
        if ac_status row \<noteq> ''prepared''
        then Inl (InvalidTransitionError (''cannot cancel action in state '' @ ac_status row))
        else
          let (completed_at, db1) = utc_now E db;
              db2 = update_action action_id
                (complete_action ''cancelled'' (JObj [(''reason'', JStr reason)]) completed_at) db1
          in res_bind (insert_behavior_log E row completed_at ''cancelled''
                \<lparr>ps_goal_reference = None, ps_target = None, ps_side_effect = ''none'', ps_resource = ''none'',
                 ps_explanation = reason, ps_redaction_reason = None\<rparr> db2) (\<lambda>db3.
             res_bind (record_revision E action_id ''cancelled'' db3) (\<lambda>db4.
             res_bind (load_action action_id db4) (\<lambda>r. Inr (r, db4))))))"

definition recover_one ::
    "env \<Rightarrow> action_row \<Rightarrow> action_record list \<times> 'a action_db_scheme
      \<Rightarrow> (action_record list \<times> 'a action_db_scheme) res" where
  "recover_one E row acc =
     (case acc of (recovered, db) \<Rightarrow>
        let (completed_at, db1) = utc_now E db;
            result = JObj [(''recovery'', JStr ''process ended before completion was durably recorded''),
                           (''side_effect_may_have_occurred'', JBool (ac_side_effect row))];
            db2 = db1\<lparr>actions := update_where
                    (\<lambda>r. ac_action_id r = ac_action_id row \<and> ac_status r = ''executing'')
                    (complete_action ''unknown'' result completed_at) (actions db1)\<rparr>
        in res_bind (insert_behavior_log E row completed_at ''unknown''
              \<lparr>ps_goal_reference = None, ps_target = None,
               ps_side_effect = (if ac_side_effect row then ''completion unknown; side effect may have occurred''
                                 else ''completion unknown''),
               ps_resource = ''unavailable after interruption'',
               ps_explanation = ''Action outcome requires reconciliation after restart.'',
               ps_redaction_reason = None\<rparr> db2) (\<lambda>db3.
           res_bind (record_revision E (ac_action_id row) ''recovered'' db3) (\<lambda>db4.
           res_bind (load_action (ac_action_id row) db4) (\<lambda>r. Inr (recovered @ [r], db4)))))"

definition recover_interrupted ::
    "env \<Rightarrow> string \<Rightarrow> 'a action_db_scheme \<Rightarrow> (action_record list \<times> 'a action_db_scheme) res" where
  "recover_interrupted E sid db =
     res_fold (recover_one E)
       (fetchall_by (\<lambda>r. ac_subject_id r = sid \<and> ac_status r = ''executing'')
          (\<lambda>r. (ac_prepared_at r, ac_action_id r)) (actions db)) ([], db)"

definition latest_behavior_revision :: "string \<Rightarrow> 'a action_db_scheme \<Rightarrow> behavior_revision_row option" where
  "latest_behavior_revision log_id db =
     (case fetchall_by (\<lambda>r. br_log_id r = log_id) br_revision_number (behavior_log_revisions db) of
        [] \<Rightarrow> None | rs \<Rightarrow> Some (last rs))"

definition reconcile_unknown ::
    "env \<Rightarrow> string \<Rightarrow> string \<Rightarrow> json \<Rightarrow> string \<Rightarrow> string option \<Rightarrow> 'a action_db_scheme
      \<Rightarrow> (action_record \<times> 'a action_db_scheme) res" where
  "reconcile_unknown E action_id status result public_explanation side_effect_summary db =
     (if status \<notin> set reconciliation_states
      then Inl (ValueError (''invalid reconciliation status: '' @ status))
      else res_bind (get_action_row action_id db) (\<lambda>row.
        if ac_status row \<noteq> ''unknown''
        then Inl (InvalidTransitionError (''cannot reconcile action in state '' @ ac_status row))
        else case fetchone (\<lambda>l. bl_action_id l = action_id) (behavior_logs db) of
            None \<Rightarrow> Inl (NotFoundError (''behavior log not found for action: '' @ action_id))
          | Some log \<Rightarrow>
              (case latest_behavior_revision (bl_log_id log) db of
                 None \<Rightarrow> Inl (NotFoundError (''behavior log revision not found for action: '' @ action_id))
               | Some latest \<Rightarrow>
                   let (completed_at, db1) = utc_now E db;
                       db2 = update_action action_id (complete_action status result completed_at) db1
                   in res_bind (append_behavior_log_revision E (br_log latest) completed_at status
                        (case side_effect_summary of None \<Rightarrow> bl_side_effect_summary (br_log latest) | Some t \<Rightarrow> t)
                        public_explanation ''unknown outcome reconciled'' db2) (\<lambda>db3.
                      res_bind (record_revision E action_id ''reconciled'' db3) (\<lambda>db4.
                      res_bind (load_action action_id db4) (\<lambda>r. Inr (r, db4)))))))"

definition recoverable :: "string \<Rightarrow> 'a action_db_scheme \<Rightarrow> action_record list res" where
  "recoverable sid db =
     res_map action_from_row (fetchall_by
       (\<lambda>r. ac_subject_id r = sid \<and> ac_status r \<in> {''prepared'', ''unknown''})
       (\<lambda>r. (ac_prepared_at r, ac_action_id r)) (actions db))"

text \<open>The public view: each log with its latest revision, newest first.\<close>

definition list_behavior_logs ::
    "string \<Rightarrow> int \<Rightarrow> 'a action_db_scheme \<Rightarrow> (behavior_log_row \<times> behavior_revision_row) list" where
  "list_behavior_logs sid limit db =
     take (clamp_limit limit) (rev (sort_key (\<lambda>(l, r). (bl_occurred_at (br_log r), bl_log_id l))
       (List.map_filter (\<lambda>l. map_option (Pair l) (latest_behavior_revision (bl_log_id l) db))
         (filter (\<lambda>l. bl_subject_id l = sid) (behavior_logs db)))))"

section \<open>Verification\<close>

fun check_numbers :: "py_error \<Rightarrow> ('r \<Rightarrow> int) \<Rightarrow> ('r \<Rightarrow> py_error option) \<Rightarrow> int \<Rightarrow> 'r list \<Rightarrow> unit res" where
  "check_numbers mismatch num bad expected [] = Inr ()"
| "check_numbers mismatch num bad expected (r # rs) =
     (if num r \<noteq> expected then Inl mismatch
      else case bad r of Some e \<Rightarrow> Inl e | None \<Rightarrow> check_numbers mismatch num bad (expected + 1) rs)"

definition verify_behavior_history ::
    "env \<Rightarrow> string \<Rightarrow> action_row \<Rightarrow> behavior_log_row \<Rightarrow> behavior_revision_row list \<Rightarrow> unit res" where
  "verify_behavior_history E sid action log history =
     (let aid = ac_action_id action
      in if history = [] then Inl (IntegrityError (''behavior log revision history is missing: '' @ aid))
         else if length history > 2 then Inl (IntegrityError (''behavior log revision count is invalid: '' @ aid))
         else res_bind (check_numbers (IntegrityError (''behavior log revision sequence mismatch: '' @ aid))
             br_revision_number
             (\<lambda>r. if bl_action_id (br_log r) \<noteq> aid \<or> bl_subject_id (br_log r) \<noteq> sid
                    \<or> br_state_hash r \<noteq> behavior_log_state_hash E (br_log r) (br_revision_number r) (br_reason r)
                  then Some (IntegrityError (''behavior log revision integrity mismatch: '' @ aid)) else None)
             1 history) (\<lambda>_.
           let baseline = br_log (hd history); newest = br_log (last history)
           in if length history = 2 \<and> (bl_result_status baseline \<noteq> ''unknown'' \<or> bl_result_status newest = ''unknown'')
              then Inl (IntegrityError (''behavior log reconciliation baseline mismatch: '' @ aid))
              else if length history = 2 \<and> stable_fields baseline \<noteq> stable_fields newest
              then Inl (IntegrityError (''behavior log reconciliation fields changed: '' @ aid))
              else if baseline \<noteq> log then Inl (IntegrityError (''behavior log baseline mismatch: '' @ aid))
              else if bl_result_status newest \<noteq> ac_status action
              then Inl (IntegrityError (''behavior log status mismatch: '' @ aid))
              else Inr ()))"

definition verify_action ::
    "env \<Rightarrow> string \<Rightarrow> action_revision_row list \<Rightarrow> behavior_log_row list \<Rightarrow> behavior_revision_row list
      \<Rightarrow> action_row \<Rightarrow> unit res" where
  "verify_action E sid revisions logs behavior_revisions action =
     (let aid = ac_action_id action; history = filter (\<lambda>r. ar_action_id r = aid) revisions
      in res_bind (action_from_row action) (\<lambda>_.
         if history = [] then Inl (IntegrityError (''action revision history is missing: '' @ aid))
         else res_bind (check_numbers (IntegrityError (''action revision sequence mismatch: '' @ aid))
             ar_revision_number
             (\<lambda>r. if ar_subject_id r \<noteq> sid \<or> ar_status r \<notin> set action_states
                  then Some (IntegrityError (''action revision ownership mismatch: '' @ aid)) else None)
             1 history) (\<lambda>_.
           if ar_status (last history) \<noteq> ac_status action \<or> ar_state_hash (last history) \<noteq> action_state_hash E action
           then Inl (IntegrityError (''action revision hash mismatch: '' @ aid))
           else
             let action_logs = filter (\<lambda>l. bl_action_id l = aid) logs
             in if ac_status action \<in> set executor_completion_states \<and> length action_logs \<noteq> 1
                then Inl (IntegrityError (''terminal action behavior log mismatch: '' @ aid))
                else if ac_status action \<notin> set executor_completion_states \<and> action_logs \<noteq> []
                then Inl (IntegrityError (''nonterminal action has behavior log: '' @ aid))
                else case action_logs of
                    [] \<Rightarrow> Inr ()
                  | log # _ \<Rightarrow> verify_behavior_history E sid action log
                      (filter (\<lambda>r. br_log_id r = bl_log_id log) behavior_revisions))))"

definition verify_integrity :: "env \<Rightarrow> string \<Rightarrow> 'a action_db_scheme \<Rightarrow> (nat \<times> nat \<times> nat \<times> nat) res" where
  "verify_integrity E sid db =
     (let acts = fetchall_by (\<lambda>r. ac_subject_id r = sid) (\<lambda>r. (ac_prepared_at r, ac_action_id r)) (actions db);
          revisions = fetchall_by (\<lambda>r. ar_subject_id r = sid) (\<lambda>r. (ar_action_id r, ar_revision_number r))
            (action_revisions db);
          logs = fetchall_by (\<lambda>l. bl_subject_id l = sid) (\<lambda>l. (bl_occurred_at l, bl_log_id l)) (behavior_logs db);
          brevs = fetchall_by (\<lambda>r. bl_subject_id (br_log r) = sid) (\<lambda>r. (br_log_id r, br_revision_number r))
            (behavior_log_revisions db)
      in res_bind (res_all (verify_action E sid revisions logs brevs) acts) (\<lambda>_.
         res_bind (res_all (\<lambda>l. if bl_action_id l \<notin> ac_action_id ` set acts
             then Inl (IntegrityError (''behavior log ownership mismatch: '' @ bl_action_id l)) else Inr ()) logs) (\<lambda>_.
         Inr (length acts, length revisions, length logs, length brevs))))"

section \<open>The invariant of the ledger\<close>

interpretation action_log: revision_log action_revisions ar_action_id ar_revision_number insert_action_revision
  by unfold_locales (auto simp: insert_action_revision_def split: if_splits)

interpretation behavior_log: revision_log behavior_log_revisions br_log_id br_revision_number insert_behavior_revision
  by unfold_locales (auto simp: insert_behavior_revision_def Let_def split: if_splits)

definition behavior_ok :: "env \<Rightarrow> 'a action_db_scheme \<Rightarrow> action_row \<Rightarrow> behavior_log_row \<Rightarrow> bool" where
  "behavior_ok E db a l =
     (let h = behavior_log.history (bl_log_id l) db
      in bl_subject_id l = ac_subject_id a \<and> h \<noteq> [] \<and> length h \<le> 2 \<and> contiguous (map br_revision_number h)
         \<and> (\<forall>r\<in>set h. bl_action_id (br_log r) = ac_action_id a \<and> bl_subject_id (br_log r) = ac_subject_id a
              \<and> br_state_hash r = behavior_log_state_hash E (br_log r) (br_revision_number r) (br_reason r))
         \<and> (length h = 2 \<longrightarrow> bl_result_status (br_log (hd h)) = ''unknown'' \<and> bl_result_status (br_log (last h)) \<noteq> ''unknown''
              \<and> stable_fields (br_log (hd h)) = stable_fields (br_log (last h)))
         \<and> br_log (hd h) = l \<and> bl_result_status (br_log (last h)) = ac_status a)"

definition action_ok :: "env \<Rightarrow> 'a action_db_scheme \<Rightarrow> action_row \<Rightarrow> bool" where
  "action_ok E db a =
     (let h = action_log.history (ac_action_id a) db;
          ls = filter (\<lambda>l. bl_action_id l = ac_action_id a) (behavior_logs db)
      in is_ok (action_from_row a) \<and> h \<noteq> [] \<and> contiguous (map ar_revision_number h)
         \<and> (\<forall>r\<in>set h. ar_subject_id r = ac_subject_id a \<and> ar_status r \<in> set action_states)
         \<and> ar_status (last h) = ac_status a \<and> ar_state_hash (last h) = action_state_hash E a
         \<and> (if ac_status a \<in> set executor_completion_states then \<exists>l. ls = [l] \<and> behavior_ok E db a l else ls = []))"

definition retry_ok :: "action_row \<Rightarrow> bool" where
  "retry_ok a =
     (if ac_status a = ''prepared'' then ac_retry_count a = 0
      else if ac_status a = ''executing'' then ac_retry_count a = 1
      else ac_retry_count a \<in> {0, 1})"

definition ledger_inv :: "env \<Rightarrow> 'a action_db_scheme \<Rightarrow> bool" where
  "ledger_inv E db =
     (distinct (map ac_action_id (actions db)) \<and> distinct (map bl_log_id (behavior_logs db))
      \<and> (\<forall>a\<in>set (actions db). action_ok E db a \<and> retry_ok a)
      \<and> (\<forall>l\<in>set (behavior_logs db). \<exists>a\<in>set (actions db). ac_action_id a = bl_action_id l \<and> ac_subject_id a = bl_subject_id l)
      \<and> (\<forall>r\<in>set (action_revisions db). ar_action_id r \<in> ac_action_id ` set (actions db))
      \<and> (\<forall>r\<in>set (behavior_log_revisions db). br_log_id r \<in> bl_log_id ` set (behavior_logs db)))"

section \<open>The invariant passes verification\<close>

lemma check_numbers_ok:
  assumes "contiguous (map num rs)" "\<And>r. r \<in> set rs \<Longrightarrow> bad r = None"
  shows "check_numbers m num bad 1 rs = Inr ()"
proof -
  have "check_numbers m num bad n rs = Inr ()"
    if "\<forall>i<length rs. num (rs ! i) = n + int i" "\<And>r. r \<in> set rs \<Longrightarrow> bad r = None" for n rs
    using that
  proof (induction rs arbitrary: n)
    case (Cons r rs)
    have "num (rs ! i) = n + 1 + int i" if "i < length rs" for i
      using Cons.prems(1) that by (auto dest!: spec [of _ "Suc i"])
    moreover have "num r = n" using Cons.prems(1) by (auto dest!: spec [of _ 0])
    ultimately show ?case using Cons by simp
  qed simp
  moreover have "num (rs ! i) = 1 + int i" if "i < length rs" for i
    using contiguous_nth [OF assms(1), of i] that by simp
  ultimately show ?thesis using assms(2) by blast
qed

text \<open>Grouping a subject's rows by key gives the histories of its own keys.\<close>

lemma grouped_history:
  assumes "contiguous (map num (filter (\<lambda>r. key r = k) rows))"
    and "\<And>r. r \<in> set rows \<Longrightarrow> key r = k \<Longrightarrow> owner r = sid"
  shows "filter (\<lambda>r. key r = k) (fetchall_by (\<lambda>r. owner r = sid) (\<lambda>r. (key r, num r)) rows)
    = filter (\<lambda>r. key r = k) rows"
proof -
  have "filter (\<lambda>r. key r = k) (filter (\<lambda>r. owner r = sid) rows) = filter (\<lambda>r. key r = k) rows"
    unfolding filter_filter using assms(2) by (intro filter_cong) auto
  moreover have "map (\<lambda>r. (key r, num r)) (filter (\<lambda>r. key r = k) rows)
      = map (Pair k) (map num (filter (\<lambda>r. key r = k) rows))" by simp
  then have "sorted (map (\<lambda>r. (key r, num r)) (filter (\<lambda>r. key r = k) rows))"
    using contiguous_sorted [OF assms(1)] by (simp only:) (simp add: sorted_map comp_def)
  ultimately show ?thesis
    by (simp add: fetchall_by_def filter_sort sort_key_id_if_sorted del: filter_filter)
qed


lemma filter_subset_cong:
  assumes "\<And>x. x \<in> set xs \<Longrightarrow> p x \<Longrightarrow> q x"
  shows "filter p (filter q xs) = filter p xs"
  unfolding filter_filter using assms by (intro filter_cong) auto

lemma single_filter_sort:
  assumes "filter p xs = ys" "length ys \<le> 1" "\<And>x. x \<in> set xs \<Longrightarrow> p x \<Longrightarrow> q x"
  shows "filter p (fetchall_by q k xs) = ys"
proof -
  have "filter p (fetchall_by q k xs) = sort_key k ys"
    using assms(1) filter_subset_cong [of xs p q] assms(3) by (simp add: fetchall_by_def filter_sort)
  moreover have "sort_key k ys = ys" using assms(2) by (cases ys; cases "tl ys") auto
  ultimately show ?thesis by simp
qed

lemma verify_action_ok:
  assumes inv: "ledger_inv E db" and a: "a \<in> set (actions db)" "ac_subject_id a = sid"
  shows "verify_action E sid
      (fetchall_by (\<lambda>r. ar_subject_id r = sid) (\<lambda>r. (ar_action_id r, ar_revision_number r)) (action_revisions db))
      (fetchall_by (\<lambda>l. bl_subject_id l = sid) (\<lambda>l. (bl_occurred_at l, bl_log_id l)) (behavior_logs db))
      (fetchall_by (\<lambda>r. bl_subject_id (br_log r) = sid) (\<lambda>r. (br_log_id r, br_revision_number r))
        (behavior_log_revisions db)) a = Inr ()"
proof -
  let ?h = "filter (\<lambda>r. ar_action_id r = ac_action_id a) (action_revisions db)"
  let ?ls = "filter (\<lambda>l. bl_action_id l = ac_action_id a) (behavior_logs db)"
  from inv a have ok: "is_ok (action_from_row a)" "?h \<noteq> []" "contiguous (map ar_revision_number ?h)"
      "\<forall>r\<in>set ?h. ar_subject_id r = sid \<and> ar_status r \<in> set action_states"
      "ar_status (last ?h) = ac_status a" "ar_state_hash (last ?h) = action_state_hash E a"
    and logs: "if ac_status a \<in> set executor_completion_states then \<exists>l. ?ls = [l] \<and> behavior_ok E db a l else ?ls = []"
    by (auto simp: ledger_inv_def action_ok_def action_log.history_def Let_def)
  have hist: "filter (\<lambda>r. ar_action_id r = ac_action_id a)
      (fetchall_by (\<lambda>r. ar_subject_id r = sid) (\<lambda>r. (ar_action_id r, ar_revision_number r)) (action_revisions db)) = ?h"
    using ok(3,4) by (intro grouped_history) auto
  have sub: "bl_subject_id l = sid" if "l \<in> set (behavior_logs db)" "bl_action_id l = ac_action_id a" for l
    using inv that a unfolding ledger_inv_def by (metis distinct_key_eq)
  have ls: "filter (\<lambda>l. bl_action_id l = ac_action_id a)
      (fetchall_by (\<lambda>l. bl_subject_id l = sid) (\<lambda>l. (bl_occurred_at l, bl_log_id l)) (behavior_logs db)) = ?ls"
    using logs sub by (intro single_filter_sort) (auto split: if_splits)
  have num: "check_numbers m ar_revision_number
      (\<lambda>r. if ar_subject_id r \<noteq> sid \<or> ar_status r \<notin> set action_states then Some e else None) 1 ?h = Inr ()" for m e
    using ok(3,4) by (intro check_numbers_ok) auto
  obtain v where v: "action_from_row a = Inr v" using ok(1) by (auto simp: is_ok_iff)
  show ?thesis
  proof (cases "ac_status a \<in> set executor_completion_states")
    case False
    with logs ok num v show ?thesis by (simp add: verify_action_def Let_def hist ls)
  next
    case True
    with logs obtain l where l: "?ls = [l]" and b: "behavior_ok E db a l" by auto
    let ?b = "filter (\<lambda>r. br_log_id r = bl_log_id l) (behavior_log_revisions db)"
    from b have bh: "filter (\<lambda>r. br_log_id r = bl_log_id l) (fetchall_by (\<lambda>r. bl_subject_id (br_log r) = sid)
        (\<lambda>r. (br_log_id r, br_revision_number r)) (behavior_log_revisions db)) = ?b"
      using a(2) by (intro grouped_history) (auto simp: behavior_ok_def behavior_log.history_def Let_def)
    from b a(2) have "verify_behavior_history E sid a l ?b = Inr ()"
      by (auto simp: verify_behavior_history_def behavior_ok_def behavior_log.history_def Let_def
          intro!: check_numbers_ok)
    with True l ok num v show ?thesis by (simp add: verify_action_def Let_def hist ls bh)
  qed
qed

lemma ledger_inv_verifies:
  assumes "ledger_inv E db"
  shows "is_ok (verify_integrity E sid db)"
proof -
  let ?acts = "fetchall_by (\<lambda>r. ac_subject_id r = sid) (\<lambda>r. (ac_prepared_at r, ac_action_id r)) (actions db)"
  have "\<forall>a\<in>set ?acts. a \<in> set (actions db) \<and> ac_subject_id a = sid" by (simp add: fetchall_by_def)
  then have 1: "\<forall>a\<in>set ?acts. verify_action E sid
      (fetchall_by (\<lambda>r. ar_subject_id r = sid) (\<lambda>r. (ar_action_id r, ar_revision_number r)) (action_revisions db))
      (fetchall_by (\<lambda>l. bl_subject_id l = sid) (\<lambda>l. (bl_occurred_at l, bl_log_id l)) (behavior_logs db))
      (fetchall_by (\<lambda>r. bl_subject_id (br_log r) = sid) (\<lambda>r. (br_log_id r, br_revision_number r))
        (behavior_log_revisions db)) a = Inr ()"
    using verify_action_ok [OF assms] by blast
  have 2: "bl_action_id l \<in> ac_action_id ` set ?acts"
    if "l \<in> set (behavior_logs db)" "bl_subject_id l = sid" for l
  proof -
    from assms that obtain a where "a \<in> set (actions db)" "ac_action_id a = bl_action_id l" "ac_subject_id a = sid"
      unfolding ledger_inv_def by metis
    then show ?thesis by (force simp: fetchall_by_def)
  qed
  have "res_all (\<lambda>l. if bl_action_id l \<notin> ac_action_id ` set ?acts
             then Inl (IntegrityError (''behavior log ownership mismatch: '' @ bl_action_id l)) else Inr ())
      (fetchall_by (\<lambda>l. bl_subject_id l = sid) (\<lambda>l. (bl_occurred_at l, bl_log_id l)) (behavior_logs db)) = Inr ()"
    unfolding res_all_ok using 2 by (auto simp: fetchall_by_def)
  with 1 show ?thesis unfolding verify_integrity_def Let_def by (simp add: res_all_ok [THEN iffD2])
qed

section \<open>What the operations change\<close>

text \<open>
  The common shape: the row of one action is rewritten by \<open>f\<close>, some behaviour logs and
  revisions are appended, and the new row is recorded as the action's next revision.
\<close>

definition ledger_change ::
    "env \<Rightarrow> string \<Rightarrow> (action_row \<Rightarrow> action_row) \<Rightarrow> behavior_log_row list \<Rightarrow> behavior_revision_row list
      \<Rightarrow> 'a action_db_scheme \<Rightarrow> 'a action_db_scheme \<Rightarrow> bool" where
  "ledger_change E aid f nl nb db db' =
     (\<exists>row rev. fetchone (\<lambda>r. ac_action_id r = aid) (actions db) = Some row
       \<and> actions db' = update_where (\<lambda>r. ac_action_id r = aid) f (actions db)
       \<and> action_revisions db' = action_revisions db @ [rev]
       \<and> ar_action_id rev = aid \<and> ar_subject_id rev = ac_subject_id row \<and> ar_status rev = ac_status (f row)
       \<and> ar_state_hash rev = action_state_hash E (f row)
       \<and> ar_revision_number rev = next_revision (map ar_revision_number (action_log.history aid db))
       \<and> behavior_logs db' = behavior_logs db @ nl
       \<and> behavior_log_revisions db' = behavior_log_revisions db @ nb
       \<and> is_ok (action_from_row (f row)))"

text \<open>\<open>record_revision\<close> and \<open>load_action\<close>, with which every operation ends.\<close>

lemma record_and_load:
  assumes "record_revision E aid reason db1 = Inr db'" "load_action aid db' = Inr r"
    and "actions db1 = update_where (\<lambda>r. ac_action_id r = aid) f (actions db)"
    and "fetchone (\<lambda>r. ac_action_id r = aid) (actions db) = Some row"
    and "action_revisions db1 = action_revisions db" "behavior_logs db1 = behavior_logs db @ nl"
      "behavior_log_revisions db1 = behavior_log_revisions db @ nb"
    and f: "ac_action_id (f row) = ac_action_id row" "ac_subject_id (f row) = ac_subject_id row"
  shows "ledger_change E aid f nl nb db db'" and "fst r = f row"
proof -
  have id: "ac_action_id row = aid" using assms(4) by (auto dest: fetchone_Some)
  have g: "fetchone (\<lambda>r. ac_action_id r = aid) (actions db1) = Some (f row)"
  proof -
    have "fetchone (\<lambda>r. ac_action_id r = aid) (update_where (\<lambda>r. ac_action_id r = aid) f t) = Some (f row)"
      if "fetchone (\<lambda>r. ac_action_id r = aid) t = Some row" for t
      using that f id by (induction t) (auto split: if_splits)
    with assms(3,4) show ?thesis by simp
  qed
  from assms(1) g obtain rev where ins: "insert_action_revision rev (db1\<lparr>fresh_ids := Suc (fresh_ids db1), ticks := Suc (ticks db1)\<rparr>) = Inr db'"
    and rev: "ar_action_id rev = aid" "ar_subject_id rev = ac_subject_id row" "ar_status rev = ac_status (f row)"
       "ar_state_hash rev = action_state_hash E (f row)"
       "ar_revision_number rev = next_revision (map ar_revision_number (filter (\<lambda>q. ar_action_id q = aid) (action_revisions db1)))"
    using f id by (force simp: record_revision_def get_action_row_def new_id_def utc_now_def Let_def)
  from ins have db': "db' = db1\<lparr>fresh_ids := Suc (fresh_ids db1), ticks := Suc (ticks db1),
      action_revisions := action_revisions db1 @ [rev]\<rparr>"
    by (auto simp: insert_action_revision_def split: if_splits)
  from assms(2) have "action_from_row (f row) = Inr r"
    using g by (simp add: load_action_def get_action_row_def db')
  then have "is_ok (action_from_row (f row))" "fst r = f row"
    by (auto simp: action_from_row_def Let_def split: if_splits)
  then show "fst r = f row" "ledger_change E aid f nl nb db db'"
    using rev assms(3-7) unfolding ledger_change_def
    by (auto simp: db' action_log.history_def intro!: exI [of _ rev])
qed

lemma insert_behavior_log_effect:
  assumes "insert_behavior_log E row ts st s db = Inr db'"
  shows "\<exists>l rev. actions db' = actions db \<and> action_revisions db' = action_revisions db
      \<and> behavior_logs db' = behavior_logs db @ [l] \<and> behavior_log_revisions db' = behavior_log_revisions db @ [rev]
      \<and> bl_action_id l = ac_action_id row \<and> bl_subject_id l = ac_subject_id row \<and> bl_result_status l = st
      \<and> br_log rev = l \<and> bl_log_id l \<notin> bl_log_id ` set (behavior_logs db)
      \<and> ac_action_id row \<notin> bl_action_id ` set (behavior_logs db)
      \<and> br_revision_number rev = next_revision (map br_revision_number (behavior_log.history (bl_log_id l) db))
      \<and> br_state_hash rev = behavior_log_state_hash E l (br_revision_number rev) (br_reason rev)
      \<and> (\<exists>lid. l = new_behavior_log lid row ts st s)"
proof -
  let ?l = "new_behavior_log (''blog_'' @ env_uuid E (fresh_ids db)) row ts st s"
  have l: "?l\<lparr>bl_occurred_at := ts, bl_result_status := st, bl_side_effect_summary := ps_side_effect s,
      bl_public_explanation := ps_explanation s\<rparr> = ?l" by (simp add: new_behavior_log_def Let_def)
  have fields: "bl_action_id ?l = ac_action_id row" "bl_subject_id ?l = ac_subject_id row" "bl_result_status ?l = st"
    by (simp_all add: new_behavior_log_def Let_def)
  from assms obtain db1 where ins: "insert_behavior_log_row ?l (db\<lparr>fresh_ids := Suc (fresh_ids db)\<rparr>) = Inr db1"
    and app: "append_behavior_log_revision E ?l ts st (ps_side_effect s) (ps_explanation s) ''initial outcome recorded'' db1 = Inr db'"
    by (auto simp: insert_behavior_log_def new_id_def Let_def)
  from ins have db1: "db1 = db\<lparr>fresh_ids := Suc (fresh_ids db), behavior_logs := behavior_logs db @ [?l]\<rparr>"
    "bl_log_id ?l \<notin> bl_log_id ` set (behavior_logs db)" "bl_action_id ?l \<notin> bl_action_id ` set (behavior_logs db)"
    by (auto simp: insert_behavior_log_row_def split: if_splits)
  from app obtain rev where ins2: "insert_behavior_revision rev (db1\<lparr>fresh_ids := Suc (fresh_ids db1), ticks := Suc (ticks db1)\<rparr>) = Inr db'"
    and rev: "br_log rev = ?l" "br_state_hash rev = behavior_log_state_hash E ?l (br_revision_number rev) (br_reason rev)"
      "br_revision_number rev = next_revision (map br_revision_number (behavior_log.history (bl_log_id ?l) db))"
    unfolding append_behavior_log_revision_def l
    by (force simp: new_id_def utc_now_def Let_def behavior_log.history_def db1(1))
  from ins2 have "db' = db1\<lparr>fresh_ids := Suc (fresh_ids db1), ticks := Suc (ticks db1),
      behavior_log_revisions := behavior_log_revisions db1 @ [rev]\<rparr>"
    by (auto simp: insert_behavior_revision_def Let_def split: if_splits)
  with db1 rev fields show ?thesis by (intro exI [of _ ?l] exI [of _ rev]) auto
qed


section \<open>Preservation\<close>

lemma action_ok_other:
  assumes "action_ok E db b" and "action_log.history (ac_action_id b) db' = action_log.history (ac_action_id b) db"
    and "filter (\<lambda>l. bl_action_id l = ac_action_id b) (behavior_logs db') = filter (\<lambda>l. bl_action_id l = ac_action_id b) (behavior_logs db)"
    and "\<And>l. l \<in> set (behavior_logs db) \<Longrightarrow> bl_action_id l = ac_action_id b \<Longrightarrow>
      behavior_log.history (bl_log_id l) db' = behavior_log.history (bl_log_id l) db"
  shows "action_ok E db' b"
proof -
  have "behavior_ok E db' b l = behavior_ok E db b l"
    if "filter (\<lambda>l. bl_action_id l = ac_action_id b) (behavior_logs db) = [l]" for l
  proof -
    from that have "l \<in> set (filter (\<lambda>l. bl_action_id l = ac_action_id b) (behavior_logs db))" by simp
    then have "behavior_log.history (bl_log_id l) db' = behavior_log.history (bl_log_id l) db"
      using assms(4) by simp
    then show ?thesis by (simp add: behavior_ok_def)
  qed
  with assms(1-3) show ?thesis by (auto simp: action_ok_def Let_def split: if_splits)
qed

lemma ledger_change_inv:
  assumes inv: "ledger_inv E db" and ch: "ledger_change E aid f nl nb db db'"
    and row: "fetchone (\<lambda>r. ac_action_id r = aid) (actions db) = Some row"
    and f: "ac_action_id (f row) = aid" "ac_subject_id (f row) = ac_subject_id row" "retry_ok (f row)"
    and nl: "\<forall>l\<in>set nl. bl_action_id l = aid \<and> bl_subject_id l = ac_subject_id row"
      "distinct (map bl_log_id (behavior_logs db @ nl))"
    and nb: "\<forall>r\<in>set nb. \<exists>l\<in>set (behavior_logs db @ nl). bl_log_id l = br_log_id r \<and> bl_action_id l = aid"
    and logs: "if ac_status (f row) \<in> set executor_completion_states
      then \<exists>l. filter (\<lambda>l. bl_action_id l = aid) (behavior_logs db') = [l] \<and> behavior_ok E db' (f row) l
      else filter (\<lambda>l. bl_action_id l = aid) (behavior_logs db') = []"
  shows "ledger_inv E db'"
proof -
  have rid: "row \<in> set (actions db)" "ac_action_id row = aid" using fetchone_Some [OF row] by auto
  from ch row obtain rev where acts: "actions db' = update_where (\<lambda>r. ac_action_id r = aid) f (actions db)"
    and revs: "action_revisions db' = action_revisions db @ [rev]"
    and rev: "ar_action_id rev = aid" "ar_subject_id rev = ac_subject_id row" "ar_status rev = ac_status (f row)"
       "ar_state_hash rev = action_state_hash E (f row)"
       "ar_revision_number rev = next_revision (map ar_revision_number (action_log.history aid db))"
    and bls: "behavior_logs db' = behavior_logs db @ nl" "behavior_log_revisions db' = behavior_log_revisions db @ nb"
    and ok: "is_ok (action_from_row (f row))"
    unfolding ledger_change_def by auto
  have dist: "distinct (map ac_action_id (actions db))" using inv by (simp add: ledger_inv_def)
  have only: "a = row" if "a \<in> set (actions db)" "ac_action_id a = aid" for a
    using distinct_key_eq [OF dist that(1) rid(1)] that(2) rid(2) by simp
  have mem: "b \<in> set (actions db') \<longleftrightarrow> b = f row \<or> b \<in> set (actions db) \<and> ac_action_id b \<noteq> aid" for b
    using rid by (auto simp: acts set_update_where dest: only intro: bexI [of _ row])
  have ids: "map ac_action_id (actions db') = map ac_action_id (actions db)"
    unfolding acts update_where_def map_map by (rule map_cong) (auto dest!: only simp: f(1))
  then have idset: "ac_action_id ` set (actions db') = ac_action_id ` set (actions db)" by (metis list.set_map)
  have new: "action_ok E db' (f row)"
  proof -
    have old: "action_ok E db row" using inv rid by (simp add: ledger_inv_def)
    have h: "action_log.history aid db' = action_log.history aid db @ [rev]"
      using rev(1) by (simp add: action_log.history_def revs)
    have "ac_status (f row) \<in> set action_states"
      using ok by (auto simp: action_from_row_def is_ok_iff split: if_splits)
    moreover have "contiguous (map ar_revision_number (action_log.history aid db @ [rev]))"
      using old rid(2) contiguous_snoc rev(5) by (simp add: action_ok_def Let_def)
    ultimately show ?thesis
      using old logs f(1,2) rid(2) rev ok by (auto simp: action_ok_def Let_def h)
  qed
  have other: "action_ok E db' b" if b: "b \<in> set (actions db)" "ac_action_id b \<noteq> aid" for b
  proof (rule action_ok_other)
    show "action_ok E db b" using inv b by (simp add: ledger_inv_def)
    show "action_log.history (ac_action_id b) db' = action_log.history (ac_action_id b) db"
      using b rev(1) by (simp add: action_log.history_def revs)
    show "filter (\<lambda>l. bl_action_id l = ac_action_id b) (behavior_logs db')
        = filter (\<lambda>l. bl_action_id l = ac_action_id b) (behavior_logs db)"
      using nl(1) b(2) by (auto simp: bls filter_empty_conv)
    fix l assume l: "l \<in> set (behavior_logs db)" "bl_action_id l = ac_action_id b"
    have "br_log_id r \<noteq> bl_log_id l" if "r \<in> set nb" for r
    proof
      assume "br_log_id r = bl_log_id l"
      with nb that obtain k where "k \<in> set (behavior_logs db @ nl)" "bl_log_id k = bl_log_id l" "bl_action_id k = aid"
        by metis
      with distinct_key_eq [OF nl(2), of k l] l b(2) show False by auto
    qed
    then show "behavior_log.history (bl_log_id l) db' = behavior_log.history (bl_log_id l) db"
      by (simp add: behavior_log.history_def bls filter_empty_conv)
  qed
  have retry: "retry_ok b" if "b \<in> set (actions db')" for b
    using that inv f(3) by (auto simp: mem ledger_inv_def)
  have logs': "\<exists>a\<in>set (actions db'). ac_action_id a = bl_action_id l \<and> ac_subject_id a = bl_subject_id l"
    if "l \<in> set (behavior_logs db')" for l
  proof (cases "bl_action_id l = aid")
    case True
    have "bl_subject_id l = ac_subject_id row"
    proof (cases "l \<in> set nl")
      case False
      with that obtain a where "a \<in> set (actions db)" "ac_action_id a = bl_action_id l" "ac_subject_id a = bl_subject_id l"
        using inv by (auto simp: ledger_inv_def bls)
      with True only show ?thesis by metis
    qed (use nl(1) in simp)
    with True f mem show ?thesis by (intro bexI [of _ "f row"]) auto
  next
    case False
    with that nl(1) inv mem show ?thesis unfolding ledger_inv_def bls by (metis UnE set_append)
  qed
  have "aid \<in> ac_action_id ` set (actions db)" using rid by (metis image_eqI)
  then have "\<forall>r\<in>set (action_revisions db'). ar_action_id r \<in> ac_action_id ` set (actions db')"
    using inv rev(1) unfolding idset ledger_inv_def revs by auto
  moreover have "\<forall>r\<in>set (behavior_log_revisions db'). br_log_id r \<in> bl_log_id ` set (behavior_logs db')"
    using inv nb unfolding ledger_inv_def bls by (auto simp: image_iff) (metis+)?
  ultimately show ?thesis
    using dist nl(2) new other retry logs' mem by (auto simp: ledger_inv_def ids bls(1))
qed

section \<open>The operations keep the invariant\<close>

lemma get_action_row_Inr:
  "get_action_row aid db = Inr row \<longleftrightarrow> fetchone (\<lambda>r. ac_action_id r = aid) (actions db) = Some row"
  by (auto simp: get_action_row_def split: option.splits)

lemma action_of_row:
  assumes "ledger_inv E db" "fetchone (\<lambda>r. ac_action_id r = aid) (actions db) = Some row"
  shows "action_ok E db row" "retry_ok row" "ac_action_id row = aid" "row \<in> set (actions db)"
  using assms fetchone_Some [OF assms(2)] by (auto simp: ledger_inv_def)

lemma start_effect:
  assumes "start E aid db = Inr (r, db')"
  obtains row now where "fetchone (\<lambda>r. ac_action_id r = aid) (actions db) = Some row" "ac_status row = ''prepared''"
    "ledger_change E aid (\<lambda>r. r\<lparr>ac_status := ''executing'', ac_retry_count := ac_retry_count r + 1,
        ac_started_at := Some now, ac_completed_at := None\<rparr>) [] [] db db'"
    "fst r = row\<lparr>ac_status := ''executing'', ac_retry_count := ac_retry_count row + 1,
        ac_started_at := Some now, ac_completed_at := None\<rparr>"
proof -
  let ?f = "\<lambda>r. r\<lparr>ac_status := ''executing'', ac_retry_count := ac_retry_count r + 1,
        ac_started_at := Some (env_clock E (ticks db)), ac_completed_at := None\<rparr>"
  from assms obtain row db1 where row: "fetchone (\<lambda>r. ac_action_id r = aid) (actions db) = Some row"
      "ac_status row = ''prepared''"
    and s: "record_revision E aid ''started'' (update_action aid ?f (db\<lparr>ticks := Suc (ticks db)\<rparr>)) = Inr db'"
      "load_action aid db' = Inr r"
    by (auto simp: start_def get_action_row_Inr utc_now_def Let_def split: if_splits)
  from s row(1) record_and_load [OF s, of ?f db row "[]" "[]"]
  have "ledger_change E aid ?f [] [] db db'" "fst r = ?f row" by (simp_all add: update_action_def)
  with row that show thesis by blast
qed

lemma start_inv:
  assumes "ledger_inv E db" "start E aid db = Inr (r, db')"
  shows "ledger_inv E db'"
  using assms(2)
proof (rule start_effect)
  fix row now
  assume row: "fetchone (\<lambda>r. ac_action_id r = aid) (actions db) = Some row" "ac_status row = ''prepared''"
    and ch: "ledger_change E aid (\<lambda>r. r\<lparr>ac_status := ''executing'', ac_retry_count := ac_retry_count r + 1,
        ac_started_at := Some now, ac_completed_at := None\<rparr>) [] [] db db'"
  note a = action_of_row [OF assms(1) row(1)]
  have nt: "''prepared'' \<notin> set executor_completion_states" "''executing'' \<notin> set executor_completion_states"
    by (simp_all add: executor_completion_states_def)
  from ch have "behavior_logs db' = behavior_logs db" by (auto simp: ledger_change_def)
  moreover have "filter (\<lambda>l. bl_action_id l = aid) (behavior_logs db) = []"
    using a nt row(2) by (simp add: action_ok_def Let_def)
  ultimately show ?thesis
    using a nt row assms(1)
    by (intro ledger_change_inv [OF assms(1) ch row(1)]) (simp_all add: retry_ok_def ledger_inv_def)
qed

text \<open>Completion: the last change of an action that ran or was cancelled, with its behaviour log.\<close>

lemma complete_change:
  fixes db db1 :: "'a action_db_scheme"
  assumes inv: "ledger_inv E db" and row: "fetchone (\<lambda>r. ac_action_id r = aid) (actions db) = Some row"
    and st: "ac_status row \<in> {''prepared'', ''executing''}" "st \<in> set executor_completion_states"
    and log: "insert_behavior_log E row ts st s db1 = Inr db2"
    and rev: "record_revision E aid reason db2 = Inr db'" "load_action aid db' = Inr r"
    and db1: "actions db1 = update_where (\<lambda>r. ac_action_id r = aid) (complete_action st result ts) (actions db)"
      "action_revisions db1 = action_revisions db" "behavior_logs db1 = behavior_logs db"
      "behavior_log_revisions db1 = behavior_log_revisions db"
  shows "ledger_inv E db'" "fst r = complete_action st result ts row"
    and "actions db' = update_where (\<lambda>r. ac_action_id r = aid) (complete_action st result ts) (actions db)"
proof -
  note a = action_of_row [OF inv row]
  from insert_behavior_log_effect [OF log] obtain l br where
    t: "actions db2 = actions db1" "action_revisions db2 = action_revisions db1"
      "behavior_logs db2 = behavior_logs db1 @ [l]" "behavior_log_revisions db2 = behavior_log_revisions db1 @ [br]"
    and l: "bl_action_id l = aid" "bl_subject_id l = ac_subject_id row" "bl_result_status l = st"
      "bl_log_id l \<notin> bl_log_id ` set (behavior_logs db)" "aid \<notin> bl_action_id ` set (behavior_logs db)"
    and br: "br_log br = l" "br_revision_number br = next_revision (map br_revision_number (behavior_log.history (bl_log_id l) db1))"
      "br_state_hash br = behavior_log_state_hash E l (br_revision_number br) (br_reason br)"
    using a(3) by (auto simp: db1)
  have ch: "ledger_change E aid (complete_action st result ts) [l] [br] db db'" and "fst r = complete_action st result ts row"
    using record_and_load [OF rev, of "complete_action st result ts" db row "[l]" "[br]"] row
    by (simp_all add: t db1 complete_action_def)
  then show "fst r = complete_action st result ts row" by simp
  show "actions db' = update_where (\<lambda>r. ac_action_id r = aid) (complete_action st result ts) (actions db)"
    using ch by (auto simp: ledger_change_def)
  have nt: "ac_status row \<notin> set executor_completion_states" using st(1) by (auto simp: executor_completion_states_def)
  then have none: "filter (\<lambda>l. bl_action_id l = aid) (behavior_logs db) = []"
    using a by (simp add: action_ok_def Let_def)
  from ch have bl: "behavior_logs db' = behavior_logs db @ [l]" "behavior_log_revisions db' = behavior_log_revisions db @ [br]"
    by (auto simp: ledger_change_def)
  have "\<forall>r\<in>set (behavior_log_revisions db). br_log_id r \<in> bl_log_id ` set (behavior_logs db)"
    using inv by (simp add: ledger_inv_def)
  then have "behavior_log.history (bl_log_id l) db = []"
    using l(4) unfolding behavior_log.history_def by (intro filter_False) metis
  moreover then have "br_revision_number br = 1"
    using br(2) by (simp add: behavior_log.history_def db1 next_revision_def)
  ultimately have h: "behavior_log.history (bl_log_id l) db' = [br]" "br_revision_number br = 1"
    using br(1) by (simp_all add: behavior_log.history_def bl br_log_id_def)
  have "behavior_ok E db' (complete_action st result ts row) l"
    using h l br a(3) by (simp add: behavior_ok_def complete_action_def contiguous_def)
  moreover have "st \<noteq> ''prepared''" "st \<noteq> ''executing''"
    using st(2) by (simp_all add: executor_completion_states_def) blast+
  then have "retry_ok (complete_action st result ts row)"
    using a(2) st(1) by (simp add: retry_ok_def complete_action_def split: if_splits)
  ultimately show "ledger_inv E db'"
    using a l none st(2) inv br(1)
    by (intro ledger_change_inv [OF inv ch row]) (auto simp: complete_action_def bl ledger_inv_def br_log_id_def)
qed

lemma finish_inv:
  assumes inv: "ledger_inv E db" and "finish E aid st result s db = Inr (r, db')"
  shows "ledger_inv E db'"
    and "\<exists>row ts. fetchone (\<lambda>r. ac_action_id r = aid) (actions db) = Some row \<and> ac_status row = ''executing''
      \<and> st \<in> set executor_completion_states \<and> fst r = complete_action st result ts row
      \<and> actions db' = update_where (\<lambda>r. ac_action_id r = aid) (complete_action st result ts) (actions db)"
proof -
  let ?ts = "env_clock E (ticks db)"
  from assms(2) obtain row db2 where row: "fetchone (\<lambda>r. ac_action_id r = aid) (actions db) = Some row"
      "ac_status row = ''executing''" "st \<in> set executor_completion_states"
    and s: "insert_behavior_log E row ?ts st s (update_action aid (complete_action st result ?ts) (db\<lparr>ticks := Suc (ticks db)\<rparr>)) = Inr db2"
      "record_revision E aid ''finished'' db2 = Inr db'" "load_action aid db' = Inr r"
    by (auto simp: finish_def get_action_row_Inr utc_now_def Let_def split: if_splits)
  note c = complete_change [OF inv row(1) _ row(3) s(1,2,3), of result]
  show "ledger_inv E db'" using c(1) row by (simp add: update_action_def)
  show "\<exists>row ts. fetchone (\<lambda>r. ac_action_id r = aid) (actions db) = Some row \<and> ac_status row = ''executing''
      \<and> st \<in> set executor_completion_states \<and> fst r = complete_action st result ts row
      \<and> actions db' = update_where (\<lambda>r. ac_action_id r = aid) (complete_action st result ts) (actions db)"
    using c(2,3) row by (intro exI [of _ row] exI [of _ ?ts]) (simp add: update_action_def)
qed

lemma cancel_inv:
  assumes inv: "ledger_inv E db" and "cancel E aid reason db = Inr (r, db')"
  shows "ledger_inv E db'"
    and "\<exists>row result ts. fetchone (\<lambda>r. ac_action_id r = aid) (actions db) = Some row \<and> ac_status row = ''prepared''
      \<and> actions db' = update_where (\<lambda>r. ac_action_id r = aid) (complete_action ''cancelled'' result ts) (actions db)"
proof -
  let ?ts = "env_clock E (ticks db)" and ?res = "JObj [(''reason'', JStr reason)]"
  from assms(2) obtain row db2 s where row: "fetchone (\<lambda>r. ac_action_id r = aid) (actions db) = Some row"
      "ac_status row = ''prepared''"
    and s: "insert_behavior_log E row ?ts ''cancelled'' s (update_action aid (complete_action ''cancelled'' ?res ?ts) (db\<lparr>ticks := Suc (ticks db)\<rparr>)) = Inr db2"
      "record_revision E aid ''cancelled'' db2 = Inr db'" "load_action aid db' = Inr r"
    by (auto simp: cancel_def get_action_row_Inr utc_now_def Let_def split: if_splits)
  have st: "''cancelled'' \<in> set executor_completion_states" by (simp add: executor_completion_states_def)
  note c = complete_change [OF inv row(1) _ st s(1,2,3), of ?res]
  show "ledger_inv E db'" using c(1) row by (simp add: update_action_def)
  show "\<exists>row result ts. fetchone (\<lambda>r. ac_action_id r = aid) (actions db) = Some row \<and> ac_status row = ''prepared''
      \<and> actions db' = update_where (\<lambda>r. ac_action_id r = aid) (complete_action ''cancelled'' result ts) (actions db)"
    using c(3) row by (intro exI [of _ row] exI [of _ ?res] exI [of _ ?ts]) (simp add: update_action_def)
qed


lemma update_where_cong:
  "(\<And>r. r \<in> set t \<Longrightarrow> p r = q r) \<Longrightarrow> update_where p f t = update_where q f t"
  by (auto simp: update_where_def)

lemma recover_one_inv:
  assumes inv: "ledger_inv E db" and row: "row \<in> set (actions db)" "ac_status row = ''executing''"
    and "recover_one E row (acc, db) = Inr (acc', db')"
  shows "ledger_inv E db'"
    and "\<exists>result ts. actions db' = update_where (\<lambda>r. ac_action_id r = ac_action_id row) (complete_action ''unknown'' result ts) (actions db)
      \<and> (\<exists>r. acc' = acc @ [r] \<and> fst r = complete_action ''unknown'' result ts row)"
proof -
  let ?ts = "env_clock E (ticks db)"
  let ?res = "JObj [(''recovery'', JStr ''process ended before completion was durably recorded''),
                    (''side_effect_may_have_occurred'', JBool (ac_side_effect row))]"
  have dist: "distinct (map ac_action_id (actions db))" using inv by (simp add: ledger_inv_def)
  have fo: "fetchone (\<lambda>r. ac_action_id r = ac_action_id row) (actions db) = Some row"
    by (rule fetchone_key [OF dist row(1)])
  have up: "update_where (\<lambda>r. ac_action_id r = ac_action_id row \<and> ac_status r = ''executing'') g (actions db)
      = update_where (\<lambda>r. ac_action_id r = ac_action_id row) g (actions db)" for g
    using distinct_key_eq [OF dist _ row(1)] row(2) by (intro update_where_cong) metis
  let ?db1 = "db\<lparr>ticks := Suc (ticks db), actions := update_where (\<lambda>r. ac_action_id r = ac_action_id row)
      (complete_action ''unknown'' ?res ?ts) (actions db)\<rparr>"
  from assms(4) obtain db2 s r where s: "insert_behavior_log E row ?ts ''unknown'' s ?db1 = Inr db2"
      "record_revision E (ac_action_id row) ''recovered'' db2 = Inr db'" "load_action (ac_action_id row) db' = Inr r"
    and acc: "acc' = acc @ [r]"
    by (auto simp: recover_one_def utc_now_def up Let_def)
  have st: "''unknown'' \<in> set executor_completion_states" by (simp add: executor_completion_states_def)
  note c = complete_change [OF inv fo _ st s, of ?res]
  show "ledger_inv E db'" using c(1) row(2) by simp
  show "\<exists>result ts. actions db' = update_where (\<lambda>r. ac_action_id r = ac_action_id row) (complete_action ''unknown'' result ts) (actions db)
      \<and> (\<exists>r. acc' = acc @ [r] \<and> fst r = complete_action ''unknown'' result ts row)"
    using c(2,3) row(2) acc by (intro exI [of _ ?res] exI [of _ ?ts]) simp
qed

text \<open>The loop of the recovery: the listed rows become unknown, every other row is kept.\<close>

lemma recover_fold:
  assumes "ledger_inv E db" "distinct (map ac_action_id rows)"
    and "\<forall>row\<in>set rows. row \<in> set (actions db) \<and> ac_status row = ''executing''"
    and "res_fold (recover_one E) rows (acc, db) = Inr (acc', db')"
  shows "ledger_inv E db'"
    and "map ac_action_id (actions db') = map ac_action_id (actions db)"
    and "\<forall>a\<in>set (actions db). ac_action_id a \<notin> ac_action_id ` set rows \<longrightarrow> a \<in> set (actions db')"
    and "\<forall>a\<in>set (actions db'). ac_action_id a \<in> ac_action_id ` set rows \<longrightarrow> ac_status a = ''unknown''"
    and "\<forall>a\<in>set (actions db'). \<exists>b\<in>set (actions db). ac_action_id a = ac_action_id b \<and> ac_subject_id a = ac_subject_id b
      \<and> (a = b \<or> b \<in> set rows \<and> ac_status a = ''unknown'' \<and> ac_retry_count a = ac_retry_count b)"
proof -
  from assms have "ledger_inv E db' \<and> map ac_action_id (actions db') = map ac_action_id (actions db)
    \<and> (\<forall>a\<in>set (actions db). ac_action_id a \<notin> ac_action_id ` set rows \<longrightarrow> a \<in> set (actions db'))
    \<and> (\<forall>a\<in>set (actions db'). ac_action_id a \<in> ac_action_id ` set rows \<longrightarrow> ac_status a = ''unknown'')
    \<and> (\<forall>a\<in>set (actions db'). \<exists>b\<in>set (actions db). ac_action_id a = ac_action_id b \<and> ac_subject_id a = ac_subject_id b
      \<and> (a = b \<or> b \<in> set rows \<and> ac_status a = ''unknown'' \<and> ac_retry_count a = ac_retry_count b))"
  proof (induction rows arbitrary: acc db)
    case (Cons row rows)
    from Cons.prems(4) obtain acc1 db1 where s: "recover_one E row (acc, db) = Inr (acc1, db1)"
      "res_fold (recover_one E) rows (acc1, db1) = Inr (acc', db')" by auto
    have row: "row \<in> set (actions db)" "ac_status row = ''executing''" using Cons.prems(3) by auto
    note r = recover_one_inv [OF Cons.prems(1) row s(1)]
    from r(2) obtain result ts where acts: "actions db1 = update_where (\<lambda>r. ac_action_id r = ac_action_id row)
        (complete_action ''unknown'' result ts) (actions db)" by blast
    have only: "b = row" if "b \<in> set (actions db)" "ac_action_id b = ac_action_id row" for b
      using distinct_key_eq [OF _ that(1) row(1) that(2)] Cons.prems(1) by (simp add: ledger_inv_def)
    have keep: "b \<in> set (actions db1)" if "b \<in> set (actions db)" "ac_action_id b \<noteq> ac_action_id row" for b
      using that by (force simp: acts set_update_where)
    have ids: "map ac_action_id (actions db1) = map ac_action_id (actions db)"
      unfolding acts by (rule map_update_where) (simp add: complete_action_def)
    have prev: "\<exists>b\<in>set (actions db). ac_action_id a = ac_action_id b \<and> ac_subject_id a = ac_subject_id b
        \<and> (a = b \<or> b = row \<and> ac_status a = ''unknown'' \<and> ac_retry_count a = ac_retry_count b)"
      if "a \<in> set (actions db1)" for a
    proof -
      from that obtain r where "r \<in> set (actions db)"
        "a = (if ac_action_id r = ac_action_id row then complete_action ''unknown'' result ts r else r)"
        unfolding acts set_update_where by blast
      then show ?thesis by (intro bexI [of _ r]) (auto simp: complete_action_def dest: only)
    qed
    have nin: "ac_action_id row \<notin> ac_action_id ` set rows" using Cons.prems(2) by simp
    have "\<forall>row\<in>set rows. row \<in> set (actions db1) \<and> ac_status row = ''executing''"
      using Cons.prems(3) nin keep by (metis image_eqI list.set_intros(2))
    from Cons.IH [OF r(1) _ this s(2)] Cons.prems(2) have IH: "ledger_inv E db'"
      "map ac_action_id (actions db') = map ac_action_id (actions db1)"
      "\<forall>a\<in>set (actions db1). ac_action_id a \<notin> ac_action_id ` set rows \<longrightarrow> a \<in> set (actions db')"
      "\<forall>a\<in>set (actions db'). ac_action_id a \<in> ac_action_id ` set rows \<longrightarrow> ac_status a = ''unknown''"
      "\<forall>a\<in>set (actions db'). \<exists>b\<in>set (actions db1). ac_action_id a = ac_action_id b \<and> ac_subject_id a = ac_subject_id b
        \<and> (a = b \<or> b \<in> set rows \<and> ac_status a = ''unknown'' \<and> ac_retry_count a = ac_retry_count b)" by simp_all
    have new: "ac_status a = ''unknown''" if "a \<in> set (actions db')" "ac_action_id a = ac_action_id row" for a
    proof -
      from IH(5) that obtain b where b: "b \<in> set (actions db1)" "ac_action_id b = ac_action_id row"
        "a = b \<or> ac_status a = ''unknown''" by metis
      from b(1,2) have "ac_status b = ''unknown''" by (auto simp: acts set_update_where complete_action_def)
      with b(3) show ?thesis by auto
    qed
    have all: "\<exists>b\<in>set (actions db). ac_action_id a = ac_action_id b \<and> ac_subject_id a = ac_subject_id b
      \<and> (a = b \<or> b \<in> set (row # rows) \<and> ac_status a = ''unknown'' \<and> ac_retry_count a = ac_retry_count b)"
      if a: "a \<in> set (actions db')" for a
    proof -
      from IH(5) a obtain b where b: "b \<in> set (actions db1)" "ac_action_id a = ac_action_id b" "ac_subject_id a = ac_subject_id b"
        "a = b \<or> b \<in> set rows \<and> ac_status a = ''unknown'' \<and> ac_retry_count a = ac_retry_count b" by blast
      from prev [OF b(1)] obtain c where "c \<in> set (actions db)" "ac_action_id b = ac_action_id c" "ac_subject_id b = ac_subject_id c"
        "b = c \<or> c = row \<and> ac_status b = ''unknown'' \<and> ac_retry_count b = ac_retry_count c" by blast
      with b show ?thesis by (intro bexI [of _ c]) auto
    qed
    from IH ids keep new all show ?case by auto
  qed simp
  then show "ledger_inv E db'" "map ac_action_id (actions db') = map ac_action_id (actions db)"
    "\<forall>a\<in>set (actions db). ac_action_id a \<notin> ac_action_id ` set rows \<longrightarrow> a \<in> set (actions db')"
    "\<forall>a\<in>set (actions db'). ac_action_id a \<in> ac_action_id ` set rows \<longrightarrow> ac_status a = ''unknown''"
    "\<forall>a\<in>set (actions db'). \<exists>b\<in>set (actions db). ac_action_id a = ac_action_id b \<and> ac_subject_id a = ac_subject_id b
      \<and> (a = b \<or> b \<in> set rows \<and> ac_status a = ''unknown'' \<and> ac_retry_count a = ac_retry_count b)" by blast+
qed


lemma recover_interrupted_inv:
  assumes "ledger_inv E db" "recover_interrupted E sid db = Inr (rs, db')"
  shows "ledger_inv E db'"
    and "\<forall>a\<in>set (actions db'). ac_subject_id a = sid \<longrightarrow> ac_status a \<noteq> ''executing''"
    and "\<forall>a\<in>set (actions db). \<not> (ac_subject_id a = sid \<and> ac_status a = ''executing'') \<longrightarrow> a \<in> set (actions db')"
    and "\<forall>a\<in>set (actions db'). \<exists>b\<in>set (actions db). ac_action_id a = ac_action_id b \<and> ac_subject_id a = ac_subject_id b
      \<and> (a = b \<or> ac_subject_id b = sid \<and> ac_status b = ''executing'' \<and> ac_status a = ''unknown''
        \<and> ac_retry_count a = ac_retry_count b)"
    and "map ac_action_id (actions db') = map ac_action_id (actions db)"
proof -
  let ?p = "\<lambda>r. ac_subject_id r = sid \<and> ac_status r = ''executing''"
  let ?rows = "fetchall_by ?p (\<lambda>r. (ac_prepared_at r, ac_action_id r)) (actions db)"
  have set: "set ?rows = {a \<in> set (actions db). ?p a}" by (auto simp: fetchall_by_def)
  have dist: "distinct (map ac_action_id (actions db))" using assms(1) by (simp add: ledger_inv_def)
  then have "distinct (map ac_action_id (filter ?p (actions db)))" by (rule distinct_map_filter)
  then have d: "distinct (map ac_action_id ?rows)" by (simp add: fetchall_by_def distinct_map)
  have in_rows: "ac_action_id a \<in> ac_action_id ` set ?rows \<longleftrightarrow> ?p a" if "a \<in> set (actions db)" for a
    using that distinct_key_eq [OF dist] unfolding set by (auto simp: image_iff)
  note r = recover_fold [OF assms(1) d _ assms(2) [unfolded recover_interrupted_def]]
  have pre: "\<forall>row\<in>set ?rows. row \<in> set (actions db) \<and> ac_status row = ''executing''" by (simp add: set)
  show "ledger_inv E db'" by (rule r(1) [OF pre])
  show "map ac_action_id (actions db') = map ac_action_id (actions db)" by (rule r(2) [OF pre])
  show "\<forall>a\<in>set (actions db). \<not> ?p a \<longrightarrow> a \<in> set (actions db')" using r(3) [OF pre] in_rows by blast
  show all: "\<forall>a\<in>set (actions db'). \<exists>b\<in>set (actions db). ac_action_id a = ac_action_id b \<and> ac_subject_id a = ac_subject_id b
      \<and> (a = b \<or> ac_subject_id b = sid \<and> ac_status b = ''executing'' \<and> ac_status a = ''unknown''
        \<and> ac_retry_count a = ac_retry_count b)"
    using r(5) [OF pre] unfolding set by blast
  show "\<forall>a\<in>set (actions db'). ac_subject_id a = sid \<longrightarrow> ac_status a \<noteq> ''executing''"
  proof (intro ballI impI notI)
    fix a assume a: "a \<in> set (actions db')" "ac_subject_id a = sid" "ac_status a = ''executing''"
    from all a(1) obtain b where b: "b \<in> set (actions db)" "ac_action_id a = ac_action_id b"
      "a = b \<or> ac_status a = ''unknown''" by blast
    with a have "?p b" by auto
    with in_rows [OF b(1)] b(2) r(4) [OF pre] a show False by auto
  qed
qed

lemma reconcile_unknown_inv:
  assumes inv: "ledger_inv E db" and "reconcile_unknown E aid st result expl ses db = Inr (r, db')"
  shows "ledger_inv E db'"
    and "\<exists>row ts. fetchone (\<lambda>r. ac_action_id r = aid) (actions db) = Some row \<and> ac_status row = ''unknown''
      \<and> st \<in> set reconciliation_states
      \<and> actions db' = update_where (\<lambda>r. ac_action_id r = aid) (complete_action st result ts) (actions db)"
proof -
  let ?ts = "env_clock E (ticks db)" and ?f = "complete_action st result (env_clock E (ticks db))"
  let ?db1 = "update_action aid ?f (db\<lparr>ticks := Suc (ticks db)\<rparr>)"
  from assms(2) obtain row log latest sum db2 where row: "fetchone (\<lambda>r. ac_action_id r = aid) (actions db) = Some row"
      "ac_status row = ''unknown''" "st \<in> set reconciliation_states"
    and log: "fetchone (\<lambda>l. bl_action_id l = aid) (behavior_logs db) = Some log"
    and latest: "latest_behavior_revision (bl_log_id log) db = Some latest"
    and s: "append_behavior_log_revision E (br_log latest) ?ts st sum expl ''unknown outcome reconciled'' ?db1 = Inr db2"
      "record_revision E aid ''reconciled'' db2 = Inr db'" "load_action aid db' = Inr r"
    by (auto simp: reconcile_unknown_def get_action_row_Inr utc_now_def Let_def split: if_splits option.splits)
  note a = action_of_row [OF inv row(1)]
  have "''unknown'' \<in> set executor_completion_states" by (simp add: executor_completion_states_def)
  then obtain l where l: "filter (\<lambda>l. bl_action_id l = aid) (behavior_logs db) = [l]" and b: "behavior_ok E db row l"
    using a row(2) by (auto simp: action_ok_def Let_def)
  have "log \<in> set (filter (\<lambda>l. bl_action_id l = aid) (behavior_logs db))" using fetchone_Some [OF log] by simp
  with l have [simp]: "log = l" by simp
  have lm: "l \<in> set (behavior_logs db)" "bl_action_id l = aid" using fetchone_Some [OF log] by simp_all
  let ?h = "behavior_log.history (bl_log_id l) db"
  from b row(2) obtain r1 where h: "?h = [r1]" "br_log r1 = l" "br_revision_number r1 = 1" "bl_result_status l = ''unknown''"
    by (cases ?h; cases "tl ?h") (auto simp: behavior_ok_def Let_def contiguous_def)
  have "latest = r1"
    using latest h(1) by (simp add: latest_behavior_revision_def fetchall_by_def behavior_log.history_def)
  let ?l2 = "l\<lparr>bl_occurred_at := ?ts, bl_result_status := st, bl_side_effect_summary := sum, bl_public_explanation := expl\<rparr>"
  from s(1) obtain br where ins: "insert_behavior_revision br (?db1\<lparr>fresh_ids := Suc (fresh_ids ?db1), ticks := Suc (ticks ?db1)\<rparr>) = Inr db2"
    and br: "br_log br = ?l2" "br_revision_number br = 2"
      "br_state_hash br = behavior_log_state_hash E ?l2 (br_revision_number br) (br_reason br)"
    using h \<open>latest = r1\<close>
    by (force simp: append_behavior_log_revision_def new_id_def utc_now_def Let_def update_action_def behavior_log.history_def next_revision_def)
  from ins have db2: "db2 = ?db1\<lparr>fresh_ids := Suc (fresh_ids ?db1), ticks := Suc (ticks ?db1),
      behavior_log_revisions := behavior_log_revisions ?db1 @ [br]\<rparr>"
    by (auto simp: insert_behavior_revision_def Let_def split: if_splits)
  have ch: "ledger_change E aid ?f [] [br] db db'"
    using record_and_load [OF s(2,3), of ?f db row "[]" "[br]"] row
    by (simp add: db2 update_action_def complete_action_def)
  then have bl: "behavior_logs db' = behavior_logs db" "behavior_log_revisions db' = behavior_log_revisions db @ [br]"
    and acts: "actions db' = update_where (\<lambda>r. ac_action_id r = aid) ?f (actions db)"
    by (auto simp: ledger_change_def)
  have h': "behavior_log.history (bl_log_id l) db' = [r1, br]"
    using h(1) br(1) by (simp add: behavior_log.history_def bl br_log_id_def)
  have st: "st \<noteq> ''unknown''" "st \<in> set executor_completion_states" "st \<noteq> ''prepared''" "st \<noteq> ''executing''"
    using row(3) by (auto simp add: reconciliation_states_def executor_completion_states_def)
  have "behavior_ok E db' (?f row) l"
    using h' h b br st(1) lm(2) a(3)
    by (simp add: behavior_ok_def complete_action_def contiguous_def stable_fields_def)
  moreover have "retry_ok (?f row)" using a(2) row(2) st(3,4) by (simp add: retry_ok_def complete_action_def)
  ultimately show "ledger_inv E db'"
    using a l st(2) inv br(1) lm
    by (intro ledger_change_inv [OF inv ch row(1)]) (auto simp: complete_action_def bl ledger_inv_def br_log_id_def)
  show "\<exists>row ts. fetchone (\<lambda>r. ac_action_id r = aid) (actions db) = Some row \<and> ac_status row = ''unknown''
      \<and> st \<in> set reconciliation_states
      \<and> actions db' = update_where (\<lambda>r. ac_action_id r = aid) (complete_action st result ts) (actions db)"
    using row acts by blast
qed

lemma new_action_row_simps [simp]:
  "ac_action_id (new_action_row E a i t) = i" "ac_subject_id (new_action_row E a i t) = aa_subject_id a"
  "ac_status (new_action_row E a i t) = ''prepared''" "ac_retry_count (new_action_row E a i t) = 0"
  "ac_idempotency_key (new_action_row E a i t) = effective_key E a"
  by (simp_all add: new_action_row_def)

lemma prepare_new_effect:
  assumes "prepare_new E mx a db = Inr (r, db')"
  shows "\<exists>aid ts rev. actions db' = actions db @ [new_action_row E a aid ts] \<and> aid \<notin> ac_action_id ` set (actions db)
      \<and> action_revisions db' = action_revisions db @ [rev] \<and> ar_action_id rev = aid
      \<and> ar_subject_id rev = aa_subject_id a \<and> ar_status rev = ''prepared''
      \<and> ar_state_hash rev = action_state_hash E (new_action_row E a aid ts)
      \<and> ar_revision_number rev = next_revision (map ar_revision_number (action_log.history aid db))
      \<and> behavior_logs db' = behavior_logs db \<and> behavior_log_revisions db' = behavior_log_revisions db
      \<and> action_from_row (new_action_row E a aid ts) = Inr r
      \<and> runtime_state db' = runtime_state db \<and> goals db' = goals db \<and> autonomous_projects db' = autonomous_projects db
      \<and> autonomous_project_phases db' = autonomous_project_phases db \<and> retry_blocks db' = retry_blocks db"
proof -
  let ?aid = "''act_'' @ env_uuid E (fresh_ids db)" and ?ts = "env_clock E (ticks db)"
  let ?row = "new_action_row E a ?aid ?ts"
  let ?db = "db\<lparr>fresh_ids := Suc (fresh_ids db), ticks := Suc (ticks db)\<rparr>"
  have rid: "ac_action_id ?row = ?aid" "ac_subject_id ?row = aa_subject_id a" "ac_status ?row = ''prepared''"
    by simp_all
  from assms obtain db3 where s: "insert_action ?row ?db = Inr db3" "record_revision E ?aid ''prepared'' db3 = Inr db'"
    "load_action ?aid db' = Inr r"
    by (auto simp: prepare_new_def new_id_def utc_now_def Let_def)
  from s(1) have db3: "db3 = ?db\<lparr>actions := actions db @ [?row]\<rparr>" and fresh: "?aid \<notin> ac_action_id ` set (actions db)"
    by (auto simp: insert_action_def split: if_splits)
  have fo: "fetchone (\<lambda>r. ac_action_id r = ?aid) (actions db @ [?row]) = Some ?row"
    by (rule fetchone_snoc_fresh [OF fetchone_fresh_key [OF fresh]]) (rule rid(1))
  from s(2) obtain rev where ins: "insert_action_revision rev (db3\<lparr>fresh_ids := Suc (fresh_ids db3), ticks := Suc (ticks db3)\<rparr>) = Inr db'"
    and rev: "ar_action_id rev = ?aid" "ar_subject_id rev = aa_subject_id a" "ar_status rev = ''prepared''"
      "ar_state_hash rev = action_state_hash E ?row"
      "ar_revision_number rev = next_revision (map ar_revision_number (action_log.history ?aid db))"
    using fo rid by (force simp: record_revision_def get_action_row_Inr db3 new_id_def utc_now_def Let_def action_log.history_def)
  from ins have db': "db' = db3\<lparr>fresh_ids := Suc (fresh_ids db3), ticks := Suc (ticks db3),
      action_revisions := action_revisions db3 @ [rev]\<rparr>"
    by (auto simp: insert_action_revision_def split: if_splits)
  have "action_from_row ?row = Inr r" using s(3) fo by (auto simp: load_action_def get_action_row_Inr db' db3)
  with rev fresh db' db3 show ?thesis by (intro exI [of _ ?aid] exI [of _ ?ts] exI [of _ rev]) simp
qed

lemma prepare_new_inv:
  assumes inv: "ledger_inv E db" and "prepare_new E mx a db = Inr (r, db')"
  shows "ledger_inv E db'"
proof -
  from prepare_new_effect [OF assms(2)] obtain aid ts rev where
    t: "actions db' = actions db @ [new_action_row E a aid ts]" "aid \<notin> ac_action_id ` set (actions db)"
      "action_revisions db' = action_revisions db @ [rev]"
    and rev: "ar_action_id rev = aid" "ar_subject_id rev = aa_subject_id a" "ar_status rev = ''prepared''"
      "ar_state_hash rev = action_state_hash E (new_action_row E a aid ts)"
      "ar_revision_number rev = next_revision (map ar_revision_number (action_log.history aid db))"
    and bl: "behavior_logs db' = behavior_logs db" "behavior_log_revisions db' = behavior_log_revisions db"
    and ok: "action_from_row (new_action_row E a aid ts) = Inr r" by blast
  let ?row = "new_action_row E a aid ts"
  have rid: "ac_action_id ?row = aid" "ac_subject_id ?row = aa_subject_id a" "ac_status ?row = ''prepared''"
    "ac_retry_count ?row = 0" by simp_all
  have revs: "\<forall>r\<in>set (action_revisions db). ar_action_id r \<in> ac_action_id ` set (actions db)"
    and logs: "\<forall>l\<in>set (behavior_logs db). \<exists>a\<in>set (actions db). ac_action_id a = bl_action_id l \<and> ac_subject_id a = bl_subject_id l"
    using inv by (simp_all add: ledger_inv_def)
  have "action_log.history aid db = []"
    using revs t(2) unfolding action_log.history_def by (intro filter_False) metis
  then have h: "action_log.history aid db' = [rev]" "ar_revision_number rev = 1"
    using rev(1,5) by (simp_all add: action_log.history_def t next_revision_def)
  have "filter (\<lambda>l. bl_action_id l = aid) (behavior_logs db') = []"
    using logs t(2) unfolding bl by (intro filter_False) (metis image_eqI)
  then have new: "action_ok E db' ?row"
    using h rev ok rid by (simp add: action_ok_def contiguous_def action_states_def executor_completion_states_def)
  have old: "action_ok E db' b" if "b \<in> set (actions db)" for b
  proof (rule action_ok_other)
    show "action_ok E db b" using inv that by (simp add: ledger_inv_def)
    have "ac_action_id b \<noteq> aid" using that t(2) by auto
    then show "action_log.history (ac_action_id b) db' = action_log.history (ac_action_id b) db"
      using rev(1) by (simp add: action_log.history_def t)
  qed (simp_all add: bl behavior_log.history_def)
  have "\<forall>l\<in>set (behavior_logs db'). \<exists>a\<in>set (actions db'). ac_action_id a = bl_action_id l \<and> ac_subject_id a = bl_subject_id l"
    using logs by (fastforce simp: bl t(1))
  moreover have "\<forall>r\<in>set (action_revisions db'). ar_action_id r \<in> ac_action_id ` set (actions db')"
    using revs rev(1) rid(1) by (auto simp: t)
  moreover have "retry_ok ?row" by (simp add: retry_ok_def rid)
  ultimately show ?thesis using inv t(2) new old rid(1) by (auto simp: ledger_inv_def bl t(1))
qed

lemma prepare_Inr:
  assumes "prepare E mx a db = Inr (r, db')"
  shows "prepare_new E mx a db = Inr (r, db')
    \<or> db' = db \<and> (\<exists>row\<in>set (actions db). ac_subject_id row = aa_subject_id a \<and> ac_idempotency_key row = effective_key E a
        \<and> same_action E a row \<and> action_from_row row = Inr r)"
proof (cases "fetchone (\<lambda>r. ac_subject_id r = aa_subject_id a \<and> ac_idempotency_key r = effective_key E a) (actions db)")
  case None
  with assms show ?thesis by (auto simp: prepare_def Let_def split: if_splits)
next
  case (Some row)
  with assms fetchone_Some [OF Some] show ?thesis by (auto simp: prepare_def Let_def split: if_splits)
qed

section \<open>Runs\<close>

inductive action_step :: "env \<Rightarrow> nat \<Rightarrow> 'a action_db_scheme \<Rightarrow> 'a action_db_scheme \<Rightarrow> bool" for E mx where
  do_prepare: "prepare E mx a db = Inr (r, db') \<Longrightarrow> action_step E mx db db'"
| do_start: "start E aid db = Inr (r, db') \<Longrightarrow> action_step E mx db db'"
| do_finish: "finish E aid st result s db = Inr (r, db') \<Longrightarrow> action_step E mx db db'"
| do_cancel: "cancel E aid reason db = Inr (r, db') \<Longrightarrow> action_step E mx db db'"
| do_recover: "recover_interrupted E sid db = Inr (rs, db') \<Longrightarrow> action_step E mx db db'"
| do_reconcile: "reconcile_unknown E aid st result expl ses db = Inr (r, db') \<Longrightarrow> action_step E mx db db'"

inductive ledger_reachable :: "env \<Rightarrow> nat \<Rightarrow> 'a action_db_scheme \<Rightarrow> bool" for E mx where
  ledger_empty: "actions db = [] \<Longrightarrow> action_revisions db = [] \<Longrightarrow> behavior_logs db = [] \<Longrightarrow>
     behavior_log_revisions db = [] \<Longrightarrow> ledger_reachable E mx db"
| ledger_more: "ledger_reachable E mx db \<Longrightarrow> action_step E mx db db' \<Longrightarrow> ledger_reachable E mx db'"

definition action_successors :: "string \<Rightarrow> string set" where
  "action_successors s =
     (if s = ''prepared'' then {''executing'', ''cancelled''}
      else if s = ''executing'' then set executor_completion_states
      else if s = ''unknown'' then set reconciliation_states else {})"

interpretation action_machine: status_machine "set action_states" action_successors
  by unfold_locales
    (auto simp: action_successors_def action_states_def executor_completion_states_def reconciliation_states_def)

lemma action_step_inv:
  assumes "action_step E mx db db'" "ledger_inv E db"
  shows "ledger_inv E db'"
  using assms
proof cases
  case (do_prepare a r)
  from prepare_Inr [OF do_prepare] prepare_new_inv [OF assms(2)] assms(2) show ?thesis by blast
qed (blast intro: start_inv finish_inv(1) cancel_inv(1) recover_interrupted_inv(1) reconcile_unknown_inv(1))+

lemma ledger_reachable_inv: "ledger_reachable E mx db \<Longrightarrow> ledger_inv E db"
proof (induction rule: ledger_reachable.induct)
  case (ledger_more db db')
  then show ?case by (blast intro: action_step_inv)
qed (simp add: ledger_inv_def)

text \<open>Every row survives a step, with a status reached along the table.\<close>

lemma update_one_row:
  assumes inv: "ledger_inv E db" and row: "fetchone (\<lambda>r. ac_action_id r = aid) (actions db) = Some row"
    and acts: "actions db' = update_where (\<lambda>r. ac_action_id r = aid) f (actions db)"
    and f: "ac_action_id (f row) = aid" "ac_subject_id (f row) = ac_subject_id row"
      "ac_status (f row) \<in> action_successors (ac_status row)" "ac_retry_count row \<le> ac_retry_count (f row)"
    and a: "a \<in> set (actions db)"
  shows "\<exists>b\<in>set (actions db'). ac_action_id b = ac_action_id a \<and> ac_subject_id b = ac_subject_id a
    \<and> (b = a \<or> ac_status b \<in> action_successors (ac_status a))"
proof (cases "ac_action_id a = aid")
  case True
  have "a = row" using distinct_key_eq [OF _ a, of ac_action_id row] inv True fetchone_Some [OF row]
    by (simp add: ledger_inv_def)
  then have "f row \<in> set (actions db')" using a True by (auto simp: acts set_update_where)
  with \<open>a = row\<close> f True show ?thesis by blast
next
  case False
  with a have "a \<in> set (actions db')" by (force simp: acts set_update_where)
  then show ?thesis by blast
qed

lemma action_step_moves:
  assumes "action_step E mx db db'" and inv: "ledger_inv E db" and a: "a \<in> set (actions db)"
  shows "\<exists>b\<in>set (actions db'). ac_action_id b = ac_action_id a \<and> ac_subject_id b = ac_subject_id a
    \<and> (b = a \<or> ac_status b \<in> action_successors (ac_status a))"
  using assms(1)
proof cases
  case (do_prepare x r)
  from prepare_Inr [OF do_prepare] have "a \<in> set (actions db')"
    using prepare_new_effect [of E mx x db r db'] a by auto
  then show ?thesis by blast
next
  case (do_start aid r)
  then show ?thesis
  proof (rule start_effect)
    fix row now
    let ?f = "\<lambda>r. r\<lparr>ac_status := ''executing'', ac_retry_count := ac_retry_count r + 1,
        ac_started_at := Some now, ac_completed_at := None\<rparr>"
    assume r: "fetchone (\<lambda>r. ac_action_id r = aid) (actions db) = Some row" "ac_status row = ''prepared''"
      and "ledger_change E aid ?f [] [] db db'"
    then have acts: "actions db' = update_where (\<lambda>r. ac_action_id r = aid) ?f (actions db)"
      by (auto simp: ledger_change_def)
    show ?thesis using r fetchone_Some [OF r(1)]
      by (intro update_one_row [OF inv r(1) acts _ _ _ _ a]) (auto simp: action_successors_def)
  qed
next
  case (do_finish aid st result s r)
  from finish_inv(2) [OF inv this] obtain row ts where r: "fetchone (\<lambda>r. ac_action_id r = aid) (actions db) = Some row"
    "ac_status row = ''executing''" "st \<in> set executor_completion_states"
    "actions db' = update_where (\<lambda>r. ac_action_id r = aid) (complete_action st result ts) (actions db)" by blast
  then show ?thesis using fetchone_Some [OF r(1)]
    by (intro update_one_row [OF inv r(1) r(4) _ _ _ _ a]) (auto simp: action_successors_def complete_action_def)
next
  case (do_cancel aid reason r)
  from cancel_inv(2) [OF inv this] obtain row result ts where r: "fetchone (\<lambda>r. ac_action_id r = aid) (actions db) = Some row"
    "ac_status row = ''prepared''"
    "actions db' = update_where (\<lambda>r. ac_action_id r = aid) (complete_action ''cancelled'' result ts) (actions db)" by blast
  then show ?thesis using fetchone_Some [OF r(1)]
    by (intro update_one_row [OF inv r(1) r(3) _ _ _ _ a]) (auto simp: action_successors_def complete_action_def)
next
  case (do_recover sid rs)
  note rc = recover_interrupted_inv [OF inv this]
  have "ac_action_id a \<in> set (map ac_action_id (actions db'))" using a unfolding rc(5) by simp
  then obtain b where b: "b \<in> set (actions db')" "ac_action_id b = ac_action_id a" by auto
  from rc(4) b(1) obtain c where c: "c \<in> set (actions db)" "ac_action_id b = ac_action_id c" "ac_subject_id b = ac_subject_id c"
    "b = c \<or> ac_status c = ''executing'' \<and> ac_status b = ''unknown''" by blast
  have "c = a" using distinct_key_eq [of ac_action_id, OF _ c(1) a] inv b(2) c(2) by (simp add: ledger_inv_def)
  with b c show ?thesis
    by (intro bexI [of _ b]) (auto simp: action_successors_def executor_completion_states_def)
next
  case (do_reconcile aid st result expl ses r)
  from reconcile_unknown_inv(2) [OF inv this] obtain row ts where r: "fetchone (\<lambda>r. ac_action_id r = aid) (actions db) = Some row"
    "ac_status row = ''unknown''" "st \<in> set reconciliation_states"
    "actions db' = update_where (\<lambda>r. ac_action_id r = aid) (complete_action st result ts) (actions db)" by blast
  then show ?thesis using fetchone_Some [OF r(1)]
    by (intro update_one_row [OF inv r(1) r(4) _ _ _ _ a]) (auto simp: action_successors_def complete_action_def)
qed


section \<open>A sample ledger\<close>

definition sample_adb :: action_db where
  "sample_adb = \<lparr>ticks = 0, fresh_ids = 0, subject_identity = [''s''], runtime_state = [], events = [],
     event_chain_roots = [], training_policies = [], training_records = [], audit_records = [],
     private_conversation_messages = [], private_conversations = [], goals = [], autonomous_projects = [],
     autonomous_project_phases = [], retry_blocks = [], actions = [], action_revisions = [],
     behavior_logs = [], behavior_log_revisions = []\<rparr>"

definition sample_action :: action_args where
  "sample_action = \<lparr>aa_subject_id = ''s'', aa_action_type = ''web'', aa_tool = ''t'', aa_target = ''x'',
     aa_input = JObj [], aa_goal_id = None, aa_project_id = None, aa_phase_id = None, aa_strategy_id = None,
     aa_expected_outcome = '''', aa_side_effect = True, aa_resource_cost = None, aa_idempotency_key = Some ''k''\<rparr>"

definition sample_summary :: public_summary where
  "sample_summary = \<lparr>ps_goal_reference = None, ps_target = None, ps_side_effect = ''none'', ps_resource = ''none'',
     ps_explanation = '''', ps_redaction_reason = None\<rparr>"

definition prepared_adb :: action_db where
  "prepared_adb = after (prepare sample_env 10 sample_action sample_adb) sample_adb"

definition started_adb :: action_db where
  "started_adb = after (start sample_env ''act_'' prepared_adb) prepared_adb"

definition finished_adb :: action_db where
  "finished_adb = after (finish sample_env ''act_'' ''succeeded'' (JObj []) sample_summary started_adb) started_adb"

lemma loads_empty_object: "strict_json_loads ''{}'' = Inr (JObj [])"
  using strict_json_loads_canonical [of "JObj []"] by simp

lemma loads_recovery:
  "strict_json_loads (canonical_json (JObj [])) = Inr (JObj [])"
  "strict_json_loads (canonical_json (JObj [(''recovery'', JStr t), (''side_effect_may_have_occurred'', JBool b)]))
    = Inr (JObj [(''recovery'', JStr t), (''side_effect_may_have_occurred'', JBool b)])"
  by (subst strict_json_loads_canonical; simp)+

lemmas ledger_eval = replicate_eval prepare_def prepare_new_def sample_action_def blank_iff py_isspace_def
  check_action_scope_def runtime_of_def sleep_states_def retry_blocked_def effective_key_def
  require_action_capacity_def new_id_def utc_now_def new_action_row_def insert_action_def record_revision_def
  get_action_row_def insert_action_revision_def load_action_def action_from_row_def action_states_def
  effective_cost_def action_state_hash_def content_hash_def next_revision_def loads_empty_object is_object_def
  sample_env_def after_def start_def update_action_def finish_def complete_action_def insert_behavior_log_def
  executor_completion_states_def new_behavior_log_def insert_behavior_log_row_def append_behavior_log_revision_def
  insert_behavior_revision_def br_log_id_def behavior_log_state_hash_def sample_summary_def opt_blank_def Let_def

lemma prepared_value: "prepared_adb = sample_adb\<lparr>fresh_ids := 2, ticks := 2,
   actions := [new_action_row sample_env sample_action ''act_'' sample_time],
   action_revisions := [\<lparr>ar_revision_id = ''arev_a'', ar_action_id = ''act_'', ar_subject_id = ''s'',
     ar_revision_number = 1, ar_status = ''prepared'', ar_state_hash = ''h'', ar_reason = ''prepared'', ar_created_at = sample_time\<rparr>]\<rparr>"
  by (simp add: prepared_adb_def sample_adb_def ledger_eval)

lemma prepared_step: "is_ok (prepare sample_env 10 sample_action sample_adb)"
  by (simp add: sample_adb_def ledger_eval)

lemma started_step: "is_ok (start sample_env ''act_'' prepared_adb)"
  unfolding prepared_value by (simp add: sample_adb_def ledger_eval)


lemma started_value: "started_adb = prepared_adb\<lparr>fresh_ids := 3, ticks := 4,
   actions := [(new_action_row sample_env sample_action ''act_'' sample_time)\<lparr>ac_status := ''executing'', ac_retry_count := 1,
     ac_started_at := Some sample_time\<rparr>],
   action_revisions := action_revisions prepared_adb @ [\<lparr>ar_revision_id = ''arev_aa'', ar_action_id = ''act_'', ar_subject_id = ''s'',
     ar_revision_number = 2, ar_status = ''executing'', ar_state_hash = ''h'', ar_reason = ''started'', ar_created_at = sample_time\<rparr>]\<rparr>"
  unfolding started_adb_def prepared_value by (simp add: sample_adb_def ledger_eval)

lemma finished_step: "is_ok (finish sample_env ''act_'' ''succeeded'' (JObj []) sample_summary started_adb)"
  unfolding started_value prepared_value by (simp add: sample_adb_def ledger_eval)

lemma sample_reachable:
  "ledger_reachable sample_env 10 sample_adb" "ledger_reachable sample_env 10 prepared_adb"
  "ledger_reachable sample_env 10 started_adb" "ledger_reachable sample_env 10 finished_adb"
proof -
  show 0: "ledger_reachable sample_env 10 sample_adb" by (rule ledger_empty) (simp_all add: sample_adb_def)
  from after_ok [OF prepared_step, of sample_adb] 0 show 1: "ledger_reachable sample_env 10 prepared_adb"
    unfolding prepared_adb_def by (blast intro: ledger_more do_prepare)
  from after_ok [OF started_step, of prepared_adb] 1 show 2: "ledger_reachable sample_env 10 started_adb"
    unfolding started_adb_def by (blast intro: ledger_more do_start)
  from after_ok [OF finished_step, of started_adb] 2 show 3: "ledger_reachable sample_env 10 finished_adb"
    unfolding finished_adb_def by (blast intro: ledger_more do_finish)
qed

lemma finished_actions: "\<exists>a\<in>set (actions finished_adb). ac_status a = ''succeeded'' \<and> ac_retry_count a = 1"
  unfolding finished_adb_def started_value prepared_value by (simp add: sample_adb_def ledger_eval)

section \<open>Properties\<close>

text \<open>
  C18. Every ledger reached from an empty one by any sequence of operations passes
  \<open>verify_integrity\<close>, for every subject: revision histories are complete and in order,
  their last digest matches the row, and exactly the completed actions have one behaviour
  log with a consistent history.
\<close>

theorem ledger_always_verifies:
  assumes "ledger_reachable E mx db"
  shows "is_ok (verify_integrity E sid db)"
  by (rule ledger_inv_verifies [OF ledger_reachable_inv [OF assms]])

text \<open>
  C19. At most once: in every reachable ledger no action has been started more than once,
  and an action that was never started has no start recorded.
\<close>

theorem action_starts_at_most_once:
  assumes "ledger_reachable E mx db" and "a \<in> set (actions db)"
  shows "0 \<le> ac_retry_count a \<and> ac_retry_count a \<le> 1
    \<and> (ac_status a = ''prepared'' \<longrightarrow> ac_retry_count a = 0) \<and> (ac_status a = ''executing'' \<longrightarrow> ac_retry_count a = 1)"
  using ledger_reachable_inv [OF assms(1)] assms(2)
  by (auto simp: ledger_inv_def retry_ok_def split: if_splits)

text \<open>
  C20. A definite outcome is final: an action that succeeded, failed or was cancelled keeps
  its row unchanged through every later sequence of operations.
\<close>

theorem definite_outcome_final:
  assumes "ledger_reachable E mx db" and "(action_step E mx)\<^sup>*\<^sup>* db db'"
    and "a \<in> set (actions db)" and "ac_status a \<in> {''succeeded'', ''failed'', ''cancelled''}"
  shows "a \<in> set (actions db')"
proof -
  have "ledger_reachable E mx db' \<and> a \<in> set (actions db')"
    using assms(2)
  proof (induction rule: rtranclp_induct)
    case (step y z)
    then have "ledger_reachable E mx z" by (blast intro: ledger_more)
    moreover from action_step_moves [OF step(2) ledger_reachable_inv] step.IH
    obtain b where "b \<in> set (actions z)" "b = a \<or> ac_status b \<in> action_successors (ac_status a)" by blast
    moreover have "action_successors (ac_status a) = {}" using assms(4) by (auto simp: action_successors_def)
    ultimately show ?case by auto
  qed (use assms in simp)
  then show ?thesis ..
qed

text \<open>
  C21. Recovery quarantines: after \<open>recover_interrupted\<close> no action of the subject is
  executing; the interrupted ones are \<open>unknown\<close> with their start count kept, and every
  other action is untouched.
\<close>

theorem recovery_quarantines:
  assumes "ledger_reachable E mx db" and "recover_interrupted E sid db = Inr (rs, db')"
  shows "(\<forall>a\<in>set (actions db'). ac_subject_id a = sid \<longrightarrow> ac_status a \<noteq> ''executing'')
    \<and> (\<forall>a\<in>set (actions db'). \<exists>b\<in>set (actions db). ac_action_id a = ac_action_id b \<and>
        (a = b \<or> ac_subject_id b = sid \<and> ac_status b = ''executing'' \<and> ac_status a = ''unknown''
          \<and> ac_retry_count a = ac_retry_count b))
    \<and> map ac_action_id (actions db') = map ac_action_id (actions db)"
proof -
  note rc = recover_interrupted_inv [OF ledger_reachable_inv [OF assms(1)] assms(2)]
  from rc(4) have "\<forall>a\<in>set (actions db'). \<exists>b\<in>set (actions db). ac_action_id a = ac_action_id b \<and>
        (a = b \<or> ac_subject_id b = sid \<and> ac_status b = ''executing'' \<and> ac_status a = ''unknown''
          \<and> ac_retry_count a = ac_retry_count b)" by blast
  with rc(2,5) show ?thesis by blast
qed

text \<open>
  Preparing is idempotent: repeating a successful \<open>prepare\<close> with the same arguments
  returns the same record and changes nothing.
\<close>

theorem prepare_idempotent:
  assumes "prepare E mx a db = Inr (r, db')"
  shows "prepare E mx a db' = Inr (r, db')"
proof -
  have g: "\<not> (blank (aa_action_type a) \<or> blank (aa_tool a) \<or> blank (aa_target a))"
    "\<not> (case aa_idempotency_key a of None \<Rightarrow> False | Some k \<Rightarrow> blank k)" "check_action_scope a db = Inr ()"
    "(case runtime_of (aa_subject_id a) db of None \<Rightarrow> [] | Some r \<Rightarrow> rt_state r) \<notin> set sleep_states"
    "\<not> retry_blocked a db"
    using assms unfolding prepare_def Let_def by (auto split: if_splits)
  let ?p = "\<lambda>r. ac_subject_id r = aa_subject_id a \<and> ac_idempotency_key r = effective_key E a"
  show ?thesis
  proof (cases "fetchone ?p (actions db)")
    case (Some row)
    with assms g have "db' = db" unfolding prepare_def Let_def by (auto split: if_splits)
    with assms show ?thesis by simp
  next
    case None
    with assms g have "prepare_new E mx a db = Inr (r, db')"
      unfolding prepare_def Let_def by (simp split: if_splits)
    from prepare_new_effect [OF this] obtain aid ts where
      t: "actions db' = actions db @ [new_action_row E a aid ts]" "action_from_row (new_action_row E a aid ts) = Inr r"
        "runtime_state db' = runtime_state db" "goals db' = goals db" "autonomous_projects db' = autonomous_projects db"
        "autonomous_project_phases db' = autonomous_project_phases db" "retry_blocks db' = retry_blocks db" by blast
    have f: "fetchone ?p (actions db') = Some (new_action_row E a aid ts)"
      unfolding t(1) by (rule fetchone_snoc_fresh [OF None]) simp
    have "check_action_scope a db' = check_action_scope a db" unfolding check_action_scope_def t(4-6) ..
    moreover have "retry_blocked a db' = retry_blocked a db" unfolding retry_blocked_def t(7) ..
    moreover have "runtime_of (aa_subject_id a) db' = runtime_of (aa_subject_id a) db" by (rule runtime_of_cong [OF t(3)])
    moreover have "same_action E a (new_action_row E a aid ts)" by (simp add: same_action_def new_action_row_def)
    ultimately show ?thesis using g f t(2) unfolding prepare_def Let_def by simp
  qed
qed

text \<open>
  The public log withholds by default: finishing an action without an explicit public
  target publishes the placeholder, never the target, and says why.
\<close>

theorem finish_withholds_target:
  assumes "finish E aid st result s db = Inr (r, db')" and "opt_blank (ps_target s)"
  shows "\<exists>l. behavior_logs db' = behavior_logs db @ [l] \<and> bl_action_id l = aid
    \<and> bl_public_target l = ''[private]'' \<and> bl_redaction_reason l \<noteq> None"
proof -
  let ?ts = "env_clock E (ticks db)"
  from assms(1) obtain row db2 where row: "fetchone (\<lambda>r. ac_action_id r = aid) (actions db) = Some row"
    and s: "insert_behavior_log E row ?ts st s (update_action aid (complete_action st result ?ts) (db\<lparr>ticks := Suc (ticks db)\<rparr>)) = Inr db2"
      "record_revision E aid ''finished'' db2 = Inr db'"
    by (auto simp: finish_def get_action_row_Inr utc_now_def Let_def split: if_splits)
  from insert_behavior_log_effect [OF s(1)] obtain l lid where
    l: "behavior_logs db2 = behavior_logs db @ [l]" "l = new_behavior_log lid row ?ts st s"
    by (auto simp: update_action_def)
  from s(2) have "behavior_logs db' = behavior_logs db2"
    by (auto simp: record_revision_def insert_action_revision_def new_id_def utc_now_def Let_def split: if_splits)
  with l assms(2) fetchone_Some [OF row] show ?thesis
    by (auto simp: new_behavior_log_def Let_def)
qed

theorem ledger_always_verifies_witness: "is_ok (verify_integrity sample_env ''s'' finished_adb)"
  by (rule ledger_always_verifies [OF sample_reachable(4)])

theorem action_starts_at_most_once_witness:
  "\<exists>a\<in>set (actions started_adb). ac_status a = ''executing'' \<and> ac_retry_count a = 1"
  using action_starts_at_most_once [OF sample_reachable(3), of "hd (actions started_adb)"]
  by (simp add: started_value)

theorem definite_outcome_final_witness:
  "\<exists>a\<in>set (actions finished_adb). ac_status a = ''succeeded''"
proof -
  obtain a where a: "a \<in> set (actions finished_adb)" "ac_status a = ''succeeded''" using finished_actions by blast
  have "a \<in> set (actions finished_adb)"
    by (rule definite_outcome_final [OF sample_reachable(4) rtranclp.rtrancl_refl a(1)]) (simp add: a(2))
  with a show ?thesis by blast
qed

theorem recovery_quarantines_witness:
  "\<exists>rs db. recover_interrupted sample_env ''s'' started_adb = Inr (rs, db)
    \<and> (\<forall>a\<in>set (actions db). ac_subject_id a = ''s'' \<longrightarrow> ac_status a \<noteq> ''executing'')"
proof -
  have "is_ok (recover_interrupted sample_env ''s'' started_adb)"
    unfolding started_value prepared_value
    by (simp add: recover_interrupted_def recover_one_def fetchall_by_def sample_adb_def loads_recovery ledger_eval
        del: canonical_json.simps)
  then obtain rs db where r: "recover_interrupted sample_env ''s'' started_adb = Inr (rs, db)"
    by (auto simp: is_ok_iff)
  with recovery_quarantines [OF sample_reachable(3) r] show ?thesis by blast
qed

theorem prepare_idempotent_witness: "is_ok (prepare sample_env 10 sample_action prepared_adb)"
proof -
  obtain r where "prepare sample_env 10 sample_action sample_adb = Inr (r, prepared_adb)"
    using after_ok [OF prepared_step, of sample_adb] unfolding prepared_adb_def by blast
  from prepare_idempotent [OF this] show ?thesis by simp
qed

theorem finish_withholds_target_witness:
  "\<exists>l\<in>set (behavior_logs finished_adb). bl_public_target l = ''[private]''"
proof -
  obtain r where f: "finish sample_env ''act_'' ''succeeded'' (JObj []) sample_summary started_adb = Inr (r, finished_adb)"
    using after_ok [OF finished_step, of started_adb] unfolding finished_adb_def by blast
  have "opt_blank (ps_target sample_summary)" by (simp add: opt_blank_def sample_summary_def)
  from finish_withholds_target [OF f this] show ?thesis by auto
qed

end
