(* ===== verification/Workflow.thy ===== *)
theory Workflow
  imports EventStore StateMachine
begin

text \<open>
  The durable workflow store of \<^verbatim>\<open>autonomy/workflow.py\<close>: an append-only table of
  checkpoints per workflow, the guarded transitions between their statuses, and the
  integrity check over the stored history.  The clock is read before the transaction
  opens, so a checkpoint has two phases: \<open>checkpoint_begin\<close> checks the arguments and reads the
  clock, \<open>checkpoint_commit\<close> runs the transaction with that reading.  Callers interleave between
  the phases, and may commit in the other order than they read the clock.  The record is read back after
  the commit, so a commit returns a result inside the committed database.
\<close>

section \<open>Rows and records\<close>

record workflow_row =
  wf_workflow_id :: string
  wf_subject_id :: string
  wf_workflow_type :: string
  wf_checkpoint_version :: int
  wf_status :: string
  wf_state_json :: string
  wf_state_hash :: string
  wf_reason :: string
  wf_created_at :: string

record workflow_db = kernel_db +
  workflow_checkpoints :: "workflow_row list"

record workflow_checkpoint =
  wc_workflow_id :: string
  wc_subject_id :: string
  wc_workflow_type :: string
  wc_checkpoint_version :: int
  wc_status :: string
  wc_state :: json
  wc_reason :: string
  wc_created_at :: string

section \<open>Transitions\<close>

definition workflow_statuses :: "string set" where
  "workflow_statuses = {''running'', ''interrupted'', ''waiting'', ''completed'', ''failed''}"

definition workflow_allowed :: "string option \<Rightarrow> string set" where
  "workflow_allowed s =
     (if s = None then {''running''}
      else if s = Some ''running'' then {''running'', ''waiting'', ''interrupted'', ''completed'', ''failed''}
      else if s = Some ''waiting'' then {''running'', ''interrupted'', ''failed''}
      else if s = Some ''interrupted'' then {''running'', ''failed''}
      else if s = Some ''failed'' then {''running''}
      else {})"

section \<open>Reading a row\<close>

definition workflow_persisted_text :: "string \<Rightarrow> string \<Rightarrow> string res" where
  "workflow_persisted_text value context =
     (if blank value then Inl (IntegrityError (context @ '' is invalid'')) else Inr value)"

definition workflow_parse_time :: "string \<Rightarrow> datetime res" where
  "workflow_parse_time value =
     (let e = IntegrityError ''workflow checkpoint timestamp is invalid''
      in res_bind (res_wrap e (fromisoformat value)) (\<lambda>parsed.
           if dt_offset parsed = None then Inl e else Inr parsed))"

text \<open>Aware datetimes compare by the instants they denote.\<close>

definition dt_instant :: "datetime \<Rightarrow> int" where
  "dt_instant d = int (dt_micros d) - 1000000 * (case dt_offset d of Some off \<Rightarrow> off | None \<Rightarrow> 0)"

definition workflow_from_row :: "env \<Rightarrow> workflow_row \<Rightarrow> workflow_checkpoint res" where
  "workflow_from_row E row =
     res_bind (workflow_persisted_text (wf_workflow_id row) ''workflow id'') (\<lambda>workflow_id.
       let context = ''workflow checkpoint '' @ workflow_id in
       res_bind (workflow_persisted_text (wf_subject_id row) (context @ '' subject'')) (\<lambda>subject_id.
       res_bind (workflow_persisted_text (wf_workflow_type row) (context @ '' workflow type'')) (\<lambda>workflow_type.
       res_bind (workflow_persisted_text (wf_reason row) (context @ '' reason'')) (\<lambda>reason.
       res_bind (workflow_persisted_text (wf_created_at row) (context @ '' created_at'')) (\<lambda>created_at.
       res_bind (workflow_parse_time created_at) (\<lambda>_.
         if wf_status row \<notin> workflow_statuses
         then Inl (IntegrityError (context @ '' status is invalid''))
         else if wf_checkpoint_version row < 1
         then Inl (IntegrityError (context @ '' version is invalid''))
         else
           res_bind (res_wrap (IntegrityError (context @ '' state JSON is invalid''))
               (strict_json_loads (wf_state_json row))) (\<lambda>state.
             if \<not> is_object state \<or> \<not> valid_hash (wf_state_hash row)
                \<or> content_hash (env_sha256 E) state \<noteq> wf_state_hash row
             then Inl (IntegrityError (''workflow checkpoint hash mismatch: '' @ workflow_id))
             else Inr \<lparr>wc_workflow_id = workflow_id, wc_subject_id = subject_id,
                       wc_workflow_type = workflow_type,
                       wc_checkpoint_version = wf_checkpoint_version row,
                       wc_status = wf_status row, wc_state = state, wc_reason = reason,
                       wc_created_at = created_at\<rparr>)))))))"

section \<open>Operations\<close>

text \<open>\<open>ORDER BY checkpoint_version DESC LIMIT 1\<close>.\<close>

definition latest_row :: "string \<Rightarrow> 'a workflow_db_scheme \<Rightarrow> workflow_row option" where
  "latest_row workflow_id db =
     (case rev (fetchall_by (\<lambda>r. wf_workflow_id r = workflow_id) wf_checkpoint_version (workflow_checkpoints db)) of
        [] \<Rightarrow> None
      | r # _ \<Rightarrow> Some r)"

definition insert_workflow_row :: "workflow_row \<Rightarrow> 'a workflow_db_scheme \<Rightarrow> ('a workflow_db_scheme) res" where
  "insert_workflow_row r db =
     (if \<exists>x\<in>set (workflow_checkpoints db).
           wf_workflow_id x = wf_workflow_id r \<and> wf_checkpoint_version x = wf_checkpoint_version r
      then Inl (SqliteIntegrityError ''UNIQUE constraint failed: workflow_checkpoints'')
      else if wf_subject_id r \<notin> set (subject_identity db)
      then Inl (SqliteIntegrityError ''FOREIGN KEY constraint failed'')
      else if \<not> 0 < wf_checkpoint_version r \<or> wf_status r \<notin> workflow_statuses
      then Inl (SqliteIntegrityError ''CHECK constraint failed: workflow_checkpoints'')
      else Inr (db\<lparr>workflow_checkpoints := workflow_checkpoints db @ [r]\<rparr>))"

definition show_status :: "string option \<Rightarrow> string" where
  "show_status s = (case s of None \<Rightarrow> ''None'' | Some t \<Rightarrow> t)"

definition new_checkpoint_row ::
    "env \<Rightarrow> string \<Rightarrow> string \<Rightarrow> string \<Rightarrow> string \<Rightarrow> (string \<times> json) list \<Rightarrow> string \<Rightarrow> string
      \<Rightarrow> workflow_checkpoint option \<Rightarrow> workflow_row" where
  "new_checkpoint_row E subject_id workflow_id workflow_type status state reason now previous =
     \<lparr>wf_workflow_id = workflow_id, wf_subject_id = subject_id, wf_workflow_type = workflow_type,
      wf_checkpoint_version = (case previous of None \<Rightarrow> 1 | Some p \<Rightarrow> wc_checkpoint_version p + 1),
      wf_status = status, wf_state_json = canonical_json (JObj state),
      wf_state_hash = content_hash (env_sha256 E) (JObj state),
      wf_reason = reason, wf_created_at = now\<rparr>"

text \<open>The record of the latest row, if there is one.\<close>

definition previous_record :: "env \<Rightarrow> string \<Rightarrow> 'a workflow_db_scheme \<Rightarrow> workflow_checkpoint option res" where
  "previous_record E workflow_id db =
     (case latest_row workflow_id db of
        None \<Rightarrow> Inr None
      | Some row \<Rightarrow> res_bind (workflow_from_row E row) (\<lambda>rec. Inr (Some rec)))"

definition checkpoint_transaction ::
    "env \<Rightarrow> string \<Rightarrow> string \<Rightarrow> string \<Rightarrow> string \<Rightarrow> (string \<times> json) list \<Rightarrow> string \<Rightarrow> string
      \<Rightarrow> 'a workflow_db_scheme \<Rightarrow> (workflow_row \<times> 'a workflow_db_scheme) res" where
  "checkpoint_transaction E subject_id workflow_id workflow_type status state reason now db =
     res_bind (previous_record E workflow_id db) (\<lambda>previous.
       if (\<exists>p. previous = Some p \<and> wc_subject_id p \<noteq> subject_id)
       then Inl (PermissionError ''workflow belongs to another subject'')
       else if (\<exists>p. previous = Some p \<and> wc_workflow_type p \<noteq> workflow_type)
       then Inl (ValueError ''workflow type cannot change across checkpoints'')
       else if status \<notin> workflow_allowed (map_option wc_status previous)
       then Inl (ValueError (''invalid workflow transition: ''
              @ show_status (map_option wc_status previous) @ '' -> '' @ status))
       else
         (let r = new_checkpoint_row E subject_id workflow_id workflow_type status state reason now previous
          in res_bind (insert_workflow_row r db) (\<lambda>db1. Inr (r, db1))))"

text \<open>A call that has read the clock and waits for its transaction.\<close>

record checkpoint_call =
  cc_subject_id :: string
  cc_workflow_id :: string
  cc_workflow_type :: string
  cc_status :: string
  cc_state :: "(string \<times> json) list"
  cc_reason :: string
  cc_now :: string

definition checkpoint_begin ::
    "env \<Rightarrow> string \<Rightarrow> string \<Rightarrow> string \<Rightarrow> string \<Rightarrow> (string \<times> json) list \<Rightarrow> string
      \<Rightarrow> 'a workflow_db_scheme \<Rightarrow> (checkpoint_call \<times> 'a workflow_db_scheme) res" where
  "checkpoint_begin E subject_id workflow_id workflow_type status state reason db =
     (if list_ex blank [subject_id, workflow_id, workflow_type, reason]
      then Inl (ValueError ''workflow checkpoint metadata cannot be blank'')
      else if status \<notin> workflow_statuses
      then Inl (ValueError ''workflow checkpoint status is invalid'')
      else if length (canonical_json (JObj state)) > 1000000
      then Inl (ValueError ''workflow checkpoint exceeds one megabyte'')
      else
        (let (now, db1) = utc_now E db
         in Inr (\<lparr>cc_subject_id = subject_id, cc_workflow_id = workflow_id, cc_workflow_type = workflow_type,
               cc_status = status, cc_state = state, cc_reason = reason, cc_now = now\<rparr>, db1)))"

definition checkpoint_commit ::
    "env \<Rightarrow> checkpoint_call \<Rightarrow> 'a workflow_db_scheme \<Rightarrow> (workflow_checkpoint res \<times> 'a workflow_db_scheme) res" where
  "checkpoint_commit E c db =
     res_bind (checkpoint_transaction E (cc_subject_id c) (cc_workflow_id c) (cc_workflow_type c) (cc_status c) (cc_state c)
         (cc_reason c) (cc_now c) db)
       (\<lambda>(row, db2). Inr (workflow_from_row E row, db2))"

definition checkpoint ::
    "env \<Rightarrow> string \<Rightarrow> string \<Rightarrow> string \<Rightarrow> string \<Rightarrow> (string \<times> json) list \<Rightarrow> string
      \<Rightarrow> 'a workflow_db_scheme \<Rightarrow> (workflow_checkpoint res \<times> 'a workflow_db_scheme) res" where
  "checkpoint E subject_id workflow_id workflow_type status state reason db =
     res_bind (checkpoint_begin E subject_id workflow_id workflow_type status state reason db) (\<lambda>(call, db1).
       checkpoint_commit E call db1)"

definition workflow_latest :: "env \<Rightarrow> string \<Rightarrow> 'a workflow_db_scheme \<Rightarrow> workflow_checkpoint res" where
  "workflow_latest E workflow_id db =
     (case latest_row workflow_id db of
        None \<Rightarrow> Inl (NotFoundError (''workflow not found: '' @ workflow_id))
      | Some row \<Rightarrow> workflow_from_row E row)"

definition resume ::
    "env \<Rightarrow> string \<Rightarrow> string \<Rightarrow> (string \<times> json) list \<Rightarrow> string
      \<Rightarrow> 'a workflow_db_scheme \<Rightarrow> (workflow_checkpoint res \<times> 'a workflow_db_scheme) res" where
  "resume E subject_id workflow_id state reason db =
     res_bind (workflow_latest E workflow_id db) (\<lambda>current.
       checkpoint E subject_id workflow_id (wc_workflow_type current) ''running'' state reason db)"

section \<open>Integrity check\<close>

definition earlier_created :: "workflow_checkpoint \<Rightarrow> workflow_checkpoint \<Rightarrow> bool res" where
  "earlier_created record prior =
     res_bind (workflow_parse_time (wc_created_at record)) (\<lambda>a.
     res_bind (workflow_parse_time (wc_created_at prior)) (\<lambda>b.
       Inr (dt_instant a < dt_instant b)))"

definition history_mismatch :: "workflow_checkpoint \<Rightarrow> workflow_checkpoint option \<Rightarrow> bool res" where
  "history_mismatch record prior =
     (if wc_checkpoint_version record
          \<noteq> (case prior of None \<Rightarrow> 1 | Some p \<Rightarrow> wc_checkpoint_version p + 1)
         \<or> wc_status record \<notin> workflow_allowed (map_option wc_status prior)
      then Inr True
      else case prior of
          None \<Rightarrow> Inr False
        | Some p \<Rightarrow> if wc_workflow_type record \<noteq> wc_workflow_type p then Inr True
                    else earlier_created record p)"

definition verify_checkpoint ::
    "env \<Rightarrow> string \<Rightarrow> workflow_row \<Rightarrow> (string \<Rightarrow> workflow_checkpoint option)
      \<Rightarrow> (string \<Rightarrow> workflow_checkpoint option) res" where
  "verify_checkpoint E subject_id row previous =
     res_bind (workflow_from_row E row) (\<lambda>record.
       if wc_subject_id record \<noteq> subject_id
       then Inl (IntegrityError (''workflow checkpoint ownership mismatch: '' @ wc_workflow_id record))
       else res_bind (history_mismatch record (previous (wc_workflow_id record))) (\<lambda>bad.
         if bad
         then Inl (IntegrityError (''workflow checkpoint history is invalid: '' @ wc_workflow_id record))
         else Inr (previous(wc_workflow_id record \<mapsto> record))))"

definition workflow_crossing :: "string \<Rightarrow> 'a workflow_db_scheme \<Rightarrow> workflow_row option" where
  "workflow_crossing subject_id db =
     fetchone (\<lambda>own. wf_subject_id own = subject_id
         \<and> (\<exists>other\<in>set (workflow_checkpoints db). wf_workflow_id other = wf_workflow_id own
              \<and> wf_subject_id other \<noteq> wf_subject_id own))
       (workflow_checkpoints db)"

definition workflow_verify_integrity :: "env \<Rightarrow> string \<Rightarrow> 'a workflow_db_scheme \<Rightarrow> nat res" where
  "workflow_verify_integrity E subject_id db =
     (if blank subject_id then Inl (IntegrityError ''workflow checkpoint subject is invalid'')
      else case workflow_crossing subject_id db of
          Some own \<Rightarrow> Inl (IntegrityError (''workflow checkpoint crosses subject boundary: '' @ wf_workflow_id own))
        | None \<Rightarrow>
            (let rows = fetchall_by (\<lambda>r. wf_subject_id r = subject_id)
                   (\<lambda>r. (wf_workflow_id r, wf_checkpoint_version r)) (workflow_checkpoints db)
             in res_bind (res_fold (verify_checkpoint E subject_id) rows (\<lambda>_. None)) (\<lambda>_.
                  Inr (length rows))))"

section \<open>Histories\<close>

text \<open>
  The specification of a workflow's history: every row reads back, and consecutive
  checkpoints follow the table with consecutive versions, one type and ordered times.
\<close>

fun checkpoint_chain :: "env \<Rightarrow> workflow_checkpoint option \<Rightarrow> workflow_row list \<Rightarrow> bool" where
  "checkpoint_chain E p [] = True"
| "checkpoint_chain E p (r # rs) =
     (case workflow_from_row E r of
        Inl _ \<Rightarrow> False
      | Inr c \<Rightarrow> history_mismatch c p = Inr False \<and> checkpoint_chain E (Some c) rs)"

text \<open>The condition apart from the times: what every interleaving of the callers preserves.\<close>

definition link_ok :: "workflow_checkpoint \<Rightarrow> workflow_checkpoint option \<Rightarrow> bool" where
  "link_ok c prior =
     (wc_checkpoint_version c = (case prior of None \<Rightarrow> 1 | Some p \<Rightarrow> wc_checkpoint_version p + 1)
      \<and> wc_status c \<in> workflow_allowed (map_option wc_status prior)
      \<and> (case prior of None \<Rightarrow> True | Some p \<Rightarrow> wc_workflow_type c = wc_workflow_type p))"

fun linked :: "env \<Rightarrow> workflow_checkpoint option \<Rightarrow> workflow_row list \<Rightarrow> bool" where
  "linked E p [] = True"
| "linked E p (r # rs) =
     (case workflow_from_row E r of
        Inl _ \<Rightarrow> False
      | Inr c \<Rightarrow> link_ok c p \<and> linked E (Some c) rs)"

text \<open>Times are compared by the instants they denote.\<close>

definition time_le :: "string \<Rightarrow> string \<Rightarrow> bool" where
  "time_le s t = (case (workflow_parse_time s, workflow_parse_time t) of
     (Inr a, Inr b) \<Rightarrow> dt_instant a \<le> dt_instant b | _ \<Rightarrow> False)"

definition in_order :: "workflow_row list \<Rightarrow> bool" where
  "in_order rs = successively (\<lambda>a b. time_le (wf_created_at a) (wf_created_at b)) rs"

definition workflow_history :: "string \<Rightarrow> 'a workflow_db_scheme \<Rightarrow> workflow_row list" where
  "workflow_history w db = filter (\<lambda>r. wf_workflow_id r = w) (workflow_checkpoints db)"

definition workflow_inv :: "env \<Rightarrow> 'a workflow_db_scheme \<Rightarrow> bool" where
  "workflow_inv E db =
     (\<forall>w. linked E None (workflow_history w db)
        \<and> (\<exists>s. \<forall>r\<in>set (workflow_history w db). wf_subject_id r = s))"

lemma workflow_inv_same:
  "workflow_checkpoints db' = workflow_checkpoints db \<Longrightarrow> workflow_inv E db' = workflow_inv E db"
  by (simp add: workflow_inv_def workflow_history_def)

lemma workflow_from_row_fields:
  assumes "workflow_from_row E r = Inr c"
  shows "wc_workflow_id c = wf_workflow_id r" "wc_subject_id c = wf_subject_id r"
    "wc_workflow_type c = wf_workflow_type r" "wc_checkpoint_version c = wf_checkpoint_version r"
    "wc_status c = wf_status r" "wc_reason c = wf_reason r" "wc_created_at c = wf_created_at r"
    "strict_json_loads (wf_state_json r) = Inr (wc_state c)"
    "\<exists>d. workflow_parse_time (wf_created_at r) = Inr d" "0 < wf_checkpoint_version r"
  using assms
  by (auto simp: workflow_from_row_def workflow_persisted_text_def Let_def split: if_splits)

lemma workflow_from_row_nonblank:
  assumes "workflow_from_row E r = Inr c"
  shows "\<not> blank (wf_workflow_id r)" "\<not> blank (wf_subject_id r)" "\<not> blank (wf_workflow_type r)"
    "wf_status r \<in> workflow_statuses"
  using assms
  by (auto simp: workflow_from_row_def workflow_persisted_text_def Let_def split: if_splits)

lemma linked_reads: "linked E p rs \<Longrightarrow> r \<in> set rs \<Longrightarrow> \<exists>c. workflow_from_row E r = Inr c"
  by (induction rs arbitrary: p) (auto split: sum.splits)

lemma history_mismatch_iff:
  "history_mismatch c p = Inr False
     \<longleftrightarrow> link_ok c p \<and> (case p of None \<Rightarrow> True | Some q \<Rightarrow> time_le (wc_created_at q) (wc_created_at c))"
  by (cases p) (auto simp: history_mismatch_def link_ok_def earlier_created_def time_le_def split: sum.splits)

lemma chain_iff_linked:
  "checkpoint_chain E p rs \<longleftrightarrow> linked E p rs \<and> in_order rs
     \<and> (case p of None \<Rightarrow> True | Some q \<Rightarrow> rs = [] \<or> time_le (wc_created_at q) (wf_created_at (hd rs)))"
proof (induction rs arbitrary: p)
  case (Cons r rs)
  show ?case
  proof (cases "workflow_from_row E r")
    case (Inr c)
    note f = workflow_from_row_fields(7) [OF Inr]
    show ?thesis using Inr f Cons.IH [of "Some c"]
      by (cases rs) (auto simp: history_mismatch_iff in_order_def split: option.splits)
  qed simp
qed (simp add: in_order_def split: option.split)

lemma verify_fold_iff:
  assumes "\<forall>r\<in>set rows. wf_subject_id r = sid"
  shows "(\<exists>m'. res_fold (verify_checkpoint E sid) rows m = Inr m')
    \<longleftrightarrow> (\<forall>w. checkpoint_chain E (m w) (filter (\<lambda>r. wf_workflow_id r = w) rows))"
  using assms
proof (induction rows arbitrary: m)
  case (Cons r rows)
  show ?case
  proof (cases "workflow_from_row E r")
    case (Inl e)
    then show ?thesis by (auto simp: verify_checkpoint_def)
  next
    case (Inr c)
    note f = workflow_from_row_fields [OF Inr]
    have "(\<exists>m'. res_fold (verify_checkpoint E sid) (r # rows) m = Inr m')
      \<longleftrightarrow> history_mismatch c (m (wf_workflow_id r)) = Inr False
        \<and> (\<exists>m'. res_fold (verify_checkpoint E sid) rows (m(wf_workflow_id r \<mapsto> c)) = Inr m')"
      using Inr f Cons.prems by (auto simp: verify_checkpoint_def)
    also have "\<dots> \<longleftrightarrow> history_mismatch c (m (wf_workflow_id r)) = Inr False
        \<and> (\<forall>w. checkpoint_chain E ((m(wf_workflow_id r \<mapsto> c)) w) (filter (\<lambda>r. wf_workflow_id r = w) rows))"
      using Cons by simp
    also have "\<dots> \<longleftrightarrow> (\<forall>w. checkpoint_chain E (m w) (filter (\<lambda>r. wf_workflow_id r = w) (r # rows)))"
      using Inr by (auto split: if_splits)
    finally show ?thesis .
  qed
qed simp

lemma filter_fetchall_by:
  "filter (\<lambda>r. wf_workflow_id r = w) (fetchall_by p (\<lambda>r. (wf_workflow_id r, wf_checkpoint_version r)) t)
   = fetchall_by (\<lambda>r. p r \<and> wf_workflow_id r = w) wf_checkpoint_version t"
  unfolding fetchall_by_def filter_sort filter_filter
  by (rule trans [OF sort_key_cong_on [where g = wf_checkpoint_version]])
    (auto intro!: arg_cong [where f = "sort_key _"] filter_cong)

lemma workflow_verify_iff:
  "workflow_verify_integrity E sid db = Inr n \<longleftrightarrow>
     \<not> blank sid \<and> workflow_crossing sid db = None
     \<and> (\<forall>w. checkpoint_chain E None (fetchall_by (\<lambda>r. wf_subject_id r = sid \<and> wf_workflow_id r = w)
               wf_checkpoint_version (workflow_checkpoints db)))
     \<and> n = count_where (\<lambda>r. wf_subject_id r = sid) (workflow_checkpoints db)"
proof -
  let ?rows = "fetchall_by (\<lambda>r. wf_subject_id r = sid)
       (\<lambda>r. (wf_workflow_id r, wf_checkpoint_version r)) (workflow_checkpoints db)"
  have "\<forall>r\<in>set ?rows. wf_subject_id r = sid" by (simp add: fetchall_by_def)
  from verify_fold_iff [OF this, of E "\<lambda>_. None"] have
    "(\<exists>m'. res_fold (verify_checkpoint E sid) ?rows (\<lambda>_. None) = Inr m')
     \<longleftrightarrow> (\<forall>w. checkpoint_chain E None (fetchall_by (\<lambda>r. wf_subject_id r = sid \<and> wf_workflow_id r = w)
               wf_checkpoint_version (workflow_checkpoints db)))"
    by (simp add: filter_fetchall_by)
  moreover have "length ?rows = count_where (\<lambda>r. wf_subject_id r = sid) (workflow_checkpoints db)"
    by (simp add: fetchall_by_def count_where_def)
  ultimately show ?thesis
    by (auto simp: workflow_verify_integrity_def Let_def split: option.splits)
qed

lemma linked_versions:
  "linked E p rs \<Longrightarrow> i < length rs \<Longrightarrow>
   wf_checkpoint_version (rs ! i) = (case p of None \<Rightarrow> 0 | Some c \<Rightarrow> wc_checkpoint_version c) + int i + 1"
proof (induction rs arbitrary: p i)
  case (Cons r rs)
  then obtain c where c: "workflow_from_row E r = Inr c" "link_ok c p" "linked E (Some c) rs" by (auto split: sum.splits)
  have v: "wf_checkpoint_version r = (case p of None \<Rightarrow> 0 | Some c \<Rightarrow> wc_checkpoint_version c) + 1"
    using c(2) workflow_from_row_fields(4) [OF c(1)] by (auto simp: link_ok_def split: option.splits)
  show ?case
    using Cons.IH [OF c(3)] Cons.prems(2) v workflow_from_row_fields(4) [OF c(1)] by (cases i) auto
qed simp

lemma linked_sorted:
  assumes "linked E p rs"
  shows "sort_key wf_checkpoint_version rs = rs"
  using linked_versions [OF assms] by (intro sort_key_id_if_sorted) (simp add: sorted_iff_nth_mono)

lemma linked_snoc:
  "linked E p (rs @ [r]) \<longleftrightarrow> linked E p rs \<and>
     (\<exists>c. workflow_from_row E r = Inr c \<and>
        link_ok c (if rs = [] then p
          else (case workflow_from_row E (last rs) of Inr l \<Rightarrow> Some l | Inl _ \<Rightarrow> None)))"
  by (induction rs arbitrary: p) (auto split: sum.splits)

lemma chain_snoc:
  "checkpoint_chain E p (rs @ [r]) \<longleftrightarrow> checkpoint_chain E p rs \<and>
     (\<exists>c. workflow_from_row E r = Inr c \<and>
        history_mismatch c (if rs = [] then p
          else (case workflow_from_row E (last rs) of Inr l \<Rightarrow> Some l | Inl _ \<Rightarrow> None)) = Inr False)"
  by (induction rs arbitrary: p) (auto split: sum.splits)

text \<open>A store that satisfies the invariant verifies for a subject when its histories are in order.\<close>

lemma inv_same_subject:
  assumes "workflow_inv E db" "r \<in> set (workflow_checkpoints db)" "s \<in> set (workflow_checkpoints db)"
    "wf_workflow_id r = wf_workflow_id s"
  shows "wf_subject_id r = wf_subject_id s"
proof -
  have "r \<in> set (workflow_history (wf_workflow_id s) db)" "s \<in> set (workflow_history (wf_workflow_id s) db)"
    using assms(2-) by (simp_all add: workflow_history_def)
  with assms(1) show ?thesis unfolding workflow_inv_def by metis
qed

lemma inv_history_subject:
  assumes "workflow_inv E db"
  shows "fetchall_by (\<lambda>r. wf_subject_id r = sid \<and> wf_workflow_id r = w) wf_checkpoint_version (workflow_checkpoints db)
      = filter (\<lambda>r. wf_subject_id r = sid \<and> wf_workflow_id r = w) (workflow_checkpoints db)"
    "linked E None (filter (\<lambda>r. wf_subject_id r = sid \<and> wf_workflow_id r = w) (workflow_checkpoints db))"
proof -
  let ?f = "filter (\<lambda>r. wf_subject_id r = sid \<and> wf_workflow_id r = w) (workflow_checkpoints db)"
  show l: "linked E None ?f"
  proof (cases "\<exists>r\<in>set (workflow_history w db). wf_subject_id r = sid")
    case True
    then have "\<forall>r\<in>set (workflow_checkpoints db). wf_workflow_id r = w \<longrightarrow> wf_subject_id r = sid"
      unfolding workflow_history_def by (auto dest: inv_same_subject [OF assms])
    then have "?f = workflow_history w db" unfolding workflow_history_def by (intro filter_cong) auto
    then show ?thesis using assms by (simp add: workflow_inv_def)
  next
    case False
    then have "?f = []" by (auto simp: workflow_history_def filter_empty_conv)
    then show ?thesis by simp
  qed
  show "fetchall_by (\<lambda>r. wf_subject_id r = sid \<and> wf_workflow_id r = w) wf_checkpoint_version (workflow_checkpoints db) = ?f"
    using linked_sorted [OF l] by (simp add: fetchall_by_def)
qed

lemma workflow_inv_verifies:
  assumes "workflow_inv E db" "\<not> blank sid"
  shows "workflow_verify_integrity E sid db = Inr n \<longleftrightarrow> n = count_where (\<lambda>r. wf_subject_id r = sid) (workflow_checkpoints db)
    \<and> (\<forall>w. in_order (filter (\<lambda>r. wf_subject_id r = sid \<and> wf_workflow_id r = w) (workflow_checkpoints db)))"
proof -
  have "workflow_crossing sid db = None"
    unfolding workflow_crossing_def fetchone_None by (blast dest: inv_same_subject [OF assms(1)])
  then show ?thesis
    using assms(2) inv_history_subject [OF assms(1), of sid] by (auto simp: workflow_verify_iff chain_iff_linked)
qed

section \<open>Steps\<close>

lemma latest_row_max:
  assumes "x \<in> set (workflow_checkpoints db)"
  obtains l where "latest_row (wf_workflow_id x) db = Some l" "l \<in> set (workflow_checkpoints db)"
    "wf_workflow_id l = wf_workflow_id x" "wf_checkpoint_version x \<le> wf_checkpoint_version l"
proof -
  let ?t = "filter (\<lambda>y. wf_workflow_id y = wf_workflow_id x) (workflow_checkpoints db)"
  from assms have x: "x \<in> set ?t" by simp
  then have "sort_key wf_checkpoint_version ?t \<noteq> []" by (metis empty_iff empty_set set_sort)
  then obtain s l where s: "sort_key wf_checkpoint_version ?t = s @ [l]" by (metis rev_exhaust)
  moreover have "sorted (map wf_checkpoint_version (s @ [l]))" by (metis s sorted_sort_key)
  moreover have "x \<in> set (s @ [l])" "l \<in> set ?t" using x by (metis s set_sort, metis s in_set_conv_decomp set_sort)
  ultimately show thesis
    by (intro that [of l]) (auto simp: latest_row_def fetchall_by_def sorted_append)
qed

lemma latest_row_append:
  assumes "\<And>l. latest_row (wf_workflow_id r) db = Some l \<Longrightarrow> wf_checkpoint_version l < wf_checkpoint_version r"
  shows "latest_row (wf_workflow_id r) (db\<lparr>workflow_checkpoints := workflow_checkpoints db @ [r]\<rparr>) = Some r"
proof -
  let ?t = "filter (\<lambda>x. wf_workflow_id x = wf_workflow_id r) (workflow_checkpoints db)"
  have "wf_checkpoint_version x \<le> wf_checkpoint_version r" if "x \<in> set ?t" for x
  proof -
    from that have "x \<in> set (workflow_checkpoints db)" "wf_workflow_id x = wf_workflow_id r" by auto
    then show ?thesis using assms by (metis latest_row_max less_imp_le order_trans)
  qed
  then have "sort_key wf_checkpoint_version (?t @ [r]) = sort_key wf_checkpoint_version ?t @ [r]"
    by (rule sort_key_snoc_max)
  then show ?thesis by (simp add: latest_row_def fetchall_by_def)
qed

lemma previous_record_cases:
  assumes "previous_record E w db = Inr p"
  obtains "p = None" "latest_row w db = None"
  | l c where "p = Some c" "latest_row w db = Some l" "workflow_from_row E l = Inr c"
  using assms by (auto simp: previous_record_def split: option.splits)

lemma new_checkpoint_row_simps [simp]:
  "wf_workflow_id (new_checkpoint_row E sid wid ty status state reason now p) = wid"
  "wf_subject_id (new_checkpoint_row E sid wid ty status state reason now p) = sid"
  "wf_workflow_type (new_checkpoint_row E sid wid ty status state reason now p) = ty"
  "wf_checkpoint_version (new_checkpoint_row E sid wid ty status state reason now p)
     = (case p of None \<Rightarrow> 1 | Some c \<Rightarrow> wc_checkpoint_version c + 1)"
  "wf_status (new_checkpoint_row E sid wid ty status state reason now p) = status"
  "wf_created_at (new_checkpoint_row E sid wid ty status state reason now p) = now"
  by (simp_all add: new_checkpoint_row_def)

text \<open>What a committed checkpoint wrote.\<close>

lemma checkpoint_transaction_effect:
  assumes "checkpoint_transaction E sid wid ty status state reason now db = Inr (r, db')"
  obtains p where "previous_record E wid db = Inr p"
    "status \<in> workflow_allowed (map_option wc_status p)"
    "\<forall>c. p = Some c \<longrightarrow> wc_subject_id c = sid \<and> wc_workflow_type c = ty"
    "r = new_checkpoint_row E sid wid ty status state reason now p"
    "db' = db\<lparr>workflow_checkpoints := workflow_checkpoints db @ [r]\<rparr>"
    "status \<in> workflow_statuses" "1 \<le> wf_checkpoint_version r"
proof -
  obtain p where p: "previous_record E wid db = Inr p"
    using assms by (auto simp: checkpoint_transaction_def)
  show thesis
    by (rule that [OF p])
      (use assms p in \<open>auto simp: checkpoint_transaction_def insert_workflow_row_def Let_def split: if_splits\<close>)
qed

text \<open>The row a checkpoint writes reads back.\<close>

lemma new_row_reads:
  assumes "\<not> blank wid" "\<not> blank sid" "\<not> blank ty" "\<not> blank reason" "\<not> blank now"
    "workflow_parse_time now = Inr d" "status \<in> workflow_statuses"
    "1 \<le> wf_checkpoint_version (new_checkpoint_row E sid wid ty status state reason now p)" "json_wf (JObj state)"
    "valid_hash (env_sha256 E (canonical_json (JObj state)))"
  shows "workflow_from_row E (new_checkpoint_row E sid wid ty status state reason now p)
    = Inr \<lparr>wc_workflow_id = wid, wc_subject_id = sid, wc_workflow_type = ty,
          wc_checkpoint_version = (case p of None \<Rightarrow> 1 | Some c \<Rightarrow> wc_checkpoint_version c + 1),
          wc_status = status, wc_state = json_norm (JObj state), wc_reason = reason, wc_created_at = now\<rparr>"
proof -
  have "content_hash (env_sha256 E) (json_norm (JObj state)) = content_hash (env_sha256 E) (JObj state)"
    by (simp only: content_hash_def canonical_json_norm)
  moreover have "is_object (json_norm (JObj state))" by (simp add: is_object_def)
  ultimately show ?thesis
    using assms strict_json_loads_canonical [OF assms(9)]
    by (simp add: workflow_from_row_def workflow_persisted_text_def Let_def content_hash_def
        new_checkpoint_row_def del: canonical_json.simps json_norm.simps)
qed

lemma workflow_parse_blank: "blank s \<Longrightarrow> workflow_parse_time s \<noteq> Inr d"
proof
  assume b: "blank s" and p: "workflow_parse_time s = Inr d"
  then obtain e where "fromisoformat s = Inr e" by (auto simp: workflow_parse_time_def Let_def)
  then have "read_date s \<noteq> None" by (auto simp: fromisoformat_def split: option.splits)
  then have "list_all is_digit (take 4 s)" "4 \<le> length s"
    by (auto simp: read_date_def read_digits_def split: if_splits option.splits)
  moreover have "py_isspace (s ! 0)" using b \<open>4 \<le> length s\<close> by (auto simp: blank_iff intro!: nth_mem)
  ultimately have "is_digit (s ! 0)" "py_isspace (s ! 0)" by (auto simp: list_all_length)
  then show False by (auto simp: is_digit_def py_isspace_def Let_def)
qed

text \<open>A commit keeps the invariant, whatever its reading of the clock.\<close>

lemma history_latest:
  assumes "linked E None (workflow_history w db)"
  shows "latest_row w db = (if workflow_history w db = [] then None else Some (last (workflow_history w db)))"
proof -
  have "fetchall_by (\<lambda>r. wf_workflow_id r = w) wf_checkpoint_version (workflow_checkpoints db) = workflow_history w db"
    using linked_sorted [OF assms] by (simp add: fetchall_by_def workflow_history_def)
  then show ?thesis
    by (cases "workflow_history w db" rule: rev_cases) (simp_all add: latest_row_def)
qed

lemma history_previous:
  assumes "linked E None (workflow_history w db)" "previous_record E w db = Inr p"
  shows "p = (if workflow_history w db = [] then None
      else case workflow_from_row E (last (workflow_history w db)) of Inr l \<Rightarrow> Some l | Inl _ \<Rightarrow> None)"
    and "p = Some c \<Longrightarrow> last (workflow_history w db) \<in> set (workflow_history w db)
      \<and> workflow_from_row E (last (workflow_history w db)) = Inr c"
  using assms(2) history_latest [OF assms(1)]
  by (auto simp: previous_record_def split: if_splits sum.splits)

lemma new_row_continues:
  assumes ch: "linked E None (workflow_history wid db)"
    and step: "checkpoint_transaction E sid wid ty status state reason now db = Inr (r, db')"
    and c: "workflow_from_row E r = Inr c"
  shows "linked E None (workflow_history wid db @ [r])"
proof -
  obtain p where p: "previous_record E wid db = Inr p" "status \<in> workflow_allowed (map_option wc_status p)"
    "\<forall>c. p = Some c \<longrightarrow> wc_subject_id c = sid \<and> wc_workflow_type c = ty"
    and r: "r = new_checkpoint_row E sid wid ty status state reason now p"
    using step by (rule checkpoint_transaction_effect)
  have "link_ok c p" using workflow_from_row_fields [OF c] r p(2,3) by (auto simp: link_ok_def split: option.splits)
  then show ?thesis using ch c history_previous(1) [OF ch p(1)] by (auto simp: linked_snoc)
qed

lemma checkpoint_same_subject:
  assumes inv: "workflow_inv E db"
    and step: "checkpoint_transaction E sid wid ty status state reason now db = Inr (r, db')"
  shows "\<forall>x\<in>set (workflow_history wid db). wf_subject_id x = sid"
proof -
  let ?h = "workflow_history wid db"
  have ch: "linked E None ?h" using inv by (simp add: workflow_inv_def)
  obtain p where p: "previous_record E wid db = Inr p"
    "\<forall>c. p = Some c \<longrightarrow> wc_subject_id c = sid \<and> wc_workflow_type c = ty"
    using step by (rule checkpoint_transaction_effect)
  show ?thesis
  proof (cases p)
    case None
    then show ?thesis using history_previous(1) [OF ch p(1)] ch
      by (cases ?h rule: rev_cases) (auto simp: linked_snoc)
  next
    case (Some l)
    then have "last ?h \<in> set ?h" "wf_subject_id (last ?h) = sid"
      using history_previous(2) [OF ch p(1)] p(2) workflow_from_row_fields(2) by fastforce+
    with inv show ?thesis unfolding workflow_inv_def by metis
  qed
qed

text \<open>What a pending call has checked; its reading of the clock is a timestamp.\<close>

definition call_ok :: "checkpoint_call \<Rightarrow> bool" where
  "call_ok c = (\<not> blank (cc_workflow_id c) \<and> \<not> blank (cc_subject_id c) \<and> \<not> blank (cc_workflow_type c) \<and> \<not> blank (cc_reason c)
     \<and> json_wf (JObj (cc_state c)) \<and> is_ok (workflow_parse_time (cc_now c)))"

lemma commit_obtain:
  assumes "checkpoint_commit E c db = Inr (rec, db')"
  obtains r where "checkpoint_transaction E (cc_subject_id c) (cc_workflow_id c) (cc_workflow_type c) (cc_status c) (cc_state c)
         (cc_reason c) (cc_now c) db = Inr (r, db')" "rec = workflow_from_row E r"
    "wf_workflow_id r = cc_workflow_id c" "wf_subject_id r = cc_subject_id c" "wf_created_at r = cc_now c"
    "workflow_checkpoints db' = workflow_checkpoints db @ [r]"
proof -
  obtain r where r: "checkpoint_transaction E (cc_subject_id c) (cc_workflow_id c) (cc_workflow_type c) (cc_status c) (cc_state c)
         (cc_reason c) (cc_now c) db = Inr (r, db')" "rec = workflow_from_row E r"
    using assms by (auto simp: checkpoint_commit_def)
  show thesis by (rule that [OF r]) (use r(1) in \<open>auto elim!: checkpoint_transaction_effect\<close>)
qed

lemma commit_inv:
  assumes inv: "workflow_inv E db" and step: "checkpoint_commit E c db = Inr (rec, db')" and ok: "call_ok c" "digests_valid E"
  shows "workflow_inv E db'"
proof -
  let ?w = "cc_workflow_id c"
  obtain r where r: "checkpoint_transaction E (cc_subject_id c) ?w (cc_workflow_type c) (cc_status c) (cc_state c)
         (cc_reason c) (cc_now c) db = Inr (r, db')" "wf_workflow_id r = ?w" "wf_subject_id r = cc_subject_id c"
      "workflow_checkpoints db' = workflow_checkpoints db @ [r]"
    using step by (rule commit_obtain)
  obtain d where d: "workflow_parse_time (cc_now c) = Inr d" using ok(1) by (auto simp: call_ok_def is_ok_iff)
  then have nn: "\<not> blank (cc_now c)" using workflow_parse_blank by blast
  obtain p where row: "r = new_checkpoint_row E (cc_subject_id c) ?w (cc_workflow_type c) (cc_status c) (cc_state c) (cc_reason c) (cc_now c) p"
    and st: "cc_status c \<in> workflow_statuses" and v: "1 \<le> wf_checkpoint_version r"
    using r(1) by (rule checkpoint_transaction_effect)
  have "valid_hash (env_sha256 E (canonical_json (JObj (cc_state c))))" using ok(2) by (simp add: digests_valid_def)
  then obtain k where k: "workflow_from_row E r = Inr k"
    using new_row_reads [OF _ _ _ _ nn d st v [unfolded row]] ok(1) by (simp add: row call_ok_def)
  have ch: "linked E None (workflow_history ?w db)" using inv by (simp add: workflow_inv_def)
  note new = new_row_continues [OF ch r(1) k]
  have "workflow_history w db' = workflow_history w db @ (if w = ?w then [r] else [])" for w
    using r(2) by (auto simp: workflow_history_def r(4))
  moreover have "\<exists>s. \<forall>x\<in>set (workflow_history ?w db @ [r]). wf_subject_id x = s"
    using checkpoint_same_subject [OF inv r(1)] r(3) by auto
  ultimately have "linked E None (workflow_history w db')
      \<and> (\<exists>s. \<forall>x\<in>set (workflow_history w db'). wf_subject_id x = s)" for w
    using new inv [unfolded workflow_inv_def, THEN spec, of w] by (cases "w = ?w") simp_all
  then show ?thesis by (simp add: workflow_inv_def)
qed

section \<open>Reachable stores\<close>

text \<open>
  The store with the calls that have read the clock and not yet committed.  A call begins with
  any arguments, \<open>resume\<close> with the type it read before; any pending call may be the next to commit,
  and is rolled back when its transaction raises.  Other components may read the clock in between.
\<close>

inductive workflow_step ::
    "env \<Rightarrow> 'a workflow_db_scheme \<times> checkpoint_call list \<Rightarrow> 'a workflow_db_scheme \<times> checkpoint_call list \<Rightarrow> bool" for E where
  step_begin: "checkpoint_begin E sid wid ty status state reason db = Inr (c, db') \<Longrightarrow> json_wf (JObj state) \<Longrightarrow>
     workflow_step E (db, calls) (db', c # calls)"
| step_commit: "c \<in> set calls \<Longrightarrow> checkpoint_commit E c db = Inr (rec, db') \<Longrightarrow>
     workflow_step E (db, calls) (db', remove1 c calls)"
| step_fail: "c \<in> set calls \<Longrightarrow> checkpoint_commit E c db = Inl e \<Longrightarrow> workflow_step E (db, calls) (db, remove1 c calls)"
| step_other: "workflow_checkpoints db' = workflow_checkpoints db \<Longrightarrow> ticks db \<le> ticks db' \<Longrightarrow>
     workflow_step E (db, calls) (db', calls)"

inductive workflow_reachable :: "env \<Rightarrow> 'a workflow_db_scheme \<times> checkpoint_call list \<Rightarrow> bool" for E where
  reach_init: "workflow_checkpoints db = [] \<Longrightarrow> workflow_reachable E (db, [])"
| reach_next: "workflow_reachable E s \<Longrightarrow> workflow_step E s s' \<Longrightarrow> workflow_reachable E s'"

text \<open>\<open>utc_now\<close> returns a timestamp with a time zone.  Nothing is said of the order of its values.\<close>

definition clock_readable :: "env \<Rightarrow> bool" where
  "clock_readable E = (\<forall>n. is_ok (workflow_parse_time (env_clock E n)))"

definition clock_monotone :: "env \<Rightarrow> bool" where
  "clock_monotone E = (\<forall>i j. i \<le> j \<longrightarrow> time_le (env_clock E i) (env_clock E j))"

lemma begin_call_ok:
  assumes "checkpoint_begin E sid wid ty status state reason db = Inr (c, db')" "json_wf (JObj state)" "clock_readable E"
  shows "call_ok c \<and> workflow_checkpoints db' = workflow_checkpoints db"
  using assms by (auto simp: checkpoint_begin_def call_ok_def clock_readable_def utc_now_def Let_def split: if_splits)

lemma workflow_step_keeps:
  assumes "workflow_step E s s'" "digests_valid E" "clock_readable E" "workflow_inv E (fst s)" "\<forall>c\<in>set (snd s). call_ok c"
  shows "workflow_inv E (fst s') \<and> (\<forall>c\<in>set (snd s'). call_ok c)"
  using assms(1)
proof cases
  case (step_begin sid wid ty status state reason db c db' calls)
  then show ?thesis using begin_call_ok [OF step_begin(3,4) assms(3)] assms(4,5) workflow_inv_same [of db' db] by auto
next
  case (step_commit c calls db rec db')
  then show ?thesis using commit_inv [of E db c rec db'] assms(2,4,5) by (auto dest: notin_set_remove1)
next
  case (step_fail c calls db e)
  then show ?thesis using assms(4,5) by (auto dest: notin_set_remove1)
next
  case (step_other db' db calls)
  then show ?thesis using assms(4,5) workflow_inv_same [of db' db] by auto
qed

lemma workflow_reachable_inv:
  assumes "workflow_reachable E s" "digests_valid E" "clock_readable E"
  shows "workflow_inv E (fst s) \<and> (\<forall>c\<in>set (snd s). call_ok c)"
  using assms
proof induction
  case (reach_init db)
  then show ?case by (simp add: workflow_inv_def workflow_history_def)
next
  case (reach_next s s')
  then show ?case using workflow_step_keeps by blast
qed

text \<open>Calls that do not overlap are begun and committed in one go.\<close>

lemma checkpoint_steps:
  assumes "checkpoint E sid wid ty status state reason db = Inr (rec, db')" "json_wf (JObj state)"
  shows "(workflow_step E)\<^sup>*\<^sup>* (db, calls) (db', calls)"
proof -
  obtain c db1 where b: "checkpoint_begin E sid wid ty status state reason db = Inr (c, db1)" "checkpoint_commit E c db1 = Inr (rec, db')"
    using assms(1) by (auto simp: checkpoint_def)
  have "workflow_step E (db, calls) (db1, c # calls)" by (rule step_begin [OF b(1) assms(2)])
  moreover have "workflow_step E (db1, c # calls) (db', remove1 c (c # calls))" by (rule step_commit [OF _ b(2)]) simp
  ultimately show ?thesis by simp
qed

section \<open>The history by positions\<close>

text \<open>The same history, stated of every position instead of by a loop.\<close>

definition position_valid :: "env \<Rightarrow> workflow_row list \<Rightarrow> nat \<Rightarrow> bool" where
  "position_valid E h i =
     (is_ok (workflow_from_row E (h ! i)) \<and> wf_checkpoint_version (h ! i) = int i + 1
      \<and> wf_status (h ! i) \<in> workflow_allowed (if i = 0 then None else Some (wf_status (h ! (i - 1))))
      \<and> (i = 0 \<or> wf_workflow_type (h ! i) = wf_workflow_type (h ! (i - 1))
           \<and> time_le (wf_created_at (h ! (i - 1))) (wf_created_at (h ! i))))"

definition history_valid :: "env \<Rightarrow> workflow_row list \<Rightarrow> bool" where
  "history_valid E h = (\<forall>i<length h. position_valid E h i)"

lemma position_valid_append: "i < length h \<Longrightarrow> position_valid E (h @ [r]) i = position_valid E h i"
  by (simp add: position_valid_def nth_append less_imp_diff_less)

lemma position_valid_last:
  "position_valid E (h @ [r]) (length h) \<longleftrightarrow>
     is_ok (workflow_from_row E r) \<and> wf_checkpoint_version r = int (length h) + 1
     \<and> wf_status r \<in> workflow_allowed (if h = [] then None else Some (wf_status (last h)))
     \<and> (h = [] \<or> wf_workflow_type r = wf_workflow_type (last h)
          \<and> time_le (wf_created_at (last h)) (wf_created_at r))"
  by (cases h rule: rev_cases) (simp_all add: position_valid_def nth_append)

lemma history_valid_snoc:
  "history_valid E (h @ [r]) \<longleftrightarrow> history_valid E h \<and> position_valid E (h @ [r]) (length h)"
  by (auto simp: history_valid_def less_Suc_eq position_valid_append)

lemma history_mismatch_None:
  assumes "workflow_from_row E r = Inr c"
  shows "history_mismatch c None = Inr False
    \<longleftrightarrow> wf_checkpoint_version r = 1 \<and> wf_status r \<in> workflow_allowed None"
  using workflow_from_row_fields [OF assms] by (simp add: history_mismatch_def)

lemma history_mismatch_Some:
  assumes "workflow_from_row E r = Inr c" "workflow_from_row E q = Inr p"
  shows "history_mismatch c (Some p) = Inr False
    \<longleftrightarrow> wf_checkpoint_version r = wf_checkpoint_version q + 1
      \<and> wf_status r \<in> workflow_allowed (Some (wf_status q)) \<and> wf_workflow_type r = wf_workflow_type q
      \<and> time_le (wf_created_at q) (wf_created_at r)"
  using workflow_from_row_fields [OF assms(1)] workflow_from_row_fields [OF assms(2)]
  by (auto simp: history_mismatch_def earlier_created_def time_le_def)

lemma checkpoint_chain_valid: "checkpoint_chain E None h \<longleftrightarrow> history_valid E h"
proof (induction h rule: rev_induct)
  case (snoc r h)
  note pos = history_valid_snoc position_valid_last
  show ?case
  proof (cases "checkpoint_chain E None h")
    case False
    with snoc show ?thesis by (simp add: chain_snoc pos)
  next
    case True
    show ?thesis
    proof (cases "h = []")
      case True
      then show ?thesis
        using history_mismatch_None [of E r] position_valid_last [of E "[]" r]
        by (cases "workflow_from_row E r") (simp_all add: history_valid_def)
    next
      case False
      then obtain p where p: "workflow_from_row E (last h) = Inr p"
        using True by (cases h rule: rev_cases) (auto simp: chain_snoc)
      have v: "wf_checkpoint_version (last h) = int (length h)"
        using linked_versions [OF conjunct1 [OF True [unfolded chain_iff_linked]], of "length h - 1"] False by (cases h rule: rev_cases) simp_all
      have "history_valid E h" using True snoc by simp
      then show ?thesis
        using False True p v history_mismatch_Some [where q = "last h" and p = p and r = r and E = E]
        by (cases "workflow_from_row E r") (simp_all add: chain_snoc pos)
    qed
  qed
qed (simp add: history_valid_def)

section \<open>Completed workflows\<close>

interpretation workflow_machine: status_machine workflow_statuses "\<lambda>s. workflow_allowed (Some s)"
  by unfold_locales (auto simp: workflow_statuses_def workflow_allowed_def split: if_splits)

lemma latest_row_same:
  "workflow_history w db' = workflow_history w db \<Longrightarrow> latest_row w db' = latest_row w db"
  by (simp add: latest_row_def fetchall_by_def workflow_history_def)

lemma completed_no_checkpoint:
  assumes "latest_row wid db = Some l" "wf_status l = ''completed''"
  shows "checkpoint_transaction E sid wid ty status state reason now db \<noteq> Inr (r, db')"
proof
  assume "checkpoint_transaction E sid wid ty status state reason now db = Inr (r, db')"
  then obtain p where p: "previous_record E wid db = Inr p" "status \<in> workflow_allowed (map_option wc_status p)"
    by (rule checkpoint_transaction_effect)
  from p(1) assms obtain c where "p = Some c" "wc_status c = ''completed''"
    by (auto simp: previous_record_def dest: workflow_from_row_fields(5))
  with p(2) show False by (simp add: workflow_allowed_def)
qed

lemma workflow_step_completed:
  assumes "workflow_step E s s'" "latest_row w (fst s) = Some l" "wf_status l = ''completed''"
  shows "workflow_history w (fst s') = workflow_history w (fst s)"
  using assms(1)
proof cases
  case (step_begin sid wid ty status state reason db c db' calls)
  then show ?thesis by (auto simp: checkpoint_begin_def utc_now_def workflow_history_def Let_def split: if_splits)
next
  case (step_commit c calls db rec db')
  obtain r where r: "checkpoint_transaction E (cc_subject_id c) (cc_workflow_id c) (cc_workflow_type c) (cc_status c) (cc_state c)
         (cc_reason c) (cc_now c) db = Inr (r, db')" "wf_workflow_id r = cc_workflow_id c" "workflow_checkpoints db' = workflow_checkpoints db @ [r]"
    using step_commit(4) by (rule commit_obtain)
  have "cc_workflow_id c \<noteq> w" using completed_no_checkpoint [OF _ assms(3), of w db] assms(2) step_commit(1) r(1) by auto
  with r step_commit show ?thesis by (simp add: workflow_history_def)
qed (auto simp: workflow_history_def)

section \<open>Resuming\<close>

lemma latest_version_fresh:
  assumes "previous_record E w db = Inr p" "x \<in> set (workflow_checkpoints db)" "wf_workflow_id x = w"
  shows "wf_checkpoint_version x < (case p of None \<Rightarrow> 1 | Some c \<Rightarrow> wc_checkpoint_version c + 1)"
proof -
  obtain l where l: "latest_row w db = Some l" "wf_checkpoint_version x \<le> wf_checkpoint_version l"
    using latest_row_max [OF assms(2)] assms(3) by blast
  then obtain c where "workflow_from_row E l = Inr c" "p = Some c"
    using assms(1) by (auto simp: previous_record_def)
  with l(2) workflow_from_row_fields(4) show ?thesis by fastforce
qed

lemma checkpoint_transaction_ok:
  assumes "previous_record E wid db = Inr p" "status \<in> workflow_allowed (map_option wc_status p)"
    "\<forall>c. p = Some c \<longrightarrow> wc_subject_id c = sid \<and> wc_workflow_type c = ty"
    "sid \<in> set (subject_identity db)" "status \<in> workflow_statuses"
    "1 \<le> (case p of None \<Rightarrow> 1 | Some c \<Rightarrow> wc_checkpoint_version c + 1)"
  shows "checkpoint_transaction E sid wid ty status state reason now db
    = Inr (new_checkpoint_row E sid wid ty status state reason now p,
        db\<lparr>workflow_checkpoints := workflow_checkpoints db
            @ [new_checkpoint_row E sid wid ty status state reason now p]\<rparr>)"
proof -
  have "\<not> (\<exists>x\<in>set (workflow_checkpoints db). wf_workflow_id x = wid
      \<and> wf_checkpoint_version x = (case p of None \<Rightarrow> 1 | Some c \<Rightarrow> wc_checkpoint_version c + 1))"
    using latest_version_fresh [OF assms(1)] by fastforce
  with assms show ?thesis
    by (auto simp: checkpoint_transaction_def insert_workflow_row_def Let_def)
qed

text \<open>A committed checkpoint is the latest one.\<close>

lemma checkpoint_latest_row:
  assumes "checkpoint_transaction E sid wid ty status state reason now db = Inr (r, db')"
  shows "latest_row wid db' = Some r"
proof -
  obtain p where p: "previous_record E wid db = Inr p"
    and r: "r = new_checkpoint_row E sid wid ty status state reason now p"
    and db': "db' = db\<lparr>workflow_checkpoints := workflow_checkpoints db @ [r]\<rparr>"
    using assms by (rule checkpoint_transaction_effect)
  have "wf_checkpoint_version l < wf_checkpoint_version r" if "latest_row wid db = Some l" for l
    using p that r by (auto simp: previous_record_def dest: workflow_from_row_fields(4))
  then have "latest_row (wf_workflow_id r) (db\<lparr>workflow_checkpoints := workflow_checkpoints db @ [r]\<rparr>) = Some r"
    by (intro latest_row_append) (simp add: r)
  with db' r show ?thesis by simp
qed

section \<open>A sample store\<close>

definition sample_wdb :: workflow_db where
  "sample_wdb = kernel_db.extend sample_db (workflow_db.fields [])"

lemma sample_time_workflow:
  "workflow_parse_time sample_time = Inr \<lparr>dt_year = 2026, dt_month = 1, dt_day = 2, dt_hour = 3, dt_minute = 4,
     dt_second = 5, dt_micro = 678000, dt_offset = Some 0\<rparr>"
  by (simp add: sample_time_def workflow_parse_time_def time_eval)

lemma hex_env_clock: "clock_readable (hex_env (\<lambda>_. sample_time))"
  by (simp add: clock_readable_def sample_time_workflow)

lemma reachable_steps: "(workflow_step E)\<^sup>*\<^sup>* s s' \<Longrightarrow> workflow_reachable E s \<Longrightarrow> workflow_reachable E s'"
  by (induction rule: rtranclp_induct) (auto intro: reach_next)

lemmas workflow_eval = checkpoint_def checkpoint_begin_def checkpoint_commit_def checkpoint_transaction_def blank_iff py_isspace_def utc_now_def Let_def
  workflow_statuses_def workflow_allowed_def insert_workflow_row_def previous_record_def
  latest_row_def fetchall_by_def new_checkpoint_row_def sample_wdb_def kernel_db.defs workflow_db.defs
  sample_db_def

definition first_wdb :: workflow_db where
  "first_wdb = after (checkpoint (hex_env (\<lambda>_. sample_time)) ''s'' ''w'' ''plan'' ''running'' [] ''go'' sample_wdb) sample_wdb"

lemma first_step:
  "checkpoint (hex_env (\<lambda>_. sample_time)) ''s'' ''w'' ''plan'' ''running'' [] ''go'' sample_wdb
   = Inr (workflow_from_row (hex_env (\<lambda>_. sample_time)) (new_checkpoint_row (hex_env (\<lambda>_. sample_time)) ''s'' ''w'' ''plan'' ''running'' [] ''go'' sample_time None), first_wdb)"
  by (simp add: first_wdb_def after_def workflow_eval)

lemma first_row:
  "latest_row ''w'' first_wdb = Some (new_checkpoint_row (hex_env (\<lambda>_. sample_time)) ''s'' ''w'' ''plan'' ''running'' [] ''go'' sample_time None)"
  by (simp add: first_wdb_def after_def workflow_eval)

lemma first_value: "first_wdb = sample_wdb\<lparr>ticks := 1, workflow_checkpoints :=
     [new_checkpoint_row (hex_env (\<lambda>_. sample_time)) ''s'' ''w'' ''plan'' ''running'' [] ''go'' sample_time None]\<rparr>"
  by (simp add: first_wdb_def after_def workflow_eval)

lemma first_reachable: "workflow_reachable (hex_env (\<lambda>_. sample_time)) (first_wdb, [])"
proof -
  have "workflow_reachable (hex_env (\<lambda>_. sample_time)) (sample_wdb, [])" by (rule reach_init) (simp add: workflow_eval)
  moreover have "(workflow_step (hex_env (\<lambda>_. sample_time)))\<^sup>*\<^sup>* (sample_wdb, []) (first_wdb, [])"
    by (rule checkpoint_steps [OF first_step]) simp
  ultimately show ?thesis by (rule reachable_steps [rotated])
qed

section \<open>Properties\<close>

text \<open>
  C22. In every store that overlapping checkpoints and resumptions can build, with hexadecimal
  digests and a clock whose values are timestamps, in any order, the integrity check of a subject
  returns the number of its checkpoints exactly when the recorded times of each of its workflows
  never decrease: nothing but commits out of the order of their clock readings can make a
  history fail.
\<close>

theorem workflow_verifies_iff_ordered:
  assumes "workflow_reachable E (db, calls)" "digests_valid E" "clock_readable E" "\<not> blank sid"
  shows "workflow_verify_integrity E sid db = Inr n \<longleftrightarrow> n = count_where (\<lambda>r. wf_subject_id r = sid) (workflow_checkpoints db)
    \<and> (\<forall>w. in_order (filter (\<lambda>r. wf_subject_id r = sid \<and> wf_workflow_id r = w) (workflow_checkpoints db)))"
  using workflow_reachable_inv [OF assms(1-3)] assms(4) by (intro workflow_inv_verifies) simp_all

theorem workflow_verifies_iff_ordered_witness:
  "workflow_verify_integrity (hex_env (\<lambda>_. sample_time)) ''s'' first_wdb = Inr 1"
proof (rule iffD2 [OF workflow_verifies_iff_ordered [OF first_reachable hex_env_digests hex_env_clock]])
  show "1 = count_where (\<lambda>r. wf_subject_id r = ''s'') (workflow_checkpoints first_wdb)
    \<and> (\<forall>w. in_order (filter (\<lambda>r. wf_subject_id r = ''s'' \<and> wf_workflow_id r = w) (workflow_checkpoints first_wdb)))"
    by (simp add: first_value count_where_def in_order_def)
qed (simp add: blank_iff py_isspace_def)

text \<open>
  C23. The integrity check decides exactly the history condition: one pass over all rows of the
  subject with a dictionary of the previous checkpoints accepts if and only if no workflow is
  shared with another subject and, position by position, every workflow's rows read back, are
  numbered from one, follow the transition table, keep their type and do not go back in time.
\<close>

theorem workflow_verify_exact:
  "is_ok (workflow_verify_integrity E sid db) \<longleftrightarrow>
     \<not> blank sid
     \<and> (\<forall>r\<in>set (workflow_checkpoints db). \<forall>s\<in>set (workflow_checkpoints db).
           wf_workflow_id s = wf_workflow_id r \<and> wf_subject_id r = sid \<longrightarrow> wf_subject_id s = sid)
     \<and> (\<forall>w. history_valid E (fetchall_by (\<lambda>r. wf_subject_id r = sid \<and> wf_workflow_id r = w)
               wf_checkpoint_version (workflow_checkpoints db)))"
  unfolding is_ok_iff workflow_verify_iff checkpoint_chain_valid workflow_crossing_def fetchone_None by blast

theorem workflow_verify_exact_witness:
  "history_valid (hex_env (\<lambda>_. sample_time)) (fetchall_by (\<lambda>r. wf_subject_id r = ''s'' \<and> wf_workflow_id r = ''w'')
      wf_checkpoint_version (workflow_checkpoints first_wdb))"
proof -
  have "workflow_inv (hex_env (\<lambda>_. sample_time)) first_wdb"
    using workflow_reachable_inv [OF first_reachable hex_env_digests hex_env_clock] by simp
  moreover have "in_order (filter (\<lambda>r. wf_subject_id r = ''s'' \<and> wf_workflow_id r = w) (workflow_checkpoints first_wdb))" for w
    by (simp add: first_value in_order_def)
  ultimately have "is_ok (workflow_verify_integrity (hex_env (\<lambda>_. sample_time)) ''s'' first_wdb)"
    unfolding is_ok_iff by (subst workflow_inv_verifies) (simp_all add: blank_iff py_isspace_def)
  then show ?thesis unfolding workflow_verify_exact by blast
qed

text \<open>
  C24. A completed workflow is final: after its completion no sequence of overlapping
  checkpoints and resumptions, by any caller, adds a row to its history, not even a call that was
  already pending when the workflow completed.
\<close>

theorem completed_workflow_final:
  assumes "(workflow_step E)\<^sup>*\<^sup>* (db, calls) (db', calls')" "latest_row w db = Some l" "wf_status l = ''completed''"
  shows "workflow_history w db' = workflow_history w db"
proof -
  have "workflow_history w (fst s) = workflow_history w db" if "(workflow_step E)\<^sup>*\<^sup>* (db, calls) s" for s
    using that
  proof induction
    case (step s1 s2)
    then have "latest_row w (fst s1) = Some l" using latest_row_same assms(2) by metis
    then show ?case using workflow_step_completed [OF step(2)] assms(3) step(3) by simp
  qed simp
  from this [OF assms(1)] show ?thesis by simp
qed

definition done_wdb :: workflow_db where
  "done_wdb = first_wdb\<lparr>workflow_checkpoints :=
     [(new_checkpoint_row (hex_env (\<lambda>_. sample_time)) ''s'' ''w'' ''plan'' ''running'' [] ''go'' sample_time None)\<lparr>wf_status := ''completed''\<rparr>]\<rparr>"

theorem completed_workflow_final_witness:
  "\<exists>db'. (workflow_step (hex_env (\<lambda>_. sample_time)))\<^sup>*\<^sup>* (done_wdb, []) (db', []) \<and> db' \<noteq> done_wdb
     \<and> workflow_history ''w'' db' = workflow_history ''w'' done_wdb"
proof -
  let ?E = "hex_env (\<lambda>_. sample_time)"
  let ?m = "checkpoint ?E ''s'' ''v'' ''plan'' ''running'' [] ''go'' done_wdb"
  have db: "done_wdb = sample_wdb\<lparr>ticks := 1, workflow_checkpoints :=
     [(new_checkpoint_row ?E ''s'' ''w'' ''plan'' ''running'' [] ''go'' sample_time None)\<lparr>wf_status := ''completed''\<rparr>]\<rparr>"
    by (simp add: done_wdb_def first_value)
  have ok: "is_ok ?m" unfolding db by (simp add: workflow_eval)
  have "length (workflow_checkpoints (after ?m done_wdb)) \<noteq> length (workflow_checkpoints done_wdb)"
    unfolding db by (simp add: after_def workflow_eval)
  then have ne: "after ?m done_wdb \<noteq> done_wdb" by metis
  obtain rec where "?m = Inr (rec, after ?m done_wdb)" using after_ok [OF ok, of done_wdb] by blast
  then have st: "(workflow_step ?E)\<^sup>*\<^sup>* (done_wdb, []) (after ?m done_wdb, [])" by (rule checkpoint_steps) simp
  have last: "latest_row ''w'' done_wdb = Some ((new_checkpoint_row ?E ''s'' ''w'' ''plan'' ''running'' [] ''go'' sample_time None)\<lparr>wf_status := ''completed''\<rparr>)"
    by (simp add: done_wdb_def latest_row_def fetchall_by_def)
  have "workflow_history ''w'' (after ?m done_wdb) = workflow_history ''w'' done_wdb"
    by (rule completed_workflow_final [OF st last]) simp
  with st ne show ?thesis by blast
qed

text \<open>
  C25. A workflow that is not completed can always be resumed by its subject: in every store
  that overlapping checkpoints can build, with hexadecimal digests, a clock whose values are
  timestamps (in any order) and admissible arguments, \<open>resume\<close>, run without the commit of another
  call in between, commits and returns a running checkpoint with the next version, whatever status
  the workflow was left in.
\<close>

theorem resume_succeeds:
  assumes "workflow_reachable E (db, calls)" "digests_valid E" "clock_readable E"
    and l: "latest_row w db = Some l" "wf_status l \<noteq> ''completed''"
    and "wf_subject_id l \<in> set (subject_identity db)" "\<not> blank reason"
    and "json_wf (JObj state)" "length (canonical_json (JObj state)) \<le> 1000000"
  shows "\<exists>c db'. resume E (wf_subject_id l) w state reason db = Inr (Inr c, db') \<and> wc_status c = ''running''
     \<and> wc_checkpoint_version c = wf_checkpoint_version l + 1"
proof -
  let ?now = "env_clock E (ticks db)" and ?db = "db\<lparr>ticks := Suc (ticks db)\<rparr>"
  have "linked E None (workflow_history w db)"
    using workflow_reachable_inv [OF assms(1-3)] by (simp add: workflow_inv_def)
  moreover have "l \<in> set (workflow_history w db)" using l(1) history_latest [OF calculation] by (auto split: if_splits)
  ultimately obtain p where p: "workflow_from_row E l = Inr p" using linked_reads by blast
  note f = workflow_from_row_fields [OF p] and nb = workflow_from_row_nonblank [OF p]
  have wid: "wf_workflow_id l = w" using \<open>l \<in> set (workflow_history w db)\<close> by (simp add: workflow_history_def)
  have same: "latest_row w ?db = latest_row w db" by (simp add: latest_row_def)
  have "''running'' \<in> workflow_allowed (map_option wc_status (Some p))"
    using nb(4) l(2) f by (auto simp: workflow_allowed_def workflow_statuses_def)
  then have "checkpoint_transaction E (wf_subject_id l) w (wf_workflow_type l) ''running'' state reason ?now ?db
      = Inr (new_checkpoint_row E (wf_subject_id l) w (wf_workflow_type l) ''running'' state reason ?now (Some p),
         ?db\<lparr>workflow_checkpoints := workflow_checkpoints ?db
            @ [new_checkpoint_row E (wf_subject_id l) w (wf_workflow_type l) ''running'' state reason ?now (Some p)]\<rparr>)"
    using l p f assms(6) same
    by (intro checkpoint_transaction_ok) (simp_all add: previous_record_def workflow_statuses_def)
  moreover obtain d where d: "workflow_parse_time ?now = Inr d"
    using assms(3) unfolding clock_readable_def is_ok_iff by blast
  moreover have "\<not> blank ?now" using d workflow_parse_blank by blast
  moreover have "valid_hash (env_sha256 E (canonical_json (JObj state)))" using assms(2) by (simp add: digests_valid_def)
  ultimately show ?thesis
    using new_row_reads [OF _ nb(2,3) assms(7) _ d _ _ assms(8), where p = "Some p" and E = E and wid = w and status = "''running''"]
      nb wid f l(1) p assms(7,9)
    by (simp add: resume_def workflow_latest_def checkpoint_def checkpoint_begin_def checkpoint_commit_def utc_now_def workflow_statuses_def
        del: json_norm.simps canonical_json.simps)
qed

theorem resume_succeeds_witness:
  "\<exists>c db'. resume (hex_env (\<lambda>_. sample_time)) ''s'' ''w'' [] ''again'' first_wdb = Inr (Inr c, db')
     \<and> wc_status c = ''running'' \<and> wc_checkpoint_version c = 2"
proof -
  have "''s'' \<in> set (subject_identity first_wdb)" "\<not> blank ''again''"
    by (simp_all add: first_wdb_def after_def workflow_eval)
  with resume_succeeds [OF first_reachable hex_env_digests hex_env_clock first_row, of "''again''" "[]"]
  show ?thesis by simp
qed

section \<open>Overtaken calls\<close>

text \<open>Two callers read the clock one after the other, and commit in the other order.\<close>

definition tick_clock :: "nat \<Rightarrow> string" where
  "tick_clock n = (if n = 0 then ''2026-01-02T03:04:05.000+00:00'' else ''2026-01-02T03:04:06.000+00:00'')"

abbreviation tick_env :: env where
  "tick_env \<equiv> hex_env tick_clock"

definition plan_call :: "string \<Rightarrow> nat \<Rightarrow> checkpoint_call" where
  "plan_call reason n = \<lparr>cc_subject_id = ''s'', cc_workflow_id = ''w'', cc_workflow_type = ''plan'', cc_status = ''running'',
     cc_state = [], cc_reason = reason, cc_now = tick_clock n\<rparr>"

definition plan_row :: "string \<Rightarrow> nat \<Rightarrow> workflow_checkpoint option \<Rightarrow> workflow_row" where
  "plan_row reason n p = new_checkpoint_row tick_env ''s'' ''w'' ''plan'' ''running'' [] reason (tick_clock n) p"

definition plan_record :: "string \<Rightarrow> int \<Rightarrow> nat \<Rightarrow> workflow_checkpoint" where
  "plan_record reason v n = \<lparr>wc_workflow_id = ''w'', wc_subject_id = ''s'', wc_workflow_type = ''plan'', wc_checkpoint_version = v,
     wc_status = ''running'', wc_state = JObj [], wc_reason = reason, wc_created_at = tick_clock n\<rparr>"

definition begun_wdb :: workflow_db where
  "begun_wdb = sample_wdb\<lparr>ticks := 2\<rparr>"

lemma tick_times:
  "workflow_parse_time (tick_clock n) = Inr \<lparr>dt_year = 2026, dt_month = 1, dt_day = 2, dt_hour = 3, dt_minute = 4,
     dt_second = (if n = 0 then 5 else 6), dt_micro = 0, dt_offset = Some 0\<rparr>"
  by (simp add: tick_clock_def workflow_parse_time_def time_eval)

lemma tick_le: "time_le (tick_clock i) (tick_clock j) \<longleftrightarrow> i = 0 \<or> j \<noteq> 0"
  by (simp add: time_le_def tick_times dt_instant_def dt_micros_def dt_days_def)

lemma tick_clock_env: "clock_monotone tick_env" "clock_readable tick_env"
  by (auto simp: clock_monotone_def clock_readable_def tick_le tick_times)

lemma plan_calls_pending: "workflow_reachable tick_env (begun_wdb, [plan_call ''b'' 1, plan_call ''a'' 0])"
proof -
  have "workflow_reachable tick_env (sample_wdb, [])" by (rule reach_init) (simp add: workflow_eval)
  moreover have "workflow_step tick_env (sample_wdb, []) (sample_wdb\<lparr>ticks := 1\<rparr>, [plan_call ''a'' 0])"
    by (rule step_begin [where sid = "''s''" and wid = "''w''" and ty = "''plan''" and status = "''running''" and state = "[]" and reason = "''a''"]) (simp_all add: plan_call_def workflow_eval)
  moreover have "workflow_step tick_env (sample_wdb\<lparr>ticks := 1\<rparr>, [plan_call ''a'' 0]) (begun_wdb, [plan_call ''b'' 1, plan_call ''a'' 0])"
    by (rule step_begin [where sid = "''s''" and wid = "''w''" and ty = "''plan''" and status = "''running''" and state = "[]" and reason = "''b''"]) (simp_all add: plan_call_def begun_wdb_def workflow_eval)
  ultimately show ?thesis by (blast intro: reach_next)
qed

lemma plan_commits:
  "checkpoint_commit tick_env (plan_call ''b'' 1) begun_wdb
     = Inr (Inr (plan_record ''b'' 1 1), begun_wdb\<lparr>workflow_checkpoints := [plan_row ''b'' 1 None]\<rparr>)"
  "checkpoint_commit tick_env (plan_call ''a'' 0) (begun_wdb\<lparr>workflow_checkpoints := [plan_row ''b'' 1 None]\<rparr>)
     = Inr (Inr (plan_record ''a'' 2 0), begun_wdb\<lparr>workflow_checkpoints := [plan_row ''b'' 1 None, plan_row ''a'' 0 (Some (plan_record ''b'' 1 1))]\<rparr>)"
proof -
  let ?db = "begun_wdb\<lparr>workflow_checkpoints := [plan_row ''b'' 1 None]\<rparr>"
  have hex: "valid_hash (env_sha256 tick_env (canonical_json (JObj [])))"
    using hex_env_digests by (simp add: digests_valid_def)
  have nb: "\<not> blank (tick_clock n)" for n using tick_times workflow_parse_blank by metis
  have c: "workflow_from_row tick_env (plan_row reason n p) = Inr (plan_record reason (case p of None \<Rightarrow> 1 | Some c \<Rightarrow> wc_checkpoint_version c + 1) n)"
    if "\<not> blank reason" "1 \<le> (case p of None \<Rightarrow> 1 | Some c \<Rightarrow> wc_checkpoint_version c + 1)" for reason n p
    using new_row_reads [OF _ _ _ that(1) nb tick_times _ _ _ hex] that(2)
    by (simp add: plan_row_def plan_record_def blank_iff py_isspace_def workflow_statuses_def)
  have e: "latest_row ''w'' begun_wdb = None" "latest_row ''w'' ?db = Some (plan_row ''b'' 1 None)"
      "subject_identity begun_wdb = [''s'']" "workflow_checkpoints begun_wdb = []"
    by (simp_all add: latest_row_def fetchall_by_def begun_wdb_def workflow_eval plan_row_def)
  have t: "\<not> blank ''a''" "\<not> blank ''b''" by (simp_all add: blank_iff py_isspace_def)
  have "checkpoint_transaction tick_env ''s'' ''w'' ''plan'' ''running'' [] ''b'' (tick_clock 1) begun_wdb = Inr (plan_row ''b'' 1 None, ?db)"
    using e by (subst checkpoint_transaction_ok [where p = None])
      (simp_all add: previous_record_def workflow_allowed_def workflow_statuses_def plan_row_def)
  then show "checkpoint_commit tick_env (plan_call ''b'' 1) begun_wdb = Inr (Inr (plan_record ''b'' 1 1), ?db)"
    using c [OF t(2), of None 1] by (simp add: checkpoint_commit_def plan_call_def)
  have "checkpoint_transaction tick_env ''s'' ''w'' ''plan'' ''running'' [] ''a'' (tick_clock 0) ?db
      = Inr (plan_row ''a'' 0 (Some (plan_record ''b'' 1 1)), ?db\<lparr>workflow_checkpoints := [plan_row ''b'' 1 None, plan_row ''a'' 0 (Some (plan_record ''b'' 1 1))]\<rparr>)"
    using e c [OF t(2), of None 1] by (subst checkpoint_transaction_ok [where p = "Some (plan_record ''b'' 1 1)"])
      (simp_all add: previous_record_def workflow_allowed_def workflow_statuses_def plan_row_def plan_record_def)
  then show "checkpoint_commit tick_env (plan_call ''a'' 0) ?db
     = Inr (Inr (plan_record ''a'' 2 0), begun_wdb\<lparr>workflow_checkpoints := [plan_row ''b'' 1 None, plan_row ''a'' 0 (Some (plan_record ''b'' 1 1))]\<rparr>)"
    using c [OF t(1), of "Some (plan_record ''b'' 1 1)" 0] by (simp add: checkpoint_commit_def plan_call_def plan_record_def)
qed

text \<open>
  C38. An overtaken checkpoint breaks the history: when two pending calls of one workflow commit
  one after the other, and the second to commit had read the clock at an earlier instant, the
  code accepts both and the integrity check of the subject then raises, in every reachable store.
  The clock is read before the transaction opens, so this needs no clock that runs backwards.
\<close>

theorem overtaken_checkpoint_breaks_history:
  assumes "workflow_reachable E (db, calls)" "digests_valid E" "clock_readable E" "{a, b} \<subseteq> set calls"
    "cc_workflow_id a = cc_workflow_id b" "cc_subject_id a = cc_subject_id b" "\<not> time_le (cc_now b) (cc_now a)"
    "checkpoint_commit E b db = Inr (rec1, db1)" "checkpoint_commit E a db1 = Inr (rec2, db2)"
  shows "\<not> is_ok (workflow_verify_integrity E (cc_subject_id a) db2)"
proof -
  have inv: "workflow_inv E db" and ok: "call_ok a" "call_ok b"
    using workflow_reachable_inv [OF assms(1-3)] assms(4) by auto
  have inv2: "workflow_inv E db2"
    by (rule commit_inv [OF commit_inv [OF inv assms(8) ok(2) assms(2)] assms(9) ok(1) assms(2)])
  obtain r1 where r1: "wf_workflow_id r1 = cc_workflow_id b" "wf_subject_id r1 = cc_subject_id b" "wf_created_at r1 = cc_now b"
      "workflow_checkpoints db1 = workflow_checkpoints db @ [r1]" using assms(8) by (rule commit_obtain)
  obtain r2 where r2: "wf_workflow_id r2 = cc_workflow_id a" "wf_subject_id r2 = cc_subject_id a" "wf_created_at r2 = cc_now a"
      "workflow_checkpoints db2 = workflow_checkpoints db1 @ [r2]" using assms(9) by (rule commit_obtain)
  let ?f = "\<lambda>t. filter (\<lambda>r. wf_subject_id r = cc_subject_id a \<and> wf_workflow_id r = cc_workflow_id a) t"
  have "?f (workflow_checkpoints db2) = ?f (workflow_checkpoints db) @ [r1, r2]" using r1 r2 assms(5,6) by simp
  then have "\<not> in_order (?f (workflow_checkpoints db2))"
    using assms(7) r1(3) r2(3) by (simp add: in_order_def successively_append_iff)
  then show ?thesis using inv2 workflow_inv_verifies [OF inv2, of "cc_subject_id a"] ok(1) by (auto simp: is_ok_iff call_ok_def)
qed

theorem overtaken_checkpoint_breaks_history_witness:
  "clock_monotone tick_env \<and> workflow_reachable tick_env (begun_wdb, [plan_call ''b'' 1, plan_call ''a'' 0])
   \<and> (\<exists>r1 db1 r2 db2. checkpoint_commit tick_env (plan_call ''b'' 1) begun_wdb = Inr (Inr r1, db1)
        \<and> checkpoint_commit tick_env (plan_call ''a'' 0) db1 = Inr (Inr r2, db2)
        \<and> \<not> is_ok (workflow_verify_integrity tick_env ''s'' db2))"
proof -
  have "\<not> is_ok (workflow_verify_integrity tick_env (cc_subject_id (plan_call ''a'' 0))
      (begun_wdb\<lparr>workflow_checkpoints := [plan_row ''b'' 1 None, plan_row ''a'' 0 (Some (plan_record ''b'' 1 1))]\<rparr>))"
    by (rule overtaken_checkpoint_breaks_history [OF plan_calls_pending hex_env_digests tick_clock_env(2) _ _ _ _ plan_commits])
      (simp_all add: plan_call_def tick_le)
  then show ?thesis using plan_commits tick_clock_env(1) plan_calls_pending by (simp add: plan_call_def)
qed

end
