(* ===== verification/Fencing.thy ===== *)
theory Fencing
  imports EventStore Revisions
begin

text \<open>
  The epoch leases of \<^verbatim>\<open>migration/fencing.py\<close>: at most one target may hold the authority over
  a subject at a time.  The tables are the columns of the migration schema the leases read and
  write; the audit trail is \<open>MigrationStore._append_audit\<close> of \<^verbatim>\<open>migration/policy.py\<close>.  The
  tasks and targets are written by the migration manager: here they are tables the operations
  read.
\<close>

section \<open>Fencing tokens\<close>

text \<open>
  The contract a fencing scheme gives its clients: tokens are only ever issued, and a step lets
  no issued token that is not current become current again.
\<close>

locale fencing_tokens =
  fixes issued :: "'db \<Rightarrow> 'id set" and current :: "'db \<Rightarrow> 'id set"
    and good :: "'db \<Rightarrow> bool" and step :: "'db \<Rightarrow> 'db \<Rightarrow> bool"
  assumes step_good: "good db \<Longrightarrow> step db db' \<Longrightarrow> good db'"
    and step_issued: "good db \<Longrightarrow> step db db' \<Longrightarrow> issued db \<subseteq> issued db'"
    and step_current: "good db \<Longrightarrow> step db db' \<Longrightarrow> current db' \<inter> issued db \<subseteq> current db"
begin

lemma stale_stays_stale:
  assumes "step\<^sup>*\<^sup>* db db'" "good db" "t \<in> issued db" "t \<notin> current db"
  shows "good db' \<and> t \<in> issued db' \<and> t \<notin> current db'"
  using assms
proof induction
  case (step a b)
  then show ?case using step_good [of a b] step_issued [of a b] step_current [of a b] by blast
qed simp

end

section \<open>Rows\<close>

record epoch_row =
  ep_epoch_id :: string
  ep_subject_id :: string
  ep_target_id :: string
  ep_epoch_number :: int
  ep_status :: string
  ep_acquired_at :: string
  ep_revoked_at :: "string option"
  ep_state_hash :: string

record migration_task_row =
  mt_task_id :: string
  mt_subject_id :: string
  mt_target_id :: string
  mt_status :: string
  mt_manifest_digest :: "string option"

record migration_audit_row =
  ma_audit_id :: string
  ma_subject_id :: string
  ma_action :: string
  ma_actor :: string
  ma_payload_json :: string
  ma_occurred_at :: string
  ma_state_hash :: string

record migration_db = kernel_db +
  migration_targets :: "string list"
  migration_tasks :: "migration_task_row list"
  migration_epochs :: "epoch_row list"
  migration_audit_events :: "migration_audit_row list"

record epoch_lease =
  el_subject_id :: string
  el_target_id :: string
  el_epoch_id :: string
  el_epoch_number :: int

section \<open>Digests and inserts\<close>

definition epoch_state :: "epoch_row \<Rightarrow> json" where
  "epoch_state r = JObj
     [(''epoch_id'', JStr (ep_epoch_id r)), (''subject_id'', JStr (ep_subject_id r)),
      (''target_id'', JStr (ep_target_id r)), (''epoch_number'', JInt (ep_epoch_number r)),
      (''status'', JStr (ep_status r)), (''acquired_at'', JStr (ep_acquired_at r)),
      (''revoked_at'', json_opt (ep_revoked_at r))]"

definition epoch_state_hash :: "env \<Rightarrow> epoch_row \<Rightarrow> string" where
  "epoch_state_hash E r = content_hash (env_sha256 E) (epoch_state r)"

definition insert_epoch :: "epoch_row \<Rightarrow> 'a migration_db_scheme \<Rightarrow> ('a migration_db_scheme) res" where
  "insert_epoch r db =
     (if ep_epoch_id r \<in> ep_epoch_id ` set (migration_epochs db)
      then Inl (SqliteIntegrityError ''UNIQUE constraint failed: migration_epochs.epoch_id'')
      else if \<exists>x\<in>set (migration_epochs db). ep_subject_id x = ep_subject_id r \<and> ep_epoch_number x = ep_epoch_number r
      then Inl (SqliteIntegrityError ''UNIQUE constraint failed: migration_epochs.subject_id, migration_epochs.epoch_number'')
      else if ep_status r = ''active''
        \<and> (\<exists>x\<in>set (migration_epochs db). ep_subject_id x = ep_subject_id r \<and> ep_status x = ''active'')
      then Inl (SqliteIntegrityError ''UNIQUE constraint failed: migration_epochs.subject_id'')
      else if ep_subject_id r \<notin> set (subject_identity db) \<or> ep_target_id r \<notin> set (migration_targets db)
      then Inl (SqliteIntegrityError ''FOREIGN KEY constraint failed'')
      else if ep_epoch_number r < 1 \<or> ep_status r \<notin> {''active'', ''revoked'', ''completed''} \<or> \<not> valid_hash (ep_state_hash r)
      then Inl (SqliteIntegrityError ''CHECK constraint failed: migration_epochs'')
      else Inr (db\<lparr>migration_epochs := migration_epochs db @ [r]\<rparr>))"

definition insert_migration_audit ::
    "migration_audit_row \<Rightarrow> 'a migration_db_scheme \<Rightarrow> ('a migration_db_scheme) res" where
  "insert_migration_audit r db =
     (if ma_audit_id r \<in> ma_audit_id ` set (migration_audit_events db)
      then Inl (SqliteIntegrityError ''UNIQUE constraint failed: migration_audit_events.audit_id'')
      else if ma_subject_id r \<notin> set (subject_identity db)
      then Inl (SqliteIntegrityError ''FOREIGN KEY constraint failed'')
      else if \<not> valid_hash (ma_state_hash r)
      then Inl (SqliteIntegrityError ''CHECK constraint failed: migration_audit_events'')
      else Inr (db\<lparr>migration_audit_events := migration_audit_events db @ [r]\<rparr>))"

definition migration_append_audit ::
    "env \<Rightarrow> string \<Rightarrow> string \<Rightarrow> string \<Rightarrow> (string \<times> json) list \<Rightarrow> 'a migration_db_scheme
      \<Rightarrow> ('a migration_db_scheme) res" where
  "migration_append_audit E subject_id action actor payload db =
     (let payload_json = canonical_json (JObj payload);
          (occurred_at, db1) = utc_now E db;
          (audit_id, db2) = new_id E ''migrationaudit'' db1
      in insert_migration_audit
           \<lparr>ma_audit_id = audit_id, ma_subject_id = subject_id, ma_action = action, ma_actor = actor,
            ma_payload_json = payload_json, ma_occurred_at = occurred_at,
            ma_state_hash = content_hash (env_sha256 E) (JObj
              [(''subject_id'', JStr subject_id), (''action'', JStr action), (''actor'', JStr actor),
               (''payload_json'', JStr payload_json), (''occurred_at'', JStr occurred_at)])\<rparr> db2)"

section \<open>Acquiring a lease\<close>

definition new_epoch_row ::
    "env \<Rightarrow> string \<Rightarrow> string \<Rightarrow> string \<Rightarrow> int \<Rightarrow> string \<Rightarrow> epoch_row" where
  "new_epoch_row E epoch_id subject_id target_id number now =
     (let r = \<lparr>ep_epoch_id = epoch_id, ep_subject_id = subject_id, ep_target_id = target_id,
               ep_epoch_number = number, ep_status = ''active'', ep_acquired_at = now,
               ep_revoked_at = None, ep_state_hash = ''''\<rparr>
      in r\<lparr>ep_state_hash := epoch_state_hash E r\<rparr>)"

definition subject_epochs :: "string \<Rightarrow> 'a migration_db_scheme \<Rightarrow> epoch_row list" where
  "subject_epochs subject_id db = filter (\<lambda>r. ep_subject_id r = subject_id) (migration_epochs db)"

definition check_source_epoch :: "string \<Rightarrow> string option \<Rightarrow> 'a migration_db_scheme \<Rightarrow> unit res" where
  "check_source_epoch subject_id expected db =
     (case expected of
        None \<Rightarrow> Inr ()
      | Some e \<Rightarrow>
          if blank e then Inl (ValueError ''expected source epoch is invalid'')
          else if py_startswith e ''runtime-''
          then (case fetchone (\<lambda>r. rt_subject_id r = subject_id) (runtime_state db) of
                  None \<Rightarrow> Inl (ValueError ''source runtime epoch is stale'')
                | Some rt \<Rightarrow>
                    if e \<noteq> ''runtime-'' @ show_int (rt_version rt)
                    then Inl (ValueError ''source runtime epoch is stale'') else Inr ())
          else Inr ())"

definition acquire_in_transaction ::
    "env \<Rightarrow> string \<Rightarrow> string \<Rightarrow> string option \<Rightarrow> string \<Rightarrow> 'a migration_db_scheme
      \<Rightarrow> (epoch_lease \<times> 'a migration_db_scheme) res" where
  "acquire_in_transaction E subject_id target_id expected_source_epoch actor db =
     (if fetchone (\<lambda>r. ep_subject_id r = subject_id \<and> ep_status r = ''active'') (migration_epochs db) \<noteq> None
      then Inl (ValueError ''subject already has an active migration epoch'')
      else
        res_bind (check_source_epoch subject_id expected_source_epoch db) (\<lambda>_.
          let (epoch_id, db1) = new_id E ''migrationepoch'' db;
              number = next_revision (map ep_epoch_number (subject_epochs subject_id db));
              (now, db2) = utc_now E db1
          in res_bind (insert_epoch (new_epoch_row E epoch_id subject_id target_id number now) db2) (\<lambda>db3.
             res_bind (migration_append_audit E subject_id ''migration_epoch_acquired'' (py_strip actor)
                 [(''epoch_id'', JStr epoch_id), (''target_id'', JStr target_id), (''epoch_number'', JInt number)] db3)
               (\<lambda>db4. Inr (\<lparr>el_subject_id = subject_id, el_target_id = target_id,
                             el_epoch_id = epoch_id, el_epoch_number = number\<rparr>, db4)))))"

definition acquire_unchecked ::
    "env \<Rightarrow> string \<Rightarrow> string \<Rightarrow> string option \<Rightarrow> string \<Rightarrow> 'a migration_db_scheme
      \<Rightarrow> (epoch_lease \<times> 'a migration_db_scheme) res" where
  "acquire_unchecked E subject_id target_id expected_source_epoch actor db =
     (if blank actor then Inl (ValueError ''epoch acquisition actor is required'')
      else acquire_in_transaction E subject_id target_id expected_source_epoch actor db)"

text \<open>A proof is the mapping the caller supplies; the validated fields are stripped.\<close>

definition proof_fields :: "string list" where
  "proof_fields = [''task_id'', ''subject_id'', ''target_id'', ''manifest_digest'',
     ''restore_report_digest'', ''health_report_digest'', ''target_signature'']"

definition proof_text :: "(string \<times> json) list \<Rightarrow> string \<Rightarrow> string option" where
  "proof_text p key = (case map_of p key of
     Some (JStr s) \<Rightarrow> if blank s then None else Some (py_strip s)
   | _ \<Rightarrow> None)"

definition validate_target_validation_proof ::
    "(string \<times> json) list option \<Rightarrow> (string \<Rightarrow> string) res" where
  "validate_target_validation_proof p =
     (case p of
        None \<Rightarrow> Inl (ValueError ''verified target restore and health proof is required'')
      | Some m \<Rightarrow>
          if list_ex (\<lambda>key. proof_text m key = None) proof_fields
          then Inl (ValueError ''verified target restore and health proof is invalid'')
          else Inr (\<lambda>key. case proof_text m key of Some s \<Rightarrow> s | None \<Rightarrow> ''''))"

definition cutover_statuses :: "string list" where
  "cutover_statuses = [''preparing'', ''transferring'', ''restoring'', ''validating'', ''cutover'']"

definition acquire ::
    "env \<Rightarrow> string \<Rightarrow> string \<Rightarrow> string option \<Rightarrow> (string \<times> json) list option \<Rightarrow> string
      \<Rightarrow> 'a migration_db_scheme \<Rightarrow> (epoch_lease \<times> 'a migration_db_scheme) res" where
  "acquire E subject_id target_id expected_source_epoch target_validation_proof actor db =
     res_bind (validate_target_validation_proof target_validation_proof) (\<lambda>p.
       if p ''subject_id'' \<noteq> subject_id \<or> p ''target_id'' \<noteq> target_id
       then Inl (ValueError ''verified target proof does not match subject or target'')
       else case fetchone (\<lambda>t. mt_task_id t = p ''task_id'') (migration_tasks db) of
           None \<Rightarrow> Inl (ValueError ''verified target proof task binding is invalid'')
         | Some task \<Rightarrow>
             if mt_subject_id task \<noteq> subject_id \<or> mt_target_id task \<noteq> target_id
             then Inl (ValueError ''verified target proof task binding is invalid'')
             else if mt_status task \<notin> set cutover_statuses
             then Inl (ValueError ''verified target proof task is not in cutover state'')
             else if mt_manifest_digest task \<in> {None, Some ''''}
                \<or> mt_manifest_digest task \<noteq> Some (p ''manifest_digest'')
             then Inl (ValueError ''verified target proof manifest binding is invalid'')
             else acquire_unchecked E subject_id target_id expected_source_epoch actor db)"

section \<open>Using and closing a lease\<close>

definition assert_current :: "env \<Rightarrow> epoch_lease \<Rightarrow> 'a migration_db_scheme \<Rightarrow> unit res" where
  "assert_current E lease db =
     (case fetchone (\<lambda>r. ep_epoch_id r = el_epoch_id lease \<and> ep_subject_id r = el_subject_id lease)
             (migration_epochs db) of
        None \<Rightarrow> Inl (ValueError ''migration epoch is stale'')
      | Some row \<Rightarrow>
          if ep_status row \<noteq> ''active'' \<or> ep_target_id row \<noteq> el_target_id lease
          then Inl (ValueError ''migration epoch is stale'')
          else if ep_state_hash row \<noteq> epoch_state_hash E row
          then Inl (ValueError ''migration epoch integrity check failed'')
          else Inr ())"

text \<open>
  The \<open>UPDATE\<close> of \<open>revoke_in_transaction\<close> and \<open>complete_in_transaction\<close>: the active row of the
  epoch gets its closing status, time and digest.
\<close>

definition closed_row :: "env \<Rightarrow> string \<Rightarrow> string \<Rightarrow> epoch_row \<Rightarrow> epoch_row" where
  "closed_row E status at r =
     (let r' = r\<lparr>ep_status := status, ep_revoked_at := Some at\<rparr>
      in r'\<lparr>ep_state_hash := epoch_state_hash E r'\<rparr>)"

definition close_epoch ::
    "env \<Rightarrow> string \<Rightarrow> epoch_lease \<Rightarrow> 'a migration_db_scheme \<Rightarrow> ('a migration_db_scheme) res" where
  "close_epoch E status lease db =
     res_bind (assert_current E lease db) (\<lambda>_.
       let (at, db1) = utc_now E db;
           active = (\<lambda>r. ep_epoch_id r = el_epoch_id lease \<and> ep_status r = ''active'')
       in case fetchone active (migration_epochs db1) of
            None \<Rightarrow> Inl (ValueError ''migration epoch is already inactive'')
          | Some row \<Rightarrow>
              (let new = closed_row E status at row
               in if \<not> valid_hash (ep_state_hash new)
                  then Inl (SqliteIntegrityError ''CHECK constraint failed: migration_epochs'')
                  else if count_where active (migration_epochs db1) \<noteq> 1
                  then Inl (ValueError ''migration epoch is already inactive'')
                  else Inr (db1\<lparr>migration_epochs := update_where active
                     (\<lambda>r. r\<lparr>ep_status := status, ep_revoked_at := Some at, ep_state_hash := ep_state_hash new\<rparr>)
                     (migration_epochs db1)\<rparr>)))"

definition revoke ::
    "env \<Rightarrow> epoch_lease \<Rightarrow> string \<Rightarrow> string \<Rightarrow> 'a migration_db_scheme \<Rightarrow> ('a migration_db_scheme) res" where
  "revoke E lease reason actor db =
     (if blank reason \<or> blank actor then Inl (ValueError ''epoch revoke metadata is required'')
      else res_bind (close_epoch E ''revoked'' lease db) (\<lambda>db1.
        migration_append_audit E (el_subject_id lease) ''migration_epoch_revoked'' (py_strip actor)
          [(''epoch_id'', JStr (el_epoch_id lease)), (''reason'', JStr (py_strip reason))] db1))"

definition complete ::
    "env \<Rightarrow> epoch_lease \<Rightarrow> string \<Rightarrow> 'a migration_db_scheme \<Rightarrow> ('a migration_db_scheme) res" where
  "complete E lease actor db =
     (if blank actor then Inl (ValueError ''epoch completion actor is required'')
      else res_bind (close_epoch E ''completed'' lease db) (\<lambda>db1.
        migration_append_audit E (el_subject_id lease) ''migration_epoch_completed'' (py_strip actor)
          [(''epoch_id'', JStr (el_epoch_id lease))] db1))"

section \<open>Effects\<close>

lemma migration_append_audit_frame:
  assumes "migration_append_audit E sid action actor payload db = Inr db'"
  obtains n m au where "db' = db\<lparr>ticks := n, fresh_ids := m, migration_audit_events := au\<rparr>"
  using assms by (auto simp: migration_append_audit_def insert_migration_audit_def kernel_defs split: if_splits)

lemma acquire_effect:
  assumes "acquire_in_transaction E sid tid expected actor db = Inr (lease, db')"
  shows "migration_epochs db' = migration_epochs db @ [new_epoch_row E (el_epoch_id lease) sid tid
           (el_epoch_number lease) (env_clock E (ticks db))]"
    and "el_epoch_number lease = next_revision (map ep_epoch_number (subject_epochs sid db))"
    and "el_subject_id lease = sid" "el_target_id lease = tid"
    and "el_epoch_id lease \<notin> ep_epoch_id ` set (migration_epochs db)"
    and "\<forall>r\<in>set (migration_epochs db). ep_subject_id r = sid \<longrightarrow> ep_status r \<noteq> ''active''"
  using assms
  by (auto simp: acquire_in_transaction_def insert_epoch_def kernel_defs fetchone_None new_epoch_row_def
      subject_epochs_def elim!: migration_append_audit_frame split: if_splits)

lemma assert_current_row:
  assumes "assert_current E lease db = Inr ()"
  obtains r where "r \<in> set (migration_epochs db)" "ep_epoch_id r = el_epoch_id lease"
    "ep_subject_id r = el_subject_id lease" "ep_status r = ''active''" "ep_target_id r = el_target_id lease"
  using assms by (auto simp: assert_current_def split: option.splits if_splits dest!: fetchone_Some)

lemma close_effect:
  assumes "close_epoch E status lease db = Inr db'" and "distinct (map ep_epoch_id (migration_epochs db))"
  shows "migration_epochs db' = update_where (\<lambda>r. ep_epoch_id r = el_epoch_id lease)
      (closed_row E status (env_clock E (ticks db))) (migration_epochs db)"
    and "assert_current E lease db = Inr ()"
proof -
  let ?t = "migration_epochs db" and ?at = "env_clock E (ticks db)"
  let ?a = "\<lambda>r. ep_epoch_id r = el_epoch_id lease \<and> ep_status r = ''active''"
  show cur: "assert_current E lease db = Inr ()" using assms(1) by (simp add: close_epoch_def)
  obtain row where row: "fetchone ?a ?t = Some row"
    and upd: "migration_epochs db' = update_where ?a
        (\<lambda>r. r\<lparr>ep_status := status, ep_revoked_at := Some ?at,
             ep_state_hash := ep_state_hash (closed_row E status ?at row)\<rparr>) ?t"
    using assms(1) by (auto simp: close_epoch_def kernel_defs split: option.splits if_splits)
  have "row \<in> set ?t" "?a row" using fetchone_Some [OF row] by auto
  then have "r = row" if "r \<in> set ?t" "ep_epoch_id r = el_epoch_id lease" for r
    using distinct_key_eq [OF assms(2)] that by auto
  then show "migration_epochs db' = update_where (\<lambda>r. ep_epoch_id r = el_epoch_id lease) (closed_row E status ?at) ?t"
    unfolding upd update_where_def using \<open>?a row\<close>
    by (intro map_cong [OF refl]) (auto simp: closed_row_def Let_def)
qed

section \<open>Invariant\<close>

definition fence_inv :: "env \<Rightarrow> 'a migration_db_scheme \<Rightarrow> bool" where
  "fence_inv E db =
     (distinct (map ep_epoch_id (migration_epochs db))
      \<and> (\<forall>sid. contiguous (map ep_epoch_number (subject_epochs sid db)))
      \<and> (\<forall>sid. count_where (\<lambda>r. ep_status r = ''active'') (subject_epochs sid db) \<le> 1)
      \<and> (\<forall>r\<in>set (migration_epochs db). ep_state_hash r = epoch_state_hash E r))"

inductive fence_step :: "env \<Rightarrow> 'a migration_db_scheme \<Rightarrow> 'a migration_db_scheme \<Rightarrow> bool" for E where
  fence_acquire: "acquire_in_transaction E sid tid expected actor db = Inr (lease, db') \<Longrightarrow> fence_step E db db'"
| fence_revoke: "revoke E lease reason actor db = Inr db' \<Longrightarrow> fence_step E db db'"
| fence_complete: "complete E lease actor db = Inr db' \<Longrightarrow> fence_step E db db'"
| fence_other: "migration_epochs db' = migration_epochs db \<Longrightarrow> fence_step E db db'"

inductive fence_reachable :: "env \<Rightarrow> 'a migration_db_scheme \<Rightarrow> bool" for E where
  fence_init: "migration_epochs db = [] \<Longrightarrow> fence_reachable E db"
| fence_next: "fence_reachable E db \<Longrightarrow> fence_step E db db' \<Longrightarrow> fence_reachable E db'"

lemma new_epoch_row_simps [simp]:
  "ep_epoch_id (new_epoch_row E eid sid tid n now) = eid"
  "ep_subject_id (new_epoch_row E eid sid tid n now) = sid"
  "ep_target_id (new_epoch_row E eid sid tid n now) = tid"
  "ep_epoch_number (new_epoch_row E eid sid tid n now) = n"
  "ep_status (new_epoch_row E eid sid tid n now) = ''active''"
  "ep_state_hash (new_epoch_row E eid sid tid n now) = epoch_state_hash E (new_epoch_row E eid sid tid n now)"
  by (simp_all add: new_epoch_row_def Let_def epoch_state_hash_def epoch_state_def)

lemma closed_row_simps [simp]:
  "ep_epoch_id (closed_row E status at r) = ep_epoch_id r"
  "ep_subject_id (closed_row E status at r) = ep_subject_id r"
  "ep_target_id (closed_row E status at r) = ep_target_id r"
  "ep_epoch_number (closed_row E status at r) = ep_epoch_number r"
  "ep_status (closed_row E status at r) = status"
  "ep_state_hash (closed_row E status at r) = epoch_state_hash E (closed_row E status at r)"
  by (simp_all add: closed_row_def Let_def epoch_state_hash_def epoch_state_def)

text \<open>Every step either changes nothing, appends one active row, or closes the row of one lease.\<close>

lemma fence_step_cases:
  assumes "fence_step E db db'" "fence_inv E db"
  obtains (same) "migration_epochs db' = migration_epochs db"
  | (grant) eid sid tid where
      "migration_epochs db' = migration_epochs db @ [new_epoch_row E eid sid tid
         (next_revision (map ep_epoch_number (subject_epochs sid db))) (env_clock E (ticks db))]"
      "eid \<notin> ep_epoch_id ` set (migration_epochs db)"
      "\<forall>r\<in>set (migration_epochs db). ep_subject_id r = sid \<longrightarrow> ep_status r \<noteq> ''active''"
  | (close) lease :: epoch_lease and status at where "status \<in> {''revoked'', ''completed''}" "assert_current E lease db = Inr ()"
      "migration_epochs db' = update_where (\<lambda>r. ep_epoch_id r = el_epoch_id lease)
         (closed_row E status at) (migration_epochs db)"
  using assms(1)
proof cases
  case (fence_acquire sid tid expected actor lease)
  from acquire_effect [OF this] show thesis using grant [of "el_epoch_id lease" sid tid] by simp
next
  case (fence_revoke lease reason actor)
  then obtain db1 where "close_epoch E ''revoked'' lease db = Inr db1" "migration_epochs db' = migration_epochs db1"
    by (auto simp: revoke_def split: if_splits elim!: migration_append_audit_frame)
  with close_effect [OF this(1)] assms(2) show thesis
    using close [where status = "''revoked''" and lease = lease] by (simp add: fence_inv_def)
next
  case (fence_complete lease actor)
  then obtain db1 where "close_epoch E ''completed'' lease db = Inr db1" "migration_epochs db' = migration_epochs db1"
    by (auto simp: complete_def split: if_splits elim!: migration_append_audit_frame)
  with close_effect [OF this(1)] assms(2) show thesis
    using close [where status = "''completed''" and lease = lease] by (simp add: fence_inv_def)
qed (rule same)

lemma count_update_le:
  "(\<And>r. p r \<Longrightarrow> \<not> q (f r)) \<Longrightarrow> count_where q (update_where p f t) \<le> count_where q t"
  by (induction t) auto

lemma fence_step_inv:
  assumes "fence_step E db db'" "fence_inv E db"
  shows "fence_inv E db'"
  using assms
proof (cases rule: fence_step_cases)
  case same
  with assms(2) show ?thesis by (simp add: fence_inv_def subject_epochs_def)
next
  case (grant eid sid tid)
  let ?n = "next_revision (map ep_epoch_number (subject_epochs sid db))"
  have sub: "subject_epochs s db' = subject_epochs s db @ (if s = sid
      then [new_epoch_row E eid sid tid ?n (env_clock E (ticks db))] else [])" for s
    using grant(1) by (simp add: subject_epochs_def)
  have "contiguous (map ep_epoch_number (subject_epochs s db'))" for s
    using assms(2) contiguous_snoc [of "map ep_epoch_number (subject_epochs sid db)"]
    by (cases "s = sid") (simp_all add: sub fence_inv_def)
  moreover have "count_where (\<lambda>r. ep_status r = ''active'') (subject_epochs sid db) = 0"
    using grant(3) by (auto simp: count_where_def subject_epochs_def filter_empty_conv)
  then have "count_where (\<lambda>r. ep_status r = ''active'') (subject_epochs s db') \<le> 1" for s
    using assms(2) by (cases "s = sid") (simp_all add: sub fence_inv_def count_where_append)
  ultimately show ?thesis using assms(2) grant(1,2) by (auto simp: fence_inv_def)
next
  case (close lease status at)
  let ?p = "\<lambda>r. ep_epoch_id r = el_epoch_id lease" and ?f = "closed_row E status at"
  have sub: "subject_epochs s db' = update_where ?p ?f (subject_epochs s db)" for s
    using close(3) by (simp add: subject_epochs_def filter_update_where)
  have "count_where (\<lambda>r. ep_status r = ''active'') (subject_epochs s db')
      \<le> count_where (\<lambda>r. ep_status r = ''active'') (subject_epochs s db)" for s
    unfolding sub using close(1) by (intro count_update_le) auto
  then have "count_where (\<lambda>r. ep_status r = ''active'') (subject_epochs s db') \<le> 1" for s
    using assms(2) unfolding fence_inv_def by (meson order_trans)
  moreover have "map ep_epoch_number (subject_epochs s db') = map ep_epoch_number (subject_epochs s db)" for s
    unfolding sub by (rule map_update_where) simp
  moreover have "map ep_epoch_id (migration_epochs db') = map ep_epoch_id (migration_epochs db)"
    unfolding close(3) by (rule map_update_where) simp
  ultimately show ?thesis using assms(2) close(3) by (auto simp: fence_inv_def set_update_where)
qed

lemma fence_reachable_inv: "fence_reachable E db \<Longrightarrow> fence_inv E db"
proof (induction rule: fence_reachable.induct)
  case (fence_init db)
  then show ?case by (simp add: fence_inv_def subject_epochs_def)
qed (rule fence_step_inv)

section \<open>Tokens and locks\<close>

definition epoch_ids :: "'a migration_db_scheme \<Rightarrow> string set" where
  "epoch_ids db = ep_epoch_id ` set (migration_epochs db)"

definition active_ids :: "'a migration_db_scheme \<Rightarrow> string set" where
  "active_ids db = ep_epoch_id ` set (filter (\<lambda>r. ep_status r = ''active'') (migration_epochs db))"

lemma filter_update_out:
  "(\<And>r. p r \<Longrightarrow> \<not> q (f r)) \<Longrightarrow> filter q (update_where p f t) = filter (\<lambda>r. q r \<and> \<not> p r) t"
  by (induction t) auto

text \<open>What closing the row of a lease does to the tokens.\<close>

lemma closed_tokens:
  assumes "migration_epochs db' = update_where (\<lambda>r. ep_epoch_id r = eid) (closed_row E status at) (migration_epochs db)"
    and "status \<noteq> ''active''"
  shows "epoch_ids db' = epoch_ids db" "active_ids db' = active_ids db - {eid}"
proof -
  show "epoch_ids db' = epoch_ids db" unfolding epoch_ids_def assms(1) by (rule image_update_where) simp
  have "filter (\<lambda>r. ep_status r = ''active'') (migration_epochs db')
      = filter (\<lambda>r. ep_status r = ''active'' \<and> ep_epoch_id r \<noteq> eid) (migration_epochs db)"
    unfolding assms(1) using assms(2) by (intro filter_update_out) simp
  then show "active_ids db' = active_ids db - {eid}" by (auto simp: active_ids_def)
qed

interpretation epochs: fencing_tokens epoch_ids active_ids "fence_inv E" "fence_step E" for E
proof
  fix db db' :: "'a migration_db_scheme"
  assume inv: "fence_inv E db" and step: "fence_step E db db'"
  show "fence_inv E db'" by (rule fence_step_inv [OF step inv])
  from step inv show "epoch_ids db \<subseteq> epoch_ids db'"
    by (cases rule: fence_step_cases) (auto dest: closed_tokens(1), auto simp: epoch_ids_def)
  from step inv show "active_ids db' \<inter> epoch_ids db \<subseteq> active_ids db"
    by (cases rule: fence_step_cases) (auto dest: closed_tokens(2), auto simp: active_ids_def epoch_ids_def)
qed

lemma assert_current_active: "assert_current E lease db = Inr () \<Longrightarrow> el_epoch_id lease \<in> active_ids db"
  by (elim assert_current_row) (force simp: active_ids_def)

lemma not_active_stale:
  assumes "el_epoch_id lease \<notin> active_ids db"
  shows "assert_current E lease db = Inl (ValueError ''migration epoch is stale'')"
  using assms by (force simp: assert_current_def active_ids_def split: option.splits dest!: fetchone_Some)

lemma closed_not_active:
  assumes "fence_inv E db" "close_epoch E status lease db = Inr db'" "status \<noteq> ''active''"
    "migration_epochs db1 = migration_epochs db'"
  shows "el_epoch_id lease \<in> epoch_ids db1 \<and> el_epoch_id lease \<notin> active_ids db1"
proof -
  have d: "distinct (map ep_epoch_id (migration_epochs db))" using assms(1) by (simp add: fence_inv_def)
  from assert_current_row [OF close_effect(2) [OF assms(2) d]] obtain r
    where "r \<in> set (migration_epochs db)" "ep_epoch_id r = el_epoch_id lease" .
  then have "el_epoch_id lease \<in> epoch_ids db" unfolding epoch_ids_def by (metis imageI)
  with closed_tokens [OF trans [OF assms(4) close_effect(1) [OF assms(2) d]] assms(3)] show ?thesis by simp
qed

lemma close_operations_close:
  assumes "fence_inv E db" "revoke E lease reason actor db = Inr db' \<or> complete E lease actor db = Inr db'"
  shows "el_epoch_id lease \<in> epoch_ids db' \<and> el_epoch_id lease \<notin> active_ids db'"
proof -
  from assms(2) obtain status db1 where "close_epoch E status lease db = Inr db1" "status \<noteq> ''active''"
    "migration_epochs db' = migration_epochs db1"
    by (auto simp: revoke_def complete_def split: if_splits elim!: migration_append_audit_frame)
  then show ?thesis using closed_not_active [OF assms(1)] by blast
qed

text \<open>
  The abstract lock of a subject: who holds it, and how often it was granted.
\<close>

record lock =
  lk_holder :: "(string \<times> string) option"
  lk_grants :: nat

inductive lock_step :: "lock \<Rightarrow> lock \<Rightarrow> bool" where
  lock_stays: "lock_step l l"
| lock_grant: "lk_holder l = None \<Longrightarrow> lock_step l \<lparr>lk_holder = Some h, lk_grants = Suc (lk_grants l)\<rparr>"
| lock_release: "lk_holder l = Some h \<Longrightarrow> lock_step l (l\<lparr>lk_holder := None\<rparr>)"

definition lock_of :: "string \<Rightarrow> 'a migration_db_scheme \<Rightarrow> lock" where
  "lock_of sid db =
     \<lparr>lk_holder = map_option (\<lambda>r. (ep_epoch_id r, ep_target_id r))
        (fetchone (\<lambda>r. ep_status r = ''active'') (subject_epochs sid db)),
      lk_grants = length (subject_epochs sid db)\<rparr>"

lemma fetchone_count_le_1:
  assumes "count_where q t \<le> 1" "r \<in> set t" "q r"
  shows "fetchone q t = Some r"
  using assms
proof (induction t)
  case (Cons x t)
  show ?case
  proof (cases "q x")
    case True
    with Cons.prems(1) have "count_where q t = 0" by simp
    then have "\<forall>y\<in>set t. \<not> q y" by (auto simp: count_where_def filter_empty_conv)
    with Cons.prems True show ?thesis by auto
  qed (use Cons in auto)
qed simp

lemma fence_step_refines_lock:
  assumes "fence_step E db db'" "fence_inv E db"
  shows "lock_step (lock_of sid db) (lock_of sid db')"
  using assms
proof (cases rule: fence_step_cases)
  case same
  then show ?thesis by (simp add: lock_of_def subject_epochs_def lock_stays)
next
  case (grant eid s tid)
  show ?thesis
  proof (cases "s = sid")
    case True
    then have "fetchone (\<lambda>r. ep_status r = ''active'') (subject_epochs sid db) = None"
      using grant(3) by (auto simp: fetchone_None subject_epochs_def)
    with grant(1) True show ?thesis
      using lock_grant [of "lock_of sid db" "(eid, tid)"]
      by (simp add: lock_of_def subject_epochs_def fetchone_append)
  qed (use grant(1) in \<open>simp add: lock_of_def subject_epochs_def lock_stays\<close>)
next
  case (close lease status at)
  let ?p = "\<lambda>r. ep_epoch_id r = el_epoch_id lease" and ?a = "\<lambda>r. ep_status r = ''active''"
  have sub: "subject_epochs sid db' = update_where ?p (closed_row E status at) (subject_epochs sid db)"
    using close(3) by (simp add: subject_epochs_def filter_update_where)
  obtain r where r: "r \<in> set (migration_epochs db)" "?p r" "?a r"
    using assert_current_row [OF close(2)] by metis
  have one: "\<forall>x\<in>set (migration_epochs db). ?p x \<longrightarrow> x = r"
    using distinct_key_eq [of ep_epoch_id "migration_epochs db"] assms(2) r by (auto simp: fence_inv_def)
  show ?thesis
  proof (cases "ep_subject_id r = sid")
    case True
    then have m: "r \<in> set (subject_epochs sid db)" using r by (simp add: subject_epochs_def)
    have cnt: "count_where ?a (subject_epochs sid db) \<le> 1" using assms(2) by (simp add: fence_inv_def)
    have f: "fetchone ?a (subject_epochs sid db) = Some r"
      by (rule fetchone_count_le_1 [where q = ?a, OF cnt m r(3)])
    have "x = r" if "x \<in> set (subject_epochs sid db)" "?a x" for x
      using fetchone_count_le_1 [where q = ?a, OF cnt that] f by simp
    then have "filter (\<lambda>x. ?a x \<and> \<not> ?p x) (subject_epochs sid db) = []"
      using r(2) by (auto simp: filter_empty_conv)
    then have "filter ?a (subject_epochs sid db') = []"
      unfolding sub using close(1) by (subst filter_update_out) auto
    then have "fetchone ?a (subject_epochs sid db') = None" by (simp add: fetchone_None filter_empty_conv)
    with f show ?thesis
      using lock_release [of "lock_of sid db" "(ep_epoch_id r, ep_target_id r)"] by (simp add: lock_of_def sub)
  next
    case False
    then have "update_where ?p (closed_row E status at) (subject_epochs sid db) = subject_epochs sid db"
      using one by (intro update_where_none) (auto simp: subject_epochs_def)
    then show ?thesis by (simp add: lock_of_def sub lock_stays)
  qed
qed

section \<open>A sample migration\<close>

definition sample_mdb :: migration_db where
  "sample_mdb = kernel_db.extend sample_db (migration_db.fields [''t'']
     [\<lparr>mt_task_id = ''k'', mt_subject_id = ''s'', mt_target_id = ''t'', mt_status = ''cutover'',
       mt_manifest_digest = Some ''m''\<rparr>] [] [])"

definition sample_proof :: "(string \<times> json) list" where
  "sample_proof = [(''task_id'', JStr ''k''), (''subject_id'', JStr ''s''), (''target_id'', JStr ''t''),
     (''manifest_digest'', JStr ''m''), (''restore_report_digest'', JStr ''r''),
     (''health_report_digest'', JStr ''h''), (''target_signature'', JStr ''g'')]"

definition acquired_mdb :: migration_db where
  "acquired_mdb = after (acquire hexa_env ''s'' ''t'' None (Some sample_proof) ''op'' sample_mdb) sample_mdb"

definition sample_lease :: epoch_lease where
  "sample_lease = \<lparr>el_subject_id = ''s'', el_target_id = ''t'', el_epoch_id = ''migrationepoch_'', el_epoch_number = 1\<rparr>"

lemmas fence_eval = acquire_def validate_target_validation_proof_def proof_fields_def proof_text_def
  blank_iff py_isspace_def py_strip_def cutover_statuses_def acquire_unchecked_def acquire_in_transaction_def
  check_source_epoch_def insert_epoch_def migration_append_audit_def insert_migration_audit_def
  kernel_defs subject_epochs_def next_revision_def sample_mdb_def kernel_db.defs migration_db.defs sample_db_def
  sample_proof_def

lemma acquire_step:
  "acquire hexa_env ''s'' ''t'' None (Some sample_proof) ''op'' sample_mdb = Inr (sample_lease, acquired_mdb)"
  by (simp add: acquired_mdb_def after_def sample_lease_def fence_eval sample_env_def epoch_state_hash_def)

lemma acquire_transaction:
  assumes "acquire E sid tid expected p actor db = Inr (lease, db')"
  shows "acquire_in_transaction E sid tid expected actor db = Inr (lease, db')"
  using assms by (auto simp: acquire_def acquire_unchecked_def split: if_splits option.splits)

lemma sample_fence_reachable: "fence_reachable hexa_env sample_mdb" "fence_reachable hexa_env acquired_mdb"
proof -
  show r: "fence_reachable hexa_env sample_mdb"
    by (rule fence_init) (simp add: sample_mdb_def kernel_db.defs migration_db.defs)
  show "fence_reachable hexa_env acquired_mdb"
    by (rule fence_next [OF r fence_acquire [OF acquire_transaction [OF acquire_step]]])
qed

section \<open>Properties\<close>

text \<open>
  C26. Two leases of a subject that both pass \<open>assert_current\<close> are one and the same epoch and
  target: in every reachable database at most one holder has the authority over a subject.
\<close>

theorem single_active_epoch:
  assumes "fence_reachable E db" "assert_current E l1 db = Inr ()" "assert_current E l2 db = Inr ()"
    and "el_subject_id l1 = el_subject_id l2"
  shows "el_epoch_id l1 = el_epoch_id l2 \<and> el_target_id l1 = el_target_id l2"
proof -
  let ?t = "subject_epochs (el_subject_id l1) db" and ?a = "\<lambda>r. ep_status r = ''active''"
  have c: "count_where ?a ?t \<le> 1" using fence_reachable_inv [OF assms(1)] by (simp add: fence_inv_def)
  obtain r where r: "r \<in> set (migration_epochs db)" "ep_epoch_id r = el_epoch_id l1"
    "ep_subject_id r = el_subject_id l1" "?a r" "ep_target_id r = el_target_id l1"
    using assms(2) by (rule assert_current_row)
  obtain s where s: "s \<in> set (migration_epochs db)" "ep_epoch_id s = el_epoch_id l2"
    "ep_subject_id s = el_subject_id l2" "?a s" "ep_target_id s = el_target_id l2"
    using assms(3) by (rule assert_current_row)
  have m: "r \<in> set ?t" "s \<in> set ?t" using r s assms(4) by (simp_all add: subject_epochs_def)
  have "Some r = Some s"
    using fetchone_count_le_1 [where q = ?a, OF c m(1) r(4)] fetchone_count_le_1 [where q = ?a, OF c m(2) s(4)] by simp
  with r s show ?thesis by simp
qed

text \<open>
  C29. An acquired lease is current, and its number is greater than that of every earlier epoch
  of the subject: the numbers are \<open>1, 2, \<dots>\<close> in the order of acquisition.
\<close>

theorem acquired_epoch_is_newest:
  assumes "fence_reachable E db" "acquire E sid tid expected p actor db = Inr (lease, db')"
  shows "assert_current E lease db' = Inr () \<and> el_epoch_number lease = int (length (subject_epochs sid db)) + 1
    \<and> (\<forall>r\<in>set (subject_epochs sid db). ep_epoch_number r < el_epoch_number lease)"
proof -
  note e = acquire_effect [OF acquire_transaction [OF assms(2)]]
  have c: "contiguous (map ep_epoch_number (subject_epochs sid db))"
    using fence_reachable_inv [OF assms(1)] by (simp add: fence_inv_def)
  have n: "el_epoch_number lease = int (length (subject_epochs sid db)) + 1"
    using e(2) contiguous_next [OF c] by simp
  moreover have "ep_epoch_number r < el_epoch_number lease" if "r \<in> set (subject_epochs sid db)" for r
    using that contiguous_nth [OF c] n by (auto simp: in_set_conv_nth)
  moreover have "fetchone (\<lambda>r. ep_epoch_id r = el_epoch_id lease \<and> ep_subject_id r = sid) (migration_epochs db) = None"
    using e(5) by (force simp: fetchone_None)
  then have "assert_current E lease db' = Inr ()"
    using e by (simp add: assert_current_def fetchone_append)
  ultimately show ?thesis by blast
qed

text \<open>
  C28. A lease that was revoked or completed is rejected ever after: no later sequence of
  acquisitions, revocations and completions makes it current again.
\<close>

theorem stale_lease_rejected:
  assumes "fence_reachable E db"
    and "revoke E lease reason actor db = Inr db1 \<or> complete E lease actor db = Inr db1"
    and "(fence_step E)\<^sup>*\<^sup>* db1 db2"
  shows "assert_current E lease db2 = Inl (ValueError ''migration epoch is stale'')"
proof -
  have inv: "fence_inv E db" by (rule fence_reachable_inv [OF assms(1)])
  have "fence_step E db db1" using assms(2) fence_revoke fence_complete by metis
  then have "fence_inv E db1" by (rule fence_step_inv [OF _ inv])
  with close_operations_close [OF inv assms(2)] epochs.stale_stays_stale [OF assms(3)]
  have "el_epoch_id lease \<notin> active_ids db2" by blast
  then show ?thesis by (rule not_active_stale)
qed

text \<open>
  An epoch is only acquired on a complete proof: every field present and not blank, bound to
  a task of the same subject and target that is between preparation and cutover, and to that
  task's manifest digest; otherwise the call raises and nothing changes.
\<close>

theorem acquire_requires_bound_proof:
  assumes "acquire E sid tid expected p actor db = Inr (lease, db')"
  shows "\<exists>m task d. p = Some m \<and> (\<forall>key\<in>set proof_fields. proof_text m key \<noteq> None)
     \<and> proof_text m ''subject_id'' = Some sid \<and> proof_text m ''target_id'' = Some tid
     \<and> task \<in> set (migration_tasks db) \<and> proof_text m ''task_id'' = Some (mt_task_id task)
     \<and> mt_subject_id task = sid \<and> mt_target_id task = tid \<and> mt_status task \<in> set cutover_statuses
     \<and> mt_manifest_digest task = Some d \<and> d \<noteq> '''' \<and> proof_text m ''manifest_digest'' = Some d"
proof -
  obtain m where m: "p = Some m" and all: "\<forall>key\<in>set proof_fields. proof_text m key \<noteq> None"
    using assms by (auto simp: acquire_def validate_target_validation_proof_def list_ex_iff
        split: option.splits if_splits)
  have f: "''subject_id'' \<in> set proof_fields" "''target_id'' \<in> set proof_fields" "''task_id'' \<in> set proof_fields"
    "''manifest_digest'' \<in> set proof_fields" by (simp_all add: proof_fields_def)
  obtain s t k d where g: "proof_text m ''subject_id'' = Some s" "proof_text m ''target_id'' = Some t"
    "proof_text m ''task_id'' = Some k" "proof_text m ''manifest_digest'' = Some d"
    using all f by (metis not_None_eq)
  have v: "validate_target_validation_proof p = Inr (\<lambda>key. case proof_text m key of Some s \<Rightarrow> s | None \<Rightarrow> '''')"
    using m all by (simp add: validate_target_validation_proof_def list_ex_iff)
  obtain task where "fetchone (\<lambda>t. mt_task_id t = k) (migration_tasks db) = Some task"
    "mt_subject_id task = sid" "mt_target_id task = tid" "mt_status task \<in> set cutover_statuses"
    "mt_manifest_digest task = Some d" "d \<noteq> ''''" "s = sid" "t = tid"
    using assms v g by (auto simp: acquire_def split: option.splits if_splits)
  with m all g show ?thesis by (auto dest: fetchone_Some)
qed

text \<open>
  C27. The epoch table refines a lock per subject: every operation of the leases leaves the
  subject's lock alone, grants it when nobody holds it (counting the grant), or releases it.
\<close>

theorem epochs_refine_lock:
  assumes "fence_reachable E db" "fence_step E db db'"
  shows "lock_step (lock_of sid db) (lock_of sid db')"
  by (rule fence_step_refines_lock [OF assms(2) fence_reachable_inv [OF assms(1)]])

section \<open>Witnesses\<close>

lemma sample_current: "assert_current hexa_env sample_lease acquired_mdb = Inr ()"
proof -
  note e = acquire_effect [OF acquire_transaction [OF acquire_step]]
  have "migration_epochs sample_mdb = []" by (simp add: sample_mdb_def kernel_db.defs migration_db.defs)
  with e show ?thesis by (simp add: assert_current_def sample_lease_def)
qed

theorem single_active_epoch_witness:
  "assert_current hexa_env sample_lease acquired_mdb = Inr () \<and> el_epoch_id sample_lease = el_epoch_id sample_lease
     \<and> el_target_id sample_lease = el_target_id sample_lease"
  using single_active_epoch [OF sample_fence_reachable(2) sample_current sample_current] sample_current by simp

theorem acquired_epoch_is_newest_witness:
  "assert_current hexa_env sample_lease acquired_mdb = Inr () \<and> el_epoch_number sample_lease = 1"
  using acquired_epoch_is_newest [OF sample_fence_reachable(1) acquire_step]
  by (simp add: sample_mdb_def kernel_db.defs migration_db.defs subject_epochs_def)

theorem stale_lease_rejected_witness:
  "\<exists>db1. complete hexa_env sample_lease ''op'' acquired_mdb = Inr db1
     \<and> assert_current hexa_env sample_lease db1 = Inl (ValueError ''migration epoch is stale'')"
proof -
  have "is_ok (complete hexa_env sample_lease ''op'' acquired_mdb)"
    using sample_current
    by (simp add: complete_def close_epoch_def acquired_mdb_def after_def fence_eval sample_env_def
        epoch_state_hash_def sample_lease_def new_epoch_row_def closed_row_def)
  then obtain db1 where "complete hexa_env sample_lease ''op'' acquired_mdb = Inr db1" by (auto simp: is_ok_iff)
  with stale_lease_rejected [OF sample_fence_reachable(2), of sample_lease "[]" "''op''" db1 db1] show ?thesis
    by blast
qed

theorem acquire_requires_bound_proof_witness:
  "\<exists>task\<in>set (migration_tasks sample_mdb). mt_subject_id task = ''s'' \<and> mt_status task \<in> set cutover_statuses"
  using acquire_requires_bound_proof [OF acquire_step] by blast

theorem epochs_refine_lock_witness:
  "lock_step \<lparr>lk_holder = None, lk_grants = 0\<rparr> \<lparr>lk_holder = Some (''migrationepoch_'', ''t''), lk_grants = 1\<rparr>"
proof -
  note e = acquire_effect [OF acquire_transaction [OF acquire_step]]
  have "migration_epochs sample_mdb = []" by (simp add: sample_mdb_def kernel_db.defs migration_db.defs)
  with e epochs_refine_lock [OF sample_fence_reachable(1) fence_acquire [OF acquire_transaction [OF acquire_step]], of "''s''"]
  show ?thesis by (simp add: lock_of_def subject_epochs_def sample_lease_def)
qed

end
