(* ===== verification/WalletTypes.thy ===== *)
theory WalletTypes
  imports PyJson PyTime
begin

text \<open>
  The inputs of the wallet economy: the validators of \<^verbatim>\<open>wallet/economy_types.py\<close> and
  \<^verbatim>\<open>wallet/types.py\<close> and the subject identifiers of \<^verbatim>\<open>core/identity.py\<close>.  A Pydantic
  model is a record and its validation a function to the record of normalised values;
  Pydantic reports the errors of all fields at once, the model the first of them.
\<close>

section \<open>Characters\<close>

definition is_lower :: "char \<Rightarrow> bool" where
  "is_lower c = (97 \<le> (of_char c :: nat) \<and> (of_char c :: nat) \<le> 122)"

definition is_upper :: "char \<Rightarrow> bool" where
  "is_upper c = (65 \<le> (of_char c :: nat) \<and> (of_char c :: nat) \<le> 90)"

definition is_alnum :: "char \<Rightarrow> bool" where
  "is_alnum c = (is_lower c \<or> is_upper c \<or> is_digit c)"

definition lower_char :: "char \<Rightarrow> char" where
  "lower_char c = (if is_upper c then char_of ((of_char c :: nat) + 32) else c)"

text \<open>\<open>str.lower\<close> and \<open>str.casefold\<close> on ASCII text.\<close>

definition py_lower :: "string \<Rightarrow> string" where
  "py_lower s = map lower_char s"

definition is_hex :: "char \<Rightarrow> bool" where
  "is_hex c = (is_digit c \<or> 97 \<le> (of_char c :: nat) \<and> (of_char c :: nat) \<le> 102
     \<or> 65 \<le> (of_char c :: nat) \<and> (of_char c :: nat) \<le> 70)"

section \<open>Identifiers\<close>

definition reserved_subject_ids :: "string list" where
  "reserved_subject_ids = [''aux'', ''con'', ''nul'', ''prn'']
     @ map (\<lambda>i. ''com'' @ show_nat i) [1..<10] @ map (\<lambda>i. ''lpt'' @ show_nat i) [1..<10]"

definition subject_id_pattern :: "string \<Rightarrow> bool" where
  "subject_id_pattern s =
     (case s of [] \<Rightarrow> False
      | c # r \<Rightarrow> is_alnum c \<and> 2 \<le> length r \<and> length r \<le> 127
          \<and> list_all (\<lambda>x. is_alnum x \<or> x = CHR ''_'' \<or> x = CHR ''-'') r)"

definition validate_subject_id :: "string \<Rightarrow> string res" where
  "validate_subject_id subject_id =
     (if \<not> subject_id_pattern subject_id
      then Inl (ValueError (''subject_id must be 3-128 ASCII characters: letters, digits, ''
        @ [CHR 0x27, CHR ''_'', CHR 0x27] @ '' or '' @ [CHR 0x27, CHR ''-'', CHR 0x27]))
      else if py_lower subject_id \<in> set reserved_subject_ids
      then Inl (ValueError ''subject_id cannot be a reserved filesystem device name'')
      else Inr subject_id)"

definition evm_id_pattern :: "string \<Rightarrow> bool" where
  "evm_id_pattern s =
     (case s of [] \<Rightarrow> False
      | c # r \<Rightarrow> is_alnum c \<and> length r \<le> 127
          \<and> list_all (\<lambda>x. is_alnum x \<or> x \<in> set ''._:-'') r)"

definition wallet_identifier :: "string \<Rightarrow> string \<Rightarrow> string res" where
  "wallet_identifier value label =
     (let v = py_strip value
      in if evm_id_pattern v then Inr v else Inl (ValueError (''wallet '' @ label @ '' is invalid'')))"

section \<open>Amounts and addresses\<close>

definition sqlite_int64_max :: int where
  "sqlite_int64_max = 9223372036854775807"

text \<open>\<open>0\<close>, or up to \<open>n + 1\<close> digits without a leading zero.\<close>

definition decimal_pattern :: "nat \<Rightarrow> string \<Rightarrow> bool" where
  "decimal_pattern n s =
     (s = ''0'' \<or> (case s of [] \<Rightarrow> False
        | c # r \<Rightarrow> is_digit c \<and> c \<noteq> CHR ''0'' \<and> length r \<le> n \<and> list_all is_digit r))"

definition canonical_amount :: "string \<Rightarrow> string res" where
  "canonical_amount value =
     (if \<not> decimal_pattern 18 value
      then Inl (ValueError ''wallet amount must be a canonical integer string'')
      else if int (nat_of_digits value) > sqlite_int64_max
      then Inl (ValueError ''wallet amount exceeds SQLite integer bound'')
      else Inr value)"

definition canonical_balance :: "string \<Rightarrow> string res" where
  "canonical_balance value =
     (if decimal_pattern 255 value then Inr value
      else Inl (ValueError ''wallet balance must be a canonical decimal string''))"

definition evm_address_pattern :: "string \<Rightarrow> bool" where
  "evm_address_pattern s = (take 2 s = ''0x'' \<and> length s = 42 \<and> list_all is_hex (drop 2 s))"

definition canonical_evm_address :: "string \<Rightarrow> string res" where
  "canonical_evm_address value =
     (let candidate = py_strip value
      in if evm_address_pattern candidate then Inr (py_lower candidate)
         else Inl (ValueError ''wallet address must be a 20-byte EVM address''))"

section \<open>Field constraints\<close>

definition text_length :: "nat \<Rightarrow> nat \<Rightarrow> string \<Rightarrow> unit res" where
  "text_length lo hi s =
     (if length s < lo then Inl (ValueError ''string_too_short'')
      else if length s > hi then Inl (ValueError ''string_too_long'') else Inr ())"

definition items_length :: "nat \<Rightarrow> nat \<Rightarrow> 'a list \<Rightarrow> unit res" where
  "items_length lo hi xs =
     (if length xs < lo then Inl (ValueError ''too_short'')
      else if length xs > hi then Inl (ValueError ''too_long'') else Inr ())"

definition int_range :: "int \<Rightarrow> int \<Rightarrow> int \<Rightarrow> unit res" where
  "int_range lo hi i =
     (if i < lo then Inl (ValueError ''greater_than_equal'')
      else if i > hi then Inl (ValueError ''less_than_equal'') else Inr ())"

definition nonblank_text :: "string \<Rightarrow> string \<Rightarrow> string res" where
  "nonblank_text message value =
     (let v = py_strip value in if v = [] then Inl (ValueError message) else Inr v)"

section \<open>Bounties\<close>

record bounty_input =
  bi_title :: string
  bi_description :: string
  bi_acceptance_criteria :: "string list"
  bi_network_id :: string
  bi_asset_id :: string
  bi_reward_amount :: string
  bi_opens_at :: string
  bi_expires_at :: string
  bi_max_submissions :: int
  bi_reward_slots :: int
  bi_project_id :: "string option"
  bi_goal_id :: "string option"
  bi_idempotency_key :: string

definition criteria :: "string list \<Rightarrow> string list res" where
  "criteria value =
     (let cleaned = map py_strip value
      in if list_ex (\<lambda>item. item = [] \<or> length item > 2000) cleaned \<or> \<not> distinct cleaned
         then Inl (ValueError ''wallet bounty acceptance criteria are invalid'')
         else Inr cleaned)"

definition optional_id :: "string option \<Rightarrow> string option res" where
  "optional_id value =
     (case value of
        None \<Rightarrow> Inr None
      | Some v \<Rightarrow> res_bind (text_length 0 128 v) (\<lambda>_.
          res_bind (wallet_identifier v ''provenance identifier'') (\<lambda>w. Inr (Some w))))"

definition reward_amount :: "string \<Rightarrow> string res" where
  "reward_amount value =
     res_bind (text_length 1 19 value) (\<lambda>_.
     res_bind (canonical_amount value) (\<lambda>v.
       if v = ''0'' then Inl (ValueError ''wallet bounty reward must be positive'') else Inr v))"

definition input_id :: "string \<Rightarrow> string res" where
  "input_id value = res_bind (text_length 1 128 value) (\<lambda>_. wallet_identifier value ''identifier'')"

definition valid_window :: "bounty_input \<Rightarrow> bounty_input res" where
  "valid_window p =
     (if bi_expires_at p \<le> bi_opens_at p
      then Inl (ValueError ''wallet bounty expiry must be after opening'')
      else if bi_project_id p = None \<and> bi_goal_id p = None
      then Inl (ValueError ''wallet bounty requires project or goal provenance'')
      else if bi_reward_slots p > bi_max_submissions p
      then Inl (ValueError ''wallet bounty reward slots exceed submission limit'')
      else Inr p)"

definition validate_bounty_input :: "bounty_input \<Rightarrow> bounty_input res" where
  "validate_bounty_input p =
     res_bind (text_length 1 240 (bi_title p)) (\<lambda>_.
     res_bind (nonblank_text ''wallet bounty text cannot be blank'' (bi_title p)) (\<lambda>title.
     res_bind (text_length 1 20000 (bi_description p)) (\<lambda>_.
     res_bind (nonblank_text ''wallet bounty text cannot be blank'' (bi_description p)) (\<lambda>description.
     res_bind (items_length 1 32 (bi_acceptance_criteria p)) (\<lambda>_.
     res_bind (criteria (bi_acceptance_criteria p)) (\<lambda>acceptance.
     res_bind (input_id (bi_network_id p)) (\<lambda>network_id.
     res_bind (input_id (bi_asset_id p)) (\<lambda>asset_id.
     res_bind (reward_amount (bi_reward_amount p)) (\<lambda>amount.
     res_bind (canonical_timestamp (bi_opens_at p)) (\<lambda>opens_at.
     res_bind (canonical_timestamp (bi_expires_at p)) (\<lambda>expires_at.
     res_bind (int_range 1 10000 (bi_max_submissions p)) (\<lambda>_.
     res_bind (int_range 1 10000 (bi_reward_slots p)) (\<lambda>_.
     res_bind (optional_id (bi_project_id p)) (\<lambda>project_id.
     res_bind (optional_id (bi_goal_id p)) (\<lambda>goal_id.
     res_bind (input_id (bi_idempotency_key p)) (\<lambda>key.
       valid_window \<lparr>bi_title = title, bi_description = description, bi_acceptance_criteria = acceptance,
         bi_network_id = network_id, bi_asset_id = asset_id, bi_reward_amount = amount,
         bi_opens_at = opens_at, bi_expires_at = expires_at,
         bi_max_submissions = bi_max_submissions p, bi_reward_slots = bi_reward_slots p,
         bi_project_id = project_id, bi_goal_id = goal_id, bi_idempotency_key = key\<rparr>))))))))))))))))"

section \<open>Submissions\<close>

record submission_input =
  si_counterparty :: string
  si_content :: string
  si_evidence :: "string list"
  si_recipient_address :: string
  si_idempotency_key :: string
  si_consent_version :: int

definition evidence_values :: "string list \<Rightarrow> string list res" where
  "evidence_values value =
     (let cleaned = map py_strip value
      in if list_ex (\<lambda>item. item = [] \<or> length item > 2000) cleaned
         then Inl (ValueError ''wallet submission evidence is invalid'') else Inr cleaned)"

definition validate_submission_input :: "submission_input \<Rightarrow> submission_input res" where
  "validate_submission_input p =
     res_bind (text_length 1 256 (si_counterparty p)) (\<lambda>_.
     res_bind (nonblank_text ''wallet submission text cannot be blank'' (si_counterparty p)) (\<lambda>counterparty.
     res_bind (text_length 1 20000 (si_content p)) (\<lambda>_.
     res_bind (nonblank_text ''wallet submission text cannot be blank'' (si_content p)) (\<lambda>content.
     res_bind (items_length 0 32 (si_evidence p)) (\<lambda>_.
     res_bind (evidence_values (si_evidence p)) (\<lambda>evidence.
     res_bind (text_length 42 42 (si_recipient_address p)) (\<lambda>_.
     res_bind (canonical_evm_address (si_recipient_address p)) (\<lambda>recipient.
     res_bind (text_length 1 128 (si_idempotency_key p)) (\<lambda>_.
     res_bind (wallet_identifier (si_idempotency_key p) ''submission idempotency key'') (\<lambda>key.
     res_bind (int_range 1 1000 (si_consent_version p)) (\<lambda>_.
       Inr \<lparr>si_counterparty = counterparty, si_content = content, si_evidence = evidence,
            si_recipient_address = recipient, si_idempotency_key = key,
            si_consent_version = si_consent_version p\<rparr>)))))))))))"

section \<open>Payment policies\<close>

record payment_policy_input =
  pi_mode :: string
  pi_allowed_network_ids :: "string list"
  pi_allowed_asset_ids :: "string list"
  pi_per_order_limit :: string
  pi_daily_limit :: string
  pi_monthly_limit :: string
  pi_daily_order_limit :: int
  pi_monthly_order_limit :: int
  pi_min_balance :: string
  pi_max_observation_age_seconds :: int
  pi_automatic_max_amount :: string
  pi_anomaly_block :: bool
  pi_emergency_paused :: bool
  pi_automation_enabled :: "bool option"
  pi_recipient_allowlist_enabled :: bool
  pi_allowed_recipient_addresses :: "string list"

definition payment_modes :: "string list" where
  "payment_modes = [''disabled'', ''conditional_confirmation'', ''automatic'']"

definition allowlist :: "string list \<Rightarrow> string list res" where
  "allowlist value =
     res_bind (items_length 0 256 value) (\<lambda>_.
     res_bind (res_map (\<lambda>item. wallet_identifier item ''allow-list identifier'') value) (\<lambda>cleaned.
       if distinct cleaned then Inr cleaned
       else Inl (ValueError ''wallet policy allow-list contains duplicates'')))"

definition recipient_allowlist :: "string list \<Rightarrow> string list res" where
  "recipient_allowlist value =
     res_bind (items_length 0 256 value) (\<lambda>_.
     res_bind (res_map canonical_evm_address value) (\<lambda>cleaned.
       if distinct cleaned then Inr cleaned
       else Inl (ValueError ''wallet recipient allow-list contains duplicates'')))"

definition validate_payment_policy_input :: "payment_policy_input \<Rightarrow> payment_policy_input res" where
  "validate_payment_policy_input p =
     res_bind (if pi_mode p \<in> set payment_modes then Inr () else Inl (ValueError ''literal_error'')) (\<lambda>_.
     res_bind (allowlist (pi_allowed_network_ids p)) (\<lambda>networks.
     res_bind (allowlist (pi_allowed_asset_ids p)) (\<lambda>assets.
     res_bind (canonical_amount (pi_per_order_limit p)) (\<lambda>per_order.
     res_bind (canonical_amount (pi_daily_limit p)) (\<lambda>daily.
     res_bind (canonical_amount (pi_monthly_limit p)) (\<lambda>monthly.
     res_bind (int_range 0 1000000 (pi_daily_order_limit p)) (\<lambda>_.
     res_bind (int_range 0 1000000 (pi_monthly_order_limit p)) (\<lambda>_.
     res_bind (canonical_amount (pi_min_balance p)) (\<lambda>min_balance.
     res_bind (int_range 0 2592000 (pi_max_observation_age_seconds p)) (\<lambda>_.
     res_bind (canonical_amount (pi_automatic_max_amount p)) (\<lambda>automatic_max.
     res_bind (recipient_allowlist (pi_allowed_recipient_addresses p)) (\<lambda>recipients.
       Inr (p\<lparr>pi_allowed_network_ids := networks, pi_allowed_asset_ids := assets,
              pi_per_order_limit := per_order, pi_daily_limit := daily, pi_monthly_limit := monthly,
              pi_min_balance := min_balance, pi_automatic_max_amount := automatic_max,
              pi_allowed_recipient_addresses := recipients\<rparr>)))))))))))))"

section \<open>Normal forms\<close>

lemma dropWhile_idle: "(\<And>c. c \<in> set s \<Longrightarrow> \<not> P c) \<Longrightarrow> dropWhile P s = s"
  by (cases s) auto

lemma py_strip_no_space: "(\<And>c. c \<in> set s \<Longrightarrow> \<not> py_isspace c) \<Longrightarrow> py_strip s = s"
proof -
  assume h: "\<And>c. c \<in> set s \<Longrightarrow> \<not> py_isspace c"
  have "dropWhile py_isspace s = s" using h by (rule dropWhile_idle)
  moreover have "dropWhile py_isspace (rev s) = rev s" using h by (intro dropWhile_idle) simp
  ultimately show ?thesis by (simp add: py_strip_def)
qed

lemma dropWhile_hd: "dropWhile P s = [] \<or> \<not> P (hd (dropWhile P s))"
  using hd_dropWhile [of P s] by (cases "dropWhile P s = []") auto

lemma dropWhile_stable: "s = [] \<or> \<not> P (hd s) \<Longrightarrow> dropWhile P s = s"
  by (cases s) auto

lemma py_strip_idem [simp]: "py_strip (py_strip s) = py_strip s"
proof -
  let ?l = "dropWhile py_isspace s" and ?r = "rev (dropWhile py_isspace (rev (dropWhile py_isspace s)))"
  have "?r = [] \<or> \<not> py_isspace (hd ?r)"
  proof (cases "?r = []")
    case False
    obtain u where "rev ?l = u @ dropWhile py_isspace (rev ?l)" by (metis takeWhile_dropWhile_id)
    then have "?l = ?r @ rev u" by (metis rev_append rev_rev_ident)
    with False have "hd ?l = hd ?r" "?l \<noteq> []" by (metis hd_append2, metis append_is_Nil_conv)
    with dropWhile_hd [of py_isspace s] show ?thesis by metis
  qed simp
  then have "dropWhile py_isspace ?r = ?r" by (rule dropWhile_stable)
  moreover have "dropWhile py_isspace (rev ?r) = rev ?r"
    using dropWhile_hd [of py_isspace "rev ?l"] by (simp add: dropWhile_stable)
  ultimately show ?thesis by (simp add: py_strip_def)
qed

lemma length_py_strip: "length (py_strip s) \<le> length s"
  unfolding py_strip_def by (metis length_dropWhile_le length_rev order_trans)

lemma alnum_not_space: "is_alnum c \<Longrightarrow> \<not> py_isspace c"
  by (auto simp: is_alnum_def is_lower_def is_upper_def is_digit_def py_isspace_def Let_def)

lemma evm_id_strip: "evm_id_pattern s \<Longrightarrow> py_strip s = s"
proof (rule py_strip_no_space)
  fix c assume p: "evm_id_pattern s" "c \<in> set s"
  then have "is_alnum c \<or> c \<in> set ''._:-''"
    by (auto simp: evm_id_pattern_def list_all_iff split: list.splits)
  then show "\<not> py_isspace c" using alnum_not_space [of c] by (auto simp: py_isspace_def)
qed

lemma identifier_normal:
  assumes "wallet_identifier v l = Inr w"
  shows "wallet_identifier w l' = Inr w" "1 \<le> length w" "length w \<le> length v"
  using assms evm_id_strip [of w] length_py_strip [of v]
  by (auto simp: wallet_identifier_def Let_def evm_id_pattern_def split: if_splits list.splits)

lemma input_id_normal: "input_id v = Inr w \<Longrightarrow> input_id w = Inr w"
  using identifier_normal(1) [of v "''identifier''" w "''identifier''"] identifier_normal(2,3) [of v "''identifier''" w]
  by (auto simp: input_id_def text_length_def split: if_splits)

lemma nonblank_text_normal:
  assumes "nonblank_text m v = Inr w"
  shows "nonblank_text m w = Inr w" "1 \<le> length w" "length w \<le> length v"
  using assms length_py_strip [of v]
  by (auto simp: nonblank_text_def Let_def Suc_le_eq split: if_splits)

lemma text_length_normal: "text_length lo hi v = Inr () \<Longrightarrow> lo \<le> length w \<Longrightarrow> length w \<le> length v \<Longrightarrow> text_length lo hi w = Inr ()"
  by (auto simp: text_length_def split: if_splits)

lemma criteria_normal: "criteria v = Inr w \<Longrightarrow> criteria w = Inr w \<and> length w = length v"
  by (auto simp: criteria_def Let_def comp_def split: if_splits)

lemma evidence_normal: "evidence_values v = Inr w \<Longrightarrow> evidence_values w = Inr w \<and> length w = length v"
  by (auto simp: evidence_values_def Let_def comp_def split: if_splits)

lemma optional_id_normal: "optional_id v = Inr w \<Longrightarrow> optional_id w = Inr w"
proof (cases v)
  case (Some x)
  assume "optional_id v = Inr w"
  with Some obtain y where y: "wallet_identifier x ''provenance identifier'' = Inr y" "w = Some y" "text_length 0 128 x = Inr ()"
    by (auto simp: optional_id_def)
  from identifier_normal(1) [OF y(1), of "''provenance identifier''"] identifier_normal(2,3) [OF y(1)] text_length_normal [OF y(3), of y] y(2)
  show ?thesis by (simp add: optional_id_def)
qed (simp add: optional_id_def)

lemma reward_amount_normal:
  assumes "reward_amount v = Inr w"
  shows "w = v" "0 < nat_of_digits w" "int (nat_of_digits w) \<le> sqlite_int64_max"
proof -
  show w: "w = v" "int (nat_of_digits w) \<le> sqlite_int64_max"
    using assms by (auto simp: reward_amount_def canonical_amount_def split: if_splits)
  have "decimal_pattern 18 v" "v \<noteq> ''0''"
    using assms by (auto simp: reward_amount_def canonical_amount_def split: if_splits)
  then obtain c r where c: "v = c # r" "is_digit c" "c \<noteq> CHR ''0''" "list_all is_digit r"
    by (auto simp: decimal_pattern_def split: list.splits)
  have "digit_val c \<noteq> 0"
  proof
    assume "digit_val c = 0"
    then have "(of_char c :: nat) = of_char (CHR ''0'')" using c(2) by (auto simp: digit_val_def is_digit_def)
    then show False using c(3) by (metis of_char_eq_iff)
  qed
  moreover have "foldl (\<lambda>n c. 10 * n + digit_val c) k r \<ge> k" for k
  proof (induction r arbitrary: k)
    case (Cons x r)
    have "k \<le> 10 * k + digit_val x" by simp
    also have "\<dots> \<le> foldl (\<lambda>n c. 10 * n + digit_val c) (10 * k + digit_val x) r" by (rule Cons.IH)
    finally show ?case by simp
  qed simp
  from this [of "digit_val c"] have "digit_val c \<le> nat_of_digits v" unfolding c(1) nat_of_digits_def by simp
  ultimately show "0 < nat_of_digits w" unfolding w(1) by linarith
qed

lemma hex_lower_char: "is_hex c \<Longrightarrow> is_hex (lower_char c)"
  by (auto simp: is_hex_def lower_char_def is_upper_def is_digit_def)

lemma lower_char_idem [simp]: "lower_char (lower_char c) = lower_char c"
  by (auto simp: lower_char_def is_upper_def)

lemma hex_not_space: "is_hex c \<Longrightarrow> \<not> py_isspace c"
  by (auto simp: is_hex_def is_digit_def py_isspace_def Let_def)

lemma canonical_evm_address_normal:
  assumes "canonical_evm_address v = Inr w"
  shows "canonical_evm_address w = Inr w" "length w = 42"
proof -
  obtain u where u: "evm_address_pattern u" "w = py_lower u"
    using assms by (auto simp: canonical_evm_address_def Let_def split: if_splits)
  then have ux: "take 2 u = ''0x''" "length u = 42" "list_all is_hex (drop 2 u)"
    by (auto simp: evm_address_pattern_def)
  have z: "lower_char (CHR ''0'') = CHR ''0''" "lower_char (CHR ''x'') = CHR ''x''"
    by (simp_all add: lower_char_def is_upper_def)
  have p: "evm_address_pattern w"
    using ux hex_lower_char unfolding u(2) evm_address_pattern_def py_lower_def
    by (auto simp: take_map drop_map list_all_iff z)
  have "\<not> py_isspace c" if "c \<in> set w" for c
  proof -
    have "set w = set (take 2 w) \<union> set (drop 2 w)" by (metis append_take_drop_id set_append)
    with that p have "c \<in> set ''0x'' \<or> is_hex c" by (auto simp: evm_address_pattern_def list_all_iff)
    then show ?thesis using hex_not_space by (auto simp: py_isspace_def)
  qed
  then have "py_strip w = w" by (rule py_strip_no_space)
  with p show "canonical_evm_address w = Inr w" by (simp add: canonical_evm_address_def u(2) py_lower_def comp_def)
  show "length w = 42" using p by (simp add: evm_address_pattern_def)
qed

lemma validate_bounty_input_fields:
  assumes "validate_bounty_input p = Inr q"
  shows "text_length 1 240 (bi_title p) = Inr ()"
    "nonblank_text ''wallet bounty text cannot be blank'' (bi_title p) = Inr (bi_title q)"
    "text_length 1 20000 (bi_description p) = Inr ()"
    "nonblank_text ''wallet bounty text cannot be blank'' (bi_description p) = Inr (bi_description q)"
    "items_length 1 32 (bi_acceptance_criteria p) = Inr ()"
    "criteria (bi_acceptance_criteria p) = Inr (bi_acceptance_criteria q)"
    "input_id (bi_network_id p) = Inr (bi_network_id q)" "input_id (bi_asset_id p) = Inr (bi_asset_id q)"
    "reward_amount (bi_reward_amount p) = Inr (bi_reward_amount q)"
    "canonical_timestamp (bi_opens_at p) = Inr (bi_opens_at q)"
    "canonical_timestamp (bi_expires_at p) = Inr (bi_expires_at q)"
    "int_range 1 10000 (bi_max_submissions q) = Inr ()" "int_range 1 10000 (bi_reward_slots q) = Inr ()"
    "optional_id (bi_project_id p) = Inr (bi_project_id q)" "optional_id (bi_goal_id p) = Inr (bi_goal_id q)"
    "input_id (bi_idempotency_key p) = Inr (bi_idempotency_key q)" "valid_window q = Inr q"
  using assms by (auto simp: validate_bounty_input_def valid_window_def split: if_splits)

lemma validate_bounty_input_stable:
  assumes "validate_bounty_input p = Inr q"
  shows "validate_bounty_input q = Inr q"
proof -
  note f = validate_bounty_input_fields [OF assms]
  have t: "text_length 1 240 (bi_title q) = Inr ()" "text_length 1 20000 (bi_description q) = Inr ()"
    using text_length_normal [OF f(1)] nonblank_text_normal(2,3) [OF f(2)]
      text_length_normal [OF f(3)] nonblank_text_normal(2,3) [OF f(4)] by simp_all
  have c: "criteria (bi_acceptance_criteria q) = Inr (bi_acceptance_criteria q)"
    "items_length 1 32 (bi_acceptance_criteria q) = Inr ()"
    using criteria_normal [OF f(6)] f(5) by (auto simp: items_length_def split: if_splits)
  have i: "input_id (bi_network_id q) = Inr (bi_network_id q)" "input_id (bi_asset_id q) = Inr (bi_asset_id q)"
    "input_id (bi_idempotency_key q) = Inr (bi_idempotency_key q)"
    by (rule input_id_normal [OF f(7)], rule input_id_normal [OF f(8)], rule input_id_normal [OF f(16)])
  have r: "reward_amount (bi_reward_amount q) = Inr (bi_reward_amount q)"
    using f(9) reward_amount_normal(1) [OF f(9)] by simp
  show ?thesis
    using t c i r f(12,13,17) nonblank_text_normal(1) [OF f(2)] nonblank_text_normal(1) [OF f(4)]
      canonical_timestamp_idem [OF f(10)] canonical_timestamp_idem [OF f(11)] optional_id_normal [OF f(14)] optional_id_normal [OF f(15)]
    by (cases q) (simp add: validate_bounty_input_def)
qed

lemma validate_submission_input_fields:
  assumes "validate_submission_input p = Inr q"
  shows "text_length 1 256 (si_counterparty p) = Inr ()"
    "nonblank_text ''wallet submission text cannot be blank'' (si_counterparty p) = Inr (si_counterparty q)"
    "text_length 1 20000 (si_content p) = Inr ()"
    "nonblank_text ''wallet submission text cannot be blank'' (si_content p) = Inr (si_content q)"
    "items_length 0 32 (si_evidence p) = Inr ()" "evidence_values (si_evidence p) = Inr (si_evidence q)"
    "canonical_evm_address (si_recipient_address p) = Inr (si_recipient_address q)"
    "text_length 1 128 (si_idempotency_key p) = Inr ()"
    "wallet_identifier (si_idempotency_key p) ''submission idempotency key'' = Inr (si_idempotency_key q)"
    "int_range 1 1000 (si_consent_version q) = Inr ()"
  using assms by (auto simp: validate_submission_input_def)

section \<open>Properties\<close>

text \<open>
  C40. A validated bounty is in normal form and within bounds: validating it again changes
  nothing, its reward is a positive 64-bit amount, it closes after it opens, and it has
  between one reward slot and as many as it takes submissions.
\<close>

theorem validated_bounty_canonical:
  assumes "validate_bounty_input p = Inr q"
  shows "validate_bounty_input q = Inr q \<and> 0 < nat_of_digits (bi_reward_amount q)
    \<and> int (nat_of_digits (bi_reward_amount q)) \<le> sqlite_int64_max \<and> bi_opens_at q < bi_expires_at q
    \<and> 1 \<le> bi_reward_slots q \<and> bi_reward_slots q \<le> bi_max_submissions q \<and> bi_max_submissions q \<le> 10000
    \<and> (bi_project_id q \<noteq> None \<or> bi_goal_id q \<noteq> None)"
proof -
  note f = validate_bounty_input_fields [OF assms]
  have "reward_amount (bi_reward_amount q) = Inr (bi_reward_amount q)"
    using f(9) reward_amount_normal(1) [OF f(9)] by simp
  from reward_amount_normal(2,3) [OF this] validate_bounty_input_stable [OF assms] f(12,13,17)
  show ?thesis by (auto simp: int_range_def valid_window_def split: if_splits)
qed

text \<open>
  A validated submission is in normal form: validating it again changes nothing, so equal
  submissions are equal texts, and the recipient is a 42-character address.
\<close>

theorem validated_submission_canonical:
  assumes "validate_submission_input p = Inr q"
  shows "validate_submission_input q = Inr q \<and> length (si_recipient_address q) = 42"
proof -
  note f = validate_submission_input_fields [OF assms]
  have t: "text_length 1 256 (si_counterparty q) = Inr ()" "text_length 1 20000 (si_content q) = Inr ()"
    "text_length 1 128 (si_idempotency_key q) = Inr ()"
    using text_length_normal [OF f(1)] nonblank_text_normal(2,3) [OF f(2)] text_length_normal [OF f(3)]
      nonblank_text_normal(2,3) [OF f(4)] text_length_normal [OF f(8)] identifier_normal(2,3) [OF f(9)] by simp_all
  have e: "evidence_values (si_evidence q) = Inr (si_evidence q)" "items_length 0 32 (si_evidence q) = Inr ()"
    using evidence_normal [OF f(6)] f(5) by (auto simp: items_length_def split: if_splits)
  have a: "text_length 42 42 (si_recipient_address q) = Inr ()"
    using canonical_evm_address_normal(2) [OF f(7)] by (simp add: text_length_def)
  show ?thesis
    using t e a f(10) canonical_evm_address_normal [OF f(7)] nonblank_text_normal(1) [OF f(2)] nonblank_text_normal(1) [OF f(4)]
      identifier_normal(1) [OF f(9)]
    by (simp add: validate_submission_input_def)
qed

section \<open>Witnesses\<close>

definition sample_bounty :: bounty_input where
  "sample_bounty = \<lparr>bi_title = '' fix '', bi_description = ''d'', bi_acceptance_criteria = [''a '', ''b''],
     bi_network_id = ''n1'', bi_asset_id = ''a1'', bi_reward_amount = ''25'',
     bi_opens_at = ''2026-01-01T00:00:00+00:00'', bi_expires_at = ''2026-02-01T01:00:00+01:00'',
     bi_max_submissions = 3, bi_reward_slots = 2, bi_project_id = None, bi_goal_id = Some ''g1'',
     bi_idempotency_key = ''k1''\<rparr>"

definition sample_submission :: submission_input where
  "sample_submission = \<lparr>si_counterparty = '' bob'', si_content = ''done'', si_evidence = [],
     si_recipient_address = ''0x'' @ replicate 40 (CHR ''A''), si_idempotency_key = ''k'', si_consent_version = 1\<rparr>"

lemmas input_eval = text_length_def items_length_def int_range_def nonblank_text_def criteria_def optional_id_def
  reward_amount_def input_id_def wallet_identifier_def evm_id_pattern_def canonical_amount_def decimal_pattern_def
  sqlite_int64_max_def is_alnum_def is_lower_def is_upper_def is_digit_def nat_of_digits_def digit_val_def
  py_strip_def py_isspace_def Let_def

lemma sample_bounty_valid: "is_ok (validate_bounty_input sample_bounty)"
  by (simp add: validate_bounty_input_def sample_bounty_def valid_window_def input_eval time_eval)

lemma sample_submission_valid: "is_ok (validate_submission_input sample_submission)"
  by (simp add: validate_submission_input_def sample_submission_def evidence_values_def canonical_evm_address_def
      evm_address_pattern_def is_hex_def replicate_eval input_eval)

theorem validated_bounty_canonical_witness:
  "\<exists>q. validate_bounty_input sample_bounty = Inr q \<and> validate_bounty_input q = Inr q"
  using sample_bounty_valid validated_bounty_canonical unfolding is_ok_iff by blast

theorem validated_submission_canonical_witness:
  "\<exists>q. validate_submission_input sample_submission = Inr q \<and> length (si_recipient_address q) = 42"
  using sample_submission_valid validated_submission_canonical unfolding is_ok_iff by blast

end
