(* ===== verification/WalletTables.thy ===== *)
theory WalletTables
  imports EventStore WalletTypes StateMachine
begin

text \<open>
  The tables of the wallet economy (migrations 53 to 71 of \<^verbatim>\<open>core/schema\<close>) with their
  constraints and triggers, and the digests of their rows (\<^verbatim>\<open>wallet/economy.py\<close>,
  \<^verbatim>\<open>core/wallet_schema.py\<close>, \<^verbatim>\<open>core/schema/evidence.py\<close>).  Of the tables other components
  write (projects, goals) the rows carry the columns the economy reads.  The schema is the current one: orders have \<open>authorized_at\<close>.
\<close>

section \<open>Rows\<close>

record network_row =
  nw_network_id :: string
  nw_subject_id :: string
  nw_label :: string
  nw_chain_family :: string
  nw_chain_id :: int
  nw_native_symbol :: string
  nw_rpc_url :: "string option"
  nw_status :: string
  nw_state_hash :: string
  nw_created_at :: string
  nw_revoked_at :: "string option"
  nw_revoke_reason :: "string option"
  nw_created_audit_id :: string
  nw_revoked_audit_id :: "string option"

record asset_row =
  as_asset_id :: string
  as_subject_id :: string
  as_network_id :: string
  as_asset_type :: string
  as_contract_address :: "string option"
  as_name :: string
  as_symbol :: string
  as_decimals :: int
  as_status :: string
  as_state_hash :: string
  as_created_at :: string
  as_revoked_at :: "string option"
  as_revoke_reason :: "string option"
  as_created_audit_id :: string
  as_revoked_audit_id :: "string option"

record address_row =
  ad_address_id :: string
  ad_subject_id :: string
  ad_network_id :: string
  ad_label :: string
  ad_address :: string
  ad_purpose :: string
  ad_status :: string
  ad_state_hash :: string
  ad_created_at :: string
  ad_revoked_at :: "string option"
  ad_revoke_reason :: "string option"
  ad_created_audit_id :: string
  ad_revoked_audit_id :: "string option"

record snapshot_row =
  bs_snapshot_id :: string
  bs_subject_id :: string
  bs_network_id :: string
  bs_asset_id :: string
  bs_address_id :: string
  bs_balance :: string
  bs_source :: string
  bs_observed_at :: string
  bs_created_at :: string
  bs_state_hash :: string

record bounty_row =
  bo_bounty_id :: string
  bo_subject_id :: string
  bo_project_id :: "string option"
  bo_goal_id :: "string option"
  bo_idempotency_key :: string
  bo_title :: string
  bo_description :: string
  bo_acceptance_criteria_json :: string
  bo_network_id :: string
  bo_asset_id :: string
  bo_reward_amount :: string
  bo_opens_at :: string
  bo_expires_at :: string
  bo_max_submissions :: int
  bo_reward_slots :: int
  bo_status :: string
  bo_state_hash :: string
  bo_created_audit_id :: string
  bo_last_audit_id :: string
  bo_created_at :: string
  bo_updated_at :: string

record submission_row =
  su_submission_id :: string
  su_bounty_id :: string
  su_subject_id :: string
  su_counterparty :: string
  su_content :: string
  su_evidence_json :: string
  su_recipient_address :: string
  su_idempotency_key :: string
  su_consent_version :: int
  su_status :: string
  su_decision_reason :: "string option"
  su_created_at :: string
  su_decided_at :: "string option"
  su_state_hash :: string
  su_created_audit_id :: string
  su_decision_audit_id :: "string option"

record policy_row =
  po_subject_id :: string
  po_mode :: string
  po_allowed_network_ids_json :: string
  po_allowed_asset_ids_json :: string
  po_per_order_limit :: string
  po_daily_limit :: string
  po_monthly_limit :: string
  po_daily_order_limit :: int
  po_monthly_order_limit :: int
  po_min_balance :: string
  po_max_observation_age_seconds :: int
  po_automatic_max_amount :: string
  po_anomaly_block :: bool
  po_emergency_paused :: bool
  po_automation_enabled :: bool
  po_recipient_allowlist_enabled :: bool
  po_allowed_recipient_addresses_json :: string
  po_policy_version :: int
  po_updated_at :: string
  po_state_hash :: string

record order_row =
  or_order_id :: string
  or_subject_id :: string
  or_bounty_id :: string
  or_submission_id :: string
  or_network_id :: string
  or_asset_id :: string
  or_recipient_address :: string
  or_amount :: string
  or_payment_mode :: string
  or_policy_version :: int
  or_idempotency_key :: string
  or_authorized_at :: "string option"
  or_created_audit_id :: string
  or_last_audit_id :: string
  or_status :: string
  or_state_hash :: string
  or_created_at :: string
  or_updated_at :: string

record journal_row =
  jo_journal_id :: string
  jo_subject_id :: string
  jo_order_id :: string
  jo_network_id :: string
  jo_asset_id :: string
  jo_journal_type :: string
  jo_amount :: string
  jo_created_at :: string
  jo_state_hash :: string

record entry_row =
  en_entry_id :: string
  en_journal_id :: string
  en_subject_id :: string
  en_order_id :: string
  en_account :: string
  en_direction :: string
  en_amount :: string
  en_created_at :: string
  en_state_hash :: string

record execution_row =
  ex_execution_id :: string
  ex_subject_id :: string
  ex_order_id :: string
  ex_network_id :: string
  ex_asset_id :: string
  ex_source_address :: string
  ex_recipient_address :: string
  ex_asset_type :: string
  ex_contract_address :: "string option"
  ex_amount :: string
  ex_chain_id :: int
  ex_nonce :: int
  ex_gas_limit :: int
  ex_max_fee_per_gas :: string
  ex_request_id :: string
  ex_request_hash :: string
  ex_signer_id :: string
  ex_status :: string
  ex_tx_hash :: "string option"
  ex_error_code :: "string option"
  ex_receipt_status :: "int option"
  ex_receipt_block_number :: "int option"
  ex_receipt_block_hash :: "string option"
  ex_receipt_confirmations :: "int option"
  ex_receipt_effect_hash :: "string option"
  ex_attempt_count :: int
  ex_state_hash :: string
  ex_created_audit_id :: string
  ex_last_audit_id :: string
  ex_created_at :: string
  ex_updated_at :: string

record attempt_row =
  at_attempt_id :: string
  at_execution_id :: string
  at_subject_id :: string
  at_attempt_number :: int
  at_request_id :: string
  at_status :: string
  at_tx_hash :: "string option"
  at_error_code :: "string option"
  at_started_at :: string
  at_completed_at :: "string option"
  at_state_hash :: string
  at_created_audit_id :: string

record reconciliation_row =
  re_event_id :: string
  re_subject_id :: string
  re_order_id :: string
  re_execution_id :: string
  re_previous_status :: string
  re_reason :: string
  re_tx_hash :: "string option"
  re_created_at :: string
  re_state_hash :: string

record wallet_db = kernel_db +
  autonomous_projects :: "(string \<times> string) list"
  goals :: "(string \<times> string) list"
  wallet_networks :: "network_row list"
  wallet_assets :: "asset_row list"
  wallet_addresses :: "address_row list"
  wallet_balance_snapshots :: "snapshot_row list"
  wallet_bounties :: "bounty_row list"
  wallet_bounty_submissions :: "submission_row list"
  wallet_payment_policies :: "policy_row list"
  wallet_payment_orders :: "order_row list"
  wallet_ledger_journals :: "journal_row list"
  wallet_ledger_entries :: "entry_row list"
  wallet_payment_executions :: "execution_row list"
  wallet_payment_execution_attempts :: "attempt_row list"
  wallet_payment_reconciliation_events :: "reconciliation_row list"

section \<open>Digests\<close>

definition order_state :: "order_row \<Rightarrow> json" where
  "order_state r = JObj
     [(''order_id'', JStr (or_order_id r)), (''subject_id'', JStr (or_subject_id r)),
      (''bounty_id'', JStr (or_bounty_id r)), (''submission_id'', JStr (or_submission_id r)),
      (''network_id'', JStr (or_network_id r)), (''asset_id'', JStr (or_asset_id r)),
      (''recipient_address'', JStr (or_recipient_address r)), (''amount'', JStr (or_amount r)),
      (''payment_mode'', JStr (or_payment_mode r)), (''policy_version'', JInt (or_policy_version r)),
      (''idempotency_key'', JStr (or_idempotency_key r)), (''status'', JStr (or_status r)),
      (''created_at'', JStr (or_created_at r)), (''authorized_at'', json_opt (or_authorized_at r)),
      (''updated_at'', JStr (or_updated_at r))]"

definition order_state_hash :: "env \<Rightarrow> order_row \<Rightarrow> string" where
  "order_state_hash E r = content_hash (env_sha256 E) (order_state r)"

definition wallet_journal_hash :: "env \<Rightarrow> journal_row \<Rightarrow> string res" where
  "wallet_journal_hash E r =
     res_bind (validate_wallet_timestamp (jo_created_at r)) (\<lambda>_.
       Inr (content_hash (env_sha256 E) (JObj
         [(''journal_id'', JStr (jo_journal_id r)), (''subject_id'', JStr (jo_subject_id r)),
          (''order_id'', JStr (jo_order_id r)), (''network_id'', JStr (jo_network_id r)),
          (''asset_id'', JStr (jo_asset_id r)), (''journal_type'', JStr (jo_journal_type r)),
          (''amount'', JStr (jo_amount r)), (''created_at'', JStr (jo_created_at r))])))"

definition wallet_entry_hash :: "env \<Rightarrow> entry_row \<Rightarrow> string res" where
  "wallet_entry_hash E r =
     res_bind (validate_wallet_timestamp (en_created_at r)) (\<lambda>_.
       Inr (content_hash (env_sha256 E) (JObj
         [(''entry_id'', JStr (en_entry_id r)), (''journal_id'', JStr (en_journal_id r)),
          (''subject_id'', JStr (en_subject_id r)), (''order_id'', JStr (en_order_id r)),
          (''account'', JStr (en_account r)), (''direction'', JStr (en_direction r)),
          (''amount'', JStr (en_amount r)), (''created_at'', JStr (en_created_at r))])))"

definition bounty_state :: "bounty_row \<Rightarrow> json" where
  "bounty_state r = JObj
     [(''bounty_id'', JStr (bo_bounty_id r)), (''subject_id'', JStr (bo_subject_id r)),
      (''project_id'', json_opt (bo_project_id r)), (''goal_id'', json_opt (bo_goal_id r)),
      (''idempotency_key'', JStr (bo_idempotency_key r)), (''title'', JStr (bo_title r)),
      (''description'', JStr (bo_description r)),
      (''acceptance_criteria_json'', JStr (bo_acceptance_criteria_json r)),
      (''network_id'', JStr (bo_network_id r)), (''asset_id'', JStr (bo_asset_id r)),
      (''reward_amount'', JStr (bo_reward_amount r)), (''opens_at'', JStr (bo_opens_at r)),
      (''expires_at'', JStr (bo_expires_at r)), (''max_submissions'', JInt (bo_max_submissions r)),
      (''reward_slots'', JInt (bo_reward_slots r)), (''status'', JStr (bo_status r))]"

definition bounty_state_hash :: "env \<Rightarrow> bounty_row \<Rightarrow> string" where
  "bounty_state_hash E r = content_hash (env_sha256 E) (bounty_state r)"

definition submission_state :: "submission_row \<Rightarrow> json" where
  "submission_state r = JObj
     [(''submission_id'', JStr (su_submission_id r)), (''bounty_id'', JStr (su_bounty_id r)),
      (''subject_id'', JStr (su_subject_id r)), (''counterparty'', JStr (su_counterparty r)),
      (''content'', JStr (su_content r)), (''evidence_json'', JStr (su_evidence_json r)),
      (''recipient_address'', JStr (su_recipient_address r)),
      (''idempotency_key'', JStr (su_idempotency_key r)),
      (''consent_version'', JInt (su_consent_version r)), (''status'', JStr (su_status r)),
      (''decision_reason'', json_opt (su_decision_reason r))]"

definition wallet_submission_state_hash :: "env \<Rightarrow> submission_row \<Rightarrow> string" where
  "wallet_submission_state_hash E r = content_hash (env_sha256 E) (submission_state r)"

definition json_flag :: "bool \<Rightarrow> json" where
  "json_flag b = JInt (if b then 1 else 0)"

definition wallet_payment_policy_state_hash :: "env \<Rightarrow> policy_row \<Rightarrow> string res" where
  "wallet_payment_policy_state_hash E r =
     res_bind (validate_wallet_timestamp (po_updated_at r)) (\<lambda>_.
       Inr (content_hash (env_sha256 E) (JObj
         [(''subject_id'', JStr (po_subject_id r)), (''mode'', JStr (po_mode r)),
          (''allowed_network_ids_json'', JStr (po_allowed_network_ids_json r)),
          (''allowed_asset_ids_json'', JStr (po_allowed_asset_ids_json r)),
          (''per_order_limit'', JStr (po_per_order_limit r)), (''daily_limit'', JStr (po_daily_limit r)),
          (''monthly_limit'', JStr (po_monthly_limit r)), (''daily_order_limit'', JInt (po_daily_order_limit r)),
          (''monthly_order_limit'', JInt (po_monthly_order_limit r)), (''min_balance'', JStr (po_min_balance r)),
          (''max_observation_age_seconds'', JInt (po_max_observation_age_seconds r)),
          (''automatic_max_amount'', JStr (po_automatic_max_amount r)),
          (''anomaly_block'', json_flag (po_anomaly_block r)),
          (''emergency_paused'', json_flag (po_emergency_paused r)),
          (''automation_enabled'', json_flag (po_automation_enabled r)),
          (''recipient_allowlist_enabled'', json_flag (po_recipient_allowlist_enabled r)),
          (''allowed_recipient_addresses_json'', JStr (po_allowed_recipient_addresses_json r)),
          (''policy_version'', JInt (po_policy_version r)), (''updated_at'', JStr (po_updated_at r))])))"

section \<open>Constraints\<close>

text \<open>SQLite's \<open>trim\<close> removes spaces; \<open>sql_amount\<close> is the \<open>GLOB\<close> check of the amount columns.\<close>

definition sql_trim :: "string \<Rightarrow> string" where
  "sql_trim s = rev (dropWhile (\<lambda>c. c = CHR '' '') (rev (dropWhile (\<lambda>c. c = CHR '' '') s)))"

definition trimmed_between :: "nat \<Rightarrow> nat \<Rightarrow> string \<Rightarrow> bool" where
  "trimmed_between lo hi s = (lo \<le> length (sql_trim s) \<and> length (sql_trim s) \<le> hi)"

definition sql_amount :: "string \<Rightarrow> bool" where
  "sql_amount s = decimal_pattern 255 s"

definition order_statuses :: "string list" where
  "order_statuses = [''pending_policy'', ''awaiting_confirmation'', ''reserved'', ''rejected'', ''cancelled'',
     ''expired'', ''signing'', ''broadcast'', ''unknown'', ''confirmed'', ''failed'', ''refunded'']"

definition unique_error :: "string \<Rightarrow> py_error" where
  "unique_error t = SqliteIntegrityError (''UNIQUE constraint failed: '' @ t)"

definition check_error :: "string \<Rightarrow> py_error" where
  "check_error t = SqliteIntegrityError (''CHECK constraint failed: '' @ t)"

definition foreign_key_error :: py_error where
  "foreign_key_error = SqliteIntegrityError ''FOREIGN KEY constraint failed''"

definition insert_bounty :: "bounty_row \<Rightarrow> 'a wallet_db_scheme \<Rightarrow> ('a wallet_db_scheme) res" where
  "insert_bounty r db =
     (if bo_bounty_id r \<in> bo_bounty_id ` set (wallet_bounties db)
         \<or> (\<exists>x\<in>set (wallet_bounties db). bo_subject_id x = bo_subject_id r \<and> bo_idempotency_key x = bo_idempotency_key r)
      then Inl (unique_error ''wallet_bounties'')
      else if bo_subject_id r \<notin> set (subject_identity db)
         \<or> (\<exists>p. bo_project_id r = Some p \<and> p \<notin> fst ` set (autonomous_projects db))
         \<or> (\<exists>g. bo_goal_id r = Some g \<and> g \<notin> fst ` set (goals db))
         \<or> bo_network_id r \<notin> nw_network_id ` set (wallet_networks db)
         \<or> bo_asset_id r \<notin> as_asset_id ` set (wallet_assets db)
         \<or> bo_created_audit_id r \<notin> au_audit_id ` set (audit_records db)
         \<or> bo_last_audit_id r \<notin> au_audit_id ` set (audit_records db)
      then Inl foreign_key_error
      else if \<not> trimmed_between 1 128 (bo_idempotency_key r) \<or> \<not> trimmed_between 1 240 (bo_title r)
         \<or> \<not> trimmed_between 1 20000 (bo_description r) \<or> \<not> sql_amount (bo_reward_amount r)
         \<or> bo_max_submissions r < 1 \<or> 10000 < bo_max_submissions r
         \<or> bo_reward_slots r < 1 \<or> 10000 < bo_reward_slots r
         \<or> bo_status r \<notin> {''draft'', ''published'', ''closed'', ''cancelled'', ''expired''}
         \<or> \<not> bo_expires_at r > bo_opens_at r
      then Inl (check_error ''wallet_bounties'')
      else Inr (db\<lparr>wallet_bounties := wallet_bounties db @ [r]\<rparr>))"

definition insert_submission :: "submission_row \<Rightarrow> 'a wallet_db_scheme \<Rightarrow> ('a wallet_db_scheme) res" where
  "insert_submission r db =
     (if su_submission_id r \<in> su_submission_id ` set (wallet_bounty_submissions db)
         \<or> (\<exists>x\<in>set (wallet_bounty_submissions db). su_subject_id x = su_subject_id r
              \<and> su_bounty_id x = su_bounty_id r \<and> su_idempotency_key x = su_idempotency_key r)
      then Inl (unique_error ''wallet_bounty_submissions'')
      else if su_subject_id r \<notin> set (subject_identity db)
         \<or> su_bounty_id r \<notin> bo_bounty_id ` set (wallet_bounties db)
         \<or> su_created_audit_id r \<notin> au_audit_id ` set (audit_records db)
      then Inl foreign_key_error
      else if \<not> trimmed_between 1 256 (su_counterparty r) \<or> \<not> trimmed_between 1 20000 (su_content r)
         \<or> length (su_recipient_address r) \<noteq> 42 \<or> take 2 (su_recipient_address r) \<noteq> ''0x''
         \<or> \<not> trimmed_between 1 128 (su_idempotency_key r)
         \<or> su_status r \<notin> {''submitted'', ''accepted'', ''rejected'', ''withdrawn'', ''expired''}
      then Inl (check_error ''wallet_bounty_submissions'')
      else Inr (db\<lparr>wallet_bounty_submissions := wallet_bounty_submissions db @ [r]\<rparr>))"

definition insert_order :: "order_row \<Rightarrow> 'a wallet_db_scheme \<Rightarrow> ('a wallet_db_scheme) res" where
  "insert_order r db =
     (if or_order_id r \<in> or_order_id ` set (wallet_payment_orders db)
         \<or> (\<exists>x\<in>set (wallet_payment_orders db). or_subject_id x = or_subject_id r
              \<and> (or_submission_id x = or_submission_id r \<or> or_idempotency_key x = or_idempotency_key r))
      then Inl (unique_error ''wallet_payment_orders'')
      else if or_subject_id r \<notin> set (subject_identity db)
         \<or> or_bounty_id r \<notin> bo_bounty_id ` set (wallet_bounties db)
         \<or> or_submission_id r \<notin> su_submission_id ` set (wallet_bounty_submissions db)
         \<or> or_network_id r \<notin> nw_network_id ` set (wallet_networks db)
         \<or> or_asset_id r \<notin> as_asset_id ` set (wallet_assets db)
         \<or> or_created_audit_id r \<notin> au_audit_id ` set (audit_records db)
         \<or> or_last_audit_id r \<notin> au_audit_id ` set (audit_records db)
      then Inl foreign_key_error
      else if \<not> sql_amount (or_amount r) \<or> or_payment_mode r \<notin> set payment_modes
         \<or> \<not> 0 < or_policy_version r \<or> or_status r \<notin> set order_statuses
      then Inl (check_error ''wallet_payment_orders'')
      else Inr (db\<lparr>wallet_payment_orders := wallet_payment_orders db @ [r]\<rparr>))"

definition insert_journal :: "journal_row \<Rightarrow> 'a wallet_db_scheme \<Rightarrow> ('a wallet_db_scheme) res" where
  "insert_journal r db =
     (if jo_journal_id r \<in> jo_journal_id ` set (wallet_ledger_journals db)
         \<or> (\<exists>x\<in>set (wallet_ledger_journals db). jo_order_id x = jo_order_id r \<and> jo_journal_type x = jo_journal_type r)
      then Inl (unique_error ''wallet_ledger_journals'')
      else if jo_subject_id r \<notin> set (subject_identity db)
         \<or> jo_order_id r \<notin> or_order_id ` set (wallet_payment_orders db)
         \<or> jo_network_id r \<notin> nw_network_id ` set (wallet_networks db)
         \<or> jo_asset_id r \<notin> as_asset_id ` set (wallet_assets db)
      then Inl foreign_key_error
      else if jo_journal_type r \<notin> {''reservation'', ''release'', ''settlement'', ''refund''} \<or> \<not> sql_amount (jo_amount r)
      then Inl (check_error ''wallet_ledger_journals'')
      else Inr (db\<lparr>wallet_ledger_journals := wallet_ledger_journals db @ [r]\<rparr>))"

definition insert_entry :: "entry_row \<Rightarrow> 'a wallet_db_scheme \<Rightarrow> ('a wallet_db_scheme) res" where
  "insert_entry r db =
     (if en_entry_id r \<in> en_entry_id ` set (wallet_ledger_entries db)
         \<or> (\<exists>x\<in>set (wallet_ledger_entries db). en_journal_id x = en_journal_id r
              \<and> en_account x = en_account r \<and> en_direction x = en_direction r)
      then Inl (unique_error ''wallet_ledger_entries'')
      else if en_subject_id r \<notin> set (subject_identity db)
         \<or> en_journal_id r \<notin> jo_journal_id ` set (wallet_ledger_journals db)
         \<or> en_order_id r \<notin> or_order_id ` set (wallet_payment_orders db)
      then Inl foreign_key_error
      else if en_account r \<notin> {''available'', ''reserved'', ''paid'', ''released''}
         \<or> en_direction r \<notin> {''debit'', ''credit''} \<or> \<not> sql_amount (en_amount r)
      then Inl (check_error ''wallet_ledger_entries'')
      else Inr (db\<lparr>wallet_ledger_entries := wallet_ledger_entries db @ [r]\<rparr>))"

text \<open>
  The transition triggers.  An update that keeps the status, the digest and the time is
  allowed; the identity columns of a row are never updated by the operations.
\<close>

definition order_trigger_allows :: "order_row \<Rightarrow> order_row \<Rightarrow> bool" where
  "order_trigger_allows old new =
     (or_status new = or_status old \<and> or_state_hash new = or_state_hash old \<and> or_updated_at new = or_updated_at old
      \<or> or_status old = ''pending_policy''
        \<and> or_status new \<in> {''awaiting_confirmation'', ''reserved'', ''rejected'', ''cancelled'', ''expired''}
      \<or> or_status old = ''awaiting_confirmation'' \<and> or_status new \<in> {''reserved'', ''rejected'', ''cancelled'', ''expired''}
      \<or> or_status old = ''reserved'' \<and> or_status new \<in> {''cancelled'', ''expired'', ''signing''}
      \<or> or_status old = ''signing'' \<and> or_status new \<in> {''broadcast'', ''unknown'', ''failed''}
      \<or> or_status old = ''broadcast'' \<and> or_status new \<in> {''unknown'', ''confirmed'', ''failed''}
      \<or> or_status old = ''unknown'' \<and> or_status new \<in> {''signing'', ''broadcast'', ''confirmed'', ''failed'', ''refunded''}
      \<or> or_status old = ''confirmed'' \<and> or_status new = ''unknown''
      \<or> or_status old = ''failed'' \<and> or_status new = ''refunded'')"

definition bounty_trigger_allows :: "bounty_row \<Rightarrow> bounty_row \<Rightarrow> bool" where
  "bounty_trigger_allows old new =
     (bo_status new = bo_status old \<and> bo_state_hash new = bo_state_hash old \<and> bo_updated_at new = bo_updated_at old
      \<or> bo_status old = ''draft'' \<and> bo_status new \<in> {''published'', ''cancelled'', ''expired''}
      \<or> bo_status old = ''published'' \<and> bo_status new \<in> {''closed'', ''cancelled'', ''expired''}
      \<or> bo_status old = ''closed'' \<and> bo_status new = ''expired'')"

definition submission_trigger_allows :: "submission_row \<Rightarrow> submission_row \<Rightarrow> bool" where
  "submission_trigger_allows old new =
     (su_status new = su_status old \<and> su_state_hash new = su_state_hash old
      \<or> su_status old = ''submitted'' \<and> su_status new \<in> {''accepted'', ''rejected'', ''withdrawn'', ''expired''})"

text \<open>\<open>UPDATE ... WHERE key = ?\<close> under a row trigger.\<close>

definition update_guarded ::
    "('r \<Rightarrow> 'r \<Rightarrow> bool) \<Rightarrow> string \<Rightarrow> ('r \<Rightarrow> bool) \<Rightarrow> ('r \<Rightarrow> 'r) \<Rightarrow> 'r list \<Rightarrow> 'r list res" where
  "update_guarded allows message p f t =
     (if \<forall>r\<in>set t. p r \<longrightarrow> allows r (f r) then Inr (update_where p f t)
      else Inl (SqliteIntegrityError message))"

section \<open>Audit\<close>

definition wallet_audit ::
    "env \<Rightarrow> string \<Rightarrow> string \<Rightarrow> string \<Rightarrow> (string \<times> json) list \<Rightarrow> 'a wallet_db_scheme
      \<Rightarrow> (string \<times> 'a wallet_db_scheme) res" where
  "wallet_audit E sid action actor payload db =
     (let (aid, db1) = new_id E ''audit'' db;
          (now, db2) = utc_now E db1
      in res_bind (insert_audit \<lparr>au_audit_id = aid, au_subject_id = sid, au_action = action, au_actor = actor,
             au_payload_json = canonical_json (JObj payload), au_occurred_at = now\<rparr> db2) (\<lambda>db3. Inr (aid, db3)))"

definition operator_name :: "string \<Rightarrow> string res" where
  "operator_name actor =
     (if blank actor \<or> py_strip actor = ''subject''
      then Inl (PermissionError ''wallet economic operation requires an operator'')
      else Inr (py_strip actor))"

lemma wallet_audit_frame:
  assumes "wallet_audit E sid action actor payload db = Inr (aid, db')"
  obtains au where "db' = db\<lparr>fresh_ids := Suc (fresh_ids db), ticks := Suc (ticks db), audit_records := audit_records db @ [au]\<rparr>"
    "au_audit_id au = aid"
  using assms by (auto simp: wallet_audit_def kernel_defs split: if_splits)

lemma update_guarded_Inr:
  "update_guarded allows message p f t = Inr u \<longleftrightarrow> (\<forall>r\<in>set t. p r \<longrightarrow> allows r (f r)) \<and> u = update_where p f t"
  by (auto simp: update_guarded_def)

lemma update_guarded_key:
  assumes "distinct (map k t)" "r \<in> set t" "allows r (f r)"
  shows "update_guarded allows message (\<lambda>x. k x = k r) f t = Inr (update_where (\<lambda>x. k x = k r) f t)"
  using assms distinct_key_eq [OF assms(1)] by (auto simp: update_guarded_def)

end
