(* ===== verification/WalletOrders.thy ===== *)
theory WalletOrders
  imports WalletTables
begin

text \<open>
  The payment orders and the double-entry ledger of \<^verbatim>\<open>wallet/economy.py\<close>: the order state
  machine, the authorisation of a payment by the policy (\<open>_policy_allows\<close>), the balanced
  journals an order posts (\<open>_post_order_journal\<close>), the operator's operations on orders and the
  balances.  \<open>require_activation_evidence\<close> inspects files of the release and is the parameter
  \<open>evidence\<close>: whether it returns without raising.
\<close>

section \<open>Order transitions\<close>

definition order_transitions :: "string \<Rightarrow> string set" where
  "order_transitions s =
     (if s = ''pending_policy'' then {''awaiting_confirmation'', ''reserved'', ''rejected'', ''cancelled'', ''expired''}
      else if s = ''awaiting_confirmation'' then {''reserved'', ''rejected'', ''cancelled'', ''expired''}
      else if s = ''reserved'' then {''cancelled'', ''expired'', ''signing''}
      else if s = ''signing'' then {''broadcast'', ''unknown'', ''failed''}
      else if s = ''broadcast'' then {''unknown'', ''confirmed'', ''failed''}
      else if s = ''unknown'' then {''signing'', ''broadcast'', ''confirmed'', ''failed'', ''refunded''}
      else if s = ''confirmed'' then {''unknown''}
      else if s = ''failed'' then {''refunded''}
      else {})"

definition get_order :: "string \<Rightarrow> string \<Rightarrow> 'a wallet_db_scheme \<Rightarrow> order_row res" where
  "get_order order_id subject_id db =
     (case fetchone (\<lambda>r. or_order_id r = order_id \<and> or_subject_id r = subject_id) (wallet_payment_orders db) of
        None \<Rightarrow> Inl (NotFoundError ''wallet payment order not found'')
      | Some r \<Rightarrow> Inr r)"

definition moved_order :: "env \<Rightarrow> string \<Rightarrow> string \<Rightarrow> string \<Rightarrow> order_row \<Rightarrow> order_row" where
  "moved_order E target audit_id now row =
     (let r = row\<lparr>or_status := target, or_updated_at := now, or_last_audit_id := audit_id,
                   or_authorized_at := (if target = ''reserved'' then Some now else or_authorized_at row)\<rparr>
      in r\<lparr>or_state_hash := order_state_hash E r\<rparr>)"

definition transition_order ::
    "env \<Rightarrow> order_row \<Rightarrow> string \<Rightarrow> string \<Rightarrow> string \<Rightarrow> 'a wallet_db_scheme \<Rightarrow> ('a wallet_db_scheme) res" where
  "transition_order E row target actor reason db =
     (if target \<notin> order_transitions (or_status row)
      then Inl (InvalidTransitionError ''payment order transition is invalid'')
      else
        let (now, db1) = utc_now E db
        in res_bind (wallet_audit E (or_subject_id row) (''wallet_payment_order_'' @ target) actor
              [(''order_id'', JStr (or_order_id row)), (''from'', JStr (or_status row)),
               (''to'', JStr target), (''reason'', JStr reason)] db1)
            (\<lambda>(audit_id, db2).
              let new = moved_order E target audit_id now row
              in res_bind (update_guarded order_trigger_allows ''wallet payment order transition is invalid''
                    (\<lambda>r. or_order_id r = or_order_id row)
                    (\<lambda>r. r\<lparr>or_status := or_status new, or_authorized_at := or_authorized_at new,
                           or_updated_at := or_updated_at new, or_last_audit_id := or_last_audit_id new,
                           or_state_hash := or_state_hash new\<rparr>)
                    (wallet_payment_orders db2))
                 (\<lambda>t. Inr (db2\<lparr>wallet_payment_orders := t\<rparr>))))"

section \<open>Journals\<close>

definition post_entry ::
    "env \<Rightarrow> order_row \<Rightarrow> string \<Rightarrow> string \<Rightarrow> string \<times> string \<Rightarrow> 'a wallet_db_scheme \<Rightarrow> ('a wallet_db_scheme) res" where
  "post_entry E row jid now side db =
     (let (eid, db1) = new_id E ''entry'' db;
          e = \<lparr>en_entry_id = eid, en_journal_id = jid, en_subject_id = or_subject_id row,
               en_order_id = or_order_id row, en_account = fst side, en_direction = snd side,
               en_amount = or_amount row, en_created_at = now, en_state_hash = ''''\<rparr>
      in res_bind (wallet_entry_hash E e) (\<lambda>h. insert_entry (e\<lparr>en_state_hash := h\<rparr>) db1))"

definition post_order_journal ::
    "env \<Rightarrow> order_row \<Rightarrow> string \<Rightarrow> string \<times> string \<Rightarrow> string \<times> string \<Rightarrow> 'a wallet_db_scheme
      \<Rightarrow> ('a wallet_db_scheme) res" where
  "post_order_journal E row journal_type first second db =
     (if fetchone (\<lambda>j. jo_order_id j = or_order_id row \<and> jo_journal_type j = journal_type)
           (wallet_ledger_journals db) \<noteq> None
      then Inl (InvalidTransitionError (''order '' @ journal_type @ '' journal already exists''))
      else
        let (now, db1) = utc_now E db;
            (jid, db2) = new_id E ''journal'' db1;
            j = \<lparr>jo_journal_id = jid, jo_subject_id = or_subject_id row, jo_order_id = or_order_id row,
                 jo_network_id = or_network_id row, jo_asset_id = or_asset_id row,
                 jo_journal_type = journal_type, jo_amount = or_amount row, jo_created_at = now,
                 jo_state_hash = ''''\<rparr>
        in res_bind (wallet_journal_hash E j) (\<lambda>h.
           res_bind (insert_journal (j\<lparr>jo_state_hash := h\<rparr>) db2) (\<lambda>db3.
           res_fold (post_entry E row jid now) [first, second] db3)))"

section \<open>Authorisation\<close>

text \<open>\<open>except (TypeError, ValueError)\<close>.\<close>

definition catch_value_error :: "py_error \<Rightarrow> 'a res \<Rightarrow> 'a res" where
  "catch_value_error e m =
     (case m of Inl (ValueError _) \<Rightarrow> Inl e | Inl (TypeError _) \<Rightarrow> Inl e | _ \<Rightarrow> m)"

text \<open>\<open>value in strict_json_loads(text)\<close>, for a list of texts or an object.\<close>

definition json_contains :: "json \<Rightarrow> string \<Rightarrow> bool res" where
  "json_contains v s =
     (case v of
        JList vs \<Rightarrow> Inr (JStr s \<in> set vs)
      | JObj kvs \<Rightarrow> Inr (s \<in> fst ` set kvs)
      | _ \<Rightarrow> Inl (TypeError ''argument is not iterable''))"

definition spending_address :: "string \<Rightarrow> string \<Rightarrow> 'a wallet_db_scheme \<Rightarrow> address_row option" where
  "spending_address subject_id network_id db =
     (case fetchall_by (\<lambda>a. ad_subject_id a = subject_id \<and> ad_network_id a = network_id
              \<and> ad_status a = ''active'' \<and> ad_purpose a = ''spending'')
            (\<lambda>a. (ad_created_at a, ad_address_id a)) (wallet_addresses db) of
        [a] \<Rightarrow> Some a
      | _ \<Rightarrow> None)"

definition registered_pair :: "order_row \<Rightarrow> 'a wallet_db_scheme \<Rightarrow> bool" where
  "registered_pair row db =
     (case concat (map (\<lambda>n. map (Pair n)
               (filter (\<lambda>a. as_subject_id a = nw_subject_id n \<and> as_network_id a = nw_network_id n
                  \<and> as_asset_id a = or_asset_id row) (wallet_assets db)))
             (filter (\<lambda>n. nw_subject_id n = or_subject_id row \<and> nw_network_id n = or_network_id row)
                (wallet_networks db))) of
        [] \<Rightarrow> False
      | (n, a) # _ \<Rightarrow> nw_status n = ''active'' \<and> as_status a = ''active''
                      \<and> as_network_id a = or_network_id row)"

definition static_gate :: "bool \<Rightarrow> order_row \<Rightarrow> policy_row \<Rightarrow> 'a wallet_db_scheme \<Rightarrow> bool res" where
  "static_gate evidence row p db =
     (let automatic = (or_payment_mode row = ''automatic'')
      in if po_emergency_paused p \<or> po_mode p = ''disabled''
            \<or> automatic \<and> (po_mode p \<noteq> ''automatic'' \<or> \<not> po_automation_enabled p \<or> \<not> evidence)
            \<or> \<not> registered_pair row db
         then Inr False
         else
           res_bind (parse_py_int (or_amount row)) (\<lambda>amount.
           res_bind (parse_py_int (po_per_order_limit p)) (\<lambda>single_limit.
           res_bind (parse_py_int (po_daily_limit p)) (\<lambda>daily_limit.
             if automatic \<and> (single_limit \<le> 0 \<or> daily_limit \<le> 0) then Inr False
             else if amount \<le> 0 \<or> single_limit > 0 \<and> amount > single_limit then Inr False
             else if po_recipient_allowlist_enabled p
             then res_bind (strict_json_loads (po_allowed_recipient_addresses_json p)) (\<lambda>allowed.
                    json_contains allowed (or_recipient_address row))
             else Inr True))))"

definition active_order_statuses :: "string list" where
  "active_order_statuses = [''reserved'', ''signing'', ''broadcast'', ''unknown'', ''confirmed'']"

definition period_value :: "order_row \<Rightarrow> string" where
  "period_value r =
     (case or_authorized_at r of
        Some t \<Rightarrow> if t \<noteq> [] then t else if or_updated_at r \<noteq> [] then or_updated_at r else or_created_at r
      | None \<Rightarrow> if or_updated_at r \<noteq> [] then or_updated_at r else or_created_at r)"

definition add_period ::
    "datetime \<Rightarrow> order_row \<Rightarrow> (nat \<times> nat \<times> int \<times> int) \<Rightarrow> (nat \<times> nat \<times> int \<times> int) res" where
  "add_period now existing totals =
     (case totals of (day_count, month_count, day_total, month_total) \<Rightarrow>
        res_bind (catch_value_error (IntegrityError ''wallet payment order amount or timestamp is invalid'')
            (res_bind (parse_py_int (or_amount existing)) (\<lambda>value.
             res_bind (parse_time (period_value existing)) (\<lambda>period. Inr (value, period)))))
          (\<lambda>(value, period).
            res_bind (parse_time (isoformat (start_of_day now))) (\<lambda>day.
            res_bind (parse_time (isoformat (start_of_month now))) (\<lambda>month.
              let (dc, dt) = (if dt_micros day \<le> dt_micros period then (day_count + 1, day_total + value)
                              else (day_count, day_total));
                  (mc, mt) = (if dt_micros month \<le> dt_micros period then (month_count + 1, month_total + value)
                              else (month_count, month_total))
              in Inr (dc, mc, dt, mt)))))"

definition active_orders :: "order_row \<Rightarrow> string option \<Rightarrow> 'a wallet_db_scheme \<Rightarrow> order_row list" where
  "active_orders row exclude db =
     filter (\<lambda>r. or_subject_id r = or_subject_id row \<and> or_network_id r = or_network_id row
        \<and> or_asset_id r = or_asset_id row \<and> or_status r \<in> set active_order_statuses
        \<and> (\<forall>x. exclude = Some x \<longrightarrow> or_order_id r \<noteq> x)) (wallet_payment_orders db)"

definition period_gate ::
    "datetime \<Rightarrow> order_row \<Rightarrow> policy_row \<Rightarrow> string option \<Rightarrow> 'a wallet_db_scheme \<Rightarrow> bool res" where
  "period_gate now row p exclude db =
     (let manual = (or_payment_mode row \<noteq> ''automatic'')
      in res_bind (res_fold (add_period now) (active_orders row exclude db) (0, 0, 0, 0))
           (\<lambda>(day_count, month_count, day_total, month_total).
             if manual \<and> po_daily_order_limit p \<noteq> 0 \<and> int day_count \<ge> po_daily_order_limit p then Inr False
             else if manual \<and> po_monthly_order_limit p \<noteq> 0 \<and> int month_count \<ge> po_monthly_order_limit p then Inr False
             else
               res_bind (parse_py_int (or_amount row)) (\<lambda>amount.
               res_bind (parse_py_int (po_daily_limit p)) (\<lambda>daily_limit.
                 if daily_limit \<noteq> 0 \<and> day_total + amount > daily_limit then Inr False
                 else if manual then
                   res_bind (parse_py_int (po_monthly_limit p)) (\<lambda>monthly_limit.
                     Inr (\<not> (monthly_limit \<noteq> 0 \<and> month_total + amount > monthly_limit)))
                 else Inr True))))"

definition snapshots_of :: "order_row \<Rightarrow> string \<Rightarrow> 'a wallet_db_scheme \<Rightarrow> snapshot_row list" where
  "snapshots_of row address_id db =
     rev (fetchall_by (\<lambda>s. bs_subject_id s = or_subject_id row \<and> bs_network_id s = or_network_id row
            \<and> bs_asset_id s = or_asset_id row \<and> bs_address_id s = address_id)
          (\<lambda>s. (bs_observed_at s, bs_snapshot_id s)) (wallet_balance_snapshots db))"

definition anomaly_gate :: "snapshot_row list \<Rightarrow> bool res" where
  "anomaly_gate previous =
     (case previous of
        s1 # s2 # _ \<Rightarrow>
          res_bind (parse_py_int (bs_balance s1)) (\<lambda>newer.
          res_bind (parse_py_int (bs_balance s2)) (\<lambda>older.
            Inr (\<not> ((newer = 0) \<noteq> (older = 0) \<or> older \<noteq> 0 \<and> \<bar>newer - older\<bar> > older))))
      | _ \<Rightarrow> Inr True)"

definition held_amounts :: "order_row \<Rightarrow> string option \<Rightarrow> 'a wallet_db_scheme \<Rightarrow> int res" where
  "held_amounts row exclude db =
     res_fold (\<lambda>r total. res_bind (parse_py_int (or_amount r)) (\<lambda>v. Inr (total + v)))
       (filter (\<lambda>r. or_subject_id r = or_subject_id row \<and> or_network_id r = or_network_id row
           \<and> or_asset_id r = or_asset_id row
           \<and> or_status r \<in> {''reserved'', ''signing'', ''broadcast'', ''unknown''}
           \<and> (\<forall>x. exclude = Some x \<and> x \<noteq> [] \<longrightarrow> or_order_id r \<noteq> x)) (wallet_payment_orders db)) 0"

definition observation_gate :: "datetime \<Rightarrow> bool \<Rightarrow> policy_row \<Rightarrow> snapshot_row list \<Rightarrow> bool res" where
  "observation_gate now automatic p latest =
     (case latest of
        [] \<Rightarrow> Inr (\<not> (\<not> automatic \<and> po_max_observation_age_seconds p > 0))
      | s # _ \<Rightarrow>
          res_bind (parse_time (bs_observed_at s)) (\<lambda>observed.
            if dt_micros observed > dt_micros now then Inr False
            else Inr (\<not> (\<not> automatic \<and> po_max_observation_age_seconds p > 0
               \<and> int (dt_micros now) - int (dt_micros observed) > po_max_observation_age_seconds p * 1000000))))"

definition funds_gate ::
    "datetime \<Rightarrow> order_row \<Rightarrow> policy_row \<Rightarrow> string option \<Rightarrow> 'a wallet_db_scheme \<Rightarrow> bool res" where
  "funds_gate now row p exclude db =
     (case spending_address (or_subject_id row) (or_network_id row) db of
        None \<Rightarrow> Inr False
      | Some source \<Rightarrow>
          (let automatic = (or_payment_mode row = ''automatic'');
               snapshots = snapshots_of row (ad_address_id source) db
           in res_bind (if \<not> automatic \<and> po_anomaly_block p then anomaly_gate snapshots else Inr True) (\<lambda>ok.
              if \<not> ok then Inr False
              else res_bind (observation_gate now automatic p snapshots) (\<lambda>ok.
              if \<not> ok then Inr False
              else (case snapshots of
                  s # _ \<Rightarrow>
                    res_bind (parse_py_int (bs_balance s)) (\<lambda>balance.
                    res_bind (held_amounts row exclude db) (\<lambda>held.
                    res_bind (if automatic then Inr 0 else parse_py_int (po_min_balance p)) (\<lambda>reserve.
                    res_bind (parse_py_int (or_amount row)) (\<lambda>amount.
                      Inr (\<not> (balance - held < amount + reserve))))))
                | [] \<Rightarrow>
                    if automatic then Inr True
                    else res_bind (parse_py_int (po_min_balance p)) (\<lambda>m. Inr (\<not> m > 0)))))))"

definition policy_allows ::
    "env \<Rightarrow> bool \<Rightarrow> order_row \<Rightarrow> policy_row option \<Rightarrow> string option \<Rightarrow> 'a wallet_db_scheme
      \<Rightarrow> (bool \<times> 'a wallet_db_scheme) res" where
  "policy_allows E evidence row policy exclude db =
     (case policy of
        None \<Rightarrow> Inr (False, db)
      | Some p \<Rightarrow>
          res_bind (static_gate evidence row p db) (\<lambda>ok.
            if \<not> ok then Inr (False, db)
            else
              let (t, db1) = utc_now E db
              in res_bind (parse_time t) (\<lambda>now.
                 res_bind (period_gate now row p exclude db1) (\<lambda>ok.
                   if \<not> ok then Inr (False, db1)
                   else res_bind (funds_gate now row p exclude db1) (\<lambda>ok. Inr (ok, db1))))))"

section \<open>Reserving, releasing and settling\<close>

definition subject_policy :: "string \<Rightarrow> 'a wallet_db_scheme \<Rightarrow> policy_row option" where
  "subject_policy subject_id db = fetchone (\<lambda>p. po_subject_id p = subject_id) (wallet_payment_policies db)"

definition reserve_order ::
    "env \<Rightarrow> bool \<Rightarrow> order_row \<Rightarrow> string \<Rightarrow> 'a wallet_db_scheme \<Rightarrow> ('a wallet_db_scheme) res" where
  "reserve_order E evidence row actor db =
     res_bind (policy_allows E evidence row (subject_policy (or_subject_id row) db) None db) (\<lambda>(ok, db1).
       if \<not> ok then Inl (ValueError ''payment policy denied reservation'')
       else res_bind (transition_order E row ''reserved'' actor ''funds reserved'' db1) (\<lambda>db2.
         post_order_journal E row ''reservation'' (''available'', ''debit'') (''reserved'', ''credit'') db2))"

definition release_order ::
    "env \<Rightarrow> order_row \<Rightarrow> string \<Rightarrow> string \<Rightarrow> 'a wallet_db_scheme \<Rightarrow> ('a wallet_db_scheme) res" where
  "release_order E row actor reason db =
     res_bind (transition_order E row ''cancelled'' actor reason db) (\<lambda>db1.
       post_order_journal E row ''release'' (''reserved'', ''debit'') (''released'', ''credit'') db1)"

text \<open>\<open>_settle_order\<close>: a settlement that already exists is not posted again.\<close>

definition settle_order ::
    "env \<Rightarrow> order_row \<Rightarrow> string \<Rightarrow> string \<Rightarrow> 'a wallet_db_scheme \<Rightarrow> ('a wallet_db_scheme) res" where
  "settle_order E row actor reason db =
     (if or_status row \<notin> {''broadcast'', ''unknown''}
      then Inl (InvalidTransitionError ''order is not awaiting settlement'')
      else res_bind (transition_order E row ''confirmed'' actor reason db) (\<lambda>db1.
        if fetchone (\<lambda>j. jo_order_id j = or_order_id row \<and> jo_journal_type j = ''settlement'')
             (wallet_ledger_journals db1) \<noteq> None
        then Inr db1
        else post_order_journal E row ''settlement'' (''reserved'', ''debit'') (''paid'', ''credit'') db1))"

section \<open>Operations on orders\<close>

record payment_order =
  pr_order_id :: string
  pr_subject_id :: string
  pr_bounty_id :: string
  pr_submission_id :: string
  pr_network_id :: string
  pr_asset_id :: string
  pr_recipient_address :: string
  pr_amount :: string
  pr_payment_mode :: string
  pr_policy_version :: int
  pr_idempotency_key :: string
  pr_status :: string
  pr_created_at :: string
  pr_updated_at :: string

definition order_from_row :: "order_row \<Rightarrow> payment_order" where
  "order_from_row r =
     \<lparr>pr_order_id = or_order_id r, pr_subject_id = or_subject_id r, pr_bounty_id = or_bounty_id r,
      pr_submission_id = or_submission_id r, pr_network_id = or_network_id r, pr_asset_id = or_asset_id r,
      pr_recipient_address = or_recipient_address r, pr_amount = or_amount r,
      pr_payment_mode = or_payment_mode r, pr_policy_version = or_policy_version r,
      pr_idempotency_key = or_idempotency_key r, pr_status = or_status r,
      pr_created_at = or_created_at r, pr_updated_at = or_updated_at r\<rparr>"

text \<open>Every operation on an order ends by reading it back.\<close>

definition read_back ::
    "string \<Rightarrow> string \<Rightarrow> 'a wallet_db_scheme \<Rightarrow> (payment_order \<times> 'a wallet_db_scheme) res" where
  "read_back order_id subject_id db =
     res_bind (get_order order_id subject_id db) (\<lambda>r. Inr (order_from_row r, db))"

definition confirm_order ::
    "env \<Rightarrow> bool \<Rightarrow> string \<Rightarrow> string \<Rightarrow> string \<Rightarrow> 'a wallet_db_scheme \<Rightarrow> (payment_order \<times> 'a wallet_db_scheme) res" where
  "confirm_order E evidence order_id subject_id actor db =
     res_bind (operator_name actor) (\<lambda>actor.
     res_bind (get_order order_id subject_id db) (\<lambda>row.
       if or_status row \<noteq> ''awaiting_confirmation''
       then Inl (InvalidTransitionError ''order is not awaiting confirmation'')
       else res_bind (reserve_order E evidence row actor db) (read_back order_id subject_id)))"

definition reject_order ::
    "env \<Rightarrow> string \<Rightarrow> string \<Rightarrow> string \<Rightarrow> string \<Rightarrow> 'a wallet_db_scheme \<Rightarrow> (payment_order \<times> 'a wallet_db_scheme) res" where
  "reject_order E order_id subject_id actor reason db =
     res_bind (operator_name actor) (\<lambda>actor.
     res_bind (get_order order_id subject_id db) (\<lambda>row.
       if or_status row \<notin> {''pending_policy'', ''awaiting_confirmation''}
       then Inl (InvalidTransitionError ''order cannot be rejected'')
       else res_bind (transition_order E row ''rejected'' actor reason db) (read_back order_id subject_id)))"

definition cancel_order ::
    "env \<Rightarrow> string \<Rightarrow> string \<Rightarrow> string \<Rightarrow> string \<Rightarrow> 'a wallet_db_scheme \<Rightarrow> (payment_order \<times> 'a wallet_db_scheme) res" where
  "cancel_order E order_id subject_id actor reason db =
     res_bind (operator_name actor) (\<lambda>actor.
     res_bind (get_order order_id subject_id db) (\<lambda>row.
       if or_status row = ''reserved''
       then res_bind (release_order E row actor reason db) (read_back order_id subject_id)
       else if or_status row \<in> {''pending_policy'', ''awaiting_confirmation''}
       then res_bind (transition_order E row ''cancelled'' actor reason db) (read_back order_id subject_id)
       else Inl (InvalidTransitionError ''order cannot be cancelled'')))"

text \<open>An execution whose outcome a refund must not overtake.\<close>

definition unresolved_legacy :: "string \<Rightarrow> string \<Rightarrow> 'a wallet_db_scheme \<Rightarrow> bool" where
  "unresolved_legacy subject_id network_id db =
     (\<exists>e\<in>set (wallet_payment_executions db). ex_subject_id e = subject_id \<and> ex_network_id e = network_id
        \<and> (\<exists>w\<in>set (wallet_payment_orders db). or_order_id w = ex_order_id e \<and> or_subject_id w = ex_subject_id e
           \<and> (ex_status e = ''failed'' \<and> ex_receipt_status e = None
                \<and> (\<exists>a\<in>set (wallet_payment_execution_attempts db). at_execution_id a = ex_execution_id e
                     \<and> at_subject_id a = ex_subject_id e \<and> at_attempt_number a < ex_attempt_count e
                     \<and> at_status a \<in> {''unknown'', ''broadcast''})
              \<or> or_status w = ''refunded'' \<and> ex_status e \<in> {''signing'', ''broadcast'', ''unknown''})))"

definition refund_order ::
    "env \<Rightarrow> string \<Rightarrow> string \<Rightarrow> string \<Rightarrow> string \<Rightarrow> 'a wallet_db_scheme \<Rightarrow> (payment_order \<times> 'a wallet_db_scheme) res" where
  "refund_order E order_id subject_id actor reason db =
     res_bind (operator_name actor) (\<lambda>actor.
       let reason = py_strip reason
       in if reason = [] \<or> length reason > 2000 then Inl (ValueError ''refund reason is invalid'')
          else res_bind (get_order order_id subject_id db) (\<lambda>row.
            if unresolved_legacy subject_id (or_network_id row) db
            then Inl (IntegrityError ''legacy wallet payment has unresolved broadcasts; recovery required'')
            else if or_status row \<noteq> ''failed'' then Inl (InvalidTransitionError ''order cannot be refunded'')
            else res_bind (transition_order E row ''refunded'' actor reason db) (\<lambda>db1.
                 res_bind (post_order_journal E row ''refund'' (''reserved'', ''debit'') (''released'', ''credit'') db1)
                   (read_back order_id subject_id))))"

section \<open>Balances\<close>

record ledger_balance =
  lb_account :: string
  lb_debit :: string
  lb_credit :: string
  lb_net :: string
  lb_network_id :: string
  lb_asset_id :: string

type_synonym balance_key = "string \<times> string \<times> string"

definition ledger_rows ::
    "string \<Rightarrow> string option \<Rightarrow> string option \<Rightarrow> 'a wallet_db_scheme \<Rightarrow> (entry_row \<times> journal_row) list" where
  "ledger_rows subject_id network_id asset_id db =
     filter (\<lambda>(e, j). en_subject_id e = subject_id
        \<and> (\<forall>n. network_id = Some n \<and> n \<noteq> [] \<longrightarrow> jo_network_id j = n)
        \<and> (\<forall>a. asset_id = Some a \<and> a \<noteq> [] \<longrightarrow> jo_asset_id j = a))
       (concat (map (\<lambda>e. map (Pair e) (filter (\<lambda>j. jo_journal_id j = en_journal_id e) (wallet_ledger_journals db)))
          (wallet_ledger_entries db)))"

definition add_entry ::
    "entry_row \<times> journal_row \<Rightarrow> (balance_key \<times> int \<times> int) list \<Rightarrow> ((balance_key \<times> int \<times> int) list) res" where
  "add_entry row totals =
     (case row of (e, j) \<Rightarrow>
        let key = (jo_network_id j, jo_asset_id j, en_account e);
            (debit, credit) = (case map_of totals key of None \<Rightarrow> (0, 0) | Some v \<Rightarrow> v)
        in if en_direction e \<notin> {''debit'', ''credit''} then Inl (KeyError (en_direction e))
           else res_bind (parse_py_int (en_amount e)) (\<lambda>v.
             let new = (if en_direction e = ''debit'' then (debit + v, credit) else (debit, credit + v))
             in Inr (if key \<in> fst ` set totals
                  then map (\<lambda>(k, w). if k = key then (k, new) else (k, w)) totals
                  else totals @ [(key, new)])))"

definition ledger_balances ::
    "string \<Rightarrow> string option \<Rightarrow> string option \<Rightarrow> 'a wallet_db_scheme \<Rightarrow> ledger_balance list res" where
  "ledger_balances subject_id network_id asset_id db =
     res_bind (validate_subject_id subject_id) (\<lambda>_.
     res_bind (res_fold add_entry (ledger_rows subject_id network_id asset_id db) []) (\<lambda>totals.
       Inr (map (\<lambda>((network, asset, account), debit, credit).
              \<lparr>lb_account = account, lb_debit = show_int debit, lb_credit = show_int credit,
               lb_net = show_int (debit - credit), lb_network_id = network, lb_asset_id = asset\<rparr>)
            (sort_key fst totals))))"

section \<open>Effects\<close>

lemma moved_order_update:
  "row\<lparr>or_status := or_status (moved_order E target aid now row),
       or_authorized_at := or_authorized_at (moved_order E target aid now row),
       or_updated_at := or_updated_at (moved_order E target aid now row),
       or_last_audit_id := or_last_audit_id (moved_order E target aid now row),
       or_state_hash := or_state_hash (moved_order E target aid now row)\<rparr> = moved_order E target aid now row"
  by (cases row) (simp add: moved_order_def Let_def)

lemma transition_order_effect:
  assumes "transition_order E row target actor reason db = Inr db'"
    and "distinct (map or_order_id (wallet_payment_orders db))" "row \<in> set (wallet_payment_orders db)"
  obtains audit_id now n m au where
    "target \<in> order_transitions (or_status row)"
    "db' = db\<lparr>fresh_ids := m, ticks := n, audit_records := au,
       wallet_payment_orders := update_where (\<lambda>r. or_order_id r = or_order_id row)
         (moved_order E target audit_id now) (wallet_payment_orders db)\<rparr>"
proof -
  let ?p = "\<lambda>r. or_order_id r = or_order_id row" and ?now = "env_clock E (ticks db)"
  obtain aid db2 where a: "target \<in> order_transitions (or_status row)"
    "wallet_audit E (or_subject_id row) (''wallet_payment_order_'' @ target) actor
       [(''order_id'', JStr (or_order_id row)), (''from'', JStr (or_status row)),
        (''to'', JStr target), (''reason'', JStr reason)] (db\<lparr>ticks := Suc (ticks db)\<rparr>) = Inr (aid, db2)"
    and u: "db' = db2\<lparr>wallet_payment_orders := update_where ?p
       (\<lambda>r. r\<lparr>or_status := or_status (moved_order E target aid ?now row),
          or_authorized_at := or_authorized_at (moved_order E target aid ?now row),
          or_updated_at := or_updated_at (moved_order E target aid ?now row),
          or_last_audit_id := or_last_audit_id (moved_order E target aid ?now row),
          or_state_hash := or_state_hash (moved_order E target aid ?now row)\<rparr>) (wallet_payment_orders db2)\<rparr>"
    using assms(1) by (auto simp: transition_order_def utc_now_def Let_def update_guarded_Inr split: if_splits)
  have "r = row" if "r \<in> set (wallet_payment_orders db)" "?p r" for r
    using distinct_key_eq [OF assms(2) that(1) assms(3)] that(2) by blast
  then have "update_where ?p
       (\<lambda>r. r\<lparr>or_status := or_status (moved_order E target aid ?now row),
          or_authorized_at := or_authorized_at (moved_order E target aid ?now row),
          or_updated_at := or_updated_at (moved_order E target aid ?now row),
          or_last_audit_id := or_last_audit_id (moved_order E target aid ?now row),
          or_state_hash := or_state_hash (moved_order E target aid ?now row)\<rparr>) (wallet_payment_orders db)
    = update_where ?p (moved_order E target aid ?now) (wallet_payment_orders db)"
    unfolding update_where_def by (intro map_cong [OF refl]) (metis moved_order_update)
  with a u show thesis
    by (elim wallet_audit_frame) (rule that [where audit_id = aid and now = ?now], auto)
qed

definition new_journal :: "env \<Rightarrow> order_row \<Rightarrow> string \<Rightarrow> string \<Rightarrow> string \<Rightarrow> string \<Rightarrow> journal_row" where
  "new_journal E row jtype jid now h =
     \<lparr>jo_journal_id = jid, jo_subject_id = or_subject_id row, jo_order_id = or_order_id row,
      jo_network_id = or_network_id row, jo_asset_id = or_asset_id row,
      jo_journal_type = jtype, jo_amount = or_amount row, jo_created_at = now, jo_state_hash = h\<rparr>"

text \<open>The columns of an entry that carry its meaning.\<close>

definition entry_view :: "entry_row \<Rightarrow> string \<times> string \<times> string \<times> string \<times> string \<times> string" where
  "entry_view e = (en_journal_id e, en_subject_id e, en_order_id e, en_account e, en_direction e, en_amount e)"

definition leg :: "journal_row \<Rightarrow> string \<times> string \<Rightarrow> string \<times> string \<times> string \<times> string \<times> string \<times> string" where
  "leg j side = (jo_journal_id j, jo_subject_id j, jo_order_id j, fst side, snd side, jo_amount j)"

lemma post_entry_effect:
  assumes "post_entry E row jid now side db = Inr db'"
  obtains e m where "db' = db\<lparr>fresh_ids := m, wallet_ledger_entries := wallet_ledger_entries db @ [e]\<rparr>"
    "entry_view e = (jid, or_subject_id row, or_order_id row, fst side, snd side, or_amount row)"
  using assms by (auto simp: post_entry_def new_id_def insert_entry_def entry_view_def Let_def split: if_splits)

lemma post_order_journal_effect:
  assumes "post_order_journal E row jtype first second db = Inr db'"
  obtains jid now h ea eb n m where
    "jid \<notin> jo_journal_id ` set (wallet_ledger_journals db)"
    "\<forall>j\<in>set (wallet_ledger_journals db). \<not> (jo_order_id j = or_order_id row \<and> jo_journal_type j = jtype)"
    "db' = db\<lparr>fresh_ids := m, ticks := n,
       wallet_ledger_journals := wallet_ledger_journals db @ [new_journal E row jtype jid now h],
       wallet_ledger_entries := wallet_ledger_entries db @ [ea, eb]\<rparr>"
    "map entry_view [ea, eb] = map (leg (new_journal E row jtype jid now h)) [first, second]"
proof -
  let ?now = "env_clock E (ticks db)" and ?jid = "''journal_'' @ env_uuid E (fresh_ids db)"
  obtain h db3 db4 where h: "wallet_journal_hash E (new_journal E row jtype ?jid ?now '''') = Inr h"
    and fr: "\<forall>j\<in>set (wallet_ledger_journals db). \<not> (jo_order_id j = or_order_id row \<and> jo_journal_type j = jtype)"
    and i: "insert_journal (new_journal E row jtype ?jid ?now h)
       (db\<lparr>ticks := Suc (ticks db), fresh_ids := Suc (fresh_ids db)\<rparr>) = Inr db3"
    and e: "post_entry E row ?jid ?now first db3 = Inr db4" "post_entry E row ?jid ?now second db4 = Inr db'"
    using assms by (auto simp: post_order_journal_def kernel_defs fetchone_None new_journal_def split: if_splits)
  have j: "?jid \<notin> jo_journal_id ` set (wallet_ledger_journals db)"
    and db3: "db3 = db\<lparr>fresh_ids := Suc (fresh_ids db), ticks := Suc (ticks db),
       wallet_ledger_journals := wallet_ledger_journals db @ [new_journal E row jtype ?jid ?now h]\<rparr>"
    using i by (auto simp: insert_journal_def new_journal_def split: if_splits)
  obtain ea m1 where ea: "db4 = db3\<lparr>fresh_ids := m1, wallet_ledger_entries := wallet_ledger_entries db3 @ [ea]\<rparr>"
    "entry_view ea = (?jid, or_subject_id row, or_order_id row, fst first, snd first, or_amount row)"
    using e(1) by (rule post_entry_effect)
  obtain eb m2 where eb: "db' = db4\<lparr>fresh_ids := m2, wallet_ledger_entries := wallet_ledger_entries db4 @ [eb]\<rparr>"
    "entry_view eb = (?jid, or_subject_id row, or_order_id row, fst second, snd second, or_amount row)"
    using e(2) by (rule post_entry_effect)
  show thesis
    by (rule that [OF j fr, where now = ?now and h = h and ea = ea and eb = eb and m = m2 and n = "Suc (ticks db)"])
      (use ea eb db3 in \<open>simp_all add: leg_def new_journal_def\<close>)
qed

lemma policy_allows_frame:
  assumes "policy_allows E evidence row policy exclude db = Inr (ok, db')"
  obtains n where "db' = db\<lparr>ticks := n\<rparr>"
proof -
  have "db' = db \<or> db' = db\<lparr>ticks := Suc (ticks db)\<rparr>"
    using assms by (auto simp: policy_allows_def utc_now_def Let_def split: option.splits if_splits)
  then show thesis using that [of "ticks db"] that [of "Suc (ticks db)"] by auto
qed

section \<open>Ledger invariant\<close>

text \<open>The two sides of a journal, and the journals an order has in each status.\<close>

definition sides :: "string \<Rightarrow> (string \<times> string) list" where
  "sides jtype =
     (if jtype = ''reservation'' then [(''available'', ''debit''), (''reserved'', ''credit'')]
      else if jtype = ''settlement'' then [(''reserved'', ''debit''), (''paid'', ''credit'')]
      else [(''reserved'', ''debit''), (''released'', ''credit'')])"

definition order_histories :: "bool \<Rightarrow> string \<Rightarrow> string list set" where
  "order_histories rg status =
     (if status = ''reserved'' then {[''reservation'']}
      else if status \<in> {''signing'', ''broadcast'', ''unknown'', ''failed''}
      then {[''reservation'']} \<union> (if rg then {[''reservation'', ''settlement'']} else {})
      else if status = ''confirmed'' then {[''reservation'', ''settlement'']}
      else if status = ''refunded''
      then {[''reservation'', ''refund'']} \<union> (if rg then {[''reservation'', ''settlement'', ''refund'']} else {})
      else if status = ''cancelled'' then {[], [''reservation'', ''release'']}
      else {[]})"

definition journals_of :: "string \<Rightarrow> 'a wallet_db_scheme \<Rightarrow> journal_row list" where
  "journals_of order_id db = filter (\<lambda>j. jo_order_id j = order_id) (wallet_ledger_journals db)"

definition journal_matches :: "journal_row \<Rightarrow> order_row \<Rightarrow> bool" where
  "journal_matches j r =
     (jo_order_id j = or_order_id r \<and> jo_subject_id j = or_subject_id r \<and> jo_network_id j = or_network_id r
      \<and> jo_asset_id j = or_asset_id r \<and> jo_amount j = or_amount r)"

text \<open>
  \<open>books_inv\<close> holds whatever the orders do: the entries are the two legs of each journal.
  \<open>ledger_inv\<close> adds that every order's journals are those of its status; \<open>rg\<close> admits the orders
  that a chain reorganisation took back after their settlement.
\<close>

definition books_inv :: "'a wallet_db_scheme \<Rightarrow> bool" where
  "books_inv db =
     (distinct (map or_order_id (wallet_payment_orders db))
      \<and> distinct (map jo_journal_id (wallet_ledger_journals db))
      \<and> map entry_view (wallet_ledger_entries db)
          = concat (map (\<lambda>j. map (leg j) (sides (jo_journal_type j))) (wallet_ledger_journals db))
      \<and> (\<forall>j\<in>set (wallet_ledger_journals db). \<exists>r\<in>set (wallet_payment_orders db). journal_matches j r)
      \<and> (\<forall>r\<in>set (wallet_payment_orders db). sql_amount (or_amount r)))"

definition ledger_inv :: "bool \<Rightarrow> 'a wallet_db_scheme \<Rightarrow> bool" where
  "ledger_inv rg db =
     (books_inv db \<and> (\<forall>r\<in>set (wallet_payment_orders db).
        map jo_journal_type (journals_of (or_order_id r) db) \<in> order_histories rg (or_status r)))"

lemma books_inv_cong:
  assumes "wallet_payment_orders db' = wallet_payment_orders db" "wallet_ledger_journals db' = wallet_ledger_journals db"
    "wallet_ledger_entries db' = wallet_ledger_entries db"
  shows "books_inv db' = books_inv db" "ledger_inv rg db' = ledger_inv rg db"
  using assms by (simp_all add: books_inv_def ledger_inv_def journals_of_def)

lemma moved_order_simps [simp]:
  "or_order_id (moved_order E t a n r) = or_order_id r" "or_subject_id (moved_order E t a n r) = or_subject_id r"
  "or_network_id (moved_order E t a n r) = or_network_id r" "or_asset_id (moved_order E t a n r) = or_asset_id r"
  "or_amount (moved_order E t a n r) = or_amount r" "or_status (moved_order E t a n r) = t"
  "or_submission_id (moved_order E t a n r) = or_submission_id r" "or_recipient_address (moved_order E t a n r) = or_recipient_address r"
  "or_state_hash (moved_order E t a n r) = order_state_hash E (moved_order E t a n r)"
  by (simp_all add: moved_order_def Let_def order_state_hash_def order_state_def)

text \<open>Moving an order leaves the books alone.\<close>

lemma moved_books:
  assumes "books_inv db"
    and "wallet_payment_orders db' = update_where (\<lambda>r. or_order_id r = oid) (moved_order E target aid now) (wallet_payment_orders db)"
    and "wallet_ledger_journals db' = wallet_ledger_journals db" "wallet_ledger_entries db' = wallet_ledger_entries db"
  shows "books_inv db'"
proof -
  have "map or_order_id (wallet_payment_orders db') = map or_order_id (wallet_payment_orders db)"
    unfolding assms(2) by (rule map_update_where) simp
  moreover have "\<exists>r\<in>set (wallet_payment_orders db'). journal_matches j r"
    if j: "\<exists>r\<in>set (wallet_payment_orders db). journal_matches j r" for j
  proof -
    from j obtain r where r: "r \<in> set (wallet_payment_orders db)" "journal_matches j r" by blast
    let ?r = "if or_order_id r = oid then moved_order E target aid now r else r"
    have "?r \<in> set (wallet_payment_orders db')" unfolding assms(2) set_update_where using r(1) by blast
    moreover have "journal_matches j ?r" using r(2) by (simp add: journal_matches_def)
    ultimately show ?thesis by blast
  qed
  moreover have "sql_amount (or_amount r)" if "r \<in> set (wallet_payment_orders db')" for r
    using that assms(1) unfolding assms(2) set_update_where books_inv_def by auto
  ultimately show ?thesis using assms(1,3,4) by (simp add: books_inv_def)
qed

lemma posted_books:
  assumes "books_inv db" "post_order_journal E row jtype first second db = Inr db'"
    "[first, second] = sides jtype" "\<exists>r\<in>set (wallet_payment_orders db). or_order_id row = or_order_id r
       \<and> or_subject_id row = or_subject_id r \<and> or_network_id row = or_network_id r
       \<and> or_asset_id row = or_asset_id r \<and> or_amount row = or_amount r"
  shows "books_inv db'"
proof -
  obtain jid now h ea eb n m where fresh: "jid \<notin> jo_journal_id ` set (wallet_ledger_journals db)"
    and db': "db' = db\<lparr>fresh_ids := m, ticks := n,
       wallet_ledger_journals := wallet_ledger_journals db @ [new_journal E row jtype jid now h],
       wallet_ledger_entries := wallet_ledger_entries db @ [ea, eb]\<rparr>"
    and legs: "map entry_view [ea, eb] = map (leg (new_journal E row jtype jid now h)) [first, second]"
    using assms(2) by (rule post_order_journal_effect)
  have "\<exists>r\<in>set (wallet_payment_orders db). journal_matches (new_journal E row jtype jid now h) r"
    using assms(4) by (auto simp: journal_matches_def new_journal_def)
  moreover have "jo_journal_type (new_journal E row jtype jid now h) = jtype"
    "jo_journal_id (new_journal E row jtype jid now h) = jid" by (simp_all add: new_journal_def)
  ultimately show ?thesis using assms(1) fresh legs [unfolded assms(3)] by (simp add: books_inv_def db')
qed

text \<open>
  An order moves to its target while the journals \<open>js\<close> are posted for it: the invariant is kept
  when the target's histories are the old ones followed by \<open>js\<close>.
\<close>

lemma ledger_move:
  assumes inv: "ledger_inv rg db" and books: "books_inv db'" and row: "row \<in> set (wallet_payment_orders db)"
    and ord: "wallet_payment_orders db' = update_where (\<lambda>r. or_order_id r = or_order_id row)
          (moved_order E target aid now) (wallet_payment_orders db)"
    and jou: "wallet_ledger_journals db' = wallet_ledger_journals db @ js" "\<forall>j\<in>set js. jo_order_id j = or_order_id row"
    and hist: "map jo_journal_type (journals_of (or_order_id row) db) \<in> order_histories rg (or_status row)
        \<Longrightarrow> map jo_journal_type (journals_of (or_order_id row) db) @ map jo_journal_type js \<in> order_histories rg target"
  shows "ledger_inv rg db'"
proof -
  have d: "distinct (map or_order_id (wallet_payment_orders db))" using inv by (simp add: ledger_inv_def books_inv_def)
  have old: "map jo_journal_type (journals_of (or_order_id r) db) \<in> order_histories rg (or_status r)"
    if "r \<in> set (wallet_payment_orders db)" for r using inv that by (simp add: ledger_inv_def)
  have jo: "journals_of oid db' = journals_of oid db @ (if oid = or_order_id row then js else [])" for oid
  proof (cases "oid = or_order_id row")
    case True
    with jou show ?thesis by (simp add: journals_of_def)
  next
    case False
    with jou(2) have "filter (\<lambda>j. jo_order_id j = oid) js = []" by (auto simp: filter_empty_conv)
    with False jou(1) show ?thesis by (simp add: journals_of_def)
  qed
  have "map jo_journal_type (journals_of (or_order_id r') db') \<in> order_histories rg (or_status r')"
    if "r' \<in> set (wallet_payment_orders db')" for r'
  proof -
    from that obtain r where r: "r \<in> set (wallet_payment_orders db)"
      and r': "r' = (if or_order_id r = or_order_id row then moved_order E target aid now r else r)"
      unfolding ord set_update_where by blast
    show ?thesis
    proof (cases "or_order_id r = or_order_id row")
      case True
      then have "r = row" using distinct_key_eq [OF d r row] by blast
      with r' True hist [OF old [OF row]] jo show ?thesis by simp
    next
      case False
      with r' jo old [OF r] show ?thesis by simp
    qed
  qed
  with books show ?thesis by (simp add: ledger_inv_def)
qed

lemma ledger_inv_parts:
  assumes "ledger_inv rg db"
  shows "books_inv db" "distinct (map or_order_id (wallet_payment_orders db))"
  using assms by (simp_all add: ledger_inv_def books_inv_def)

lemma transition_ledger:
  assumes inv: "ledger_inv rg db" and row: "row \<in> set (wallet_payment_orders db)"
    and step: "transition_order E row target actor reason db = Inr db'"
    and hist: "order_histories rg (or_status row) \<subseteq> order_histories rg target"
  shows "ledger_inv rg db'"
proof -
  obtain aid now n m au where db': "db' = db\<lparr>fresh_ids := m, ticks := n, audit_records := au,
       wallet_payment_orders := update_where (\<lambda>r. or_order_id r = or_order_id row)
         (moved_order E target aid now) (wallet_payment_orders db)\<rparr>"
    using transition_order_effect [OF step ledger_inv_parts(2) [OF inv] row] by metis
  have "books_inv db'" by (rule moved_books [OF ledger_inv_parts(1) [OF inv]]) (simp_all add: db')
  then show ?thesis
    by (rule ledger_move [OF inv _ row, where js = "[]" and E = E and target = target and aid = aid and now = now])
      (use hist in \<open>auto simp: db'\<close>)
qed

lemma transition_post_ledger:
  assumes inv: "ledger_inv rg db" and row: "row \<in> set (wallet_payment_orders db)"
    and step: "transition_order E row target actor reason db = Inr db1"
    and post: "post_order_journal E row jtype first second db1 = Inr db'" "[first, second] = sides jtype"
    and hist: "\<And>ts. ts \<in> order_histories rg (or_status row) \<Longrightarrow> jtype \<notin> set ts \<Longrightarrow> ts @ [jtype] \<in> order_histories rg target"
  shows "ledger_inv rg db'"
proof -
  obtain aid now n m au where db1: "db1 = db\<lparr>fresh_ids := m, ticks := n, audit_records := au,
       wallet_payment_orders := update_where (\<lambda>r. or_order_id r = or_order_id row)
         (moved_order E target aid now) (wallet_payment_orders db)\<rparr>"
    using transition_order_effect [OF step ledger_inv_parts(2) [OF inv] row] by metis
  have b1: "books_inv db1" by (rule moved_books [OF ledger_inv_parts(1) [OF inv]]) (simp_all add: db1)
  have "moved_order E target aid now row \<in> set (wallet_payment_orders db1)"
    using row by (auto simp: db1 set_update_where)
  then have "books_inv db'"
    by (intro posted_books [OF b1 post] bexI [where x = "moved_order E target aid now row"]) simp_all
  moreover obtain jid at h ea eb k l where
    fresh: "\<forall>j\<in>set (wallet_ledger_journals db1). \<not> (jo_order_id j = or_order_id row \<and> jo_journal_type j = jtype)"
    and "db' = db1\<lparr>fresh_ids := l, ticks := k,
       wallet_ledger_journals := wallet_ledger_journals db1 @ [new_journal E row jtype jid at h],
       wallet_ledger_entries := wallet_ledger_entries db1 @ [ea, eb]\<rparr>"
    using post_order_journal_effect [OF post(1)] by metis
  moreover have "jtype \<notin> set (map jo_journal_type (journals_of (or_order_id row) db))"
    using fresh by (auto simp: db1 journals_of_def)
  ultimately show ?thesis
    by (intro ledger_move [OF inv _ row, where js = "[new_journal E row jtype jid at h]" and E = E
          and target = target and aid = aid and now = now])
      (use hist in \<open>simp_all add: db1 new_journal_def\<close>)
qed

section \<open>The operations keep the ledger\<close>

lemma get_order_Inr:
  "get_order oid sid db = Inr r \<Longrightarrow> r \<in> set (wallet_payment_orders db) \<and> or_order_id r = oid \<and> or_subject_id r = sid"
  by (auto simp: get_order_def split: option.splits dest: fetchone_Some)

lemma reserve_order_ledger:
  assumes inv: "ledger_inv rg db" and row: "row \<in> set (wallet_payment_orders db)"
    and "or_status row \<in> {''pending_policy'', ''awaiting_confirmation''}"
    and "reserve_order E evidence row actor db = Inr db'"
  shows "ledger_inv rg db'"
proof -
  obtain db1 db2 where a: "policy_allows E evidence row (subject_policy (or_subject_id row) db) None db = Inr (True, db1)"
    and t: "transition_order E row ''reserved'' actor ''funds reserved'' db1 = Inr db2"
    and p: "post_order_journal E row ''reservation'' (''available'', ''debit'') (''reserved'', ''credit'') db2 = Inr db'"
    using assms(4) by (auto simp: reserve_order_def split: if_splits)
  obtain n where "db1 = db\<lparr>ticks := n\<rparr>" using a by (rule policy_allows_frame)
  then have "ledger_inv rg db1" "row \<in> set (wallet_payment_orders db1)" 
    using inv row books_inv_cong(2) [of db1 db] by simp_all
  then show ?thesis
    by (rule transition_post_ledger [OF _ _ t p]) (use assms(3) in \<open>auto simp: sides_def order_histories_def\<close>)
qed

lemma confirm_order_ledger:
  assumes "ledger_inv rg db" "confirm_order E evidence oid sid actor db = Inr (rec, db')"
  shows "ledger_inv rg db'"
proof -
  obtain row act where row: "row \<in> set (wallet_payment_orders db)" "or_status row = ''awaiting_confirmation''"
    "reserve_order E evidence row act db = Inr db'"
    using assms(2) by (auto simp: confirm_order_def read_back_def split: if_splits dest!: get_order_Inr)
  show ?thesis by (rule reserve_order_ledger [OF assms(1) row(1) _ row(3)]) (simp add: row(2))
qed

lemma reject_order_ledger:
  assumes "ledger_inv rg db" "reject_order E oid sid actor reason db = Inr (rec, db')"
  shows "ledger_inv rg db'"
proof -
  obtain row act where row: "row \<in> set (wallet_payment_orders db)"
    "or_status row \<in> {''pending_policy'', ''awaiting_confirmation''}"
    "transition_order E row ''rejected'' act reason db = Inr db'"
    using assms(2) by (auto simp: reject_order_def read_back_def split: if_splits dest!: get_order_Inr)
  then show ?thesis
    using transition_ledger [OF assms(1) row(1,3)] by (auto simp: order_histories_def)
qed

lemma cancel_order_ledger:
  assumes "ledger_inv rg db" "cancel_order E oid sid actor reason db = Inr (rec, db')"
  shows "ledger_inv rg db'"
proof -
  obtain row act where row: "row \<in> set (wallet_payment_orders db)"
    and c: "or_status row = ''reserved'' \<and> release_order E row act reason db = Inr db'
      \<or> or_status row \<in> {''pending_policy'', ''awaiting_confirmation''}
        \<and> transition_order E row ''cancelled'' act reason db = Inr db'"
    using assms(2) by (auto simp: cancel_order_def read_back_def split: if_splits dest!: get_order_Inr)
  from c show ?thesis
  proof
    assume r: "or_status row = ''reserved'' \<and> release_order E row act reason db = Inr db'"
    then obtain db1 where "transition_order E row ''cancelled'' act reason db = Inr db1"
      "post_order_journal E row ''release'' (''reserved'', ''debit'') (''released'', ''credit'') db1 = Inr db'"
      by (auto simp: release_order_def)
    with r show ?thesis
      by (intro transition_post_ledger [OF assms(1) row]) (auto simp: sides_def order_histories_def)
  qed (use transition_ledger [OF assms(1) row] in \<open>auto simp: order_histories_def\<close>)
qed

lemma refund_order_ledger:
  assumes "ledger_inv rg db" "refund_order E oid sid actor reason db = Inr (rec, db')"
  shows "ledger_inv rg db'"
proof -
  obtain row act db1 where row: "row \<in> set (wallet_payment_orders db)" "or_status row = ''failed''"
    and t: "transition_order E row ''refunded'' act (py_strip reason) db = Inr db1"
    and p: "post_order_journal E row ''refund'' (''reserved'', ''debit'') (''released'', ''credit'') db1 = Inr db'"
    using assms(2) by (auto simp: refund_order_def Let_def read_back_def split: if_splits dest!: get_order_Inr)
  show ?thesis
    by (rule transition_post_ledger [OF assms(1) row(1) t p]) (use row(2) in \<open>auto simp: sides_def order_histories_def\<close>)
qed

section \<open>Reading the books\<close>

definition amount_val :: "string \<Rightarrow> int" where
  "amount_val s = int (nat_of_digits s)"

lemma int_lexeme_digits: "list_all is_digit s \<Longrightarrow> s \<noteq> [] \<or> b \<Longrightarrow> int_lexeme b s = Some s"
  by (induction s arbitrary: b) auto

lemma sql_amount_digits: "sql_amount s \<Longrightarrow> s \<noteq> [] \<and> list_all is_digit s"
  by (auto simp: sql_amount_def decimal_pattern_def is_digit_def split: list.splits)

lemma parse_amount:
  assumes "sql_amount s"
  shows "parse_py_int s = Inr (amount_val s)"
proof -
  have d: "s \<noteq> []" "list_all is_digit s" using sql_amount_digits [OF assms] by auto
  then obtain c r where s: "s = c # r" "is_digit c" by (cases s) auto
  have "\<not> py_isspace x" if "x \<in> set s" for x
    using d(2) that by (auto simp: list_all_iff is_digit_def py_isspace_def Let_def)
  then have st: "py_strip s = s" by (rule py_strip_no_space)
  have "c \<noteq> CHR ''-''" "c \<noteq> CHR ''+''" using s(2) by (auto simp: is_digit_def)
  then have "(case s of [] \<Rightarrow> [] | c # _ \<Rightarrow> if c = CHR ''-'' \<or> c = CHR ''+'' then [c] else []) = []"
    by (simp add: s(1))
  with st int_lexeme_digits [OF d(2), of False] d(1) show ?thesis
    by (simp add: parse_py_int_def Let_def amount_val_def)
qed

definition signed :: "string \<times> string \<times> string \<times> string \<times> string \<times> string \<Rightarrow> int" where
  "signed v = (case v of (_, _, _, _, direction, amount) \<Rightarrow>
     if direction = ''debit'' then amount_val amount else - amount_val amount)"

text \<open>The net (debit less credit) of an account of a subject, for a network and an asset.\<close>

definition account_net :: "string \<Rightarrow> string \<Rightarrow> string \<Rightarrow> string \<Rightarrow> 'a wallet_db_scheme \<Rightarrow> int" where
  "account_net sid nw asset account db =
     sum_list (map (\<lambda>(e, j). signed (entry_view e))
       (filter (\<lambda>(e, j). (jo_network_id j, jo_asset_id j, en_account e) = (nw, asset, account))
         (ledger_rows sid None None db)))"

text \<open>What a journal type contributes to an account, in units of its amount.\<close>

definition weight :: "string \<Rightarrow> string \<Rightarrow> int" where
  "weight account jtype =
     sum_list (map (\<lambda>(a, d). if a = account then (if d = ''debit'' then 1 else - 1) else 0) (sides jtype))"

lemma join_entries:
  assumes "books_inv db"
  shows "concat (map (\<lambda>e. map (Pair e) (filter (\<lambda>j. jo_journal_id j = en_journal_id e) (wallet_ledger_journals db)))
       (wallet_ledger_entries db))
     = map (\<lambda>e. (e, the (fetchone (\<lambda>j. jo_journal_id j = en_journal_id e) (wallet_ledger_journals db))))
         (wallet_ledger_entries db)"
proof -
  have "map (Pair e) (filter (\<lambda>j. jo_journal_id j = en_journal_id e) (wallet_ledger_journals db))
      = [(e, the (fetchone (\<lambda>j. jo_journal_id j = en_journal_id e) (wallet_ledger_journals db)))]"
    if "e \<in> set (wallet_ledger_entries db)" for e
  proof -
    have "entry_view e \<in> set (map entry_view (wallet_ledger_entries db))" using that by simp
    then obtain j side where j: "j \<in> set (wallet_ledger_journals db)" "entry_view e = leg j side"
      using assms unfolding books_inv_def by auto
    have d: "distinct (map jo_journal_id (wallet_ledger_journals db))" using assms by (simp add: books_inv_def)
    have "en_journal_id e = jo_journal_id j" using j(2) by (simp add: entry_view_def leg_def)
    then show ?thesis using filter_key_single [OF d j(1)] fetchone_key [OF d j(1)] by simp
  qed
  then show ?thesis by (simp cong: map_cong)
qed

lemma sum_list_filter_if: "sum_list (map f (filter P xs)) = sum_list (map (\<lambda>x. if P x then f x else 0) xs)"
  for f :: "_ \<Rightarrow> int"
  by (induction xs) auto

lemma sum_list_concat: "sum_list (concat xss) = sum_list (map sum_list xss)" for xss :: "int list list"
  by (induction xss) auto

lemma account_net_journals:
  assumes "books_inv db"
  shows "account_net sid nw asset account db =
     sum_list (map (\<lambda>j. if jo_subject_id j = sid \<and> jo_network_id j = nw \<and> jo_asset_id j = asset
        then weight account (jo_journal_type j) * amount_val (jo_amount j) else 0) (wallet_ledger_journals db))"
proof -
  let ?js = "wallet_ledger_journals db"
  define jof where "jof = (\<lambda>i. the (fetchone (\<lambda>j. jo_journal_id j = i) ?js))"
  define h where "h = (\<lambda>v. case v of (i, s, oid, a, d, m) \<Rightarrow>
     if s = sid \<and> jo_network_id (jof i) = nw \<and> jo_asset_id (jof i) = asset \<and> a = account then signed v else 0)"
  have "account_net sid nw asset account db = sum_list (map (\<lambda>e. h (entry_view e)) (wallet_ledger_entries db))"
    unfolding account_net_def ledger_rows_def join_entries [OF assms] jof_def [symmetric]
    by (simp add: sum_list_filter_if filter_map comp_def h_def entry_view_def jof_def if_distrib
        sum_list_filter_if [of "\<lambda>e. signed _"] cong: if_cong)
  also have "\<dots> = sum_list (map h (concat (map (\<lambda>j. map (leg j) (sides (jo_journal_type j))) ?js)))"
  proof -
    have "map h (map entry_view (wallet_ledger_entries db))
        = map h (concat (map (\<lambda>j. map (leg j) (sides (jo_journal_type j))) ?js))"
      using assms by (simp only: books_inv_def)
    then show ?thesis by (simp only: map_map comp_def)
  qed
  also have "\<dots> = sum_list (map (\<lambda>j. sum_list (map (\<lambda>sd. h (leg j sd)) (sides (jo_journal_type j)))) ?js)"
    by (simp add: map_concat sum_list_concat comp_def)
  also have "\<dots> = sum_list (map (\<lambda>j. if jo_subject_id j = sid \<and> jo_network_id j = nw \<and> jo_asset_id j = asset
        then weight account (jo_journal_type j) * amount_val (jo_amount j) else 0) ?js)"
  proof (intro arg_cong [where f = sum_list] map_cong [OF refl])
    fix j assume j: "j \<in> set ?js"
    have "jof (jo_journal_id j) = j"
      using fetchone_key [of jo_journal_id ?js j] assms j by (simp add: jof_def books_inv_def)
    then show "sum_list (map (\<lambda>sd. h (leg j sd)) (sides (jo_journal_type j)))
        = (if jo_subject_id j = sid \<and> jo_network_id j = nw \<and> jo_asset_id j = asset
           then weight account (jo_journal_type j) * amount_val (jo_amount j) else 0)"
      by (simp add: h_def leg_def signed_def weight_def sides_def)
  qed
  finally show ?thesis .
qed

text \<open>A sum over journals is a sum over the orders they belong to.\<close>

lemma sum_by_key:
  fixes f :: "'j \<Rightarrow> int"
  assumes "distinct (map k rs)" "\<forall>j\<in>set js. kj j \<in> k ` set rs"
  shows "sum_list (map f js) = sum_list (map (\<lambda>r. sum_list (map f (filter (\<lambda>j. kj j = k r) js))) rs)"
  using assms(2)
proof (induction js)
  case (Cons j js)
  obtain r where r: "r \<in> set rs" "kj j = k r" using Cons.prems by auto
  have one: "sum_list (map (\<lambda>x. if k r = k x then f j else 0) rs) = f j"
    using r(1) assms(1)
  proof (induction rs)
    case (Cons x rs)
    show ?case
    proof (cases "x = r")
      case True
      with Cons.prems(2) have "\<forall>y\<in>set rs. k y \<noteq> k r" by (metis distinct.simps(2) image_eqI list.set_map list.simps(9))
      then have "sum_list (map (\<lambda>x. if k r = k x then f j else 0) rs) = 0"
        by (induction rs) auto
      with True show ?thesis by simp
    next
      case False
      with Cons.prems have "r \<in> set rs" "k x \<noteq> k r" by auto
      with Cons.IH Cons.prems(2) show ?thesis by auto
    qed
  qed simp
  have "sum_list (map (\<lambda>x. sum_list (map f (filter (\<lambda>i. kj i = k x) (j # js)))) rs)
      = sum_list (map (\<lambda>x. (if k r = k x then f j else 0) + sum_list (map f (filter (\<lambda>i. kj i = k x) js))) rs)"
    by (intro arg_cong [where f = sum_list] map_cong refl) (simp add: r(2))
  also have "\<dots> = f j + sum_list (map (\<lambda>x. sum_list (map f (filter (\<lambda>i. kj i = k x) js))) rs)"
    by (simp add: sum_list_addf one)
  finally show ?case using Cons by simp
qed simp

definition order_sum :: "string \<Rightarrow> string \<Rightarrow> string \<Rightarrow> string set \<Rightarrow> 'a wallet_db_scheme \<Rightarrow> int" where
  "order_sum sid nw asset S db =
     sum_list (map (\<lambda>r. amount_val (or_amount r))
       (filter (\<lambda>r. or_subject_id r = sid \<and> or_network_id r = nw \<and> or_asset_id r = asset \<and> or_status r \<in> S)
         (wallet_payment_orders db)))"

lemma sum_list_if_const: "sum_list (map (\<lambda>j. if C then f j * c else 0) xs) = (if C then sum_list (map f xs) * c else 0)"
  for c :: int
  by (induction xs) (auto simp: algebra_simps)

lemma sum_list_all_zero: "(\<And>x. x \<in> set xs \<Longrightarrow> f x = (0 :: int)) \<Longrightarrow> sum_list (map f xs) = 0"
  by (induction xs) auto

lemma account_net_orders:
  assumes "books_inv db"
  shows "account_net sid nw asset account db =
     sum_list (map (\<lambda>r. if or_subject_id r = sid \<and> or_network_id r = nw \<and> or_asset_id r = asset
        then sum_list (map (weight account) (map jo_journal_type (journals_of (or_order_id r) db))) * amount_val (or_amount r)
        else 0) (wallet_payment_orders db))"
proof -
  let ?f = "\<lambda>j. if jo_subject_id j = sid \<and> jo_network_id j = nw \<and> jo_asset_id j = asset
        then weight account (jo_journal_type j) * amount_val (jo_amount j) else 0"
  have d: "distinct (map or_order_id (wallet_payment_orders db))"
    and m: "\<forall>j\<in>set (wallet_ledger_journals db). \<exists>r\<in>set (wallet_payment_orders db). journal_matches j r"
    using assms by (simp_all add: books_inv_def)
  have "\<forall>j\<in>set (wallet_ledger_journals db). jo_order_id j \<in> or_order_id ` set (wallet_payment_orders db)"
    using m by (auto simp: journal_matches_def)
  from sum_by_key [OF d this, of ?f] account_net_journals [OF assms, of sid nw asset account]
  have "account_net sid nw asset account db
      = sum_list (map (\<lambda>r. sum_list (map ?f (journals_of (or_order_id r) db))) (wallet_payment_orders db))"
    by (simp add: journals_of_def)
  also have "\<dots> = sum_list (map (\<lambda>r. if or_subject_id r = sid \<and> or_network_id r = nw \<and> or_asset_id r = asset
        then sum_list (map (weight account) (map jo_journal_type (journals_of (or_order_id r) db))) * amount_val (or_amount r)
        else 0) (wallet_payment_orders db))"
  proof (intro arg_cong [where f = sum_list] map_cong [OF refl])
    fix r assume r: "r \<in> set (wallet_payment_orders db)"
    have "journal_matches j r" if "j \<in> set (journals_of (or_order_id r) db)" for j
    proof -
      from that m obtain s where s: "s \<in> set (wallet_payment_orders db)" "journal_matches j s" "jo_order_id j = or_order_id r"
        by (auto simp: journals_of_def)
      then have "s = r" using distinct_key_eq [OF d s(1) r] by (simp add: journal_matches_def)
      with s show ?thesis by simp
    qed
    then have eq: "map ?f (journals_of (or_order_id r) db) = map (\<lambda>j. if or_subject_id r = sid \<and> or_network_id r = nw \<and> or_asset_id r = asset
        then weight account (jo_journal_type j) * amount_val (or_amount r) else 0) (journals_of (or_order_id r) db)"
      by (intro map_cong) (auto simp: journal_matches_def)
    show "sum_list (map ?f (journals_of (or_order_id r) db))
      = (if or_subject_id r = sid \<and> or_network_id r = nw \<and> or_asset_id r = asset
        then sum_list (map (weight account) (map jo_journal_type (journals_of (or_order_id r) db))) * amount_val (or_amount r)
        else 0)"
      unfolding eq by (simp only: sum_list_if_const map_map comp_def)
  qed
  finally show ?thesis .
qed

definition holding_statuses :: "string set" where
  "holding_statuses = {''reserved'', ''signing'', ''broadcast'', ''unknown'', ''failed''}"

lemma account_net_of_status:
  assumes "ledger_inv False db"
    and "\<And>s ts. ts \<in> order_histories False s \<Longrightarrow> sum_list (map (weight account) ts) = (if s \<in> S then - 1 else 0)"
  shows "account_net sid nw asset account db = - order_sum sid nw asset S db"
proof -
  have "account_net sid nw asset account db =
     sum_list (map (\<lambda>r. - (if or_subject_id r = sid \<and> or_network_id r = nw \<and> or_asset_id r = asset \<and> or_status r \<in> S
        then amount_val (or_amount r) else 0)) (wallet_payment_orders db))"
    unfolding account_net_orders [OF ledger_inv_parts(1) [OF assms(1)]]
  proof (intro arg_cong [where f = sum_list] map_cong [OF refl])
    fix r assume r: "r \<in> set (wallet_payment_orders db)"
    then have "map jo_journal_type (journals_of (or_order_id r) db) \<in> order_histories False (or_status r)"
      using assms(1) by (simp add: ledger_inv_def)
    from assms(2) [OF this] show "(if or_subject_id r = sid \<and> or_network_id r = nw \<and> or_asset_id r = asset
        then sum_list (map (weight account) (map jo_journal_type (journals_of (or_order_id r) db))) * amount_val (or_amount r)
        else 0) = - (if or_subject_id r = sid \<and> or_network_id r = nw \<and> or_asset_id r = asset \<and> or_status r \<in> S
        then amount_val (or_amount r) else 0)" by simp
  qed
  also have "\<dots> = - order_sum sid nw asset S db"
    by (simp add: order_sum_def sum_list_filter_if uminus_sum_list_map comp_def)
  finally show ?thesis .
qed

lemma reserved_and_paid:
  assumes "ledger_inv False db"
  shows "account_net sid nw asset ''reserved'' db = - order_sum sid nw asset holding_statuses db"
    and "account_net sid nw asset ''paid'' db = - order_sum sid nw asset {''confirmed''} db"
proof -
  show "account_net sid nw asset ''reserved'' db = - order_sum sid nw asset holding_statuses db"
    by (rule account_net_of_status [OF assms])
      (auto simp: order_histories_def weight_def sides_def holding_statuses_def split: if_splits)
  show "account_net sid nw asset ''paid'' db = - order_sum sid nw asset {''confirmed''} db"
    by (rule account_net_of_status [OF assms]) (auto simp: order_histories_def weight_def sides_def split: if_splits)
qed

text \<open>The totals \<open>ledger_balances\<close> accumulates, key by key.\<close>

definition row_key :: "entry_row \<times> journal_row \<Rightarrow> balance_key" where
  "row_key x = (jo_network_id (snd x), jo_asset_id (snd x), en_account (fst x))"

definition side_total :: "string \<Rightarrow> balance_key \<Rightarrow> (entry_row \<times> journal_row) list \<Rightarrow> int" where
  "side_total direction key rows =
     sum_list (map (\<lambda>(e, j). amount_val (en_amount e)) (filter (\<lambda>x. row_key x = key \<and> en_direction (fst x) = direction) rows))"

definition total_of :: "(balance_key \<times> int \<times> int) list \<Rightarrow> balance_key \<Rightarrow> int \<times> int" where
  "total_of totals key = (case map_of totals key of None \<Rightarrow> (0, 0) | Some v \<Rightarrow> v)"

definition sound_entry :: "entry_row \<Rightarrow> bool" where
  "sound_entry e = (en_direction e \<in> {''debit'', ''credit''} \<and> sql_amount (en_amount e))"

lemma map_of_set_key: "map_of (map (\<lambda>(k, w). if k = key then (k, new) else (k, w)) t) x
    = (if x = key \<and> key \<in> fst ` set t then Some new else map_of t x)"
proof (induction t)
  case (Cons p t)
  obtain k w where p: "p = (k, w)" by (cases p)
  show ?case by (cases "k = key"; cases "x = k") (simp_all add: p Cons.IH)
qed simp

lemma keys_set_key: "map fst (map (\<lambda>(k, w). if k = key then (k, new) else (k, w)) t) = map fst t"
  by (induction t) auto

lemma add_entry_sound:
  assumes "sound_entry (fst x)" "distinct (map fst t)"
  obtains t' where "add_entry x t = Inr t'" "distinct (map fst t')" "fst ` set t' = insert (row_key x) (fst ` set t)"
    "\<forall>k. total_of t' k = (fst (total_of t k) + side_total ''debit'' k [x], snd (total_of t k) + side_total ''credit'' k [x])"
proof -
  obtain e j where x: "x = (e, j)" by (cases x) 
  let ?key = "row_key x" and ?v = "amount_val (en_amount e)"
  define new where "new = (if en_direction e = ''debit'' then (fst (total_of t ?key) + ?v, snd (total_of t ?key))
      else (fst (total_of t ?key), snd (total_of t ?key) + ?v))"
  define t' where "t' = (if ?key \<in> fst ` set t then map (\<lambda>(k, w). if k = ?key then (k, new) else (k, w)) t else t @ [(?key, new)])"
  have dir: "en_direction e \<in> {''debit'', ''credit''}" "parse_py_int (en_amount e) = Inr ?v"
    using assms(1) parse_amount by (auto simp: sound_entry_def x)
  have a: "add_entry x t = Inr t'"
    using dir by (auto simp: add_entry_def x Let_def t'_def new_def row_key_def total_of_def split: prod.splits)
  have keys: "map fst t' = (if ?key \<in> fst ` set t then map fst t else map fst t @ [?key])"
    unfolding t'_def by (cases "?key \<in> fst ` set t") (simp_all only: if_True if_False keys_set_key, simp)
  then have "set (map fst t') = insert ?key (set (map fst t))"
    by (cases "?key \<in> fst ` set t") (simp_all only: if_True if_False set_append set_map list.set insert_absorb, simp)
  then have k: "fst ` set t' = insert ?key (fst ` set t)" by simp
  have d: "distinct (map fst t')" using keys assms(2) by simp
  have m: "total_of t' k = (if k = ?key then new else total_of t k)" for k
    by (auto simp: total_of_def t'_def map_of_set_key map_add_def map_of_eq_None_iff [THEN iffD2] split: option.splits)
  have "total_of t' k = (fst (total_of t k) + side_total ''debit'' k [x], snd (total_of t k) + side_total ''credit'' k [x])" for k
    using dir(1) by (auto simp: m new_def side_total_def x)
  with a d k that show thesis by blast
qed

lemma side_total_Cons: "side_total d k (x # xs) = side_total d k [x] + side_total d k xs"
  by (simp add: side_total_def)

lemma fold_add_entry:
  assumes "\<forall>x\<in>set rows. sound_entry (fst x)" "distinct (map fst t)"
  obtains t' where "res_fold add_entry rows t = Inr t'" "distinct (map fst t')"
    "fst ` set t' = row_key ` set rows \<union> fst ` set t"
    "\<forall>k. total_of t' k = (fst (total_of t k) + side_total ''debit'' k rows, snd (total_of t k) + side_total ''credit'' k rows)"
  using assms
proof (induction rows arbitrary: t thesis)
  case Nil
  then show ?case by (simp add: side_total_def)
next
  case (Cons x rows)
  from Cons.prems obtain t1 where t1: "add_entry x t = Inr t1" "distinct (map fst t1)"
    "fst ` set t1 = insert (row_key x) (fst ` set t)"
    "\<forall>k. total_of t1 k = (fst (total_of t k) + side_total ''debit'' k [x], snd (total_of t k) + side_total ''credit'' k [x])"
    using add_entry_sound [of x t] by (metis list.set_intros(1))
  from Cons.prems obtain t2 where t2: "res_fold add_entry rows t1 = Inr t2" "distinct (map fst t2)"
    "fst ` set t2 = row_key ` set rows \<union> fst ` set t1"
    "\<forall>k. total_of t2 k = (fst (total_of t1 k) + side_total ''debit'' k rows, snd (total_of t1 k) + side_total ''credit'' k rows)"
    using Cons.IH [of t1] t1(2) by (metis list.set_intros(2))
  show ?case
    by (rule Cons.prems(1) [of t2]) (use t1 t2 in \<open>auto simp: side_total_Cons [of _ _ x rows]\<close>)
qed

lemma account_net_sides:
  assumes "\<forall>x\<in>set (ledger_rows sid None None db). sound_entry (fst x)"
  shows "account_net sid nw asset account db =
     side_total ''debit'' (nw, asset, account) (ledger_rows sid None None db)
       - side_total ''credit'' (nw, asset, account) (ledger_rows sid None None db)"
proof -
  have "sum_list (map (\<lambda>(e, j). signed (entry_view e))
      (filter (\<lambda>(e, j). (jo_network_id j, jo_asset_id j, en_account e) = k) rows))
    = side_total ''debit'' k rows - side_total ''credit'' k rows"
    if "\<forall>x\<in>set rows. sound_entry (fst x)" for k rows
    using that
  proof (induction rows)
    case (Cons x rows)
    then show ?case
      unfolding side_total_Cons [of _ _ x rows]
      by (cases x) (auto simp: side_total_def [of _ _ "[_]"] sound_entry_def row_key_def signed_def entry_view_def)
  qed (simp add: side_total_def)
  from this [OF assms, of "(nw, asset, account)"] show ?thesis by (simp only: account_net_def)
qed

lemma books_sound:
  assumes "books_inv db" "e \<in> set (wallet_ledger_entries db)"
  shows "sound_entry e"
proof -
  have "entry_view e \<in> set (map entry_view (wallet_ledger_entries db))" using assms(2) by simp
  then obtain j side where j: "j \<in> set (wallet_ledger_journals db)" "side \<in> set (sides (jo_journal_type j))"
      "entry_view e = leg j side"
    using assms(1) unfolding books_inv_def by auto
  moreover obtain r where "r \<in> set (wallet_payment_orders db)" "jo_amount j = or_amount r" "sql_amount (or_amount r)"
    using assms(1) j(1) by (auto simp: books_inv_def journal_matches_def)
  ultimately show ?thesis
    by (auto simp: sound_entry_def entry_view_def leg_def sides_def split: if_splits)
qed

lemma ledger_balances_net:
  assumes "books_inv db" "validate_subject_id sid = Inr u"
  obtains bs where "ledger_balances sid None None db = Inr bs"
    "\<forall>b\<in>set bs. lb_net b = show_int (account_net sid (lb_network_id b) (lb_asset_id b) (lb_account b) db)"
    "\<forall>x\<in>set (ledger_rows sid None None db). row_key x \<in> (\<lambda>b. (lb_network_id b, lb_asset_id b, lb_account b)) ` set bs"
proof -
  let ?rows = "ledger_rows sid None None db"
  have sound: "\<forall>x\<in>set ?rows. sound_entry (fst x)"
    using books_sound [OF assms(1)] by (auto simp: ledger_rows_def)
  obtain t where t: "res_fold add_entry ?rows [] = Inr t" "distinct (map fst t)" "fst ` set t = row_key ` set ?rows"
    "\<forall>k. total_of t k = (side_total ''debit'' k ?rows, side_total ''credit'' k ?rows)"
    using fold_add_entry [OF sound, of "[]"] by (auto simp: total_of_def)
  define show_row where "show_row = (\<lambda>((network, asset, account), debit, credit).
              \<lparr>lb_account = account, lb_debit = show_int debit, lb_credit = show_int credit,
               lb_net = show_int (debit - credit), lb_network_id = network, lb_asset_id = asset\<rparr>)"
  let ?bs = "map show_row (sort_key fst t)"
  have run: "ledger_balances sid None None db = Inr ?bs" by (simp add: ledger_balances_def assms(2) t(1) show_row_def)
  have tot: "(d, c) = (side_total ''debit'' k ?rows, side_total ''credit'' k ?rows)" if "(k, d, c) \<in> set t" for k d c
    using t(2) t(4) that by (metis map_of_eq_Some_iff option.simps(5) total_of_def)
  have "lb_net b = show_int (account_net sid (lb_network_id b) (lb_asset_id b) (lb_account b) db)" if "b \<in> set ?bs" for b
    using that tot account_net_sides [OF sound] by (fastforce simp: show_row_def)
  moreover have "row_key x \<in> (\<lambda>b. (lb_network_id b, lb_asset_id b, lb_account b)) ` set ?bs" if x: "x \<in> set ?rows" for x
  proof -
    from x t(3) obtain y where "y \<in> set t" "fst y = row_key x" by (metis image_iff)
    then show ?thesis by (auto simp: image_image show_row_def split: prod.splits intro!: rev_image_eqI [of y])
  qed
  ultimately show thesis using run that by blast
qed

text \<open>Double entry: over the four accounts the books add up to nothing.\<close>

lemma double_entry:
  assumes "books_inv db"
  shows "account_net sid nw asset ''available'' db + account_net sid nw asset ''reserved'' db
       + account_net sid nw asset ''paid'' db + account_net sid nw asset ''released'' db = 0"
  unfolding account_net_journals [OF assms] sum_list_addf [symmetric]
  by (rule sum_list_all_zero) (auto simp: weight_def sides_def)

end
