(* ===== verification/WalletBounties.thy ===== *)
theory WalletBounties
  imports WalletOrders
begin

text \<open>
  The bounties, their submissions and the payment policy of \<^verbatim>\<open>wallet/economy.py\<close>: what
  the operator publishes, what a visitor submits, the decision on a submission and the
  payment order an accepted submission gives.  A tuple the code reads back from a JSON
  column is the list of its JSON values.
\<close>

section \<open>Records\<close>

definition json_texts :: "string list \<Rightarrow> json" where
  "json_texts xs = JList (map JStr xs)"

text \<open>\<open>tuple(strict_json_loads(text))\<close>.\<close>

definition loaded_tuple :: "string \<Rightarrow> json list res" where
  "loaded_tuple text =
     res_bind (strict_json_loads text) (\<lambda>v.
       case v of
         JList vs \<Rightarrow> Inr vs
       | JObj kvs \<Rightarrow> Inr (map (\<lambda>kv. JStr (fst kv)) kvs)
       | JStr s \<Rightarrow> Inr (map (\<lambda>c. JStr [c]) s)
       | _ \<Rightarrow> Inl (TypeError ''object is not iterable''))"

record bounty_record =
  br_bounty_id :: string
  br_subject_id :: string
  br_project_id :: "string option"
  br_goal_id :: "string option"
  br_idempotency_key :: string
  br_title :: string
  br_description :: string
  br_acceptance_criteria :: "json list"
  br_network_id :: string
  br_asset_id :: string
  br_reward_amount :: string
  br_opens_at :: string
  br_expires_at :: string
  br_max_submissions :: int
  br_reward_slots :: int
  br_status :: string
  br_state_hash :: string
  br_created_at :: string
  br_updated_at :: string

record submission_record =
  sr_submission_id :: string
  sr_bounty_id :: string
  sr_subject_id :: string
  sr_counterparty :: string
  sr_content :: string
  sr_evidence :: "json list"
  sr_recipient_address :: string
  sr_idempotency_key :: string
  sr_consent_version :: int
  sr_status :: string
  sr_decision_reason :: "string option"
  sr_created_at :: string
  sr_decided_at :: "string option"

record policy_record =
  qr_subject_id :: string
  qr_mode :: string
  qr_allowed_network_ids :: "json list"
  qr_allowed_asset_ids :: "json list"
  qr_per_order_limit :: string
  qr_daily_limit :: string
  qr_monthly_limit :: string
  qr_daily_order_limit :: int
  qr_monthly_order_limit :: int
  qr_min_balance :: string
  qr_max_observation_age_seconds :: int
  qr_automatic_max_amount :: string
  qr_anomaly_block :: bool
  qr_emergency_paused :: bool
  qr_automation_enabled :: bool
  qr_policy_version :: int
  qr_updated_at :: string
  qr_recipient_allowlist_enabled :: bool
  qr_allowed_recipient_addresses :: "json list"

definition bounty_from_row :: "env \<Rightarrow> bounty_row \<Rightarrow> string option \<Rightarrow> bounty_record res" where
  "bounty_from_row E r status =
     (let effective = (case status of None \<Rightarrow> bo_status r | Some s \<Rightarrow> s);
          h = (if effective \<noteq> bo_status r then bounty_state_hash E (r\<lparr>bo_status := effective\<rparr>) else bo_state_hash r)
      in res_bind (loaded_tuple (bo_acceptance_criteria_json r)) (\<lambda>items.
           Inr \<lparr>br_bounty_id = bo_bounty_id r, br_subject_id = bo_subject_id r, br_project_id = bo_project_id r,
                br_goal_id = bo_goal_id r, br_idempotency_key = bo_idempotency_key r, br_title = bo_title r,
                br_description = bo_description r, br_acceptance_criteria = items,
                br_network_id = bo_network_id r, br_asset_id = bo_asset_id r,
                br_reward_amount = bo_reward_amount r, br_opens_at = bo_opens_at r,
                br_expires_at = bo_expires_at r, br_max_submissions = bo_max_submissions r,
                br_reward_slots = bo_reward_slots r, br_status = effective, br_state_hash = h,
                br_created_at = bo_created_at r, br_updated_at = bo_updated_at r\<rparr>))"

definition submission_from_row :: "submission_row \<Rightarrow> submission_record res" where
  "submission_from_row r =
     res_bind (loaded_tuple (su_evidence_json r)) (\<lambda>items.
       Inr \<lparr>sr_submission_id = su_submission_id r, sr_bounty_id = su_bounty_id r, sr_subject_id = su_subject_id r,
            sr_counterparty = su_counterparty r, sr_content = su_content r, sr_evidence = items,
            sr_recipient_address = su_recipient_address r, sr_idempotency_key = su_idempotency_key r,
            sr_consent_version = su_consent_version r, sr_status = su_status r,
            sr_decision_reason = su_decision_reason r, sr_created_at = su_created_at r,
            sr_decided_at = su_decided_at r\<rparr>)"

definition policy_from_row :: "policy_row \<Rightarrow> policy_record res" where
  "policy_from_row r =
     res_bind (loaded_tuple (po_allowed_network_ids_json r)) (\<lambda>networks.
     res_bind (loaded_tuple (po_allowed_asset_ids_json r)) (\<lambda>assets.
     res_bind (loaded_tuple (po_allowed_recipient_addresses_json r)) (\<lambda>recipients.
       Inr \<lparr>qr_subject_id = po_subject_id r, qr_mode = po_mode r, qr_allowed_network_ids = networks,
            qr_allowed_asset_ids = assets, qr_per_order_limit = po_per_order_limit r,
            qr_daily_limit = po_daily_limit r, qr_monthly_limit = po_monthly_limit r,
            qr_daily_order_limit = po_daily_order_limit r, qr_monthly_order_limit = po_monthly_order_limit r,
            qr_min_balance = po_min_balance r,
            qr_max_observation_age_seconds = po_max_observation_age_seconds r,
            qr_automatic_max_amount = po_automatic_max_amount r, qr_anomaly_block = po_anomaly_block r,
            qr_emergency_paused = po_emergency_paused r, qr_automation_enabled = po_automation_enabled r,
            qr_policy_version = po_policy_version r, qr_updated_at = po_updated_at r,
            qr_recipient_allowlist_enabled = po_recipient_allowlist_enabled r,
            qr_allowed_recipient_addresses = recipients\<rparr>)))"

section \<open>Registered networks and assets\<close>

definition store_identifier :: "string \<Rightarrow> string \<Rightarrow> unit res" where
  "store_identifier value field =
     (if blank value \<or> length value > 128 then Inl (ValueError (''wallet '' @ field @ '' is invalid'')) else Inr ())"

definition network_row_of :: "string \<Rightarrow> string \<Rightarrow> 'a wallet_db_scheme \<Rightarrow> network_row res" where
  "network_row_of network_id subject_id db =
     res_bind (store_identifier network_id ''network identifier'') (\<lambda>_.
       case fetchone (\<lambda>n. nw_network_id n = network_id \<and> nw_subject_id n = subject_id) (wallet_networks db) of
         None \<Rightarrow> Inl (NotFoundError (''wallet network not found: '' @ network_id))
       | Some n \<Rightarrow> Inr n)"

definition asset_row_of :: "string \<Rightarrow> string \<Rightarrow> 'a wallet_db_scheme \<Rightarrow> asset_row res" where
  "asset_row_of asset_id subject_id db =
     res_bind (store_identifier asset_id ''asset identifier'') (\<lambda>_.
       case fetchone (\<lambda>a. as_asset_id a = asset_id \<and> as_subject_id a = subject_id) (wallet_assets db) of
         None \<Rightarrow> Inl (NotFoundError (''wallet asset not found: '' @ asset_id))
       | Some a \<Rightarrow> Inr a)"

section \<open>Bounties\<close>

definition bounty_transitions :: "string \<Rightarrow> string set" where
  "bounty_transitions s =
     (if s = ''draft'' then {''published'', ''cancelled'', ''expired''}
      else if s = ''published'' then {''closed'', ''cancelled'', ''expired''}
      else if s = ''closed'' then {''expired''} else {})"

definition bounty_statuses :: "string list" where
  "bounty_statuses = [''draft'', ''published'', ''closed'', ''cancelled'', ''expired'']"

definition open_statuses :: "string list" where
  "open_statuses = [''draft'', ''published'', ''closed'']"

definition effective_bounty_status ::
    "env \<Rightarrow> bounty_row \<Rightarrow> 'a wallet_db_scheme \<Rightarrow> (string \<times> 'a wallet_db_scheme) res" where
  "effective_bounty_status E row db =
     (if bo_status row \<in> set open_statuses
      then res_bind (parse_time (bo_expires_at row)) (\<lambda>expiry.
             let (t, db1) = utc_now E db
             in res_bind (parse_time t) (\<lambda>now.
                  Inr (if dt_micros expiry \<le> dt_micros now then ''expired'' else bo_status row, db1)))
      else Inr (bo_status row, db))"

definition moved_bounty :: "env \<Rightarrow> string \<Rightarrow> string \<Rightarrow> string \<Rightarrow> bounty_row \<Rightarrow> bounty_row" where
  "moved_bounty E target audit_id now row =
     row\<lparr>bo_status := target, bo_state_hash := bounty_state_hash E (row\<lparr>bo_status := target\<rparr>),
         bo_last_audit_id := audit_id, bo_updated_at := now\<rparr>"

definition set_bounty_status ::
    "env \<Rightarrow> bounty_row \<Rightarrow> string \<Rightarrow> string \<Rightarrow> string \<Rightarrow> 'a wallet_db_scheme \<Rightarrow> ('a wallet_db_scheme) res" where
  "set_bounty_status E row target reason actor db =
     (let (now, db1) = utc_now E db
      in res_bind (wallet_audit E (bo_subject_id row) (''wallet_bounty_'' @ target) actor
           [(''bounty_id'', JStr (bo_bounty_id row)), (''from'', JStr (bo_status row)),
            (''to'', JStr target), (''reason'', JStr reason)] db1) (\<lambda>(audit_id, db2).
           let new = moved_bounty E target audit_id now row
           in res_bind (update_guarded bounty_trigger_allows ''wallet bounty transition is invalid''
                (\<lambda>r. bo_bounty_id r = bo_bounty_id row)
                (\<lambda>r. r\<lparr>bo_status := bo_status new, bo_state_hash := bo_state_hash new,
                       bo_last_audit_id := bo_last_audit_id new, bo_updated_at := bo_updated_at new\<rparr>)
                (wallet_bounties db2)) (\<lambda>t. Inr (db2\<lparr>wallet_bounties := t\<rparr>))))"

definition bounty_payload :: "string \<Rightarrow> string \<Rightarrow> bounty_input \<Rightarrow> string \<Rightarrow> (string \<times> json) list" where
  "bounty_payload bid sid p now =
     [(''bounty_id'', JStr bid), (''subject_id'', JStr sid), (''project_id'', json_opt (bi_project_id p)),
      (''goal_id'', json_opt (bi_goal_id p)), (''idempotency_key'', JStr (bi_idempotency_key p)),
      (''title'', JStr (bi_title p)), (''description'', JStr (bi_description p)),
      (''acceptance_criteria'', json_texts (bi_acceptance_criteria p)), (''network_id'', JStr (bi_network_id p)),
      (''asset_id'', JStr (bi_asset_id p)), (''reward_amount'', JStr (bi_reward_amount p)),
      (''opens_at'', JStr (bi_opens_at p)), (''expires_at'', JStr (bi_expires_at p)),
      (''max_submissions'', JInt (bi_max_submissions p)), (''reward_slots'', JInt (bi_reward_slots p)),
      (''status'', JStr ''draft''), (''created_at'', JStr now)]"

text \<open>The provenance queries on \<open>autonomous_projects\<close> and \<open>goals\<close> (identifier and subject).\<close>

definition owned_by :: "(string \<times> string) list \<Rightarrow> string option \<Rightarrow> string \<Rightarrow> bool" where
  "owned_by t key subject_id =
     (case key of None \<Rightarrow> True | Some k \<Rightarrow> fetchone (\<lambda>r. fst r = k) t = Some (k, subject_id))"

definition same_bounty :: "bounty_row \<Rightarrow> bounty_input \<Rightarrow> bool" where
  "same_bounty x p =
     (bo_title x = bi_title p \<and> bo_description x = bi_description p
      \<and> bo_acceptance_criteria_json x = canonical_json (json_texts (bi_acceptance_criteria p))
      \<and> bo_network_id x = bi_network_id p \<and> bo_asset_id x = bi_asset_id p
      \<and> bo_reward_amount x = bi_reward_amount p \<and> bo_opens_at x = bi_opens_at p
      \<and> bo_expires_at x = bi_expires_at p \<and> bo_max_submissions x = bi_max_submissions p
      \<and> bo_reward_slots x = bi_reward_slots p \<and> bo_project_id x = bi_project_id p
      \<and> bo_goal_id x = bi_goal_id p)"

definition new_bounty :: "env \<Rightarrow> string \<Rightarrow> string \<Rightarrow> bounty_input \<Rightarrow> string \<Rightarrow> string \<Rightarrow> bounty_row" where
  "new_bounty E bounty_id subject_id p audit_id now =
     (let r = \<lparr>bo_bounty_id = bounty_id, bo_subject_id = subject_id, bo_project_id = bi_project_id p,
               bo_goal_id = bi_goal_id p, bo_idempotency_key = bi_idempotency_key p, bo_title = bi_title p,
               bo_description = bi_description p,
               bo_acceptance_criteria_json = canonical_json (json_texts (bi_acceptance_criteria p)),
               bo_network_id = bi_network_id p, bo_asset_id = bi_asset_id p,
               bo_reward_amount = bi_reward_amount p, bo_opens_at = bi_opens_at p,
               bo_expires_at = bi_expires_at p, bo_max_submissions = bi_max_submissions p,
               bo_reward_slots = bi_reward_slots p, bo_status = ''draft'', bo_state_hash = '''',
               bo_created_audit_id = audit_id, bo_last_audit_id = audit_id,
               bo_created_at = now, bo_updated_at = now\<rparr>
      in r\<lparr>bo_state_hash := bounty_state_hash E r\<rparr>)"

text \<open>\<open>SELECT * FROM wallet_bounties WHERE bounty_id=?\<close> after a write, as a record.\<close>

definition read_bounty ::
    "env \<Rightarrow> string \<Rightarrow> 'a wallet_db_scheme \<Rightarrow> (bounty_record \<times> 'a wallet_db_scheme) res" where
  "read_bounty E bounty_id db =
     (case fetchone (\<lambda>r. bo_bounty_id r = bounty_id) (wallet_bounties db) of
        None \<Rightarrow> Inl (TypeError ''row is None'')
      | Some r \<Rightarrow> res_bind (bounty_from_row E r None) (\<lambda>b. Inr (b, db)))"

definition create_bounty ::
    "env \<Rightarrow> string \<Rightarrow> bounty_input \<Rightarrow> string \<Rightarrow> 'a wallet_db_scheme
      \<Rightarrow> (bounty_record \<times> 'a wallet_db_scheme) res" where
  "create_bounty E subject_id p actor db =
     res_bind (operator_name actor) (\<lambda>actor.
     res_bind (validate_subject_id subject_id) (\<lambda>_.
       let (now, db1) = utc_now E db
       in res_bind (network_row_of (bi_network_id p) subject_id db1) (\<lambda>network.
          res_bind (asset_row_of (bi_asset_id p) subject_id db1) (\<lambda>asset.
            if nw_status network \<noteq> ''active'' \<or> as_status asset \<noteq> ''active''
               \<or> as_network_id asset \<noteq> bi_network_id p
            then Inl (ValueError ''wallet network or asset is not active'')
            else if \<not> owned_by (autonomous_projects db1) (bi_project_id p) subject_id
            then Inl (ValueError ''bounty project provenance is invalid'')
            else if \<not> owned_by (goals db1) (bi_goal_id p) subject_id
            then Inl (ValueError ''bounty goal provenance is invalid'')
            else
              (case fetchone (\<lambda>r. bo_subject_id r = subject_id \<and> bo_idempotency_key r = bi_idempotency_key p)
                      (wallet_bounties db1) of
                 Some existing \<Rightarrow>
                   if \<not> same_bounty existing p
                   then Inl (ValueError ''bounty idempotency key conflicts with different input'')
                   else res_bind (bounty_from_row E existing None) (\<lambda>b. Inr (b, db1))
               | None \<Rightarrow>
                   let (bounty_id, db2) = new_id E ''bounty'' db1
                   in res_bind (wallet_audit E subject_id ''wallet_bounty_created'' actor
                        (bounty_payload bounty_id subject_id p now) db2) (\<lambda>(audit_id, db3).
                      res_bind (insert_bounty (new_bounty E bounty_id subject_id p audit_id now) db3)
                        (read_bounty E bounty_id)))))))"

definition find_bounty :: "string \<Rightarrow> string \<Rightarrow> 'a wallet_db_scheme \<Rightarrow> bounty_row res" where
  "find_bounty bounty_id subject_id db =
     (case fetchone (\<lambda>r. bo_bounty_id r = bounty_id \<and> bo_subject_id r = subject_id) (wallet_bounties db) of
        None \<Rightarrow> Inl (NotFoundError ''wallet bounty not found'')
      | Some r \<Rightarrow> Inr r)"

definition transition_bounty ::
    "env \<Rightarrow> string \<Rightarrow> string \<Rightarrow> string \<Rightarrow> string \<Rightarrow> 'a wallet_db_scheme
      \<Rightarrow> (bounty_record \<times> 'a wallet_db_scheme) res" where
  "transition_bounty E bounty_id subject_id target actor db =
     res_bind (operator_name actor) (\<lambda>actor.
     res_bind (validate_subject_id subject_id) (\<lambda>_.
     res_bind (find_bounty bounty_id subject_id db) (\<lambda>row0.
     res_bind (effective_bounty_status E row0 db) (\<lambda>(status, db1).
     res_bind (if status \<noteq> bo_status row0
               then res_bind (set_bounty_status E row0 status ''expired'' actor db1) (\<lambda>db2.
                    case fetchone (\<lambda>r. bo_bounty_id r = bounty_id) (wallet_bounties db2) of
                      None \<Rightarrow> Inl (TypeError ''row is None'') | Some r \<Rightarrow> Inr (r, db2))
               else Inr (row0, db1)) (\<lambda>(row, db3).
       if target \<notin> bounty_transitions (bo_status row)
       then Inl (InvalidTransitionError ''wallet bounty transition is invalid'')
       else res_bind (set_bounty_status E row target target actor db3) (read_bounty E bounty_id))))))"

definition publish_bounty ::
    "env \<Rightarrow> string \<Rightarrow> string \<Rightarrow> string \<Rightarrow> 'a wallet_db_scheme \<Rightarrow> (bounty_record \<times> 'a wallet_db_scheme) res" where
  "publish_bounty E bounty_id subject_id actor = transition_bounty E bounty_id subject_id ''published'' actor"

definition close_bounty ::
    "env \<Rightarrow> string \<Rightarrow> string \<Rightarrow> string \<Rightarrow> 'a wallet_db_scheme \<Rightarrow> (bounty_record \<times> 'a wallet_db_scheme) res" where
  "close_bounty E bounty_id subject_id actor = transition_bounty E bounty_id subject_id ''closed'' actor"

definition cancel_bounty ::
    "env \<Rightarrow> string \<Rightarrow> string \<Rightarrow> string \<Rightarrow> 'a wallet_db_scheme \<Rightarrow> (bounty_record \<times> 'a wallet_db_scheme) res" where
  "cancel_bounty E bounty_id subject_id actor = transition_bounty E bounty_id subject_id ''cancelled'' actor"

definition get_bounty ::
    "env \<Rightarrow> string \<Rightarrow> string \<Rightarrow> 'a wallet_db_scheme \<Rightarrow> (bounty_record \<times> 'a wallet_db_scheme) res" where
  "get_bounty E bounty_id subject_id db =
     res_bind (validate_subject_id subject_id) (\<lambda>_.
     res_bind (find_bounty bounty_id subject_id db) (\<lambda>row.
     res_bind (effective_bounty_status E row db) (\<lambda>(status, db1).
     res_bind (bounty_from_row E row (Some status)) (\<lambda>b. Inr (b, db1)))))"

text \<open>The effective expiry is selected before the limit, and checked again on each record.\<close>

definition status_filter :: "string option \<Rightarrow> string \<Rightarrow> bounty_row \<Rightarrow> bool" where
  "status_filter status now r =
     (case status of
        None \<Rightarrow> True
      | Some s \<Rightarrow>
          if s \<in> set open_statuses then bo_status r = s \<and> bo_expires_at r > now
          else if s = ''expired''
          then bo_status r = ''expired'' \<or> bo_status r \<in> set open_statuses \<and> bo_expires_at r \<le> now
          else bo_status r = s)"

fun effective_records ::
    "env \<Rightarrow> bounty_row list \<Rightarrow> 'a wallet_db_scheme \<Rightarrow> (bounty_record list \<times> 'a wallet_db_scheme) res" where
  "effective_records E [] db = Inr ([], db)"
| "effective_records E (r # rs) db =
     res_bind (effective_bounty_status E r db) (\<lambda>(status, db1).
     res_bind (bounty_from_row E r (Some status)) (\<lambda>b.
     res_bind (effective_records E rs db1) (\<lambda>(bs, db2). Inr (b # bs, db2))))"

definition list_bounties ::
    "env \<Rightarrow> string \<Rightarrow> string option \<Rightarrow> nat \<Rightarrow> (string \<times> string) option \<Rightarrow> 'a wallet_db_scheme
      \<Rightarrow> (bounty_record list \<times> 'a wallet_db_scheme) res" where
  "list_bounties E subject_id status limit before db =
     (if limit < 1 \<or> 1000 < limit then Inl (ValueError ''invalid bounty limit'')
      else res_bind (validate_subject_id subject_id) (\<lambda>_.
        let (now, db1) = utc_now E db
        in if \<exists>s. status = Some s \<and> s \<notin> set bounty_statuses then Inl (ValueError ''invalid bounty status'')
           else if \<exists>c b. before = Some (c, b) \<and> (length c > 40 \<or> length b > 128)
           then Inl (ValueError ''invalid bounty cursor'')
           else
             let rows = take limit (rev (fetchall_by (\<lambda>r. bo_subject_id r = subject_id \<and> status_filter status now r
                    \<and> (\<forall>key. before = Some key \<longrightarrow> (bo_created_at r, bo_bounty_id r) < key))
                  (\<lambda>r. (bo_created_at r, bo_bounty_id r)) (wallet_bounties db1)))
             in res_bind (effective_records E rows db1) (\<lambda>(records, db2).
                  Inr (filter (\<lambda>b. \<forall>s. status = Some s \<longrightarrow> br_status b = s) records, db2))))"

definition expire_row ::
    "env \<Rightarrow> datetime \<Rightarrow> bounty_row \<Rightarrow> nat \<times> 'a wallet_db_scheme \<Rightarrow> (nat \<times> 'a wallet_db_scheme) res" where
  "expire_row E now row state =
     (case state of (changed, db) \<Rightarrow>
        res_bind (parse_time (bo_expires_at row)) (\<lambda>expiry.
          if dt_micros expiry \<le> dt_micros now
          then res_bind (set_bounty_status E row ''expired'' ''expiry'' ''system'' db) (\<lambda>db1. Inr (Suc changed, db1))
          else Inr (changed, db)))"

definition maintain_expired_bounties ::
    "env \<Rightarrow> string \<Rightarrow> nat \<Rightarrow> 'a wallet_db_scheme \<Rightarrow> (nat \<times> 'a wallet_db_scheme) res" where
  "maintain_expired_bounties E subject_id limit db =
     (if limit < 1 \<or> 1000 < limit then Inl (ValueError ''invalid bounty expiry maintenance limit'')
      else
        let (t, db1) = utc_now E db
        in res_bind (parse_time t) (\<lambda>now.
             let rows = take limit (fetchall_by (\<lambda>r. bo_subject_id r = subject_id \<and> bo_status r \<in> set open_statuses
                    \<and> bo_expires_at r \<le> isoformat now) (\<lambda>r. (bo_expires_at r, bo_bounty_id r)) (wallet_bounties db1))
             in res_fold (expire_row E now) rows (0, db1)))"

section \<open>Payment policies\<close>

definition policy_values :: "string \<Rightarrow> payment_policy_input \<Rightarrow> int \<Rightarrow> string \<Rightarrow> policy_row" where
  "policy_values sid p version now =
     \<lparr>po_subject_id = sid, po_mode = pi_mode p,
      po_allowed_network_ids_json = canonical_json (json_texts (pi_allowed_network_ids p)),
      po_allowed_asset_ids_json = canonical_json (json_texts (pi_allowed_asset_ids p)),
      po_per_order_limit = pi_per_order_limit p, po_daily_limit = pi_daily_limit p,
      po_monthly_limit = pi_monthly_limit p, po_daily_order_limit = pi_daily_order_limit p,
      po_monthly_order_limit = pi_monthly_order_limit p, po_min_balance = pi_min_balance p,
      po_max_observation_age_seconds = pi_max_observation_age_seconds p,
      po_automatic_max_amount = pi_automatic_max_amount p, po_anomaly_block = pi_anomaly_block p,
      po_emergency_paused = pi_emergency_paused p, po_automation_enabled = (pi_automation_enabled p = Some True),
      po_recipient_allowlist_enabled = pi_recipient_allowlist_enabled p,
      po_allowed_recipient_addresses_json = canonical_json (json_texts (pi_allowed_recipient_addresses p)),
      po_policy_version = version, po_updated_at = now, po_state_hash = ''''\<rparr>"

text \<open>\<open>INSERT OR REPLACE\<close>: a policy of the subject is deleted and the new one is appended.\<close>

definition replace_policy :: "policy_row \<Rightarrow> 'a wallet_db_scheme \<Rightarrow> ('a wallet_db_scheme) res" where
  "replace_policy r db =
     (if po_mode r \<notin> set payment_modes \<or> po_daily_order_limit r < 0 \<or> po_monthly_order_limit r < 0
         \<or> po_max_observation_age_seconds r < 0 \<or> po_policy_version r \<le> 0
      then Inl (check_error ''wallet_payment_policies'')
      else if po_subject_id r \<notin> set (subject_identity db) then Inl foreign_key_error
      else Inr (db\<lparr>wallet_payment_policies :=
             filter (\<lambda>x. po_subject_id x \<noteq> po_subject_id r) (wallet_payment_policies db) @ [r]\<rparr>))"

definition insert_policy ::
    "env \<Rightarrow> string \<Rightarrow> payment_policy_input \<Rightarrow> int \<Rightarrow> string \<Rightarrow> 'a wallet_db_scheme \<Rightarrow> ('a wallet_db_scheme) res" where
  "insert_policy E sid p version now db =
     (let r = policy_values sid p version now
      in res_bind (wallet_payment_policy_state_hash E r) (\<lambda>h. replace_policy (r\<lparr>po_state_hash := h\<rparr>) db))"

definition get_policy :: "string \<Rightarrow> 'a wallet_db_scheme \<Rightarrow> policy_record res" where
  "get_policy subject_id db =
     res_bind (validate_subject_id subject_id) (\<lambda>_.
       case subject_policy subject_id db of
         None \<Rightarrow> Inl (IntegrityError (''wallet payment policy is missing: '' @ subject_id))
       | Some r \<Rightarrow> policy_from_row r)"

text \<open>\<open>json_extract(payload_json, '$.key') = value\<close>, and \<open>dict.get\<close>, for a text value.\<close>

definition json_field :: "string \<Rightarrow> json \<Rightarrow> json" where
  "json_field key v =
     (case v of JObj kvs \<Rightarrow> (case map_of kvs key of None \<Rightarrow> JNull | Some w \<Rightarrow> w) | _ \<Rightarrow> JNull)"

definition text_field_is :: "string \<Rightarrow> string \<Rightarrow> string \<Rightarrow> bool" where
  "text_field_is payload key value =
     (case strict_json_loads payload of Inl _ \<Rightarrow> False | Inr v \<Rightarrow> json_field key v = JStr value)"

text \<open>
  An automation request is a mapping of texts with an idempotency key and a request digest:
  a repeated key with the same digest returns the policy as it is.
\<close>

definition replayed_request ::
    "string \<Rightarrow> (string \<times> string) list \<Rightarrow> policy_row option \<Rightarrow> 'a wallet_db_scheme \<Rightarrow> policy_record option res" where
  "replayed_request subject_id request row db =
     (case (map_of request ''idempotency_key'', map_of request ''request_digest'') of
        (Some key, Some digest) \<Rightarrow>
          (case fetchone (\<lambda>a. au_subject_id a = subject_id \<and> au_action a = ''wallet_automation_updated''
                    \<and> text_field_is (au_payload_json a) ''idempotency_key'' key) (audit_records db) of
             None \<Rightarrow> Inr None
           | Some a \<Rightarrow>
               if \<not> text_field_is (au_payload_json a) ''request_digest'' digest
               then Inl (ValueError ''wallet automation idempotency conflict'')
               else (case row of
                  None \<Rightarrow> Inl (IntegrityError ''wallet payment policy is missing'')
                | Some r \<Rightarrow> res_bind (policy_from_row r) (\<lambda>q. Inr (Some q))))
      | _ \<Rightarrow> Inl (KeyError ''automation_request''))"

definition audit_request ::
    "env \<Rightarrow> string \<Rightarrow> string \<Rightarrow> int \<Rightarrow> (string \<times> string) list option \<Rightarrow> 'a wallet_db_scheme \<Rightarrow> ('a wallet_db_scheme) res" where
  "audit_request E subject_id actor version request db =
     (case request of
        None \<Rightarrow> Inr db
      | Some q \<Rightarrow> res_bind (wallet_audit E subject_id ''wallet_automation_updated'' actor
           (map (\<lambda>(k, v). (k, JStr v)) (filter (\<lambda>(k, v). k \<noteq> ''policy_version'') q)
              @ [(''policy_version'', JInt version)]) db) (\<lambda>(_, db1). Inr db1))"

definition write_policy ::
    "env \<Rightarrow> string \<Rightarrow> payment_policy_input \<Rightarrow> int \<Rightarrow> string \<Rightarrow> (string \<times> string) list option
      \<Rightarrow> 'a wallet_db_scheme \<Rightarrow> (policy_record \<times> 'a wallet_db_scheme) res" where
  "write_policy E subject_id p version actor request db =
     (let p = (if pi_automation_enabled p = None
               then p\<lparr>pi_automation_enabled := Some (pi_mode p = ''automatic'')\<rparr> else p);
          (now, db1) = utc_now E db
      in res_bind (insert_policy E subject_id p version now db1) (\<lambda>db2.
         res_bind (wallet_audit E subject_id ''wallet_payment_policy_updated'' actor
           [(''policy_version'', JInt version), (''mode'', JStr (pi_mode p))] db2) (\<lambda>(_, db3).
         res_bind (audit_request E subject_id actor version request db3) (\<lambda>db4.
           case subject_policy subject_id db4 of
             None \<Rightarrow> Inl (TypeError ''row is None'')
           | Some r \<Rightarrow> res_bind (policy_from_row r) (\<lambda>q. Inr (q, db4))))))"

definition update_policy ::
    "env \<Rightarrow> bool \<Rightarrow> string \<Rightarrow> payment_policy_input \<Rightarrow> int \<Rightarrow> string \<Rightarrow> (string \<times> string) list option
      \<Rightarrow> 'a wallet_db_scheme \<Rightarrow> (policy_record \<times> 'a wallet_db_scheme) res" where
  "update_policy E evidence subject_id p expected_version actor request db =
     res_bind (operator_name actor) (\<lambda>actor.
     res_bind (validate_subject_id subject_id) (\<lambda>_.
     if expected_version < 1 then Inl (ValueError ''invalid policy version'')
     else res_bind (if pi_mode p = ''automatic''
           then res_bind (parse_py_int (pi_per_order_limit p)) (\<lambda>single.
                if single \<le> 0 then Inr True
                else res_bind (parse_py_int (pi_daily_limit p)) (\<lambda>daily. Inr (daily \<le> 0)))
           else Inr False) (\<lambda>missing.
     if missing then Inl (ValueError ''automatic payment requires per-order and daily amount limits'')
     else
       let row = subject_policy subject_id db
       in res_bind (case request of None \<Rightarrow> Inr None | Some q \<Rightarrow> replayed_request subject_id q row db) (\<lambda>replay.
          case replay of
            Some record \<Rightarrow> Inr (record, db)
          | None \<Rightarrow>
              let current = (case row of None \<Rightarrow> 1 | Some r \<Rightarrow> po_policy_version r)
              in if expected_version \<noteq> current then Inl (ValueError ''wallet payment policy version conflict'')
                 else if pi_mode p = ''automatic'' \<and> pi_automation_enabled p \<noteq> Some False
                      \<and> \<not> pi_emergency_paused p \<and> \<not> evidence
                 then Inl (ValueError ''production_release_evidence_required'')
                 else write_policy E subject_id p (current + 1) actor request db))))"

section \<open>Orders of accepted submissions\<close>

definition new_order ::
    "env \<Rightarrow> string \<Rightarrow> submission_record \<Rightarrow> bounty_row \<Rightarrow> policy_row option \<Rightarrow> string \<Rightarrow> string \<Rightarrow> order_row" where
  "new_order E order_id s bounty policy audit_id now =
     (let r = \<lparr>or_order_id = order_id, or_subject_id = sr_subject_id s, or_bounty_id = sr_bounty_id s,
               or_submission_id = sr_submission_id s, or_network_id = bo_network_id bounty,
               or_asset_id = bo_asset_id bounty, or_recipient_address = sr_recipient_address s,
               or_amount = bo_reward_amount bounty,
               or_payment_mode = (case policy of None \<Rightarrow> ''disabled'' | Some p \<Rightarrow> po_mode p),
               or_policy_version = (case policy of None \<Rightarrow> 1 | Some p \<Rightarrow> po_policy_version p),
               or_idempotency_key = sr_bounty_id s @ '':'' @ sr_submission_id s, or_authorized_at = None,
               or_created_audit_id = audit_id, or_last_audit_id = audit_id, or_status = ''pending_policy'',
               or_state_hash = '''', or_created_at = now, or_updated_at = now\<rparr>
      in r\<lparr>or_state_hash := order_state_hash E r\<rparr>)"

definition settle_new_order ::
    "env \<Rightarrow> bool \<Rightarrow> order_row \<Rightarrow> policy_row option \<Rightarrow> 'a wallet_db_scheme \<Rightarrow> ('a wallet_db_scheme) res" where
  "settle_new_order E evidence row policy db =
     (if or_payment_mode row = ''disabled''
      then transition_order E row ''rejected'' ''system'' ''payment policy disabled'' db
      else if or_payment_mode row = ''conditional_confirmation''
      then transition_order E row ''awaiting_confirmation'' ''system'' ''confirmation required'' db
      else res_bind (policy_allows E evidence row policy None db) (\<lambda>(ok, db1).
        if \<not> ok then transition_order E row ''rejected'' ''system'' ''payment policy denied'' db1
        else reserve_order E evidence row ''system'' db1))"

definition ensure_order ::
    "env \<Rightarrow> bool \<Rightarrow> submission_record \<Rightarrow> 'a wallet_db_scheme \<Rightarrow> ('a wallet_db_scheme) res" where
  "ensure_order E evidence s db =
     (case fetchone (\<lambda>r. or_submission_id r = sr_submission_id s) (wallet_payment_orders db) of
        Some _ \<Rightarrow> Inr db
      | None \<Rightarrow>
          let bounty = fetchone (\<lambda>r. bo_bounty_id r = sr_bounty_id s) (wallet_bounties db);
              policy = subject_policy (sr_subject_id s) db;
              (order_id, db1) = new_id E ''payorder'' db;
              (now, db2) = utc_now E db1
          in (case bounty of
                None \<Rightarrow> Inl (TypeError ''row is None'')
              | Some b \<Rightarrow>
                  res_bind (wallet_audit E (sr_subject_id s) ''wallet_payment_order_created'' ''system''
                    [(''submission_id'', JStr (sr_submission_id s)), (''amount'', JStr (bo_reward_amount b))] db2)
                  (\<lambda>(audit_id, db3).
                    let row = new_order E order_id s b policy audit_id now
                    in res_bind (insert_order row db3) (settle_new_order E evidence row policy))))"

section \<open>Submissions\<close>

definition submission_input_matches :: "submission_row \<Rightarrow> submission_input \<Rightarrow> bool res" where
  "submission_input_matches row p =
     (if su_counterparty row = si_counterparty p \<and> su_content row = si_content p
      then res_bind (strict_json_loads (su_evidence_json row)) (\<lambda>v.
        Inr (v = json_texts (si_evidence p) \<and> su_recipient_address row = si_recipient_address p
             \<and> su_consent_version row = si_consent_version p))
      else Inr False)"

definition submission_payload :: "string \<Rightarrow> string \<Rightarrow> string \<Rightarrow> submission_input \<Rightarrow> (string \<times> json) list" where
  "submission_payload sid bounty_id subject_id p =
     [(''submission_id'', JStr sid), (''bounty_id'', JStr bounty_id), (''subject_id'', JStr subject_id),
      (''counterparty'', JStr (si_counterparty p)), (''content'', JStr (si_content p)),
      (''evidence'', json_texts (si_evidence p)), (''recipient_address'', JStr (si_recipient_address p)),
      (''idempotency_key'', JStr (si_idempotency_key p)), (''consent_version'', JInt (si_consent_version p))]"

definition new_submission ::
    "env \<Rightarrow> string \<Rightarrow> string \<Rightarrow> string \<Rightarrow> submission_input \<Rightarrow> string \<Rightarrow> string \<Rightarrow> submission_row" where
  "new_submission E sid bounty_id subject_id p audit_id now =
     (let r = \<lparr>su_submission_id = sid, su_bounty_id = bounty_id, su_subject_id = subject_id,
               su_counterparty = si_counterparty p, su_content = si_content p,
               su_evidence_json = canonical_json (json_texts (si_evidence p)),
               su_recipient_address = si_recipient_address p, su_idempotency_key = si_idempotency_key p,
               su_consent_version = si_consent_version p, su_status = ''submitted'', su_decision_reason = None,
               su_created_at = now, su_decided_at = None, su_state_hash = '''', su_created_audit_id = audit_id,
               su_decision_audit_id = None\<rparr>
      in r\<lparr>su_state_hash := wallet_submission_state_hash E r\<rparr>)"

definition read_submission ::
    "string \<Rightarrow> 'a wallet_db_scheme \<Rightarrow> (submission_record \<times> 'a wallet_db_scheme) res" where
  "read_submission sid db =
     (case fetchone (\<lambda>r. su_submission_id r = sid) (wallet_bounty_submissions db) of
        None \<Rightarrow> Inl (TypeError ''row is None'')
      | Some r \<Rightarrow> res_bind (submission_from_row r) (\<lambda>s. Inr (s, db)))"

definition submit_to_bounty ::
    "env \<Rightarrow> string \<Rightarrow> string \<Rightarrow> submission_input \<Rightarrow> 'a wallet_db_scheme
      \<Rightarrow> (submission_record \<times> 'a wallet_db_scheme) res" where
  "submit_to_bounty E bounty_id subject_id p db =
     res_bind (validate_subject_id subject_id) (\<lambda>_.
       let (now, db1) = utc_now E db
       in res_bind (find_bounty bounty_id subject_id db1) (\<lambda>bounty.
          case fetchone (\<lambda>r. su_subject_id r = subject_id \<and> su_bounty_id r = bounty_id
                  \<and> su_idempotency_key r = si_idempotency_key p) (wallet_bounty_submissions db1) of
            Some existing \<Rightarrow>
              res_bind (submission_input_matches existing p) (\<lambda>same.
                if \<not> same then Inl (ValueError ''submission idempotency key conflicts with different input'')
                else res_bind (submission_from_row existing) (\<lambda>s. Inr (s, db1)))
          | None \<Rightarrow>
              res_bind (effective_bounty_status E bounty db1) (\<lambda>(status, db2).
              res_bind (if status \<noteq> bo_status bounty
                   then res_bind (set_bounty_status E bounty ''expired'' ''expiry'' ''system'' db2)
                          (\<lambda>db3. Inr (''expired'', db3))
                   else Inr (status, db2)) (\<lambda>(status, db4).
              res_bind (if status \<noteq> ''published'' then Inr True
                   else res_bind (parse_time now) (\<lambda>t.
                        res_bind (parse_time (bo_opens_at bounty)) (\<lambda>opens.
                          Inr (dt_micros t < dt_micros opens)))) (\<lambda>shut.
              if shut then Inl (ValueError ''bounty is not accepting submissions'')
              else if int (count_where (\<lambda>r. su_bounty_id r = bounty_id \<and> su_status r \<in> {''submitted'', ''accepted''})
                     (wallet_bounty_submissions db4)) \<ge> bo_max_submissions bounty
              then Inl (ValueError ''bounty submission limit reached'')
              else
                let (sid, db5) = new_id E ''submission'' db4
                in res_bind (wallet_audit E subject_id ''wallet_bounty_submission_created'' ''visitor''
                     (submission_payload sid bounty_id subject_id p) db5) (\<lambda>(audit_id, db6).
                   res_bind (insert_submission (new_submission E sid bounty_id subject_id p audit_id now) db6)
                     (read_submission sid)))))))"

text \<open>The guarded update of a decision: a submission leaves \<open>submitted\<close> once.\<close>

definition decided_submission ::
    "env \<Rightarrow> string \<Rightarrow> string \<Rightarrow> string \<Rightarrow> string \<Rightarrow> submission_row \<Rightarrow> submission_row" where
  "decided_submission E target reason audit_id now row =
     row\<lparr>su_status := target, su_decision_reason := Some reason, su_decided_at := Some now,
         su_decision_audit_id := Some audit_id,
         su_state_hash := wallet_submission_state_hash E (row\<lparr>su_status := target, su_decision_reason := Some reason\<rparr>)\<rparr>"

definition update_submission ::
    "env \<Rightarrow> submission_row \<Rightarrow> string \<Rightarrow> string \<Rightarrow> string \<Rightarrow> string \<Rightarrow> 'a wallet_db_scheme
      \<Rightarrow> ('a wallet_db_scheme) res" where
  "update_submission E row target reason audit_id now db =
     (let new = decided_submission E target reason audit_id now row
      in res_bind (update_guarded submission_trigger_allows ''wallet submission transition is invalid''
           (\<lambda>r. su_submission_id r = su_submission_id row)
           (\<lambda>r. r\<lparr>su_status := su_status new, su_decision_reason := su_decision_reason new,
                  su_decided_at := su_decided_at new, su_decision_audit_id := su_decision_audit_id new,
                  su_state_hash := su_state_hash new\<rparr>)
           (wallet_bounty_submissions db)) (\<lambda>t. Inr (db\<lparr>wallet_bounty_submissions := t\<rparr>)))"

definition find_submission :: "string \<Rightarrow> string \<Rightarrow> 'a wallet_db_scheme \<Rightarrow> submission_row res" where
  "find_submission submission_id subject_id db =
     (case fetchone (\<lambda>r. su_submission_id r = submission_id \<and> su_subject_id r = subject_id)
             (wallet_bounty_submissions db) of
        None \<Rightarrow> Inl (NotFoundError ''wallet submission not found'')
      | Some r \<Rightarrow> Inr r)"

definition accepted_count :: "string \<Rightarrow> 'a wallet_db_scheme \<Rightarrow> nat" where
  "accepted_count bounty_id db =
     count_where (\<lambda>r. su_bounty_id r = bounty_id \<and> su_status r = ''accepted'') (wallet_bounty_submissions db)"

definition decide_submission_connection ::
    "env \<Rightarrow> bool \<Rightarrow> string \<Rightarrow> string \<Rightarrow> bool \<Rightarrow> string \<Rightarrow> string \<Rightarrow> 'a wallet_db_scheme
      \<Rightarrow> (submission_record \<times> 'a wallet_db_scheme) res" where
  "decide_submission_connection E evidence submission_id subject_id accepted reason actor db =
     res_bind (find_submission submission_id subject_id db) (\<lambda>row.
       if su_status row \<noteq> ''submitted'' then Inl (InvalidTransitionError ''submission already decided'')
       else
         (case fetchone (\<lambda>b. bo_bounty_id b = su_bounty_id row \<and> bo_subject_id b = subject_id) (wallet_bounties db) of
            None \<Rightarrow> Inl (IntegrityError ''submission bounty reference is invalid'')
          | Some bounty \<Rightarrow>
              if accepted \<and> int (accepted_count (su_bounty_id row) db) \<ge> bo_reward_slots bounty
              then Inl (ValueError ''bounty reward slots are exhausted'')
              else
                let target = (if accepted then ''accepted'' else ''rejected'');
                    (now, db1) = utc_now E db
                in res_bind (wallet_audit E subject_id (''wallet_submission_'' @ target) actor
                     [(''submission_id'', JStr submission_id), (''from'', JStr ''submitted''),
                      (''to'', JStr target), (''reason'', JStr reason)] db1) (\<lambda>(audit_id, db2).
                   res_bind (update_submission E row target reason audit_id now db2) (\<lambda>db3.
                   res_bind (read_submission submission_id db3) (\<lambda>(result, db4).
                     if accepted then res_bind (ensure_order E evidence result db4) (\<lambda>db5. Inr (result, db5))
                     else Inr (result, db4))))))"

definition decide_submission ::
    "env \<Rightarrow> bool \<Rightarrow> string \<Rightarrow> string \<Rightarrow> bool \<Rightarrow> string \<Rightarrow> string \<Rightarrow> 'a wallet_db_scheme
      \<Rightarrow> (submission_record \<times> 'a wallet_db_scheme) res" where
  "decide_submission E evidence submission_id subject_id accepted reason actor db =
     res_bind (operator_name actor) (\<lambda>actor.
     res_bind (validate_subject_id subject_id) (\<lambda>_.
       let reason = py_strip reason
       in if reason = [] \<or> length reason > 2000 then Inl (ValueError ''submission decision reason is invalid'')
          else decide_submission_connection E evidence submission_id subject_id accepted reason actor db))"

definition withdraw_submission ::
    "env \<Rightarrow> string \<Rightarrow> string \<Rightarrow> string \<Rightarrow> 'a wallet_db_scheme \<Rightarrow> (submission_record \<times> 'a wallet_db_scheme) res" where
  "withdraw_submission E submission_id subject_id actor db =
     res_bind (validate_subject_id subject_id) (\<lambda>_.
     res_bind (find_submission submission_id subject_id db) (\<lambda>row.
       if su_status row \<noteq> ''submitted'' then Inl (InvalidTransitionError ''submission cannot be withdrawn'')
       else
         let (now, db1) = utc_now E db
         in res_bind (wallet_audit E subject_id ''wallet_submission_withdrawn'' actor
              [(''submission_id'', JStr submission_id), (''from'', JStr ''submitted''), (''to'', JStr ''withdrawn'')] db1)
              (\<lambda>(audit_id, db2).
            res_bind (update_submission E row ''withdrawn'' ''withdrawn'' audit_id now db2)
              (read_submission submission_id))))"

section \<open>Reading orders\<close>

definition list_orders :: "string \<Rightarrow> nat \<Rightarrow> 'a wallet_db_scheme \<Rightarrow> payment_order list res" where
  "list_orders subject_id limit db =
     (if limit < 1 \<or> 1000 < limit then Inl (ValueError ''invalid order limit'')
      else Inr (map order_from_row (take limit (rev (fetchall_by (\<lambda>r. or_subject_id r = subject_id)
        (\<lambda>r. (or_created_at r, or_order_id r)) (wallet_payment_orders db))))))"

definition order_for_submission :: "string \<Rightarrow> string \<Rightarrow> 'a wallet_db_scheme \<Rightarrow> payment_order option res" where
  "order_for_submission submission_id subject_id db =
     res_bind (validate_subject_id subject_id) (\<lambda>_.
       Inr (map_option order_from_row
         (fetchone (\<lambda>r. or_submission_id r = submission_id \<and> or_subject_id r = subject_id) (wallet_payment_orders db))))"

section \<open>The catalog\<close>

text \<open>
  What the economy promises a bounty's participants depends on the submissions and on the
  columns of bounties and orders that never change: the catalog.
\<close>

definition bounty_identity :: "bounty_row \<Rightarrow> bounty_row" where
  "bounty_identity r = r\<lparr>bo_status := '''', bo_state_hash := '''', bo_last_audit_id := '''', bo_updated_at := ''''\<rparr>"

definition order_identity :: "order_row \<Rightarrow> order_row" where
  "order_identity r = r\<lparr>or_status := '''', or_authorized_at := None, or_updated_at := '''', or_last_audit_id := '''',
     or_state_hash := ''''\<rparr>"

definition catalog :: "'a wallet_db_scheme \<Rightarrow> bounty_row list \<times> submission_row list \<times> order_row list" where
  "catalog db = (map bounty_identity (wallet_bounties db), wallet_bounty_submissions db,
     map order_identity (wallet_payment_orders db))"

definition order_fits :: "bounty_row list \<Rightarrow> submission_row list \<Rightarrow> order_row \<Rightarrow> bool" where
  "order_fits bs ss r =
     (\<exists>s\<in>set ss. \<exists>b\<in>set bs. su_submission_id s = or_submission_id r \<and> su_status s = ''accepted''
        \<and> su_bounty_id s = or_bounty_id r \<and> su_subject_id s = or_subject_id r
        \<and> su_recipient_address s = or_recipient_address r
        \<and> bo_bounty_id b = or_bounty_id r \<and> bo_subject_id b = or_subject_id r
        \<and> bo_network_id b = or_network_id r \<and> bo_asset_id b = or_asset_id r \<and> bo_reward_amount b = or_amount r)"

definition catalog_ok :: "bounty_row list \<times> submission_row list \<times> order_row list \<Rightarrow> bool" where
  "catalog_ok c = (case c of (bs, ss, os) \<Rightarrow>
     distinct (map bo_bounty_id bs) \<and> distinct (map su_submission_id ss) \<and> distinct (map or_submission_id os)
     \<and> (\<forall>s\<in>set ss. \<exists>b\<in>set bs. bo_bounty_id b = su_bounty_id s \<and> bo_subject_id b = su_subject_id s)
     \<and> (\<forall>s\<in>set ss. su_status s = ''accepted'' \<longrightarrow> su_submission_id s \<in> or_submission_id ` set os)
     \<and> (\<forall>r\<in>set os. order_fits bs ss r)
     \<and> (\<forall>b\<in>set bs. int (count_where (\<lambda>s. su_bounty_id s = bo_bounty_id b \<and> su_status s = ''accepted'') ss)
          \<le> bo_reward_slots b
        \<and> int (count_where (\<lambda>s. su_bounty_id s = bo_bounty_id b \<and> su_status s \<in> {''submitted'', ''accepted''}) ss)
          \<le> bo_max_submissions b))"

lemma map_identity_update:
  "(\<And>r. g (f r) = g r) \<Longrightarrow> map g (update_where p f t) = map g t"
  by (rule map_update_where)

text \<open>Frames: moving a bounty or an order, posting to the ledger and updating the policy keep the catalog.\<close>

lemma transition_order_catalog:
  "transition_order E row target actor reason db = Inr db' \<Longrightarrow> catalog db' = catalog db"
  by (auto simp: transition_order_def utc_now_def Let_def update_guarded_Inr catalog_def order_identity_def
      split: if_splits elim!: wallet_audit_frame intro!: map_identity_update)

lemma post_order_journal_catalog:
  "post_order_journal E row jtype first second db = Inr db' \<Longrightarrow> catalog db' = catalog db"
  by (erule post_order_journal_effect) (simp add: catalog_def)

lemma set_bounty_status_catalog:
  "set_bounty_status E row target reason actor db = Inr db' \<Longrightarrow> catalog db' = catalog db"
  by (auto simp: set_bounty_status_def utc_now_def Let_def update_guarded_Inr catalog_def bounty_identity_def
      elim!: wallet_audit_frame intro!: map_identity_update)

lemma policy_allows_catalog:
  "policy_allows E evidence row policy exclude db = Inr (ok, db') \<Longrightarrow> catalog db' = catalog db"
  by (erule policy_allows_frame) (simp add: catalog_def)

lemma effective_bounty_status_catalog:
  "effective_bounty_status E row db = Inr (status, db') \<Longrightarrow> catalog db' = catalog db"
  by (auto simp: effective_bounty_status_def utc_now_def Let_def catalog_def split: if_splits)

lemma wallet_audit_catalog:
  "wallet_audit E sid action actor payload db = Inr (aid, db') \<Longrightarrow> catalog db' = catalog db"
  by (erule wallet_audit_frame) (simp add: catalog_def)

lemmas catalog_frames = transition_order_catalog post_order_journal_catalog set_bounty_status_catalog
  policy_allows_catalog effective_bounty_status_catalog wallet_audit_catalog

lemma reserve_order_catalog: "reserve_order E evidence row actor db = Inr db' \<Longrightarrow> catalog db' = catalog db"
  by (auto simp: reserve_order_def split: if_splits dest!: catalog_frames)

lemma order_operations_catalog:
  "confirm_order E evidence oid sid actor db = Inr (rec, db') \<Longrightarrow> catalog db' = catalog db"
  "reject_order E oid sid actor reason db = Inr (rec, db') \<Longrightarrow> catalog db' = catalog db"
  "cancel_order E oid sid actor reason db = Inr (rec, db') \<Longrightarrow> catalog db' = catalog db"
  "refund_order E oid sid actor reason db = Inr (rec, db') \<Longrightarrow> catalog db' = catalog db"
  by (auto simp: confirm_order_def reject_order_def cancel_order_def refund_order_def release_order_def read_back_def
      Let_def split: if_splits dest!: catalog_frames reserve_order_catalog)

lemma transition_bounty_catalog:
  "transition_bounty E bid sid target actor db = Inr (rec, db') \<Longrightarrow> catalog db' = catalog db"
  by (auto simp: transition_bounty_def read_bounty_def split: if_splits option.splits dest!: catalog_frames)

lemma insert_policy_catalog: "insert_policy E sid p v now db = Inr db' \<Longrightarrow> catalog db' = catalog db"
  by (auto simp: insert_policy_def replace_policy_def Let_def catalog_def split: if_splits)

lemma counters_catalog [simp]: "catalog (db\<lparr>ticks := n\<rparr>) = catalog db" "catalog (db\<lparr>fresh_ids := n\<rparr>) = catalog db"
  by (simp_all add: catalog_def)

lemma write_policy_catalog:
  assumes "write_policy E sid p v actor request db = Inr (rec, db')"
  shows "catalog db' = catalog db"
proof -
  obtain q now db2 aid db3 where "insert_policy E sid q v now (db\<lparr>ticks := Suc (ticks db)\<rparr>) = Inr db2"
    and "wallet_audit E sid ''wallet_payment_policy_updated'' actor
       [(''policy_version'', JInt v), (''mode'', JStr (pi_mode q))] db2 = Inr (aid, db3)"
    and "audit_request E sid actor v request db3 = Inr db'"
    using assms unfolding write_policy_def utc_now_def Let_def prod.case res_bind_Inr_iff
    by (auto split: option.splits)
  from insert_policy_catalog [OF this(1)] wallet_audit_catalog [OF this(2)] this(3) show ?thesis
    by (auto simp: audit_request_def split: option.splits dest!: wallet_audit_catalog)
qed

lemma update_policy_catalog:
  "update_policy E evidence sid p v actor request db = Inr (rec, db') \<Longrightarrow> catalog db' = catalog db"
  by (auto simp: update_policy_def Let_def split: if_splits option.splits dest!: write_policy_catalog)

lemma expire_row_catalog: "expire_row E now row (n, db) = Inr (m, db') \<Longrightarrow> catalog db' = catalog db"
  by (auto simp: expire_row_def split: if_splits dest!: catalog_frames)

lemma maintain_catalog:
  assumes "maintain_expired_bounties E sid limit db = Inr (n, db')"
  shows "catalog db' = catalog db"
proof -
  obtain now rows where "res_fold (expire_row E now) rows (0, db\<lparr>ticks := Suc (ticks db)\<rparr>) = Inr (n, db')"
    using assms by (auto simp: maintain_expired_bounties_def utc_now_def Let_def split: if_splits)
  then have "catalog (snd (n, db')) = catalog (db\<lparr>ticks := Suc (ticks db)\<rparr>)"
    by (rule res_fold_invariant [where P = "\<lambda>s. catalog (snd s) = catalog (db\<lparr>ticks := Suc (ticks db)\<rparr>)"])
      (auto dest!: expire_row_catalog)
  then show ?thesis by (simp add: catalog_def)
qed

section \<open>The operations keep the catalog sound\<close>

text \<open>Rows of a sound catalog, and the parts of soundness the steps below use.\<close>

lemma identity_simps [simp]:
  "bo_bounty_id (bounty_identity b) = bo_bounty_id b" "bo_subject_id (bounty_identity b) = bo_subject_id b"
  "bo_network_id (bounty_identity b) = bo_network_id b" "bo_asset_id (bounty_identity b) = bo_asset_id b"
  "bo_reward_amount (bounty_identity b) = bo_reward_amount b" "bo_reward_slots (bounty_identity b) = bo_reward_slots b"
  "bo_max_submissions (bounty_identity b) = bo_max_submissions b"
  "or_submission_id (order_identity r) = or_submission_id r" "or_bounty_id (order_identity r) = or_bounty_id r"
  "or_subject_id (order_identity r) = or_subject_id r" "or_network_id (order_identity r) = or_network_id r"
  "or_asset_id (order_identity r) = or_asset_id r" "or_amount (order_identity r) = or_amount r"
  "or_recipient_address (order_identity r) = or_recipient_address r" "or_order_id (order_identity r) = or_order_id r"
  by (simp_all add: bounty_identity_def order_identity_def)

lemma order_fits_mono: "order_fits bs ss r \<Longrightarrow> set bs \<subseteq> set bs' \<Longrightarrow> set ss \<subseteq> set ss' \<Longrightarrow> order_fits bs' ss' r"
  unfolding order_fits_def by (meson subsetD)

lemma count_where_none: "(\<And>s. s \<in> set t \<Longrightarrow> \<not> p s) \<Longrightarrow> count_where p t = 0"
  by (simp add: count_where_def filter_empty_conv)

definition accepted_in :: "string \<Rightarrow> submission_row \<Rightarrow> bool" where
  "accepted_in i s = (su_bounty_id s = i \<and> su_status s = ''accepted'')"

definition active_in :: "string \<Rightarrow> submission_row \<Rightarrow> bool" where
  "active_in i s = (su_bounty_id s = i \<and> su_status s \<in> {''submitted'', ''accepted''})"

definition bounty_bounds :: "submission_row list \<Rightarrow> bounty_row \<Rightarrow> bool" where
  "bounty_bounds ss b = (int (count_where (accepted_in (bo_bounty_id b)) ss) \<le> bo_reward_slots b
     \<and> int (count_where (active_in (bo_bounty_id b)) ss) \<le> bo_max_submissions b)"

definition submission_fits :: "bounty_row list \<Rightarrow> order_row list \<Rightarrow> submission_row \<Rightarrow> bool" where
  "submission_fits bs os s = ((\<exists>b\<in>set bs. bo_bounty_id b = su_bounty_id s \<and> bo_subject_id b = su_subject_id s)
     \<and> (su_status s = ''accepted'' \<longrightarrow> su_submission_id s \<in> or_submission_id ` set os))"

lemma submission_fits_mono: "submission_fits bs os s \<Longrightarrow> set bs \<subseteq> set bs' \<Longrightarrow> set os \<subseteq> set os' \<Longrightarrow> submission_fits bs' os' s"
  unfolding submission_fits_def by (meson image_mono subsetD)

lemma catalog_ok_iff:
  "catalog_ok (bs, ss, os) \<longleftrightarrow> distinct (map bo_bounty_id bs) \<and> distinct (map su_submission_id ss)
     \<and> distinct (map or_submission_id os) \<and> (\<forall>s\<in>set ss. submission_fits bs os s)
     \<and> (\<forall>r\<in>set os. order_fits bs ss r) \<and> (\<forall>b\<in>set bs. bounty_bounds ss b)"
  unfolding catalog_ok_def prod.case submission_fits_def bounty_bounds_def accepted_in_def active_in_def by blast

lemma order_fits_single: "order_fits bs ss r \<longleftrightarrow> (\<exists>s\<in>set ss. order_fits bs [s] r)"
  by (simp add: order_fits_def)

lemma order_fits_accepted: "order_fits bs [s] r \<Longrightarrow> su_status s = ''accepted'' \<and> su_submission_id s = or_submission_id r"
  by (auto simp: order_fits_def)

lemma catalog_ok_bounty:
  assumes "catalog_ok (bs, ss, os)" "bo_bounty_id b \<notin> bo_bounty_id ` set bs" "0 \<le> bo_reward_slots b" "0 \<le> bo_max_submissions b"
  shows "catalog_ok (bs @ [b], ss, os)"
proof -
  have "su_bounty_id s \<noteq> bo_bounty_id b" if "s \<in> set ss" for s
    using assms(1,2) that unfolding catalog_ok_iff submission_fits_def by (metis imageI)
  then have "count_where (accepted_in (bo_bounty_id b)) ss = 0" "count_where (active_in (bo_bounty_id b)) ss = 0"
    by (auto intro!: count_where_none simp: accepted_in_def active_in_def)
  with assms(3,4) have "bounty_bounds ss b" by (simp add: bounty_bounds_def)
  moreover have "\<forall>s\<in>set ss. submission_fits (bs @ [b]) os s" "\<forall>r\<in>set os. order_fits (bs @ [b]) ss r"
    using assms(1) submission_fits_mono [of bs os _ "bs @ [b]" os] order_fits_mono [of bs ss _ "bs @ [b]" ss]
    by (simp_all add: catalog_ok_iff subset_insertI)
  ultimately show ?thesis using assms(1,2) by (simp add: catalog_ok_iff)
qed

lemma catalog_ok_submission:
  assumes "catalog_ok (bs, ss, os)" "su_submission_id s \<notin> su_submission_id ` set ss" "su_status s = ''submitted''"
    and b: "b \<in> set bs" "bo_bounty_id b = su_bounty_id s" "bo_subject_id b = su_subject_id s"
    and "int (count_where (active_in (su_bounty_id s)) ss) < bo_max_submissions b"
  shows "catalog_ok (bs, ss @ [s], os)"
proof -
  have "bounty_bounds (ss @ [s]) b'" if "b' \<in> set bs" for b'
  proof (cases "bo_bounty_id b' = su_bounty_id s")
    case True
    then have "b' = b" using distinct_key_eq [of bo_bounty_id bs b' b] assms(1) b that by (simp add: catalog_ok_iff)
    moreover have "bounty_bounds ss b" using assms(1) b(1) by (simp add: catalog_ok_iff)
    ultimately show ?thesis
      using assms(3,7) b by (simp add: bounty_bounds_def table_simps accepted_in_def [of _ s] active_in_def [of _ s])
  next
    case False
    then show ?thesis
      using assms(1) that by (simp add: catalog_ok_iff bounty_bounds_def table_simps accepted_in_def [of _ s] active_in_def [of _ s])
  qed
  moreover have "submission_fits bs os s" using b assms(3) by (auto simp: submission_fits_def)
  moreover have "\<forall>r\<in>set os. order_fits bs (ss @ [s]) r"
    using assms(1) order_fits_mono [of bs ss _ bs "ss @ [s]"] by (simp add: catalog_ok_iff subset_insertI)
  ultimately show ?thesis using assms(1,2) by (simp add: catalog_ok_iff)
qed

text \<open>A submission leaves \<open>submitted\<close> without being accepted.\<close>

lemma count_where_update:
  assumes "distinct (map k t)" "r \<in> set t"
  shows "count_where q (update_where (\<lambda>x. k x = k r) f t) + (if q r then 1 else 0)
       = count_where q t + (if q (f r) then 1 else 0)"
  using assms
proof (induction t)
  case (Cons x t)
  show ?case
  proof (cases "x = r")
    case True
    with Cons.prems(1) have "update_where (\<lambda>y. k y = k r) f t = t"
      by (intro update_where_none) (metis distinct.simps(2) imageI list.simps(9) list.set_map)
    with True show ?thesis by auto
  next
    case False
    with Cons.prems have "r \<in> set t" "k x \<noteq> k r" by auto
    with Cons show ?thesis by auto
  qed
qed simp

lemma set_update_key:
  assumes "distinct (map k t)" "r \<in> set t"
  shows "set (update_where (\<lambda>x. k x = k r) f t) = insert (f r) (set t - {r})"
proof -
  have "k x = k r \<longleftrightarrow> x = r" if "x \<in> set t" for x using distinct_key_eq [OF assms(1) that assms(2)] by blast
  then have "update_where (\<lambda>x. k x = k r) f t = map (\<lambda>x. if x = r then f r else x) t"
    by (simp add: update_where_def)
  then show ?thesis using assms(2) by auto
qed

lemma catalog_ok_decide:
  assumes ok: "catalog_ok (bs, ss, os)" and row: "row \<in> set ss" "su_status row = ''submitted''"
    and f: "\<And>s. su_submission_id (f s) = su_submission_id s" "su_bounty_id (f row) = su_bounty_id row"
      "su_subject_id (f row) = su_subject_id row" "su_status (f row) \<notin> {''submitted'', ''accepted''}"
  shows "catalog_ok (bs, update_where (\<lambda>s. su_submission_id s = su_submission_id row) f ss, os)"
proof -
  let ?u = "update_where (\<lambda>s. su_submission_id s = su_submission_id row) f ss"
  have d: "distinct (map su_submission_id ss)" using ok by (simp add: catalog_ok_iff)
  note set_u = set_update_key [OF d row(1), of f]
  have "map su_submission_id ?u = map su_submission_id ss" by (rule map_update_where) (rule f(1))
  moreover have "order_fits bs ?u r" if h: "order_fits bs ss r" for r
  proof -
    obtain s where "s \<in> set ss" "su_status s = ''accepted''" "order_fits bs [s] r"
      using h order_fits_single [of bs ss r] order_fits_accepted by blast
    with row(2) have "set [s] \<subseteq> set ?u" unfolding set_u by auto
    with \<open>order_fits bs [s] r\<close> show ?thesis by (rule order_fits_mono [OF _ subset_refl])
  qed
  moreover have "bounty_bounds ?u b" if "bounty_bounds ss b" for b
    using count_where_update [OF d row(1), of "accepted_in (bo_bounty_id b)" f]
      count_where_update [OF d row(1), of "active_in (bo_bounty_id b)" f] that row(2) f(4)
    by (auto simp: bounty_bounds_def accepted_in_def [of _ "f row"] active_in_def [of _ "f row"]
        accepted_in_def [of _ row] split: if_splits)
  moreover have "submission_fits bs os (f row)"
    using ok row f unfolding catalog_ok_iff submission_fits_def by (metis insertCI)
  ultimately show ?thesis using ok unfolding catalog_ok_iff set_u by (simp add: d)
qed

lemma undecided_no_order:
  assumes ok: "catalog_ok (bs, ss, os)" and row: "row \<in> set ss" "su_status row = ''submitted''" and q: "q \<in> set os"
  shows "or_submission_id q \<noteq> su_submission_id row"
proof
  assume e: "or_submission_id q = su_submission_id row"
  have d: "distinct (map su_submission_id ss)" using ok by (simp add: catalog_ok_iff)
  obtain x where x: "x \<in> set ss" "order_fits bs [x] q"
    using ok q order_fits_single [of bs ss q] by (auto simp: catalog_ok_iff)
  then have "x = row" using distinct_key_eq [OF d x(1) row(1)] order_fits_accepted [OF x(2)] e by simp
  with order_fits_accepted [OF x(2)] row(2) show False by simp
qed

text \<open>A submission is accepted and its order is inserted.\<close>

lemma catalog_ok_accept:
  assumes ok: "catalog_ok (bs, ss, os)" and row: "row \<in> set ss" "su_status row = ''submitted''"
    and f: "\<And>s. su_submission_id (f s) = su_submission_id s" "su_bounty_id (f row) = su_bounty_id row"
      "su_subject_id (f row) = su_subject_id row" "su_status (f row) = ''accepted''"
    and b: "b \<in> set bs" "bo_bounty_id b = su_bounty_id row"
      "int (count_where (accepted_in (su_bounty_id row)) ss) < bo_reward_slots b"
    and r: "or_submission_id r = su_submission_id row" "order_fits bs [f row] r"
  shows "catalog_ok (bs, update_where (\<lambda>s. su_submission_id s = su_submission_id row) f ss, os @ [r])"
proof -
  let ?u = "update_where (\<lambda>s. su_submission_id s = su_submission_id row) f ss"
  have d: "distinct (map su_submission_id ss)" using ok by (simp add: catalog_ok_iff)
  note set_u = set_update_key [OF d row(1), of f]
  have ids: "map su_submission_id ?u = map su_submission_id ss" by (rule map_update_where) (rule f(1))
  have keep: "x \<noteq> row \<and> order_fits bs [x] q" if "order_fits bs [x] q" for x q
    using order_fits_accepted [OF that] that row(2) by auto
  have fits: "order_fits bs ?u q" if "order_fits bs ss q" for q
    using that unfolding order_fits_single [of bs ss] order_fits_single [of bs ?u] set_u using keep by blast
  have "or_submission_id q \<noteq> su_submission_id row" if q: "q \<in> set os" for q
    using undecided_no_order [OF ok row] q by simp
  then have fresh: "distinct (map or_submission_id (os @ [r]))" using ok r(1) by (simp add: catalog_ok_iff image_iff) metis
  have "bounty_bounds ?u b'" if b': "b' \<in> set bs" for b'
  proof -
    have bb: "bounty_bounds ss b'" using ok b' by (simp add: catalog_ok_iff)
    have "b' = b" if "bo_bounty_id b' = su_bounty_id row"
      using distinct_key_eq [of bo_bounty_id bs b' b] ok b b' that by (simp add: catalog_ok_iff)
    with bb b(3) count_where_update [OF d row(1), of "accepted_in (bo_bounty_id b')" f]
      count_where_update [OF d row(1), of "active_in (bo_bounty_id b')" f] row(2) f(2,4) show ?thesis
      by (cases "bo_bounty_id b' = su_bounty_id row")
        (simp_all add: bounty_bounds_def accepted_in_def [of _ "f row"] active_in_def [of _ "f row"]
          accepted_in_def [of _ row] active_in_def [of _ row])
  qed
  moreover have "\<forall>s\<in>set ?u. submission_fits bs (os @ [r]) s"
  proof -
    have "submission_fits bs (os @ [r]) s" if "s \<in> set ss" for s
      using ok that submission_fits_mono [of bs os s bs "os @ [r]"] by (simp add: catalog_ok_iff subset_insertI)
    moreover have "submission_fits bs (os @ [r]) (f row)"
      using ok row(1) f r(1) by (auto simp: catalog_ok_iff submission_fits_def)
    ultimately show ?thesis unfolding set_u by simp
  qed
  moreover have "order_fits bs ?u r" using r(2) order_fits_single [of bs ?u r] unfolding set_u by blast
  ultimately show ?thesis using ok ids fresh fits d by (simp add: catalog_ok_iff)
qed

lemma create_bounty_catalog:
  assumes "catalog_ok (catalog db)" "create_bounty E sid p actor db = Inr (rec, db')"
  shows "catalog_ok (catalog db')"
proof -
  have "catalog db' = catalog db \<or> (\<exists>db3 b. catalog db3 = catalog db \<and> insert_bounty b db3 = Inr db')"
    using assms(2) by (auto simp: create_bounty_def utc_now_def new_id_def Let_def read_bounty_def
        split: if_splits option.splits dest!: wallet_audit_catalog)
  then show ?thesis
  proof
    assume "\<exists>db3 b. catalog db3 = catalog db \<and> insert_bounty b db3 = Inr db'"
    then obtain db3 b where c: "catalog db3 = catalog db" and i: "insert_bounty b db3 = Inr db'" by blast
    from i have "catalog db' = (map bounty_identity (wallet_bounties db3) @ [bounty_identity b],
        wallet_bounty_submissions db3, map order_identity (wallet_payment_orders db3))"
      and n: "bo_bounty_id b \<notin> bo_bounty_id ` set (wallet_bounties db3)" "1 \<le> bo_max_submissions b" "1 \<le> bo_reward_slots b"
      by (auto simp: insert_bounty_def catalog_def split: if_splits)
    moreover have "catalog_ok (map bounty_identity (wallet_bounties db3) @ [bounty_identity b],
        wallet_bounty_submissions db3, map order_identity (wallet_payment_orders db3))"
      using assms(1) [folded c] n by (intro catalog_ok_bounty) (auto simp: catalog_def image_image)
    ultimately show ?thesis by simp
  qed (use assms(1) in simp)
qed

lemma find_bounty_Inr:
  "find_bounty bid sid db = Inr b \<Longrightarrow> b \<in> set (wallet_bounties db) \<and> bo_bounty_id b = bid \<and> bo_subject_id b = sid"
  by (auto simp: find_bounty_def split: option.splits dest: fetchone_Some)

lemma find_submission_Inr:
  "find_submission i sid db = Inr s \<Longrightarrow> s \<in> set (wallet_bounty_submissions db) \<and> su_submission_id s = i \<and> su_subject_id s = sid"
  by (auto simp: find_submission_def split: option.splits dest: fetchone_Some)

lemma catalog_rows:
  "catalog db' = catalog db \<Longrightarrow> wallet_bounty_submissions db' = wallet_bounty_submissions db
     \<and> map bounty_identity (wallet_bounties db') = map bounty_identity (wallet_bounties db)
     \<and> map order_identity (wallet_payment_orders db') = map order_identity (wallet_payment_orders db)"
  by (simp add: catalog_def)

lemma submit_cases:
  assumes "submit_to_bounty E bid sid p db = Inr (rec, db')"
  obtains (replay) "catalog db' = catalog db"
    | (fresh) db6 b s where "catalog db6 = catalog db" "b \<in> set (wallet_bounties db)" "bo_bounty_id b = bid" "bo_subject_id b = sid"
      "su_status s = ''submitted''" "su_bounty_id s = bid" "su_subject_id s = sid" "insert_submission s db6 = Inr db'"
      "int (count_where (active_in bid) (wallet_bounty_submissions db)) < bo_max_submissions b"
proof -
  obtain b where b: "find_bounty bid sid (db\<lparr>ticks := Suc (ticks db)\<rparr>) = Inr b"
    using assms by (auto simp: submit_to_bounty_def utc_now_def Let_def)
  show thesis
  proof (cases "fetchone (\<lambda>r. su_subject_id r = sid \<and> su_bounty_id r = bid
                  \<and> su_idempotency_key r = si_idempotency_key p) (wallet_bounty_submissions db)")
    case (Some x)
    with assms b show thesis
      by (intro replay) (auto simp: submit_to_bounty_def utc_now_def Let_def split: if_splits)
  next
    case None
    define now where "now = env_clock E (ticks db)"
    obtain db4 sub aid db6 where c: "catalog db4 = catalog db"
      and n: "int (count_where (\<lambda>r. su_bounty_id r = bid \<and> su_status r \<in> {''submitted'', ''accepted''})
                     (wallet_bounty_submissions db4)) < bo_max_submissions b"
      and a: "wallet_audit E sid ''wallet_bounty_submission_created'' ''visitor''
                (submission_payload sub bid sid p) (db4\<lparr>fresh_ids := Suc (fresh_ids db4)\<rparr>) = Inr (aid, db6)"
      and i: "insert_submission (new_submission E sub bid sid p aid now) db6 = Inr db'"
      using assms b None unfolding submit_to_bounty_def utc_now_def new_id_def Let_def prod.case read_submission_def now_def
      by (auto split: if_splits option.splits dest!: set_bounty_status_catalog effective_bounty_status_catalog)
    have "wallet_bounty_submissions db4 = wallet_bounty_submissions db" using catalog_rows [OF c] by simp
    with n have "int (count_where (active_in bid) (wallet_bounty_submissions db)) < bo_max_submissions b"
      by (simp add: active_in_def [abs_def])
    moreover have "catalog db6 = catalog db" using wallet_audit_catalog [OF a] c by simp
    ultimately show thesis
      using find_bounty_Inr [OF b] i by (intro fresh) (auto simp: new_submission_def Let_def)
  qed
qed

lemma submit_catalog:
  assumes ok: "catalog_ok (catalog db)" and "submit_to_bounty E bid sid p db = Inr (rec, db')"
  shows "catalog_ok (catalog db')"
  using assms(2)
proof (cases rule: submit_cases)
  case (fresh db6 b s)
  have c: "catalog db = (map bounty_identity (wallet_bounties db6), wallet_bounty_submissions db6,
      map order_identity (wallet_payment_orders db6))"
    using fresh(1) by (simp add: catalog_def)
  have "bounty_identity b \<in> set (map bounty_identity (wallet_bounties db6))"
    using fresh(2) catalog_rows [OF fresh(1)] by (metis image_eqI list.set_map)
  moreover have "su_submission_id s \<notin> su_submission_id ` set (wallet_bounty_submissions db6)"
    and "catalog db' = (map bounty_identity (wallet_bounties db6), wallet_bounty_submissions db6 @ [s],
      map order_identity (wallet_payment_orders db6))"
    using fresh(8) by (auto simp: insert_submission_def catalog_def split: if_splits)
  ultimately show ?thesis
    using fresh catalog_rows [OF fresh(1)] ok [unfolded c]
    by (auto intro!: catalog_ok_submission [where b = "bounty_identity b"])
qed (use ok in simp)

text \<open>The effect of a decision on the submissions.\<close>

definition decides :: "(submission_row \<Rightarrow> submission_row) \<Rightarrow> string \<Rightarrow> submission_row \<Rightarrow> bool" where
  "decides f target s = (su_submission_id (f s) = su_submission_id s \<and> su_bounty_id (f s) = su_bounty_id s
     \<and> su_subject_id (f s) = su_subject_id s \<and> su_status (f s) = target
     \<and> su_recipient_address (f s) = su_recipient_address s \<and> su_evidence_json (f s) = su_evidence_json s)"

lemma decidesD:
  assumes "\<forall>s. decides f target s"
  shows "su_submission_id (f s) = su_submission_id s" "su_bounty_id (f s) = su_bounty_id s"
    "su_subject_id (f s) = su_subject_id s" "su_status (f s) = target"
    "su_recipient_address (f s) = su_recipient_address s" "su_evidence_json (f s) = su_evidence_json s"
  using assms by (simp_all add: decides_def)

lemma update_submission_effect:
  assumes "update_submission E row target reason aid now db = Inr db'"
  obtains f where "db' = db\<lparr>wallet_bounty_submissions :=
       update_where (\<lambda>s. su_submission_id s = su_submission_id row) f (wallet_bounty_submissions db)\<rparr>"
    "\<forall>s. decides f target s"
  using assms by (auto simp: update_submission_def update_guarded_Inr decided_submission_def decides_def Let_def)

lemma withdraw_catalog:
  assumes ok: "catalog_ok (catalog db)" and "withdraw_submission E i sid actor db = Inr (rec, db')"
  shows "catalog_ok (catalog db')"
proof -
  obtain row aid db2 where row: "find_submission i sid db = Inr row" "su_status row = ''submitted''"
    and a: "wallet_audit E sid ''wallet_submission_withdrawn'' actor
              [(''submission_id'', JStr i), (''from'', JStr ''submitted''), (''to'', JStr ''withdrawn'')]
              (db\<lparr>ticks := Suc (ticks db)\<rparr>) = Inr (aid, db2)"
    and u: "update_submission E row ''withdrawn'' ''withdrawn'' aid (env_clock E (ticks db)) db2 = Inr db'"
    using assms(2) by (auto simp: withdraw_submission_def utc_now_def Let_def read_submission_def
        split: if_splits option.splits)
  have c: "catalog db2 = catalog db" using wallet_audit_catalog [OF a] by simp
  note r = catalog_rows [OF c]
  obtain f where fu: "db' = db2\<lparr>wallet_bounty_submissions :=
       update_where (\<lambda>s. su_submission_id s = su_submission_id row) f (wallet_bounty_submissions db2)\<rparr>" and df: "\<forall>s. decides f ''withdrawn'' s"
    using u by (rule update_submission_effect)
  note f = fu decidesD [OF df]
  show ?thesis
    using catalog_ok_decide [of "map bounty_identity (wallet_bounties db2)" "wallet_bounty_submissions db2" 
        "map order_identity (wallet_payment_orders db2)" row f] ok c find_submission_Inr [OF row(1)] r row(2) f
    by (simp add: catalog_def)
qed

lemma new_order_simps [simp]:
  "or_order_id (new_order E i s b p a now) = i" "or_subject_id (new_order E i s b p a now) = sr_subject_id s"
  "or_bounty_id (new_order E i s b p a now) = sr_bounty_id s" "or_submission_id (new_order E i s b p a now) = sr_submission_id s"
  "or_network_id (new_order E i s b p a now) = bo_network_id b" "or_asset_id (new_order E i s b p a now) = bo_asset_id b"
  "or_recipient_address (new_order E i s b p a now) = sr_recipient_address s"
  "or_amount (new_order E i s b p a now) = bo_reward_amount b" "or_status (new_order E i s b p a now) = ''pending_policy''"
  "or_payment_mode (new_order E i s b p a now) = (case p of None \<Rightarrow> ''disabled'' | Some p \<Rightarrow> po_mode p)"
  by (simp_all add: new_order_def Let_def)

lemma settle_new_order_catalog:
  "settle_new_order E evidence row policy db = Inr db' \<Longrightarrow> catalog db' = catalog db"
  by (auto simp: settle_new_order_def split: if_splits dest!: catalog_frames reserve_order_catalog)

text \<open>The tables the ledger invariant reads; all but the decisions leave them alone.\<close>

definition accounts ::
    "'a wallet_db_scheme \<Rightarrow> order_row list \<times> journal_row list \<times> entry_row list \<times> execution_row list \<times> attempt_row list" where
  "accounts db = (wallet_payment_orders db, wallet_ledger_journals db, wallet_ledger_entries db,
     wallet_payment_executions db, wallet_payment_execution_attempts db)"

lemma ensure_order_cases:
  assumes "ensure_order E evidence s db = Inr db'"
  obtains (present) "db' = db" "\<exists>r\<in>set (wallet_payment_orders db). or_submission_id r = sr_submission_id s"
    | (created) b i aid now db3 db4 where "b \<in> set (wallet_bounties db)" "bo_bounty_id b = sr_bounty_id s"
      "catalog db3 = catalog db" "accounts db3 = accounts db"
      "insert_order (new_order E i s b (subject_policy (sr_subject_id s) db) aid now) db3 = Inr db4"
      "settle_new_order E evidence (new_order E i s b (subject_policy (sr_subject_id s) db) aid now)
         (subject_policy (sr_subject_id s) db) db4 = Inr db'"
proof (cases "fetchone (\<lambda>r. or_submission_id r = sr_submission_id s) (wallet_payment_orders db)")
  case (Some r)
  with assms fetchone_Some [OF Some] show thesis by (intro present) (auto simp: ensure_order_def)
next
  case None
  then obtain b i aid now db3 db4 where b: "fetchone (\<lambda>r. bo_bounty_id r = sr_bounty_id s) (wallet_bounties db) = Some b"
    and a: "wallet_audit E (sr_subject_id s) ''wallet_payment_order_created'' ''system''
         [(''submission_id'', JStr (sr_submission_id s)), (''amount'', JStr (bo_reward_amount b))]
         (db\<lparr>fresh_ids := Suc (fresh_ids db), ticks := Suc (ticks db)\<rparr>) = Inr (aid, db3)"
    and i: "insert_order (new_order E i s b (subject_policy (sr_subject_id s) db) aid now) db3 = Inr db4"
      "settle_new_order E evidence (new_order E i s b (subject_policy (sr_subject_id s) db) aid now)
         (subject_policy (sr_subject_id s) db) db4 = Inr db'"
    using assms by (auto simp: ensure_order_def utc_now_def new_id_def Let_def split: option.splits)
  show thesis
    by (rule wallet_audit_frame [OF a]) (use fetchone_Some [OF b] i in \<open>auto intro!: created [of b db3 i aid now db4] simp: catalog_def accounts_def\<close>)
qed

lemma ensure_order_catalog:
  assumes "ensure_order E evidence s db = Inr db'"
    and "\<forall>r\<in>set (wallet_payment_orders db). or_submission_id r \<noteq> sr_submission_id s"
  obtains b r where "b \<in> set (wallet_bounties db)" "bo_bounty_id b = sr_bounty_id s"
    "or_submission_id r = sr_submission_id s" "or_bounty_id r = sr_bounty_id s" "or_subject_id r = sr_subject_id s"
    "or_recipient_address r = sr_recipient_address s" "or_network_id r = bo_network_id b" "or_asset_id r = bo_asset_id b"
    "or_amount r = bo_reward_amount b"
    "catalog db' = (map bounty_identity (wallet_bounties db), wallet_bounty_submissions db,
       map order_identity (wallet_payment_orders db) @ [order_identity r])"
  using assms(1)
proof (cases rule: ensure_order_cases)
  case (created b i aid now db3 db4)
  show thesis
    by (rule that [OF created(1,2), where r = "new_order E i s b (subject_policy (sr_subject_id s) db) aid now"])
      (use settle_new_order_catalog [OF created(6)] created(5) catalog_rows [OF created(3)] in
        \<open>auto simp: insert_order_def catalog_def split: if_splits\<close>)
qed (use assms(2) in auto)

lemma decide_submission_Inr:
  assumes "decide_submission E evidence i sid accepted reason actor db = Inr r"
  obtains why act where "decide_submission_connection E evidence i sid accepted why act db = Inr r"
  using assms by (auto simp: decide_submission_def Let_def split: if_splits)

lemma decide_effect:
  assumes "decide_submission_connection E evidence i sid accepted reason actor db = Inr (rec, db')"
  defines "target \<equiv> if accepted then ''accepted'' else ''rejected''"
  obtains row b act why aid db2 db3 where "find_submission i sid db = Inr row" "su_status row = ''submitted''"
    "fetchone (\<lambda>b. bo_bounty_id b = su_bounty_id row \<and> bo_subject_id b = sid) (wallet_bounties db) = Some b"
    "accepted \<longrightarrow> int (accepted_count (su_bounty_id row) db) < bo_reward_slots b"
    "wallet_audit E sid (''wallet_submission_'' @ target) act
       [(''submission_id'', JStr i), (''from'', JStr ''submitted''),
        (''to'', JStr target), (''reason'', JStr why)] (db\<lparr>ticks := Suc (ticks db)\<rparr>) = Inr (aid, db2)"
    "update_submission E row target why aid (env_clock E (ticks db)) db2 = Inr db3"
    "read_submission i db3 = Inr (rec, db3)"
    "(if accepted then ensure_order E evidence rec db3 else Inr db3) = Inr db'"
  using assms(1) unfolding decide_submission_connection_def utc_now_def Let_def prod.case target_def
  by (auto simp: read_submission_def not_le split: if_splits option.splits)

lemma decide_catalog:
  assumes ok: "catalog_ok (catalog db)"
    and "decide_submission_connection E evidence i sid accepted reason actor db = Inr (rec, db')"
  shows "catalog_ok (catalog db')"
proof -
  let ?target = "if accepted then ''accepted'' else ''rejected''"
  obtain row b act why aid db2 db3 where row: "find_submission i sid db = Inr row" "su_status row = ''submitted''"
    and b: "fetchone (\<lambda>b. bo_bounty_id b = su_bounty_id row \<and> bo_subject_id b = sid) (wallet_bounties db) = Some b"
      "accepted \<longrightarrow> int (accepted_count (su_bounty_id row) db) < bo_reward_slots b"
    and a: "wallet_audit E sid (''wallet_submission_'' @ ?target) act
                     [(''submission_id'', JStr i), (''from'', JStr ''submitted''),
                      (''to'', JStr ?target), (''reason'', JStr why)] (db\<lparr>ticks := Suc (ticks db)\<rparr>) = Inr (aid, db2)"
    and u: "update_submission E row ?target why aid (env_clock E (ticks db)) db2 = Inr db3"
    and e: "read_submission i db3 = Inr (rec, db3)"
      "(if accepted then ensure_order E evidence rec db3 else Inr db3) = Inr db'"
    using assms(2) by (rule decide_effect)
  have c: "catalog db2 = catalog db" using wallet_audit_catalog [OF a] by simp
  note r = catalog_rows [OF c]
  obtain f where fu: "db3 = db2\<lparr>wallet_bounty_submissions :=
       update_where (\<lambda>s. su_submission_id s = su_submission_id row) f (wallet_bounty_submissions db2)\<rparr>" and df: "\<forall>s. decides f ?target s"
    using u by (rule update_submission_effect)
  note f = fu decidesD [OF df]
  let ?bs = "map bounty_identity (wallet_bounties db)" and ?ss = "wallet_bounty_submissions db"
    and ?os = "map order_identity (wallet_payment_orders db)"
  have ok': "catalog_ok (?bs, ?ss, ?os)" using ok by (simp add: catalog_def)
  have row': "row \<in> set ?ss" "su_submission_id row = i" "su_subject_id row = sid" using find_submission_Inr [OF row(1)] by auto
  show ?thesis
  proof (cases accepted)
    case False
    have "catalog db' = (?bs, update_where (\<lambda>s. su_submission_id s = su_submission_id row) f ?ss, ?os)"
    proof -
      have "db' = db3" using e(2) False by simp
      then show ?thesis unfolding f(1) catalog_def using r by simp
    qed
    then show ?thesis using catalog_ok_decide [OF ok' row'(1) row(2), of f] f False by simp
  next
    case True
    have d: "distinct (map su_submission_id ?ss)" using ok' by (simp add: catalog_ok_iff)
    have "fetchone (\<lambda>s. su_submission_id s = i) ?ss = Some row" using fetchone_key [OF d row'(1)] row'(2) by simp
    then have "fetchone (\<lambda>s. su_submission_id s = i) (wallet_bounty_submissions db3) = Some (f row)"
      unfolding f(1) using fetchone_update_where [of "\<lambda>s. su_submission_id s = su_submission_id row" "\<lambda>s. su_submission_id s = i" f] f(2) row'(2) r
      by simp
    then have s: "submission_from_row (f row) = Inr rec" using e(1) by (auto simp: read_submission_def)
    then have rec: "sr_submission_id rec = i" "sr_bounty_id rec = su_bounty_id row" "sr_subject_id rec = sid"
      "sr_recipient_address rec = su_recipient_address row"
      using f row' by (auto simp: submission_from_row_def)
    have "\<forall>q\<in>set (wallet_payment_orders db3). or_submission_id q \<noteq> sr_submission_id rec"
      using undecided_no_order [OF ok' row'(1) row(2)] r rec row'(2) f(1) by (simp, metis identity_simps(8) image_eqI set_map)
    then obtain b2 q where q: "b2 \<in> set (wallet_bounties db3)" "bo_bounty_id b2 = sr_bounty_id rec"
      "or_submission_id q = sr_submission_id rec" "or_bounty_id q = sr_bounty_id rec" "or_subject_id q = sr_subject_id rec"
      "or_recipient_address q = sr_recipient_address rec" "or_network_id q = bo_network_id b2" "or_asset_id q = bo_asset_id b2"
      "or_amount q = bo_reward_amount b2"
      "catalog db' = (map bounty_identity (wallet_bounties db3), wallet_bounty_submissions db3,
         map order_identity (wallet_payment_orders db3) @ [order_identity q])"
      using ensure_order_catalog [of E evidence rec db3 db'] e(2) True by auto
    have b': "bounty_identity b \<in> set ?bs" "bo_bounty_id b = su_bounty_id row" "bo_subject_id b = sid"
      using fetchone_Some [OF b(1)] by auto
    have "bounty_identity b2 \<in> set ?bs" using q(1) r f(1) by (simp, metis image_eqI set_map)
    moreover have "distinct (map bo_bounty_id ?bs)" using ok' by (simp only: catalog_ok_iff)
    ultimately have "bounty_identity b2 = bounty_identity b"
      using distinct_key_eq [of bo_bounty_id ?bs] b' q(2) rec(2) by simp
    then have b2: "bo_network_id b2 = bo_network_id b" "bo_asset_id b2 = bo_asset_id b" "bo_reward_amount b2 = bo_reward_amount b"
      by (metis identity_simps(3-5))+
    have "order_fits ?bs [f row] (order_identity q)"
      unfolding order_fits_def by (rule bexI [of _ "f row"], rule bexI [OF _ b'(1)])
        (use q rec b' b2 f True row' in simp_all)
    moreover have "catalog db' = (?bs, update_where (\<lambda>s. su_submission_id s = su_submission_id row) f ?ss, ?os @ [order_identity q])"
      using q(10) f(1) r by simp
    moreover have "int (count_where (accepted_in (su_bounty_id row)) ?ss) < bo_reward_slots (bounty_identity b)"
      using b(2) True by (simp add: accepted_count_def accepted_in_def [abs_def])
    ultimately show ?thesis
      using catalog_ok_accept [OF ok' row'(1) row(2), of f "bounty_identity b" "order_identity q"] f True b' q(3) rec(1) row'(2)
      by simp
  qed
qed

section \<open>The operations keep the ledger\<close>

lemma accounts_ledger: "accounts db' = accounts db \<Longrightarrow> ledger_inv rg db' = ledger_inv rg db"
  by (rule books_inv_cong(2)) (simp_all add: accounts_def)

lemma counters_accounts [simp]: "accounts (db\<lparr>ticks := n\<rparr>) = accounts db" "accounts (db\<lparr>fresh_ids := n\<rparr>) = accounts db"
  by (simp_all add: accounts_def)

lemma wallet_audit_accounts:
  "wallet_audit E sid action actor payload db = Inr (aid, db') \<Longrightarrow> accounts db' = accounts db"
  by (erule wallet_audit_frame) (simp add: accounts_def)

lemma set_bounty_status_accounts:
  "set_bounty_status E row target reason actor db = Inr db' \<Longrightarrow> accounts db' = accounts db"
  by (auto simp: set_bounty_status_def utc_now_def Let_def update_guarded_Inr accounts_def elim!: wallet_audit_frame)

lemma effective_bounty_status_accounts:
  "effective_bounty_status E row db = Inr (status, db') \<Longrightarrow> accounts db' = accounts db"
  by (auto simp: effective_bounty_status_def utc_now_def Let_def split: if_splits)

lemma inserts_accounts:
  "insert_bounty b db = Inr db' \<Longrightarrow> accounts db' = accounts db"
  "insert_submission s db = Inr db' \<Longrightarrow> accounts db' = accounts db"
  "insert_policy E sid p v now db = Inr db' \<Longrightarrow> accounts db' = accounts db"
  "update_submission E row target reason aid now db = Inr db' \<Longrightarrow> accounts db' = accounts db"
  by (auto simp: insert_bounty_def insert_submission_def insert_policy_def replace_policy_def update_submission_def
      Let_def accounts_def split: if_splits)

lemmas accounts_frames = wallet_audit_accounts set_bounty_status_accounts effective_bounty_status_accounts inserts_accounts

lemma create_bounty_accounts:
  "create_bounty E sid p actor db = Inr (rec, db') \<Longrightarrow> accounts db' = accounts db"
  by (auto simp: create_bounty_def utc_now_def new_id_def Let_def read_bounty_def
      split: if_splits option.splits dest!: accounts_frames)

lemma transition_bounty_accounts:
  "transition_bounty E bid sid target actor db = Inr (rec, db') \<Longrightarrow> accounts db' = accounts db"
  by (auto simp: transition_bounty_def read_bounty_def split: if_splits option.splits dest!: accounts_frames)

lemma expire_row_accounts: "expire_row E now row (n, db) = Inr (m, db') \<Longrightarrow> accounts db' = accounts db"
  by (auto simp: expire_row_def split: if_splits dest!: accounts_frames)

lemma maintain_accounts:
  assumes "maintain_expired_bounties E sid limit db = Inr (n, db')"
  shows "accounts db' = accounts db"
proof -
  obtain now rows where "res_fold (expire_row E now) rows (0, db\<lparr>ticks := Suc (ticks db)\<rparr>) = Inr (n, db')"
    using assms by (auto simp: maintain_expired_bounties_def utc_now_def Let_def split: if_splits)
  then have "accounts (snd (n, db')) = accounts db"
    by (rule res_fold_invariant [where P = "\<lambda>s. accounts (snd s) = accounts db"]) (auto dest!: expire_row_accounts)
  then show ?thesis by simp
qed

lemma submit_accounts:
  assumes "submit_to_bounty E bid sid p db = Inr (rec, db')"
  shows "accounts db' = accounts db"
  using assms unfolding submit_to_bounty_def utc_now_def new_id_def Let_def prod.case read_submission_def
  by (auto split: if_splits option.splits dest!: accounts_frames)

lemma withdraw_accounts:
  "withdraw_submission E i sid actor db = Inr (rec, db') \<Longrightarrow> accounts db' = accounts db"
  by (auto simp: withdraw_submission_def utc_now_def Let_def read_submission_def
      split: if_splits option.splits dest!: accounts_frames)

lemma write_policy_accounts:
  assumes "write_policy E sid p v actor request db = Inr (rec, db')"
  shows "accounts db' = accounts db"
proof -
  obtain q now db2 aid db3 where "insert_policy E sid q v now (db\<lparr>ticks := Suc (ticks db)\<rparr>) = Inr db2"
    and "wallet_audit E sid ''wallet_payment_policy_updated'' actor
       [(''policy_version'', JInt v), (''mode'', JStr (pi_mode q))] db2 = Inr (aid, db3)"
    and "audit_request E sid actor v request db3 = Inr db'"
    using assms unfolding write_policy_def utc_now_def Let_def prod.case res_bind_Inr_iff
    by (auto split: option.splits)
  from inserts_accounts(3) [OF this(1)] wallet_audit_accounts [OF this(2)] this(3) show ?thesis
    by (auto simp: audit_request_def split: option.splits dest!: wallet_audit_accounts)
qed

lemma update_policy_accounts:
  "update_policy E evidence sid p v actor request db = Inr (rec, db') \<Longrightarrow> accounts db' = accounts db"
  by (auto simp: update_policy_def Let_def split: if_splits option.splits dest!: write_policy_accounts)

text \<open>A new order has no journals and is decided by the policy at once.\<close>

lemma insert_order_ledger:
  assumes "ledger_inv rg db" "insert_order r db = Inr db'" "or_status r = ''pending_policy''"
  shows "ledger_inv rg db'" "r \<in> set (wallet_payment_orders db')"
proof -
  have n: "or_order_id r \<notin> or_order_id ` set (wallet_payment_orders db)" "sql_amount (or_amount r)"
    and db': "db' = db\<lparr>wallet_payment_orders := wallet_payment_orders db @ [r]\<rparr>"
    using assms(2) by (auto simp: insert_order_def split: if_splits)
  have "jo_order_id j \<noteq> or_order_id r" if "j \<in> set (wallet_ledger_journals db)" for j
    using assms(1) n(1) that unfolding ledger_inv_def books_inv_def journal_matches_def by (metis imageI)
  then have "journals_of (or_order_id r) db = []" by (simp add: journals_of_def filter_empty_conv)
  moreover have "journals_of i db' = journals_of i db" for i by (simp add: journals_of_def db')
  moreover have "books_inv db'" 
    using assms(1) n unfolding ledger_inv_def books_inv_def by (simp add: db')
  ultimately show "ledger_inv rg db'" using assms(1,3) by (simp add: ledger_inv_def db' order_histories_def)
  show "r \<in> set (wallet_payment_orders db')" by (simp add: db')
qed

lemma settle_new_order_ledger:
  assumes "ledger_inv rg db" "row \<in> set (wallet_payment_orders db)" "or_status row = ''pending_policy''"
    "settle_new_order E evidence row policy db = Inr db'"
  shows "ledger_inv rg db'"
proof -
  have t: "ledger_inv rg db2" if "transition_order E row target ''system'' reason db1 = Inr db2"
    "target \<in> {''rejected'', ''awaiting_confirmation''}" "accounts db1 = accounts db" for target reason db1 db2
  proof -
    have "ledger_inv rg db1" "row \<in> set (wallet_payment_orders db1)"
      using that(3) assms(1,2) accounts_ledger [of db1 db] by (auto simp: accounts_def)
    then show ?thesis
      by (rule transition_ledger [OF _ _ that(1)]) (use that(2) assms(3) in \<open>auto simp: order_histories_def\<close>)
  qed
  have r: "ledger_inv rg db2" if "reserve_order E evidence row ''system'' db1 = Inr db2" "db1 = db\<lparr>ticks := n\<rparr>" for db1 db2 n
    by (rule reserve_order_ledger [OF _ _ _ that(1)]) (use that(2) assms accounts_ledger [of db1 db] in auto)
  show ?thesis
    using assms(4) unfolding settle_new_order_def
    by (auto split: if_splits elim!: policy_allows_frame intro: t r)
qed

lemma ensure_order_ledger:
  assumes "ledger_inv rg db" "ensure_order E evidence s db = Inr db'"
  shows "ledger_inv rg db'"
  using assms(2)
proof (cases rule: ensure_order_cases)
  case (created b i aid now db3 db4)
  have "ledger_inv rg db3" using assms(1) accounts_ledger [of db3 db] created(4) by simp
  from insert_order_ledger [OF this created(5)] show ?thesis
    by (rule settle_new_order_ledger [OF _ _ _ created(6)]) simp_all
qed (use assms(1) in simp)

lemma decide_ledger:
  assumes "ledger_inv rg db" "decide_submission_connection E evidence i sid accepted reason actor db = Inr (rec, db')"
  shows "ledger_inv rg db'"
proof -
  obtain row b act why aid db2 db3 where
    "wallet_audit E sid (''wallet_submission_'' @ (if accepted then ''accepted'' else ''rejected'')) act
       [(''submission_id'', JStr i), (''from'', JStr ''submitted''),
        (''to'', JStr (if accepted then ''accepted'' else ''rejected'')), (''reason'', JStr why)]
       (db\<lparr>ticks := Suc (ticks db)\<rparr>) = Inr (aid, db2)"
    "update_submission E row (if accepted then ''accepted'' else ''rejected'') why aid (env_clock E (ticks db)) db2 = Inr db3"
    "(if accepted then ensure_order E evidence rec db3 else Inr db3) = Inr db'"
    using assms(2) by (rule decide_effect)
  then have "accounts db3 = accounts db" "db' = db3 \<or> ensure_order E evidence rec db3 = Inr db'"
    by (auto dest!: accounts_frames split: if_splits)
  then show ?thesis using assms(1) accounts_ledger [of db3 db rg] ensure_order_ledger [of rg db3 E evidence rec db'] by blast
qed

end
