(* ===== verification/WalletTransfer.thy ===== *)
theory WalletTransfer
  imports WalletTypes PyJson
begin

text \<open>
  The fixed transfer envelopes that cross the signer boundary (\<^verbatim>\<open>wallet/execution.py\<close>):
  the canonical quantities and transaction hashes, the validated transfer intent and the
  EVM adapter that turns it into a native transfer or an ERC-20 \<open>transfer(address,uint256)\<close>
  call.  The theorems relate the envelope to a reference decoder of such calls.
\<close>

section \<open>Quantities and hashes\<close>

definition max_uint256 :: int where
  "max_uint256 = 2 ^ 256 - 1"

definition max_gas_limit :: int where
  "max_gas_limit = 30000000"

definition uint :: "string \<Rightarrow> string \<Rightarrow> bool \<Rightarrow> string res" where
  "uint value label positive =
     (if \<not> decimal_pattern 77 value
      then Inl (ValueError (label @ '' must be a canonical unsigned integer string''))
      else if int (nat_of_digits value) > max_uint256 \<or> positive \<and> nat_of_digits value = 0
      then Inl (ValueError (label @ '' is out of range''))
      else Inr value)"

definition hash_pattern :: "string \<Rightarrow> bool" where
  "hash_pattern s = (take 2 s = ''0x'' \<and> length s = 66 \<and> list_all is_hex (drop 2 s))"

definition canonical_tx_hash :: "string \<Rightarrow> string res" where
  "canonical_tx_hash value =
     (if hash_pattern value then Inr (py_lower value) else Inl (ValueError ''wallet transaction hash is invalid''))"

section \<open>Intents\<close>

record transfer_intent =
  ti_order_id :: string
  ti_subject_id :: string
  ti_network_id :: string
  ti_asset_id :: string
  ti_asset_type :: string
  ti_contract_address :: "string option"
  ti_source_address :: string
  ti_recipient_address :: string
  ti_amount :: string
  ti_chain_id :: int
  ti_nonce :: int
  ti_gas_limit :: int
  ti_max_fee_per_gas :: string

definition asset_types :: "string list" where
  "asset_types = [''native'', ''token'']"

definition address_field :: "string \<Rightarrow> string res" where
  "address_field value = res_bind (text_length 42 42 value) (\<lambda>_. canonical_evm_address value)"

definition optional_address :: "string option \<Rightarrow> string option res" where
  "optional_address value =
     (case value of None \<Rightarrow> Inr None | Some v \<Rightarrow> res_bind (address_field v) (\<lambda>w. Inr (Some w)))"

definition amount_value :: "string \<Rightarrow> string res" where
  "amount_value value =
     res_bind (text_length 1 78 value) (\<lambda>_.
     res_bind (canonical_amount value) (\<lambda>v. uint v ''transfer amount'' True))"

definition fee_value :: "string \<Rightarrow> string res" where
  "fee_value value = res_bind (text_length 1 78 value) (\<lambda>_. uint value ''max fee per gas'' True)"

definition intent_shape :: "transfer_intent \<Rightarrow> transfer_intent res" where
  "intent_shape i =
     (if ti_asset_type i = ''native'' \<and> ti_contract_address i \<noteq> None
      then Inl (ValueError ''native transfer cannot contain a token contract'')
      else if ti_asset_type i = ''token'' \<and> ti_contract_address i = None
      then Inl (ValueError ''token transfer requires its registered contract'')
      else if ti_asset_type i = ''token'' \<and> ti_gas_limit i < 50000
      then Inl (ValueError ''token transfer gas limit is too low'')
      else if ti_source_address i = ti_recipient_address i
      then Inl (ValueError ''wallet source and recipient must differ'')
      else Inr i)"

definition validate_transfer_intent :: "transfer_intent \<Rightarrow> transfer_intent res" where
  "validate_transfer_intent i =
     res_bind (res_all (text_length 1 128) [ti_order_id i, ti_subject_id i, ti_network_id i, ti_asset_id i]) (\<lambda>_.
     res_bind (if ti_asset_type i \<in> set asset_types then Inr () else Inl (ValueError ''literal_error'')) (\<lambda>_.
     res_bind (optional_address (ti_contract_address i)) (\<lambda>contract.
     res_bind (address_field (ti_source_address i)) (\<lambda>source.
     res_bind (address_field (ti_recipient_address i)) (\<lambda>recipient.
     res_bind (amount_value (ti_amount i)) (\<lambda>amount.
     res_bind (int_range 1 sqlite_int64_max (ti_chain_id i)) (\<lambda>_.
     res_bind (int_range 0 sqlite_int64_max (ti_nonce i)) (\<lambda>_.
     res_bind (int_range 21000 max_gas_limit (ti_gas_limit i)) (\<lambda>_.
     res_bind (fee_value (ti_max_fee_per_gas i)) (\<lambda>fee.
       intent_shape (i\<lparr>ti_contract_address := contract, ti_source_address := source,
         ti_recipient_address := recipient, ti_amount := amount, ti_max_fee_per_gas := fee\<rparr>)))))))))))"

section \<open>Envelopes\<close>

record unsigned_transfer =
  ut_chain_id :: int
  ut_nonce :: int
  ut_gas_limit :: int
  ut_max_fee_per_gas :: string
  ut_source_address :: string
  ut_to_address :: string
  ut_value :: string
  ut_data :: string
  ut_asset_type :: string
  ut_contract_address :: "string option"

definition quantity :: "string \<Rightarrow> string res" where
  "quantity value = res_bind (text_length 1 78 value) (\<lambda>_. uint value ''transaction quantity'' False)"

definition data_value :: "string \<Rightarrow> string res" where
  "data_value value =
     res_bind (text_length 2 2048 value) (\<lambda>_.
       if \<not> py_startswith value ''0x'' \<or> odd (length value) \<or> \<not> list_all is_hex (drop 2 value)
       then Inl (ValueError ''transaction data is invalid'') else Inr (py_lower value))"

definition transfer_shape :: "unsigned_transfer \<Rightarrow> unsigned_transfer res" where
  "transfer_shape t =
     (if ut_asset_type t = ''native''
      then (if ut_contract_address t \<noteq> None \<or> ut_data t \<noteq> ''0x'' \<or> ut_value t = ''0''
            then Inl (ValueError ''native transfer envelope is invalid'') else Inr t)
      else if ut_contract_address t = None \<or> Some (ut_to_address t) \<noteq> ut_contract_address t
      then Inl (ValueError ''token transfer target is invalid'')
      else if ut_value t \<noteq> ''0'' \<or> length (ut_data t) \<noteq> 138 \<or> \<not> py_startswith (ut_data t) ''0xa9059cbb''
      then Inl (ValueError ''token transfer calldata is not canonical'')
      else Inr t)"

definition validate_unsigned_transfer :: "unsigned_transfer \<Rightarrow> unsigned_transfer res" where
  "validate_unsigned_transfer t =
     res_bind (int_range 1 sqlite_int64_max (ut_chain_id t)) (\<lambda>_.
     res_bind (int_range 0 sqlite_int64_max (ut_nonce t)) (\<lambda>_.
     res_bind (int_range 21000 max_gas_limit (ut_gas_limit t)) (\<lambda>_.
     res_bind (quantity (ut_max_fee_per_gas t)) (\<lambda>fee.
     res_bind (address_field (ut_source_address t)) (\<lambda>source.
     res_bind (address_field (ut_to_address t)) (\<lambda>to_address.
     res_bind (quantity (ut_value t)) (\<lambda>value.
     res_bind (data_value (ut_data t)) (\<lambda>data.
     res_bind (if ut_asset_type t \<in> set asset_types then Inr () else Inl (ValueError ''literal_error'')) (\<lambda>_.
     res_bind (optional_address (ut_contract_address t)) (\<lambda>contract.
       transfer_shape (t\<lparr>ut_max_fee_per_gas := fee, ut_source_address := source, ut_to_address := to_address,
         ut_value := value, ut_data := data, ut_contract_address := contract\<rparr>)))))))))))"

text \<open>\<open>str.rjust\<close>, \<open>removeprefix\<close> and \<open>format(n, '064x')\<close>.\<close>

definition rjust :: "nat \<Rightarrow> char \<Rightarrow> string \<Rightarrow> string" where
  "rjust width fill s = replicate (width - length s) fill @ s"

definition removeprefix :: "string \<Rightarrow> string \<Rightarrow> string" where
  "removeprefix p s = (if prefix p s then drop (length p) s else s)"

fun show_hex :: "nat \<Rightarrow> string" where
  "show_hex n = (if n < 16 then [hex_digit n] else show_hex (n div 16) @ [hex_digit (n mod 16)])"

declare show_hex.simps [simp del]

definition envelope_data :: "transfer_intent \<Rightarrow> string" where
  "envelope_data i = ''0xa9059cbb'' @ rjust 64 (CHR ''0'') (removeprefix ''0x'' (ti_recipient_address i))
     @ rjust 64 (CHR ''0'') (show_hex (nat_of_digits (ti_amount i)))"

definition build :: "transfer_intent \<Rightarrow> unsigned_transfer res" where
  "build i =
     (if ti_asset_type i = ''native''
      then validate_unsigned_transfer
        \<lparr>ut_chain_id = ti_chain_id i, ut_nonce = ti_nonce i, ut_gas_limit = ti_gas_limit i,
         ut_max_fee_per_gas = ti_max_fee_per_gas i, ut_source_address = ti_source_address i,
         ut_to_address = ti_recipient_address i, ut_value = ti_amount i, ut_data = ''0x'',
         ut_asset_type = ''native'', ut_contract_address = None\<rparr>
      else
        (case ti_contract_address i of
           None \<Rightarrow> Inl (AssertionError '''')
         | Some contract \<Rightarrow> validate_unsigned_transfer
             \<lparr>ut_chain_id = ti_chain_id i, ut_nonce = ti_nonce i, ut_gas_limit = ti_gas_limit i,
              ut_max_fee_per_gas = ti_max_fee_per_gas i, ut_source_address = ti_source_address i,
              ut_to_address = contract, ut_value = ''0'', ut_data = envelope_data i,
              ut_asset_type = ''token'', ut_contract_address = Some contract\<rparr>))"

section \<open>The reference decoder\<close>

definition hex_value :: "char \<Rightarrow> nat" where
  "hex_value c = (case hex_val c of None \<Rightarrow> 0 | Some d \<Rightarrow> d)"

definition nat_of_hex :: "string \<Rightarrow> nat" where
  "nat_of_hex s = foldl (\<lambda>n c. 16 * n + hex_value c) 0 s"

text \<open>
  What the chain executes: a native transfer moves the value to the target; a call of
  \<open>transfer\<close> (selector \<open>a9059cbb\<close>) moves the second word to the address in the low twenty
  bytes of the first.
\<close>

definition decoded_transfer :: "unsigned_transfer \<Rightarrow> (string \<times> nat) option" where
  "decoded_transfer t =
     (if ut_asset_type t = ''native'' then Some (ut_to_address t, nat_of_digits (ut_value t))
      else if take 10 (ut_data t) = ''0xa9059cbb'' \<and> length (ut_data t) = 138
      then let word1 = take 64 (drop 10 (ut_data t)); word2 = drop 74 (ut_data t)
           in Some (''0x'' @ drop 24 word1, nat_of_hex word2)
      else None)"

section \<open>Hexadecimal words\<close>

lemma hex_digit_simps:
  assumes "d < 16"
  shows "is_hex (hex_digit d)" "hex_value (hex_digit d) = d" "lower_char (hex_digit d) = hex_digit d"
proof -
  have "(of_char (char_of (48 + d) :: char) :: nat) = 48 + d" "(of_char (char_of (87 + d) :: char) :: nat) = 87 + d"
    using assms by simp_all
  with assms show "is_hex (hex_digit d)" "hex_value (hex_digit d) = d" "lower_char (hex_digit d) = hex_digit d"
    by (auto simp: hex_digit_def is_hex_def is_digit_def hex_value_def hex_val_def lower_char_def is_upper_def Let_def)
qed

lemma nat_of_hex_snoc [simp]: "nat_of_hex (s @ [c]) = 16 * nat_of_hex s + hex_value c"
  by (simp add: nat_of_hex_def)

lemma nat_of_hex_show [simp]: "nat_of_hex (show_hex n) = n"
proof (induction n rule: show_hex.induct)
  case (1 n)
  then show ?case
    by (cases "n < 16") (auto simp: show_hex.simps [of n] hex_digit_simps nat_of_hex_def)
qed

lemma show_hex_hex: "list_all is_hex (show_hex n) \<and> map lower_char (show_hex n) = show_hex n"
proof (induction n rule: show_hex.induct)
  case (1 n)
  then show ?case by (cases "n < 16") (auto simp: show_hex.simps [of n] hex_digit_simps)
qed

lemma length_show_hex: "0 < k \<Longrightarrow> n < 16 ^ k \<Longrightarrow> length (show_hex n) \<le> k"
proof (induction n arbitrary: k rule: show_hex.induct)
  case (1 n)
  show ?case
  proof (cases "n < 16")
    case False
    obtain j where k: "k = Suc j" using "1.prems"(1) by (cases k) auto
    with False "1.prems"(2) have j: "k = Suc j" "0 < j" by (cases j; simp)+
    with "1.prems" have "n div 16 < 16 ^ j" by (simp add: less_mult_imp_div_less mult.commute)
    with "1.IH" [OF False j(2)] False j show ?thesis by (simp add: show_hex.simps [of n])
  qed (use "1.prems" in \<open>simp add: show_hex.simps [of n]\<close>)
qed

lemma nat_of_hex_rjust: "nat_of_hex (rjust w (CHR ''0'') s) = nat_of_hex s"
proof -
  have "foldl (\<lambda>n c. 16 * n + hex_value c) 0 (replicate k (CHR ''0'')) = 0" for k
    by (induction k) (simp_all add: hex_value_def hex_val_def)
  then show ?thesis by (simp add: nat_of_hex_def rjust_def)
qed

lemma length_rjust: "length s \<le> w \<Longrightarrow> length (rjust w c s) = w"
  by (simp add: rjust_def)

section \<open>Envelopes of validated intents\<close>

lemma address_field_normal:
  assumes "address_field v = Inr w"
  shows "address_field w = Inr w" "length w = 42"
  using canonical_evm_address_normal [of v w] assms by (auto simp: address_field_def text_length_def split: if_splits)

lemma address_shape:
  assumes "address_field v = Inr w"
  shows "take 2 w = ''0x''" "list_all is_hex (drop 2 w)" "map lower_char w = w" "length (drop 2 w) = 40"
proof -
  have c: "canonical_evm_address w = Inr w" and l: "length w = 42"
    using address_field_normal [OF assms] by (auto simp: address_field_def)
  then have p: "evm_address_pattern (py_strip w)" "w = py_lower (py_strip w)"
    by (auto simp: canonical_evm_address_def Let_def split: if_splits)
  show "map lower_char w = w" using p(2) by (metis lower_char_idem py_lower_def comp_apply list.map_comp map_eq_conv)
  have "length (py_strip w) = 42" using p(1) by (simp add: evm_address_pattern_def)
  with l have "py_strip w = w"
  proof -
    have "length (dropWhile py_isspace w) \<le> length w" "length (py_strip w) \<le> length (dropWhile py_isspace w)"
      by (simp add: length_dropWhile_le, metis length_dropWhile_le length_rev py_strip_def)
    with \<open>length (py_strip w) = 42\<close> l have e: "length (dropWhile py_isspace w) = length w" by simp
    then have "dropWhile py_isspace w = w" by (metis append_Nil append_eq_conv_conj drop0 dropWhile_eq_drop length_drop diff_is_0_eq' le_refl length_0_conv takeWhile_dropWhile_id append_self_conv2 length_append add_cancel_left_left)
    moreover have "dropWhile py_isspace (rev w) = rev w"
      using \<open>length (py_strip w) = 42\<close> l calculation
      by (metis py_strip_def length_rev dropWhile_eq_drop length_drop takeWhile_dropWhile_id length_append add_cancel_left_left length_0_conv append_self_conv2)
    ultimately show ?thesis by (simp add: py_strip_def)
  qed
  with p(1) show "take 2 w = ''0x''" "list_all is_hex (drop 2 w)" "length (drop 2 w) = 40"
    by (simp_all add: evm_address_pattern_def)
qed

lemma validate_transfer_intent_fields:
  assumes "validate_transfer_intent i = Inr j"
  shows "address_field (ti_source_address i) = Inr (ti_source_address j)"
    "address_field (ti_recipient_address i) = Inr (ti_recipient_address j)"
    "optional_address (ti_contract_address i) = Inr (ti_contract_address j)"
    "amount_value (ti_amount i) = Inr (ti_amount j)" "fee_value (ti_max_fee_per_gas i) = Inr (ti_max_fee_per_gas j)"
    "ti_asset_type j \<in> set asset_types" "int_range 1 sqlite_int64_max (ti_chain_id j) = Inr ()"
    "int_range 0 sqlite_int64_max (ti_nonce j) = Inr ()" "int_range 21000 max_gas_limit (ti_gas_limit j) = Inr ()"
    "intent_shape j = Inr j" "ti_asset_type j = ti_asset_type i" "ti_nonce j = ti_nonce i" "ti_chain_id j = ti_chain_id i"
  using assms by (auto simp: validate_transfer_intent_def intent_shape_def split: if_splits)

lemma amount_value_normal:
  assumes "amount_value v = Inr w"
  shows "w = v" "quantity w = Inr w" "0 < nat_of_digits w" "nat_of_digits w < 2 ^ 63" "w \<noteq> ''0''"
proof -
  have w: "text_length 1 78 v = Inr ()" "canonical_amount v = Inr v" "uint v ''transfer amount'' True = Inr v" "w = v"
    using assms by (auto simp: amount_value_def canonical_amount_def uint_def split: if_splits)
  then show "w = v" "quantity w = Inr w" "0 < nat_of_digits w"
    by (auto simp: quantity_def uint_def split: if_splits)
  then show "w \<noteq> ''0''" by (auto simp: nat_of_digits_def digit_val_def)
  show "nat_of_digits w < 2 ^ 63"
    using w(2,4) by (auto simp: canonical_amount_def sqlite_int64_max_def split: if_splits)
qed

lemma fee_value_normal: "fee_value v = Inr w \<Longrightarrow> quantity w = Inr w"
  by (auto simp: fee_value_def quantity_def uint_def split: if_splits)

lemma envelope_data_shape:
  assumes r: "address_field v = Inr (ti_recipient_address j)" and a: "nat_of_digits (ti_amount j) < 2 ^ 63"
  shows "length (envelope_data j) = 138" "data_value (envelope_data j) = Inr (envelope_data j)"
    "take 10 (envelope_data j) = ''0xa9059cbb''"
    "take 64 (drop 10 (envelope_data j)) = rjust 64 (CHR ''0'') (drop 2 (ti_recipient_address j))"
    "drop 74 (envelope_data j) = rjust 64 (CHR ''0'') (show_hex (nat_of_digits (ti_amount j)))"
proof -
  let ?r = "drop 2 (ti_recipient_address j)" and ?a = "show_hex (nat_of_digits (ti_amount j))"
  let ?rw = "rjust 64 (CHR ''0'') ?r" and ?aw = "rjust 64 (CHR ''0'') ?a"
  note s = address_shape [OF r]
  have "prefix ''0x'' (ti_recipient_address j)" using s(1) by (metis take_is_prefix)
  then have d: "envelope_data j = ''0xa9059cbb'' @ ?rw @ ?aw" by (simp add: envelope_data_def removeprefix_def numeral_2_eq_2)
  have "(2 :: nat) ^ 63 \<le> 16 ^ 64" by (simp add: power_increasing)
  with a have "nat_of_digits (ti_amount j) < 16 ^ 64" by linarith
  then have "length ?a \<le> 64" by (intro length_show_hex) simp_all
  then have l: "length ?rw = 64" "length ?aw = 64" using s(4) by (simp_all add: length_rjust)
  then show len: "length (envelope_data j) = 138" by (simp add: d)
  show "take 10 (envelope_data j) = ''0xa9059cbb''" by (simp add: d)
  show "take 64 (drop 10 (envelope_data j)) = ?rw" using l by (simp add: d)
  show "drop 74 (envelope_data j) = ?aw" using l by (simp add: d)
  have hx: "list_all is_hex ?rw" "list_all is_hex ?aw"
    using s(2) show_hex_hex by (auto simp: rjust_def list_all_iff is_hex_def is_digit_def)
  have z: "lower_char (CHR ''0'') = CHR ''0''" by (simp add: lower_char_def is_upper_def)
  have lw: "map lower_char ?rw = ?rw" "map lower_char ?aw = ?aw"
    using s(3) show_hex_hex by (simp_all add: rjust_def z flip: drop_map)
  have "list_all is_hex (drop 2 (envelope_data j))"
    using hx by (simp add: d is_hex_def is_digit_def)
  moreover have "py_lower (envelope_data j) = envelope_data j"
    using lw by (simp add: d py_lower_def lower_char_def is_upper_def)
  moreover have "py_startswith (envelope_data j) ''0x''" by (simp add: d py_startswith_def)
  ultimately show "data_value (envelope_data j) = Inr (envelope_data j)"
    using len by (simp add: data_value_def text_length_def)
qed

lemma optional_address_normal:
  "optional_address v = Inr w \<Longrightarrow> optional_address w = Inr w"
  by (auto simp: optional_address_def address_field_normal split: option.splits)

definition envelope_of :: "transfer_intent \<Rightarrow> unsigned_transfer" where
  "envelope_of j =
     \<lparr>ut_chain_id = ti_chain_id j, ut_nonce = ti_nonce j, ut_gas_limit = ti_gas_limit j,
      ut_max_fee_per_gas = ti_max_fee_per_gas j, ut_source_address = ti_source_address j,
      ut_to_address = (if ti_asset_type j = ''native'' then ti_recipient_address j else the (ti_contract_address j)),
      ut_value = (if ti_asset_type j = ''native'' then ti_amount j else ''0''),
      ut_data = (if ti_asset_type j = ''native'' then ''0x'' else envelope_data j),
      ut_asset_type = ti_asset_type j, ut_contract_address = ti_contract_address j\<rparr>"

lemma build_validated:
  assumes "validate_transfer_intent i = Inr j"
  shows "build j = Inr (envelope_of j)"
proof -
  note f = validate_transfer_intent_fields [OF assms]
  note a = amount_value_normal [OF f(4)]
  have src: "address_field (ti_source_address j) = Inr (ti_source_address j)"
    and rec: "address_field (ti_recipient_address j) = Inr (ti_recipient_address j)"
    using address_field_normal(1) [OF f(1)] address_field_normal(1) [OF f(2)] by auto
  have fee: "quantity (ti_max_fee_per_gas j) = Inr (ti_max_fee_per_gas j)" using fee_value_normal [OF f(5)] .
  show ?thesis
  proof (cases "ti_asset_type j = ''native''")
    case True
    then have c: "ti_contract_address j = None" using f(10) by (auto simp: intent_shape_def split: if_splits)
    have "data_value ''0x'' = Inr ''0x''" by (simp add: data_value_def text_length_def py_startswith_def py_lower_def lower_char_def is_upper_def)
    then show ?thesis
      using f(7-9) src rec fee a(2,5)
      by (simp add: build_def envelope_of_def True c validate_unsigned_transfer_def asset_types_def optional_address_def transfer_shape_def)
  next
    case False
    then have t: "ti_asset_type j = ''token''" using f(6) by (simp add: asset_types_def)
    then obtain c where c: "ti_contract_address j = Some c" using f(10) by (cases "ti_contract_address j") (auto simp: intent_shape_def)
    then have cn: "address_field c = Inr c" using optional_address_normal [OF f(3)] by (simp add: optional_address_def)
    have z: "quantity ''0'' = Inr ''0''"
      by (simp add: quantity_def text_length_def uint_def decimal_pattern_def nat_of_digits_def digit_val_def max_uint256_def)
    note d = envelope_data_shape [OF f(2) a(4)]
    have "py_startswith (envelope_data j) ''0xa9059cbb''" using d(3) by (metis py_startswith_def take_is_prefix)
    then show ?thesis
      using f(7-9) src fee cn d(1,2) z
      by (simp add: build_def envelope_of_def t c validate_unsigned_transfer_def asset_types_def optional_address_def transfer_shape_def)
  qed
qed

lemma decoded_envelope:
  assumes "validate_transfer_intent i = Inr j"
  shows "decoded_transfer (envelope_of j) = Some (ti_recipient_address j, nat_of_digits (ti_amount j))"
proof (cases "ti_asset_type j = ''native''")
  case False
  note f = validate_transfer_intent_fields [OF assms]
  note d = envelope_data_shape [OF f(2) amount_value_normal(4) [OF f(4)]]
  note s = address_shape [OF f(2)]
  have "drop 24 (rjust 64 (CHR ''0'') (drop 2 (ti_recipient_address j))) = drop 2 (ti_recipient_address j)"
    using s(4) by (simp add: rjust_def)
  moreover have "''0x'' @ drop 2 (ti_recipient_address j) = ti_recipient_address j"
    using s(1) by (metis append_take_drop_id)
  ultimately show ?thesis using False d by (simp add: decoded_transfer_def envelope_of_def nat_of_hex_rjust)
qed (simp add: decoded_transfer_def envelope_of_def)

section \<open>Properties\<close>

text \<open>
  C9. A validated intent always has an envelope, and what the chain executes for it is the
  intent: decoding the envelope gives the recipient and the amount, which is positive, under
  the nonce, chain, gas, fee and source of the intent; a token call goes to the registered
  contract and moves no native value.
\<close>

theorem envelope_executes_intent:
  assumes "validate_transfer_intent i = Inr j"
  shows "\<exists>t. build j = Inr t \<and> decoded_transfer t = Some (ti_recipient_address j, nat_of_digits (ti_amount j))
    \<and> 0 < nat_of_digits (ti_amount j) \<and> ut_nonce t = ti_nonce i \<and> ut_chain_id t = ti_chain_id i
    \<and> ut_source_address t = ti_source_address j \<and> ut_gas_limit t = ti_gas_limit j
    \<and> ut_max_fee_per_gas t = ti_max_fee_per_gas j
    \<and> (ti_asset_type i = ''token'' \<longrightarrow> Some (ut_to_address t) = ti_contract_address j \<and> ut_value t = ''0'')"
proof -
  note f = validate_transfer_intent_fields [OF assms]
  have "Some (ut_to_address (envelope_of j)) = ti_contract_address j" if "ti_asset_type i = ''token''"
    using f(10,11) that by (auto simp: envelope_of_def intent_shape_def split: if_splits)
  then show ?thesis
    using build_validated [OF assms] decoded_envelope [OF assms] amount_value_normal(3) [OF f(4)] f(11-13)
    by (intro exI [of _ "envelope_of j"]) (simp add: envelope_of_def)
qed

section \<open>Witnesses\<close>

definition sample_intent :: transfer_intent where
  "sample_intent =
     \<lparr>ti_order_id = ''payorder_1'', ti_subject_id = ''subject-1'', ti_network_id = ''net_1'', ti_asset_id = ''asset_1'',
      ti_asset_type = ''token'', ti_contract_address = Some (''0x'' @ replicate 40 (CHR ''c'')),
      ti_source_address = ''0x'' @ replicate 40 (CHR ''1''), ti_recipient_address = ''0x'' @ replicate 40 (CHR ''2''),
      ti_amount = ''250'', ti_chain_id = 1, ti_nonce = 7, ti_gas_limit = 60000, ti_max_fee_per_gas = ''1000000000''\<rparr>"

lemma sample_intent_valid: "validate_transfer_intent sample_intent = Inr sample_intent"
  by (simp add: validate_transfer_intent_def sample_intent_def intent_shape_def asset_types_def optional_address_def
      address_field_def canonical_evm_address_def evm_address_pattern_def is_hex_def replicate_eval amount_value_def
      fee_value_def uint_def max_uint256_def max_gas_limit_def py_lower_def lower_char_def input_eval)

theorem envelope_executes_intent_witness:
  "\<exists>t. build sample_intent = Inr t \<and> decoded_transfer t = Some (''0x'' @ replicate 40 (CHR ''2''), 250)"
proof -
  have "ti_recipient_address sample_intent = ''0x'' @ replicate 40 (CHR ''2'')" "nat_of_digits (ti_amount sample_intent) = 250"
    by (simp add: sample_intent_def, code_simp)
  with envelope_executes_intent [OF sample_intent_valid] show ?thesis by metis
qed

end
