(* ===== verification/WalletExecution.thy ===== *)
theory WalletExecution
  imports WalletBounties WalletTransfer
begin

text \<open>
  The payment executions of \<^verbatim>\<open>wallet/execution.py\<close> (\<open>WalletPaymentExecutionEngine\<close>): the
  durable state of a payment between its reservation and its settlement.  Every method that
  changes the database runs in one transaction and is one operation here; the signer, which
  runs outside, appears as the values it returned (\<open>signer\<close>, \<open>broadcast_result\<close>,
  \<open>receipt\<close>), so a sequence of operations covers every interleaving of workers.
\<close>

section \<open>Signer values\<close>

record broadcast_result =
  bc_tx_hash :: string
  bc_chain_id :: int
  bc_nonce :: int
  bc_accepted_at :: string

record receipt =
  rc_tx_hash :: string
  rc_chain_id :: int
  rc_status :: int
  rc_block_number :: "int option"
  rc_block_hash :: "string option"
  rc_confirmations :: int
  rc_effect_hash :: "string option"

text \<open>
  What the engine asks the signer for while it prepares a payment: \<open>None\<close> for a method the
  signer does not have, and for a nonce that could not be obtained.
\<close>

record signer =
  sg_signer_id :: string
  sg_pending_nonce :: "(string \<Rightarrow> int \<Rightarrow> int option) option"
  sg_fee_quote :: "(unsigned_transfer \<Rightarrow> (int \<times> string) res) option"

section \<open>Digests\<close>

definition json_int_opt :: "int option \<Rightarrow> json" where
  "json_int_opt v = (case v of None \<Rightarrow> JNull | Some i \<Rightarrow> JInt i)"

definition execution_state :: "execution_row \<Rightarrow> json" where
  "execution_state r = JObj
     [(''execution_id'', JStr (ex_execution_id r)), (''subject_id'', JStr (ex_subject_id r)),
      (''order_id'', JStr (ex_order_id r)), (''network_id'', JStr (ex_network_id r)),
      (''asset_id'', JStr (ex_asset_id r)), (''source_address'', JStr (ex_source_address r)),
      (''recipient_address'', JStr (ex_recipient_address r)), (''asset_type'', JStr (ex_asset_type r)),
      (''contract_address'', json_opt (ex_contract_address r)), (''amount'', JStr (ex_amount r)),
      (''chain_id'', JInt (ex_chain_id r)), (''nonce'', JInt (ex_nonce r)), (''gas_limit'', JInt (ex_gas_limit r)),
      (''max_fee_per_gas'', JStr (ex_max_fee_per_gas r)), (''request_id'', JStr (ex_request_id r)),
      (''request_hash'', JStr (ex_request_hash r)), (''signer_id'', JStr (ex_signer_id r)),
      (''status'', JStr (ex_status r)), (''tx_hash'', json_opt (ex_tx_hash r)),
      (''error_code'', json_opt (ex_error_code r)), (''receipt_status'', json_int_opt (ex_receipt_status r)),
      (''receipt_block_number'', json_int_opt (ex_receipt_block_number r)),
      (''receipt_block_hash'', json_opt (ex_receipt_block_hash r)),
      (''receipt_confirmations'', json_int_opt (ex_receipt_confirmations r)),
      (''receipt_effect_hash'', json_opt (ex_receipt_effect_hash r)), (''attempt_count'', JInt (ex_attempt_count r)),
      (''created_at'', JStr (ex_created_at r)), (''updated_at'', JStr (ex_updated_at r))]"

definition execution_hash :: "env \<Rightarrow> execution_row \<Rightarrow> string" where
  "execution_hash E r = content_hash (env_sha256 E) (execution_state r)"

text \<open>The outcome columns of an execution, as the code passes them to the digest.\<close>

record outcome =
  oc_status :: string
  oc_tx_hash :: "string option"
  oc_error_code :: "string option"
  oc_receipt_status :: "int option"
  oc_block_number :: "int option"
  oc_block_hash :: "string option"
  oc_confirmations :: "int option"
  oc_effect_hash :: "string option"

definition with_outcome :: "outcome \<Rightarrow> int \<Rightarrow> string \<Rightarrow> execution_row \<Rightarrow> execution_row" where
  "with_outcome u attempts now r =
     r\<lparr>ex_status := oc_status u, ex_tx_hash := oc_tx_hash u, ex_error_code := oc_error_code u,
       ex_receipt_status := oc_receipt_status u, ex_receipt_block_number := oc_block_number u,
       ex_receipt_block_hash := oc_block_hash u, ex_receipt_confirmations := oc_confirmations u,
       ex_receipt_effect_hash := oc_effect_hash u, ex_attempt_count := attempts, ex_updated_at := now\<rparr>"

definition execution_hash_values_from_row :: "env \<Rightarrow> execution_row \<Rightarrow> outcome \<Rightarrow> int \<Rightarrow> string \<Rightarrow> string" where
  "execution_hash_values_from_row E r u attempts now = execution_hash E (with_outcome u attempts now r)"

definition no_receipt :: "string \<Rightarrow> string option \<Rightarrow> string option \<Rightarrow> outcome" where
  "no_receipt status tx code =
     \<lparr>oc_status = status, oc_tx_hash = tx, oc_error_code = code, oc_receipt_status = None, oc_block_number = None,
      oc_block_hash = None, oc_confirmations = None, oc_effect_hash = None\<rparr>"

definition attempt_state :: "attempt_row \<Rightarrow> json" where
  "attempt_state r = JObj
     [(''attempt_id'', JStr (at_attempt_id r)), (''execution_id'', JStr (at_execution_id r)),
      (''subject_id'', JStr (at_subject_id r)), (''attempt_number'', JInt (at_attempt_number r)),
      (''request_id'', JStr (at_request_id r)), (''status'', JStr (at_status r)),
      (''tx_hash'', json_opt (at_tx_hash r)), (''error_code'', json_opt (at_error_code r)),
      (''started_at'', JStr (at_started_at r)), (''completed_at'', json_opt (at_completed_at r))]"

definition attempt_hash :: "env \<Rightarrow> attempt_row \<Rightarrow> string" where
  "attempt_hash E r = content_hash (env_sha256 E) (attempt_state r)"

section \<open>Constraints\<close>

definition execution_statuses :: "string list" where
  "execution_statuses = [''signing'', ''broadcast'', ''unknown'', ''confirmed'', ''failed'']"

definition execution_trigger_allows :: "execution_row \<Rightarrow> execution_row \<Rightarrow> bool" where
  "execution_trigger_allows old new =
     (ex_status new = ex_status old \<and> ex_tx_hash new = ex_tx_hash old \<and> ex_error_code new = ex_error_code old
        \<and> ex_receipt_status new = ex_receipt_status old \<and> ex_receipt_block_number new = ex_receipt_block_number old
        \<and> ex_attempt_count new = ex_attempt_count old \<and> ex_state_hash new = ex_state_hash old
        \<and> ex_last_audit_id new = ex_last_audit_id old \<and> ex_updated_at new = ex_updated_at old
      \<or> ex_status old = ''signing'' \<and> ex_status new \<in> {''broadcast'', ''unknown'', ''failed''}
      \<or> ex_status old = ''broadcast'' \<and> ex_status new \<in> {''unknown'', ''confirmed'', ''failed''}
      \<or> ex_status old = ''unknown'' \<and> ex_status new \<in> {''signing'', ''broadcast'', ''confirmed'', ''failed''}
      \<or> ex_status old = ''confirmed'' \<and> ex_status new = ''unknown'')"

definition attempt_trigger_allows :: "attempt_row \<Rightarrow> attempt_row \<Rightarrow> bool" where
  "attempt_trigger_allows old new =
     (at_status new = at_status old \<and> at_tx_hash new = at_tx_hash old \<and> at_error_code new = at_error_code old
        \<and> at_completed_at new = at_completed_at old \<and> at_state_hash new = at_state_hash old
      \<or> at_status old = ''signing'' \<and> at_status new \<in> {''broadcast'', ''unknown'', ''failed''}
      \<or> at_status old = ''broadcast'' \<and> at_status new \<in> {''unknown'', ''confirmed'', ''failed''}
      \<or> at_status old = ''unknown'' \<and> at_status new \<in> {''broadcast'', ''confirmed'', ''failed''}
      \<or> at_status old = ''confirmed'' \<and> at_status new = ''unknown'')"

text \<open>The partial unique indexes on nonces and transaction hashes.\<close>

definition live_execution :: "execution_row \<Rightarrow> bool" where
  "live_execution r = (ex_status r \<in> {''signing'', ''broadcast'', ''unknown'', ''confirmed''} \<or> ex_tx_hash r \<noteq> None)"

definition execution_clash :: "execution_row \<Rightarrow> execution_row \<Rightarrow> bool" where
  "execution_clash r x =
     (ex_subject_id x = ex_subject_id r \<and> ex_network_id x = ex_network_id r
      \<and> (live_execution x \<and> live_execution r \<and> ex_source_address x = ex_source_address r \<and> ex_nonce x = ex_nonce r
         \<or> ex_tx_hash r \<noteq> None \<and> ex_tx_hash x = ex_tx_hash r))"

definition execution_checks :: "execution_row \<Rightarrow> bool" where
  "execution_checks r =
     (length (ex_source_address r) = 42 \<and> take 2 (ex_source_address r) = ''0x''
      \<and> length (ex_recipient_address r) = 42 \<and> take 2 (ex_recipient_address r) = ''0x''
      \<and> ex_asset_type r \<in> set asset_types \<and> sql_amount (ex_amount r) \<and> 0 < ex_chain_id r \<and> 0 \<le> ex_nonce r
      \<and> 21000 \<le> ex_gas_limit r \<and> ex_gas_limit r \<le> 30000000
      \<and> sql_amount (ex_max_fee_per_gas r) \<and> ex_max_fee_per_gas r \<noteq> ''0''
      \<and> valid_hash (ex_request_hash r) \<and> trimmed_between 1 256 (ex_signer_id r)
      \<and> ex_status r \<in> set execution_statuses \<and> ex_receipt_status r \<in> {None, Some 0, Some 1}
      \<and> (\<forall>n. ex_receipt_block_number r = Some n \<longrightarrow> 0 \<le> n)
      \<and> (\<forall>n. ex_receipt_confirmations r = Some n \<longrightarrow> 0 \<le> n)
      \<and> 1 \<le> ex_attempt_count r \<and> valid_hash (ex_state_hash r))"

definition attempt_checks :: "attempt_row \<Rightarrow> bool" where
  "attempt_checks r = (1 \<le> at_attempt_number r \<and> at_status r \<in> set execution_statuses \<and> valid_hash (at_state_hash r))"

definition insert_execution :: "execution_row \<Rightarrow> 'a wallet_db_scheme \<Rightarrow> ('a wallet_db_scheme) res" where
  "insert_execution r db =
     (if \<not> (\<exists>w\<in>set (wallet_payment_orders db). or_order_id w = ex_order_id r \<and> or_subject_id w = ex_subject_id r
            \<and> or_network_id w = ex_network_id r \<and> or_asset_id w = ex_asset_id r
            \<and> or_recipient_address w = ex_recipient_address r \<and> or_amount w = ex_amount r \<and> or_status w = ''signing'')
      then Inl (SqliteIntegrityError ''wallet payment execution reference mismatch'')
      else if ex_execution_id r \<in> ex_execution_id ` set (wallet_payment_executions db)
         \<or> ex_order_id r \<in> ex_order_id ` set (wallet_payment_executions db)
         \<or> (\<exists>x\<in>set (wallet_payment_executions db). ex_subject_id x = ex_subject_id r \<and> ex_request_id x = ex_request_id r)
         \<or> (\<exists>x\<in>set (wallet_payment_executions db). execution_clash r x)
      then Inl (unique_error ''wallet_payment_executions'')
      else if \<not> execution_checks r then Inl (check_error ''wallet_payment_executions'')
      else if ex_subject_id r \<notin> set (subject_identity db)
         \<or> ex_network_id r \<notin> nw_network_id ` set (wallet_networks db)
         \<or> ex_asset_id r \<notin> as_asset_id ` set (wallet_assets db)
         \<or> ex_created_audit_id r \<notin> au_audit_id ` set (audit_records db)
         \<or> ex_last_audit_id r \<notin> au_audit_id ` set (audit_records db)
      then Inl foreign_key_error
      else Inr (db\<lparr>wallet_payment_executions := wallet_payment_executions db @ [r]\<rparr>))"

definition update_execution ::
    "execution_row \<Rightarrow> (execution_row \<Rightarrow> execution_row) \<Rightarrow> 'a wallet_db_scheme \<Rightarrow> ('a wallet_db_scheme) res" where
  "update_execution row f db =
     res_bind (update_guarded execution_trigger_allows ''wallet payment execution transition is invalid''
         (\<lambda>r. ex_execution_id r = ex_execution_id row) f (wallet_payment_executions db)) (\<lambda>t.
       if \<exists>r\<in>set t. ex_execution_id r = ex_execution_id row
            \<and> (\<exists>x\<in>set t. ex_execution_id x \<noteq> ex_execution_id row \<and> execution_clash r x)
       then Inl (unique_error ''wallet_payment_executions'')
       else if \<exists>r\<in>set t. ex_execution_id r = ex_execution_id row \<and> \<not> execution_checks r
       then Inl (check_error ''wallet_payment_executions'')
       else Inr (db\<lparr>wallet_payment_executions := t\<rparr>))"

definition insert_attempt :: "attempt_row \<Rightarrow> 'a wallet_db_scheme \<Rightarrow> ('a wallet_db_scheme) res" where
  "insert_attempt r db =
     (if \<not> (\<exists>x\<in>set (wallet_payment_executions db). ex_execution_id x = at_execution_id r
            \<and> ex_subject_id x = at_subject_id r \<and> ex_status x = ''signing'' \<and> ex_attempt_count x = at_attempt_number r)
      then Inl (SqliteIntegrityError ''wallet payment execution attempt reference mismatch'')
      else if at_attempt_id r \<in> at_attempt_id ` set (wallet_payment_execution_attempts db)
         \<or> (\<exists>x\<in>set (wallet_payment_execution_attempts db). at_execution_id x = at_execution_id r
              \<and> at_attempt_number x = at_attempt_number r)
         \<or> (\<exists>x\<in>set (wallet_payment_execution_attempts db). at_subject_id x = at_subject_id r
              \<and> at_request_id x = at_request_id r)
      then Inl (unique_error ''wallet_payment_execution_attempts'')
      else if \<not> attempt_checks r then Inl (check_error ''wallet_payment_execution_attempts'')
      else if at_subject_id r \<notin> set (subject_identity db)
         \<or> at_created_audit_id r \<notin> au_audit_id ` set (audit_records db)
      then Inl foreign_key_error
      else Inr (db\<lparr>wallet_payment_execution_attempts := wallet_payment_execution_attempts db @ [r]\<rparr>))"

definition insert_reconciliation :: "reconciliation_row \<Rightarrow> 'a wallet_db_scheme \<Rightarrow> ('a wallet_db_scheme) res" where
  "insert_reconciliation r db =
     (if re_event_id r \<in> re_event_id ` set (wallet_payment_reconciliation_events db)
      then Inl (unique_error ''wallet_payment_reconciliation_events'')
      else if re_previous_status r \<noteq> ''confirmed'' \<or> \<not> valid_hash (re_state_hash r)
      then Inl (check_error ''wallet_payment_reconciliation_events'')
      else if re_subject_id r \<notin> set (subject_identity db)
         \<or> re_order_id r \<notin> or_order_id ` set (wallet_payment_orders db)
         \<or> re_execution_id r \<notin> ex_execution_id ` set (wallet_payment_executions db)
      then Inl foreign_key_error
      else Inr (db\<lparr>wallet_payment_reconciliation_events := wallet_payment_reconciliation_events db @ [r]\<rparr>))"

section \<open>Records\<close>

record execution_record =
  er_execution_id :: string
  er_subject_id :: string
  er_order_id :: string
  er_network_id :: string
  er_asset_id :: string
  er_source_address :: string
  er_recipient_address :: string
  er_asset_type :: string
  er_contract_address :: "string option"
  er_amount :: string
  er_chain_id :: int
  er_nonce :: int
  er_gas_limit :: int
  er_max_fee_per_gas :: string
  er_request_id :: string
  er_request_hash :: string
  er_signer_id :: string
  er_status :: string
  er_tx_hash :: "string option"
  er_error_code :: "string option"
  er_receipt_status :: "int option"
  er_receipt_block_number :: "int option"
  er_receipt_block_hash :: "string option"
  er_receipt_confirmations :: "int option"
  er_receipt_effect_hash :: "string option"
  er_attempt_count :: int
  er_created_at :: string
  er_updated_at :: string

definition execution_from_row :: "execution_row \<Rightarrow> execution_record" where
  "execution_from_row r =
     \<lparr>er_execution_id = ex_execution_id r, er_subject_id = ex_subject_id r, er_order_id = ex_order_id r,
      er_network_id = ex_network_id r, er_asset_id = ex_asset_id r, er_source_address = ex_source_address r,
      er_recipient_address = ex_recipient_address r, er_asset_type = ex_asset_type r,
      er_contract_address = ex_contract_address r, er_amount = ex_amount r, er_chain_id = ex_chain_id r,
      er_nonce = ex_nonce r, er_gas_limit = ex_gas_limit r, er_max_fee_per_gas = ex_max_fee_per_gas r,
      er_request_id = ex_request_id r, er_request_hash = ex_request_hash r, er_signer_id = ex_signer_id r,
      er_status = ex_status r, er_tx_hash = ex_tx_hash r, er_error_code = ex_error_code r,
      er_receipt_status = ex_receipt_status r, er_receipt_block_number = ex_receipt_block_number r,
      er_receipt_block_hash = ex_receipt_block_hash r, er_receipt_confirmations = ex_receipt_confirmations r,
      er_receipt_effect_hash = ex_receipt_effect_hash r, er_attempt_count = ex_attempt_count r,
      er_created_at = ex_created_at r, er_updated_at = ex_updated_at r\<rparr>"

definition find_execution :: "string \<Rightarrow> string \<Rightarrow> 'a wallet_db_scheme \<Rightarrow> execution_row res" where
  "find_execution execution_id subject_id db =
     (case fetchone (\<lambda>r. ex_execution_id r = execution_id \<and> ex_subject_id r = subject_id) (wallet_payment_executions db) of
        None \<Rightarrow> Inl (NotFoundError ''wallet payment execution not found'')
      | Some r \<Rightarrow> Inr r)"

text \<open>\<open>SELECT * FROM wallet_payment_executions WHERE execution_id=?\<close> after a write.\<close>

definition read_execution ::
    "string \<Rightarrow> 'a wallet_db_scheme \<Rightarrow> (execution_record \<times> 'a wallet_db_scheme) res" where
  "read_execution execution_id db =
     (case fetchone (\<lambda>r. ex_execution_id r = execution_id) (wallet_payment_executions db) of
        None \<Rightarrow> Inl (TypeError ''row is None'')
      | Some r \<Rightarrow> Inr (execution_from_row r, db))"

definition get_execution :: "string \<Rightarrow> string \<Rightarrow> 'a wallet_db_scheme \<Rightarrow> execution_record res" where
  "get_execution execution_id subject_id db =
     res_bind (validate_subject_id subject_id) (\<lambda>_.
     res_bind (find_execution execution_id subject_id db) (\<lambda>r. Inr (execution_from_row r)))"

definition order_execution :: "string \<Rightarrow> string \<Rightarrow> 'a wallet_db_scheme \<Rightarrow> execution_record option res" where
  "order_execution order_id subject_id db =
     res_bind (validate_subject_id subject_id) (\<lambda>_.
       Inr (map_option execution_from_row
         (fetchone (\<lambda>r. ex_order_id r = order_id \<and> ex_subject_id r = subject_id) (wallet_payment_executions db))))"

definition list_executions :: "string \<Rightarrow> nat \<Rightarrow> 'a wallet_db_scheme \<Rightarrow> execution_record list res" where
  "list_executions subject_id limit db =
     res_bind (validate_subject_id subject_id) (\<lambda>_.
       if limit < 1 \<or> 1000 < limit then Inl (ValueError ''invalid execution limit'')
       else Inr (map execution_from_row (take limit (rev (fetchall_by (\<lambda>r. ex_subject_id r = subject_id)
         (\<lambda>r. (ex_created_at r, ex_execution_id r)) (wallet_payment_executions db))))))"

section \<open>Outcomes\<close>

definition finished_attempt ::
    "env \<Rightarrow> string \<Rightarrow> string option \<Rightarrow> string option \<Rightarrow> string \<Rightarrow> attempt_row \<Rightarrow> attempt_row" where
  "finished_attempt E status tx code completed_at a =
     (let b = a\<lparr>at_status := status, at_tx_hash := tx, at_error_code := code, at_completed_at := Some completed_at\<rparr>
      in b\<lparr>at_state_hash := attempt_hash E b\<rparr>)"

definition finish_attempt ::
    "env \<Rightarrow> execution_row \<Rightarrow> string \<Rightarrow> string option \<Rightarrow> string option \<Rightarrow> string \<Rightarrow> 'a wallet_db_scheme
      \<Rightarrow> ('a wallet_db_scheme) res" where
  "finish_attempt E execution status tx code completed_at db =
     (case fetchone (\<lambda>a. at_execution_id a = ex_execution_id execution
              \<and> at_attempt_number a = ex_attempt_count execution) (wallet_payment_execution_attempts db) of
        None \<Rightarrow> Inl (IntegrityError ''wallet execution attempt is missing'')
      | Some attempt \<Rightarrow>
          let new = finished_attempt E status tx code completed_at attempt
          in if \<not> attempt_checks new then Inl (check_error ''wallet_payment_execution_attempts'')
             else res_bind (update_guarded attempt_trigger_allows
                  ''wallet payment execution attempt transition is invalid''
                  (\<lambda>a. at_attempt_id a = at_attempt_id attempt)
                  (\<lambda>a. a\<lparr>at_status := at_status new, at_tx_hash := at_tx_hash new, at_error_code := at_error_code new,
                         at_completed_at := at_completed_at new, at_state_hash := at_state_hash new\<rparr>)
                  (wallet_payment_execution_attempts db))
                (\<lambda>t. Inr (db\<lparr>wallet_payment_execution_attempts := t\<rparr>)))"

text \<open>
  The end every outcome shares: the execution takes its columns with the digest computed for
  \<open>u\<close>, and its attempt is finished.  \<open>set_columns\<close> is what the \<open>UPDATE\<close> of that outcome writes.
\<close>

definition record_outcome ::
    "env \<Rightarrow> execution_row \<Rightarrow> outcome \<Rightarrow> (execution_row \<Rightarrow> execution_row) \<Rightarrow> string \<Rightarrow> 'a wallet_db_scheme
      \<Rightarrow> ('a wallet_db_scheme) res" where
  "record_outcome E execution u set_columns audit_id db =
     (let (now, db1) = utc_now E db;
          state = execution_hash_values_from_row E execution u (ex_attempt_count execution) now
      in res_bind (update_execution execution
           (\<lambda>r. (set_columns r)\<lparr>ex_last_audit_id := audit_id, ex_updated_at := now, ex_state_hash := state\<rparr>) db1)
         (finish_attempt E execution (oc_status u) (oc_tx_hash u) (oc_error_code u) now))"

definition mark_broadcast ::
    "env \<Rightarrow> string \<Rightarrow> string \<Rightarrow> string \<Rightarrow> broadcast_result \<Rightarrow> 'a wallet_db_scheme
      \<Rightarrow> (execution_record \<times> 'a wallet_db_scheme) res" where
  "mark_broadcast E execution_id subject_id actor result db =
     res_bind (find_execution execution_id subject_id db) (\<lambda>execution.
     res_bind (get_order (ex_order_id execution) subject_id db) (\<lambda>order.
       if or_status order \<noteq> ''signing'' then Inr (execution_from_row execution, db)
       else res_bind (canonical_tx_hash (bc_tx_hash result)) (\<lambda>tx.
         if bc_chain_id result \<noteq> ex_chain_id execution \<or> bc_nonce result \<noteq> ex_nonce execution
         then Inl (WalletExecutionError ''signer response does not match fixed chain or nonce'')
         else if \<exists>x\<in>set (wallet_payment_executions db). ex_subject_id x = subject_id
                \<and> ex_network_id x = ex_network_id execution \<and> ex_tx_hash x = Some tx \<and> ex_execution_id x \<noteq> execution_id
         then Inl (WalletExecutionError ''signer reused a transaction hash'')
         else res_bind (wallet_audit E subject_id ''wallet_payment_broadcast'' actor
              [(''order_id'', JStr (ex_order_id execution)), (''tx_hash'', JStr tx), (''nonce'', JInt (bc_nonce result))] db)
              (\<lambda>(aid, db1).
            res_bind (transition_order E order ''broadcast'' actor ''signer broadcast accepted'' db1) (\<lambda>db2.
            res_bind (record_outcome E execution (no_receipt ''broadcast'' (Some tx) None)
                (\<lambda>r. r\<lparr>ex_status := ''broadcast'', ex_tx_hash := Some tx\<rparr>) aid db2)
              (read_execution execution_id))))))"

text \<open>The transaction hash \<open>_mark_unknown\<close> keeps, and its reason.\<close>

definition unknown_outcome :: "execution_row \<Rightarrow> string option \<Rightarrow> string \<Rightarrow> string option \<times> string" where
  "unknown_outcome execution tx_hash code =
     (case tx_hash of
        None \<Rightarrow> (ex_tx_hash execution, code)
      | Some h \<Rightarrow> (case canonical_tx_hash h of
            Inr tx \<Rightarrow> (Some tx, code)
          | Inl _ \<Rightarrow> (ex_tx_hash execution, ''broadcast_unknown_invalid_hash'')))"

definition mark_unknown ::
    "env \<Rightarrow> string \<Rightarrow> string \<Rightarrow> string \<Rightarrow> string option \<Rightarrow> string \<Rightarrow> 'a wallet_db_scheme
      \<Rightarrow> (execution_record \<times> 'a wallet_db_scheme) res" where
  "mark_unknown E execution_id subject_id actor tx_hash code db =
     res_bind (find_execution execution_id subject_id db) (\<lambda>execution.
     res_bind (get_order (ex_order_id execution) subject_id db) (\<lambda>order.
       if or_status order \<notin> {''signing'', ''broadcast''} then Inr (execution_from_row execution, db)
       else
         let (tx, code) = unknown_outcome execution tx_hash code
         in res_bind (wallet_audit E subject_id ''wallet_payment_unknown'' actor
              [(''order_id'', JStr (ex_order_id execution)), (''tx_hash'', json_opt tx), (''error_code'', JStr code)] db)
              (\<lambda>(aid, db1).
            res_bind (transition_order E order ''unknown'' actor code db1) (\<lambda>db2.
            res_bind (record_outcome E execution (no_receipt ''unknown'' tx (Some code))
                (\<lambda>r. r\<lparr>ex_status := ''unknown'', ex_tx_hash := tx, ex_error_code := Some code\<rparr>) aid db2)
              (read_execution execution_id)))))"

text \<open>
  \<open>_mark_failed\<close>: the receipt is \<open>None\<close> when the signer rejected the transfer; otherwise the
  receipt columns are those of a receipt with status \<open>0\<close>.
\<close>

definition failed_outcome :: "string option \<Rightarrow> string \<Rightarrow> receipt option \<Rightarrow> outcome" where
  "failed_outcome tx code rcpt =
     (case rcpt of
        None \<Rightarrow> no_receipt ''failed'' tx (Some code)
      | Some c \<Rightarrow> \<lparr>oc_status = ''failed'', oc_tx_hash = tx, oc_error_code = Some code, oc_receipt_status = Some 0,
          oc_block_number = rc_block_number c, oc_block_hash = rc_block_hash c,
          oc_confirmations = Some (rc_confirmations c), oc_effect_hash = rc_effect_hash c\<rparr>)"

definition mark_failed ::
    "env \<Rightarrow> string \<Rightarrow> string \<Rightarrow> string \<Rightarrow> string \<Rightarrow> receipt option \<Rightarrow> 'a wallet_db_scheme
      \<Rightarrow> (execution_record \<times> 'a wallet_db_scheme) res" where
  "mark_failed E execution_id subject_id actor code rcpt db =
     res_bind (find_execution execution_id subject_id db) (\<lambda>execution.
     res_bind (get_order (ex_order_id execution) subject_id db) (\<lambda>order.
       if or_status order \<notin> {''signing'', ''broadcast'', ''unknown''} then Inr (execution_from_row execution, db)
       else res_bind (case rcpt of None \<Rightarrow> Inr (ex_tx_hash execution)
              | Some c \<Rightarrow> res_bind (canonical_tx_hash (rc_tx_hash c)) (\<lambda>t. Inr (Some t))) (\<lambda>tx.
         let u = failed_outcome tx code rcpt
         in res_bind (wallet_audit E subject_id ''wallet_payment_failed'' actor
              [(''order_id'', JStr (ex_order_id execution)), (''error_code'', JStr code)] db) (\<lambda>(aid, db1).
            res_bind (transition_order E order ''failed'' actor code db1) (\<lambda>db2.
            res_bind (record_outcome E execution u (with_outcome u (ex_attempt_count execution) (ex_updated_at execution)) aid db2)
              (read_execution execution_id))))))"

definition confirmed_outcome :: "string \<Rightarrow> receipt \<Rightarrow> outcome" where
  "confirmed_outcome tx c =
     \<lparr>oc_status = ''confirmed'', oc_tx_hash = Some tx, oc_error_code = None, oc_receipt_status = Some 1,
      oc_block_number = rc_block_number c, oc_block_hash = rc_block_hash c,
      oc_confirmations = Some (rc_confirmations c), oc_effect_hash = rc_effect_hash c\<rparr>"

definition mark_confirmed ::
    "env \<Rightarrow> string \<Rightarrow> string \<Rightarrow> string \<Rightarrow> receipt \<Rightarrow> 'a wallet_db_scheme
      \<Rightarrow> (execution_record \<times> 'a wallet_db_scheme) res" where
  "mark_confirmed E execution_id subject_id actor rcpt db =
     res_bind (find_execution execution_id subject_id db) (\<lambda>execution.
     res_bind (get_order (ex_order_id execution) subject_id db) (\<lambda>order.
       if or_status order = ''confirmed'' then Inr (execution_from_row execution, db)
       else if or_status order \<notin> {''broadcast'', ''unknown''}
       then Inl (InvalidTransitionError ''order is not awaiting receipt'')
       else res_bind (canonical_tx_hash (rc_tx_hash rcpt)) (\<lambda>tx.
         let u = confirmed_outcome tx rcpt
         in res_bind (wallet_audit E subject_id ''wallet_payment_confirmed'' actor
              [(''order_id'', JStr (ex_order_id execution)), (''tx_hash'', JStr tx),
               (''block_number'', json_int_opt (rc_block_number rcpt)), (''block_hash'', json_opt (rc_block_hash rcpt)),
               (''confirmations'', JInt (rc_confirmations rcpt))] db) (\<lambda>(aid, db1).
            res_bind (transition_order E order ''confirmed'' actor ''chain receipt confirmed'' db1) (\<lambda>db2.
            res_bind (post_order_journal E order ''settlement'' (''reserved'', ''debit'') (''paid'', ''credit'') db2) (\<lambda>db3.
            res_bind (record_outcome E execution u (with_outcome u (ex_attempt_count execution) (ex_updated_at execution)) aid db3)
              (read_execution execution_id)))))))"

section \<open>Chain reorganisations\<close>

definition reconciliation_payload :: "reconciliation_row \<Rightarrow> json" where
  "reconciliation_payload r = JObj
     [(''event_id'', JStr (re_event_id r)), (''subject_id'', JStr (re_subject_id r)), (''order_id'', JStr (re_order_id r)),
      (''execution_id'', JStr (re_execution_id r)), (''previous_status'', JStr (re_previous_status r)),
      (''reason'', JStr (re_reason r)), (''tx_hash'', json_opt (re_tx_hash r)), (''created_at'', JStr (re_created_at r))]"

definition kept_receipt :: "execution_row \<Rightarrow> outcome" where
  "kept_receipt r =
     \<lparr>oc_status = ''unknown'', oc_tx_hash = ex_tx_hash r, oc_error_code = Some ''reconcile_required'',
      oc_receipt_status = ex_receipt_status r, oc_block_number = ex_receipt_block_number r,
      oc_block_hash = ex_receipt_block_hash r, oc_confirmations = ex_receipt_confirmations r,
      oc_effect_hash = ex_receipt_effect_hash r\<rparr>"

definition new_reconciliation ::
    "env \<Rightarrow> string \<Rightarrow> string \<Rightarrow> execution_row \<Rightarrow> string \<Rightarrow> string \<Rightarrow> reconciliation_row" where
  "new_reconciliation E event_id subject_id execution reason now =
     (let r = \<lparr>re_event_id = event_id, re_subject_id = subject_id, re_order_id = ex_order_id execution,
               re_execution_id = ex_execution_id execution, re_previous_status = ''confirmed'', re_reason = reason,
               re_tx_hash = ex_tx_hash execution, re_created_at = now, re_state_hash = ''''\<rparr>
      in r\<lparr>re_state_hash := content_hash (env_sha256 E) (reconciliation_payload r)\<rparr>)"

text \<open>The clock is read before the audit, and that reading is the time of every row it writes.\<close>

definition mark_reconcile_required ::
    "env \<Rightarrow> string \<Rightarrow> string \<Rightarrow> string \<Rightarrow> string \<Rightarrow> 'a wallet_db_scheme
      \<Rightarrow> (execution_record \<times> 'a wallet_db_scheme) res" where
  "mark_reconcile_required E execution_id subject_id actor reason db =
     res_bind (operator_name actor) (\<lambda>actor.
       let reason = py_strip reason
       in if reason = [] \<or> length reason > 2000 then Inl (ValueError ''reconciliation reason is invalid'')
          else res_bind (find_execution execution_id subject_id db) (\<lambda>execution.
            if ex_status execution \<noteq> ''confirmed'' then Inr (execution_from_row execution, db)
            else res_bind (get_order (ex_order_id execution) subject_id db) (\<lambda>order.
              if or_status order \<noteq> ''confirmed''
              then Inl (IntegrityError ''confirmed execution does not have a confirmed order'')
              else
                let (now, db1) = utc_now E db; u = kept_receipt execution
                in res_bind (wallet_audit E subject_id ''wallet_payment_reconcile_required'' actor
                     [(''order_id'', JStr (ex_order_id execution)), (''execution_id'', JStr execution_id),
                      (''tx_hash'', json_opt (ex_tx_hash execution)), (''reason'', JStr reason)] db1) (\<lambda>(aid, db2).
                   res_bind (transition_order E order ''unknown'' actor ''reconcile_required'' db2) (\<lambda>db3.
                   res_bind (update_execution execution
                     (\<lambda>r. r\<lparr>ex_status := ''unknown'', ex_error_code := Some ''reconcile_required'',
                            ex_last_audit_id := aid, ex_updated_at := now,
                            ex_state_hash := execution_hash_values_from_row E execution u (ex_attempt_count execution) now\<rparr>)
                     db3) (\<lambda>db4.
                   res_bind (finish_attempt E execution ''unknown'' (ex_tx_hash execution) (Some ''reconcile_required'') now db4)
                     (\<lambda>db5.
                     let (event_id, db6) = new_id E ''wallet-reconcile'' db5
                     in res_bind (insert_reconciliation (new_reconciliation E event_id subject_id execution reason now) db6)
                          (read_execution execution_id))))))))"

section \<open>Recovery after a restart\<close>

definition recover_execution ::
    "env \<Rightarrow> string \<Rightarrow> string \<Rightarrow> string \<Rightarrow> 'a wallet_db_scheme \<Rightarrow> (execution_record option \<times> 'a wallet_db_scheme) res" where
  "recover_execution E subject_id actor execution_id db =
     (case fetchone (\<lambda>r. ex_execution_id r = execution_id \<and> ex_subject_id r = subject_id) (wallet_payment_executions db) of
        None \<Rightarrow> Inr (None, db)
      | Some execution \<Rightarrow>
          if ex_status execution \<noteq> ''signing'' then Inr (None, db)
          else res_bind (get_order (ex_order_id execution) subject_id db) (\<lambda>order.
            if or_status order \<noteq> ''signing'' then Inl (IntegrityError ''wallet execution/order recovery mismatch'')
            else
              let u = no_receipt ''unknown'' (ex_tx_hash execution) (Some ''process_restarted'')
              in res_bind (wallet_audit E subject_id ''wallet_payment_unknown'' actor
                   [(''order_id'', JStr (ex_order_id execution)), (''error_code'', JStr ''process_restarted'')] db)
                   (\<lambda>(aid, db1).
                 res_bind (transition_order E order ''unknown'' actor ''process_restarted'' db1) (\<lambda>db2.
                 res_bind (record_outcome E execution u
                     (with_outcome u (ex_attempt_count execution) (ex_updated_at execution)) aid db2) (\<lambda>db3.
                 res_bind (read_execution execution_id db3) (\<lambda>(r, db4). Inr (Some r, db4)))))))"

text \<open>
  Each execution is recovered in a transaction of its own: when one of them raises, the ones
  before it stay recovered.  The result is the error, or the records, with the database.
\<close>

fun recover_each ::
    "env \<Rightarrow> string \<Rightarrow> string \<Rightarrow> string list \<Rightarrow> 'a wallet_db_scheme \<Rightarrow> execution_record list res \<times> 'a wallet_db_scheme" where
  "recover_each E subject_id actor [] db = (Inr [], db)"
| "recover_each E subject_id actor (i # is) db =
     (case recover_execution E subject_id actor i db of
        Inl e \<Rightarrow> (Inl e, db)
      | Inr (r, db1) \<Rightarrow>
          (case recover_each E subject_id actor is db1 of
             (Inl e, db2) \<Rightarrow> (Inl e, db2)
           | (Inr rs, db2) \<Rightarrow> (Inr (case r of None \<Rightarrow> rs | Some x \<Rightarrow> x # rs), db2)))"

definition recover_database_inflight ::
    "env \<Rightarrow> string \<Rightarrow> string \<Rightarrow> nat \<Rightarrow> 'a wallet_db_scheme \<Rightarrow> execution_record list res \<times> 'a wallet_db_scheme" where
  "recover_database_inflight E subject_id actor limit db =
     (case validate_subject_id subject_id of
        Inl e \<Rightarrow> (Inl e, db)
      | Inr _ \<Rightarrow>
          if limit < 1 \<or> 1000 < limit then (Inl (ValueError ''invalid recovery limit''), db)
          else (case operator_name actor of
             Inl e \<Rightarrow> (Inl e, db)
           | Inr actor \<Rightarrow> recover_each E subject_id actor
               (map ex_execution_id (take limit (fetchall_by (\<lambda>r. ex_subject_id r = subject_id \<and> ex_status r = ''signing'')
                  (\<lambda>r. (ex_created_at r, ex_execution_id r)) (wallet_payment_executions db)))) db))"

section \<open>Fee budget\<close>

definition wallet_text :: "string \<Rightarrow> nat \<Rightarrow> string \<Rightarrow> string res" where
  "wallet_text field maximum value =
     (let candidate = py_strip value
      in if candidate = [] \<or> length candidate > maximum then Inl (ValueError (''wallet '' @ field @ '' is invalid''))
         else Inr candidate)"

definition source_pattern :: "string \<Rightarrow> bool" where
  "source_pattern s =
     (case s of [] \<Rightarrow> False
      | c # r \<Rightarrow> is_lower c \<and> length r \<le> 63 \<and> list_all (\<lambda>x. is_lower x \<or> is_digit x \<or> x = CHR ''_'') r)"

definition balance_source :: "string \<Rightarrow> string res" where
  "balance_source value =
     res_bind (wallet_text ''balance source'' 64 value) (\<lambda>candidate.
       if source_pattern candidate then Inr candidate else Inl (ValueError ''wallet balance source is invalid''))"

definition balance_hash :: "env \<Rightarrow> snapshot_row \<Rightarrow> string" where
  "balance_hash E r = content_hash (env_sha256 E) (JObj
     [(''snapshot_id'', JStr (bs_snapshot_id r)), (''subject_id'', JStr (bs_subject_id r)),
      (''network_id'', JStr (bs_network_id r)), (''asset_id'', JStr (bs_asset_id r)),
      (''address_id'', JStr (bs_address_id r)), (''balance'', JStr (bs_balance r)), (''source'', JStr (bs_source r)),
      (''observed_at'', JStr (bs_observed_at r)), (''created_at'', JStr (bs_created_at r))])"

text \<open>
  \<open>_balance_from_row\<close>: the row is read through the input model, and is refused when it is not
  what the model would have stored or its digest differs; otherwise the record has its columns.
\<close>

definition snapshot_values :: "snapshot_row \<Rightarrow> (string \<times> string \<times> string \<times> string \<times> string) res" where
  "snapshot_values r =
     res_bind (text_length 1 128 (bs_asset_id r)) (\<lambda>_.
     res_bind (wallet_text ''balance identifier'' 128 (bs_asset_id r)) (\<lambda>asset_id.
     res_bind (text_length 1 128 (bs_address_id r)) (\<lambda>_.
     res_bind (wallet_text ''balance identifier'' 128 (bs_address_id r)) (\<lambda>address_id.
     res_bind (text_length 1 256 (bs_balance r)) (\<lambda>_.
     res_bind (canonical_balance (bs_balance r)) (\<lambda>balance.
     res_bind (text_length 1 64 (bs_source r)) (\<lambda>_.
     res_bind (balance_source (bs_source r)) (\<lambda>source.
     res_bind (text_length 0 64 (bs_observed_at r)) (\<lambda>_.
     res_bind (canonical_timestamp (bs_observed_at r)) (\<lambda>observed_at.
       Inr (asset_id, address_id, balance, source, observed_at)))))))))))"

definition balance_from_row :: "env \<Rightarrow> snapshot_row \<Rightarrow> snapshot_row res" where
  "balance_from_row E r =
     res_bind (catch_value_error (IntegrityError (''wallet balance snapshot durable state is invalid: '' @ bs_snapshot_id r))
         (snapshot_values r)) (\<lambda>values.
     res_bind (catch_value_error (IntegrityError (''wallet balance snapshot durable identity is invalid: '' @ bs_snapshot_id r))
         (res_bind (store_identifier (bs_snapshot_id r) ''balance snapshot identifier'') (\<lambda>_.
          res_bind (store_identifier (bs_network_id r) ''network identifier'') (\<lambda>_.
            validate_subject_id (bs_subject_id r))))) (\<lambda>_.
     res_bind (catch_value_error (IntegrityError (''wallet balance snapshot time is invalid: '' @ bs_snapshot_id r))
         (res_bind (canonical_timestamp (bs_created_at r)) (\<lambda>c.
            if c \<noteq> bs_created_at r then Inl (ValueError ''wallet balance snapshot creation time is not canonical'')
            else Inr ()))) (\<lambda>_.
       if values \<noteq> (bs_asset_id r, bs_address_id r, bs_balance r, bs_source r, bs_observed_at r)
       then Inl (IntegrityError (''wallet balance snapshot is non-canonical: '' @ bs_snapshot_id r))
       else if bs_state_hash r \<noteq> balance_hash E r
       then Inl (IntegrityError (''wallet balance snapshot hash mismatch: '' @ bs_snapshot_id r))
       else Inr r)))"

text \<open>\<open>(fromisoformat(a) - fromisoformat(b)).total_seconds()\<close>, in microseconds.\<close>

definition micros_between :: "string \<Rightarrow> string \<Rightarrow> int res" where
  "micros_between a b =
     res_bind (fromisoformat a) (\<lambda>x. res_bind (fromisoformat b) (\<lambda>y.
       case (dt_offset x, dt_offset y) of
         (Some i, Some j) \<Rightarrow> Inr (int (dt_micros x) - int (dt_micros y) - (i - j) * 1000000)
       | (None, None) \<Rightarrow> Inr (int (dt_micros x) - int (dt_micros y))
       | _ \<Rightarrow> Inl (TypeError ''can not subtract offset-naive and offset-aware datetimes'')))"

definition observation_max_age :: int where
  "observation_max_age = 86400"

definition pending_fees :: "string \<Rightarrow> string \<Rightarrow> string \<Rightarrow> string option \<Rightarrow> 'a wallet_db_scheme \<Rightarrow> int res" where
  "pending_fees subject_id network_id source exclude db =
     res_fold (\<lambda>r total. res_bind (parse_py_int (ex_max_fee_per_gas r)) (\<lambda>f. Inr (total + ex_gas_limit r * f)))
       (filter (\<lambda>r. ex_subject_id r = subject_id \<and> ex_network_id r = network_id \<and> ex_source_address r = source
           \<and> ex_status r \<in> {''signing'', ''broadcast'', ''unknown''} \<and> (\<forall>x. exclude = Some x \<longrightarrow> ex_execution_id r \<noteq> x))
         (wallet_payment_executions db)) 0"

definition reserved_amounts :: "string \<Rightarrow> string \<Rightarrow> string \<Rightarrow> 'a wallet_db_scheme \<Rightarrow> int res" where
  "reserved_amounts subject_id network_id asset_id db =
     res_fold (\<lambda>r total. res_bind (parse_py_int (or_amount r)) (\<lambda>v. Inr (total + v)))
       (filter (\<lambda>r. or_subject_id r = subject_id \<and> or_network_id r = network_id \<and> or_asset_id r = asset_id
           \<and> or_status r \<in> {''reserved'', ''signing'', ''broadcast'', ''unknown''}) (wallet_payment_orders db)) 0"

definition fee_covered ::
    "string \<Rightarrow> string \<Rightarrow> string \<Rightarrow> asset_row \<Rightarrow> string \<Rightarrow> string \<Rightarrow> int \<Rightarrow> string \<Rightarrow> string option \<Rightarrow> snapshot_row
      \<Rightarrow> 'a wallet_db_scheme \<Rightarrow> unit res" where
  "fee_covered subject_id network_id asset_type native source_address_id min_balance gas_limit max_fee exclude observation db =
     res_bind (parse_py_int max_fee) (\<lambda>fee_price.
       case fetchone (\<lambda>a. ad_address_id a = source_address_id \<and> ad_subject_id a = subject_id) (wallet_addresses db) of
         None \<Rightarrow> Inl (IntegrityError ''wallet spending address is missing'')
       | Some source \<Rightarrow>
           if \<exists>x\<in>set (wallet_payment_executions db). ex_subject_id x = subject_id \<and> ex_network_id x = network_id
                \<and> ex_source_address x = ad_address source \<and> ex_status x \<in> {''confirmed'', ''failed''}
                \<and> ex_tx_hash x \<noteq> None \<and> ex_updated_at x \<ge> bs_observed_at observation
           then Inl (WalletExecutionError ''wallet native fee balance predates settlement'')
           else
             res_bind (pending_fees subject_id network_id (ad_address source) exclude db) (\<lambda>pending.
             res_bind (reserved_amounts subject_id network_id (as_asset_id native) db) (\<lambda>reserved.
             res_bind (if asset_type = ''native'' then parse_py_int min_balance else Inr 0) (\<lambda>native_minimum.
             res_bind (parse_py_int (bs_balance observation)) (\<lambda>balance.
               if balance - reserved - pending < fee_price * gas_limit + native_minimum
               then Inl (WalletExecutionError ''observed native balance cannot cover wallet fees'')
               else Inr ())))))"

definition check_observed_fee_budget ::
    "env \<Rightarrow> string \<Rightarrow> string \<Rightarrow> string \<Rightarrow> string \<Rightarrow> string \<Rightarrow> int \<Rightarrow> string \<Rightarrow> int \<Rightarrow> string option
      \<Rightarrow> 'a wallet_db_scheme \<Rightarrow> ('a wallet_db_scheme) res" where
  "check_observed_fee_budget E subject_id network_id asset_type source_address_id min_balance gas_limit max_fee
       max_age exclude db =
     (if unresolved_legacy subject_id network_id db
      then Inl (IntegrityError ''legacy wallet payment has unresolved broadcasts; recovery required'')
      else
        (case fetchone (\<lambda>a. as_subject_id a = subject_id \<and> as_network_id a = network_id
                \<and> as_asset_type a = ''native'' \<and> as_status a = ''active'') (wallet_assets db) of
           None \<Rightarrow> Inl (WalletExecutionError ''wallet native fee asset is not registered'')
         | Some native \<Rightarrow>
             (case rev (fetchall_by (\<lambda>s. bs_subject_id s = subject_id \<and> bs_network_id s = network_id
                      \<and> bs_asset_id s = as_asset_id native \<and> bs_address_id s = source_address_id)
                    (\<lambda>s. (bs_observed_at s, bs_snapshot_id s)) (wallet_balance_snapshots db)) of
                [] \<Rightarrow> if asset_type = ''token'' then Inl (WalletExecutionError ''wallet native fee balance is unavailable'')
                      else Inr db
              | latest # _ \<Rightarrow>
                  res_bind (balance_from_row E latest) (\<lambda>observation.
                  res_bind (if asset_type = ''token''
                       then let age_limit = min (if max_age = 0 then observation_max_age else max_age) observation_max_age;
                                (t, db1) = utc_now E db
                            in res_bind (micros_between t (bs_observed_at observation)) (\<lambda>age.
                                 if 0 \<le> age \<and> age \<le> age_limit * 1000000 then Inr db1
                                 else Inl (WalletExecutionError ''wallet native fee balance is not current''))
                       else Inr db) (\<lambda>db2.
                  res_bind (fee_covered subject_id network_id asset_type native source_address_id min_balance gas_limit
                      max_fee exclude observation db2) (\<lambda>_. Inr db2))))))"

section \<open>Preparing a payment\<close>

definition transfer_dump :: "unsigned_transfer \<Rightarrow> json" where
  "transfer_dump t = JObj
     [(''chain_id'', JInt (ut_chain_id t)), (''nonce'', JInt (ut_nonce t)), (''gas_limit'', JInt (ut_gas_limit t)),
      (''max_fee_per_gas'', JStr (ut_max_fee_per_gas t)), (''source_address'', JStr (ut_source_address t)),
      (''to_address'', JStr (ut_to_address t)), (''value'', JStr (ut_value t)), (''data'', JStr (ut_data t)),
      (''asset_type'', JStr (ut_asset_type t)), (''contract_address'', json_opt (ut_contract_address t))]"

definition build_transfer :: "transfer_intent \<Rightarrow> unsigned_transfer res" where
  "build_transfer i = res_bind (validate_transfer_intent i) build"

definition attempt_request_id :: "string \<Rightarrow> int \<Rightarrow> string" where
  "attempt_request_id order_id n = order_id @ '':attempt:'' @ show_int n"

text \<open>The policy check both paths start with.\<close>

definition authorize_payment ::
    "env \<Rightarrow> bool \<Rightarrow> order_row \<Rightarrow> string \<Rightarrow> string \<Rightarrow> 'a wallet_db_scheme
      \<Rightarrow> (policy_row \<times> 'a wallet_db_scheme) res" where
  "authorize_payment E evidence order subject_id message db =
     (case subject_policy subject_id db of
        None \<Rightarrow> Inl (ValueError ''wallet payment execution is emergency paused or disabled'')
      | Some p \<Rightarrow>
          if po_emergency_paused p \<or> po_mode p = ''disabled''
          then Inl (ValueError ''wallet payment execution is emergency paused or disabled'')
          else res_bind (policy_allows E evidence order (Some p) (Some (or_order_id order)) db) (\<lambda>(ok, db1).
            if ok then Inr (p, db1) else Inl (ValueError message)))"

definition fee_reserve :: "order_row \<Rightarrow> policy_row \<Rightarrow> string" where
  "fee_reserve order p = (if or_payment_mode order = ''automatic'' then ''0'' else po_min_balance p)"

definition new_attempt ::
    "env \<Rightarrow> string \<Rightarrow> string \<Rightarrow> string \<Rightarrow> int \<Rightarrow> string \<Rightarrow> string \<Rightarrow> string \<Rightarrow> attempt_row" where
  "new_attempt E attempt_id execution_id subject_id n request_id now audit_id =
     (let a = \<lparr>at_attempt_id = attempt_id, at_execution_id = execution_id, at_subject_id = subject_id,
               at_attempt_number = n, at_request_id = request_id, at_status = ''signing'', at_tx_hash = None,
               at_error_code = None, at_started_at = now, at_completed_at = None, at_state_hash = '''',
               at_created_audit_id = audit_id\<rparr>
      in a\<lparr>at_state_hash := attempt_hash E a\<rparr>)"

definition start_attempt ::
    "env \<Rightarrow> string \<Rightarrow> string \<Rightarrow> int \<Rightarrow> string \<Rightarrow> string \<Rightarrow> string \<Rightarrow> 'a wallet_db_scheme \<Rightarrow> ('a wallet_db_scheme) res" where
  "start_attempt E execution_id subject_id n request_id now audit_id db =
     (let (attempt_id, db1) = new_id E ''wallet_attempt'' db
      in insert_attempt (new_attempt E attempt_id execution_id subject_id n request_id now audit_id) db1)"

definition execution_intent :: "execution_row \<Rightarrow> transfer_intent" where
  "execution_intent r =
     \<lparr>ti_order_id = ex_order_id r, ti_subject_id = ex_subject_id r, ti_network_id = ex_network_id r,
      ti_asset_id = ex_asset_id r, ti_asset_type = ex_asset_type r, ti_contract_address = ex_contract_address r,
      ti_source_address = ex_source_address r, ti_recipient_address = ex_recipient_address r, ti_amount = ex_amount r,
      ti_chain_id = ex_chain_id r, ti_nonce = ex_nonce r, ti_gas_limit = ex_gas_limit r,
      ti_max_fee_per_gas = ex_max_fee_per_gas r\<rparr>"

text \<open>A retry keeps the nonce, the fees and the envelope of the execution and starts a new attempt.\<close>

definition prepare_retry ::
    "env \<Rightarrow> bool \<Rightarrow> signer \<Rightarrow> string \<Rightarrow> string \<Rightarrow> string \<Rightarrow> string \<Rightarrow> 'a wallet_db_scheme
      \<Rightarrow> ((execution_record \<times> unsigned_transfer \<times> string) \<times> 'a wallet_db_scheme) res" where
  "prepare_retry E evidence sg order_id subject_id actor reason db =
     res_bind (validate_subject_id subject_id) (\<lambda>_.
     res_bind (get_order order_id subject_id db) (\<lambda>order.
     if or_status order \<noteq> ''unknown'' then Inl (InvalidTransitionError ''only unknown orders can be retried'')
     else res_bind (authorize_payment E evidence order subject_id ''wallet payment policy no longer authorizes retry'' db)
       (\<lambda>(p, db1).
       case fetchone (\<lambda>r. ex_order_id r = order_id \<and> ex_subject_id r = subject_id) (wallet_payment_executions db1) of
         None \<Rightarrow> Inl (IntegrityError ''unknown order execution is missing'')
       | Some x \<Rightarrow>
           if ex_signer_id x \<noteq> sg_signer_id sg then Inl (ValueError ''unknown execution signer identity changed'')
           else if ex_attempt_count x + 1 > 32 then Inl (ValueError ''wallet execution retry limit reached'')
           else
             let n = ex_attempt_count x + 1; request_id = attempt_request_id order_id n
             in res_bind (build_transfer (execution_intent x)) (\<lambda>transfer.
                case spending_address subject_id (ex_network_id x) db1 of
                  None \<Rightarrow> Inl (WalletExecutionError ''wallet retry spending address changed'')
                | Some source \<Rightarrow>
                    if ad_address source \<noteq> ex_source_address x
                    then Inl (WalletExecutionError ''wallet retry spending address changed'')
                    else res_bind (check_observed_fee_budget E subject_id (ex_network_id x) (ex_asset_type x)
                         (ad_address_id source) (fee_reserve order p) (ex_gas_limit x) (ex_max_fee_per_gas x)
                         (po_max_observation_age_seconds p) (Some (ex_execution_id x)) db1) (\<lambda>db2.
                      res_bind (wallet_audit E subject_id ''wallet_payment_execution_retry'' actor
                        [(''order_id'', JStr order_id), (''attempt_number'', JInt n), (''reason'', JStr reason)] db2)
                        (\<lambda>(aid, db3).
                      res_bind (transition_order E order ''signing'' actor reason db3) (\<lambda>db4.
                        let (now, db5) = utc_now E db4; u = no_receipt ''signing'' (ex_tx_hash x) None
                        in res_bind (update_execution x
                             (\<lambda>r. (with_outcome u n now r)\<lparr>ex_last_audit_id := aid,
                                    ex_state_hash := execution_hash_values_from_row E x u n now\<rparr>) db5) (\<lambda>db6.
                           res_bind (start_attempt E (ex_execution_id x) subject_id n request_id now aid db6) (\<lambda>db7.
                           res_bind (read_execution (ex_execution_id x) db7) (\<lambda>(r, db8).
                             Inr ((r, transfer, request_id), db8))))))))))) "

definition nonce_for ::
    "signer \<Rightarrow> int option \<Rightarrow> string \<Rightarrow> string \<Rightarrow> string \<Rightarrow> int \<Rightarrow> 'a wallet_db_scheme \<Rightarrow> int res" where
  "nonce_for sg nonce subject_id network_id source chain_id db =
     (case nonce of
        Some n \<Rightarrow> Inr n
      | None \<Rightarrow>
          (case sg_pending_nonce sg of
             None \<Rightarrow> Inl (WalletExecutionError ''wallet nonce authority unavailable'')
           | Some provider \<Rightarrow>
               (case provider source chain_id of
                  None \<Rightarrow> Inl (WalletExecutionError ''wallet nonce authority unavailable'')
                | Some n \<Rightarrow>
                    if n < 0 \<or> n > sqlite_int64_max
                    then Inl (WalletExecutionError ''wallet nonce authority returned invalid nonce'')
                    else if \<exists>x\<in>set (wallet_payment_executions db). ex_subject_id x = subject_id
                           \<and> ex_network_id x = network_id \<and> ex_source_address x = source
                           \<and> live_execution x \<and> n \<le> ex_nonce x
                    then Inl (WalletExecutionError ''wallet nonce authority is behind local history'')
                    else Inr n)))"

text \<open>The signer's quote, for what the operator did not fix: gas limit and fee.\<close>

definition quoted_fees ::
    "signer \<Rightarrow> unsigned_transfer \<Rightarrow> (int \<times> string) res" where
  "quoted_fees sg transfer =
     (case sg_fee_quote sg of
        None \<Rightarrow> Inl (WalletExecutionError ''wallet fee authority unavailable'')
      | Some quote \<Rightarrow>
          (case res_bind (quote transfer) (\<lambda>(gas, fee).
                  if gas < 21000 \<or> gas > max_gas_limit
                  then Inl (WalletExecutionError ''wallet fee quote gas limit is invalid'')
                  else res_bind (uint fee ''wallet fee quote max fee per gas'' True) (\<lambda>f. Inr (gas, f))) of
             Inr v \<Rightarrow> Inr v
           | Inl (WalletExecutionError m) \<Rightarrow> Inl (WalletExecutionError m)
           | Inl _ \<Rightarrow> Inl (WalletExecutionError ''wallet fee quote unavailable'')))"

definition order_intent ::
    "order_row \<Rightarrow> asset_row \<Rightarrow> network_row \<Rightarrow> address_row \<Rightarrow> int \<Rightarrow> int \<Rightarrow> string \<Rightarrow> transfer_intent" where
  "order_intent order asset network source nonce gas fee =
     \<lparr>ti_order_id = or_order_id order, ti_subject_id = or_subject_id order, ti_network_id = or_network_id order,
      ti_asset_id = or_asset_id order, ti_asset_type = as_asset_type asset,
      ti_contract_address = as_contract_address asset, ti_source_address = ad_address source,
      ti_recipient_address = or_recipient_address order, ti_amount = or_amount order,
      ti_chain_id = nw_chain_id network, ti_nonce = nonce, ti_gas_limit = gas, ti_max_fee_per_gas = fee\<rparr>"

definition new_execution ::
    "env \<Rightarrow> string \<Rightarrow> order_row \<Rightarrow> asset_row \<Rightarrow> network_row \<Rightarrow> address_row \<Rightarrow> int \<Rightarrow> int \<Rightarrow> string \<Rightarrow> string
      \<Rightarrow> unsigned_transfer \<Rightarrow> string \<Rightarrow> string \<Rightarrow> string \<Rightarrow> execution_row" where
  "new_execution E execution_id order asset network source nonce gas fee request_id transfer signer_id audit_id now =
     (let r = \<lparr>ex_execution_id = execution_id, ex_subject_id = or_subject_id order, ex_order_id = or_order_id order,
               ex_network_id = or_network_id order, ex_asset_id = or_asset_id order,
               ex_source_address = ad_address source, ex_recipient_address = or_recipient_address order,
               ex_asset_type = as_asset_type asset, ex_contract_address = as_contract_address asset,
               ex_amount = or_amount order, ex_chain_id = nw_chain_id network, ex_nonce = nonce, ex_gas_limit = gas,
               ex_max_fee_per_gas = fee, ex_request_id = request_id,
               ex_request_hash = content_hash (env_sha256 E) (transfer_dump transfer), ex_signer_id = signer_id,
               ex_status = ''signing'', ex_tx_hash = None, ex_error_code = None, ex_receipt_status = None,
               ex_receipt_block_number = None, ex_receipt_block_hash = None, ex_receipt_confirmations = None,
               ex_receipt_effect_hash = None, ex_attempt_count = 1, ex_state_hash = '''',
               ex_created_audit_id = audit_id, ex_last_audit_id = audit_id, ex_created_at = now, ex_updated_at = now\<rparr>
      in r\<lparr>ex_state_hash := execution_hash E r\<rparr>)"

text \<open>The arguments an operator may fix, checked before the transaction.\<close>

definition checked_fee :: "string \<Rightarrow> int option \<Rightarrow> string option \<Rightarrow> int option \<Rightarrow> string res" where
  "checked_fee default_fee gas_limit max_fee nonce =
     (if \<exists>g. gas_limit = Some g \<and> (g < 21000 \<or> g > max_gas_limit) then Inl (ValueError ''wallet gas limit is invalid'')
      else res_bind (case max_fee of None \<Rightarrow> Inr default_fee | Some f \<Rightarrow> uint f ''max fee per gas'' True) (\<lambda>fee.
        if \<exists>n. nonce = Some n \<and> (n < 0 \<or> n > sqlite_int64_max) then Inl (ValueError ''wallet nonce is invalid'')
        else Inr fee))"

definition priced_transfer ::
    "signer \<Rightarrow> order_row \<Rightarrow> asset_row \<Rightarrow> network_row \<Rightarrow> address_row \<Rightarrow> int \<Rightarrow> string \<Rightarrow> int option \<Rightarrow> string option
      \<Rightarrow> (unsigned_transfer \<times> int \<times> string) res" where
  "priced_transfer sg order asset network source nonce fee gas_limit max_fee =
     (let gas = (case gas_limit of Some g \<Rightarrow> g | None \<Rightarrow> if as_asset_type asset = ''native'' then 21000 else 100000)
      in res_bind (build_transfer (order_intent order asset network source nonce gas fee)) (\<lambda>transfer.
           if gas_limit \<noteq> None \<and> max_fee \<noteq> None then Inr (transfer, gas, fee)
           else res_bind (quoted_fees sg transfer) (\<lambda>(quoted_gas, quoted_fee).
             let gas' = (if gas_limit \<noteq> None then gas else quoted_gas); fee' = (if max_fee \<noteq> None then fee else quoted_fee)
             in res_bind (build_transfer (order_intent order asset network source nonce gas' fee')) (\<lambda>transfer'.
                  Inr (transfer', gas', fee')))))"

definition start_execution ::
    "env \<Rightarrow> signer \<Rightarrow> order_row \<Rightarrow> asset_row \<Rightarrow> network_row \<Rightarrow> address_row \<Rightarrow> int \<Rightarrow> unsigned_transfer \<Rightarrow> int \<Rightarrow> string
      \<Rightarrow> string \<Rightarrow> 'a wallet_db_scheme
      \<Rightarrow> ((execution_record \<times> unsigned_transfer \<times> string) \<times> 'a wallet_db_scheme) res" where
  "start_execution E sg order asset network source nonce transfer gas fee actor db =
     (let subject_id = or_subject_id order; request_id = or_order_id order @ '':attempt:1'';
          (execution_id, db1) = new_id E ''wallet_exec'' db;
          (now, db2) = utc_now E db1
      in res_bind (wallet_audit E subject_id ''wallet_payment_execution_signing'' actor
           [(''order_id'', JStr (or_order_id order)), (''request_id'', JStr request_id), (''signer_id'', JStr (sg_signer_id sg))]
           db2) (\<lambda>(aid, db3).
         res_bind (transition_order E order ''signing'' actor ''execution started'' db3) (\<lambda>db4.
         res_bind (insert_execution (new_execution E execution_id order asset network source nonce gas fee request_id
             transfer (sg_signer_id sg) aid now) db4) (\<lambda>db5.
         res_bind (start_attempt E execution_id subject_id 1 request_id now aid db5) (\<lambda>db6.
         res_bind (read_execution execution_id db6) (\<lambda>(r, db7). Inr ((r, transfer, request_id), db7)))))))"

definition prepare_execution ::
    "env \<Rightarrow> bool \<Rightarrow> signer \<Rightarrow> string \<Rightarrow> string \<Rightarrow> string \<Rightarrow> string \<Rightarrow> int option \<Rightarrow> string option \<Rightarrow> int option
      \<Rightarrow> 'a wallet_db_scheme \<Rightarrow> ((execution_record \<times> unsigned_transfer \<times> string) \<times> 'a wallet_db_scheme) res" where
  "prepare_execution E evidence sg default_fee order_id subject_id actor gas_limit max_fee nonce db =
     res_bind (validate_subject_id subject_id) (\<lambda>_.
     res_bind (checked_fee default_fee gas_limit max_fee nonce) (\<lambda>fee.
     res_bind (get_order order_id subject_id db) (\<lambda>order.
     if or_status order \<noteq> ''reserved'' then Inl (InvalidTransitionError ''only reserved orders can execute'')
     else res_bind (authorize_payment E evidence order subject_id ''wallet payment execution is no longer authorized'' db)
       (\<lambda>(p, db1).
     res_bind (asset_row_of (or_asset_id order) subject_id db1) (\<lambda>asset.
     res_bind (network_row_of (or_network_id order) subject_id db1) (\<lambda>network.
     if as_status asset \<noteq> ''active'' \<or> nw_status network \<noteq> ''active'' \<or> as_network_id asset \<noteq> nw_network_id network
     then Inl (ValueError ''wallet execution references are not active'')
     else (case spending_address subject_id (or_network_id order) db1 of
         None \<Rightarrow> Inl (ValueError ''wallet spending address must have exactly one active address'')
       | Some source \<Rightarrow>
           if ad_address source = or_recipient_address order
           then Inl (ValueError ''wallet source and recipient must differ'')
           else
             res_bind (nonce_for sg nonce subject_id (or_network_id order) (ad_address source) (nw_chain_id network) db1)
               (\<lambda>nonce_value.
             res_bind (priced_transfer sg order asset network source nonce_value fee gas_limit max_fee)
               (\<lambda>(transfer, gas, fee').
             res_bind (check_observed_fee_budget E subject_id (or_network_id order) (as_asset_type asset)
                 (ad_address_id source) (fee_reserve order p) gas fee' (po_max_observation_age_seconds p) None db1)
               (start_execution E sg order asset network source nonce_value transfer gas fee' actor))))))))))"

end
