(* ===== verification/WalletDispatch.thy ===== *)
theory WalletDispatch
  imports WalletExecution
begin

text \<open>
  The methods of \<open>WalletPaymentExecutionEngine\<close> (\<^verbatim>\<open>wallet/execution.py\<close>) that talk to the signer,
  composed of the transactions of \<open>WalletExecution\<close>, and its integrity check.  A method commits
  several transactions, so its result is the value or the error together with the database the
  committed transactions left.  The signer is a parameter: what it answered.
\<close>

section \<open>Reason codes\<close>

definition reason_codes :: "string list" where
  "reason_codes = [''insufficient_balance'', ''gas_too_high'', ''nonce_conflict'', ''confirmation_timeout'',
     ''chain_reorg'', ''rpc_unavailable'', ''fee_quote_unavailable'', ''broadcast_unknown'', ''receipt_failed'',
     ''reconcile_required'']"

definition normalize_reason_code :: "string option \<Rightarrow> string" where
  "normalize_reason_code value =
     (case value of
        None \<Rightarrow> ''none''
      | Some v \<Rightarrow> if v \<in> set reason_codes then v else if v \<noteq> [] then ''unknown'' else ''none'')"

definition reason_projection :: "execution_record \<Rightarrow> string \<times> string option" where
  "reason_projection x = (normalize_reason_code (er_error_code x), er_error_code x)"

definition signer_reason_codes :: "string list" where
  "signer_reason_codes = [''signer_rejected'', ''insufficient_balance'', ''gas_too_high'', ''nonce_conflict'', ''rpc_unavailable'']"

definition signer_error_code :: "string \<Rightarrow> string" where
  "signer_error_code reason = (if reason \<in> set signer_reason_codes then reason else ''signer_rejected'')"

section \<open>Checking what the signer answers\<close>

definition valid_broadcast_result :: "broadcast_result \<Rightarrow> unsigned_transfer \<Rightarrow> bool" where
  "valid_broadcast_result r t =
     (bc_chain_id r = ut_chain_id t \<and> bc_nonce r = ut_nonce t \<and> hash_pattern (bc_tx_hash r)
      \<and> 1 \<le> length (py_strip (bc_accepted_at r)) \<and> length (py_strip (bc_accepted_at r)) \<le> 128)"

definition expected_effect_hash :: "env \<Rightarrow> execution_record \<Rightarrow> string \<Rightarrow> string" where
  "expected_effect_hash E x tx =
     ''0x'' @ content_hash (env_sha256 E) (JObj
       [(''tx_hash'', JStr (map lower_char tx)), (''chain_id'', JInt (er_chain_id x)),
        (''asset_type'', JStr (er_asset_type x)), (''contract_address'', json_opt (er_contract_address x)),
        (''recipient_address'', JStr (er_recipient_address x)), (''amount'', JStr (er_amount x))])"

definition valid_receipt :: "env \<Rightarrow> int \<Rightarrow> receipt \<Rightarrow> execution_record \<Rightarrow> bool" where
  "valid_receipt E min_confirmations c x =
     (case er_tx_hash x of
        None \<Rightarrow> False
      | Some tx \<Rightarrow>
          hash_pattern (rc_tx_hash c) \<and> map lower_char (rc_tx_hash c) = map lower_char tx
          \<and> rc_chain_id c = er_chain_id x \<and> rc_status c \<in> {0, 1}
          \<and> (\<exists>n. rc_block_number c = Some n \<and> 0 \<le> n \<and> n \<le> sqlite_int64_max)
          \<and> (\<exists>h. rc_block_hash c = Some h \<and> hash_pattern h)
          \<and> min_confirmations \<le> rc_confirmations c \<and> rc_confirmations c \<le> sqlite_int64_max
          \<and> (er_asset_type x \<noteq> ''token'' \<or> rc_status c = 0
             \<or> (\<exists>h. rc_effect_hash c = Some h \<and> hash_pattern h \<and> map lower_char h = expected_effect_hash E x tx)))"

text \<open>The answer of \<open>get_receipt\<close>: a receipt, none yet, or the exception it raised.\<close>

datatype receipt_reply =
    ReceiptFound receipt
  | ReceiptAbsent
  | ReceiptRPCError string
  | ReceiptSignerError string
  | ReceiptExecutionError string
  | ReceiptFailure

definition transport_messages :: "string list" where
  "transport_messages = [''wallet signer receipt lookup failed'', ''local wallet rpc request failed'',
     ''local wallet rpc deadline exceeded'']"

section \<open>Receipts\<close>

text \<open>The hashes to look up: the execution's own first, then those of its attempts, newest first.\<close>

definition add_hash :: "env \<Rightarrow> attempt_row \<Rightarrow> string list \<Rightarrow> string list res" where
  "add_hash E a hs =
     (if at_state_hash a \<noteq> attempt_hash E a then Inl (IntegrityError ''wallet execution attempt hash mismatch'')
      else (case at_tx_hash a of
          None \<Rightarrow> Inr hs
        | Some h \<Rightarrow> res_bind (canonical_tx_hash h) (\<lambda>tx. Inr (if tx \<in> set hs then hs else hs @ [tx]))))"

definition known_hashes :: "env \<Rightarrow> execution_record \<Rightarrow> 'a wallet_db_scheme \<Rightarrow> string list res" where
  "known_hashes E x db =
     res_fold (add_hash E)
       (take 32 (rev (fetchall_by (\<lambda>a. at_execution_id a = er_execution_id x \<and> at_subject_id a = er_subject_id x)
          at_attempt_number (wallet_payment_execution_attempts db))))
       (case er_tx_hash x of None \<Rightarrow> [] | Some h \<Rightarrow> [h])"

fun first_receipt ::
    "env \<Rightarrow> int \<Rightarrow> (string \<Rightarrow> int \<Rightarrow> receipt_reply) \<Rightarrow> execution_record \<Rightarrow> string list \<Rightarrow> string option
      \<Rightarrow> receipt option \<times> string option" where
  "first_receipt E m get_receipt x [] err = (None, err)"
| "first_receipt E m get_receipt x (tx # txs) err =
     (case get_receipt tx (er_chain_id x) of
        ReceiptRPCError code \<Rightarrow> first_receipt E m get_receipt x txs (Some code)
      | ReceiptSignerError code \<Rightarrow>
          let c = signer_error_code code
          in first_receipt E m get_receipt x txs (Some (if c = ''signer_rejected'' then ''reconcile_required'' else c))
      | ReceiptExecutionError message \<Rightarrow>
          first_receipt E m get_receipt x txs
            (Some (if map lower_char message \<in> set transport_messages then ''rpc_unavailable'' else ''reconcile_required''))
      | ReceiptFailure \<Rightarrow> first_receipt E m get_receipt x txs (Some ''reconcile_required'')
      | ReceiptAbsent \<Rightarrow> first_receipt E m get_receipt x txs err
      | ReceiptFound c \<Rightarrow>
          if valid_receipt E m c (x\<lparr>er_tx_hash := Some tx\<rparr>) then (Some c, None)
          else first_receipt E m get_receipt x txs (Some ''reconcile_required''))"

definition lookup_receipt ::
    "env \<Rightarrow> int \<Rightarrow> (string \<Rightarrow> int \<Rightarrow> receipt_reply) \<Rightarrow> execution_record \<Rightarrow> 'a wallet_db_scheme
      \<Rightarrow> (receipt option \<times> string option) res" where
  "lookup_receipt E m get_receipt x db =
     res_bind (known_hashes E x db) (\<lambda>hs. Inr (first_receipt E m get_receipt x hs None))"

definition confirmation_timed_out :: "env \<Rightarrow> int \<Rightarrow> execution_record \<Rightarrow> 'a wallet_db_scheme \<Rightarrow> bool \<times> 'a wallet_db_scheme" where
  "confirmation_timed_out E timeout x db =
     (if timeout = 0 then (True, db)
      else let (now, db1) = utc_now E db
           in (case micros_between now (er_updated_at x) of
                 Inl _ \<Rightarrow> (False, db1)
               | Inr age \<Rightarrow> (timeout * 1000000 \<le> age, db1)))"

text \<open>A method's transaction: an error leaves the database as it was.\<close>

definition commit :: "'d \<Rightarrow> ('r \<times> 'd) res \<Rightarrow> 'r res \<times> 'd" where
  "commit db m = (case m of Inl e \<Rightarrow> (Inl e, db) | Inr (r, db1) \<Rightarrow> (Inr r, db1))"

definition apply_receipt ::
    "env \<Rightarrow> string \<Rightarrow> string \<Rightarrow> string \<Rightarrow> receipt \<Rightarrow> 'a wallet_db_scheme \<Rightarrow> execution_record res \<times> 'a wallet_db_scheme" where
  "apply_receipt E execution_id subject_id actor c db =
     commit db (if rc_status c = 1 then mark_confirmed E execution_id subject_id actor c db
                else mark_failed E execution_id subject_id actor ''receipt_failed'' (Some c) db)"

definition poll_receipt ::
    "env \<Rightarrow> int \<Rightarrow> int \<Rightarrow> (string \<Rightarrow> int \<Rightarrow> receipt_reply) \<Rightarrow> string \<Rightarrow> string \<Rightarrow> string \<Rightarrow> 'a wallet_db_scheme
      \<Rightarrow> execution_record res \<times> 'a wallet_db_scheme" where
  "poll_receipt E m timeout get_receipt execution_id subject_id actor db =
     (case operator_name actor of
        Inl e \<Rightarrow> (Inl e, db)
      | Inr actor \<Rightarrow>
     (case get_execution execution_id subject_id db of
        Inl e \<Rightarrow> (Inl e, db)
      | Inr x \<Rightarrow>
          if er_status x \<notin> {''broadcast'', ''unknown''} then (Inr x, db)
          else (case lookup_receipt E m get_receipt x db of
              Inl e \<Rightarrow> (Inl e, db)
            | Inr (None, Some code) \<Rightarrow>
                if er_status x = ''unknown'' then (Inr x, db)
                else commit db (mark_unknown E execution_id subject_id actor (er_tx_hash x) code db)
            | Inr (None, None) \<Rightarrow>
                if er_status x \<noteq> ''broadcast'' then (Inr x, db)
                else (case confirmation_timed_out E timeout x db of
                    (True, db1) \<Rightarrow>
                      commit db1 (mark_unknown E execution_id subject_id actor (er_tx_hash x) ''confirmation_timeout'' db1)
                  | (False, db1) \<Rightarrow> (Inr x, db1))
            | Inr (Some c, _) \<Rightarrow> apply_receipt E execution_id subject_id actor c db)))"

definition receipt_unchanged :: "receipt \<Rightarrow> execution_record \<Rightarrow> bool" where
  "receipt_unchanged c x =
     (rc_block_number c = er_receipt_block_number x \<and> rc_block_hash c = er_receipt_block_hash x
      \<and> (\<exists>n. er_receipt_confirmations x = Some n \<and> n \<le> rc_confirmations c)
      \<and> rc_effect_hash c = er_receipt_effect_hash x)"

definition verify_confirmed_receipt ::
    "env \<Rightarrow> int \<Rightarrow> (string \<Rightarrow> int \<Rightarrow> receipt_reply) \<Rightarrow> string \<Rightarrow> string \<Rightarrow> 'a wallet_db_scheme \<Rightarrow> execution_record res" where
  "verify_confirmed_receipt E m get_receipt execution_id subject_id db =
     res_bind (get_execution execution_id subject_id db) (\<lambda>x.
       case er_tx_hash x of
         None \<Rightarrow> Inl (InvalidTransitionError ''wallet execution is not confirmed'')
       | Some tx \<Rightarrow>
           if er_status x \<noteq> ''confirmed'' then Inl (InvalidTransitionError ''wallet execution is not confirmed'')
           else (case get_receipt tx (er_chain_id x) of
               ReceiptAbsent \<Rightarrow> Inl (WalletChainReorganizationError ''confirmed wallet receipt is no longer canonical'')
             | ReceiptFound c \<Rightarrow>
                 if \<not> valid_receipt E m c x \<or> rc_status c \<noteq> 1
                 then Inl (WalletChainReorganizationError ''confirmed wallet receipt is no longer canonical'')
                 else if \<not> receipt_unchanged c x
                 then Inl (WalletChainReorganizationError ''confirmed wallet receipt evidence changed'')
                 else Inr x
             | _ \<Rightarrow> Inl (WalletExecutionError ''confirmed receipt lookup is unknown'')))"

section \<open>Dispatch\<close>

text \<open>What \<open>sign_and_broadcast\<close> ends with: a result, or the exception the callers distinguish.\<close>

datatype sign_result =
    Accepted broadcast_result
  | Invalidated
  | DispatchDenied
  | BroadcastUnknown "string option"
  | SignerError string
  | SignerFailure

text \<open>The check made when the payment is about to be sent.\<close>

definition authorize_dispatch ::
    "env \<Rightarrow> bool \<Rightarrow> execution_record \<Rightarrow> unsigned_transfer \<Rightarrow> string \<Rightarrow> int \<Rightarrow> 'a wallet_db_scheme
      \<Rightarrow> (bool \<times> 'a wallet_db_scheme) res" where
  "authorize_dispatch E evidence x transfer request_id policy_version db =
     res_bind (get_order (er_order_id x) (er_subject_id x) db) (\<lambda>order.
     res_bind (get_execution (er_execution_id x) (er_subject_id x) db) (\<lambda>current.
       case subject_policy (er_subject_id x) db of
         None \<Rightarrow> Inr (False, db)
       | Some p \<Rightarrow>
           if po_policy_version p \<noteq> policy_version then Inr (False, db)
           else res_bind (wallet_payment_policy_state_hash E p) (\<lambda>h.
             if po_state_hash p \<noteq> h \<or> current \<noteq> x \<or> er_status current \<noteq> ''signing''
                \<or> er_request_hash current \<noteq> content_hash (env_sha256 E) (transfer_dump transfer)
                \<or> request_id \<noteq> attempt_request_id (er_order_id x) (er_attempt_count x)
             then Inr (False, db)
             else policy_allows E evidence order (Some p) (Some (er_order_id x)) db)))"

text \<open>
  \<open>lease\<close> says whether \<open>assert_current_lease\<close> returns, before and after the check.  A signer that
  fences its own dispatch repeats the check and may end with the same exceptions.
\<close>

definition sign_and_broadcast ::
    "env \<Rightarrow> bool \<Rightarrow> bool \<times> bool \<Rightarrow> (unsigned_transfer \<Rightarrow> string \<Rightarrow> sign_result) \<Rightarrow> execution_record \<Rightarrow> unsigned_transfer
      \<Rightarrow> string \<Rightarrow> int \<Rightarrow> 'a wallet_db_scheme \<Rightarrow> sign_result \<times> 'a wallet_db_scheme" where
  "sign_and_broadcast E evidence lease sign x transfer request_id policy_version db =
     (if \<not> fst lease then (Invalidated, db)
      else (case authorize_dispatch E evidence x transfer request_id policy_version db of
          Inl _ \<Rightarrow> (SignerFailure, db)
        | Inr (ok, db1) \<Rightarrow>
            if \<not> ok then (DispatchDenied, db1)
            else if \<not> snd lease then (Invalidated, db1)
            else (sign transfer request_id, db1)))"

text \<open>
  What \<open>execute_order\<close> (\<open>retry = False\<close>) and \<open>retry_unknown\<close> (\<open>retry = True\<close>) do with the outcome.
  A rejected retry stays unknown: it says nothing about an earlier broadcast.
\<close>

definition conclude_dispatch ::
    "env \<Rightarrow> bool \<Rightarrow> execution_record \<Rightarrow> string \<Rightarrow> string \<Rightarrow> unsigned_transfer \<Rightarrow> sign_result \<Rightarrow> 'a wallet_db_scheme
      \<Rightarrow> execution_record res \<times> 'a wallet_db_scheme" where
  "conclude_dispatch E retry x subject_id actor transfer result db =
     (let eid = er_execution_id x;
          unknown = (\<lambda>tx code. commit db (mark_unknown E eid subject_id actor tx code db));
          failed = (\<lambda>code. commit db (mark_failed E eid subject_id actor code None db));
          tx = (if retry then er_tx_hash x else None)
      in case result of
           Invalidated \<Rightarrow>
             (case unknown tx ''dispatch_authorization_changed'' of
                (Inl e, db1) \<Rightarrow> (Inl e, db1)
              | (Inr _, db1) \<Rightarrow> (Inl (OperationInvalidated ''operation lease is no longer current''), db1))
         | DispatchDenied \<Rightarrow>
             if retry then unknown tx ''dispatch_authorization_changed'' else failed ''dispatch_authorization_changed''
         | BroadcastUnknown h \<Rightarrow> unknown h ''broadcast_unknown''
         | SignerError code \<Rightarrow>
             if retry then unknown tx (signer_error_code code) else failed (signer_error_code code)
         | SignerFailure \<Rightarrow> unknown None ''signer_transport_unknown''
         | Accepted r \<Rightarrow>
             if \<not> valid_broadcast_result r transfer then unknown None ''signer_response_invalid''
             else (case mark_broadcast E eid subject_id actor r db of
                 Inl (WalletExecutionError _) \<Rightarrow> unknown (Some (bc_tx_hash r)) ''signer_response_invalid''
               | m \<Rightarrow> commit db m))"

definition dispatch ::
    "env \<Rightarrow> bool \<Rightarrow> bool \<times> bool \<Rightarrow> (unsigned_transfer \<Rightarrow> string \<Rightarrow> sign_result) \<Rightarrow> bool \<Rightarrow> string \<Rightarrow> string \<Rightarrow> int
      \<Rightarrow> execution_record \<times> unsigned_transfer \<times> string \<Rightarrow> 'a wallet_db_scheme \<Rightarrow> execution_record res \<times> 'a wallet_db_scheme" where
  "dispatch E evidence lease sign retry subject_id actor policy_version prepared db =
     (case prepared of (x, transfer, request_id) \<Rightarrow>
      case sign_and_broadcast E evidence lease sign x transfer request_id policy_version db of
        (result, db1) \<Rightarrow> conclude_dispatch E retry x subject_id actor transfer result db1)"

definition execute_order ::
    "env \<Rightarrow> bool \<Rightarrow> bool \<times> bool \<Rightarrow> signer \<Rightarrow> (unsigned_transfer \<Rightarrow> string \<Rightarrow> sign_result) \<Rightarrow> string \<Rightarrow> string \<Rightarrow> string
      \<Rightarrow> string \<Rightarrow> int option \<Rightarrow> string option \<Rightarrow> int option \<Rightarrow> 'a wallet_db_scheme
      \<Rightarrow> execution_record res \<times> 'a wallet_db_scheme" where
  "execute_order E evidence lease sg sign default_fee order_id subject_id actor gas_limit max_fee nonce db =
     (case operator_name actor of
        Inl e \<Rightarrow> (Inl e, db)
      | Inr actor \<Rightarrow>
     (case get_policy subject_id db of
        Inl e \<Rightarrow> (Inl e, db)
      | Inr policy \<Rightarrow>
     (case prepare_execution E evidence sg default_fee order_id subject_id actor gas_limit max_fee nonce db of
        Inl e \<Rightarrow> (Inl e, db)
      | Inr (prepared, db1) \<Rightarrow>
          dispatch E evidence lease sign False subject_id actor (qr_policy_version policy) prepared db1)))"

definition retry_unknown ::
    "env \<Rightarrow> bool \<Rightarrow> bool \<times> bool \<Rightarrow> int \<Rightarrow> signer \<Rightarrow> (unsigned_transfer \<Rightarrow> string \<Rightarrow> sign_result)
      \<Rightarrow> (string \<Rightarrow> int \<Rightarrow> receipt_reply) \<Rightarrow> string \<Rightarrow> string \<Rightarrow> string \<Rightarrow> string \<Rightarrow> 'a wallet_db_scheme
      \<Rightarrow> execution_record res \<times> 'a wallet_db_scheme" where
  "retry_unknown E evidence lease m sg sign get_receipt order_id subject_id actor reason db =
     (let reason = py_strip reason
      in if reason = [] \<or> length reason > 2000 then (Inl (ValueError ''unknown retry reason is invalid''), db)
         else
     (case operator_name actor of
        Inl e \<Rightarrow> (Inl e, db)
      | Inr actor \<Rightarrow>
     (case get_policy subject_id db of
        Inl e \<Rightarrow> (Inl e, db)
      | Inr policy \<Rightarrow>
     (case order_execution order_id subject_id db of
        Inl e \<Rightarrow> (Inl e, db)
      | Inr existing \<Rightarrow>
     (case (case existing of None \<Rightarrow> Inr (None, None) | Some x \<Rightarrow> lookup_receipt E m get_receipt x db) of
        Inl e \<Rightarrow> (Inl e, db)
      | Inr (Some c, _) \<Rightarrow> apply_receipt E (er_execution_id (the existing)) subject_id actor c db
      | Inr (None, _) \<Rightarrow>
     (case prepare_retry E evidence sg order_id subject_id actor reason db of
        Inl e \<Rightarrow> (Inl e, db)
      | Inr (prepared, db1) \<Rightarrow>
          dispatch E evidence lease sign True subject_id actor (qr_policy_version policy) prepared db1))))))"

section \<open>Attempts and integrity\<close>

record attempt_record =
  ar_attempt_id :: string
  ar_execution_id :: string
  ar_subject_id :: string
  ar_attempt_number :: int
  ar_request_id :: string
  ar_status :: string
  ar_tx_hash :: "string option"
  ar_error_code :: "string option"
  ar_started_at :: string
  ar_completed_at :: "string option"

definition attempt_from_row :: "attempt_row \<Rightarrow> attempt_record" where
  "attempt_from_row a =
     \<lparr>ar_attempt_id = at_attempt_id a, ar_execution_id = at_execution_id a, ar_subject_id = at_subject_id a,
      ar_attempt_number = at_attempt_number a, ar_request_id = at_request_id a, ar_status = at_status a,
      ar_tx_hash = at_tx_hash a, ar_error_code = at_error_code a, ar_started_at = at_started_at a,
      ar_completed_at = at_completed_at a\<rparr>"

definition list_attempts :: "string \<Rightarrow> string \<Rightarrow> nat \<Rightarrow> 'a wallet_db_scheme \<Rightarrow> attempt_record list res" where
  "list_attempts execution_id subject_id limit db =
     res_bind (validate_subject_id subject_id) (\<lambda>_.
       if limit < 1 \<or> 1000 < limit then Inl (ValueError ''invalid attempt limit'')
       else res_bind (find_execution execution_id subject_id db) (\<lambda>_.
         Inr (map attempt_from_row (take limit (rev (fetchall_by
           (\<lambda>a. at_execution_id a = execution_id \<and> at_subject_id a = subject_id) at_attempt_number
           (wallet_payment_execution_attempts db)))))))"

definition stored_attempts :: "execution_row \<Rightarrow> 'a wallet_db_scheme \<Rightarrow> attempt_row list" where
  "stored_attempts x db =
     filter (\<lambda>a. at_execution_id a = ex_execution_id x \<and> at_subject_id a = ex_subject_id x)
       (wallet_payment_execution_attempts db)"

text \<open>\<open>MIN\<close> and \<open>MAX\<close> of no rows are \<open>NULL\<close>, which differs from every number.\<close>

definition attempt_chain_broken :: "execution_row \<Rightarrow> 'a wallet_db_scheme \<Rightarrow> bool" where
  "attempt_chain_broken x db =
     (let stored = stored_attempts x db
      in int (length stored) \<noteq> ex_attempt_count x \<or> stored = []
         \<or> Min (at_attempt_number ` set stored) \<noteq> 1
         \<or> Max (at_attempt_number ` set stored) \<noteq> ex_attempt_count x
         \<or> map_option at_status (fetchone (\<lambda>a. at_attempt_number a = ex_attempt_count x) stored) \<noteq> Some (ex_status x))"

definition order_agrees :: "string \<Rightarrow> execution_row \<Rightarrow> 'a wallet_db_scheme \<Rightarrow> bool" where
  "order_agrees subject_id x db =
     (case fetchone (\<lambda>w. or_order_id w = ex_order_id x) (wallet_payment_orders db) of
        None \<Rightarrow> False
      | Some w \<Rightarrow> or_subject_id w = subject_id
          \<and> (or_status w = ex_status x \<or> or_status w = ''refunded'' \<and> ex_status x \<in> {''failed'', ''unknown''}))"

definition verify_execution_row :: "env \<Rightarrow> string \<Rightarrow> 'a wallet_db_scheme \<Rightarrow> execution_row \<Rightarrow> nat \<Rightarrow> nat res" where
  "verify_execution_row E subject_id db x n =
     (if ex_state_hash x \<noteq> execution_hash E x
      then Inl (IntegrityError (''wallet execution hash mismatch: '' @ ex_execution_id x))
      else if attempt_chain_broken x db
      then Inl (IntegrityError (''wallet execution attempt chain mismatch: '' @ ex_execution_id x))
      else if \<not> order_agrees subject_id x db
      then Inl (IntegrityError (''wallet execution order mismatch: '' @ ex_execution_id x))
      else Inr (Suc n))"

definition verify_attempt_row :: "env \<Rightarrow> attempt_row \<Rightarrow> nat \<Rightarrow> nat res" where
  "verify_attempt_row E a n =
     (if at_state_hash a \<noteq> attempt_hash E a
      then Inl (IntegrityError (''wallet execution attempt hash mismatch: '' @ at_attempt_id a))
      else Inr (Suc n))"

definition verify_database_integrity :: "env \<Rightarrow> string \<Rightarrow> 'a wallet_db_scheme \<Rightarrow> (nat \<times> nat) res" where
  "verify_database_integrity E subject_id db =
     res_bind (validate_subject_id subject_id) (\<lambda>_.
     res_bind (res_fold (verify_execution_row E subject_id db)
         (filter (\<lambda>x. ex_subject_id x = subject_id) (wallet_payment_executions db)) 0) (\<lambda>executions.
     res_bind (res_fold (verify_attempt_row E)
         (filter (\<lambda>a. at_subject_id a = subject_id) (wallet_payment_execution_attempts db)) 0) (\<lambda>attempts.
       Inr (executions, attempts))))"

end
