(* ===== verification/WalletOutcomes.thy ===== *)
theory WalletOutcomes
  imports WalletDispatch
begin

text \<open>
  The outcomes of a payment: what broadcasting, losing, failing, confirming, recovering and
  taking back a payment do to the tables, the invariant of the executions with their attempts
  (\<open>executions_inv\<close>), and that every outcome keeps it together with the ledger and the catalog.
\<close>

section \<open>Effects\<close>

definition settled :: "env \<Rightarrow> outcome \<Rightarrow> string \<Rightarrow> string \<Rightarrow> int \<Rightarrow> execution_row \<Rightarrow> execution_row" where
  "settled E u aid now n r =
     (with_outcome u n now r)\<lparr>ex_last_audit_id := aid, ex_state_hash := execution_hash E (with_outcome u n now r)\<rparr>"

lemma settled_simps [simp]:
  "ex_execution_id (settled E u aid now n r) = ex_execution_id r" "ex_subject_id (settled E u aid now n r) = ex_subject_id r"
  "ex_order_id (settled E u aid now n r) = ex_order_id r" "ex_status (settled E u aid now n r) = oc_status u"
  "ex_attempt_count (settled E u aid now n r) = n" "ex_network_id (settled E u aid now n r) = ex_network_id r"
  "ex_asset_id (settled E u aid now n r) = ex_asset_id r" "ex_recipient_address (settled E u aid now n r) = ex_recipient_address r"
  "ex_amount (settled E u aid now n r) = ex_amount r" "ex_request_hash (settled E u aid now n r) = ex_request_hash r"
  "ex_error_code (settled E u aid now n r) = oc_error_code u" "ex_receipt_status (settled E u aid now n r) = oc_receipt_status u"
  "ex_receipt_block_number (settled E u aid now n r) = oc_block_number u" "ex_receipt_block_hash (settled E u aid now n r) = oc_block_hash u"
  "ex_receipt_confirmations (settled E u aid now n r) = oc_confirmations u" "ex_receipt_effect_hash (settled E u aid now n r) = oc_effect_hash u"
  "ex_source_address (settled E u aid now n r) = ex_source_address r" "ex_nonce (settled E u aid now n r) = ex_nonce r"
  "ex_tx_hash (settled E u aid now n r) = oc_tx_hash u"
  "execution_intent (settled E u aid now n r) = execution_intent r"
  "ex_state_hash (settled E u aid now n r) = execution_hash E (settled E u aid now n r)"
  by (simp_all add: settled_def with_outcome_def execution_intent_def execution_hash_def execution_state_def)

lemma finished_attempt_simps [simp]:
  "at_attempt_id (finished_attempt E s tx code t a) = at_attempt_id a"
  "at_execution_id (finished_attempt E s tx code t a) = at_execution_id a"
  "at_subject_id (finished_attempt E s tx code t a) = at_subject_id a"
  "at_attempt_number (finished_attempt E s tx code t a) = at_attempt_number a"
  "at_request_id (finished_attempt E s tx code t a) = at_request_id a"
  "at_status (finished_attempt E s tx code t a) = s"
  "at_state_hash (finished_attempt E s tx code t a) = attempt_hash E (finished_attempt E s tx code t a)"
  by (simp_all add: finished_attempt_def attempt_hash_def attempt_state_def Let_def)

lemma update_execution_effect:
  "update_execution row f db = Inr db' \<Longrightarrow>
     db' = db\<lparr>wallet_payment_executions :=
       update_where (\<lambda>r. ex_execution_id r = ex_execution_id row) f (wallet_payment_executions db)\<rparr>"
  by (auto simp: update_execution_def update_guarded_Inr split: if_splits)

text \<open>Columns written one by one make the finished row.\<close>

lemma finished_attempt_columns:
  "a\<lparr>at_status := at_status (finished_attempt E s tx code t a), at_tx_hash := at_tx_hash (finished_attempt E s tx code t a),
     at_error_code := at_error_code (finished_attempt E s tx code t a),
     at_completed_at := at_completed_at (finished_attempt E s tx code t a),
     at_state_hash := at_state_hash (finished_attempt E s tx code t a)\<rparr> = finished_attempt E s tx code t a"
  by (cases a) (simp add: finished_attempt_def Let_def)

lemma update_where_columns:
  assumes "distinct (map k t)" "r \<in> set t" "f r = g r"
  shows "update_where (\<lambda>x. k x = k r) f t = update_where (\<lambda>x. k x = k r) g t"
  unfolding update_where_def using distinct_key_eq [OF assms(1) _ assms(2)] assms(3) by (intro map_cong) auto

lemma finish_attempt_effect:
  assumes "finish_attempt E x status tx code now db = Inr db'"
    and "distinct (map at_attempt_id (wallet_payment_execution_attempts db))"
  obtains a where "a \<in> set (wallet_payment_execution_attempts db)" "at_execution_id a = ex_execution_id x"
    "at_attempt_number a = ex_attempt_count x"
    "db' = db\<lparr>wallet_payment_execution_attempts := update_where (\<lambda>b. at_attempt_id b = at_attempt_id a)
       (finished_attempt E status tx code now) (wallet_payment_execution_attempts db)\<rparr>"
proof -
  obtain a where f: "fetchone (\<lambda>a. at_execution_id a = ex_execution_id x \<and> at_attempt_number a = ex_attempt_count x)
      (wallet_payment_execution_attempts db) = Some a"
    and db': "db' = db\<lparr>wallet_payment_execution_attempts := update_where (\<lambda>b. at_attempt_id b = at_attempt_id a)
       (\<lambda>b. b\<lparr>at_status := at_status (finished_attempt E status tx code now a),
          at_tx_hash := at_tx_hash (finished_attempt E status tx code now a),
          at_error_code := at_error_code (finished_attempt E status tx code now a),
          at_completed_at := at_completed_at (finished_attempt E status tx code now a),
          at_state_hash := at_state_hash (finished_attempt E status tx code now a)\<rparr>) (wallet_payment_execution_attempts db)\<rparr>"
    using assms(1) by (auto simp: finish_attempt_def Let_def update_guarded_Inr split: option.splits if_splits)
  have a: "a \<in> set (wallet_payment_execution_attempts db)" "at_execution_id a = ex_execution_id x"
    "at_attempt_number a = ex_attempt_count x" using fetchone_Some [OF f] by auto
  show thesis
  proof (rule that [OF a])
    show "db' = db\<lparr>wallet_payment_execution_attempts := update_where (\<lambda>b. at_attempt_id b = at_attempt_id a)
       (finished_attempt E status tx code now) (wallet_payment_execution_attempts db)\<rparr>"
      unfolding db' by (rule arg_cong [where f = "\<lambda>t. db\<lparr>wallet_payment_execution_attempts := t\<rparr>"],
          rule update_where_columns [OF assms(2) a(1)], rule finished_attempt_columns)
  qed
qed

lemma record_outcome_effect:
  assumes "record_outcome E x u set_columns aid db = Inr db'"
    and "distinct (map at_attempt_id (wallet_payment_execution_attempts db))"
    and x: "distinct (map ex_execution_id (wallet_payment_executions db))" "x \<in> set (wallet_payment_executions db)"
    and cols: "\<And>now. (set_columns x)\<lparr>ex_updated_at := now\<rparr> = with_outcome u (ex_attempt_count x) now x"
  obtains a now n where "a \<in> set (wallet_payment_execution_attempts db)" "at_execution_id a = ex_execution_id x"
    "at_attempt_number a = ex_attempt_count x"
    "db' = db\<lparr>ticks := n,
       wallet_payment_executions := update_where (\<lambda>r. ex_execution_id r = ex_execution_id x)
         (settled E u aid now (ex_attempt_count x)) (wallet_payment_executions db),
       wallet_payment_execution_attempts := update_where (\<lambda>b. at_attempt_id b = at_attempt_id a)
         (finished_attempt E (oc_status u) (oc_tx_hash u) (oc_error_code u) now) (wallet_payment_execution_attempts db)\<rparr>"
proof -
  define now where "now = env_clock E (ticks db)"
  define f where "f = (\<lambda>r. (set_columns r)\<lparr>ex_last_audit_id := aid, ex_updated_at := now,
     ex_state_hash := execution_hash_values_from_row E x u (ex_attempt_count x) now\<rparr>)"
  obtain db2 where up: "update_execution x f (db\<lparr>ticks := Suc (ticks db)\<rparr>) = Inr db2"
    and fin: "finish_attempt E x (oc_status u) (oc_tx_hash u) (oc_error_code u) now db2 = Inr db'"
    using assms(1) by (auto simp: record_outcome_def utc_now_def Let_def f_def now_def)
  have "f x = ((set_columns x)\<lparr>ex_updated_at := now\<rparr>)\<lparr>ex_last_audit_id := aid,
     ex_state_hash := execution_hash E (with_outcome u (ex_attempt_count x) now x)\<rparr>"
    by (simp add: f_def execution_hash_values_from_row_def)
  then have "f x = settled E u aid now (ex_attempt_count x) x"
    unfolding cols settled_def .
  note cols' = update_where_columns [where f = f and g = "settled E u aid now (ex_attempt_count x)", OF x this]
  have db2: "db2 = db\<lparr>ticks := Suc (ticks db),
       wallet_payment_executions := update_where (\<lambda>r. ex_execution_id r = ex_execution_id x)
         (settled E u aid now (ex_attempt_count x)) (wallet_payment_executions db)\<rparr>"
    using update_execution_effect [OF up] cols' by simp
  obtain a where "a \<in> set (wallet_payment_execution_attempts db2)" "at_execution_id a = ex_execution_id x"
    "at_attempt_number a = ex_attempt_count x"
    "db' = db2\<lparr>wallet_payment_execution_attempts := update_where (\<lambda>b. at_attempt_id b = at_attempt_id a)
       (finished_attempt E (oc_status u) (oc_tx_hash u) (oc_error_code u) now) (wallet_payment_execution_attempts db2)\<rparr>"
    by (rule finish_attempt_effect [OF fin]) (use assms(2) in \<open>simp_all add: db2\<close>)
  then show thesis by (intro that [where a = a and n = "Suc (ticks db)" and now = now]) (simp_all add: db2)
qed

section \<open>The invariant of executions\<close>

definition attempts_of :: "string \<Rightarrow> 'a wallet_db_scheme \<Rightarrow> attempt_row list" where
  "attempts_of i db = filter (\<lambda>a. at_execution_id a = i) (wallet_payment_execution_attempts db)"

definition pays :: "order_row \<Rightarrow> execution_row \<Rightarrow> bool" where
  "pays w x =
     (or_order_id w = ex_order_id x \<and> or_subject_id w = ex_subject_id x \<and> or_network_id w = ex_network_id x
      \<and> or_asset_id w = ex_asset_id x \<and> or_recipient_address w = ex_recipient_address x \<and> or_amount w = ex_amount x)"

definition status_agrees :: "order_row \<Rightarrow> execution_row \<Rightarrow> bool" where
  "status_agrees w x = (or_status w = ex_status x \<or> or_status w = ''refunded'' \<and> ex_status x = ''failed'')"

definition no_outcome :: "execution_row \<Rightarrow> bool" where
  "no_outcome x = (ex_error_code x = None \<and> ex_receipt_status x = None \<and> ex_receipt_block_number x = None
     \<and> ex_receipt_block_hash x = None \<and> ex_receipt_confirmations x = None \<and> ex_receipt_effect_hash x = None)"

definition envelope_ok :: "env \<Rightarrow> execution_row \<Rightarrow> bool" where
  "envelope_ok E x =
     (\<exists>t. build_transfer (execution_intent x) = Inr t \<and> ex_request_hash x = content_hash (env_sha256 E) (transfer_dump t))"

definition execution_row_ok :: "env \<Rightarrow> execution_row \<Rightarrow> bool" where
  "execution_row_ok E x =
     (ex_state_hash x = execution_hash E x \<and> ex_status x \<in> set execution_statuses
      \<and> 1 \<le> ex_attempt_count x \<and> ex_attempt_count x \<le> 32
      \<and> (ex_status x \<in> {''signing'', ''broadcast''} \<longrightarrow> no_outcome x) \<and> envelope_ok E x)"

definition attempts_ok :: "attempt_row list \<Rightarrow> execution_row \<Rightarrow> bool" where
  "attempts_ok as x =
     (map at_attempt_number as = map int [1..<Suc (nat (ex_attempt_count x))]
      \<and> at_status (last as) = ex_status x \<and> (\<forall>a\<in>set as. at_subject_id a = ex_subject_id x))"

definition executions_inv :: "env \<Rightarrow> 'a wallet_db_scheme \<Rightarrow> bool" where
  "executions_inv E db =
     (distinct (map or_order_id (wallet_payment_orders db))
      \<and> distinct (map ex_execution_id (wallet_payment_executions db))
      \<and> distinct (map ex_order_id (wallet_payment_executions db))
      \<and> distinct (map at_attempt_id (wallet_payment_execution_attempts db))
      \<and> (\<forall>x\<in>set (wallet_payment_executions db). execution_row_ok E x
           \<and> attempts_ok (attempts_of (ex_execution_id x) db) x
           \<and> (\<exists>w\<in>set (wallet_payment_orders db). pays w x \<and> status_agrees w x))
      \<and> (\<forall>a\<in>set (wallet_payment_execution_attempts db). at_state_hash a = attempt_hash E a
           \<and> at_execution_id a \<in> ex_execution_id ` set (wallet_payment_executions db)))"

lemma executions_invD:
  assumes "executions_inv E db"
  shows "distinct (map or_order_id (wallet_payment_orders db))" "distinct (map ex_execution_id (wallet_payment_executions db))"
    "distinct (map ex_order_id (wallet_payment_executions db))" "distinct (map at_attempt_id (wallet_payment_execution_attempts db))"
    "x \<in> set (wallet_payment_executions db) \<Longrightarrow> execution_row_ok E x"
    "x \<in> set (wallet_payment_executions db) \<Longrightarrow> attempts_ok (attempts_of (ex_execution_id x) db) x"
    "x \<in> set (wallet_payment_executions db) \<Longrightarrow> \<exists>w\<in>set (wallet_payment_orders db). pays w x \<and> status_agrees w x"
    "a \<in> set (wallet_payment_execution_attempts db) \<Longrightarrow> at_state_hash a = attempt_hash E a
       \<and> at_execution_id a \<in> ex_execution_id ` set (wallet_payment_executions db)"
  using assms by (simp_all add: executions_inv_def)

text \<open>The order of an execution is the one it pays, in the same state.\<close>

lemma order_of_execution:
  assumes "executions_inv E db" "x \<in> set (wallet_payment_executions db)"
    "w \<in> set (wallet_payment_orders db)" "or_order_id w = ex_order_id x"
  shows "pays w x" "status_agrees w x"
proof -
  obtain v where v: "v \<in> set (wallet_payment_orders db)" "pays v x" "status_agrees v x"
    using executions_invD(7) [OF assms(1,2)] by blast
  then have "v = w" using distinct_key_eq [OF executions_invD(1) [OF assms(1)] v(1) assms(3)] assms(4) by (simp add: pays_def)
  with v show "pays w x" "status_agrees w x" by simp_all
qed

definition outcome_ok :: "outcome \<Rightarrow> bool" where
  "outcome_ok u = (oc_status u \<in> {''unknown'', ''confirmed'', ''failed''}
     \<or> oc_status u = ''broadcast'' \<and> oc_error_code u = None \<and> oc_receipt_status u = None \<and> oc_block_number u = None
       \<and> oc_block_hash u = None \<and> oc_confirmations u = None \<and> oc_effect_hash u = None)"

text \<open>
  What every outcome does: the order moves, a confirmation posts the settlement, the execution
  takes the outcome and its last attempt is finished with it.
\<close>

definition ledger_view :: "'a wallet_db_scheme \<Rightarrow> order_row list \<times> journal_row list \<times> entry_row list" where
  "ledger_view db = (wallet_payment_orders db, wallet_ledger_journals db, wallet_ledger_entries db)"

definition order_path :: "env \<Rightarrow> order_row \<Rightarrow> string \<Rightarrow> 'a wallet_db_scheme \<Rightarrow> 'a wallet_db_scheme \<Rightarrow> bool" where
  "order_path E order target db db3 =
     (\<exists>db1 db2 actor reason. accounts db1 = accounts db \<and> catalog db1 = catalog db
        \<and> transition_order E order target actor reason db1 = Inr db2
        \<and> (if target = ''confirmed''
           then post_order_journal E order ''settlement'' (''reserved'', ''debit'') (''paid'', ''credit'') db2 = Inr db3
           else db3 = db2))"

definition outcome_path ::
    "env \<Rightarrow> execution_row \<Rightarrow> order_row \<Rightarrow> outcome \<Rightarrow> 'a wallet_db_scheme \<Rightarrow> 'a wallet_db_scheme \<Rightarrow> bool" where
  "outcome_path E x order u db db' =
     (x \<in> set (wallet_payment_executions db) \<and> order \<in> set (wallet_payment_orders db)
      \<and> or_order_id order = ex_order_id x \<and> outcome_ok u
      \<and> (\<exists>db3 aid now a. order_path E order (oc_status u) db db3
           \<and> a \<in> set (wallet_payment_execution_attempts db) \<and> at_execution_id a = ex_execution_id x
           \<and> at_attempt_number a = ex_attempt_count x
           \<and> catalog db' = catalog db3 \<and> ledger_view db' = ledger_view db3
           \<and> wallet_payment_executions db' = update_where (\<lambda>r. ex_execution_id r = ex_execution_id x)
               (settled E u aid now (ex_attempt_count x)) (wallet_payment_executions db)
           \<and> wallet_payment_execution_attempts db' = update_where (\<lambda>b. at_attempt_id b = at_attempt_id a)
               (finished_attempt E (oc_status u) (oc_tx_hash u) (oc_error_code u) now) (wallet_payment_execution_attempts db)))"

lemma find_execution_Inr:
  "find_execution eid sid db = Inr x \<Longrightarrow>
     x \<in> set (wallet_payment_executions db) \<and> ex_execution_id x = eid \<and> ex_subject_id x = sid"
  by (auto simp: find_execution_def split: option.splits dest: fetchone_Some)

lemma transition_order_executions:
  "transition_order E row target actor reason db = Inr db' \<Longrightarrow>
     wallet_payment_executions db' = wallet_payment_executions db
     \<and> wallet_payment_execution_attempts db' = wallet_payment_execution_attempts db"
  by (auto simp: transition_order_def utc_now_def Let_def update_guarded_Inr split: if_splits elim!: wallet_audit_frame)

lemma order_path_executions:
  assumes "order_path E order target db db3"
  shows "wallet_payment_executions db3 = wallet_payment_executions db
     \<and> wallet_payment_execution_attempts db3 = wallet_payment_execution_attempts db"
  using assms unfolding order_path_def
  by (auto simp: accounts_def dest!: transition_order_executions elim!: post_order_journal_effect split: if_splits)

lemma outcome_pathI:
  assumes inv: "executions_inv E db" and x: "x \<in> set (wallet_payment_executions db)"
    and order: "get_order (ex_order_id x) sid db = Inr order" and u: "outcome_ok u"
    and path: "order_path E order (oc_status u) db db3"
    and rec: "record_outcome E x u cols aid db3 = Inr db'"
    and cols: "\<And>now. (cols x)\<lparr>ex_updated_at := now\<rparr> = with_outcome u (ex_attempt_count x) now x"
  shows "outcome_path E x order u db db'"
proof -
  note ex = order_path_executions [OF path]
  obtain a now n where a: "a \<in> set (wallet_payment_execution_attempts db3)" "at_execution_id a = ex_execution_id x"
    "at_attempt_number a = ex_attempt_count x"
    "db' = db3\<lparr>ticks := n,
       wallet_payment_executions := update_where (\<lambda>r. ex_execution_id r = ex_execution_id x)
         (settled E u aid now (ex_attempt_count x)) (wallet_payment_executions db3),
       wallet_payment_execution_attempts := update_where (\<lambda>b. at_attempt_id b = at_attempt_id a)
         (finished_attempt E (oc_status u) (oc_tx_hash u) (oc_error_code u) now) (wallet_payment_execution_attempts db3)\<rparr>"
    using record_outcome_effect [OF rec _ _ _ cols] ex x executions_invD(2,4) [OF inv] by metis
  show ?thesis unfolding outcome_path_def
    by (intro conjI exI [of _ db3] exI [of _ aid] exI [of _ now] exI [of _ a] x u path)
      (use a ex get_order_Inr [OF order] in \<open>simp_all add: catalog_def ledger_view_def\<close>)
qed

section \<open>The outcomes\<close>

lemma order_pathI:
  assumes "wallet_audit E sid action actor payload db = Inr (aid, db1)" "transition_order E order target who reason db1 = Inr db2"
    "target \<noteq> ''confirmed''"
  shows "order_path E order target db db2"
  unfolding order_path_def using assms wallet_audit_accounts [OF assms(1)] wallet_audit_catalog [OF assms(1)] by auto

lemma live_no_outcome:
  assumes "executions_inv E db" "x \<in> set (wallet_payment_executions db)" "get_order (ex_order_id x) sid db = Inr order"
    "or_status order \<in> {''signing'', ''broadcast''}"
  shows "no_outcome x" "ex_status x = or_status order"
proof -
  have w: "order \<in> set (wallet_payment_orders db)" "or_order_id order = ex_order_id x"
    using get_order_Inr [OF assms(3)] by simp_all
  from order_of_execution(2) [OF assms(1,2) w] assms(4) show "ex_status x = or_status order" by (auto simp: status_agrees_def)
  with executions_invD(5) [OF assms(1,2)] assms(4) show "no_outcome x" by (auto simp: execution_row_ok_def)
qed

lemma with_outcome_no_receipt:
  assumes "no_outcome x"
  shows "x\<lparr>ex_status := s, ex_tx_hash := tx, ex_error_code := code, ex_updated_at := now\<rparr>
      = with_outcome (no_receipt s tx code) (ex_attempt_count x) now x"
    and "x\<lparr>ex_status := s, ex_tx_hash := tx, ex_updated_at := now\<rparr>
      = with_outcome (no_receipt s tx None) (ex_attempt_count x) now x"
  using assms by (cases x, simp add: with_outcome_def no_receipt_def no_outcome_def)+

lemma with_outcome_again: "(with_outcome u n t x)\<lparr>ex_updated_at := now\<rparr> = with_outcome u n now x"
  by (simp add: with_outcome_def)

lemma no_receipt_simps [simp]: "oc_status (no_receipt s tx code) = s" "oc_tx_hash (no_receipt s tx code) = tx"
    "oc_error_code (no_receipt s tx code) = code"
  by (simp_all add: no_receipt_def)

text \<open>The shape the methods share, with the columns their \<open>UPDATE\<close> writes.\<close>

definition outcome_run ::
    "env \<Rightarrow> string \<Rightarrow> execution_row \<Rightarrow> order_row \<Rightarrow> outcome \<Rightarrow> (execution_row \<Rightarrow> execution_row)
      \<Rightarrow> 'a wallet_db_scheme \<Rightarrow> 'a wallet_db_scheme \<Rightarrow> bool" where
  "outcome_run E sid x order u cols db db' =
     (x \<in> set (wallet_payment_executions db) \<and> get_order (ex_order_id x) sid db = Inr order
      \<and> or_status order \<noteq> ''confirmed''
      \<and> (\<exists>aid db3. order_path E order (oc_status u) db db3 \<and> record_outcome E x u cols aid db3 = Inr db'))"

lemma outcome_run_path:
  assumes "executions_inv E db" "outcome_run E sid x order u cols db db'" "outcome_ok u"
    and "\<And>now. (cols x)\<lparr>ex_updated_at := now\<rparr> = with_outcome u (ex_attempt_count x) now x"
  shows "\<exists>x order u. outcome_path E x order u db db' \<and> or_status order \<noteq> ''confirmed''"
  using assms(2) outcome_pathI [where x = x and cols = cols, OF assms(1) _ _ assms(3) _ _ assms(4)] unfolding outcome_run_def by blast

lemma outcome_runI:
  assumes "find_execution eid sid db = Inr x" "get_order (ex_order_id x) sid db = Inr order"
    "wallet_audit E sid action actor payload db = Inr (aid, db1)" "transition_order E order target who reason db1 = Inr db2"
    "record_outcome E x u cols aid db2 = Inr db'" "oc_status u = target" "target \<noteq> ''confirmed''"
    "or_status order \<noteq> ''confirmed''"
  shows "outcome_run E sid x order u cols db db'"
  unfolding outcome_run_def using assms find_execution_Inr order_pathI [OF assms(3,4,7)] by blast

lemma read_execution_Inr:
  "read_execution i db = Inr (r, db') \<longleftrightarrow> db' = db \<and> (\<exists>y. r = execution_from_row y
     \<and> fetchone (\<lambda>x. ex_execution_id x = i) (wallet_payment_executions db) = Some y)"
  by (auto simp: read_execution_def split: option.splits)

lemma mark_broadcast_path:
  assumes inv: "executions_inv E db" and step: "mark_broadcast E eid sid actor result db = Inr (rec, db')" and "db' \<noteq> db"
  shows "\<exists>x order u. outcome_path E x order u db db' \<and> or_status order \<noteq> ''confirmed''"
proof -
  obtain x where x: "find_execution eid sid db = Inr x" using step by (auto simp: mark_broadcast_def)
  obtain order where w: "get_order (ex_order_id x) sid db = Inr order" using step x by (auto simp: mark_broadcast_def)
  from step assms(3) x w obtain tx payload aid db1 db2 where st: "or_status order = ''signing''"
    and r: "wallet_audit E sid ''wallet_payment_broadcast'' actor payload db = Inr (aid, db1)"
      "transition_order E order ''broadcast'' actor ''signer broadcast accepted'' db1 = Inr db2"
      "record_outcome E x (no_receipt ''broadcast'' (Some tx) None)
         (\<lambda>r. r\<lparr>ex_status := ''broadcast'', ex_tx_hash := Some tx\<rparr>) aid db2 = Inr db'"
    by (auto simp: mark_broadcast_def read_execution_Inr split: if_splits)
  have run: "outcome_run E sid x order (no_receipt ''broadcast'' (Some tx) None)
       (\<lambda>r. r\<lparr>ex_status := ''broadcast'', ex_tx_hash := Some tx\<rparr>) db db'"
    by (rule outcome_runI [OF x w r]) (simp_all add: st)
  have "no_outcome x" using live_no_outcome(1) [OF inv _ w] find_execution_Inr [OF x] st by simp
  from outcome_run_path [OF inv run] with_outcome_no_receipt(2) [OF this] show ?thesis by (simp add: outcome_ok_def no_receipt_def)
qed

lemma mark_unknown_path:
  assumes inv: "executions_inv E db" and step: "mark_unknown E eid sid actor hash code db = Inr (rec, db')" and "db' \<noteq> db"
  shows "\<exists>x order u. outcome_path E x order u db db' \<and> or_status order \<noteq> ''confirmed''"
proof -
  obtain x where x: "find_execution eid sid db = Inr x" using step by (auto simp: mark_unknown_def)
  obtain order where w: "get_order (ex_order_id x) sid db = Inr order" using step x by (auto simp: mark_unknown_def)
  obtain tx c where t: "unknown_outcome x hash code = (tx, c)" by fastforce
  from step assms(3) x w t obtain payload aid db1 db2 where st: "or_status order \<in> {''signing'', ''broadcast''}"
    and r: "wallet_audit E sid ''wallet_payment_unknown'' actor payload db = Inr (aid, db1)"
      "transition_order E order ''unknown'' actor c db1 = Inr db2"
      "record_outcome E x (no_receipt ''unknown'' tx (Some c))
         (\<lambda>r. r\<lparr>ex_status := ''unknown'', ex_tx_hash := tx, ex_error_code := Some c\<rparr>) aid db2 = Inr db'"
    by (auto simp: mark_unknown_def read_execution_Inr split: if_splits)
  have run: "outcome_run E sid x order (no_receipt ''unknown'' tx (Some c))
       (\<lambda>r. r\<lparr>ex_status := ''unknown'', ex_tx_hash := tx, ex_error_code := Some c\<rparr>) db db'"
    by (rule outcome_runI [OF x w r]) (use st in auto)
  have "no_outcome x" using live_no_outcome(1) [OF inv _ w] find_execution_Inr [OF x] st by simp
  from outcome_run_path [OF inv run] with_outcome_no_receipt(1) [OF this] show ?thesis by (simp add: outcome_ok_def)
qed

lemma mark_failed_path:
  assumes inv: "executions_inv E db" and step: "mark_failed E eid sid actor code rcpt db = Inr (rec, db')" and "db' \<noteq> db"
  shows "\<exists>x order u. outcome_path E x order u db db' \<and> or_status order \<noteq> ''confirmed''"
proof -
  have s: "oc_status (failed_outcome tx code rcpt) = ''failed''" for tx
    by (simp add: failed_outcome_def no_receipt_def split: option.splits)
  obtain x where x: "find_execution eid sid db = Inr x" using step by (auto simp: mark_failed_def)
  obtain order where w: "get_order (ex_order_id x) sid db = Inr order" using step x by (auto simp: mark_failed_def)
  from step assms(3) x w obtain tx payload aid db1 db2 where st: "or_status order \<in> {''signing'', ''broadcast'', ''unknown''}"
    and r: "wallet_audit E sid ''wallet_payment_failed'' actor payload db = Inr (aid, db1)"
      "transition_order E order ''failed'' actor code db1 = Inr db2"
      "record_outcome E x (failed_outcome tx code rcpt)
         (with_outcome (failed_outcome tx code rcpt) (ex_attempt_count x) (ex_updated_at x)) aid db2 = Inr db'"
    by (auto simp: mark_failed_def read_execution_Inr Let_def split: if_splits)
  have run: "outcome_run E sid x order (failed_outcome tx code rcpt)
         (with_outcome (failed_outcome tx code rcpt) (ex_attempt_count x) (ex_updated_at x)) db db'"
    by (rule outcome_runI [OF x w r]) (use st s in auto)
  show ?thesis by (rule outcome_run_path [OF inv run]) (simp_all add: outcome_ok_def s with_outcome_again)
qed

lemma mark_confirmed_path:
  assumes inv: "executions_inv E db" and step: "mark_confirmed E eid sid actor rcpt db = Inr (rec, db')" and "db' \<noteq> db"
  shows "\<exists>x order u. outcome_path E x order u db db' \<and> or_status order \<noteq> ''confirmed''"
proof -
  have s: "oc_status (confirmed_outcome tx rcpt) = ''confirmed''" for tx by (simp add: confirmed_outcome_def)
  obtain x where x: "find_execution eid sid db = Inr x" using step by (auto simp: mark_confirmed_def)
  obtain order where w: "get_order (ex_order_id x) sid db = Inr order" using step x by (auto simp: mark_confirmed_def)
  from step assms(3) x w obtain tx payload aid db1 db2 db3 where st: "or_status order \<in> {''broadcast'', ''unknown''}"
    and r: "wallet_audit E sid ''wallet_payment_confirmed'' actor payload db = Inr (aid, db1)"
      "transition_order E order ''confirmed'' actor ''chain receipt confirmed'' db1 = Inr db2"
      "post_order_journal E order ''settlement'' (''reserved'', ''debit'') (''paid'', ''credit'') db2 = Inr db3"
      "record_outcome E x (confirmed_outcome tx rcpt)
         (with_outcome (confirmed_outcome tx rcpt) (ex_attempt_count x) (ex_updated_at x)) aid db3 = Inr db'"
    by (auto simp: mark_confirmed_def read_execution_Inr Let_def split: if_splits)
  have "order_path E order ''confirmed'' db db3" unfolding order_path_def
    by (intro exI conjI, rule wallet_audit_accounts [OF r(1)], rule wallet_audit_catalog [OF r(1)], rule r(2)) (simp add: r(3))
  with find_execution_Inr [OF x] w st r(4)
  have run: "outcome_run E sid x order (confirmed_outcome tx rcpt)
         (with_outcome (confirmed_outcome tx rcpt) (ex_attempt_count x) (ex_updated_at x)) db db'"
    unfolding outcome_run_def s by auto
  show ?thesis by (rule outcome_run_path [OF inv run]) (simp_all add: outcome_ok_def s with_outcome_again)
qed

lemma recover_execution_path:
  assumes inv: "executions_inv E db" and step: "recover_execution E sid actor eid db = Inr (rec, db')" and "db' \<noteq> db"
  shows "\<exists>x order u. outcome_path E x order u db db' \<and> or_status order \<noteq> ''confirmed''"
proof -
  let ?u = "\<lambda>x. no_receipt ''unknown'' (ex_tx_hash x) (Some ''process_restarted'')"
  obtain x order payload aid db1 db2 where f: "fetchone (\<lambda>r. ex_execution_id r = eid \<and> ex_subject_id r = sid)
      (wallet_payment_executions db) = Some x"
    and st: "or_status order = ''signing''"
    and r: "get_order (ex_order_id x) sid db = Inr order" "wallet_audit E sid ''wallet_payment_unknown'' actor payload db = Inr (aid, db1)"
      "transition_order E order ''unknown'' actor ''process_restarted'' db1 = Inr db2"
      "record_outcome E x (?u x) (with_outcome (?u x) (ex_attempt_count x) (ex_updated_at x)) aid db2 = Inr db'"
    using step assms(3) by (auto simp: recover_execution_def read_execution_Inr Let_def split: if_splits option.splits)
  have "find_execution eid sid db = Inr x" using f by (simp add: find_execution_def)
  from outcome_runI [OF this r] st have "outcome_run E sid x order (?u x) (with_outcome (?u x) (ex_attempt_count x) (ex_updated_at x)) db db'"
    by simp
  then show ?thesis by (rule outcome_run_path [OF inv]) (simp_all add: outcome_ok_def with_outcome_again)
qed

lemma settled_inv:
  assumes inv: "executions_inv E db" and x: "x \<in> set (wallet_payment_executions db)"
    and order: "order \<in> set (wallet_payment_orders db)" "or_order_id order = ex_order_id x"
    and ord: "wallet_payment_orders db' = update_where (\<lambda>r. or_order_id r = or_order_id order)
          (moved_order E (oc_status u) oa on) (wallet_payment_orders db)"
    and exe: "wallet_payment_executions db' = update_where (\<lambda>r. ex_execution_id r = ex_execution_id x)
          (settled E u aid now n) (wallet_payment_executions db)"
    and row: "execution_row_ok E (settled E u aid now n x)"
    and att: "attempts_ok (attempts_of (ex_execution_id x) db') (settled E u aid now n x)"
      "\<And>j. j \<noteq> ex_execution_id x \<Longrightarrow> attempts_of j db' = attempts_of j db"
      "distinct (map at_attempt_id (wallet_payment_execution_attempts db'))"
      "\<And>a. a \<in> set (wallet_payment_execution_attempts db') \<Longrightarrow> at_state_hash a = attempt_hash E a
         \<and> at_execution_id a \<in> ex_execution_id ` set (wallet_payment_executions db)"
  shows "executions_inv E db'"
proof -
  have keys: "map or_order_id (wallet_payment_orders db') = map or_order_id (wallet_payment_orders db)"
    "map ex_execution_id (wallet_payment_executions db') = map ex_execution_id (wallet_payment_executions db)"
    "map ex_order_id (wallet_payment_executions db') = map ex_order_id (wallet_payment_executions db)"
    unfolding ord exe by (rule map_update_where, simp)+
  have ids: "ex_execution_id ` set (wallet_payment_executions db') = ex_execution_id ` set (wallet_payment_executions db)"
    using arg_cong [OF keys(2), of set] by simp
  have "execution_row_ok E y \<and> attempts_ok (attempts_of (ex_execution_id y) db') y
       \<and> (\<exists>w\<in>set (wallet_payment_orders db'). pays w y \<and> status_agrees w y)"
    if "y \<in> set (wallet_payment_executions db')" for y
  proof -
    have "y \<in> insert (settled E u aid now n x) (set (wallet_payment_executions db) - {x})"
      using that set_update_key [OF executions_invD(2) [OF inv] x] unfolding exe by blast
    then consider "y = settled E u aid now n x" | "y \<in> set (wallet_payment_executions db)" "y \<noteq> x" by blast
    then show ?thesis
    proof cases
      case 1
      have "pays order x" using order_of_execution(1) [OF inv x order] .
      then have "pays (moved_order E (oc_status u) oa on order) y" "status_agrees (moved_order E (oc_status u) oa on order) y"
        by (simp_all add: 1 pays_def status_agrees_def)
      moreover have "moved_order E (oc_status u) oa on order \<in> set (wallet_payment_orders db')"
        unfolding ord set_update_where using order(1) by force
      ultimately show ?thesis using row att(1) by (auto simp: 1)
    next
      case 2
      have ne: "ex_execution_id y \<noteq> ex_execution_id x" "ex_order_id y \<noteq> ex_order_id x"
        using 2 distinct_key_eq [OF executions_invD(2) [OF inv] 2(1) x] distinct_key_eq [OF executions_invD(3) [OF inv] 2(1) x] by auto
      obtain w where w: "w \<in> set (wallet_payment_orders db)" "pays w y" "status_agrees w y"
        using executions_invD(7) [OF inv 2(1)] by blast
      have "or_order_id w \<noteq> or_order_id order" using w(2) ne(2) order(2) by (simp add: pays_def)
      then have "w \<in> set (wallet_payment_orders db')" unfolding ord set_update_where using w(1) by force
      with w executions_invD(5,6) [OF inv 2(1)] att(2) [OF ne(1)] show ?thesis by auto
    qed
  qed
  with inv att(3,4) show ?thesis unfolding executions_inv_def keys ids by blast
qed

lemma order_path_orders:
  assumes "order_path E order target db db3" "distinct (map or_order_id (wallet_payment_orders db))"
    "order \<in> set (wallet_payment_orders db)"
  obtains oa on where "target \<in> order_transitions (or_status order)"
    "wallet_payment_orders db3 = update_where (\<lambda>r. or_order_id r = or_order_id order)
       (moved_order E target oa on) (wallet_payment_orders db)"
proof -
  obtain db1 db2 actor reason where p: "accounts db1 = accounts db" "transition_order E order target actor reason db1 = Inr db2"
    "if target = ''confirmed''
     then post_order_journal E order ''settlement'' (''reserved'', ''debit'') (''paid'', ''credit'') db2 = Inr db3 else db3 = db2"
    using assms(1) unfolding order_path_def by metis
  have o1: "wallet_payment_orders db1 = wallet_payment_orders db" using p(1) by (simp add: accounts_def)
  have o3: "wallet_payment_orders db3 = wallet_payment_orders db2"
    using p(3) by (auto split: if_splits elim!: post_order_journal_effect)
  show thesis
    by (rule transition_order_effect [OF p(2)]) (use assms(2,3) that in \<open>auto simp: o1 o3\<close>)
qed

lemma last_attempt:
  assumes "attempts_ok as x" "a \<in> set as" "at_attempt_number a = ex_attempt_count x" "1 \<le> ex_attempt_count x"
  shows "a = last as" "as \<noteq> []"
proof -
  let ?n = "nat (ex_attempt_count x)"
  have m: "map at_attempt_number as = map int [1..<Suc ?n]" using assms(1) by (simp add: attempts_ok_def)
  then have d: "distinct (map at_attempt_number as)" by (simp add: distinct_map inj_on_def)
  show ne: "as \<noteq> []" using assms(2) by auto
  have "at_attempt_number (last as) = last (map at_attempt_number as)" using ne by (simp add: last_map)
  also have "\<dots> = int ?n"
  proof -
    have "Suc 0 \<le> ?n" using assms(4) by linarith
    then show ?thesis unfolding m by simp
  qed
  finally show "a = last as" using distinct_key_eq [OF d assms(2) last_in_set [OF ne]] assms(3,4) by simp
qed

lemma last_update_where: "as \<noteq> [] \<Longrightarrow> p (last as) \<Longrightarrow> last (update_where p f as) = f (last as)"
  by (simp add: update_where_def last_map)

lemma finished_attempts:
  assumes inv: "executions_inv E db" and x: "x \<in> set (wallet_payment_executions db)"
    and a: "a \<in> set (wallet_payment_execution_attempts db)" "at_execution_id a = ex_execution_id x"
      "at_attempt_number a = ex_attempt_count x"
    and att: "wallet_payment_execution_attempts db' = update_where (\<lambda>b. at_attempt_id b = at_attempt_id a)
               (finished_attempt E s tx code now) (wallet_payment_execution_attempts db)"
  shows "\<And>y. ex_status y = s \<Longrightarrow> ex_attempt_count y = ex_attempt_count x \<Longrightarrow> ex_subject_id y = ex_subject_id x
      \<Longrightarrow> attempts_ok (attempts_of (ex_execution_id x) db') y"
    and "\<And>j. j \<noteq> ex_execution_id x \<Longrightarrow> attempts_of j db' = attempts_of j db"
    and "map at_attempt_id (wallet_payment_execution_attempts db') = map at_attempt_id (wallet_payment_execution_attempts db)"
    and "\<And>b. b \<in> set (wallet_payment_execution_attempts db') \<Longrightarrow> at_state_hash b = attempt_hash E b
         \<and> at_execution_id b \<in> ex_execution_id ` set (wallet_payment_executions db)"
proof -
  let ?p = "\<lambda>b. at_attempt_id b = at_attempt_id a" and ?f = "finished_attempt E s tx code now"
  have of: "attempts_of j db' = update_where ?p ?f (attempts_of j db)" for j
    unfolding attempts_of_def att by (rule filter_update_where) simp
  have only: "b = a" if "b \<in> set (wallet_payment_execution_attempts db)" "?p b" for b
    using distinct_key_eq [OF executions_invD(4) [OF inv] that(1) a(1)] that(2) by simp
  show "attempts_of j db' = attempts_of j db" if "j \<noteq> ex_execution_id x" for j
    unfolding of by (rule update_where_none) (use only that a(2) in \<open>auto simp: attempts_of_def\<close>)
  show "map at_attempt_id (wallet_payment_execution_attempts db') = map at_attempt_id (wallet_payment_execution_attempts db)"
    unfolding att by (rule map_update_where) simp
  show "at_state_hash b = attempt_hash E b \<and> at_execution_id b \<in> ex_execution_id ` set (wallet_payment_executions db)"
    if "b \<in> set (wallet_payment_execution_attempts db')" for b
    using that executions_invD(8) [OF inv] unfolding att set_update_where by fastforce
  have ok: "attempts_ok (attempts_of (ex_execution_id x) db) x" using executions_invD(6) [OF inv x] .
  have "1 \<le> ex_attempt_count x" using executions_invD(5) [OF inv x] by (simp add: execution_row_ok_def)
  note last = last_attempt [OF ok _ a(3) this, unfolded attempts_of_def, simplified, OF conjI, OF a(1,2), folded attempts_of_def]
  show "attempts_ok (attempts_of (ex_execution_id x) db') y"
    if "ex_status y = s" "ex_attempt_count y = ex_attempt_count x" "ex_subject_id y = ex_subject_id x" for y
  proof -
    have "map at_attempt_number (attempts_of (ex_execution_id x) db') = map at_attempt_number (attempts_of (ex_execution_id x) db)"
      unfolding of by (rule map_update_where) simp
    moreover have "at_status (last (attempts_of (ex_execution_id x) db')) = s"
      unfolding of using last_update_where [OF last(2), of ?p ?f] last(1) by simp
    moreover have "at_subject_id b = ex_subject_id x" if "b \<in> set (attempts_of (ex_execution_id x) db')" for b
      using that ok unfolding of set_update_where attempts_ok_def by auto
    ultimately show ?thesis using ok that by (simp add: attempts_ok_def)
  qed
qed

lemma outcome_path_executions:
  assumes inv: "executions_inv E db" and path: "outcome_path E x order u db db'"
  shows "executions_inv E db'"
proof -
  obtain db3 aid now a where x: "x \<in> set (wallet_payment_executions db)" and order: "order \<in> set (wallet_payment_orders db)"
      "or_order_id order = ex_order_id x" and u: "outcome_ok u" and p: "order_path E order (oc_status u) db db3"
    and a: "a \<in> set (wallet_payment_execution_attempts db)" "at_execution_id a = ex_execution_id x" "at_attempt_number a = ex_attempt_count x"
    and v: "ledger_view db' = ledger_view db3"
    and exe: "wallet_payment_executions db' = update_where (\<lambda>r. ex_execution_id r = ex_execution_id x)
               (settled E u aid now (ex_attempt_count x)) (wallet_payment_executions db)"
    and att: "wallet_payment_execution_attempts db' = update_where (\<lambda>b. at_attempt_id b = at_attempt_id a)
               (finished_attempt E (oc_status u) (oc_tx_hash u) (oc_error_code u) now) (wallet_payment_execution_attempts db)"
    using path unfolding outcome_path_def by blast
  obtain oa on where "wallet_payment_orders db3 = update_where (\<lambda>r. or_order_id r = or_order_id order)
       (moved_order E (oc_status u) oa on) (wallet_payment_orders db)"
    by (rule order_path_orders [OF p executions_invD(1) [OF inv] order(1)])
  then have ord: "wallet_payment_orders db' = update_where (\<lambda>r. or_order_id r = or_order_id order)
       (moved_order E (oc_status u) oa on) (wallet_payment_orders db)" using v by (simp add: ledger_view_def)
  have row: "execution_row_ok E (settled E u aid now (ex_attempt_count x) x)"
    using executions_invD(5) [OF inv x] u
    by (auto simp: execution_row_ok_def outcome_ok_def execution_statuses_def no_outcome_def envelope_ok_def)
  note fin = finished_attempts [OF inv x a att]
  show ?thesis
    by (rule settled_inv [OF inv x order ord exe row]) (use fin executions_invD(4) [OF inv] in simp_all)
qed

lemma outcome_path_catalog: "outcome_path E x order u db db' \<Longrightarrow> catalog db' = catalog db"
  unfolding outcome_path_def order_path_def
  by (auto split: if_splits dest!: transition_order_catalog post_order_journal_catalog)

text \<open>The ledger follows; only \<open>confirmed \<Rightarrow> unknown\<close> needs the wider histories.\<close>

lemma outcome_path_ledger:
  assumes inv: "ledger_inv rg db" and path: "outcome_path E x order u db db'"
    and rg: "or_status order = ''confirmed'' \<Longrightarrow> rg"
  shows "ledger_inv rg db'"
proof -
  obtain db3 where order: "order \<in> set (wallet_payment_orders db)" and u: "outcome_ok u"
    and p: "order_path E order (oc_status u) db db3" and v: "ledger_view db' = ledger_view db3"
    using path unfolding outcome_path_def by blast
  obtain db1 db2 actor reason where a: "accounts db1 = accounts db"
    and t: "transition_order E order (oc_status u) actor reason db1 = Inr db2"
    and post: "if oc_status u = ''confirmed''
     then post_order_journal E order ''settlement'' (''reserved'', ''debit'') (''paid'', ''credit'') db2 = Inr db3 else db3 = db2"
    using p unfolding order_path_def by metis
  have inv1: "ledger_inv rg db1" and order1: "order \<in> set (wallet_payment_orders db1)"
    using inv order accounts_ledger [OF a] a by (simp_all add: accounts_def)
  have tr: "oc_status u \<in> order_transitions (or_status order)"
    using t by (auto simp: transition_order_def split: if_splits)
  have "ledger_inv rg db3"
  proof (cases "oc_status u = ''confirmed''")
    case True
    with post have "post_order_journal E order ''settlement'' (''reserved'', ''debit'') (''paid'', ''credit'') db2 = Inr db3" by simp
    then show ?thesis
      by (rule transition_post_ledger [OF inv1 order1 t])
        (use tr True in \<open>auto simp: sides_def order_histories_def order_transitions_def split: if_splits\<close>)
  next
    case False
    with post transition_ledger [OF inv1 order1 t] show ?thesis
      using tr u rg by (auto simp: outcome_ok_def order_histories_def order_transitions_def split: if_splits)
  qed
  then show ?thesis using v books_inv_cong(2) [of db' db3] by (simp add: ledger_view_def)
qed

lemma kept_receipt_status [simp]: "oc_status (kept_receipt x) = ''unknown''"
  "oc_tx_hash (kept_receipt x) = ex_tx_hash x" "oc_error_code (kept_receipt x) = Some ''reconcile_required''"
  by (simp_all add: kept_receipt_def)

lemma mark_reconcile_required_cases:
  assumes step: "mark_reconcile_required E eid sid actor reason db = Inr (rec, db')" and "db' \<noteq> db"
  obtains x order who payload aid db2 db3 db4 db5 where "find_execution eid sid db = Inr x" "ex_status x = ''confirmed''"
    "get_order (ex_order_id x) sid db = Inr order" "or_status order = ''confirmed''"
    "wallet_audit E sid ''wallet_payment_reconcile_required'' who payload (db\<lparr>ticks := Suc (ticks db)\<rparr>) = Inr (aid, db2)"
    "transition_order E order ''unknown'' who ''reconcile_required'' db2 = Inr db3"
    "update_execution x (\<lambda>r. r\<lparr>ex_status := ''unknown'', ex_error_code := Some ''reconcile_required'', ex_last_audit_id := aid,
        ex_updated_at := env_clock E (ticks db), ex_state_hash := execution_hash_values_from_row E x (kept_receipt x)
          (ex_attempt_count x) (env_clock E (ticks db))\<rparr>) db3 = Inr db4"
    "finish_attempt E x ''unknown'' (ex_tx_hash x) (Some ''reconcile_required'') (env_clock E (ticks db)) db4 = Inr db5"
    "accounts db' = accounts db5" "catalog db' = catalog db5"
proof -
  obtain who x where x: "operator_name actor = Inr who" "find_execution eid sid db = Inr x"
    using step by (auto simp: mark_reconcile_required_def Let_def split: if_splits)
  obtain order where w: "ex_status x = ''confirmed''" "get_order (ex_order_id x) sid db = Inr order"
    using step x assms(2) by (auto simp: mark_reconcile_required_def Let_def split: if_splits)
  from step x w assms(2) obtain payload aid db2 db3 db4 db5 ev db6 where "or_status order = ''confirmed''"
    "wallet_audit E sid ''wallet_payment_reconcile_required'' who payload (db\<lparr>ticks := Suc (ticks db)\<rparr>) = Inr (aid, db2)"
    "transition_order E order ''unknown'' who ''reconcile_required'' db2 = Inr db3"
    "update_execution x (\<lambda>r. r\<lparr>ex_status := ''unknown'', ex_error_code := Some ''reconcile_required'', ex_last_audit_id := aid,
        ex_updated_at := env_clock E (ticks db), ex_state_hash := execution_hash_values_from_row E x (kept_receipt x)
          (ex_attempt_count x) (env_clock E (ticks db))\<rparr>) db3 = Inr db4"
    "finish_attempt E x ''unknown'' (ex_tx_hash x) (Some ''reconcile_required'') (env_clock E (ticks db)) db4 = Inr db5"
    and i: "insert_reconciliation ev (db5\<lparr>fresh_ids := Suc (fresh_ids db5)\<rparr>) = Inr db6" "db' = db6"
    by (auto simp: mark_reconcile_required_def Let_def utc_now_def new_id_def read_execution_Inr split: if_splits)
  moreover have "accounts db' = accounts db5" "catalog db' = catalog db5"
    using i by (auto simp: insert_reconciliation_def accounts_def catalog_def split: if_splits)
  ultimately show thesis using that x w by blast
qed

lemma mark_reconcile_required_path:
  assumes inv: "executions_inv E db" and step: "mark_reconcile_required E eid sid actor reason db = Inr (rec, db')" and "db' \<noteq> db"
  shows "\<exists>x order. find_execution eid sid db = Inr x \<and> get_order (ex_order_id x) sid db = Inr order
     \<and> or_status order = ''confirmed'' \<and> outcome_path E x order (kept_receipt x) db db'"
  using step assms(3)
proof (cases rule: mark_reconcile_required_cases)
  case (1 x order who payload aid db2 db3 db4 db5)
  let ?now = "env_clock E (ticks db)" and ?n = "ex_attempt_count x"
  let ?cols = "\<lambda>r. r\<lparr>ex_status := ''unknown'', ex_error_code := Some ''reconcile_required'', ex_last_audit_id := aid,
        ex_updated_at := ?now, ex_state_hash := execution_hash_values_from_row E x (kept_receipt x) ?n ?now\<rparr>"
  have x: "x \<in> set (wallet_payment_executions db)" using find_execution_Inr [OF 1(1)] by simp
  have path: "order_path E order ''unknown'' db db3"
    unfolding order_path_def using 1(6) wallet_audit_accounts [OF 1(5)] wallet_audit_catalog [OF 1(5)] by auto
  note ex = order_path_executions [OF path]
  have "?cols x = settled E (kept_receipt x) aid ?now ?n x"
    by (cases x) (simp add: settled_def with_outcome_def kept_receipt_def execution_hash_values_from_row_def)
  note cols = update_where_columns [where f = ?cols and g = "settled E (kept_receipt x) aid ?now ?n",
      OF executions_invD(2) [OF inv] x this]
  have db4: "db4 = db3\<lparr>wallet_payment_executions := update_where (\<lambda>r. ex_execution_id r = ex_execution_id x)
      (settled E (kept_receipt x) aid ?now ?n) (wallet_payment_executions db)\<rparr>"
    using update_execution_effect [OF 1(7)] cols ex by simp
  obtain a where a: "a \<in> set (wallet_payment_execution_attempts db4)" "at_execution_id a = ex_execution_id x"
    "at_attempt_number a = ex_attempt_count x"
    "db5 = db4\<lparr>wallet_payment_execution_attempts := update_where (\<lambda>b. at_attempt_id b = at_attempt_id a)
       (finished_attempt E ''unknown'' (ex_tx_hash x) (Some ''reconcile_required'') ?now) (wallet_payment_execution_attempts db4)\<rparr>"
    by (rule finish_attempt_effect [OF 1(8)]) (use ex executions_invD(4) [OF inv] in \<open>simp_all add: db4\<close>)
  have "outcome_path E x order (kept_receipt x) db db'" unfolding outcome_path_def
    by (intro conjI exI [of _ db3] exI [of _ aid] exI [of _ ?now] exI [of _ a] x)
      (use path a ex get_order_Inr [OF 1(3)] 1(9,10) in
        \<open>simp_all add: catalog_def ledger_view_def accounts_def db4 outcome_ok_def\<close>)
  with 1(1,3,4) show ?thesis by blast
qed

section \<open>Frames of the preparation\<close>

lemma new_attempt_simps [simp]:
  "at_attempt_id (new_attempt E i e s n q t aid) = i" "at_execution_id (new_attempt E i e s n q t aid) = e"
  "at_subject_id (new_attempt E i e s n q t aid) = s" "at_attempt_number (new_attempt E i e s n q t aid) = n"
  "at_status (new_attempt E i e s n q t aid) = ''signing''"
  "at_state_hash (new_attempt E i e s n q t aid) = attempt_hash E (new_attempt E i e s n q t aid)"
  by (simp_all add: new_attempt_def attempt_hash_def attempt_state_def Let_def)

lemma start_attempt_effect:
  assumes "start_attempt E e s n q now aid db = Inr db'"
  obtains i m where "i \<notin> at_attempt_id ` set (wallet_payment_execution_attempts db)"
    "db' = db\<lparr>fresh_ids := m,
       wallet_payment_execution_attempts := wallet_payment_execution_attempts db @ [new_attempt E i e s n q now aid]\<rparr>"
  using assms by (auto simp: start_attempt_def new_id_def insert_attempt_def Let_def split: if_splits)

lemma check_observed_fee_budget_frame:
  "check_observed_fee_budget E sid nw ty src minb gas fee age excl db = Inr db' \<Longrightarrow>
     accounts db' = accounts db \<and> catalog db' = catalog db"
  by (auto simp: check_observed_fee_budget_def utc_now_def Let_def split: if_splits option.splits list.splits)

lemma authorize_payment_frame:
  "authorize_payment E evidence order sid message db = Inr (p, db') \<Longrightarrow>
     accounts db' = accounts db \<and> catalog db' = catalog db"
  by (auto simp: authorize_payment_def split: option.splits if_splits elim!: policy_allows_frame)

end
