(* ===== verification/WalletPreparation.thy ===== *)
theory WalletPreparation
  imports WalletOutcomes
begin

text \<open>
  Starting a payment and retrying one whose outcome is unknown: both move the order to signing,
  start an attempt and keep the invariant of the executions; a retry keeps the execution's
  envelope.
\<close>

lemma prepare_retry_cases:
  assumes step: "prepare_retry E evidence sg order_id sid actor reason db = Inr ((r, transfer, q), db')"
  obtains x order aid now i db4 where "x \<in> set (wallet_payment_executions db)"
    "order \<in> set (wallet_payment_orders db)" "or_order_id order = ex_order_id x" "or_status order = ''unknown''"
    "ex_attempt_count x + 1 \<le> 32" "ex_subject_id x = sid" "ex_order_id x = order_id"
    "build_transfer (execution_intent x) = Inr transfer" "q = attempt_request_id order_id (ex_attempt_count x + 1)"
    "order_path E order ''signing'' db db4"
    "i \<notin> at_attempt_id ` set (wallet_payment_execution_attempts db)"
    "catalog db' = catalog db4" "ledger_view db' = ledger_view db4"
    "wallet_payment_executions db' = update_where (\<lambda>r. ex_execution_id r = ex_execution_id x)
        (\<lambda>r. (with_outcome (no_receipt ''signing'' (ex_tx_hash x) None) (ex_attempt_count x + 1) now r)\<lparr>ex_last_audit_id := aid,
           ex_state_hash := execution_hash_values_from_row E x (no_receipt ''signing'' (ex_tx_hash x) None)
             (ex_attempt_count x + 1) now\<rparr>) (wallet_payment_executions db)"
    "wallet_payment_execution_attempts db' = wallet_payment_execution_attempts db
        @ [new_attempt E i (ex_execution_id x) sid (ex_attempt_count x + 1) q now aid]"
    "\<exists>y. r = execution_from_row y \<and> fetchone (\<lambda>y. ex_execution_id y = ex_execution_id x) (wallet_payment_executions db') = Some y"
proof -
  let ?sel = "\<lambda>r. ex_order_id r = order_id \<and> ex_subject_id r = sid"
  let ?u = "\<lambda>x. no_receipt ''signing'' (ex_tx_hash x) None"
  obtain order p db1 where o: "get_order order_id sid db = Inr order" "or_status order = ''unknown''"
    "authorize_payment E evidence order sid ''wallet payment policy no longer authorizes retry'' db = Inr (p, db1)"
    using step by (auto simp: prepare_retry_def split: if_splits)
  obtain x where x: "fetchone ?sel (wallet_payment_executions db1) = Some x" "ex_attempt_count x + 1 \<le> 32"
      "build_transfer (execution_intent x) = Inr transfer" "q = attempt_request_id order_id (ex_attempt_count x + 1)"
    using step o by (auto simp: prepare_retry_def Let_def utc_now_def split: if_splits option.splits)
  from step o x obtain db2 aid db3 db4 payload db6 db7 where
      b: "accounts db2 = accounts db1 \<and> catalog db2 = catalog db1"
    and a: "wallet_audit E sid ''wallet_payment_execution_retry'' actor payload db2 = Inr (aid, db3)"
    and t: "transition_order E order ''signing'' actor reason db3 = Inr db4"
    and up: "update_execution x (\<lambda>r. (with_outcome (?u x) (ex_attempt_count x + 1) (env_clock E (ticks db4)) r)\<lparr>ex_last_audit_id := aid,
           ex_state_hash := execution_hash_values_from_row E x (?u x) (ex_attempt_count x + 1) (env_clock E (ticks db4))\<rparr>)
         (db4\<lparr>ticks := Suc (ticks db4)\<rparr>) = Inr db6"
    and s: "start_attempt E (ex_execution_id x) sid (ex_attempt_count x + 1) q (env_clock E (ticks db4)) aid db6 = Inr db7"
    and r: "read_execution (ex_execution_id x) db7 = Inr (r, db')"
    by (auto simp: prepare_retry_def Let_def utc_now_def split: if_splits option.splits dest!: check_observed_fee_budget_frame)
  have f1: "accounts db1 = accounts db" "catalog db1 = catalog db" using authorize_payment_frame [OF o(3)] by auto
  have f3: "accounts db3 = accounts db" "catalog db3 = catalog db"
    using wallet_audit_accounts [OF a] wallet_audit_catalog [OF a] b f1 by auto
  have path: "order_path E order ''signing'' db db4" unfolding order_path_def using f3 t by auto
  note ex = order_path_executions [OF path]
  obtain i m where i: "i \<notin> at_attempt_id ` set (wallet_payment_execution_attempts db6)"
    "db7 = db6\<lparr>fresh_ids := m, wallet_payment_execution_attempts := wallet_payment_execution_attempts db6
        @ [new_attempt E i (ex_execution_id x) sid (ex_attempt_count x + 1) q (env_clock E (ticks db4)) aid]\<rparr>"
    using s by (rule start_attempt_effect)
  note db6 = update_execution_effect [OF up]
  have xs: "x \<in> set (wallet_payment_executions db)" "ex_order_id x = order_id" "ex_subject_id x = sid"
    using fetchone_Some [OF x(1)] f1 by (auto simp: accounts_def)
  show thesis
    by (rule that [OF xs(1) _ _ o(2) x(2) xs(3,2) x(3,4) path, where i = i and aid = aid and now = "env_clock E (ticks db4)"])
      (use i db6 ex r get_order_Inr [OF o(1)] xs in \<open>auto simp: read_execution_Inr catalog_def ledger_view_def\<close>)
qed

lemma prepare_retry_executions:
  assumes inv: "executions_inv E db" and step: "prepare_retry E evidence sg order_id sid actor reason db = Inr ((r, transfer, q), db')"
  shows "executions_inv E db'"
  using step
proof (cases rule: prepare_retry_cases)
  case (1 x order aid now i db4)
  let ?u = "no_receipt ''signing'' (ex_tx_hash x) None" and ?n = "ex_attempt_count x + 1"
  obtain oa on where "wallet_payment_orders db4 = update_where (\<lambda>r. or_order_id r = or_order_id order)
       (moved_order E ''signing'' oa on) (wallet_payment_orders db)"
    by (rule order_path_orders [OF 1(10) executions_invD(1) [OF inv] 1(2)])
  then have ord: "wallet_payment_orders db' = update_where (\<lambda>r. or_order_id r = or_order_id order)
       (moved_order E (oc_status ?u) oa on) (wallet_payment_orders db)" using 1(13) by (simp add: ledger_view_def)
  have exe: "wallet_payment_executions db' = update_where (\<lambda>r. ex_execution_id r = ex_execution_id x)
       (settled E ?u aid now ?n) (wallet_payment_executions db)"
    unfolding 1(14) by (rule update_where_columns [OF executions_invD(2) [OF inv] 1(1)])
      (simp add: settled_def execution_hash_values_from_row_def)
  have old: "execution_row_ok E x" "attempts_ok (attempts_of (ex_execution_id x) db) x"
    using executions_invD(5,6) [OF inv 1(1)] by auto
  have row: "execution_row_ok E (settled E ?u aid now ?n x)"
    using old(1) 1(5) by (auto simp: execution_row_ok_def execution_statuses_def no_outcome_def envelope_ok_def no_receipt_def)
  have of: "attempts_of j db' = attempts_of j db @ (if j = ex_execution_id x then [new_attempt E i (ex_execution_id x) sid ?n q now aid] else [])" for j
    unfolding attempts_of_def 1(15) by simp
  have "[1..<Suc (nat ?n)] = [1..<Suc (nat (ex_attempt_count x))] @ [nat ?n]"
    using old(1) by (simp add: execution_row_ok_def nat_add_distrib)
  then have att: "attempts_ok (attempts_of (ex_execution_id x) db') (settled E ?u aid now ?n x)"
    using old 1(6) by (simp add: attempts_ok_def of execution_row_ok_def)
  show ?thesis
  proof (rule settled_inv [OF inv 1(1,2,3) ord exe row att])
    show "distinct (map at_attempt_id (wallet_payment_execution_attempts db'))"
      using executions_invD(4) [OF inv] 1(11) unfolding 1(15) by simp
    show "at_state_hash a = attempt_hash E a \<and> at_execution_id a \<in> ex_execution_id ` set (wallet_payment_executions db)"
      if "a \<in> set (wallet_payment_execution_attempts db')" for a
      using that executions_invD(8) [OF inv] 1(1) unfolding 1(15) by auto
  qed (simp add: of)
qed

lemma priced_transfer_built:
  "priced_transfer sg order asset network source nonce fee gas_limit max_fee = Inr (transfer, gas, fee') \<Longrightarrow>
     build_transfer (order_intent order asset network source nonce gas fee') = Inr transfer"
  by (auto simp: priced_transfer_def Let_def split: if_splits)

lemma prepare_execution_cases:
  assumes step: "prepare_execution E evidence sg default_fee order_id sid actor gas_limit max_fee nonce db = Inr ((r, transfer, q), db')"
  obtains order asset network source nv gas fee db1 where "get_order order_id sid db = Inr order" "or_status order = ''reserved''"
    "build_transfer (order_intent order asset network source nv gas fee) = Inr transfer"
    "accounts db1 = accounts db" "catalog db1 = catalog db"
    "start_execution E sg order asset network source nv transfer gas fee actor db1 = Inr ((r, transfer, q), db')"
proof -
  obtain order p db1 where o: "get_order order_id sid db = Inr order" "or_status order = ''reserved''"
    "authorize_payment E evidence order sid ''wallet payment execution is no longer authorized'' db = Inr (p, db1)"
    using step by (auto simp: prepare_execution_def split: if_splits)
  from step o obtain asset network source nv t gas fee fee0 db2 where
      t: "priced_transfer sg order asset network source nv fee0 gas_limit max_fee = Inr (t, gas, fee)"
    and c: "check_observed_fee_budget E sid (or_network_id order) (as_asset_type asset)
                 (ad_address_id source) (fee_reserve order p) gas fee (po_max_observation_age_seconds p) None db1 = Inr db2"
    and s: "start_execution E sg order asset network source nv t gas fee actor db2 = Inr ((r, transfer, q), db')"
    by (auto simp: prepare_execution_def split: if_splits option.splits)
  have "t = transfer" using s by (auto simp: start_execution_def Let_def utc_now_def new_id_def)
  with t c s o authorize_payment_frame [OF o(3)] check_observed_fee_budget_frame [OF c] priced_transfer_built [OF t]
  show thesis by (intro that [of order asset network source nv gas fee db2]) simp_all
qed

lemma new_execution_simps [simp]:
  "ex_execution_id (new_execution E i order asset network source nonce gas fee q transfer signer aid now) = i"
  "ex_subject_id (new_execution E i order asset network source nonce gas fee q transfer signer aid now) = or_subject_id order"
  "ex_order_id (new_execution E i order asset network source nonce gas fee q transfer signer aid now) = or_order_id order"
  "ex_attempt_count (new_execution E i order asset network source nonce gas fee q transfer signer aid now) = 1"
  "ex_status (new_execution E i order asset network source nonce gas fee q transfer signer aid now) = ''signing''"
  "pays order (new_execution E i order asset network source nonce gas fee q transfer signer aid now)"
  "no_outcome (new_execution E i order asset network source nonce gas fee q transfer signer aid now)"
  "ex_tx_hash (new_execution E i order asset network source nonce gas fee q transfer signer aid now) = None"
  "ex_request_hash (new_execution E i order asset network source nonce gas fee q transfer signer aid now) = content_hash (env_sha256 E) (transfer_dump transfer)"
  "execution_intent (new_execution E i order asset network source nonce gas fee q transfer signer aid now) = order_intent order asset network source nonce gas fee"
  "ex_state_hash (new_execution E i order asset network source nonce gas fee q transfer signer aid now) = execution_hash E (new_execution E i order asset network source nonce gas fee q transfer signer aid now)"
  by (simp_all add: new_execution_def Let_def pays_def no_outcome_def execution_intent_def order_intent_def
      execution_hash_def execution_state_def)

lemma start_execution_cases:
  assumes step: "start_execution E sg order asset network source nonce transfer gas fee actor db = Inr ((r, transfer', q), db')"
  obtains i aid now j db4 where "order_path E order ''signing'' db db4"
    "i \<notin> ex_execution_id ` set (wallet_payment_executions db)" "or_order_id order \<notin> ex_order_id ` set (wallet_payment_executions db)"
    "j \<notin> at_attempt_id ` set (wallet_payment_execution_attempts db)" "q = or_order_id order @ '':attempt:1''"
    "catalog db' = catalog db4" "ledger_view db' = ledger_view db4" "transfer' = transfer"
    "wallet_payment_executions db' = wallet_payment_executions db
       @ [new_execution E i order asset network source nonce gas fee q transfer (sg_signer_id sg) aid now]"
    "wallet_payment_execution_attempts db' = wallet_payment_execution_attempts db
       @ [new_attempt E j i (or_subject_id order) 1 q now aid]"
    "r = execution_from_row (new_execution E i order asset network source nonce gas fee q transfer (sg_signer_id sg) aid now)"
proof -
  let ?q = "or_order_id order @ '':attempt:1''" and ?i = "''wallet_exec_'' @ env_uuid E (fresh_ids db)" and ?now = "env_clock E (ticks db)"
  let ?n = "\<lambda>aid. new_execution E ?i order asset network source nonce gas fee ?q transfer (sg_signer_id sg) aid ?now"
  from step obtain aid db3 db4 db5 db6 payload where
      a: "wallet_audit E (or_subject_id order) ''wallet_payment_execution_signing'' actor payload
        (db\<lparr>fresh_ids := Suc (fresh_ids db), ticks := Suc (ticks db)\<rparr>) = Inr (aid, db3)"
    and t: "transition_order E order ''signing'' actor ''execution started'' db3 = Inr db4"
    and ins: "insert_execution (?n aid) db4 = Inr db5"
    and s: "start_attempt E ?i (or_subject_id order) 1 ?q ?now aid db5 = Inr db6"
    and r: "read_execution ?i db6 = Inr (r, db')" "q = ?q" "transfer' = transfer"
    by (auto simp: start_execution_def Let_def utc_now_def new_id_def)
  have path: "order_path E order ''signing'' db db4"
    unfolding order_path_def using t wallet_audit_accounts [OF a] wallet_audit_catalog [OF a] by auto
  note ex = order_path_executions [OF path]
  have i: "?i \<notin> ex_execution_id ` set (wallet_payment_executions db)" "or_order_id order \<notin> ex_order_id ` set (wallet_payment_executions db)"
    and db5: "db5 = db4\<lparr>wallet_payment_executions := wallet_payment_executions db @ [?n aid]\<rparr>"
    using ins ex by (auto simp: insert_execution_def split: if_splits)
  obtain j m where j: "j \<notin> at_attempt_id ` set (wallet_payment_execution_attempts db5)"
    "db6 = db5\<lparr>fresh_ids := m, wallet_payment_execution_attempts := wallet_payment_execution_attempts db5
        @ [new_attempt E j ?i (or_subject_id order) 1 ?q ?now aid]\<rparr>"
    using s by (rule start_attempt_effect)
  have "fetchone (\<lambda>x. ex_execution_id x = ?i) (wallet_payment_executions db6) = Some (?n aid)"
    using fetchone_snoc_fresh [OF fetchone_fresh_key [OF i(1)], of "?n aid"] by (simp add: j(2) db5)
  with r(1) have "r = execution_from_row (?n aid)" "db' = db6" by (auto simp: read_execution_Inr)
  with path i j ex r(2,3) show thesis
    by (intro that [of db4 ?i j aid ?now]) (simp_all add: db5 catalog_def ledger_view_def)
qed

lemma attempts_of_append: "wallet_payment_execution_attempts db' = wallet_payment_execution_attempts db @ [a] \<Longrightarrow>
    attempts_of i db' = attempts_of i db @ (if at_execution_id a = i then [a] else [])"
  by (simp add: attempts_of_def)

lemma prepare_execution_executions:
  assumes inv: "executions_inv E db"
    and step: "prepare_execution E evidence sg default_fee order_id sid actor gas_limit max_fee nonce db = Inr ((r, transfer, q), db')"
  shows "executions_inv E db'"
  using step
proof (cases rule: prepare_execution_cases)
  case (1 order asset network source nv gas fee db1)
  have inv1: "executions_inv E db1" using inv 1(4) by (simp add: executions_inv_def accounts_def attempts_of_def)
  have order: "order \<in> set (wallet_payment_orders db1)" using get_order_Inr [OF 1(1)] 1(4) by (simp add: accounts_def)
  show ?thesis using 1(6)
  proof (cases rule: start_execution_cases)
    case c: (1 i aid now j db4)
    let ?n = "new_execution E i order asset network source nv gas fee q transfer (sg_signer_id sg) aid now"
    obtain oa on where ord: "wallet_payment_orders db' = update_where (\<lambda>r. or_order_id r = or_order_id order)
       (moved_order E ''signing'' oa on) (wallet_payment_orders db1)"
      using c(7) by (metis ledger_view_def fst_conv order_path_orders [OF c(1) executions_invD(1) [OF inv1] order])
    have keys: "map or_order_id (wallet_payment_orders db') = map or_order_id (wallet_payment_orders db1)"
      unfolding ord by (rule map_update_where) simp
    have "attempts_of i db1 = []" using executions_invD(8) [OF inv1] c(2) by (auto simp: attempts_of_def filter_empty_conv)
    then have att: "attempts_ok (attempts_of i db') ?n"
      by (simp add: attempts_of_append [OF c(10)] attempts_ok_def)
    have row: "execution_row_ok E ?n"
      using 1(3) by (simp add: execution_row_ok_def execution_statuses_def envelope_ok_def)
    have "moved_order E ''signing'' oa on order \<in> set (wallet_payment_orders db')"
      unfolding ord set_update_where using order by force
    moreover have "pays (moved_order E ''signing'' oa on order) ?n" "status_agrees (moved_order E ''signing'' oa on order) ?n"
      using new_execution_simps(6) unfolding pays_def status_agrees_def by simp_all
    ultimately have new: "execution_row_ok E ?n \<and> attempts_ok (attempts_of (ex_execution_id ?n) db') ?n
       \<and> (\<exists>w\<in>set (wallet_payment_orders db'). pays w ?n \<and> status_agrees w ?n)" using row att by auto
    have old: "execution_row_ok E y \<and> attempts_ok (attempts_of (ex_execution_id y) db') y
       \<and> (\<exists>w\<in>set (wallet_payment_orders db'). pays w y \<and> status_agrees w y)" if y: "y \<in> set (wallet_payment_executions db1)" for y
    proof -
      obtain w where w: "w \<in> set (wallet_payment_orders db1)" "pays w y" "status_agrees w y"
        using executions_invD(7) [OF inv1 y] by blast
      have "or_order_id w \<noteq> or_order_id order" using w(2) c(3) y unfolding pays_def by (metis image_eqI)
      then have "w \<in> set (wallet_payment_orders db')" unfolding ord set_update_where using w(1) by force
      moreover have "attempts_of (ex_execution_id y) db' = attempts_of (ex_execution_id y) db1"
        using c(2) y by (auto simp: attempts_of_append [OF c(10)])
      ultimately show ?thesis using w executions_invD(5,6) [OF inv1 y] by auto
    qed
    show ?thesis unfolding executions_inv_def keys
    proof (intro conjI ballI)
      show "distinct (map ex_execution_id (wallet_payment_executions db'))" "distinct (map ex_order_id (wallet_payment_executions db'))"
        "distinct (map at_attempt_id (wallet_payment_execution_attempts db'))"
        using executions_invD(2,3,4) [OF inv1] c(2,3,4) by (simp_all add: c(9,10))
      fix a assume "a \<in> set (wallet_payment_execution_attempts db')"
      then show "at_state_hash a = attempt_hash E a" "at_execution_id a \<in> ex_execution_id ` set (wallet_payment_executions db')"
        using executions_invD(8) [OF inv1] by (auto simp: c(9,10))
    qed (use executions_invD(1) [OF inv1] new old in \<open>auto simp: c(9)\<close>)
  qed
qed

text \<open>What preparing keeps of the other invariants: the order moves, the rest of the ledger stays.\<close>

lemma prepare_frames:
  assumes "prepare_execution E evidence sg default_fee order_id sid actor gas_limit max_fee nonce db = Inr ((r, transfer, q), db')
    \<or> prepare_retry E evidence sg order_id sid actor reason db = Inr ((r, transfer, q), db')"
  obtains order db4 where "order \<in> set (wallet_payment_orders db)" "or_status order \<in> {''reserved'', ''unknown''}"
    "order_path E order ''signing'' db db4" "catalog db' = catalog db4" "ledger_view db' = ledger_view db4"
  using assms
proof (elim disjE)
  assume "prepare_execution E evidence sg default_fee order_id sid actor gas_limit max_fee nonce db = Inr ((r, transfer, q), db')"
  then show thesis
  proof (cases rule: prepare_execution_cases)
    case (1 order asset network source nv gas fee db1)
    have o: "order \<in> set (wallet_payment_orders db)" using get_order_Inr [OF 1(1)] by simp
    obtain db4 where p: "order_path E order ''signing'' db1 db4" "catalog db' = catalog db4" "ledger_view db' = ledger_view db4"
      using start_execution_cases [OF 1(6)] by metis
    have "order_path E order ''signing'' db db4" using p(1) 1(4,5) unfolding order_path_def by metis
    with o 1(2) p(2,3) show thesis by (intro that [of order db4]) simp_all
  qed
next
  assume "prepare_retry E evidence sg order_id sid actor reason db = Inr ((r, transfer, q), db')"
  then show thesis
  proof (cases rule: prepare_retry_cases)
    case (1 x order aid now i db4)
    then show thesis by (intro that [of order db4]) simp_all
  qed
qed

lemma signing_path_ledger:
  assumes inv: "ledger_inv rg db" and order: "order \<in> set (wallet_payment_orders db)" "or_status order \<in> {''reserved'', ''unknown''}"
    and path: "order_path E order ''signing'' db db4" and v: "ledger_view db' = ledger_view db4"
  shows "ledger_inv rg db'"
proof -
  obtain db1 actor reason where a: "accounts db1 = accounts db" and t: "transition_order E order ''signing'' actor reason db1 = Inr db4"
    using path unfolding order_path_def by auto
  have "ledger_inv rg db1" "order \<in> set (wallet_payment_orders db1)"
    using inv order accounts_ledger [OF a] a by (simp_all add: accounts_def)
  from transition_ledger [OF this t] order(2) have "ledger_inv rg db4" by (auto simp: order_histories_def)
  then show ?thesis using v books_inv_cong(2) [of db' db4] by (simp add: ledger_view_def)
qed

end
