(* ===== verification/WalletPayments.thy ===== *)
theory WalletPayments
  imports WalletPreparation
begin

text \<open>
  The wallet as a whole: its committed transactions as a step relation, the states they reach,
  the invariant of those states and the integrity check of the executions.
\<close>

section \<open>Operations on orders keep the executions\<close>

definition executing_statuses :: "string set" where
  "executing_statuses = insert ''refunded'' (set execution_statuses)"

definition same_payment :: "order_row \<Rightarrow> order_row \<Rightarrow> bool" where
  "same_payment w v =
     (or_order_id v = or_order_id w \<and> or_subject_id v = or_subject_id w \<and> or_network_id v = or_network_id w
      \<and> or_asset_id v = or_asset_id w \<and> or_recipient_address v = or_recipient_address w \<and> or_amount v = or_amount w
      \<and> (or_status w \<in> executing_statuses \<longrightarrow> or_status v = or_status w \<or> or_status w = ''failed'' \<and> or_status v = ''refunded''))"

definition keeps_executing :: "'a wallet_db_scheme \<Rightarrow> 'a wallet_db_scheme \<Rightarrow> bool" where
  "keeps_executing db db' =
     (wallet_payment_executions db' = wallet_payment_executions db
      \<and> set (wallet_ledger_journals db) \<subseteq> set (wallet_ledger_journals db')
      \<and> wallet_payment_execution_attempts db' = wallet_payment_execution_attempts db
      \<and> (distinct (map or_order_id (wallet_payment_orders db)) \<longrightarrow> distinct (map or_order_id (wallet_payment_orders db')))
      \<and> (\<forall>w\<in>set (wallet_payment_orders db). \<exists>v\<in>set (wallet_payment_orders db'). same_payment w v))"

lemma same_payment_refl [simp]: "same_payment w w"
  by (simp add: same_payment_def)

lemma same_payment_trans: "same_payment u v \<Longrightarrow> same_payment v w \<Longrightarrow> same_payment u w"
  by (auto simp: same_payment_def executing_statuses_def)

lemma keeps_executing_trans: "keeps_executing a b \<Longrightarrow> keeps_executing b c \<Longrightarrow> keeps_executing a c"
  unfolding keeps_executing_def by (metis same_payment_trans subset_trans)

lemma keeps_executing_inv:
  assumes inv: "executions_inv E db" and keeps: "keeps_executing db db'"
  shows "executions_inv E db'"
proof -
  have "\<exists>v\<in>set (wallet_payment_orders db'). pays v x \<and> status_agrees v x" if x: "x \<in> set (wallet_payment_executions db)" for x
  proof -
    obtain w where w: "w \<in> set (wallet_payment_orders db)" "pays w x" "status_agrees w x"
      using executions_invD(7) [OF inv x] by blast
    obtain v where v: "v \<in> set (wallet_payment_orders db')" "same_payment w v"
      using keeps w(1) unfolding keeps_executing_def by blast
    have "ex_status x \<in> set execution_statuses" using executions_invD(5) [OF inv x] by (simp add: execution_row_ok_def)
    with w(2,3) v(2) have "pays v x" "status_agrees v x"
      by (auto simp: same_payment_def pays_def status_agrees_def executing_statuses_def)
    with v(1) show ?thesis by blast
  qed
  with inv keeps show ?thesis by (simp add: executions_inv_def keeps_executing_def attempts_of_def)
qed

lemma keeps_executingI:
  assumes "wallet_payment_executions db' = wallet_payment_executions db"
    "wallet_payment_execution_attempts db' = wallet_payment_execution_attempts db"
    "distinct (map or_order_id (wallet_payment_orders db)) \<Longrightarrow> distinct (map or_order_id (wallet_payment_orders db'))"
    "set (wallet_payment_orders db) \<subseteq> set (wallet_payment_orders db')"
    "set (wallet_ledger_journals db) \<subseteq> set (wallet_ledger_journals db')"
  shows "keeps_executing db db'"
  unfolding keeps_executing_def using assms same_payment_refl by blast

lemma accounts_keeps: "accounts db' = accounts db \<Longrightarrow> keeps_executing db db'"
  by (rule keeps_executingI) (simp_all add: accounts_def)

lemma post_order_journal_keeps: "post_order_journal E row jtype first second db = Inr db' \<Longrightarrow> keeps_executing db db'"
  by (erule post_order_journal_effect) (rule keeps_executingI, auto)

lemma insert_order_keeps: "insert_order r db = Inr db' \<Longrightarrow> keeps_executing db db'"
  by (rule keeps_executingI) (auto simp: insert_order_def split: if_splits)

lemma transition_order_keeps:
  assumes "distinct (map or_order_id (wallet_payment_orders db))" "row \<in> set (wallet_payment_orders db)"
    "transition_order E row target actor reason db = Inr db'"
    "or_status row \<notin> executing_statuses \<or> or_status row = ''failed'' \<and> target = ''refunded''"
  shows "keeps_executing db db'"
proof -
  obtain aid now n m au where db': "db' = db\<lparr>fresh_ids := m, ticks := n, audit_records := au,
       wallet_payment_orders := update_where (\<lambda>r. or_order_id r = or_order_id row)
         (moved_order E target aid now) (wallet_payment_orders db)\<rparr>"
    using transition_order_effect [OF assms(3,1,2)] by metis
  have "\<exists>v\<in>set (wallet_payment_orders db'). same_payment w v" if w: "w \<in> set (wallet_payment_orders db)" for w
  proof
    let ?v = "if or_order_id w = or_order_id row then moved_order E target aid now w else w"
    show "?v \<in> set (wallet_payment_orders db')" unfolding db' using w by (auto simp: set_update_where)
    show "same_payment w ?v"
      using assms(4) distinct_key_eq [OF assms(1) w assms(2)] by (auto simp: same_payment_def)
  qed
  moreover have "map or_order_id (wallet_payment_orders db') = map or_order_id (wallet_payment_orders db)"
    unfolding db' by (simp, rule map_update_where) simp
  ultimately show ?thesis by (simp add: keeps_executing_def db')
qed

lemma not_executing [simp]: "''pending_policy'' \<notin> executing_statuses" "''awaiting_confirmation'' \<notin> executing_statuses"
  "''reserved'' \<notin> executing_statuses"
  by (simp_all add: executing_statuses_def execution_statuses_def)

lemma reserve_order_keeps:
  assumes d: "distinct (map or_order_id (wallet_payment_orders db))" and row: "row \<in> set (wallet_payment_orders db)"
    and st: "or_status row \<notin> executing_statuses" and step: "reserve_order E evidence row actor db = Inr db'"
  shows "keeps_executing db db'"
proof -
  obtain db1 db2 where a: "policy_allows E evidence row (subject_policy (or_subject_id row) db) None db = Inr (True, db1)"
    and t: "transition_order E row ''reserved'' actor ''funds reserved'' db1 = Inr db2"
    and p: "post_order_journal E row ''reservation'' (''available'', ''debit'') (''reserved'', ''credit'') db2 = Inr db'"
    using step by (auto simp: reserve_order_def split: if_splits)
  obtain n where n: "db1 = db\<lparr>ticks := n\<rparr>" using a by (rule policy_allows_frame)
  have k1: "keeps_executing db db1" by (rule accounts_keeps) (simp add: n)
  have k2: "keeps_executing db1 db2" by (rule transition_order_keeps [OF _ _ t]) (use d row st in \<open>simp_all add: n\<close>)
  show ?thesis using k1 k2 post_order_journal_keeps [OF p] by (meson keeps_executing_trans)
qed

lemma settle_new_order_keeps:
  assumes d: "distinct (map or_order_id (wallet_payment_orders db))" and row: "row \<in> set (wallet_payment_orders db)"
    and st: "or_status row = ''pending_policy''" and step: "settle_new_order E evidence row policy db = Inr db'"
  shows "keeps_executing db db'"
proof -
  have t: "keeps_executing db db2"
    if "transition_order E row target who reason db1 = Inr db2" "db1 = db\<lparr>ticks := n\<rparr> \<or> db1 = db" for target who reason db1 db2 n
  proof -
    have "keeps_executing db db1" using that(2) by (auto intro!: accounts_keeps)
    moreover have "keeps_executing db1 db2"
      by (rule transition_order_keeps [OF _ _ that(1)]) (use that(2) d row st in auto)
    ultimately show ?thesis by (rule keeps_executing_trans)
  qed
  have r: "keeps_executing db db2"
    if "reserve_order E evidence row who db1 = Inr db2" "db1 = db\<lparr>ticks := n\<rparr> \<or> db1 = db" for who db1 db2 n
  proof -
    have "keeps_executing db db1" using that(2) by (auto intro!: accounts_keeps)
    moreover have "keeps_executing db1 db2"
      by (rule reserve_order_keeps [OF _ _ _ that(1)]) (use that(2) d row st in auto)
    ultimately show ?thesis by (rule keeps_executing_trans)
  qed
  show ?thesis using step unfolding settle_new_order_def
    by (auto split: if_splits elim!: policy_allows_frame intro: t r accounts_keeps)
qed

lemma ensure_order_keeps:
  assumes d: "distinct (map or_order_id (wallet_payment_orders db))" and "ensure_order E evidence s db = Inr db'"
  shows "keeps_executing db db'"
  using assms(2)
proof (cases rule: ensure_order_cases)
  case (created b i aid now db3 db4)
  let ?r = "new_order E i s b (subject_policy (sr_subject_id s) db) aid now"
  have k3: "keeps_executing db db3" by (rule accounts_keeps [OF created(4)])
  have k4: "keeps_executing db3 db4" by (rule insert_order_keeps [OF created(5)])
  have r: "?r \<in> set (wallet_payment_orders db4)" using created(5) by (auto simp: insert_order_def split: if_splits)
  have "distinct (map or_order_id (wallet_payment_orders db4))" using k3 k4 d by (simp add: keeps_executing_def)
  from settle_new_order_keeps [OF this r _ created(6)] have "keeps_executing db4 db'" by simp
  with k3 k4 show ?thesis by (meson keeps_executing_trans)
qed (simp add: accounts_keeps)

lemma decide_keeps:
  assumes d: "distinct (map or_order_id (wallet_payment_orders db))"
    and "decide_submission_connection E evidence i sid accepted reason actor db = Inr (rec, db')"
  shows "keeps_executing db db'"
proof -
  obtain row b act why aid db2 db3 where
    "wallet_audit E sid (''wallet_submission_'' @ (if accepted then ''accepted'' else ''rejected'')) act
       [(''submission_id'', JStr i), (''from'', JStr ''submitted''),
        (''to'', JStr (if accepted then ''accepted'' else ''rejected'')), (''reason'', JStr why)]
       (db\<lparr>ticks := Suc (ticks db)\<rparr>) = Inr (aid, db2)"
    "update_submission E row (if accepted then ''accepted'' else ''rejected'') why aid (env_clock E (ticks db)) db2 = Inr db3"
    "(if accepted then ensure_order E evidence rec db3 else Inr db3) = Inr db'"
    using assms(2) by (rule decide_effect)
  then have a: "accounts db3 = accounts db" and c: "db' = db3 \<or> ensure_order E evidence rec db3 = Inr db'"
    by (auto dest!: accounts_frames split: if_splits)
  have k: "keeps_executing db db3" by (rule accounts_keeps [OF a])
  have "distinct (map or_order_id (wallet_payment_orders db3))" using d a by (simp add: accounts_def)
  with c have "db' = db3 \<or> keeps_executing db3 db'" using ensure_order_keeps by blast
  with k show ?thesis by (meson keeps_executing_trans)
qed

lemma order_operations_keep:
  assumes d: "distinct (map or_order_id (wallet_payment_orders db))"
  shows "confirm_order E evidence oid sid actor db = Inr (rec, db') \<Longrightarrow> keeps_executing db db'"
    and "reject_order E oid sid actor reason db = Inr (rec, db') \<Longrightarrow> keeps_executing db db'"
    and "cancel_order E oid sid actor reason db = Inr (rec, db') \<Longrightarrow> keeps_executing db db'"
    and "refund_order E oid sid actor reason db = Inr (rec, db') \<Longrightarrow> keeps_executing db db'"
proof -
  note t = transition_order_keeps [OF d]
  show "keeps_executing db db'" if "confirm_order E evidence oid sid actor db = Inr (rec, db')"
    using that by (auto simp: confirm_order_def read_back_def split: if_splits dest!: get_order_Inr intro: reserve_order_keeps [OF d])
  show "keeps_executing db db'" if "reject_order E oid sid actor reason db = Inr (rec, db')"
    using that by (auto simp: reject_order_def read_back_def split: if_splits dest!: get_order_Inr intro: t)
  show "keeps_executing db db'" if "cancel_order E oid sid actor reason db = Inr (rec, db')"
    using that by (auto simp: cancel_order_def release_order_def read_back_def split: if_splits dest!: get_order_Inr
        dest: post_order_journal_keeps intro: t keeps_executing_trans [OF t])
  show "keeps_executing db db'" if "refund_order E oid sid actor reason db = Inr (rec, db')"
    using that by (auto simp: refund_order_def Let_def read_back_def split: if_splits dest!: get_order_Inr
        dest: post_order_journal_keeps intro: keeps_executing_trans [OF t])
qed

section \<open>Steps and reachable states\<close>

text \<open>
  One committed transaction of the wallet, in any order and by any worker.  \<open>decide_connection\<close> is
  a decision inside the transaction of another component, which writes its own tables before
  and after (\<open>others\<close>).  \<open>rg\<close> admits the
  reports of chain reorganisations (\<open>mark_reconcile_required\<close>).  \<open>others\<close> is a write of another
  component: it leaves the tables of the economy and of the executions alone.
\<close>

definition wallet_tables :: "'a wallet_db_scheme \<Rightarrow> _" where
  "wallet_tables db =
     (wallet_bounties db, wallet_bounty_submissions db, wallet_payment_orders db, wallet_ledger_journals db,
      wallet_ledger_entries db, wallet_payment_executions db, wallet_payment_execution_attempts db)"

inductive wallet_step :: "env \<Rightarrow> bool \<Rightarrow> 'a wallet_db_scheme \<Rightarrow> 'a wallet_db_scheme \<Rightarrow> bool" for E rg where
  create_bounty: "create_bounty E sid p actor db = Inr (br, db') \<Longrightarrow> wallet_step E rg db db'"
| transition_bounty: "transition_bounty E bid sid target actor db = Inr (br, db') \<Longrightarrow> wallet_step E rg db db'"
| maintain: "maintain_expired_bounties E sid limit db = Inr (n, db') \<Longrightarrow> wallet_step E rg db db'"
| submit: "submit_to_bounty E bid sid sp db = Inr (sr, db') \<Longrightarrow> wallet_step E rg db db'"
| decide: "decide_submission E evidence i sid accepted reason actor db = Inr (sr, db') \<Longrightarrow> wallet_step E rg db db'"
| decide_connection: "decide_submission_connection E evidence i sid accepted reason actor db = Inr (sr, db') \<Longrightarrow> wallet_step E rg db db'"
| withdraw: "withdraw_submission E i sid actor db = Inr (sr, db') \<Longrightarrow> wallet_step E rg db db'"
| update_policy: "update_policy E evidence sid pp v actor request db = Inr (qr, db') \<Longrightarrow> wallet_step E rg db db'"
| confirm_order: "confirm_order E evidence oid sid actor db = Inr (pr, db') \<Longrightarrow> wallet_step E rg db db'"
| reject_order: "reject_order E oid sid actor reason db = Inr (pr, db') \<Longrightarrow> wallet_step E rg db db'"
| cancel_order: "cancel_order E oid sid actor reason db = Inr (pr, db') \<Longrightarrow> wallet_step E rg db db'"
| refund_order: "refund_order E oid sid actor reason db = Inr (pr, db') \<Longrightarrow> wallet_step E rg db db'"
| prepare: "prepare_execution E evidence sg fee oid sid actor gas_limit max_fee nonce db = Inr (prepared, db') \<Longrightarrow> wallet_step E rg db db'"
| retry: "prepare_retry E evidence sg oid sid actor reason db = Inr (prepared, db') \<Longrightarrow> wallet_step E rg db db'"
| broadcast: "mark_broadcast E eid sid actor result db = Inr (er, db') \<Longrightarrow> wallet_step E rg db db'"
| unknown: "mark_unknown E eid sid actor tx code db = Inr (er, db') \<Longrightarrow> wallet_step E rg db db'"
| failed: "mark_failed E eid sid actor code rcpt db = Inr (er, db') \<Longrightarrow> wallet_step E rg db db'"
| confirmed: "mark_confirmed E eid sid actor rc db = Inr (er, db') \<Longrightarrow> wallet_step E rg db db'"
| recover: "recover_execution E sid actor eid db = Inr (re, db') \<Longrightarrow> wallet_step E rg db db'"
| reconcile: "rg \<Longrightarrow> mark_reconcile_required E eid sid actor reason db = Inr (er, db') \<Longrightarrow> wallet_step E rg db db'"
| others: "wallet_tables db' = wallet_tables db \<Longrightarrow> wallet_step E rg db db'"

inductive wallet_reachable :: "env \<Rightarrow> bool \<Rightarrow> 'a wallet_db_scheme \<Rightarrow> bool" for E rg where
  start: "wallet_tables db = ([], [], [], [], [], [], []) \<Longrightarrow> wallet_reachable E rg db"
| step: "wallet_reachable E rg db \<Longrightarrow> wallet_step E rg db db' \<Longrightarrow> wallet_reachable E rg db'"

definition wallet_inv :: "env \<Rightarrow> bool \<Rightarrow> 'a wallet_db_scheme \<Rightarrow> bool" where
  "wallet_inv E rg db = (ledger_inv rg db \<and> catalog_ok (catalog db) \<and> executions_inv E db)"

lemma wallet_invI:
  assumes "ledger_inv rg db" "catalog_ok (catalog db)" "executions_inv E db"
  shows "wallet_inv E rg db"
  using assms by (simp add: wallet_inv_def)

lemma accounts_step:
  fixes db db' :: "'a wallet_db_scheme"
  assumes "wallet_inv E rg db" "accounts db' = accounts db" "catalog_ok (catalog db')"
  shows "wallet_inv E rg db'"
  using assms accounts_ledger [OF assms(2)] keeps_executing_inv [OF _ accounts_keeps [OF assms(2)]]
  by (simp add: wallet_inv_def)

lemma order_step:
  assumes "wallet_inv E rg db" "ledger_inv rg db \<Longrightarrow> ledger_inv rg db'" "catalog db' = catalog db" "keeps_executing db db'"
  shows "wallet_inv E rg db'"
  using assms keeps_executing_inv [OF _ assms(4)] by (simp add: wallet_inv_def)

lemma outcome_step:
  assumes inv: "wallet_inv E rg db"
    and path: "db' \<noteq> db \<Longrightarrow> \<exists>x order u. outcome_path E x order u db db' \<and> (or_status order = ''confirmed'' \<longrightarrow> rg)"
  shows "wallet_inv E rg db'"
proof (cases "db' = db")
  case False
  with path obtain x order u where p: "outcome_path E x order u db db'" "or_status order = ''confirmed'' \<longrightarrow> rg" by blast
  from inv p outcome_path_ledger [OF _ p(1), of rg] outcome_path_executions [OF _ p(1)] show ?thesis
    by (simp add: wallet_inv_def outcome_path_catalog [OF p(1)])
qed (use inv in simp)

lemma prepare_step:
  assumes inv: "wallet_inv E rg db" and exe: "executions_inv E db'"
    and step: "prepare_execution E evidence sg fee oid sid actor gas_limit max_fee nonce db = Inr ((r, transfer, q), db')
      \<or> prepare_retry E evidence sg oid sid actor reason db = Inr ((r, transfer, q), db')"
  shows "wallet_inv E rg db'"
proof -
  obtain order db4 where p: "order \<in> set (wallet_payment_orders db)" "or_status order \<in> {''reserved'', ''unknown''}"
    "order_path E order ''signing'' db db4" "catalog db' = catalog db4" "ledger_view db' = ledger_view db4"
    using step by (rule prepare_frames)
  have "catalog db4 = catalog db"
    using p(3) unfolding order_path_def by (auto dest!: transition_order_catalog)
  with inv exe p(4) signing_path_ledger [OF _ p(1,2,3,5), of rg] show ?thesis by (simp add: wallet_inv_def)
qed

lemma wallet_step_inv:
  assumes "wallet_step E rg db db'" "wallet_inv E rg db"
  shows "wallet_inv E rg db'"
  using assms
proof (cases rule: wallet_step.cases)
  have d: "distinct (map or_order_id (wallet_payment_orders db))" and c: "catalog_ok (catalog db)" and x: "executions_inv E db"
    using assms(2) executions_invD(1) by (auto simp: wallet_inv_def)
  note acc = accounts_step [OF assms(2)] and ord = order_step [OF assms(2)] and out = outcome_step [OF assms(2)]
  have decided: ?thesis if dec: "decide_submission_connection E evidence i sid accepted why act db = Inr (sr, db')"
    for evidence i sid accepted why act sr
    by (rule wallet_invI, rule decide_ledger [OF _ dec], (use assms(2) in \<open>simp add: wallet_inv_def\<close>),
        rule decide_catalog [OF c dec], rule keeps_executing_inv [OF x decide_keeps [OF d dec]])
  {
    case create_bounty
    show ?thesis by (rule acc [OF create_bounty_accounts [OF create_bounty] create_bounty_catalog [OF c create_bounty]])
  next
    case transition_bounty
    show ?thesis by (rule acc [OF transition_bounty_accounts [OF transition_bounty]]) (use transition_bounty_catalog [OF transition_bounty] c in simp)
  next
    case maintain
    show ?thesis by (rule acc [OF maintain_accounts [OF maintain]]) (use maintain_catalog [OF maintain] c in simp)
  next
    case submit
    show ?thesis by (rule acc [OF submit_accounts [OF submit] submit_catalog [OF c submit]])
  next
    case withdraw
    show ?thesis by (rule acc [OF withdraw_accounts [OF withdraw] withdraw_catalog [OF c withdraw]])
  next
    case update_policy
    show ?thesis by (rule acc [OF update_policy_accounts [OF update_policy]]) (use update_policy_catalog [OF update_policy] c in simp)
  next
    case (decide evidence i sid accepted reason actor sr)
    from this obtain why act where "decide_submission_connection E evidence i sid accepted why act db = Inr (sr, db')"
      by (rule decide_submission_Inr)
    then show ?thesis by (rule decided)
  next
    case decide_connection
    then show ?thesis by (rule decided)
  next
    case confirm_order
    show ?thesis by (intro ord confirm_order_ledger [OF _ confirm_order] order_operations_catalog(1) [OF confirm_order]
          order_operations_keep(1) [OF d confirm_order])
  next
    case reject_order
    show ?thesis by (intro ord reject_order_ledger [OF _ reject_order] order_operations_catalog(2) [OF reject_order]
          order_operations_keep(2) [OF d reject_order])
  next
    case cancel_order
    show ?thesis by (intro ord cancel_order_ledger [OF _ cancel_order] order_operations_catalog(3) [OF cancel_order]
          order_operations_keep(3) [OF d cancel_order])
  next
    case refund_order
    show ?thesis by (intro ord refund_order_ledger [OF _ refund_order] order_operations_catalog(4) [OF refund_order]
          order_operations_keep(4) [OF d refund_order])
  next
    case (prepare evidence sg fee oid sid actor gas_limit max_fee nonce prepared)
    obtain r t q where "prepared = (r, t, q)" by (cases prepared)
    note p = prepare [unfolded this]
    show ?thesis by (rule prepare_step [OF assms(2) prepare_execution_executions [OF x p] disjI1 [OF p]])
  next
    case (retry evidence sg oid sid actor reason prepared)
    obtain r t q where "prepared = (r, t, q)" by (cases prepared)
    note p = retry [unfolded this]
    show ?thesis by (rule prepare_step [OF assms(2) prepare_retry_executions [OF x p] disjI2 [OF p]])
  next
    case broadcast
    show ?thesis by (rule out) (use mark_broadcast_path [OF x broadcast] in blast)
  next
    case unknown
    show ?thesis by (rule out) (use mark_unknown_path [OF x unknown] in blast)
  next
    case failed
    show ?thesis by (rule out) (use mark_failed_path [OF x failed] in blast)
  next
    case confirmed
    show ?thesis by (rule out) (use mark_confirmed_path [OF x confirmed] in blast)
  next
    case recover
    show ?thesis by (rule out) (use recover_execution_path [OF x recover] in blast)
  next
    case reconcile
    show ?thesis by (rule out) (use mark_reconcile_required_path [OF x reconcile(2)] reconcile(1) in meson)
  next
    case others
    then show ?thesis by (intro acc) (use c in \<open>simp_all add: wallet_tables_def accounts_def catalog_def\<close>)
  }
qed

lemma wallet_start_inv: "wallet_tables db = ([], [], [], [], [], [], []) \<Longrightarrow> wallet_inv E rg db"
  by (simp add: wallet_tables_def wallet_inv_def ledger_inv_def books_inv_def executions_inv_def catalog_ok_def catalog_def)

lemma wallet_reachable_inv: "wallet_reachable E rg db \<Longrightarrow> wallet_inv E rg db"
  by (induction rule: wallet_reachable.induct) (blast intro: wallet_start_inv wallet_step_inv)+

section \<open>The integrity check\<close>

lemma attempt_numbers:
  assumes "attempts_ok as x" "1 \<le> ex_attempt_count x"
  shows "int (length as) = ex_attempt_count x" "as \<noteq> []"
    "at_attempt_number ` set as = int ` {1..nat (ex_attempt_count x)}" "distinct (map at_attempt_number as)"
proof -
  have m: "map at_attempt_number as = map int [1..<Suc (nat (ex_attempt_count x))]" using assms(1) by (simp add: attempts_ok_def)
  show len: "int (length as) = ex_attempt_count x" using arg_cong [OF m, of length] assms(2) by simp
  then show "as \<noteq> []" using assms(2) by auto
  have "at_attempt_number ` set as = set (map at_attempt_number as)" by simp
  also have "\<dots> = int ` {1..nat (ex_attempt_count x)}" unfolding m by (auto simp: atLeastLessThanSuc_atLeastAtMost)
  finally show "at_attempt_number ` set as = int ` {1..nat (ex_attempt_count x)}" .
  show "distinct (map at_attempt_number as)" unfolding m by (simp add: distinct_map inj_on_def)
qed

lemma attempt_chain_intact:
  assumes inv: "executions_inv E db" and x: "x \<in> set (wallet_payment_executions db)"
  shows "\<not> attempt_chain_broken x db" "stored_attempts x db = attempts_of (ex_execution_id x) db"
proof -
  let ?as = "attempts_of (ex_execution_id x) db" and ?n = "ex_attempt_count x"
  have ok: "attempts_ok ?as x" and pos: "1 \<le> ?n"
    using executions_invD(5,6) [OF inv x] by (auto simp: execution_row_ok_def)
  show st: "stored_attempts x db = ?as"
    using ok by (auto simp: stored_attempts_def attempts_of_def attempts_ok_def intro!: filter_cong)
  note num = attempt_numbers [OF ok pos]
  have "Min (int ` {1..nat ?n}) = 1" by (rule Min_eqI) (use pos in auto)
  moreover have "Max (int ` {1..nat ?n}) = ?n" by (rule Max_eqI) (use pos in \<open>auto simp: image_iff intro!: bexI [of _ "nat ?n"]\<close>)
  moreover have "fetchone (\<lambda>a. at_attempt_number a = ?n) ?as = Some (last ?as)"
  proof -
    have "?n \<in> at_attempt_number ` set ?as" unfolding num(3) using pos by (auto intro!: image_eqI [of _ _ "nat ?n"])
    then obtain a where a: "a \<in> set ?as" "at_attempt_number a = ?n" by auto
    then have "a = last ?as" using last_attempt(1) [OF ok a pos] by simp
    then show ?thesis using fetchone_key [OF num(4) a(1)] a(2) by simp
  qed
  ultimately show "\<not> attempt_chain_broken x db"
    using num ok by (simp add: attempt_chain_broken_def st attempts_ok_def Let_def)
qed

lemma order_agrees_inv:
  assumes inv: "executions_inv E db" and x: "x \<in> set (wallet_payment_executions db)"
  shows "order_agrees (ex_subject_id x) x db"
proof -
  obtain w where w: "w \<in> set (wallet_payment_orders db)" "pays w x" "status_agrees w x"
    using executions_invD(7) [OF inv x] by blast
  then have "fetchone (\<lambda>w. or_order_id w = ex_order_id x) (wallet_payment_orders db) = Some w"
    using fetchone_key [OF executions_invD(1) [OF inv] w(1)] by (simp add: pays_def)
  with w show ?thesis by (auto simp: order_agrees_def pays_def status_agrees_def)
qed

lemma res_fold_counts:
  assumes "\<And>x n. x \<in> set xs \<Longrightarrow> f x n = Inr (Suc n)"
  shows "res_fold f xs n = Inr (n + length xs)"
  using assms by (induction xs arbitrary: n) auto

lemma verify_database_integrity_inv:
  assumes inv: "executions_inv E db" and "validate_subject_id sid = Inr u"
  shows "verify_database_integrity E sid db =
     Inr (count_where (\<lambda>x. ex_subject_id x = sid) (wallet_payment_executions db),
          count_where (\<lambda>a. at_subject_id a = sid) (wallet_payment_execution_attempts db))"
proof -
  have "res_fold (verify_execution_row E sid db) (filter (\<lambda>x. ex_subject_id x = sid) (wallet_payment_executions db)) 0
     = Inr (0 + length (filter (\<lambda>x. ex_subject_id x = sid) (wallet_payment_executions db)))"
    by (rule res_fold_counts)
      (use executions_invD(5) [OF inv] attempt_chain_intact(1) [OF inv] order_agrees_inv [OF inv] in
        \<open>auto simp: verify_execution_row_def execution_row_ok_def\<close>)
  moreover have "res_fold (verify_attempt_row E) (filter (\<lambda>a. at_subject_id a = sid) (wallet_payment_execution_attempts db)) 0
     = Inr (0 + length (filter (\<lambda>a. at_subject_id a = sid) (wallet_payment_execution_attempts db)))"
    by (rule res_fold_counts) (use executions_invD(8) [OF inv] in \<open>auto simp: verify_attempt_row_def\<close>)
  ultimately show ?thesis by (simp add: verify_database_integrity_def assms(2) count_where_def)
qed

end
