(* ===== verification/WalletRun.thy ===== *)
theory WalletRun
  imports WalletPayments
begin

text \<open>
  A concrete run of the wallet, from a bounty to a confirmed payment, evaluated in the kernel:
  the states the witnesses of the wallet's properties are applied to.
\<close>

definition run_env :: env where "run_env = hexa_env"

definition run_bounty :: bounty_input where
  "run_bounty = \<lparr>bi_title = ''t'', bi_description = ''d'', bi_acceptance_criteria = [''a''],
     bi_network_id = ''n1'', bi_asset_id = ''a1'', bi_reward_amount = ''25'',
     bi_opens_at = ''2026-01-01T00:00:00.000+00:00'', bi_expires_at = ''2026-02-01T00:00:00.000+00:00'',
     bi_max_submissions = 3, bi_reward_slots = 2, bi_project_id = None, bi_goal_id = None,
     bi_idempotency_key = ''k1''\<rparr>"

definition run_policy :: policy_row where
  "run_policy = \<lparr>po_subject_id = ''sub'', po_mode = ''conditional_confirmation'', po_allowed_network_ids_json = ''[]'',
     po_allowed_asset_ids_json = ''[]'', po_per_order_limit = ''100'', po_daily_limit = ''100'', po_monthly_limit = ''0'',
     po_daily_order_limit = 0, po_monthly_order_limit = 0, po_min_balance = ''0'', po_max_observation_age_seconds = 0,
     po_automatic_max_amount = ''0'', po_anomaly_block = False, po_emergency_paused = False, po_automation_enabled = False,
     po_recipient_allowlist_enabled = False, po_allowed_recipient_addresses_json = ''[]'', po_policy_version = 1,
     po_updated_at = sample_time, po_state_hash = replicate 64 (CHR ''a'')\<rparr>"

lemma run_policy_simps [simp]:
  "po_subject_id run_policy = ''sub''" "po_mode run_policy = ''conditional_confirmation''" "po_per_order_limit run_policy = ''100''"
  "po_daily_limit run_policy = ''100''" "po_monthly_limit run_policy = ''0''" "po_daily_order_limit run_policy = 0"
  "po_monthly_order_limit run_policy = 0" "po_min_balance run_policy = ''0''" "po_max_observation_age_seconds run_policy = 0"
  "\<not> po_anomaly_block run_policy" "\<not> po_emergency_paused run_policy" "\<not> po_automation_enabled run_policy"
  "\<not> po_recipient_allowlist_enabled run_policy" "po_policy_version run_policy = 1" "po_updated_at run_policy = sample_time"
  by (simp_all add: run_policy_def)

lemma run_ints [simp]: "parse_py_int ''25'' = Inr 25" "parse_py_int ''100'' = Inr 100" "parse_py_int ''0'' = Inr 0"
  by code_simp+

definition run_digest :: string where
  "run_digest = replicate 64 (CHR ''a'')"

definition run_state ::
    "nat \<Rightarrow> nat \<Rightarrow> audit_row list \<Rightarrow> bounty_row list \<Rightarrow> submission_row list \<Rightarrow> order_row list \<Rightarrow> journal_row list
      \<Rightarrow> entry_row list \<Rightarrow> execution_row list \<Rightarrow> attempt_row list \<Rightarrow> wallet_db" where
  "run_state n m audits bs ss os js es xs as = \<lparr>ticks = n, fresh_ids = m, subject_identity = [''sub''], runtime_state = [], events = [],
     event_chain_roots = [], training_policies = [], training_records = [], audit_records = audits,
     private_conversation_messages = [], private_conversations = [], autonomous_projects = [], goals = [],
     wallet_networks = [\<lparr>nw_network_id = ''n1'', nw_subject_id = ''sub'', nw_label = ''main'', nw_chain_family = ''evm'', nw_chain_id = 1,
        nw_native_symbol = ''ETH'', nw_rpc_url = None, nw_status = ''active'', nw_state_hash = run_digest, nw_created_at = sample_time,
        nw_revoked_at = None, nw_revoke_reason = None, nw_created_audit_id = ''audit_n1'', nw_revoked_audit_id = None\<rparr>],
     wallet_assets = [\<lparr>as_asset_id = ''a1'', as_subject_id = ''sub'', as_network_id = ''n1'', as_asset_type = ''native'',
        as_contract_address = None, as_name = ''ether'', as_symbol = ''ETH'', as_decimals = 18, as_status = ''active'',
        as_state_hash = run_digest, as_created_at = sample_time, as_revoked_at = None, as_revoke_reason = None,
        as_created_audit_id = ''audit_a1'', as_revoked_audit_id = None\<rparr>],
     wallet_addresses = [\<lparr>ad_address_id = ''w1'', ad_subject_id = ''sub'', ad_network_id = ''n1'', ad_label = ''pay'',
        ad_address = ''0x'' @ replicate 40 (CHR ''1''), ad_purpose = ''spending'', ad_status = ''active'',
        ad_state_hash = run_digest, ad_created_at = sample_time, ad_revoked_at = None, ad_revoke_reason = None,
        ad_created_audit_id = ''audit_w1'', ad_revoked_audit_id = None\<rparr>],
     wallet_balance_snapshots = [], wallet_bounties = bs, wallet_bounty_submissions = ss, wallet_payment_policies = [run_policy],
     wallet_payment_orders = os, wallet_ledger_journals = js, wallet_ledger_entries = es, wallet_payment_executions = xs,
     wallet_payment_execution_attempts = as, wallet_payment_reconciliation_events = []\<rparr>"

definition run0 :: wallet_db where
  "run0 = run_state 0 0 [] [] [] [] [] [] [] []"

lemma run_env_simps [simp]: "env_clock run_env n = sample_time" "env_uuid run_env n = replicate n (CHR ''a'')"
  by (simp_all add: run_env_def sample_env_def)

lemma run_digests [simp]: "content_hash (env_sha256 run_env) v = run_digest" "valid_hash run_digest"
  "order_state_hash run_env r = run_digest" "bounty_state_hash run_env b = run_digest"
  "wallet_submission_state_hash run_env su = run_digest" "execution_hash run_env x = run_digest"
  "execution_hash_values_from_row run_env x u n now = run_digest" "attempt_hash run_env a = run_digest"
  by (simp_all add: run_env_def hexa_env_def hex_env_def content_hash_def run_digest_def order_state_hash_def bounty_state_hash_def
      wallet_submission_state_hash_def execution_hash_def execution_hash_values_from_row_def attempt_hash_def
      valid_hash_def hex_lower_def list_all_iff)

lemma run_inputs [simp]: "validate_subject_id ''sub'' = Inr ''sub''" "operator_name ''op'' = Inr ''op''"
  by code_simp+

lemma loaded_texts:
  "loaded_tuple (canonical_json (json_texts [''a''])) = Inr [JStr ''a'']" "loaded_tuple (canonical_json (json_texts [])) = Inr []"
  unfolding loaded_tuple_def using strict_json_loads_canonical [of "json_texts [''a'']"] strict_json_loads_canonical [of "json_texts []"]
  by (simp_all add: json_texts_def)

definition run_audit :: "nat \<Rightarrow> string \<Rightarrow> string \<Rightarrow> (string \<times> json) list \<Rightarrow> audit_row" where
  "run_audit i action actor payload = \<lparr>au_audit_id = ''audit_'' @ replicate i (CHR ''a''), au_subject_id = ''sub'', au_action = action,
     au_actor = actor, au_payload_json = canonical_json (JObj payload), au_occurred_at = sample_time\<rparr>"

lemma run_audit_id [simp]: "au_audit_id (run_audit i action actor payload) = ''audit_'' @ replicate i (CHR ''a'')"
  by (simp add: run_audit_def)

lemma run_wallet_audit:
  assumes "subject_identity db = [''sub'']" "''audit_'' @ replicate (fresh_ids db) (CHR ''a'') \<notin> au_audit_id ` set (audit_records db)"
  shows "wallet_audit run_env ''sub'' action actor payload db = Inr (''audit_'' @ replicate (fresh_ids db) (CHR ''a''),
     db\<lparr>fresh_ids := Suc (fresh_ids db), ticks := Suc (ticks db),
        audit_records := audit_records db @ [run_audit (fresh_ids db) action actor payload]\<rparr>)"
  using assms by (simp add: wallet_audit_def new_id_def utc_now_def insert_audit_def run_audit_def)

lemma run_bounty_simps [simp]: "bi_network_id run_bounty = ''n1''" "bi_asset_id run_bounty = ''a1''" "bi_project_id run_bounty = None"
  "bi_goal_id run_bounty = None"
  by (simp_all add: run_bounty_def)

definition run_bounty_row :: bounty_row where
  "run_bounty_row = new_bounty run_env ''bounty_'' ''sub'' run_bounty ''audit_a'' sample_time"

lemma run_bounty_row_simps [simp]:
  "bo_bounty_id run_bounty_row = ''bounty_''" "bo_subject_id run_bounty_row = ''sub''" "bo_status run_bounty_row = ''draft''"
  "bo_created_audit_id run_bounty_row = ''audit_a''" "bo_last_audit_id run_bounty_row = ''audit_a''"
  "bo_network_id run_bounty_row = ''n1''" "bo_asset_id run_bounty_row = ''a1''" "bo_reward_amount run_bounty_row = ''25''"
  "bo_opens_at run_bounty_row = ''2026-01-01T00:00:00.000+00:00''" "bo_expires_at run_bounty_row = ''2026-02-01T00:00:00.000+00:00''"
  "bo_max_submissions run_bounty_row = 3" "bo_reward_slots run_bounty_row = 2" "bo_idempotency_key run_bounty_row = ''k1''"
  "bo_project_id run_bounty_row = None" "bo_goal_id run_bounty_row = None" "bo_title run_bounty_row = ''t''" "bo_description run_bounty_row = ''d''"
  "bo_acceptance_criteria_json run_bounty_row = canonical_json (json_texts [''a''])"
  by (simp_all add: run_bounty_row_def new_bounty_def run_bounty_def Let_def)

lemmas run_eval = run_state_def utc_now_def network_row_of_def asset_row_of_def store_identifier_def
     owned_by_def new_id_def insert_bounty_def Let_def blank_iff py_isspace_def loaded_texts run_wallet_audit
     read_bounty_def bounty_from_row_def trimmed_between_def sql_trim_def sql_amount_def decimal_pattern_def is_digit_def

definition run1 :: wallet_db where
  "run1 = run_state 2 2 [run_audit 1 ''wallet_bounty_created'' ''op'' (bounty_payload ''bounty_'' ''sub'' run_bounty sample_time)]
     [run_bounty_row] [] [] [] [] [] []"

lemma run1_step: "\<exists>r. create_bounty run_env ''sub'' run_bounty ''op'' run0 = Inr (r, run1)"
  by (simp add: create_bounty_def run0_def run1_def run_eval run_bounty_row_def [symmetric])

definition run_now :: datetime where
  "run_now = \<lparr>dt_year = 2026, dt_month = 1, dt_day = 2, dt_hour = 3, dt_minute = 4, dt_second = 5, dt_micro = 678000, dt_offset = Some 0\<rparr>"

definition run_opens :: datetime where
  "run_opens = \<lparr>dt_year = 2026, dt_month = 1, dt_day = 1, dt_hour = 0, dt_minute = 0, dt_second = 0, dt_micro = 0, dt_offset = Some 0\<rparr>"

definition run_expires :: datetime where
  "run_expires = run_opens\<lparr>dt_month := 2\<rparr>"

lemma run_times [simp]: "parse_time sample_time = Inr run_now"
  "parse_time ''2026-01-01T00:00:00.000+00:00'' = Inr run_opens" "parse_time ''2026-02-01T00:00:00.000+00:00'' = Inr run_expires"
  by (simp_all add: sample_time_def time_eval run_now_def run_opens_def run_expires_def)

lemma run_order [simp]: "\<not> dt_micros run_expires \<le> dt_micros run_now" "\<not> dt_micros run_now < dt_micros run_opens"
  by (simp_all add: dt_micros_def run_now_def run_opens_def run_expires_def dt_days_def numeral_eq_Suc [of "num.Bit0 num.One"] days_in_month_def)

definition run_published :: bounty_row where
  "run_published = moved_bounty run_env ''published'' ''audit_aa'' sample_time run_bounty_row"

lemma run_published_simps [simp]:
  "bo_bounty_id run_published = ''bounty_''" "bo_subject_id run_published = ''sub''" "bo_status run_published = ''published''"
  "bo_network_id run_published = ''n1''" "bo_asset_id run_published = ''a1''" "bo_reward_amount run_published = ''25''"
  "bo_opens_at run_published = ''2026-01-01T00:00:00.000+00:00''" "bo_expires_at run_published = ''2026-02-01T00:00:00.000+00:00''"
  "bo_max_submissions run_published = 3" "bo_reward_slots run_published = 2"
  "bo_acceptance_criteria_json run_published = canonical_json (json_texts [''a''])"
  by (simp_all add: run_published_def moved_bounty_def)

definition run2 :: wallet_db where
  "run2 = run_state 5 3 (audit_records run1 @ [run_audit 2 ''wallet_bounty_published'' ''op'' [(''bounty_id'', JStr ''bounty_''),
       (''from'', JStr ''draft''), (''to'', JStr ''published''), (''reason'', JStr ''published'')]])
     [run_published] [] [] [] [] [] []"

lemma run2_step: "\<exists>r. transition_bounty run_env ''bounty_'' ''sub'' ''published'' ''op'' run1 = Inr (r, run2)"
  by (simp add: transition_bounty_def run1_def run2_def run_eval bounty_transitions_def find_bounty_def effective_bounty_status_def open_statuses_def
     set_bounty_status_def moved_bounty_def update_guarded_def bounty_trigger_allows_def replicate_eval run_published_def)

definition run_submission :: submission_input where
  "run_submission = \<lparr>si_counterparty = ''bob'', si_content = ''done'', si_evidence = [],
     si_recipient_address = ''0x'' @ replicate 40 (CHR ''2''), si_idempotency_key = ''k'', si_consent_version = 1\<rparr>"

definition run_submitted :: submission_row where
  "run_submitted = new_submission run_env ''submission_aaa'' ''bounty_'' ''sub'' run_submission ''audit_aaaa'' sample_time"

lemma run_submitted_simps [simp]:
  "su_submission_id run_submitted = ''submission_aaa''" "su_bounty_id run_submitted = ''bounty_''" "su_subject_id run_submitted = ''sub''"
  "su_counterparty run_submitted = ''bob''" "su_content run_submitted = ''done''" "su_status run_submitted = ''submitted''"
  "su_recipient_address run_submitted = ''0x'' @ replicate 40 (CHR ''2'')" "su_idempotency_key run_submitted = ''k''"
  "su_created_audit_id run_submitted = ''audit_aaaa''" "su_evidence_json run_submitted = canonical_json (json_texts [])"
  "su_consent_version run_submitted = 1" "su_decision_audit_id run_submitted = None"
  by (simp_all add: run_submitted_def new_submission_def run_submission_def Let_def)

definition run3 :: wallet_db where
  "run3 = run_state 8 5 (audit_records run2 @ [run_audit 4 ''wallet_bounty_submission_created'' ''visitor''
        (submission_payload ''submission_aaa'' ''bounty_'' ''sub'' run_submission)])
     [run_published] [run_submitted] [] [] [] [] []"

lemma run3_step: "\<exists>r. submit_to_bounty run_env ''bounty_'' ''sub'' run_submission run2 = Inr (r, run3)"
  by (simp add: submit_to_bounty_def run1_def run2_def run3_def run_eval find_bounty_def effective_bounty_status_def open_statuses_def
     count_where_def insert_submission_def read_submission_def submission_from_row_def replicate_eval run_submitted_def [symmetric])

definition run_accepted :: submission_row where
  "run_accepted = decided_submission run_env ''accepted'' ''ok'' ''audit_aaaaa'' sample_time run_submitted"

lemma run_accepted_simps [simp]:
  "su_submission_id run_accepted = ''submission_aaa''" "su_bounty_id run_accepted = ''bounty_''" "su_subject_id run_accepted = ''sub''"
  "su_status run_accepted = ''accepted''" "su_recipient_address run_accepted = ''0x'' @ replicate 40 (CHR ''2'')"
  by (simp_all add: run_accepted_def decided_submission_def)

definition run_order_at :: "string \<Rightarrow> nat \<Rightarrow> string option \<Rightarrow> order_row" where
  "run_order_at status i authorized = \<lparr>or_order_id = ''payorder_aaaaaa'', or_subject_id = ''sub'', or_bounty_id = ''bounty_'',
     or_submission_id = ''submission_aaa'', or_network_id = ''n1'', or_asset_id = ''a1'',
     or_recipient_address = ''0x2222222222222222222222222222222222222222'', or_amount = ''25'',
     or_payment_mode = ''conditional_confirmation'', or_policy_version = 1, or_idempotency_key = ''bounty_:submission_aaa'',
     or_authorized_at = authorized, or_created_audit_id = ''audit_aaaaaaa'', or_last_audit_id = ''audit_'' @ replicate i (CHR ''a''),
     or_status = status, or_state_hash = run_digest, or_created_at = sample_time, or_updated_at = sample_time\<rparr>"

definition run4 :: wallet_db where
  "run4 = run_state 14 9 (audit_records run3 @
       [run_audit 5 ''wallet_submission_accepted'' ''op'' [(''submission_id'', JStr ''submission_aaa''), (''from'', JStr ''submitted''),
          (''to'', JStr ''accepted''), (''reason'', JStr ''ok'')],
        run_audit 7 ''wallet_payment_order_created'' ''system'' [(''submission_id'', JStr ''submission_aaa''), (''amount'', JStr ''25'')],
        run_audit 8 ''wallet_payment_order_awaiting_confirmation'' ''system'' [(''order_id'', JStr ''payorder_aaaaaa''),
          (''from'', JStr ''pending_policy''), (''to'', JStr ''awaiting_confirmation''), (''reason'', JStr ''confirmation required'')]])
     [run_published] [run_accepted] [run_order_at ''awaiting_confirmation'' 8 None] [] [] [] []"

lemma run4_step: "\<exists>r. decide_submission run_env True ''submission_aaa'' ''sub'' True ''ok'' ''op'' run3 = Inr (r, run4)"
  by (simp add: decide_submission_def decide_submission_connection_def run1_def run2_def run3_def run4_def run_eval find_submission_def
     accepted_count_def count_where_def py_strip_def update_submission_def decided_submission_def update_guarded_def
     submission_trigger_allows_def read_submission_def submission_from_row_def replicate_eval ensure_order_def
     subject_policy_def insert_order_def settle_new_order_def transition_order_def order_transitions_def
     moved_order_def order_trigger_allows_def payment_modes_def order_statuses_def new_order_def run_order_at_def run_accepted_def)

lemma run_valid_time [simp]: "validate_wallet_timestamp sample_time = Inr sample_time"
  by (simp add: validate_wallet_timestamp_def sample_time_def time_eval)

definition run_journal :: "nat \<Rightarrow> string \<Rightarrow> journal_row" where
  "run_journal i jtype = \<lparr>jo_journal_id = ''journal_'' @ replicate i (CHR ''a''), jo_subject_id = ''sub'', jo_order_id = ''payorder_aaaaaa'',
     jo_network_id = ''n1'', jo_asset_id = ''a1'', jo_journal_type = jtype, jo_amount = ''25'', jo_created_at = sample_time,
     jo_state_hash = run_digest\<rparr>"

definition run_entry :: "nat \<Rightarrow> nat \<Rightarrow> string \<Rightarrow> string \<Rightarrow> entry_row" where
  "run_entry i j account direction = \<lparr>en_entry_id = ''entry_'' @ replicate i (CHR ''a''), en_journal_id = ''journal_'' @ replicate j (CHR ''a''),
     en_subject_id = ''sub'', en_order_id = ''payorder_aaaaaa'', en_account = account, en_direction = direction, en_amount = ''25'',
     en_created_at = sample_time, en_state_hash = run_digest\<rparr>"

lemmas run_order_eval = get_order_def transition_order_def order_transitions_def update_guarded_def order_trigger_allows_def
  moved_order_def run_order_at_def replicate_eval
lemmas run_policy_eval = policy_allows_def subject_policy_def static_gate_def registered_pair_def period_gate_def active_orders_def
  active_order_statuses_def funds_gate_def spending_address_def fetchall_by_def snapshots_of_def observation_gate_def
lemmas run_journal_eval = post_order_journal_def wallet_journal_hash_def insert_journal_def post_entry_def wallet_entry_hash_def
  insert_entry_def run_journal_def run_entry_def

definition run5 :: wallet_db where
  "run5 = run_state 18 13 (audit_records run4 @
       [run_audit 9 ''wallet_payment_order_reserved'' ''op'' [(''order_id'', JStr ''payorder_aaaaaa''), (''from'', JStr ''awaiting_confirmation''),
          (''to'', JStr ''reserved''), (''reason'', JStr ''funds reserved'')]])
     [run_published] [run_accepted] [run_order_at ''reserved'' 9 (Some sample_time)] [run_journal 10 ''reservation'']
     [run_entry 11 10 ''available'' ''debit'', run_entry 12 10 ''reserved'' ''credit''] [] []"

lemma run5_step: "\<exists>r. confirm_order run_env True ''payorder_aaaaaa'' ''sub'' ''op'' run4 = Inr (r, run5)"
  by (simp add: confirm_order_def run1_def run2_def run3_def run4_def run5_def run_eval reserve_order_def run_policy_eval run_order_eval
     run_journal_eval read_back_def)

definition run_intent :: transfer_intent where
  "run_intent = \<lparr>ti_order_id = ''payorder_aaaaaa'', ti_subject_id = ''sub'', ti_network_id = ''n1'', ti_asset_id = ''a1'',
      ti_asset_type = ''native'', ti_contract_address = None, ti_source_address = ''0x1111111111111111111111111111111111111111'',
      ti_recipient_address = ''0x2222222222222222222222222222222222222222'', ti_amount = ''25'', ti_chain_id = 1, ti_nonce = 0,
      ti_gas_limit = 21000, ti_max_fee_per_gas = ''1000''\<rparr>"

lemma run_build [simp]: "build_transfer run_intent = Inr (envelope_of run_intent)"
proof -
  have "validate_transfer_intent run_intent = Inr run_intent"
    by (simp add: validate_transfer_intent_def run_intent_def intent_shape_def asset_types_def optional_address_def
      address_field_def canonical_evm_address_def evm_address_pattern_def is_hex_def replicate_eval amount_value_def
      fee_value_def uint_def max_uint256_def max_gas_limit_def py_lower_def lower_char_def input_eval)
  from build_validated [OF this] this show ?thesis by (simp add: build_transfer_def)
qed

definition run_signer :: signer where
  "run_signer = \<lparr>sg_signer_id = ''signer'', sg_pending_nonce = None, sg_fee_quote = None\<rparr>"

lemma run_fee [simp]: "checked_fee ''1'' (Some 21000) (Some ''1000'') (Some 0) = Inr ''1000''"
  by (simp add: checked_fee_def uint_def max_uint256_def max_gas_limit_def input_eval)

lemma run_signer_simps [simp]: "sg_signer_id run_signer = ''signer''"
  by (simp add: run_signer_def)

definition run_execution :: "outcome \<Rightarrow> nat \<Rightarrow> execution_row" where
  "run_execution u i = with_outcome u 1 sample_time
     \<lparr>ex_execution_id = ''wallet_exec_aaaaaaaaaaaaa'', ex_subject_id = ''sub'', ex_order_id = ''payorder_aaaaaa'', ex_network_id = ''n1'',
      ex_asset_id = ''a1'', ex_source_address = ''0x1111111111111111111111111111111111111111'',
      ex_recipient_address = ''0x2222222222222222222222222222222222222222'', ex_asset_type = ''native'', ex_contract_address = None,
      ex_amount = ''25'', ex_chain_id = 1, ex_nonce = 0, ex_gas_limit = 21000, ex_max_fee_per_gas = ''1000'',
      ex_request_id = ''payorder_aaaaaa:attempt:1'', ex_request_hash = run_digest, ex_signer_id = ''signer'', ex_status = ''signing'',
      ex_tx_hash = None, ex_error_code = None, ex_receipt_status = None, ex_receipt_block_number = None, ex_receipt_block_hash = None,
      ex_receipt_confirmations = None, ex_receipt_effect_hash = None, ex_attempt_count = 1, ex_state_hash = run_digest,
      ex_created_audit_id = ''audit_aaaaaaaaaaaaaa'', ex_last_audit_id = ''audit_'' @ replicate i (CHR ''a''), ex_created_at = sample_time,
      ex_updated_at = sample_time\<rparr>"

definition run_attempt :: attempt_row where
  "run_attempt = new_attempt run_env ''wallet_attempt_aaaaaaaaaaaaaaaa'' ''wallet_exec_aaaaaaaaaaaaa'' ''sub'' 1
     ''payorder_aaaaaa:attempt:1'' sample_time ''audit_aaaaaaaaaaaaaa''"

lemma run_attempt_simps [simp]:
  "at_attempt_id run_attempt = ''wallet_attempt_aaaaaaaaaaaaaaaa''" "at_execution_id run_attempt = ''wallet_exec_aaaaaaaaaaaaa''"
  "at_subject_id run_attempt = ''sub''" "at_attempt_number run_attempt = 1" "at_status run_attempt = ''signing''"
  "at_state_hash run_attempt = run_digest" "at_created_audit_id run_attempt = ''audit_aaaaaaaaaaaaaa''"
  "at_request_id run_attempt = ''payorder_aaaaaa:attempt:1''"
  by (simp_all add: run_attempt_def new_attempt_def Let_def)

definition run6 :: wallet_db where
  "run6 = run_state 23 17 (audit_records run5 @
       [run_audit 14 ''wallet_payment_execution_signing'' ''op'' [(''order_id'', JStr ''payorder_aaaaaa''),
          (''request_id'', JStr ''payorder_aaaaaa:attempt:1''), (''signer_id'', JStr ''signer'')],
        run_audit 15 ''wallet_payment_order_signing'' ''op'' [(''order_id'', JStr ''payorder_aaaaaa''), (''from'', JStr ''reserved''),
          (''to'', JStr ''signing''), (''reason'', JStr ''execution started'')]])
     [run_published] [run_accepted] [run_order_at ''signing'' 15 (Some sample_time)] [run_journal 10 ''reservation'']
     [run_entry 11 10 ''available'' ''debit'', run_entry 12 10 ''reserved'' ''credit'']
     [run_execution (no_receipt ''signing'' None None) 14] [run_attempt]"

lemmas run_execution_eval = run_execution_def with_outcome_def no_receipt_def execution_checks_def asset_types_def execution_statuses_def
  input_eval read_execution_Inr

lemma run6_step: "\<exists>r. prepare_execution run_env True run_signer ''1'' ''payorder_aaaaaa'' ''sub'' ''op'' (Some 21000) (Some ''1000'') (Some 0) run5
    = Inr ((r, envelope_of run_intent, ''payorder_aaaaaa:attempt:1''), run6)"
  by (simp add: prepare_execution_def run1_def run2_def run3_def run4_def run5_def run6_def run_eval run_policy_eval run_order_eval authorize_payment_def
     nonce_for_def priced_transfer_def order_intent_def run_intent_def [symmetric] check_observed_fee_budget_def unresolved_legacy_def
     start_execution_def insert_execution_def new_execution_def start_attempt_def insert_attempt_def attempt_checks_def
     run_attempt_def [symmetric] read_execution_def run_execution_def with_outcome_def no_receipt_def execution_checks_def asset_types_def
     execution_statuses_def input_eval)

definition run_tx :: string where
  "run_tx = ''0x'' @ replicate 64 (CHR ''3'')"

lemma run_tx_valid [simp]: "canonical_tx_hash run_tx = Inr run_tx"
  by (simp add: canonical_tx_hash_def hash_pattern_def run_tx_def is_hex_def replicate_eval lower_char_def py_lower_def input_eval)

definition run_result :: broadcast_result where
  "run_result = \<lparr>bc_tx_hash = run_tx, bc_chain_id = 1, bc_nonce = 0, bc_accepted_at = sample_time\<rparr>"

lemma run_result_simps [simp]: "bc_tx_hash run_result = run_tx" "bc_chain_id run_result = 1" "bc_nonce run_result = 0"
  by (simp_all add: run_result_def)

definition run7 :: wallet_db where
  "run7 = run_state 27 19 (audit_records run6 @
       [run_audit 17 ''wallet_payment_broadcast'' ''op'' [(''order_id'', JStr ''payorder_aaaaaa''), (''tx_hash'', JStr run_tx), (''nonce'', JInt 0)],
        run_audit 18 ''wallet_payment_order_broadcast'' ''op'' [(''order_id'', JStr ''payorder_aaaaaa''), (''from'', JStr ''signing''),
          (''to'', JStr ''broadcast''), (''reason'', JStr ''signer broadcast accepted'')]])
     [run_published] [run_accepted] [run_order_at ''broadcast'' 18 (Some sample_time)] [run_journal 10 ''reservation'']
     [run_entry 11 10 ''available'' ''debit'', run_entry 12 10 ''reserved'' ''credit'']
     [run_execution (no_receipt ''broadcast'' (Some run_tx) None) 17]
     [finished_attempt run_env ''broadcast'' (Some run_tx) None sample_time run_attempt]"

lemmas run_outcome_eval = find_execution_def read_execution_def record_outcome_def update_execution_def execution_trigger_allows_def
  execution_clash_def live_execution_def finish_attempt_def attempt_checks_def attempt_trigger_allows_def
  run_execution_def with_outcome_def no_receipt_def execution_checks_def asset_types_def execution_statuses_def input_eval

lemma run_finished [simp]:
  "run_attempt\<lparr>at_status := s, at_tx_hash := at_tx_hash (finished_attempt run_env s tx c t run_attempt),
     at_error_code := at_error_code (finished_attempt run_env s tx c t run_attempt),
     at_completed_at := at_completed_at (finished_attempt run_env s tx c t run_attempt), at_state_hash := run_digest\<rparr>
   = finished_attempt run_env s tx c t run_attempt"
  by (simp add: finished_attempt_def Let_def)

lemma run7_step: "\<exists>r. mark_broadcast run_env ''wallet_exec_aaaaaaaaaaaaa'' ''sub'' ''op'' run_result run6 = Inr (r, run7)"
  by (simp add: mark_broadcast_def run1_def run2_def run3_def run4_def run5_def run6_def run7_def run_eval run_order_eval run_outcome_eval)

definition run_receipt :: receipt where
  "run_receipt = \<lparr>rc_tx_hash = run_tx, rc_chain_id = 1, rc_status = 1, rc_block_number = Some 9, rc_block_hash = Some run_tx,
     rc_confirmations = 1, rc_effect_hash = None\<rparr>"

definition run8 :: wallet_db where
  "run8 = run_state 32 24 (audit_records run7 @
       [run_audit 19 ''wallet_payment_confirmed'' ''op'' [(''order_id'', JStr ''payorder_aaaaaa''), (''tx_hash'', JStr run_tx),
          (''block_number'', JInt 9), (''block_hash'', JStr run_tx), (''confirmations'', JInt 1)],
        run_audit 20 ''wallet_payment_order_confirmed'' ''op'' [(''order_id'', JStr ''payorder_aaaaaa''), (''from'', JStr ''broadcast''),
          (''to'', JStr ''confirmed''), (''reason'', JStr ''chain receipt confirmed'')]])
     [run_published] [run_accepted] [run_order_at ''confirmed'' 20 (Some sample_time)] [run_journal 10 ''reservation'', run_journal 21 ''settlement'']
     [run_entry 11 10 ''available'' ''debit'', run_entry 12 10 ''reserved'' ''credit'',
      run_entry 22 21 ''reserved'' ''debit'', run_entry 23 21 ''paid'' ''credit'']
     [run_execution (confirmed_outcome run_tx run_receipt) 19]
     [finished_attempt run_env ''confirmed'' (Some run_tx) None sample_time run_attempt]"

lemma run8_step: "\<exists>r. mark_confirmed run_env ''wallet_exec_aaaaaaaaaaaaa'' ''sub'' ''op'' run_receipt run7 = Inr (r, run8)"
  by (simp add: mark_confirmed_def run1_def run2_def run3_def run4_def run5_def run6_def run7_def run8_def run_eval run_order_eval run_outcome_eval
     run_journal_eval confirmed_outcome_def run_receipt_def json_int_opt_def json_opt_def finished_attempt_def)

text \<open>The run is reachable, without a reorganisation.\<close>

lemma run_reachable: "wallet_reachable run_env rg run7" "wallet_reachable run_env rg run8"
proof -
  have "wallet_reachable run_env rg run0" by (rule wallet_reachable.start) (simp add: run0_def run_state_def wallet_tables_def)
  then have "wallet_reachable run_env rg run1" using run1_step by (meson wallet_reachable.step wallet_step.create_bounty)
  then have "wallet_reachable run_env rg run2" using run2_step by (meson wallet_reachable.step wallet_step.transition_bounty)
  then have "wallet_reachable run_env rg run3" using run3_step by (meson wallet_reachable.step wallet_step.submit)
  then have "wallet_reachable run_env rg run4" using run4_step by (meson wallet_reachable.step wallet_step.decide)
  then have "wallet_reachable run_env rg run5" using run5_step by (meson wallet_reachable.step wallet_step.confirm_order)
  then have "wallet_reachable run_env rg run6" using run6_step by (meson wallet_reachable.step wallet_step.prepare)
  then show "wallet_reachable run_env rg run7" using run7_step by (meson wallet_reachable.step wallet_step.broadcast)
  then show "wallet_reachable run_env rg run8" using run8_step by (meson wallet_reachable.step wallet_step.confirmed)
qed

definition run_lost :: wallet_db where
  "run_lost = run_state 31 21 (audit_records run7 @
       [run_audit 19 ''wallet_payment_unknown'' ''op'' [(''order_id'', JStr ''payorder_aaaaaa''), (''tx_hash'', JStr run_tx),
          (''error_code'', JStr ''confirmation_timeout'')],
        run_audit 20 ''wallet_payment_order_unknown'' ''op'' [(''order_id'', JStr ''payorder_aaaaaa''), (''from'', JStr ''broadcast''),
          (''to'', JStr ''unknown''), (''reason'', JStr ''confirmation_timeout'')]])
     [run_published] [run_accepted] [run_order_at ''unknown'' 20 (Some sample_time)] [run_journal 10 ''reservation'']
     [run_entry 11 10 ''available'' ''debit'', run_entry 12 10 ''reserved'' ''credit'']
     [run_execution (no_receipt ''unknown'' (Some run_tx) (Some ''confirmation_timeout'')) 19]
     [finished_attempt run_env ''unknown'' (Some run_tx) (Some ''confirmation_timeout'') sample_time run_attempt]"

lemma run_lost_step:
  "\<exists>r. mark_unknown run_env ''wallet_exec_aaaaaaaaaaaaa'' ''sub'' ''op'' None ''confirmation_timeout'' run7 = Inr (r, run_lost)"
  by (simp add: mark_unknown_def run1_def run2_def run3_def run4_def run5_def run6_def run7_def run_lost_def run_eval run_order_eval
    run_outcome_eval unknown_outcome_def finished_attempt_def json_opt_def)

lemma run_lost_reachable: "wallet_reachable run_env rg run_lost"
  using run_reachable(1) run_lost_step by (meson wallet_reachable.step wallet_step.unknown)

lemma run_second [simp]: "show_int 2 = ''2''"
  by code_simp

lemma run_retry_ok: "is_ok (prepare_retry run_env True run_signer ''payorder_aaaaaa'' ''sub'' ''op'' ''again'' run_lost)"
  by (simp add: prepare_retry_def run1_def run2_def run3_def run4_def run5_def run6_def run7_def run_lost_def run_eval run_policy_eval run_order_eval
     authorize_payment_def execution_intent_def run_intent_def [symmetric] check_observed_fee_budget_def unresolved_legacy_def
     start_attempt_def insert_attempt_def run_outcome_eval finished_attempt_def new_attempt_def is_ok_iff attempt_request_id_def)

definition run_reorg :: wallet_db where
  "run_reorg = after (mark_reconcile_required run_env ''wallet_exec_aaaaaaaaaaaaa'' ''sub'' ''op'' ''reorg'' run8) run8"

lemma run_reorg_ok: "is_ok (mark_reconcile_required run_env ''wallet_exec_aaaaaaaaaaaaa'' ''sub'' ''op'' ''reorg'' run8)"
  by (simp add: mark_reconcile_required_def run1_def run2_def run3_def run4_def run5_def run6_def run7_def run8_def run_eval run_order_eval
    run_outcome_eval confirmed_outcome_def run_receipt_def finished_attempt_def insert_reconciliation_def new_reconciliation_def
    run_order_at_def kept_receipt_def is_ok_iff)

lemma run_reorg_changes: "run_reorg \<noteq> run8"
proof -
  have "mark_reconcile_required run_env ''wallet_exec_aaaaaaaaaaaaa'' ''sub'' ''op'' ''reorg'' run8 = Inr (r, run8) \<Longrightarrow> False" for r
    by (simp add: mark_reconcile_required_def run1_def run2_def run3_def run4_def run5_def run6_def run7_def run8_def run_eval run_order_eval
    run_outcome_eval confirmed_outcome_def run_receipt_def finished_attempt_def insert_reconciliation_def new_reconciliation_def
    run_order_at_def kept_receipt_def)
  with after_ok [OF run_reorg_ok] show ?thesis unfolding run_reorg_def by metis
qed

end
