(* ===== verification/WalletSafety.thy ===== *)
theory WalletSafety
  imports WalletRun
begin

text \<open>
  What the wallet promises in every reachable state, and the behaviour of the operations that
  decide about money: awards, the ledger, executions, retries and reorganisations.
\<close>

section \<open>Reading the invariant\<close>

lemma reachable_parts:
  assumes "wallet_reachable E rg db"
  shows "ledger_inv rg db" "catalog_ok (catalog db)" "executions_inv E db"
  using wallet_reachable_inv [OF assms] by (simp_all add: wallet_inv_def)

lemma accepted_in_count: "count_where (accepted_in i) (wallet_bounty_submissions db) = accepted_count i db"
  by (simp add: accepted_count_def accepted_in_def [abs_def])

section \<open>Awards\<close>

text \<open>
  C4. Whatever the wallet does, a bounty never has more accepted submissions than reward
  slots, nor more open or accepted submissions than it admits.
\<close>

theorem awards_bounded:
  assumes "wallet_reachable E rg db" "b \<in> set (wallet_bounties db)"
  shows "int (accepted_count (bo_bounty_id b) db) \<le> bo_reward_slots b
    \<and> int (count_where (\<lambda>s. su_bounty_id s = bo_bounty_id b \<and> su_status s \<in> {''submitted'', ''accepted''})
        (wallet_bounty_submissions db)) \<le> bo_max_submissions b"
proof -
  have "bounty_bounds (wallet_bounty_submissions db) (bounty_identity b)"
    using reachable_parts(2) [OF assms(1)] assms(2) by (auto simp: catalog_def catalog_ok_iff)
  then show ?thesis by (simp add: bounty_bounds_def accepted_in_count active_in_def [abs_def])
qed

theorem awards_bounded_witness:
  "run_published \<in> set (wallet_bounties run8) \<and> int (accepted_count ''bounty_'' run8) \<le> 2"
proof -
  have m: "run_published \<in> set (wallet_bounties run8)" by (simp add: run8_def run_state_def)
  from awards_bounded [OF run_reachable(2) m] m show ?thesis by simp
qed

text \<open>
  C5. Every accepted submission has exactly one payment order, and every order pays an
  accepted submission: to its recipient, the reward of its bounty in the bounty's asset.
\<close>

theorem accepted_ordered_once:
  assumes "wallet_reachable E rg db"
  shows "(\<forall>s\<in>set (wallet_bounty_submissions db). su_status s = ''accepted'' \<longrightarrow>
      (\<exists>!r. r \<in> set (wallet_payment_orders db) \<and> or_submission_id r = su_submission_id s))
    \<and> (\<forall>r\<in>set (wallet_payment_orders db). \<exists>s\<in>set (wallet_bounty_submissions db). \<exists>b\<in>set (wallet_bounties db).
      su_submission_id s = or_submission_id r \<and> su_status s = ''accepted'' \<and> bo_bounty_id b = su_bounty_id s
      \<and> or_recipient_address r = su_recipient_address s \<and> or_amount r = bo_reward_amount b
      \<and> or_asset_id r = bo_asset_id b \<and> or_network_id r = bo_network_id b)"
proof -
  let ?os = "wallet_payment_orders db"
  have c: "catalog_ok (map bounty_identity (wallet_bounties db), wallet_bounty_submissions db, map order_identity ?os)"
    using reachable_parts(2) [OF assms] by (simp add: catalog_def)
  have d: "distinct (map or_submission_id ?os)" using c by (simp add: catalog_ok_iff comp_def)
  have "\<exists>!r. r \<in> set ?os \<and> or_submission_id r = su_submission_id s"
    if s: "s \<in> set (wallet_bounty_submissions db)" "su_status s = ''accepted''" for s
  proof -
    have "su_submission_id s \<in> or_submission_id ` set (map order_identity ?os)"
      using c s unfolding catalog_ok_iff submission_fits_def by blast
    then obtain r where "r \<in> set ?os" "or_submission_id r = su_submission_id s" by auto
    then show ?thesis using distinct_key_eq [OF d] by (intro ex1I [of _ r]) auto
  qed
  moreover have "order_fits (map bounty_identity (wallet_bounties db)) (wallet_bounty_submissions db) (order_identity r)"
    if "r \<in> set ?os" for r using c that by (simp add: catalog_ok_iff)
  ultimately show ?thesis by (fastforce simp: order_fits_def)
qed

theorem accepted_ordered_once_witness:
  "\<exists>!r. r \<in> set (wallet_payment_orders run8) \<and> or_submission_id r = ''submission_aaa''"
proof -
  have m: "run_accepted \<in> set (wallet_bounty_submissions run8)" by (simp add: run8_def run_state_def)
  from conjunct1 [OF accepted_ordered_once [OF run_reachable(2)], rule_format, OF m] show ?thesis by simp
qed

section \<open>The ledger\<close>

text \<open>What the report says of an account: its net, or zero when no balance is listed for it.\<close>

definition reported_net :: "string \<Rightarrow> string \<Rightarrow> string \<Rightarrow> ledger_balance list \<Rightarrow> string" where
  "reported_net nw asset account bs =
     (case fetchone (\<lambda>b. lb_network_id b = nw \<and> lb_asset_id b = asset \<and> lb_account b = account) bs of
        None \<Rightarrow> ''0'' | Some b \<Rightarrow> lb_net b)"

lemma reported_net_account:
  assumes "books_inv db" "validate_subject_id sid = Inr u"
  obtains bs where "ledger_balances sid None None db = Inr bs"
    "\<forall>nw asset account. reported_net nw asset account bs = show_int (account_net sid nw asset account db)"
proof -
  obtain bs where bs: "ledger_balances sid None None db = Inr bs"
      "\<forall>b\<in>set bs. lb_net b = show_int (account_net sid (lb_network_id b) (lb_asset_id b) (lb_account b) db)"
      "\<forall>x\<in>set (ledger_rows sid None None db). row_key x \<in> (\<lambda>b. (lb_network_id b, lb_asset_id b, lb_account b)) ` set bs"
    using assms by (rule ledger_balances_net)
  have "reported_net nw asset account bs = show_int (account_net sid nw asset account db)" for nw asset account
  proof (cases "fetchone (\<lambda>b. lb_network_id b = nw \<and> lb_asset_id b = asset \<and> lb_account b = account) bs")
    case None
    then have "row_key x \<noteq> (nw, asset, account)" if "x \<in> set (ledger_rows sid None None db)" for x
      using bs(3) that by (force simp: fetchone_None)
    then have "account_net sid nw asset account db = 0"
      unfolding account_net_def row_key_def by (subst filter_False) (auto simp: split_beta)
    moreover have "show_int 0 = ''0''" by code_simp
    ultimately show ?thesis using None by (simp add: reported_net_def)
  next
    case (Some b)
    then show ?thesis using bs(2) by (auto simp: reported_net_def dest!: fetchone_Some)
  qed
  with bs(1) that show thesis by blast
qed

text \<open>
  C1. As long as no chain reorganisation is reported, the ledger mirrors the orders: its
  balances can be read, and for every network and asset the reported reserved balance is what
  the orders in flight hold and the reported paid balance what the confirmed orders paid; an
  account that is not listed counts as zero, so none that holds or has paid something is left out.
\<close>

theorem ledger_mirrors_orders:
  assumes "wallet_reachable E False db" "validate_subject_id sid = Inr u"
  shows "\<exists>bs. ledger_balances sid None None db = Inr bs \<and> (\<forall>nw asset.
      reported_net nw asset ''reserved'' bs = show_int (- order_sum sid nw asset holding_statuses db)
      \<and> reported_net nw asset ''paid'' bs = show_int (- order_sum sid nw asset {''confirmed''} db))"
proof -
  note inv = reachable_parts(1) [OF assms(1)]
  obtain bs where "ledger_balances sid None None db = Inr bs"
    "\<forall>nw asset account. reported_net nw asset account bs = show_int (account_net sid nw asset account db)"
    using ledger_inv_parts(1) [OF inv] assms(2) by (rule reported_net_account)
  then show ?thesis using reserved_and_paid [OF inv] by auto
qed

theorem ledger_mirrors_orders_witness:
  "\<exists>bs. ledger_balances ''sub'' None None run8 = Inr bs \<and> reported_net ''n1'' ''a1'' ''paid'' bs = ''-25''
     \<and> reported_net ''n1'' ''a1'' ''reserved'' bs = ''0''"
proof -
  have "amount_val ''25'' = 25" by code_simp
  then have "order_sum ''sub'' ''n1'' ''a1'' {''confirmed''} run8 = 25" "order_sum ''sub'' ''n1'' ''a1'' holding_statuses run8 = 0"
    by (simp_all add: order_sum_def run8_def run_state_def run_order_at_def holding_statuses_def)
  moreover have "show_int (- 25) = ''-25''" "show_int (- 0) = ''0''" by code_simp+
  ultimately show ?thesis using ledger_mirrors_orders [OF run_reachable(2) run_inputs(1)] by metis
qed

text \<open>
  C2. The books always balance, reorganisations included: every balance the wallet reports is
  the net of its account, and the nets of the four accounts of an asset add up to nothing.
\<close>

theorem books_balance:
  assumes "wallet_reachable E rg db" "validate_subject_id sid = Inr u"
  shows "\<exists>bs. ledger_balances sid None None db = Inr bs
    \<and> (\<forall>b\<in>set bs. lb_net b = show_int (account_net sid (lb_network_id b) (lb_asset_id b) (lb_account b) db))
    \<and> (\<forall>nw asset. account_net sid nw asset ''available'' db + account_net sid nw asset ''reserved'' db
         + account_net sid nw asset ''paid'' db + account_net sid nw asset ''released'' db = 0)"
  using ledger_balances_net [OF ledger_inv_parts(1) [OF reachable_parts(1) [OF assms(1)]] assms(2)]
    double_entry [OF ledger_inv_parts(1) [OF reachable_parts(1) [OF assms(1)]], of sid] by metis

theorem books_balance_witness:
  "account_net ''sub'' ''n1'' ''a1'' ''available'' run8 + account_net ''sub'' ''n1'' ''a1'' ''reserved'' run8
     + account_net ''sub'' ''n1'' ''a1'' ''paid'' run8 + account_net ''sub'' ''n1'' ''a1'' ''released'' run8 = 0"
  using books_balance [OF run_reachable(2) [of True] run_inputs(1)] by blast

section \<open>Executions\<close>

text \<open>
  C3. The execution tables of every reachable state pass their own integrity check, for every
  subject: it returns, with the number of the subject's executions and attempts.
\<close>

theorem executions_always_verify:
  assumes "wallet_reachable E rg db" "validate_subject_id sid = Inr u"
  shows "verify_database_integrity E sid db =
     Inr (count_where (\<lambda>x. ex_subject_id x = sid) (wallet_payment_executions db),
          count_where (\<lambda>a. at_subject_id a = sid) (wallet_payment_execution_attempts db))"
  by (rule verify_database_integrity_inv [OF reachable_parts(3) [OF assms(1)] assms(2)])

theorem executions_always_verify_witness: "verify_database_integrity run_env ''sub'' run8 = Inr (1, 1)"
  using executions_always_verify [OF run_reachable(2) run_inputs(1)]
  by (simp add: run8_def run_state_def count_where_def run_execution_def with_outcome_def)

text \<open>
  C8. An order is executed by one execution only, which has as many attempts as it counts and
  never more than 32, numbered without gaps.
\<close>

theorem attempts_bounded:
  assumes "wallet_reachable E rg db" "x \<in> set (wallet_payment_executions db)"
  shows "count_where (\<lambda>y. ex_order_id y = ex_order_id x) (wallet_payment_executions db) = 1
    \<and> 1 \<le> ex_attempt_count x \<and> ex_attempt_count x \<le> 32
    \<and> map at_attempt_number (stored_attempts x db) = map int [1..<Suc (nat (ex_attempt_count x))]"
proof -
  note inv = reachable_parts(3) [OF assms(1)]
  have "filter (\<lambda>y. ex_order_id y = ex_order_id x) (wallet_payment_executions db) = [x]"
    by (rule filter_key_single [OF executions_invD(3) [OF inv] assms(2)]) simp
  moreover have "attempts_ok (stored_attempts x db) x"
    using executions_invD(6) [OF inv assms(2)] attempt_chain_intact(2) [OF inv assms(2)] by simp
  ultimately show ?thesis
    using executions_invD(5) [OF inv assms(2)] by (simp add: count_where_def attempts_ok_def execution_row_ok_def)
qed

theorem attempts_bounded_witness:
  "\<exists>x\<in>set (wallet_payment_executions run8). ex_status x = ''confirmed'' \<and> ex_attempt_count x \<le> 32"
proof -
  let ?x = "run_execution (confirmed_outcome run_tx run_receipt) 19"
  have m: "?x \<in> set (wallet_payment_executions run8)" by (simp add: run8_def run_state_def)
  have "ex_status ?x = ''confirmed''" by (simp add: run_execution_def with_outcome_def confirmed_outcome_def)
  with attempts_bounded [OF run_reachable(2) m] m show ?thesis by blast
qed

text \<open>
  C6. What an execution has the signer sign is its order: the request digest stored for it is
  that of the envelope built from its columns, and what the chain executes for this envelope
  is the transfer of the order's amount to the order's recipient, under the execution's nonce.
\<close>

theorem executions_pay_orders:
  assumes "wallet_reachable E rg db" "x \<in> set (wallet_payment_executions db)"
  shows "\<exists>t w a. build_transfer (execution_intent x) = Inr t
    \<and> ex_request_hash x = content_hash (env_sha256 E) (transfer_dump t)
    \<and> w \<in> set (wallet_payment_orders db) \<and> or_order_id w = ex_order_id x \<and> or_subject_id w = ex_subject_id x
    \<and> canonical_evm_address (or_recipient_address w) = Inr a
    \<and> decoded_transfer t = Some (a, nat_of_digits (or_amount w))
    \<and> ut_nonce t = ex_nonce x \<and> ut_chain_id t = ex_chain_id x"
proof -
  note inv = reachable_parts(3) [OF assms(1)]
  obtain t where t: "build_transfer (execution_intent x) = Inr t" "ex_request_hash x = content_hash (env_sha256 E) (transfer_dump t)"
    using executions_invD(5) [OF inv assms(2)] by (auto simp: execution_row_ok_def envelope_ok_def)
  obtain w where w: "w \<in> set (wallet_payment_orders db)" "pays w x" using executions_invD(7) [OF inv assms(2)] by blast
  obtain j where j: "validate_transfer_intent (execution_intent x) = Inr j" "build j = Inr t"
    using t(1) by (auto simp: build_transfer_def)
  note f = validate_transfer_intent_fields [OF j(1)]
  have "t = envelope_of j" using build_validated [OF j(1)] j(2) by simp
  then have "decoded_transfer t = Some (ti_recipient_address j, nat_of_digits (ti_amount j))"
    "ut_nonce t = ti_nonce j" "ut_chain_id t = ti_chain_id j"
    using decoded_envelope [OF j(1)] by (simp_all add: envelope_of_def)
  moreover have "canonical_evm_address (or_recipient_address w) = Inr (ti_recipient_address j)" "ti_amount j = or_amount w"
    using f(2) amount_value_normal(1) [OF f(4)] w(2) by (auto simp: address_field_def execution_intent_def pays_def)
  ultimately show ?thesis using t w f(12,13) by (auto simp: execution_intent_def pays_def)
qed

theorem executions_pay_orders_witness:
  "\<exists>x\<in>set (wallet_payment_executions run8). \<exists>t. build_transfer (execution_intent x) = Inr t \<and> ut_nonce t = ex_nonce x"
proof -
  let ?x = "run_execution (confirmed_outcome run_tx run_receipt) 19"
  have m: "?x \<in> set (wallet_payment_executions run8)" by (simp add: run8_def run_state_def)
  from executions_pay_orders [OF run_reachable(2) m] m show ?thesis by blast
qed

text \<open>
  C7. A retry hands the signer the very envelope of the first attempt, nonce included, so at
  most one of an order's attempts can take effect on chain: the digest of the envelope is the
  one stored with the execution, and the execution only counts one attempt more.
\<close>

theorem retry_same_envelope:
  assumes "wallet_reachable E rg db" "prepare_retry E evidence sg oid sid actor reason db = Inr ((r, t, q), db')"
  shows "\<exists>x\<in>set (wallet_payment_executions db). ex_order_id x = oid \<and> ex_status x = ''unknown''
    \<and> er_execution_id r = ex_execution_id x \<and> er_status r = ''signing''
    \<and> build_transfer (execution_intent x) = Inr t \<and> ex_request_hash x = content_hash (env_sha256 E) (transfer_dump t)
    \<and> er_request_hash r = ex_request_hash x \<and> er_nonce r = ex_nonce x
    \<and> er_attempt_count r = ex_attempt_count x + 1 \<and> er_attempt_count r \<le> 32"
  using assms(2)
proof (cases rule: prepare_retry_cases)
  case (1 x order aid now i db4)
  note inv = reachable_parts(3) [OF assms(1)]
  let ?f = "\<lambda>r. (with_outcome (no_receipt ''signing'' (ex_tx_hash x) None) (ex_attempt_count x + 1) now r)\<lparr>ex_last_audit_id := aid,
           ex_state_hash := execution_hash_values_from_row E x (no_receipt ''signing'' (ex_tx_hash x) None) (ex_attempt_count x + 1) now\<rparr>"
  have keep: "ex_execution_id (?f y) = ex_execution_id y" for y by (simp add: with_outcome_def)
  have "fetchone (\<lambda>y. ex_execution_id y = ex_execution_id x) (wallet_payment_executions db') = Some (?f x)"
    unfolding 1(14) using fetchone_key [OF executions_invD(2) [OF inv] 1(1)]
    by (subst fetchone_update_where) (simp_all add: with_outcome_def)
  with 1(16) have "r = execution_from_row (?f x)" by auto
  then have r: "er_execution_id r = ex_execution_id x" "er_status r = ''signing''" "er_request_hash r = ex_request_hash x"
    "er_nonce r = ex_nonce x" "er_attempt_count r = ex_attempt_count x + 1"
    by (simp_all add: execution_from_row_def with_outcome_def)
  have "ex_status x = ''unknown''"
    using order_of_execution(2) [OF inv 1(1,2,3)] 1(4) by (simp add: status_agrees_def)
  moreover have "ex_request_hash x = content_hash (env_sha256 E) (transfer_dump t)"
    using executions_invD(5) [OF inv 1(1)] 1(8) by (auto simp: execution_row_ok_def envelope_ok_def)
  ultimately show ?thesis using 1(1,5,7,8) r by (intro bexI [of _ x]) auto
qed

theorem retry_same_envelope_witness:
  "\<exists>r t q db'. prepare_retry run_env True run_signer ''payorder_aaaaaa'' ''sub'' ''op'' ''again'' run_lost = Inr ((r, t, q), db')
     \<and> er_nonce r = 0 \<and> er_attempt_count r = 2"
proof -
  obtain r t q db' where p: "prepare_retry run_env True run_signer ''payorder_aaaaaa'' ''sub'' ''op'' ''again'' run_lost = Inr ((r, t, q), db')"
    using run_retry_ok by (auto simp: is_ok_iff)
  have "wallet_payment_executions run_lost = [run_execution (no_receipt ''unknown'' (Some run_tx) (Some ''confirmation_timeout'')) 19]"
    by (simp add: run_lost_def run_state_def)
  with retry_same_envelope [OF run_lost_reachable p] have "er_nonce r = 0" "er_attempt_count r = 2"
    by (auto simp: run_execution_def with_outcome_def)
  with p show ?thesis by blast
qed

section \<open>Reorganisations\<close>

lemma mark_confirmed_settles:
  assumes "find_execution eid sid db = Inr x" "get_order (ex_order_id x) sid db = Inr w" "or_status w \<noteq> ''confirmed''"
    "mark_confirmed E eid sid actor rcpt db = Inr (r, db')" "j \<in> set (wallet_ledger_journals db)" "jo_order_id j = or_order_id w"
  shows "jo_journal_type j \<noteq> ''settlement''"
proof -
  from assms(1-4) obtain tx payload aid db1 db2 db3 where
    a: "wallet_audit E sid ''wallet_payment_confirmed'' actor payload db = Inr (aid, db1)"
    and t: "transition_order E w ''confirmed'' actor ''chain receipt confirmed'' db1 = Inr db2"
    and p: "post_order_journal E w ''settlement'' (''reserved'', ''debit'') (''paid'', ''credit'') db2 = Inr db3"
    by (auto simp: mark_confirmed_def Let_def split: if_splits)
  have "wallet_ledger_journals db2 = wallet_ledger_journals db"
    using a t by (auto simp: transition_order_def utc_now_def Let_def split: if_splits elim!: wallet_audit_frame)
  then show ?thesis using post_order_journal_effect [OF p] assms(5,6) by metis
qed

text \<open>An order that was settled once and is not confirmed any more.\<close>

definition settled_back :: "string \<Rightarrow> 'a wallet_db_scheme \<Rightarrow> bool" where
  "settled_back oid db =
     ((\<exists>w\<in>set (wallet_payment_orders db). or_order_id w = oid \<and> or_status w \<in> executing_statuses \<and> or_status w \<noteq> ''confirmed'')
      \<and> (\<exists>j\<in>set (wallet_ledger_journals db). jo_order_id j = oid \<and> jo_journal_type j = ''settlement''))"

lemma keeps_executing_settled:
  assumes "keeps_executing db db'" "settled_back oid db"
  shows "settled_back oid db'"
proof -
  obtain w where w: "w \<in> set (wallet_payment_orders db)" "or_order_id w = oid" "or_status w \<in> executing_statuses" "or_status w \<noteq> ''confirmed''"
    using assms(2) by (auto simp: settled_back_def)
  obtain v where "v \<in> set (wallet_payment_orders db')" "same_payment w v"
    using assms(1) w(1) unfolding keeps_executing_def by blast
  moreover have "or_order_id v = oid \<and> or_status v \<in> executing_statuses \<and> or_status v \<noteq> ''confirmed''"
    using calculation(2) w by (auto simp: same_payment_def executing_statuses_def)
  ultimately show ?thesis using assms unfolding settled_back_def keeps_executing_def by blast
qed

text \<open>The one way to \<open>confirmed\<close> posts the settlement, which the ledger takes only once.\<close>

lemma order_path_settled:
  assumes p: "order_path E order target db db3" and v: "ledger_view db' = ledger_view db3"
    and d: "distinct (map or_order_id (wallet_payment_orders db))" and mem: "order \<in> set (wallet_payment_orders db)"
    and target: "target \<in> executing_statuses" and pre: "settled_back oid db"
  shows "settled_back oid db'"
proof -
  obtain oa on where ord: "wallet_payment_orders db3 = update_where (\<lambda>r. or_order_id r = or_order_id order)
       (moved_order E target oa on) (wallet_payment_orders db)"
    by (rule order_path_orders [OF p d mem])
  obtain db1 db2 actor reason where q: "accounts db1 = accounts db" "transition_order E order target actor reason db1 = Inr db2"
    "if target = ''confirmed''
     then post_order_journal E order ''settlement'' (''reserved'', ''debit'') (''paid'', ''credit'') db2 = Inr db3 else db3 = db2"
    using p unfolding order_path_def by metis
  have j2: "wallet_ledger_journals db2 = wallet_ledger_journals db"
    using q(1,2) by (auto simp: accounts_def transition_order_def utc_now_def Let_def split: if_splits elim!: wallet_audit_frame)
  obtain w j where w: "w \<in> set (wallet_payment_orders db)" "or_order_id w = oid" "or_status w \<in> executing_statuses" "or_status w \<noteq> ''confirmed''"
    and j: "j \<in> set (wallet_ledger_journals db)" "jo_order_id j = oid" "jo_journal_type j = ''settlement''"
    using pre by (auto simp: settled_back_def)
  have once: "or_order_id order \<noteq> oid" if "target = ''confirmed''"
    using that q(3) j j2 by (auto elim!: post_order_journal_effect)
  have "set (wallet_ledger_journals db) \<subseteq> set (wallet_ledger_journals db3)"
    using q(3) j2 by (auto elim!: post_order_journal_effect split: if_splits)
  moreover let ?w = "if oid = or_order_id order then moved_order E target oa on w else w"
  have "?w \<in> set (wallet_payment_orders db3)" using w(1,2) by (auto simp: ord set_update_where)
  moreover have "or_order_id ?w = oid \<and> or_status ?w \<in> executing_statuses \<and> or_status ?w \<noteq> ''confirmed''"
    using w target once by auto
  ultimately have "settled_back oid db3" using j unfolding settled_back_def by (intro conjI bexI [of _ ?w] bexI [of _ j]) auto
  then show ?thesis using v by (simp add: settled_back_def ledger_view_def)
qed

lemma outcome_settled:
  assumes inv: "wallet_inv E rg db" and pre: "settled_back oid db"
    and path: "db' \<noteq> db \<Longrightarrow> \<exists>x order u. outcome_path E x order u db db'"
  shows "settled_back oid db'"
proof (cases "db' = db")
  case False
  with path obtain x order u where "outcome_path E x order u db db'" by blast
  then obtain db3 where p: "order_path E order (oc_status u) db db3" "ledger_view db' = ledger_view db3" "order \<in> set (wallet_payment_orders db)"
      "outcome_ok u" unfolding outcome_path_def by blast
  have "oc_status u \<in> executing_statuses" using p(4) by (auto simp: outcome_ok_def executing_statuses_def execution_statuses_def)
  moreover have "distinct (map or_order_id (wallet_payment_orders db))" using inv executions_invD(1) by (auto simp: wallet_inv_def)
  ultimately show ?thesis using order_path_settled [OF p(1,2) _ p(3)] pre by blast
qed (use pre in simp)

lemma prepare_settled:
  assumes inv: "wallet_inv E rg db" and pre: "settled_back oid db"
    and step: "prepare_execution E evidence sg fee order_id sid actor gas_limit max_fee nonce db = Inr (prepared, db')
      \<or> prepare_retry E evidence sg order_id sid actor reason db = Inr (prepared, db')"
  shows "settled_back oid db'"
proof -
  obtain r t q where p: "prepared = (r, t, q)" by (cases prepared)
  obtain order db4 where mem: "order \<in> set (wallet_payment_orders db)" "order_path E order ''signing'' db db4" "ledger_view db' = ledger_view db4"
    using step unfolding p by (rule prepare_frames)
  have "distinct (map or_order_id (wallet_payment_orders db))" using inv executions_invD(1) by (auto simp: wallet_inv_def)
  then show ?thesis using order_path_settled [OF mem(2,3) _ mem(1)] pre by (simp add: executing_statuses_def execution_statuses_def)
qed

lemma wallet_step_settled:
  assumes "wallet_step E rg db db'" "wallet_inv E rg db" "settled_back oid db"
  shows "settled_back oid db'"
  using assms(1)
proof (cases rule: wallet_step.cases)
  have d: "distinct (map or_order_id (wallet_payment_orders db))" and x: "executions_inv E db"
    using assms(2) executions_invD(1) by (auto simp: wallet_inv_def)
  note keep = keeps_executing_settled [OF _ assms(3)]
  note acc = keep [OF accounts_keeps] and out = outcome_settled [OF assms(2,3)] and prep = prepare_settled [OF assms(2,3)]
  {
    case create_bounty
    show ?thesis by (rule acc [OF create_bounty_accounts [OF create_bounty]])
  next
    case transition_bounty
    show ?thesis by (rule acc [OF transition_bounty_accounts [OF transition_bounty]])
  next
    case maintain
    show ?thesis by (rule acc [OF maintain_accounts [OF maintain]])
  next
    case submit
    show ?thesis by (rule acc [OF submit_accounts [OF submit]])
  next
    case withdraw
    show ?thesis by (rule acc [OF withdraw_accounts [OF withdraw]])
  next
    case update_policy
    show ?thesis by (rule acc [OF update_policy_accounts [OF update_policy]])
  next
    case decide
    then show ?thesis by (rule decide_submission_Inr) (rule keep [OF decide_keeps [OF d]])
  next
    case decide_connection
    show ?thesis by (rule keep [OF decide_keeps [OF d decide_connection]])
  next
    case confirm_order
    show ?thesis by (rule keep [OF order_operations_keep(1) [OF d confirm_order]])
  next
    case reject_order
    show ?thesis by (rule keep [OF order_operations_keep(2) [OF d reject_order]])
  next
    case cancel_order
    show ?thesis by (rule keep [OF order_operations_keep(3) [OF d cancel_order]])
  next
    case refund_order
    show ?thesis by (rule keep [OF order_operations_keep(4) [OF d refund_order]])
  next
    case prepare
    show ?thesis by (rule prep [OF disjI1 [OF prepare]])
  next
    case retry
    show ?thesis by (rule prep [OF disjI2 [OF retry]])
  next
    case broadcast
    show ?thesis by (rule out) (use mark_broadcast_path [OF x broadcast] in blast)
  next
    case unknown
    show ?thesis by (rule out) (use mark_unknown_path [OF x unknown] in blast)
  next
    case failed
    show ?thesis by (rule out) (use mark_failed_path [OF x failed] in blast)
  next
    case confirmed
    show ?thesis by (rule out) (use mark_confirmed_path [OF x confirmed] in blast)
  next
    case recover
    show ?thesis by (rule out) (use recover_execution_path [OF x recover] in blast)
  next
    case reconcile
    show ?thesis by (rule out) (use mark_reconcile_required_path [OF x reconcile(2)] in blast)
  next
    case others
    then show ?thesis by (intro acc) (simp add: wallet_tables_def accounts_def)
  }
qed

lemma wallet_steps_settled:
  assumes "(wallet_step E rg)\<^sup>*\<^sup>* db db'" "wallet_inv E rg db" "settled_back oid db"
  shows "wallet_inv E rg db' \<and> settled_back oid db'"
  using assms
proof (induction rule: rtranclp_induct)
  case (step b c)
  then show ?case using wallet_step_inv wallet_step_settled by blast
qed simp

text \<open>A reorganisation report leaves the order settled and awaiting its receipt.\<close>

lemma reconcile_settled_back:
  assumes inv: "wallet_inv E rg db"
    and step: "mark_reconcile_required E eid sid actor reason db = Inr (r, db1)" "db1 \<noteq> db"
  obtains x y where "find_execution eid sid db = Inr x" "settled_back (ex_order_id x) db1"
    "find_execution eid sid db1 = Inr y" "ex_order_id y = ex_order_id x"
proof -
  have x: "executions_inv E db" and led: "ledger_inv rg db" using inv by (simp_all add: wallet_inv_def)
  obtain x order where f: "find_execution eid sid db = Inr x" and w: "get_order (ex_order_id x) sid db = Inr order"
    and st: "or_status order = ''confirmed''" and path: "outcome_path E x order (kept_receipt x) db db1"
    using mark_reconcile_required_path [OF x step] by blast
  have ws: "order \<in> set (wallet_payment_orders db)" "or_order_id order = ex_order_id x" using get_order_Inr [OF w] by auto
  have "map jo_journal_type (journals_of (or_order_id order) db) = [''reservation'', ''settlement'']"
    using led ws(1) st by (auto simp: ledger_inv_def order_histories_def)
  then have "''settlement'' \<in> jo_journal_type ` set (journals_of (or_order_id order) db)"
    by (metis list.set_intros(1,2) list.set_map)
  then obtain j where j: "j \<in> set (wallet_ledger_journals db)" "jo_order_id j = ex_order_id x" "jo_journal_type j = ''settlement''"
    using ws(2) by (auto simp: journals_of_def)
  obtain db3 aid now where p: "order_path E order ''unknown'' db db3" and v: "ledger_view db1 = ledger_view db3"
    and exe: "wallet_payment_executions db1 = update_where (\<lambda>r. ex_execution_id r = ex_execution_id x)
       (settled E (kept_receipt x) aid now (ex_attempt_count x)) (wallet_payment_executions db)"
    using path unfolding outcome_path_def by auto
  obtain oa on where "wallet_payment_orders db3 = update_where (\<lambda>r. or_order_id r = or_order_id order)
       (moved_order E ''unknown'' oa on) (wallet_payment_orders db)"
    by (rule order_path_orders [OF p executions_invD(1) [OF x] ws(1)])
  then have "moved_order E ''unknown'' oa on order \<in> set (wallet_payment_orders db1)"
    using v ws(1) by (auto simp: ledger_view_def set_update_where)
  moreover have "wallet_ledger_journals db1 = wallet_ledger_journals db"
    using p v unfolding order_path_def
    by (auto simp: ledger_view_def accounts_def transition_order_def utc_now_def Let_def split: if_splits elim!: wallet_audit_frame)
  ultimately have "settled_back (ex_order_id x) db1"
    using j ws(2) unfolding settled_back_def
    by (intro conjI bexI [of _ "moved_order E ''unknown'' oa on order"] bexI [of _ j]) (simp_all add: executing_statuses_def execution_statuses_def)
  moreover have "find_execution eid sid db1 = Inr (settled E (kept_receipt x) aid now (ex_attempt_count x) x)"
  proof -
    have "fetchone (\<lambda>r. ex_execution_id r = eid \<and> ex_subject_id r = sid) (wallet_payment_executions db) = Some x"
      using f by (auto simp: find_execution_def split: option.splits)
    then show ?thesis using find_execution_Inr [OF f]
      unfolding find_execution_def exe by (subst fetchone_update_where) simp_all
  qed
  ultimately show thesis using that [OF f] by simp
qed

text \<open>
  C36. A payment that a reorganisation took back is never confirmed again: in every state that
  any sequence of wallet operations, further reorganisations included, reaches after the report,
  the order is not confirmed, and confirming an execution of it raises, because the ledger
  still has the settlement of the first confirmation and takes no second one.  This is a defect: a comment of the
  economy describes the settlement as posted once and the order as confirmed again by a later receipt, but the
  function that would do so has no caller.
\<close>

theorem reconfirmation_refused:
  assumes "wallet_reachable E True db" "find_execution eid sid db = Inr x"
    and "mark_reconcile_required E eid sid actor reason db = Inr (r, db1)" "db1 \<noteq> db" "(wallet_step E True)\<^sup>*\<^sup>* db1 db2"
  shows "(\<forall>w\<in>set (wallet_payment_orders db2). or_order_id w = ex_order_id x \<longrightarrow> or_status w \<noteq> ''confirmed'')
    \<and> (\<forall>y. find_execution eid' sid' db2 = Inr y \<and> ex_order_id y = ex_order_id x \<longrightarrow> \<not> is_ok (mark_confirmed E' eid' sid' actor' rcpt db2))"
proof -
  note inv = wallet_reachable_inv [OF assms(1)]
  have inv1: "wallet_inv E True db1" by (rule wallet_step_inv [OF wallet_step.reconcile [OF TrueI assms(3)] inv])
  have "settled_back (ex_order_id x) db1" using reconcile_settled_back [OF inv assms(3,4)] assms(2) by (metis sum.inject(2))
  from wallet_steps_settled [OF assms(5) inv1 this] have inv2: "wallet_inv E True db2" and pre: "settled_back (ex_order_id x) db2" by simp_all
  obtain v j where v: "v \<in> set (wallet_payment_orders db2)" "or_order_id v = ex_order_id x" "or_status v \<noteq> ''confirmed''"
    and j: "j \<in> set (wallet_ledger_journals db2)" "jo_order_id j = ex_order_id x" "jo_journal_type j = ''settlement''"
    using pre by (auto simp: settled_back_def)
  have d: "distinct (map or_order_id (wallet_payment_orders db2))" using inv2 executions_invD(1) by (auto simp: wallet_inv_def)
  have not: "or_status w \<noteq> ''confirmed''" if "w \<in> set (wallet_payment_orders db2)" "or_order_id w = ex_order_id x" for w
    using distinct_key_eq [OF d that(1) v(1)] that(2) v by simp
  have "\<not> is_ok (mark_confirmed E' eid' sid' actor' rcpt db2)" if y: "find_execution eid' sid' db2 = Inr y" "ex_order_id y = ex_order_id x" for y
  proof
    assume "is_ok (mark_confirmed E' eid' sid' actor' rcpt db2)"
    then obtain q db' where m: "mark_confirmed E' eid' sid' actor' rcpt db2 = Inr (q, db')" by (auto simp: is_ok_iff)
    then obtain w where w: "get_order (ex_order_id y) sid' db2 = Inr w" using y(1) by (auto simp: mark_confirmed_def)
    note g = get_order_Inr [OF w]
    have "or_status w \<noteq> ''confirmed''" using not g y(2) by simp
    from mark_confirmed_settles [OF y(1) w this m j(1)] j(2,3) g y(2) show False by simp
  qed
  with not show ?thesis by blast
qed

theorem reconfirmation_refused_witness:
  "\<not> is_ok (mark_confirmed run_env ''wallet_exec_aaaaaaaaaaaaa'' ''sub'' ''op'' run_receipt run_reorg)"
proof -
  let ?eid = "''wallet_exec_aaaaaaaaaaaaa''"
  obtain r where s: "mark_reconcile_required run_env ?eid ''sub'' ''op'' ''reorg'' run8 = Inr (r, run_reorg)"
    using after_ok [OF run_reorg_ok] unfolding run_reorg_def by blast
  obtain x y where "find_execution ?eid ''sub'' run8 = Inr x" "find_execution ?eid ''sub'' run_reorg = Inr y" "ex_order_id y = ex_order_id x"
    by (rule reconcile_settled_back [OF wallet_reachable_inv [OF run_reachable(2) [of True]] s run_reorg_changes])
  with reconfirmation_refused [OF run_reachable(2) _ s run_reorg_changes rtranclp.rtrancl_refl] show ?thesis by blast
qed

section \<open>Reused transaction hashes\<close>

text \<open>Recording a hash that another execution of the network already has is refused by the index.\<close>

lemma recorded_hash_unused:
  assumes "record_outcome E x u (\<lambda>r. r\<lparr>ex_status := s, ex_tx_hash := Some tx, ex_error_code := c\<rparr>) aid db = Inr db'"
    and x: "x \<in> set (wallet_payment_executions db)"
    and y: "y \<in> set (wallet_payment_executions db)" "ex_execution_id y \<noteq> ex_execution_id x"
      "ex_subject_id y = ex_subject_id x" "ex_network_id y = ex_network_id x"
  shows "ex_tx_hash y \<noteq> Some tx"
proof
  assume h: "ex_tx_hash y = Some tx"
  define f where "f = (\<lambda>r :: execution_row. r\<lparr>ex_status := s, ex_tx_hash := Some tx, ex_error_code := c, ex_last_audit_id := aid,
     ex_updated_at := env_clock E (ticks db),
     ex_state_hash := execution_hash_values_from_row E x u (ex_attempt_count x) (env_clock E (ticks db))\<rparr>)"
  let ?t = "update_where (\<lambda>r. ex_execution_id r = ex_execution_id x) f (wallet_payment_executions db)"
  obtain db2 where up: "update_execution x f (db\<lparr>ticks := Suc (ticks db)\<rparr>) = Inr db2"
    using assms(1) by (auto simp: record_outcome_def utc_now_def Let_def f_def)
  have "f x \<in> set ?t" "y \<in> set ?t" using x y unfolding set_update_where by force+
  moreover have "ex_execution_id (f x) = ex_execution_id x" "execution_clash (f x) y"
    using y h by (simp_all add: f_def execution_clash_def)
  ultimately have "\<exists>r\<in>set ?t. ex_execution_id r = ex_execution_id x
      \<and> (\<exists>z\<in>set ?t. ex_execution_id z \<noteq> ex_execution_id x \<and> execution_clash r z)" using y(2) by blast
  with up show False by (auto simp: update_execution_def update_guarded_Inr split: if_splits)
qed

lemma mark_unknown_hash_unused:
  assumes x: "find_execution eid sid db = Inr x" and w: "get_order (ex_order_id x) sid db = Inr w" "or_status w = ''signing''"
    and tx: "canonical_tx_hash h = Inr tx" and step: "mark_unknown E eid sid actor (Some h) code db = Inr (r, db')"
    and y: "y \<in> set (wallet_payment_executions db)" "ex_execution_id y \<noteq> eid" "ex_subject_id y = sid" "ex_network_id y = ex_network_id x"
  shows "ex_tx_hash y \<noteq> Some tx"
proof -
  from step x w tx obtain payload aid db1 db2 u where
    a: "wallet_audit E sid ''wallet_payment_unknown'' actor payload db = Inr (aid, db1)"
    and t: "transition_order E w ''unknown'' actor code db1 = Inr db2"
    and o: "record_outcome E x u (\<lambda>r. r\<lparr>ex_status := ''unknown'', ex_tx_hash := Some tx, ex_error_code := Some code\<rparr>) aid db2 = Inr db'"
    by (auto simp: mark_unknown_def unknown_outcome_def read_execution_Inr split: if_splits)
  have e: "wallet_payment_executions db2 = wallet_payment_executions db"
    using transition_order_executions [OF t] wallet_audit_accounts [OF a] by (simp add: accounts_def)
  show ?thesis
    by (rule recorded_hash_unused [OF o]) (use e y find_execution_Inr [OF x] in auto)
qed

text \<open>
  C37. When the signer answers with a transaction hash that another execution of the network
  already has, concluding the dispatch fails and changes nothing: the broadcast is refused
  with the error the caller expects, but marking the payment unknown records the same hash and
  is refused by the unique index, so the execution stays in signing.
\<close>

theorem reused_hash_stays_signing:
  assumes x: "find_execution eid sid db = Inr x" and w: "get_order (ex_order_id x) sid db = Inr w" "or_status w = ''signing''"
    and result: "valid_broadcast_result result transfer" "canonical_tx_hash (bc_tx_hash result) = Inr tx"
      "bc_chain_id result = ex_chain_id x" "bc_nonce result = ex_nonce x"
    and y: "y \<in> set (wallet_payment_executions db)" "ex_execution_id y \<noteq> eid" "ex_subject_id y = sid"
      "ex_network_id y = ex_network_id x" "ex_tx_hash y = Some tx"
  shows "\<exists>e. conclude_dispatch E retry (execution_from_row x) sid actor transfer (Accepted result) db = (Inl e, db)"
proof -
  have i: "er_execution_id (execution_from_row x) = eid" using find_execution_Inr [OF x] by (simp add: execution_from_row_def)
  have "mark_broadcast E eid sid actor result db = Inl (WalletExecutionError ''signer reused a transaction hash'')"
    using x w result(2-4) y by (auto simp: mark_broadcast_def)
  moreover have "\<exists>e. mark_unknown E eid sid actor (Some (bc_tx_hash result)) ''signer_response_invalid'' db = Inl e"
    using mark_unknown_hash_unused [OF x w result(2) _ y(1-4)] y(5)
    by (cases "mark_unknown E eid sid actor (Some (bc_tx_hash result)) ''signer_response_invalid'' db") auto
  ultimately show ?thesis using result(1) by (auto simp: conclude_dispatch_def Let_def i commit_def)
qed

definition run_collision :: wallet_db where
  "run_collision = run6\<lparr>wallet_payment_executions := wallet_payment_executions run6
     @ [(run_execution (no_receipt ''broadcast'' (Some run_tx) None) 14)\<lparr>ex_execution_id := ''wallet_exec_b'', ex_order_id := ''payorder_b'',
         ex_nonce := 5\<rparr>]\<rparr>"

theorem reused_hash_stays_signing_witness:
  "\<exists>e x. ex_status x = ''signing'' \<and> x \<in> set (wallet_payment_executions run_collision)
     \<and> conclude_dispatch run_env False (execution_from_row x) ''sub'' ''op'' (envelope_of run_intent) (Accepted run_result) run_collision
         = (Inl e, run_collision)"
proof -
  let ?x = "run_execution (no_receipt ''signing'' None None) 14" and ?w = "run_order_at ''signing'' 15 (Some sample_time)"
  let ?y = "(run_execution (no_receipt ''broadcast'' (Some run_tx) None) 14)\<lparr>ex_execution_id := ''wallet_exec_b'',
     ex_order_id := ''payorder_b'', ex_nonce := 5\<rparr>"
  have x: "find_execution ''wallet_exec_aaaaaaaaaaaaa'' ''sub'' run_collision = Inr ?x"
    by (simp add: find_execution_def run_collision_def run6_def run_state_def run_execution_def with_outcome_def)
  have w: "get_order (ex_order_id ?x) ''sub'' run_collision = Inr ?w"
    by (simp add: get_order_def run_collision_def run6_def run_state_def run_execution_def with_outcome_def run_order_at_def)
  have v: "valid_broadcast_result run_result (envelope_of run_intent)"
    by (simp add: valid_broadcast_result_def run_result_def envelope_of_def run_intent_def hash_pattern_def run_tx_def sample_time_def
        is_hex_def replicate_eval input_eval)
  have y: "?y \<in> set (wallet_payment_executions run_collision)" by (simp add: run_collision_def)
  obtain e where "conclude_dispatch run_env False (execution_from_row ?x) ''sub'' ''op'' (envelope_of run_intent) (Accepted run_result)
      run_collision = (Inl e, run_collision)"
    using reused_hash_stays_signing [OF x w _ v run_tx_valid [folded run_result_simps(1)] _ _ y, of run_env False "''op''"]
    by (auto simp: run_order_at_def run_execution_def with_outcome_def no_receipt_def)
  moreover have "?x \<in> set (wallet_payment_executions run_collision)" "ex_status ?x = ''signing''"
    by (simp_all add: run_collision_def run6_def run_state_def run_execution_def with_outcome_def no_receipt_def)
  ultimately show ?thesis by blast
qed

end
