(* ===== verification/WalletInputs.thy ===== *)
theory WalletInputs
  imports WalletExecution
begin

text \<open>
  The inputs of the wallet registry: the Pydantic models of networks, assets, addresses and
  balance observations of \<^verbatim>\<open>wallet/types.py\<close>.  The origin of an RPC endpoint is read by the
  standard library's \<open>urlsplit\<close>, \<open>idna\<close> codec and \<open>ipaddress\<close>; these three functions are the
  parameter \<open>url_library\<close>, about which nothing is assumed.  The main results are that every
  validator but that of the RPC origin is a normal form: validating what it returned changes
  nothing.  The origin need not be one: \<open>urlsplit\<close> keeps a blank before the path in the host, so
  an origin can end in a blank, which a second validation strips.
\<close>

section \<open>Symbols\<close>

text \<open>\<open>str.upper\<close>; of the letters below 256 only sharp s becomes ASCII, as two letters.\<close>

definition upper_char :: "char \<Rightarrow> string" where
  "upper_char c = (if is_lower c then [char_of ((of_char c :: nat) - 32)]
     else if c = CHR 0xDF then ''SS'' else [c])"

definition py_upper :: "string \<Rightarrow> string" where
  "py_upper s = concat (map upper_char s)"

definition symbol_char :: "char \<Rightarrow> bool" where
  "symbol_char c = (is_upper c \<or> is_digit c \<or> c \<in> set ''._-'')"

definition symbol_pattern :: "string \<Rightarrow> bool" where
  "symbol_pattern s = (1 \<le> length s \<and> length s \<le> 32 \<and> list_all symbol_char s)"

definition symbol_text :: "string \<Rightarrow> string \<Rightarrow> string res" where
  "symbol_text field value =
     res_bind (wallet_text field 32 value) (\<lambda>v.
       if symbol_pattern (py_upper v) then Inr (py_upper v)
       else Inl (ValueError (''wallet '' @ field @ '' is invalid'')))"

section \<open>RPC origins\<close>

record url_parts =
  up_scheme :: string
  up_hostname :: "string option"
  up_username :: "string option"
  up_password :: "string option"
  up_port :: "int option"
  up_path :: string
  up_query :: string
  up_fragment :: string

text \<open>
  \<open>urlsplit\<close> (absent when it or the access to the port raises), the \<open>idna\<close> codec (absent when
  it raises), and whether a host is a literal address and then a global one.
\<close>

record url_library =
  url_split :: "string \<Rightarrow> url_parts option"
  url_idna :: "string \<Rightarrow> string option"
  url_global :: "string \<Rightarrow> bool option"

definition origin_text :: "string \<Rightarrow> string" where
  "origin_text host = ''https://'' @ (if CHR '':'' \<in> set host then ''['' @ host @ '']'' else host)"

text \<open>The host of an acceptable origin.\<close>

definition origin_host :: "url_library \<Rightarrow> url_parts \<Rightarrow> string res" where
  "origin_host U p =
     (case up_hostname p of
        None \<Rightarrow> Inl (ValueError ''wallet RPC URL must be a credential-free HTTPS origin'')
      | Some hostname \<Rightarrow>
          if py_lower (up_scheme p) \<noteq> ''https'' \<or> up_username p \<noteq> None \<or> up_password p \<noteq> None
             \<or> up_query p \<noteq> [] \<or> up_fragment p \<noteq> [] \<or> up_port p \<notin> {None, Some 443} \<or> up_path p \<notin> {'''', ''/''}
          then Inl (ValueError ''wallet RPC URL must be a credential-free HTTPS origin'')
          else (case url_idna U hostname of
              None \<Rightarrow> Inl (ValueError ''wallet RPC URL is invalid'')
            | Some ascii \<Rightarrow>
                let host = py_lower ascii
                in if host = ''localhost'' \<or> url_global U host = Some False
                   then Inl (ValueError ''wallet RPC URL must use a public endpoint'') else Inr host))"

definition rpc_url :: "url_library \<Rightarrow> string \<Rightarrow> string res" where
  "rpc_url U value =
     res_bind (wallet_text ''RPC URL'' 512 value) (\<lambda>candidate.
       case url_split U candidate of
         None \<Rightarrow> Inl (ValueError ''wallet RPC URL is invalid'')
       | Some p \<Rightarrow> res_bind (origin_host U p) (\<lambda>host. Inr (origin_text host)))"

section \<open>Models\<close>

record network_input =
  ni_label :: string
  ni_chain_family :: string
  ni_chain_id :: int
  ni_native_symbol :: string
  ni_rpc_url :: "string option"

definition chain_family :: "string \<Rightarrow> string res" where
  "chain_family v = (if v = ''evm'' then Inr v else Inl (ValueError ''literal_error''))"

definition optional_rpc_url :: "url_library \<Rightarrow> string option \<Rightarrow> string option res" where
  "optional_rpc_url U v =
     (case v of None \<Rightarrow> Inr None
      | Some u \<Rightarrow> res_bind (text_length 0 512 u) (\<lambda>_. res_bind (rpc_url U u) (\<lambda>w. Inr (Some w))))"

definition validate_network_input :: "url_library \<Rightarrow> network_input \<Rightarrow> network_input res" where
  "validate_network_input U i =
     res_bind (text_length 1 128 (ni_label i)) (\<lambda>_.
     res_bind (wallet_text ''network label'' 128 (ni_label i)) (\<lambda>label.
     res_bind (chain_family (ni_chain_family i)) (\<lambda>family.
     res_bind (int_range 1 sqlite_int64_max (ni_chain_id i)) (\<lambda>_.
     res_bind (text_length 1 32 (ni_native_symbol i)) (\<lambda>_.
     res_bind (symbol_text ''native symbol'' (ni_native_symbol i)) (\<lambda>symbol.
     res_bind (optional_rpc_url U (ni_rpc_url i)) (\<lambda>url.
       Inr \<lparr>ni_label = label, ni_chain_family = family, ni_chain_id = ni_chain_id i, ni_native_symbol = symbol,
            ni_rpc_url = url\<rparr>)))))))"

record asset_input =
  ai_network_id :: string
  ai_asset_type :: string
  ai_contract_address :: "string option"
  ai_name :: string
  ai_symbol :: string
  ai_decimals :: int

definition asset_type_value :: "string \<Rightarrow> string res" where
  "asset_type_value v = (if v \<in> set asset_types then Inr v else Inl (ValueError ''literal_error''))"

definition contract_field :: "string option \<Rightarrow> string option res" where
  "contract_field v =
     (case v of None \<Rightarrow> Inr None
      | Some a \<Rightarrow> res_bind (text_length 0 42 a) (\<lambda>_. res_bind (canonical_evm_address a) (\<lambda>c. Inr (Some c))))"

definition asset_shape :: "string \<Rightarrow> string option \<Rightarrow> unit res" where
  "asset_shape asset_type contract =
     (if asset_type = ''native'' \<and> contract \<noteq> None
      then Inl (ValueError ''native assets cannot have a contract address'')
      else if asset_type = ''token'' \<and> contract = None
      then Inl (ValueError ''token assets require a contract address'') else Inr ())"

definition validate_asset_input :: "asset_input \<Rightarrow> asset_input res" where
  "validate_asset_input i =
     res_bind (text_length 1 128 (ai_network_id i)) (\<lambda>_.
     res_bind (wallet_text ''network identifier'' 128 (ai_network_id i)) (\<lambda>network_id.
     res_bind (asset_type_value (ai_asset_type i)) (\<lambda>asset_type.
     res_bind (contract_field (ai_contract_address i)) (\<lambda>contract.
     res_bind (text_length 1 128 (ai_name i)) (\<lambda>_.
     res_bind (wallet_text ''asset name'' 128 (ai_name i)) (\<lambda>name.
     res_bind (text_length 1 32 (ai_symbol i)) (\<lambda>_.
     res_bind (symbol_text ''asset symbol'' (ai_symbol i)) (\<lambda>symbol.
     res_bind (int_range 0 255 (ai_decimals i)) (\<lambda>_.
     res_bind (asset_shape asset_type contract) (\<lambda>_.
       Inr \<lparr>ai_network_id = network_id, ai_asset_type = asset_type, ai_contract_address = contract, ai_name = name,
            ai_symbol = symbol, ai_decimals = ai_decimals i\<rparr>))))))))))"

record address_input =
  di_network_id :: string
  di_label :: string
  di_address :: string
  di_purpose :: string

definition address_purposes :: "string list" where
  "address_purposes = [''treasury'', ''spending'', ''observation'', ''external'']"

definition purpose_value :: "string \<Rightarrow> string res" where
  "purpose_value v = (if v \<in> set address_purposes then Inr v else Inl (ValueError ''literal_error''))"

definition validate_address_input :: "address_input \<Rightarrow> address_input res" where
  "validate_address_input i =
     res_bind (text_length 1 128 (di_network_id i)) (\<lambda>_.
     res_bind (wallet_text ''network identifier'' 128 (di_network_id i)) (\<lambda>network_id.
     res_bind (text_length 1 128 (di_label i)) (\<lambda>_.
     res_bind (wallet_text ''address label'' 128 (di_label i)) (\<lambda>label.
     res_bind (text_length 42 42 (di_address i)) (\<lambda>_.
     res_bind (canonical_evm_address (di_address i)) (\<lambda>address.
     res_bind (purpose_value (di_purpose i)) (\<lambda>purpose.
       Inr \<lparr>di_network_id = network_id, di_label = label, di_address = address, di_purpose = purpose\<rparr>)))))))"

record balance_input =
  oi_asset_id :: string
  oi_address_id :: string
  oi_balance :: string
  oi_source :: string
  oi_observed_at :: "string option"

definition observed_field :: "string option \<Rightarrow> string option res" where
  "observed_field v =
     (case v of None \<Rightarrow> Inr None
      | Some t \<Rightarrow> res_bind (text_length 0 64 t) (\<lambda>_. res_bind (canonical_timestamp t) (\<lambda>c. Inr (Some c))))"

definition validate_balance_input :: "balance_input \<Rightarrow> balance_input res" where
  "validate_balance_input i =
     res_bind (text_length 1 128 (oi_asset_id i)) (\<lambda>_.
     res_bind (wallet_text ''balance identifier'' 128 (oi_asset_id i)) (\<lambda>asset_id.
     res_bind (text_length 1 128 (oi_address_id i)) (\<lambda>_.
     res_bind (wallet_text ''balance identifier'' 128 (oi_address_id i)) (\<lambda>address_id.
     res_bind (text_length 1 256 (oi_balance i)) (\<lambda>_.
     res_bind (canonical_balance (oi_balance i)) (\<lambda>balance.
     res_bind (text_length 1 64 (oi_source i)) (\<lambda>_.
     res_bind (balance_source (oi_source i)) (\<lambda>source.
     res_bind (observed_field (oi_observed_at i)) (\<lambda>observed_at.
       Inr \<lparr>oi_asset_id = asset_id, oi_address_id = address_id, oi_balance = balance, oi_source = source,
            oi_observed_at = observed_at\<rparr>)))))))))"

section \<open>Normal forms\<close>

lemma wallet_text_normal:
  assumes "wallet_text f n v = Inr w"
  shows "wallet_text f n w = Inr w" "w \<noteq> []" "length w \<le> n" "length w \<le> length v" "py_strip w = w" "\<not> blank w"
  using assms length_py_strip [of v] by (auto simp: wallet_text_def Let_def blank_def split: if_splits)

lemma symbol_char_simps:
  assumes "symbol_char c"
  shows "upper_char c = [c]" "\<not> py_isspace c"
proof -
  have u: "\<not> is_lower c" "c \<noteq> CHR 0xDF"
    using assms by (auto simp: symbol_char_def is_upper_def is_digit_def is_lower_def)
  then show "upper_char c = [c]" by (simp add: upper_char_def)
  show "\<not> py_isspace c"
    using assms alnum_not_space [of c] by (auto simp: symbol_char_def is_alnum_def py_isspace_def)
qed

lemma symbol_pattern_simps:
  assumes "symbol_pattern s"
  shows "py_upper s = s" "py_strip s = s" "s \<noteq> []" "length s \<le> 32"
proof -
  have c: "symbol_char x" if "x \<in> set s" for x using assms that by (auto simp: symbol_pattern_def list_all_iff)
  then have "concat (map upper_char s) = s" by (induction s) (simp_all add: symbol_char_simps)
  then show "py_upper s = s" by (simp add: py_upper_def)
  show "py_strip s = s" using c symbol_char_simps by (intro py_strip_no_space) blast
  show "s \<noteq> []" "length s \<le> 32" using assms by (auto simp: symbol_pattern_def)
qed

lemma symbol_text_normal:
  assumes "symbol_text f v = Inr w"
  shows "symbol_text f w = Inr w" "symbol_pattern w" "text_length 1 32 w = Inr ()"
proof -
  from assms show p: "symbol_pattern w" by (auto simp: symbol_text_def split: if_splits)
  from symbol_pattern_simps [OF p] p show "symbol_text f w = Inr w" "text_length 1 32 w = Inr ()"
    by (auto simp: symbol_text_def wallet_text_def Let_def text_length_def Suc_le_eq)
qed

lemma py_lower_idem: "py_lower (py_lower s) = py_lower s"
  by (simp add: py_lower_def lower_char_idem)

lemma validate_network_input_normal:
  assumes "validate_network_input U i = Inr p" "optional_rpc_url U (ni_rpc_url p) = Inr (ni_rpc_url p)"
  shows "validate_network_input U p = Inr p"
proof -
  from assms(1) have f: "wallet_text ''network label'' 128 (ni_label i) = Inr (ni_label p)" "text_length 1 128 (ni_label i) = Inr ()"
      "chain_family (ni_chain_family i) = Inr (ni_chain_family p)" "int_range 1 sqlite_int64_max (ni_chain_id p) = Inr ()"
      "symbol_text ''native symbol'' (ni_native_symbol i) = Inr (ni_native_symbol p)"
      "optional_rpc_url U (ni_rpc_url i) = Inr (ni_rpc_url p)"
    by (auto simp: validate_network_input_def)
  have "text_length 1 128 (ni_label p) = Inr ()"
    using wallet_text_normal(2,3) [OF f(1)] by (auto simp: text_length_def Suc_le_eq)
  moreover have "chain_family (ni_chain_family p) = Inr (ni_chain_family p)"
    using f(3) by (auto simp: chain_family_def split: if_splits)
  ultimately show ?thesis
    using assms(2) wallet_text_normal(1) [OF f(1)] symbol_text_normal [OF f(5)] f(4) by (cases p) (simp add: validate_network_input_def)
qed

lemma contract_field_normal: "contract_field v = Inr w \<Longrightarrow> contract_field w = Inr w"
  by (auto simp: contract_field_def text_length_def canonical_evm_address_normal split: option.splits if_splits)

lemma wallet_id_normal:
  assumes "wallet_text f 128 v = Inr w"
  shows "text_length 1 128 w = Inr ()"
  using wallet_text_normal(2,3) [OF assms] by (auto simp: text_length_def Suc_le_eq)

lemma validate_asset_input_normal:
  assumes "validate_asset_input i = Inr p"
  shows "validate_asset_input p = Inr p"
proof -
  from assms have f: "wallet_text ''network identifier'' 128 (ai_network_id i) = Inr (ai_network_id p)"
      "asset_type_value (ai_asset_type i) = Inr (ai_asset_type p)" "contract_field (ai_contract_address i) = Inr (ai_contract_address p)"
      "wallet_text ''asset name'' 128 (ai_name i) = Inr (ai_name p)" "symbol_text ''asset symbol'' (ai_symbol i) = Inr (ai_symbol p)"
      "int_range 0 255 (ai_decimals p) = Inr ()" "asset_shape (ai_asset_type p) (ai_contract_address p) = Inr ()"
    by (auto simp: validate_asset_input_def)
  have "asset_type_value (ai_asset_type p) = Inr (ai_asset_type p)" using f(2) by (auto simp: asset_type_value_def split: if_splits)
  then show ?thesis
    using wallet_text_normal(1) [OF f(1)] wallet_id_normal [OF f(1)] contract_field_normal [OF f(3)] wallet_text_normal(1) [OF f(4)]
      wallet_id_normal [OF f(4)] symbol_text_normal [OF f(5)] f(6,7)
    by (cases p) (simp add: validate_asset_input_def)
qed

lemma validate_address_input_normal:
  assumes "validate_address_input i = Inr p"
  shows "validate_address_input p = Inr p"
proof -
  from assms have f: "wallet_text ''network identifier'' 128 (di_network_id i) = Inr (di_network_id p)"
      "wallet_text ''address label'' 128 (di_label i) = Inr (di_label p)" "canonical_evm_address (di_address i) = Inr (di_address p)"
      "purpose_value (di_purpose i) = Inr (di_purpose p)"
    by (auto simp: validate_address_input_def)
  have "purpose_value (di_purpose p) = Inr (di_purpose p)" using f(4) by (auto simp: purpose_value_def split: if_splits)
  moreover have "text_length 42 42 (di_address p) = Inr ()"
    using canonical_evm_address_normal(2) [OF f(3)] by (simp add: text_length_def)
  ultimately show ?thesis
    using wallet_text_normal(1) [OF f(1)] wallet_id_normal [OF f(1)] wallet_text_normal(1) [OF f(2)] wallet_id_normal [OF f(2)]
      canonical_evm_address_normal(1) [OF f(3)]
    by (cases p) (simp add: validate_address_input_def)
qed

lemma length_canonical_timestamp:
  assumes "canonical_timestamp v = Inr w"
  shows "length w = 29"
proof -
  obtain u where "w = isoformat_ms u" using canonical_timestamp_obtain [OF assms] .
  then show ?thesis by (simp add: isoformat_ms_def iso_seconds_def)
qed

lemma validate_balance_input_fields:
  assumes "validate_balance_input i = Inr p"
  shows "wallet_text ''balance identifier'' 128 (oi_asset_id p) = Inr (oi_asset_id p)" "text_length 1 128 (oi_asset_id p) = Inr ()"
    "wallet_text ''balance identifier'' 128 (oi_address_id p) = Inr (oi_address_id p)" "text_length 1 128 (oi_address_id p) = Inr ()"
    "canonical_balance (oi_balance p) = Inr (oi_balance p)" "text_length 1 256 (oi_balance p) = Inr ()"
    "balance_source (oi_source p) = Inr (oi_source p)" "text_length 1 64 (oi_source p) = Inr ()"
    "oi_observed_at p = Some t \<Longrightarrow> canonical_timestamp t = Inr t \<and> text_length 0 64 t = Inr ()"
proof -
  from assms have f: "wallet_text ''balance identifier'' 128 (oi_asset_id i) = Inr (oi_asset_id p)"
      "wallet_text ''balance identifier'' 128 (oi_address_id i) = Inr (oi_address_id p)"
      "canonical_balance (oi_balance i) = Inr (oi_balance p)" "text_length 1 256 (oi_balance i) = Inr ()"
      "balance_source (oi_source i) = Inr (oi_source p)" "observed_field (oi_observed_at i) = Inr (oi_observed_at p)"
    by (auto simp: validate_balance_input_def)
  show "wallet_text ''balance identifier'' 128 (oi_asset_id p) = Inr (oi_asset_id p)" "text_length 1 128 (oi_asset_id p) = Inr ()"
    "wallet_text ''balance identifier'' 128 (oi_address_id p) = Inr (oi_address_id p)" "text_length 1 128 (oi_address_id p) = Inr ()"
    using wallet_text_normal(1) [OF f(1)] wallet_text_normal(1) [OF f(2)] wallet_id_normal [OF f(1)] wallet_id_normal [OF f(2)] by auto
  show "canonical_balance (oi_balance p) = Inr (oi_balance p)" "text_length 1 256 (oi_balance p) = Inr ()"
    using f(3,4) by (auto simp: canonical_balance_def split: if_splits)
  from f(5) have w: "wallet_text ''balance source'' 64 (oi_source i) = Inr (oi_source p)" and pat: "source_pattern (oi_source p)"
    by (auto simp: balance_source_def split: if_splits)
  with wallet_text_normal(1-3) [OF w] show "balance_source (oi_source p) = Inr (oi_source p)" "text_length 1 64 (oi_source p) = Inr ()"
    by (auto simp: balance_source_def text_length_def Suc_le_eq)
  show "canonical_timestamp t = Inr t \<and> text_length 0 64 t = Inr ()" if "oi_observed_at p = Some t"
    using f(6) that canonical_timestamp_idem length_canonical_timestamp
    by (auto simp: observed_field_def text_length_def split: option.splits if_splits)
qed

end
