(* ===== verification/WalletRegistry.thy ===== *)
theory WalletRegistry
  imports WalletInputs Revisions
begin

text \<open>
  \<open>WalletStore\<close> of \<^verbatim>\<open>wallet/store.py\<close>: the registered networks, assets and addresses with
  their revision histories, the observed balances, and the integrity check over them.  The
  three kinds of resource share their life cycle (registered, then perhaps revoked, once),
  which \<open>lifecycle\<close> projects from a row; their constraints, unique indexes and triggers are those of
  migrations 53 and 63.  A registration and a revocation commit their transaction and then
  read the resource back, so their result is the value or the error together with the database.
\<close>

section \<open>Rows\<close>

record revision_row =
  rv_revision_id :: string
  rv_resource_id :: string
  rv_subject_id :: string
  rv_revision_number :: int
  rv_status :: string
  rv_reason :: string
  rv_audit_id :: string
  rv_state_hash :: string
  rv_created_at :: string

record registry_db = wallet_db +
  wallet_network_revisions :: "revision_row list"
  wallet_asset_revisions :: "revision_row list"
  wallet_address_revisions :: "revision_row list"

datatype resource = Network | Asset | Address

definition resource_name :: "resource \<Rightarrow> string" where
  "resource_name k = (case k of Network \<Rightarrow> ''network'' | Asset \<Rightarrow> ''asset'' | Address \<Rightarrow> ''address'')"

definition id_field :: "resource \<Rightarrow> string" where
  "id_field k = resource_name k @ ''_id''"

definition revisions :: "resource \<Rightarrow> 'a registry_db_scheme \<Rightarrow> revision_row list" where
  "revisions k db = (case k of Network \<Rightarrow> wallet_network_revisions db | Asset \<Rightarrow> wallet_asset_revisions db
     | Address \<Rightarrow> wallet_address_revisions db)"

definition set_revisions :: "resource \<Rightarrow> revision_row list \<Rightarrow> 'a registry_db_scheme \<Rightarrow> 'a registry_db_scheme" where
  "set_revisions k t db = (case k of Network \<Rightarrow> db\<lparr>wallet_network_revisions := t\<rparr>
     | Asset \<Rightarrow> db\<lparr>wallet_asset_revisions := t\<rparr> | Address \<Rightarrow> db\<lparr>wallet_address_revisions := t\<rparr>)"

text \<open>The columns the three kinds of resource share.\<close>

record lifecycle =
  lc_resource_id :: string
  lc_subject_id :: string
  lc_status :: string
  lc_created_at :: string
  lc_revoked_at :: "string option"
  lc_revoke_reason :: "string option"
  lc_created_audit_id :: string
  lc_revoked_audit_id :: "string option"

definition network_life :: "network_row \<Rightarrow> lifecycle" where
  "network_life r = \<lparr>lc_resource_id = nw_network_id r, lc_subject_id = nw_subject_id r, lc_status = nw_status r,
     lc_created_at = nw_created_at r, lc_revoked_at = nw_revoked_at r, lc_revoke_reason = nw_revoke_reason r,
     lc_created_audit_id = nw_created_audit_id r, lc_revoked_audit_id = nw_revoked_audit_id r\<rparr>"

definition asset_life :: "asset_row \<Rightarrow> lifecycle" where
  "asset_life r = \<lparr>lc_resource_id = as_asset_id r, lc_subject_id = as_subject_id r, lc_status = as_status r,
     lc_created_at = as_created_at r, lc_revoked_at = as_revoked_at r, lc_revoke_reason = as_revoke_reason r,
     lc_created_audit_id = as_created_audit_id r, lc_revoked_audit_id = as_revoked_audit_id r\<rparr>"

definition address_life :: "address_row \<Rightarrow> lifecycle" where
  "address_life r = \<lparr>lc_resource_id = ad_address_id r, lc_subject_id = ad_subject_id r, lc_status = ad_status r,
     lc_created_at = ad_created_at r, lc_revoked_at = ad_revoked_at r, lc_revoke_reason = ad_revoke_reason r,
     lc_created_audit_id = ad_created_audit_id r, lc_revoked_audit_id = ad_revoked_audit_id r\<rparr>"

definition lives :: "resource \<Rightarrow> 'a wallet_db_scheme \<Rightarrow> lifecycle list" where
  "lives k db = (case k of Network \<Rightarrow> map network_life (wallet_networks db) | Asset \<Rightarrow> map asset_life (wallet_assets db)
     | Address \<Rightarrow> map address_life (wallet_addresses db))"

section \<open>Digests\<close>

definition network_hash :: "env \<Rightarrow> network_row \<Rightarrow> string" where
  "network_hash E r = content_hash (env_sha256 E) (JObj
     [(''network_id'', JStr (nw_network_id r)), (''subject_id'', JStr (nw_subject_id r)), (''label'', JStr (nw_label r)),
      (''chain_family'', JStr (nw_chain_family r)), (''chain_id'', JInt (nw_chain_id r)),
      (''native_symbol'', JStr (nw_native_symbol r)), (''rpc_url'', json_opt (nw_rpc_url r)), (''status'', JStr (nw_status r)),
      (''created_at'', JStr (nw_created_at r)), (''revoked_at'', json_opt (nw_revoked_at r)),
      (''revoke_reason'', json_opt (nw_revoke_reason r)), (''created_audit_id'', JStr (nw_created_audit_id r)),
      (''revoked_audit_id'', json_opt (nw_revoked_audit_id r))])"

definition asset_hash :: "env \<Rightarrow> asset_row \<Rightarrow> string" where
  "asset_hash E r = content_hash (env_sha256 E) (JObj
     [(''asset_id'', JStr (as_asset_id r)), (''subject_id'', JStr (as_subject_id r)), (''network_id'', JStr (as_network_id r)),
      (''asset_type'', JStr (as_asset_type r)), (''contract_address'', json_opt (as_contract_address r)),
      (''name'', JStr (as_name r)), (''symbol'', JStr (as_symbol r)), (''decimals'', JInt (as_decimals r)),
      (''status'', JStr (as_status r)), (''created_at'', JStr (as_created_at r)), (''revoked_at'', json_opt (as_revoked_at r)),
      (''revoke_reason'', json_opt (as_revoke_reason r)), (''created_audit_id'', JStr (as_created_audit_id r)),
      (''revoked_audit_id'', json_opt (as_revoked_audit_id r))])"

definition address_hash :: "env \<Rightarrow> address_row \<Rightarrow> string" where
  "address_hash E r = content_hash (env_sha256 E) (JObj
     [(''address_id'', JStr (ad_address_id r)), (''subject_id'', JStr (ad_subject_id r)), (''network_id'', JStr (ad_network_id r)),
      (''label'', JStr (ad_label r)), (''address'', JStr (ad_address r)), (''purpose'', JStr (ad_purpose r)),
      (''status'', JStr (ad_status r)), (''created_at'', JStr (ad_created_at r)), (''revoked_at'', json_opt (ad_revoked_at r)),
      (''revoke_reason'', json_opt (ad_revoke_reason r)), (''created_audit_id'', JStr (ad_created_audit_id r)),
      (''revoked_audit_id'', json_opt (ad_revoked_audit_id r))])"

definition revision_hash :: "env \<Rightarrow> resource \<Rightarrow> revision_row \<Rightarrow> string" where
  "revision_hash E k r = content_hash (env_sha256 E) (JObj
     [(''resource_type'', JStr (resource_name k)), (''resource_id'', JStr (rv_resource_id r)),
      (''subject_id'', JStr (rv_subject_id r)), (''revision_number'', JInt (rv_revision_number r)),
      (''status'', JStr (rv_status r)), (''reason'', JStr (rv_reason r)), (''audit_id'', JStr (rv_audit_id r)),
      (''created_at'', JStr (rv_created_at r))])"

section \<open>Reading rows\<close>

definition timestamp_valid :: "string \<Rightarrow> bool" where
  "timestamp_valid s = (s \<noteq> [] \<and> (case fromisoformat s of Inl _ \<Rightarrow> False | Inr d \<Rightarrow> dt_offset d \<noteq> None))"

definition lifecycle_valid :: "lifecycle \<Rightarrow> bool" where
  "lifecycle_valid l =
     (is_ok (store_identifier (lc_created_audit_id l) ''creation audit identifier'')
      \<and> lc_status l \<in> {''active'', ''revoked''} \<and> timestamp_valid (lc_created_at l)
      \<and> (if lc_status l = ''active''
         then lc_revoked_at l = None \<and> lc_revoke_reason l = None \<and> lc_revoked_audit_id l = None
         else opt_ex timestamp_valid (lc_revoked_at l)
            \<and> opt_ex (\<lambda>s. \<not> blank s \<and> length s \<le> 2000) (lc_revoke_reason l)
            \<and> opt_ex (\<lambda>a. a \<noteq> []) (lc_revoked_audit_id l)))"

definition lifecycle_values :: "lifecycle \<Rightarrow> lifecycle res" where
  "lifecycle_values l = (if lifecycle_valid l then Inr l
     else Inl (IntegrityError (''wallet lifecycle is invalid: '' @ lc_resource_id l)))"

record network_record =
  nr_network_id :: string
  nr_subject_id :: string
  nr_label :: string
  nr_chain_family :: string
  nr_chain_id :: int
  nr_native_symbol :: string
  nr_rpc_url :: "string option"
  nr_status :: string
  nr_created_at :: string
  nr_revoked_at :: "string option"
  nr_revoke_reason :: "string option"

definition network_row_input :: "network_row \<Rightarrow> network_input" where
  "network_row_input r = \<lparr>ni_label = nw_label r, ni_chain_family = nw_chain_family r, ni_chain_id = nw_chain_id r,
     ni_native_symbol = nw_native_symbol r, ni_rpc_url = nw_rpc_url r\<rparr>"

definition network_from_row :: "env \<Rightarrow> url_library \<Rightarrow> network_row \<Rightarrow> network_record res" where
  "network_from_row E U r =
     res_bind (catch_value_error (IntegrityError (''wallet network durable state is invalid: '' @ nw_network_id r))
         (validate_network_input U (network_row_input r))) (\<lambda>p.
     res_bind (catch_value_error (IntegrityError (''wallet network durable identity is invalid: '' @ nw_network_id r))
         (res_bind (store_identifier (nw_network_id r) ''network identifier'') (\<lambda>_. validate_subject_id (nw_subject_id r)))) (\<lambda>_.
     res_bind (lifecycle_values (network_life r)) (\<lambda>_.
       if network_row_input r \<noteq> p
       then Inl (IntegrityError (''wallet network state is non-canonical: '' @ nw_network_id r))
       else if nw_state_hash r \<noteq> network_hash E r
       then Inl (IntegrityError (''wallet network state hash mismatch: '' @ nw_network_id r))
       else Inr \<lparr>nr_network_id = nw_network_id r, nr_subject_id = nw_subject_id r, nr_label = ni_label p,
              nr_chain_family = ni_chain_family p, nr_chain_id = ni_chain_id p, nr_native_symbol = ni_native_symbol p,
              nr_rpc_url = ni_rpc_url p, nr_status = nw_status r, nr_created_at = nw_created_at r,
              nr_revoked_at = nw_revoked_at r, nr_revoke_reason = nw_revoke_reason r\<rparr>)))"

record asset_record =
  sr_asset_id :: string
  sr_subject_id :: string
  sr_network_id :: string
  sr_asset_type :: string
  sr_contract_address :: "string option"
  sr_name :: string
  sr_symbol :: string
  sr_decimals :: int
  sr_status :: string
  sr_created_at :: string
  sr_revoked_at :: "string option"
  sr_revoke_reason :: "string option"

definition asset_row_input :: "asset_row \<Rightarrow> asset_input" where
  "asset_row_input r = \<lparr>ai_network_id = as_network_id r, ai_asset_type = as_asset_type r,
     ai_contract_address = as_contract_address r, ai_name = as_name r, ai_symbol = as_symbol r, ai_decimals = as_decimals r\<rparr>"

definition asset_from_row :: "env \<Rightarrow> asset_row \<Rightarrow> asset_record res" where
  "asset_from_row E r =
     res_bind (catch_value_error (IntegrityError (''wallet asset durable state is invalid: '' @ as_asset_id r))
         (validate_asset_input (asset_row_input r))) (\<lambda>p.
     res_bind (catch_value_error (IntegrityError (''wallet asset durable identity is invalid: '' @ as_asset_id r))
         (res_bind (store_identifier (as_asset_id r) ''asset identifier'') (\<lambda>_. validate_subject_id (as_subject_id r)))) (\<lambda>_.
     res_bind (lifecycle_values (asset_life r)) (\<lambda>_.
       if asset_row_input r \<noteq> p
       then Inl (IntegrityError (''wallet asset state is non-canonical: '' @ as_asset_id r))
       else if as_state_hash r \<noteq> asset_hash E r
       then Inl (IntegrityError (''wallet asset state hash mismatch: '' @ as_asset_id r))
       else Inr \<lparr>sr_asset_id = as_asset_id r, sr_subject_id = as_subject_id r, sr_network_id = ai_network_id p,
              sr_asset_type = ai_asset_type p, sr_contract_address = ai_contract_address p, sr_name = ai_name p,
              sr_symbol = ai_symbol p, sr_decimals = ai_decimals p, sr_status = as_status r, sr_created_at = as_created_at r,
              sr_revoked_at = as_revoked_at r, sr_revoke_reason = as_revoke_reason r\<rparr>)))"

record address_record =
  dr_address_id :: string
  dr_subject_id :: string
  dr_network_id :: string
  dr_label :: string
  dr_address :: string
  dr_purpose :: string
  dr_status :: string
  dr_created_at :: string
  dr_revoked_at :: "string option"
  dr_revoke_reason :: "string option"

definition address_row_input :: "address_row \<Rightarrow> address_input" where
  "address_row_input r = \<lparr>di_network_id = ad_network_id r, di_label = ad_label r, di_address = ad_address r,
     di_purpose = ad_purpose r\<rparr>"

definition address_from_row :: "env \<Rightarrow> address_row \<Rightarrow> address_record res" where
  "address_from_row E r =
     res_bind (catch_value_error (IntegrityError (''wallet address durable state is invalid: '' @ ad_address_id r))
         (validate_address_input (address_row_input r))) (\<lambda>p.
     res_bind (catch_value_error (IntegrityError (''wallet address durable identity is invalid: '' @ ad_address_id r))
         (res_bind (store_identifier (ad_address_id r) ''address identifier'') (\<lambda>_. validate_subject_id (ad_subject_id r)))) (\<lambda>_.
     res_bind (lifecycle_values (address_life r)) (\<lambda>_.
       if address_row_input r \<noteq> p
       then Inl (IntegrityError (''wallet address state is non-canonical: '' @ ad_address_id r))
       else if ad_state_hash r \<noteq> address_hash E r
       then Inl (IntegrityError (''wallet address state hash mismatch: '' @ ad_address_id r))
       else Inr \<lparr>dr_address_id = ad_address_id r, dr_subject_id = ad_subject_id r, dr_network_id = di_network_id p,
              dr_label = di_label p, dr_address = di_address p, dr_purpose = di_purpose p, dr_status = ad_status r,
              dr_created_at = ad_created_at r, dr_revoked_at = ad_revoked_at r, dr_revoke_reason = ad_revoke_reason r\<rparr>)))"

definition address_row_of :: "string \<Rightarrow> string \<Rightarrow> 'a wallet_db_scheme \<Rightarrow> address_row res" where
  "address_row_of address_id subject_id db =
     res_bind (store_identifier address_id ''address identifier'') (\<lambda>_.
       case fetchone (\<lambda>a. ad_address_id a = address_id \<and> ad_subject_id a = subject_id) (wallet_addresses db) of
         None \<Rightarrow> Inl (NotFoundError (''wallet address not found: '' @ address_id))
       | Some a \<Rightarrow> Inr a)"

definition get_network :: "env \<Rightarrow> url_library \<Rightarrow> string \<Rightarrow> string \<Rightarrow> 'a wallet_db_scheme \<Rightarrow> network_record res" where
  "get_network E U network_id subject_id db = res_bind (network_row_of network_id subject_id db) (network_from_row E U)"

definition get_asset :: "env \<Rightarrow> string \<Rightarrow> string \<Rightarrow> 'a wallet_db_scheme \<Rightarrow> asset_record res" where
  "get_asset E asset_id subject_id db = res_bind (asset_row_of asset_id subject_id db) (asset_from_row E)"

definition get_address :: "env \<Rightarrow> string \<Rightarrow> string \<Rightarrow> 'a wallet_db_scheme \<Rightarrow> address_record res" where
  "get_address E address_id subject_id db = res_bind (address_row_of address_id subject_id db) (address_from_row E)"

definition get_balance_snapshot :: "env \<Rightarrow> string \<Rightarrow> string \<Rightarrow> 'a wallet_db_scheme \<Rightarrow> snapshot_row res" where
  "get_balance_snapshot E snapshot_id subject_id db =
     res_bind (store_identifier snapshot_id ''balance snapshot identifier'') (\<lambda>_.
       case fetchone (\<lambda>s. bs_snapshot_id s = snapshot_id \<and> bs_subject_id s = subject_id) (wallet_balance_snapshots db) of
         None \<Rightarrow> Inl (NotFoundError (''wallet balance snapshot not found: '' @ snapshot_id))
       | Some s \<Rightarrow> balance_from_row E s)"

section \<open>Constraints\<close>

definition audited :: "string \<Rightarrow> string \<Rightarrow> string \<Rightarrow> 'a wallet_db_scheme \<Rightarrow> bool" where
  "audited audit_id subject_id action db =
     (\<exists>a\<in>set (audit_records db). au_audit_id a = audit_id \<and> au_subject_id a = subject_id \<and> au_action a = action)"

definition lifecycle_checks :: "lifecycle \<Rightarrow> bool" where
  "lifecycle_checks l =
     (lc_status l = ''active'' \<and> lc_revoked_at l = None \<and> lc_revoke_reason l = None \<and> lc_revoked_audit_id l = None
      \<or> lc_status l = ''revoked'' \<and> lc_revoked_at l \<noteq> None
        \<and> opt_ex (\<lambda>s. sql_trim s \<noteq> []) (lc_revoke_reason l) \<and> lc_revoked_audit_id l \<noteq> None)"

definition lifecycle_references :: "lifecycle \<Rightarrow> 'a wallet_db_scheme \<Rightarrow> bool" where
  "lifecycle_references l db =
     (lc_subject_id l \<in> set (subject_identity db)
      \<and> lc_created_audit_id l \<in> au_audit_id ` set (audit_records db)
      \<and> opt_all (\<lambda>a. a \<in> au_audit_id ` set (audit_records db)) (lc_revoked_audit_id l))"

text \<open>The transition triggers: a row is unchanged, or revoked under a revocation audit.\<close>

definition lifecycle_moves :: "resource \<Rightarrow> 'a wallet_db_scheme \<Rightarrow> lifecycle \<Rightarrow> string \<Rightarrow> lifecycle \<Rightarrow> string \<Rightarrow> bool" where
  "lifecycle_moves k db old old_hash new new_hash =
     (lc_status new = lc_status old \<and> new_hash = old_hash \<and> lc_revoked_at new = lc_revoked_at old
        \<and> lc_revoke_reason new = lc_revoke_reason old \<and> lc_revoked_audit_id new = lc_revoked_audit_id old
      \<or> lc_status old = ''active'' \<and> lc_status new = ''revoked'' \<and> new_hash \<noteq> old_hash \<and> lc_revoked_at new \<noteq> None
        \<and> lc_revoke_reason new \<noteq> None
        \<and> opt_ex (\<lambda>a. audited a (lc_subject_id new) (''wallet_'' @ resource_name k @ ''_revoked'') db) (lc_revoked_audit_id new))"

definition has_active_children :: "string \<Rightarrow> string \<Rightarrow> 'a wallet_db_scheme \<Rightarrow> bool" where
  "has_active_children subject_id network_id db =
     ((\<exists>a\<in>set (wallet_assets db). as_subject_id a = subject_id \<and> as_network_id a = network_id \<and> as_status a = ''active'')
      \<or> (\<exists>a\<in>set (wallet_addresses db). ad_subject_id a = subject_id \<and> ad_network_id a = network_id \<and> ad_status a = ''active''))"

definition network_trigger_allows :: "'a wallet_db_scheme \<Rightarrow> network_row \<Rightarrow> network_row \<Rightarrow> bool" where
  "network_trigger_allows db old new =
     (lifecycle_moves Network db (network_life old) (nw_state_hash old) (network_life new) (nw_state_hash new)
      \<and> (nw_status old = ''active'' \<and> nw_status new = ''revoked'' \<longrightarrow>
           \<not> has_active_children (nw_subject_id new) (nw_network_id new) db))"

definition network_checks :: "network_row \<Rightarrow> bool" where
  "network_checks r =
     (sql_trim (nw_label r) = nw_label r \<and> 1 \<le> length (nw_label r) \<and> length (nw_label r) \<le> 128
      \<and> nw_chain_family r = ''evm'' \<and> 1 \<le> nw_chain_id r \<and> symbol_pattern (nw_native_symbol r)
      \<and> opt_all (\<lambda>u. 1 \<le> length u \<and> length u \<le> 512) (nw_rpc_url r)
      \<and> valid_hash (nw_state_hash r) \<and> lifecycle_checks (network_life r))"

definition network_clash :: "network_row \<Rightarrow> network_row \<Rightarrow> bool" where
  "network_clash r x =
     (nw_network_id x = nw_network_id r \<or> nw_subject_id x = nw_subject_id r
        \<and> (nw_label x = nw_label r \<or> nw_chain_family x = nw_chain_family r \<and> nw_chain_id x = nw_chain_id r))"

definition insert_network :: "network_row \<Rightarrow> 'a wallet_db_scheme \<Rightarrow> ('a wallet_db_scheme) res" where
  "insert_network r db =
     (if \<not> audited (nw_created_audit_id r) (nw_subject_id r) ''wallet_network_registered'' db
      then Inl (SqliteIntegrityError ''wallet network creation audit mismatch'')
      else if \<exists>x\<in>set (wallet_networks db). network_clash r x then Inl (unique_error ''wallet_networks'')
      else if \<not> network_checks r then Inl (check_error ''wallet_networks'')
      else if \<not> lifecycle_references (network_life r) db then Inl foreign_key_error
      else Inr (db\<lparr>wallet_networks := wallet_networks db @ [r]\<rparr>))"

definition asset_checks :: "asset_row \<Rightarrow> bool" where
  "asset_checks r =
     (as_asset_type r \<in> set asset_types \<and> sql_trim (as_name r) = as_name r \<and> 1 \<le> length (as_name r) \<and> length (as_name r) \<le> 128
      \<and> symbol_pattern (as_symbol r) \<and> 0 \<le> as_decimals r \<and> as_decimals r \<le> 255 \<and> valid_hash (as_state_hash r)
      \<and> (as_asset_type r = ''native'' \<and> as_contract_address r = None
         \<or> as_asset_type r = ''token'' \<and> opt_ex (\<lambda>c. length c = 42 \<and> take 2 c = ''0x'' \<and> list_all hex_lower (drop 2 c)) (as_contract_address r))
      \<and> lifecycle_checks (asset_life r))"

text \<open>A unique constraint does not compare rows with a \<open>NULL\<close> contract; native assets have their own index.\<close>

definition asset_clash :: "asset_row \<Rightarrow> asset_row \<Rightarrow> bool" where
  "asset_clash r x =
     (as_asset_id x = as_asset_id r \<or> as_subject_id x = as_subject_id r \<and> as_network_id x = as_network_id r
        \<and> (as_contract_address r \<noteq> None \<and> as_contract_address x = as_contract_address r
           \<or> as_asset_type x = ''native'' \<and> as_asset_type r = ''native''))"

definition insert_asset :: "asset_row \<Rightarrow> 'a wallet_db_scheme \<Rightarrow> ('a wallet_db_scheme) res" where
  "insert_asset r db =
     (if \<not> audited (as_created_audit_id r) (as_subject_id r) ''wallet_asset_registered'' db
      then Inl (SqliteIntegrityError ''wallet asset creation audit mismatch'')
      else if \<exists>x\<in>set (wallet_assets db). asset_clash r x then Inl (unique_error ''wallet_assets'')
      else if \<not> asset_checks r then Inl (check_error ''wallet_assets'')
      else if \<not> lifecycle_references (asset_life r) db \<or> as_network_id r \<notin> nw_network_id ` set (wallet_networks db)
      then Inl foreign_key_error
      else Inr (db\<lparr>wallet_assets := wallet_assets db @ [r]\<rparr>))"

definition address_checks :: "address_row \<Rightarrow> bool" where
  "address_checks r =
     (sql_trim (ad_label r) = ad_label r \<and> 1 \<le> length (ad_label r) \<and> length (ad_label r) \<le> 128
      \<and> length (ad_address r) = 42 \<and> take 2 (ad_address r) = ''0x'' \<and> list_all hex_lower (drop 2 (ad_address r))
      \<and> ad_purpose r \<in> set address_purposes \<and> valid_hash (ad_state_hash r) \<and> lifecycle_checks (address_life r))"

text \<open>Since migration 63 a revoked address no longer reserves its label and address.\<close>

definition address_clash :: "address_row \<Rightarrow> address_row \<Rightarrow> bool" where
  "address_clash r x =
     (ad_address_id x = ad_address_id r \<or> ad_subject_id x = ad_subject_id r \<and> ad_network_id x = ad_network_id r
        \<and> ad_status x = ''active'' \<and> ad_status r = ''active'' \<and> (ad_label x = ad_label r \<or> ad_address x = ad_address r))"

definition insert_address :: "address_row \<Rightarrow> 'a wallet_db_scheme \<Rightarrow> ('a wallet_db_scheme) res" where
  "insert_address r db =
     (if \<not> audited (ad_created_audit_id r) (ad_subject_id r) ''wallet_address_registered'' db
      then Inl (SqliteIntegrityError ''wallet address creation audit mismatch'')
      else if \<exists>x\<in>set (wallet_addresses db). address_clash r x then Inl (unique_error ''wallet_addresses'')
      else if \<not> address_checks r then Inl (check_error ''wallet_addresses'')
      else if \<not> lifecycle_references (address_life r) db \<or> ad_network_id r \<notin> nw_network_id ` set (wallet_networks db)
      then Inl foreign_key_error
      else Inr (db\<lparr>wallet_addresses := wallet_addresses db @ [r]\<rparr>))"

definition revision_number_valid :: "revision_row \<Rightarrow> revision_row list \<Rightarrow> bool" where
  "revision_number_valid r t =
     (rv_revision_number r = next_revision (map rv_revision_number (filter (\<lambda>x. rv_resource_id x = rv_resource_id r) t))
      \<and> (rv_revision_number r = 1 \<longrightarrow> rv_status r = ''active'')
      \<and> (rv_revision_number r = 2 \<longrightarrow> rv_status r = ''revoked''
           \<and> (\<exists>x\<in>set t. rv_resource_id x = rv_resource_id r \<and> rv_revision_number x = 1 \<and> rv_status x = ''active'')))"

definition insert_revision_row :: "resource \<Rightarrow> revision_row \<Rightarrow> 'a registry_db_scheme \<Rightarrow> ('a registry_db_scheme) res" where
  "insert_revision_row k r db =
     (let table = ''wallet_'' @ resource_name k @ ''_revisions''
      in if \<not> (\<exists>l\<in>set (lives k db). lc_resource_id l = rv_resource_id r \<and> lc_subject_id l = rv_subject_id r
                 \<and> lc_status l = rv_status r)
            \<or> \<not> (rv_status r = ''active''
                   \<and> audited (rv_audit_id r) (rv_subject_id r) (''wallet_'' @ resource_name k @ ''_registered'') db
                 \<or> rv_status r = ''revoked''
                   \<and> audited (rv_audit_id r) (rv_subject_id r) (''wallet_'' @ resource_name k @ ''_revoked'') db)
            \<or> \<not> revision_number_valid r (revisions k db)
         then Inl (SqliteIntegrityError (''wallet '' @ resource_name k @ '' revision is invalid''))
         else if \<exists>x\<in>set (revisions k db). rv_revision_id x = rv_revision_id r
            \<or> rv_resource_id x = rv_resource_id r \<and> rv_revision_number x = rv_revision_number r
         then Inl (unique_error table)
         else if rv_revision_number r \<notin> {1, 2} \<or> rv_status r \<notin> {''active'', ''revoked''}
            \<or> \<not> trimmed_between 1 2000 (rv_reason r) \<or> \<not> valid_hash (rv_state_hash r)
         then Inl (check_error table)
         else if rv_subject_id r \<notin> set (subject_identity db) then Inl foreign_key_error
         else Inr (set_revisions k (revisions k db @ [r]) db))"

definition snapshot_checks :: "snapshot_row \<Rightarrow> bool" where
  "snapshot_checks r =
     (sql_amount (bs_balance r) \<and> source_pattern (bs_source r) \<and> valid_hash (bs_state_hash r))"

definition insert_snapshot :: "snapshot_row \<Rightarrow> 'a wallet_db_scheme \<Rightarrow> ('a wallet_db_scheme) res" where
  "insert_snapshot r db =
     (if \<not> ((\<exists>n\<in>set (wallet_networks db). nw_network_id n = bs_network_id r \<and> nw_subject_id n = bs_subject_id r)
            \<and> (\<exists>a\<in>set (wallet_assets db). as_asset_id a = bs_asset_id r \<and> as_subject_id a = bs_subject_id r
                 \<and> as_network_id a = bs_network_id r)
            \<and> (\<exists>d\<in>set (wallet_addresses db). ad_address_id d = bs_address_id r \<and> ad_subject_id d = bs_subject_id r
                 \<and> ad_network_id d = bs_network_id r))
      then Inl (SqliteIntegrityError ''wallet balance snapshot reference mismatch'')
      else if bs_snapshot_id r \<in> bs_snapshot_id ` set (wallet_balance_snapshots db)
      then Inl (unique_error ''wallet_balance_snapshots'')
      else if \<not> snapshot_checks r then Inl (check_error ''wallet_balance_snapshots'')
      else if bs_subject_id r \<notin> set (subject_identity db) then Inl foreign_key_error
      else Inr (db\<lparr>wallet_balance_snapshots := wallet_balance_snapshots db @ [r]\<rparr>))"

section \<open>Registration\<close>

definition require_operator :: "string \<Rightarrow> string \<Rightarrow> unit res" where
  "require_operator actor action =
     (if blank actor \<or> py_strip actor = ''subject'' then Inl (PermissionError (''only an operator can '' @ action)) else Inr ())"

definition revoke_reason_text :: "string \<Rightarrow> string res" where
  "revoke_reason_text value =
     (let reason = py_strip value
      in if reason = [] \<or> length reason > 2000 then Inl (ValueError ''wallet revoke reason is invalid'') else Inr reason)"

text \<open>\<open>except sqlite3.IntegrityError\<close>.\<close>

definition catch_sqlite :: "string \<Rightarrow> 'a res \<Rightarrow> 'a res" where
  "catch_sqlite message m = (case m of Inl (SqliteIntegrityError _) \<Rightarrow> Inl (ValueError message) | _ \<Rightarrow> m)"

definition new_revision ::
    "env \<Rightarrow> resource \<Rightarrow> string \<Rightarrow> string \<Rightarrow> string \<Rightarrow> int \<Rightarrow> string \<Rightarrow> string \<Rightarrow> string \<Rightarrow> string \<Rightarrow> revision_row" where
  "new_revision E k revision_id resource_id subject_id n status reason audit_id created_at =
     (let r = \<lparr>rv_revision_id = revision_id, rv_resource_id = resource_id, rv_subject_id = subject_id,
               rv_revision_number = n, rv_status = status, rv_reason = reason, rv_audit_id = audit_id,
               rv_state_hash = '''', rv_created_at = created_at\<rparr>
      in r\<lparr>rv_state_hash := revision_hash E k r\<rparr>)"

definition insert_revision ::
    "env \<Rightarrow> resource \<Rightarrow> string \<Rightarrow> string \<Rightarrow> int \<Rightarrow> string \<Rightarrow> string \<Rightarrow> string \<Rightarrow> string \<Rightarrow> 'a registry_db_scheme
      \<Rightarrow> ('a registry_db_scheme) res" where
  "insert_revision E k resource_id subject_id n status reason audit_id created_at db =
     (let (revision_id, db1) = new_id E (''wallet'' @ resource_name k @ ''rev'') db
      in insert_revision_row k (new_revision E k revision_id resource_id subject_id n status reason audit_id created_at) db1)"

definition new_network :: "env \<Rightarrow> string \<Rightarrow> string \<Rightarrow> network_input \<Rightarrow> string \<Rightarrow> string \<Rightarrow> network_row" where
  "new_network E network_id subject_id p audit_id now =
     (let r = \<lparr>nw_network_id = network_id, nw_subject_id = subject_id, nw_label = ni_label p,
               nw_chain_family = ni_chain_family p, nw_chain_id = ni_chain_id p, nw_native_symbol = ni_native_symbol p,
               nw_rpc_url = ni_rpc_url p, nw_status = ''active'', nw_state_hash = '''', nw_created_at = now,
               nw_revoked_at = None, nw_revoke_reason = None, nw_created_audit_id = audit_id, nw_revoked_audit_id = None\<rparr>
      in r\<lparr>nw_state_hash := network_hash E r\<rparr>)"

definition network_payload :: "network_row \<Rightarrow> (string \<times> json) list" where
  "network_payload r = [(''network_id'', JStr (nw_network_id r)), (''label'', JStr (nw_label r)),
     (''chain_family'', JStr (nw_chain_family r)), (''chain_id'', JInt (nw_chain_id r))]"

definition register_network_transaction ::
    "env \<Rightarrow> string \<Rightarrow> network_input \<Rightarrow> string \<Rightarrow> string \<Rightarrow> string \<Rightarrow> 'a registry_db_scheme \<Rightarrow> ('a registry_db_scheme) res" where
  "register_network_transaction E subject_id p actor network_id now db =
     (if \<exists>x\<in>set (wallet_networks db). nw_subject_id x = subject_id
           \<and> (nw_label x = ni_label p \<or> nw_chain_family x = ni_chain_family p \<and> nw_chain_id x = ni_chain_id p)
      then Inl (ValueError ''wallet network already registered'')
      else res_bind (wallet_audit E subject_id ''wallet_network_registered'' actor
             (network_payload (new_network E network_id subject_id p '''' now)) db) (\<lambda>(audit_id, db1).
           res_bind (insert_network (new_network E network_id subject_id p audit_id now) db1)
             (insert_revision E Network network_id subject_id 1 ''active'' ''operator registered wallet network'' audit_id now)))"

text \<open>The checks and readings before the transaction, which the three registrations share.\<close>

definition registering ::
    "env \<Rightarrow> string \<Rightarrow> string \<Rightarrow> string \<Rightarrow> string \<Rightarrow> 'a registry_db_scheme \<Rightarrow> (string \<times> string \<times> 'a registry_db_scheme) res" where
  "registering E pfx action subject_id actor db =
     res_bind (require_operator actor action) (\<lambda>_.
     res_bind (validate_subject_id subject_id) (\<lambda>_.
       let (i, db1) = new_id E pfx db; (now, db2) = utc_now E db1 in Inr (i, now, db2)))"

text \<open>Committing a transaction and reading the resource back.\<close>

definition committed :: "('d \<Rightarrow> 'r res) \<Rightarrow> 'd \<Rightarrow> 'd res \<Rightarrow> 'r res \<times> 'd" where
  "committed read db m = (case m of Inl e \<Rightarrow> (Inl e, db) | Inr db1 \<Rightarrow> (read db1, db1))"

definition register_network ::
    "env \<Rightarrow> url_library \<Rightarrow> string \<Rightarrow> network_input \<Rightarrow> string \<Rightarrow> 'a registry_db_scheme \<Rightarrow> network_record res \<times> 'a registry_db_scheme" where
  "register_network E U subject_id p actor db =
     (case registering E ''walletnet'' ''register a wallet network'' subject_id actor db of
        Inl e \<Rightarrow> (Inl e, db)
      | Inr (network_id, now, db1) \<Rightarrow>
          committed (get_network E U network_id subject_id) db
            (catch_sqlite ''wallet network registration conflicts with durable state''
              (register_network_transaction E subject_id p actor network_id now db1)))"

definition new_asset :: "env \<Rightarrow> string \<Rightarrow> string \<Rightarrow> asset_input \<Rightarrow> string \<Rightarrow> string \<Rightarrow> asset_row" where
  "new_asset E asset_id subject_id p audit_id now =
     (let r = \<lparr>as_asset_id = asset_id, as_subject_id = subject_id, as_network_id = ai_network_id p,
               as_asset_type = ai_asset_type p, as_contract_address = ai_contract_address p, as_name = ai_name p,
               as_symbol = ai_symbol p, as_decimals = ai_decimals p, as_status = ''active'', as_state_hash = '''',
               as_created_at = now, as_revoked_at = None, as_revoke_reason = None, as_created_audit_id = audit_id,
               as_revoked_audit_id = None\<rparr>
      in r\<lparr>as_state_hash := asset_hash E r\<rparr>)"

definition asset_payload :: "asset_row \<Rightarrow> (string \<times> json) list" where
  "asset_payload r = [(''asset_id'', JStr (as_asset_id r)), (''network_id'', JStr (as_network_id r)),
     (''asset_type'', JStr (as_asset_type r)), (''contract_address'', json_opt (as_contract_address r))]"

definition register_asset_transaction ::
    "env \<Rightarrow> url_library \<Rightarrow> string \<Rightarrow> asset_input \<Rightarrow> string \<Rightarrow> string \<Rightarrow> string \<Rightarrow> 'a registry_db_scheme \<Rightarrow> ('a registry_db_scheme) res" where
  "register_asset_transaction E U subject_id p actor asset_id now db =
     res_bind (network_row_of (ai_network_id p) subject_id db) (\<lambda>row.
     res_bind (network_from_row E U row) (\<lambda>network.
       if nr_status network \<noteq> ''active'' then Inl (ValueError ''wallet network is not active'')
       else if ai_asset_type p = ''native'' \<and> ai_symbol p \<noteq> nr_native_symbol network
       then Inl (ValueError ''native asset symbol must match the network native symbol'')
       else if \<exists>x\<in>set (wallet_assets db). as_subject_id x = subject_id \<and> as_network_id x = ai_network_id p
              \<and> (if ai_asset_type p = ''native'' then as_asset_type x = ''native''
                 else ai_contract_address p \<noteq> None \<and> as_contract_address x = ai_contract_address p)
       then Inl (ValueError ''wallet asset already registered'')
       else res_bind (wallet_audit E subject_id ''wallet_asset_registered'' actor
              (asset_payload (new_asset E asset_id subject_id p '''' now)) db) (\<lambda>(audit_id, db1).
            res_bind (insert_asset (new_asset E asset_id subject_id p audit_id now) db1)
              (insert_revision E Asset asset_id subject_id 1 ''active'' ''operator registered wallet asset'' audit_id now))))"

definition register_asset ::
    "env \<Rightarrow> url_library \<Rightarrow> string \<Rightarrow> asset_input \<Rightarrow> string \<Rightarrow> 'a registry_db_scheme \<Rightarrow> asset_record res \<times> 'a registry_db_scheme" where
  "register_asset E U subject_id p actor db =
     (case registering E ''walletasset'' ''register a wallet asset'' subject_id actor db of
        Inl e \<Rightarrow> (Inl e, db)
      | Inr (asset_id, now, db1) \<Rightarrow>
          committed (get_asset E asset_id subject_id) db
            (catch_sqlite ''wallet asset registration conflicts with durable state''
              (register_asset_transaction E U subject_id p actor asset_id now db1)))"

definition new_address :: "env \<Rightarrow> string \<Rightarrow> string \<Rightarrow> address_input \<Rightarrow> string \<Rightarrow> string \<Rightarrow> address_row" where
  "new_address E address_id subject_id p audit_id now =
     (let r = \<lparr>ad_address_id = address_id, ad_subject_id = subject_id, ad_network_id = di_network_id p,
               ad_label = di_label p, ad_address = di_address p, ad_purpose = di_purpose p, ad_status = ''active'',
               ad_state_hash = '''', ad_created_at = now, ad_revoked_at = None, ad_revoke_reason = None,
               ad_created_audit_id = audit_id, ad_revoked_audit_id = None\<rparr>
      in r\<lparr>ad_state_hash := address_hash E r\<rparr>)"

definition address_payload :: "address_row \<Rightarrow> (string \<times> json) list" where
  "address_payload r = [(''address_id'', JStr (ad_address_id r)), (''network_id'', JStr (ad_network_id r)),
     (''address'', JStr (ad_address r))]"

definition register_address_transaction ::
    "env \<Rightarrow> url_library \<Rightarrow> string \<Rightarrow> address_input \<Rightarrow> string \<Rightarrow> string \<Rightarrow> string \<Rightarrow> 'a registry_db_scheme \<Rightarrow> ('a registry_db_scheme) res" where
  "register_address_transaction E U subject_id p actor address_id now db =
     res_bind (network_row_of (di_network_id p) subject_id db) (\<lambda>row.
     res_bind (network_from_row E U row) (\<lambda>network.
       if nr_status network \<noteq> ''active'' then Inl (ValueError ''wallet network is not active'')
       else if \<exists>x\<in>set (wallet_addresses db). ad_subject_id x = subject_id \<and> ad_network_id x = di_network_id p
              \<and> ad_status x = ''active'' \<and> (ad_label x = di_label p \<or> ad_address x = di_address p)
       then Inl (ValueError ''wallet address already registered'')
       else res_bind (wallet_audit E subject_id ''wallet_address_registered'' actor
              (address_payload (new_address E address_id subject_id p '''' now)) db) (\<lambda>(audit_id, db1).
            res_bind (insert_address (new_address E address_id subject_id p audit_id now) db1)
              (insert_revision E Address address_id subject_id 1 ''active'' ''operator registered wallet address'' audit_id now))))"

definition register_address ::
    "env \<Rightarrow> url_library \<Rightarrow> string \<Rightarrow> address_input \<Rightarrow> string \<Rightarrow> 'a registry_db_scheme \<Rightarrow> address_record res \<times> 'a registry_db_scheme" where
  "register_address E U subject_id p actor db =
     (case registering E ''walletaddr'' ''register a wallet address'' subject_id actor db of
        Inl e \<Rightarrow> (Inl e, db)
      | Inr (address_id, now, db1) \<Rightarrow>
          committed (get_address E address_id subject_id) db
            (catch_sqlite ''wallet address registration conflicts with durable state''
              (register_address_transaction E U subject_id p actor address_id now db1)))"

section \<open>Revocation\<close>

definition revoked_network :: "env \<Rightarrow> string \<Rightarrow> string \<Rightarrow> string \<Rightarrow> network_row \<Rightarrow> network_row" where
  "revoked_network E now reason audit_id row =
     (let r = row\<lparr>nw_status := ''revoked'', nw_revoked_at := Some now, nw_revoke_reason := Some reason,
                  nw_revoked_audit_id := Some audit_id\<rparr>
      in r\<lparr>nw_state_hash := network_hash E r\<rparr>)"

definition update_network ::
    "env \<Rightarrow> network_row \<Rightarrow> string \<Rightarrow> string \<Rightarrow> string \<Rightarrow> 'a registry_db_scheme \<Rightarrow> ('a registry_db_scheme) res" where
  "update_network E row now reason audit_id db =
     (let new = revoked_network E now reason audit_id row
      in if \<not> network_checks new then Inl (check_error ''wallet_networks'')
         else res_bind (update_guarded (network_trigger_allows db) ''wallet network transition is invalid''
              (\<lambda>r. nw_network_id r = nw_network_id row \<and> nw_subject_id r = nw_subject_id row)
              (\<lambda>r. r\<lparr>nw_status := ''revoked'', nw_state_hash := nw_state_hash new, nw_revoked_at := Some now,
                     nw_revoke_reason := Some reason, nw_revoked_audit_id := Some audit_id\<rparr>) (wallet_networks db))
           (\<lambda>t. Inr (db\<lparr>wallet_networks := t\<rparr>)))"

definition revoke_network ::
    "env \<Rightarrow> url_library \<Rightarrow> string \<Rightarrow> string \<Rightarrow> string \<Rightarrow> string \<Rightarrow> 'a registry_db_scheme
      \<Rightarrow> network_record res \<times> 'a registry_db_scheme" where
  "revoke_network E U network_id reason actor subject_id db =
     (case res_bind (require_operator actor ''revoke a wallet network'') (\<lambda>_.
           res_bind (revoke_reason_text reason) (\<lambda>reason.
           res_bind (validate_subject_id subject_id) (\<lambda>_.
           res_bind (network_row_of network_id subject_id db) (\<lambda>row.
           res_bind (network_from_row E U row) (\<lambda>r. Inr (reason, row, r)))))) of
        Inl e \<Rightarrow> (Inl e, db)
      | Inr (reason, row, r) \<Rightarrow>
          if nr_status r = ''revoked'' then (Inr r, db)
          else if has_active_children subject_id network_id db
          then (Inl (ValueError ''wallet network has active asset or address registrations''), db)
          else committed (get_network E U network_id subject_id) db
            (let (now, db1) = utc_now E db
             in res_bind (wallet_audit E subject_id ''wallet_network_revoked'' actor
                  [(''network_id'', JStr network_id), (''reason'', JStr reason)] db1) (\<lambda>(audit_id, db2).
                res_bind (update_network E row now reason audit_id db2)
                  (insert_revision E Network network_id subject_id 2 ''revoked'' reason audit_id now))))"

definition revoked_asset :: "env \<Rightarrow> string \<Rightarrow> string \<Rightarrow> string \<Rightarrow> asset_row \<Rightarrow> asset_row" where
  "revoked_asset E now reason audit_id row =
     (let r = row\<lparr>as_status := ''revoked'', as_revoked_at := Some now, as_revoke_reason := Some reason,
                  as_revoked_audit_id := Some audit_id\<rparr>
      in r\<lparr>as_state_hash := asset_hash E r\<rparr>)"

definition update_asset ::
    "env \<Rightarrow> asset_row \<Rightarrow> string \<Rightarrow> string \<Rightarrow> string \<Rightarrow> 'a registry_db_scheme \<Rightarrow> ('a registry_db_scheme) res" where
  "update_asset E row now reason audit_id db =
     (let new = revoked_asset E now reason audit_id row
      in if \<not> asset_checks new then Inl (check_error ''wallet_assets'')
         else res_bind (update_guarded
              (\<lambda>x y. lifecycle_moves Asset db (asset_life x) (as_state_hash x) (asset_life y) (as_state_hash y))
              ''wallet asset transition is invalid''
              (\<lambda>r. as_asset_id r = as_asset_id row \<and> as_subject_id r = as_subject_id row)
              (\<lambda>r. r\<lparr>as_status := ''revoked'', as_state_hash := as_state_hash new, as_revoked_at := Some now,
                     as_revoke_reason := Some reason, as_revoked_audit_id := Some audit_id\<rparr>) (wallet_assets db))
           (\<lambda>t. Inr (db\<lparr>wallet_assets := t\<rparr>)))"

definition revoke_asset ::
    "env \<Rightarrow> string \<Rightarrow> string \<Rightarrow> string \<Rightarrow> string \<Rightarrow> 'a registry_db_scheme \<Rightarrow> asset_record res \<times> 'a registry_db_scheme" where
  "revoke_asset E asset_id reason actor subject_id db =
     (case res_bind (require_operator actor ''revoke a wallet asset'') (\<lambda>_.
           res_bind (revoke_reason_text reason) (\<lambda>reason.
           res_bind (validate_subject_id subject_id) (\<lambda>_.
           res_bind (asset_row_of asset_id subject_id db) (\<lambda>row.
           res_bind (asset_from_row E row) (\<lambda>r. Inr (reason, row, r)))))) of
        Inl e \<Rightarrow> (Inl e, db)
      | Inr (reason, row, r) \<Rightarrow>
          if sr_status r = ''revoked'' then (Inr r, db)
          else committed (get_asset E asset_id subject_id) db
            (let (now, db1) = utc_now E db
             in res_bind (wallet_audit E subject_id ''wallet_asset_revoked'' actor
                  [(''asset_id'', JStr asset_id), (''reason'', JStr reason)] db1) (\<lambda>(audit_id, db2).
                res_bind (update_asset E row now reason audit_id db2)
                  (insert_revision E Asset asset_id subject_id 2 ''revoked'' reason audit_id now))))"

definition revoked_address :: "env \<Rightarrow> string \<Rightarrow> string \<Rightarrow> string \<Rightarrow> address_row \<Rightarrow> address_row" where
  "revoked_address E now reason audit_id row =
     (let r = row\<lparr>ad_status := ''revoked'', ad_revoked_at := Some now, ad_revoke_reason := Some reason,
                  ad_revoked_audit_id := Some audit_id\<rparr>
      in r\<lparr>ad_state_hash := address_hash E r\<rparr>)"

definition update_address ::
    "env \<Rightarrow> address_row \<Rightarrow> string \<Rightarrow> string \<Rightarrow> string \<Rightarrow> 'a registry_db_scheme \<Rightarrow> ('a registry_db_scheme) res" where
  "update_address E row now reason audit_id db =
     (let new = revoked_address E now reason audit_id row
      in if \<not> address_checks new then Inl (check_error ''wallet_addresses'')
         else res_bind (update_guarded
              (\<lambda>x y. lifecycle_moves Address db (address_life x) (ad_state_hash x) (address_life y) (ad_state_hash y))
              ''wallet address transition is invalid''
              (\<lambda>r. ad_address_id r = ad_address_id row \<and> ad_subject_id r = ad_subject_id row)
              (\<lambda>r. r\<lparr>ad_status := ''revoked'', ad_state_hash := ad_state_hash new, ad_revoked_at := Some now,
                     ad_revoke_reason := Some reason, ad_revoked_audit_id := Some audit_id\<rparr>) (wallet_addresses db))
           (\<lambda>t. Inr (db\<lparr>wallet_addresses := t\<rparr>)))"

definition revoke_address ::
    "env \<Rightarrow> string \<Rightarrow> string \<Rightarrow> string \<Rightarrow> string \<Rightarrow> 'a registry_db_scheme \<Rightarrow> address_record res \<times> 'a registry_db_scheme" where
  "revoke_address E address_id reason actor subject_id db =
     (case res_bind (require_operator actor ''revoke a wallet address'') (\<lambda>_.
           res_bind (revoke_reason_text reason) (\<lambda>reason.
           res_bind (validate_subject_id subject_id) (\<lambda>_.
           res_bind (address_row_of address_id subject_id db) (\<lambda>row.
           res_bind (address_from_row E row) (\<lambda>r. Inr (reason, row, r)))))) of
        Inl e \<Rightarrow> (Inl e, db)
      | Inr (reason, row, r) \<Rightarrow>
          if dr_status r = ''revoked'' then (Inr r, db)
          else committed (get_address E address_id subject_id) db
            (let (now, db1) = utc_now E db
             in res_bind (wallet_audit E subject_id ''wallet_address_revoked'' actor
                  [(''address_id'', JStr address_id), (''reason'', JStr reason)] db1) (\<lambda>(audit_id, db2).
                res_bind (update_address E row now reason audit_id db2)
                  (insert_revision E Address address_id subject_id 2 ''revoked'' reason audit_id now))))"

section \<open>Observed balances\<close>

definition new_snapshot :: "env \<Rightarrow> string \<Rightarrow> string \<Rightarrow> string \<Rightarrow> balance_input \<Rightarrow> string \<Rightarrow> string \<Rightarrow> snapshot_row" where
  "new_snapshot E snapshot_id subject_id network_id p observed_at created_at =
     (let r = \<lparr>bs_snapshot_id = snapshot_id, bs_subject_id = subject_id, bs_network_id = network_id,
               bs_asset_id = oi_asset_id p, bs_address_id = oi_address_id p, bs_balance = oi_balance p,
               bs_source = oi_source p, bs_observed_at = observed_at, bs_created_at = created_at, bs_state_hash = ''''\<rparr>
      in r\<lparr>bs_state_hash := balance_hash E r\<rparr>)"

definition creation_time :: "string \<Rightarrow> unit res" where
  "creation_time t =
     catch_value_error (ValueError ''wallet snapshot creation time is invalid'')
       (res_bind (canonical_timestamp t) (\<lambda>c.
          if c \<noteq> t then Inl (ValueError ''wallet snapshot creation time is not canonical'') else Inr ()))"

text \<open>\<open>snapshot_id or new_id(...)\<close> and \<open>created_at or utc_now()\<close>; an empty text counts as absent.\<close>

definition drawn_id :: "env \<Rightarrow> string option \<Rightarrow> 'a wallet_db_scheme \<Rightarrow> string \<times> 'a wallet_db_scheme" where
  "drawn_id E v db = (case v of Some s \<Rightarrow> if s = [] then new_id E ''walletbal'' db else (s, db) | None \<Rightarrow> new_id E ''walletbal'' db)"

definition drawn_time :: "env \<Rightarrow> string option \<Rightarrow> 'a wallet_db_scheme \<Rightarrow> string \<times> 'a wallet_db_scheme" where
  "drawn_time E v db = (case v of Some t \<Rightarrow> if t = [] then utc_now E db else (t, db) | None \<Rightarrow> utc_now E db)"

text \<open>The active asset, address and network an observation is about; the network's identifier.\<close>

definition observed_network ::
    "env \<Rightarrow> url_library \<Rightarrow> string \<Rightarrow> balance_input \<Rightarrow> 'a wallet_db_scheme \<Rightarrow> string res" where
  "observed_network E U subject_id p db =
     res_bind (asset_row_of (oi_asset_id p) subject_id db) (\<lambda>arow.
     res_bind (address_row_of (oi_address_id p) subject_id db) (\<lambda>drow.
     res_bind (asset_from_row E arow) (\<lambda>asset.
     res_bind (address_from_row E drow) (\<lambda>address.
       if sr_status asset \<noteq> ''active'' \<or> dr_status address \<noteq> ''active'' \<or> sr_network_id asset \<noteq> dr_network_id address
       then Inl (ValueError ''wallet balance references are not active on one network'')
       else res_bind (network_row_of (sr_network_id asset) subject_id db) (\<lambda>nrow.
            res_bind (network_from_row E U nrow) (\<lambda>network.
              if nr_status network \<noteq> ''active'' then Inl (ValueError ''wallet network is not active'')
              else Inr (sr_network_id asset)))))))"

definition record_balance_snapshot_connection ::
    "env \<Rightarrow> url_library \<Rightarrow> string \<Rightarrow> balance_input \<Rightarrow> string \<Rightarrow> string option \<Rightarrow> string option \<Rightarrow> 'a wallet_db_scheme
      \<Rightarrow> (snapshot_row \<times> 'a wallet_db_scheme) res" where
  "record_balance_snapshot_connection E U subject_id p actor snapshot_id created_at db =
     res_bind (require_operator actor ''record a wallet balance observation'') (\<lambda>_.
     res_bind (validate_subject_id subject_id) (\<lambda>_.
       let (sid, db1) = drawn_id E snapshot_id db
       in res_bind (store_identifier sid ''balance snapshot identifier'') (\<lambda>_.
          let (created, db2) = drawn_time E created_at db1
          in res_bind (creation_time created) (\<lambda>_.
             res_bind (observed_network E U subject_id p db2) (\<lambda>network_id.
               let observed = (case oi_observed_at p of None \<Rightarrow> created | Some t \<Rightarrow> if t = [] then created else t)
               in res_bind (insert_snapshot (new_snapshot E sid subject_id network_id p observed created) db2) (\<lambda>db3.
                  case fetchone (\<lambda>s. bs_snapshot_id s = sid \<and> bs_subject_id s = subject_id) (wallet_balance_snapshots db3) of
                    None \<Rightarrow> Inl (IntegrityError ''wallet balance snapshot disappeared after insertion'')
                  | Some row \<Rightarrow> res_bind (balance_from_row E row) (\<lambda>r. Inr (r, db3))))))))"

definition record_balance_snapshot ::
    "env \<Rightarrow> url_library \<Rightarrow> string \<Rightarrow> balance_input \<Rightarrow> string \<Rightarrow> 'a wallet_db_scheme \<Rightarrow> (snapshot_row \<times> 'a wallet_db_scheme) res" where
  "record_balance_snapshot E U subject_id p actor db =
     res_bind (require_operator actor ''record a wallet balance observation'') (\<lambda>_.
     res_bind (validate_subject_id subject_id) (\<lambda>_.
       let (snapshot_id, db1) = new_id E ''walletbal'' db; (created_at, db2) = utc_now E db1
       in catch_sqlite ''wallet balance snapshot conflicts with durable state''
            (record_balance_snapshot_connection E U subject_id p actor (Some snapshot_id) (Some created_at) db2)))"

section \<open>Listings\<close>

definition list_limit :: "int \<Rightarrow> nat res" where
  "list_limit n = (if 1 \<le> n \<and> n \<le> 1000 then Inr (nat n) else Inl (ValueError ''wallet list limit is invalid''))"

definition optional_identifier :: "string option \<Rightarrow> string \<Rightarrow> unit res" where
  "optional_identifier v field = (case v of None \<Rightarrow> Inr () | Some i \<Rightarrow> store_identifier i field)"

definition list_networks :: "env \<Rightarrow> url_library \<Rightarrow> string \<Rightarrow> bool \<Rightarrow> int \<Rightarrow> 'a wallet_db_scheme \<Rightarrow> network_record list res" where
  "list_networks E U subject_id include_revoked limit db =
     res_bind (validate_subject_id subject_id) (\<lambda>_.
     res_bind (list_limit limit) (\<lambda>n.
       res_map (network_from_row E U) (take n (rev (fetchall_by
         (\<lambda>r. nw_subject_id r = subject_id \<and> (include_revoked \<or> nw_status r = ''active''))
         (\<lambda>r. (nw_created_at r, nw_network_id r)) (wallet_networks db))))))"

definition list_assets ::
    "env \<Rightarrow> string \<Rightarrow> string option \<Rightarrow> bool \<Rightarrow> int \<Rightarrow> 'a wallet_db_scheme \<Rightarrow> asset_record list res" where
  "list_assets E subject_id network_id include_revoked limit db =
     res_bind (validate_subject_id subject_id) (\<lambda>_.
     res_bind (optional_identifier network_id ''network identifier'') (\<lambda>_.
     res_bind (list_limit limit) (\<lambda>n.
       res_map (asset_from_row E) (take n (rev (fetchall_by
         (\<lambda>r. as_subject_id r = subject_id \<and> opt_all (\<lambda>i. as_network_id r = i) network_id
              \<and> (include_revoked \<or> as_status r = ''active''))
         (\<lambda>r. (as_created_at r, as_asset_id r)) (wallet_assets db)))))))"

definition list_addresses ::
    "env \<Rightarrow> string \<Rightarrow> string option \<Rightarrow> bool \<Rightarrow> int \<Rightarrow> 'a wallet_db_scheme \<Rightarrow> address_record list res" where
  "list_addresses E subject_id network_id include_revoked limit db =
     res_bind (validate_subject_id subject_id) (\<lambda>_.
     res_bind (optional_identifier network_id ''network identifier'') (\<lambda>_.
     res_bind (list_limit limit) (\<lambda>n.
       res_map (address_from_row E) (take n (rev (fetchall_by
         (\<lambda>r. ad_subject_id r = subject_id \<and> opt_all (\<lambda>i. ad_network_id r = i) network_id
              \<and> (include_revoked \<or> ad_status r = ''active''))
         (\<lambda>r. (ad_created_at r, ad_address_id r)) (wallet_addresses db)))))))"

section \<open>Integrity\<close>

text \<open>
  The payload of an audit record is compared with the expected one as JSON values.
\<close>

definition verify_audit ::
    "string option \<Rightarrow> string \<Rightarrow> string \<Rightarrow> (string \<times> json) list \<Rightarrow> 'a wallet_db_scheme \<Rightarrow> unit res" where
  "verify_audit audit_id subject_id action expected db =
     (case audit_id of
        None \<Rightarrow> Inl (IntegrityError ''wallet lifecycle audit identifier is invalid'')
      | Some aid \<Rightarrow>
          if aid = [] then Inl (IntegrityError ''wallet lifecycle audit identifier is invalid'')
          else (case fetchone (\<lambda>a. au_audit_id a = aid) (audit_records db) of
              None \<Rightarrow> Inl (IntegrityError (''wallet lifecycle audit is invalid: '' @ aid))
            | Some a \<Rightarrow>
                if au_subject_id a \<noteq> subject_id \<or> au_action a \<noteq> action \<or> blank (au_actor a)
                   \<or> py_strip (au_actor a) = ''subject'' \<or> \<not> timestamp_valid (au_occurred_at a)
                then Inl (IntegrityError (''wallet lifecycle audit is invalid: '' @ aid))
                else res_bind (res_wrap (IntegrityError (''wallet lifecycle audit payload is invalid: '' @ aid))
                    (strict_json_loads (au_payload_json a))) (\<lambda>payload.
                  if json_norm payload \<noteq> json_norm (JObj expected) \<or> canonical_json payload \<noteq> au_payload_json a
                  then Inl (IntegrityError (''wallet lifecycle audit payload mismatch: '' @ aid))
                  else Inr ())))"

definition verify_resource_audits ::
    "resource \<Rightarrow> lifecycle \<Rightarrow> (string \<times> json) list \<Rightarrow> 'a wallet_db_scheme \<Rightarrow> unit res" where
  "verify_resource_audits k l payload db =
     res_bind (verify_audit (Some (lc_created_audit_id l)) (lc_subject_id l)
         (''wallet_'' @ resource_name k @ ''_registered'') payload db) (\<lambda>_.
       if lc_status l = ''revoked''
       then verify_audit (lc_revoked_audit_id l) (lc_subject_id l) (''wallet_'' @ resource_name k @ ''_revoked'')
              [(id_field k, JStr (lc_resource_id l)), (''reason'', json_opt (lc_revoke_reason l))] db
       else Inr ())"

definition expected_revisions :: "lifecycle \<Rightarrow> nat" where
  "expected_revisions l = (if lc_status l = ''active'' then 1 else 2)"

text \<open>The loop of \<open>_verify_revisions\<close> keeps the resource it is at, its revisions so far and the resources it finished.\<close>

type_synonym revision_scan = "string option \<times> nat \<times> string list"

definition finish_revisions ::
    "resource \<Rightarrow> (string \<times> lifecycle) list \<Rightarrow> string option \<Rightarrow> nat \<Rightarrow> string list \<Rightarrow> string list res" where
  "finish_revisions k resources current count finished =
     (case current of
        None \<Rightarrow> Inr finished
      | Some i \<Rightarrow>
          (case map_of resources i of
             None \<Rightarrow> Inl (KeyError i)
           | Some l \<Rightarrow>
               if count \<noteq> expected_revisions l
               then Inl (IntegrityError (''wallet '' @ resource_name k @ '' revision history mismatch: '' @ i))
               else Inr (finished @ [i])))"

definition revision_invalid :: "revision_row \<Rightarrow> nat \<Rightarrow> lifecycle \<Rightarrow> bool" where
  "revision_invalid r position l =
     (rv_revision_number r \<noteq> int position \<or> position > expected_revisions l
      \<or> rv_status r \<noteq> (if position = 1 then ''active'' else ''revoked'') \<or> blank (rv_reason r)
      \<or> \<not> timestamp_valid (rv_created_at r) \<or> rv_audit_id r = [] \<or> rv_revision_id r = [])"

definition revision_mismatch :: "resource \<Rightarrow> revision_row \<Rightarrow> nat \<Rightarrow> lifecycle \<Rightarrow> string option" where
  "revision_mismatch k r position l =
     (if position = 1
      then if rv_created_at r \<noteq> lc_created_at l \<or> rv_reason r \<noteq> ''operator registered wallet '' @ resource_name k
              \<or> rv_audit_id r \<noteq> lc_created_audit_id l then Some ''creation'' else None
      else if Some (rv_created_at r) \<noteq> lc_revoked_at l \<or> Some (rv_reason r) \<noteq> lc_revoke_reason l
              \<or> Some (rv_audit_id r) \<noteq> lc_revoked_audit_id l then Some ''revoke'' else None)"

definition verify_revision ::
    "env \<Rightarrow> resource \<Rightarrow> string \<Rightarrow> (string \<times> lifecycle) list \<Rightarrow> lifecycle list \<Rightarrow> revision_row \<Rightarrow> revision_scan
      \<Rightarrow> revision_scan res" where
  "verify_revision E k subject_id resources parents r scan =
     (case scan of (current, count, finished) \<Rightarrow>
      let i = rv_resource_id r
      in if i = [] \<or> rv_subject_id r \<noteq> subject_id
            \<or> map_option lc_subject_id (fetchone (\<lambda>l. lc_resource_id l = i) parents) \<noteq> Some subject_id
            \<or> i \<notin> fst ` set resources
         then Inl (IntegrityError (''wallet '' @ resource_name k @ '' revision ownership mismatch''))
         else
           res_bind (if current \<noteq> Some i
              then res_bind (finish_revisions k resources current count finished) (\<lambda>f. Inr (0, f))
              else Inr (count, finished)) (\<lambda>(n, f).
           case map_of resources i of
             None \<Rightarrow> Inl (KeyError i)
           | Some l \<Rightarrow>
               let position = Suc n
               in if revision_invalid r position l
                  then Inl (IntegrityError (''wallet '' @ resource_name k @ '' revision is invalid: '' @ i))
                  else if rv_state_hash r \<noteq> revision_hash E k r
                  then Inl (IntegrityError (''wallet '' @ resource_name k @ '' revision hash mismatch: '' @ i))
                  else (case revision_mismatch k r position l of
                      Some m \<Rightarrow> Inl (IntegrityError (''wallet '' @ resource_name k @ '' '' @ m @ '' revision mismatch: '' @ i))
                    | None \<Rightarrow> Inr (Some i, position, f))))"

definition verify_revisions ::
    "env \<Rightarrow> resource \<Rightarrow> string \<Rightarrow> (string \<times> lifecycle) list \<Rightarrow> 'a registry_db_scheme \<Rightarrow> unit res" where
  "verify_revisions E k subject_id resources db =
     res_bind (res_fold (verify_revision E k subject_id resources (lives k db))
         (fetchall_by (\<lambda>r. rv_subject_id r = subject_id
              \<or> map_option lc_subject_id (fetchone (\<lambda>l. lc_resource_id l = rv_resource_id r) (lives k db)) = Some subject_id)
            (\<lambda>r. (rv_resource_id r, rv_revision_number r, rv_revision_id r)) (revisions k db)) (None, 0, []))
       (\<lambda>(current, count, finished).
     res_bind (finish_revisions k resources current count finished) (\<lambda>finished.
       res_all (\<lambda>(i, l). if i \<notin> set finished
           then Inl (IntegrityError (''wallet '' @ resource_name k @ '' revision history mismatch: '' @ i)) else Inr ())
         resources))"

definition network_of :: "string \<Rightarrow> 'a wallet_db_scheme \<Rightarrow> network_row option" where
  "network_of network_id db = fetchone (\<lambda>n. nw_network_id n = network_id) (wallet_networks db)"

definition verify_network_row ::
    "env \<Rightarrow> url_library \<Rightarrow> 'a wallet_db_scheme \<Rightarrow> network_row \<Rightarrow> network_record list \<Rightarrow> network_record list res" where
  "verify_network_row E U db row networks =
     res_bind (network_from_row E U row) (\<lambda>r.
     res_bind (verify_resource_audits Network (network_life row) (network_payload row) db) (\<lambda>_.
       Inr (networks @ [r])))"

definition verify_asset_row ::
    "env \<Rightarrow> string \<Rightarrow> network_record list \<Rightarrow> 'a wallet_db_scheme \<Rightarrow> asset_row \<Rightarrow> (string \<times> lifecycle) list
      \<Rightarrow> (string \<times> lifecycle) list res" where
  "verify_asset_row E subject_id networks db row assets =
     res_bind (asset_from_row E row) (\<lambda>r.
       if as_subject_id row \<noteq> subject_id \<or> map_option nw_subject_id (network_of (as_network_id row) db) \<noteq> Some subject_id
       then Inl (IntegrityError (''wallet asset ownership mismatch: '' @ sr_asset_id r))
       else (case fetchone (\<lambda>n. nr_network_id n = sr_network_id r) networks of
           None \<Rightarrow> Inl (IntegrityError (''wallet asset network is missing: '' @ sr_asset_id r))
         | Some n \<Rightarrow>
             if sr_asset_type r = ''native'' \<and> sr_symbol r \<noteq> nr_native_symbol n
             then Inl (IntegrityError (''wallet native asset symbol mismatch: '' @ sr_asset_id r))
             else if sr_status r = ''active'' \<and> nr_status n \<noteq> ''active''
             then Inl (IntegrityError (''active wallet asset has revoked network: '' @ sr_asset_id r))
             else res_bind (verify_resource_audits Asset (asset_life row) (asset_payload row) db) (\<lambda>_.
               Inr (assets @ [(sr_asset_id r, asset_life row)]))))"

definition verify_address_row ::
    "env \<Rightarrow> string \<Rightarrow> network_record list \<Rightarrow> 'a wallet_db_scheme \<Rightarrow> address_row \<Rightarrow> (string \<times> lifecycle) list
      \<Rightarrow> (string \<times> lifecycle) list res" where
  "verify_address_row E subject_id networks db row addresses =
     res_bind (address_from_row E row) (\<lambda>r.
       if ad_subject_id row \<noteq> subject_id \<or> map_option nw_subject_id (network_of (ad_network_id row) db) \<noteq> Some subject_id
       then Inl (IntegrityError (''wallet address ownership mismatch: '' @ dr_address_id r))
       else (case fetchone (\<lambda>n. nr_network_id n = dr_network_id r) networks of
           None \<Rightarrow> Inl (IntegrityError (''wallet address network is missing: '' @ dr_address_id r))
         | Some n \<Rightarrow>
             if dr_status r = ''active'' \<and> nr_status n \<noteq> ''active''
             then Inl (IntegrityError (''active wallet address has revoked network: '' @ dr_address_id r))
             else res_bind (verify_resource_audits Address (address_life row) (address_payload row) db) (\<lambda>_.
               Inr (addresses @ [(dr_address_id r, address_life row)]))))"

text \<open>The subjects of the network, the asset and the address of a snapshot, as its query joins them.\<close>

definition snapshot_owners :: "snapshot_row \<Rightarrow> 'a wallet_db_scheme \<Rightarrow> string option list" where
  "snapshot_owners s db =
     [map_option nw_subject_id (network_of (bs_network_id s) db),
      map_option as_subject_id (fetchone (\<lambda>a. as_asset_id a = bs_asset_id s) (wallet_assets db)),
      map_option ad_subject_id (fetchone (\<lambda>d. ad_address_id d = bs_address_id s) (wallet_addresses db))]"

definition verify_snapshot_row ::
    "env \<Rightarrow> string \<Rightarrow> string list \<Rightarrow> string list \<Rightarrow> string list \<Rightarrow> 'a wallet_db_scheme \<Rightarrow> snapshot_row \<Rightarrow> nat \<Rightarrow> nat res" where
  "verify_snapshot_row E subject_id networks assets addresses db row count =
     res_bind (balance_from_row E row) (\<lambda>r.
       if bs_subject_id row \<noteq> subject_id \<or> list_ex (\<lambda>x. x \<noteq> Some subject_id) (snapshot_owners row db)
       then Inl (IntegrityError (''wallet balance ownership mismatch: '' @ bs_snapshot_id r))
       else if bs_network_id r \<notin> set networks \<or> bs_asset_id r \<notin> set assets \<or> bs_address_id r \<notin> set addresses
          \<or> map_option as_network_id (fetchone (\<lambda>a. as_asset_id a = bs_asset_id row) (wallet_assets db)) \<noteq> Some (bs_network_id r)
          \<or> map_option ad_network_id (fetchone (\<lambda>d. ad_address_id d = bs_address_id row) (wallet_addresses db)) \<noteq> Some (bs_network_id r)
       then Inl (IntegrityError (''wallet balance reference mismatch: '' @ bs_snapshot_id r))
       else Inr (Suc count))"

definition revision_count :: "lifecycle list \<Rightarrow> nat" where
  "revision_count ls = sum_list (map expected_revisions ls)"

record registry_summary =
  rs_networks :: nat
  rs_network_revisions :: nat
  rs_assets :: nat
  rs_asset_revisions :: nat
  rs_addresses :: nat
  rs_address_revisions :: nat
  rs_snapshots :: nat

text \<open>The read transaction of \<open>verify_integrity\<close>.\<close>

definition verify_registry_tables ::
    "env \<Rightarrow> url_library \<Rightarrow> string \<Rightarrow> 'a registry_db_scheme \<Rightarrow> registry_summary res" where
  "verify_registry_tables E U subject_id db =
     res_bind (validate_subject_id subject_id) (\<lambda>_.
     let network_rows = fetchall_by (\<lambda>r. nw_subject_id r = subject_id) (\<lambda>r. (nw_created_at r, nw_network_id r)) (wallet_networks db);
         owned = (\<lambda>i. map_option nw_subject_id (network_of i db) = Some subject_id)
     in res_bind (res_fold (verify_network_row E U db) network_rows []) (\<lambda>networks.
        let network_lives = map (\<lambda>r. (nw_network_id r, network_life r)) network_rows
        in res_bind (verify_revisions E Network subject_id network_lives db) (\<lambda>_.
        res_bind (res_fold (verify_asset_row E subject_id networks db)
            (fetchall_by (\<lambda>r. as_subject_id r = subject_id \<or> owned (as_network_id r))
               (\<lambda>r. (as_created_at r, as_asset_id r)) (wallet_assets db)) []) (\<lambda>assets.
        res_bind (verify_revisions E Asset subject_id assets db) (\<lambda>_.
        res_bind (res_fold (verify_address_row E subject_id networks db)
            (fetchall_by (\<lambda>r. ad_subject_id r = subject_id \<or> owned (ad_network_id r))
               (\<lambda>r. (ad_created_at r, ad_address_id r)) (wallet_addresses db)) []) (\<lambda>addresses.
        res_bind (verify_revisions E Address subject_id addresses db) (\<lambda>_.
        res_bind (res_fold (verify_snapshot_row E subject_id (map nr_network_id networks) (map fst assets) (map fst addresses) db)
            (fetchall_by (\<lambda>s. bs_subject_id s = subject_id \<or> Some subject_id \<in> set (snapshot_owners s db))
               (\<lambda>s. (bs_observed_at s, bs_snapshot_id s)) (wallet_balance_snapshots db)) 0) (\<lambda>snapshots.
          Inr \<lparr>rs_networks = length networks, rs_network_revisions = revision_count (map snd network_lives),
               rs_assets = length assets, rs_asset_revisions = revision_count (map snd assets),
               rs_addresses = length addresses, rs_address_revisions = revision_count (map snd addresses),
               rs_snapshots = snapshots\<rparr>))))))))"

text \<open>
  \<open>verify_integrity\<close> ends with the check of the acquisition ledger, whose details join the
  result when it has runs.  That check (\<open>wallet/acquisition.py\<close>) is the argument \<open>acquisition\<close>.
\<close>

record acquisition_details =
  aq_runs :: nat
  aq_others :: "(string \<times> nat) list"

definition verify_registry ::
    "(string \<Rightarrow> 'a registry_db_scheme \<Rightarrow> acquisition_details res) \<Rightarrow> env \<Rightarrow> url_library \<Rightarrow> string \<Rightarrow> 'a registry_db_scheme
      \<Rightarrow> (registry_summary \<times> acquisition_details option) res" where
  "verify_registry acquisition E U subject_id db =
     res_bind (verify_registry_tables E U subject_id db) (\<lambda>details.
     res_bind (acquisition subject_id db) (\<lambda>acquired.
       Inr (details, if aq_runs acquired \<noteq> 0 then Some acquired else None)))"

end
