(* ===== verification/RegistryAudit.thy ===== *)
theory RegistryAudit
  imports WalletRegistry "HOL-Library.Multiset"
begin

text \<open>
  What the integrity check of the wallet registry demands, and that it accepts every
  registry that meets it: \<open>registry_ok\<close> collects the conditions on the rows, the audit records
  they cite and their revision histories, and \<open>registry_ok_verifies\<close> shows that \<open>verify_registry_tables\<close> then
  succeeds and counts the rows of the subject.
\<close>

section \<open>Audit records\<close>

definition audit_ok :: "audit_row list \<Rightarrow> string \<Rightarrow> string \<Rightarrow> string \<Rightarrow> (string \<times> json) list \<Rightarrow> bool" where
  "audit_ok A aid sid action payload =
     (aid \<noteq> [] \<and> (\<exists>a. fetchone (\<lambda>a. au_audit_id a = aid) A = Some a \<and> au_subject_id a = sid \<and> au_action a = action
        \<and> \<not> blank (au_actor a) \<and> py_strip (au_actor a) \<noteq> ''subject'' \<and> timestamp_valid (au_occurred_at a)
        \<and> au_payload_json a = canonical_json (JObj payload)))"

lemma json_norm_of_canonical:
  assumes "json_wf v" "json_wf w" "canonical_json v = canonical_json w"
  shows "json_norm v = json_norm w"
  using strict_json_loads_canonical [OF assms(1)] strict_json_loads_canonical [OF assms(2)] assms(3) by simp

lemma json_norm_norm [simp]: "json_norm (json_norm v) = json_norm v"
proof (induction v)
  case (JObj kvs)
  have "sort_key fst (map (\<lambda>(k, v). (k, json_norm v)) (sort_key fst (map (\<lambda>(k, v). (k, json_norm v)) kvs)))
      = map (\<lambda>(k, v). (k, json_norm v)) (sort_key fst (map (\<lambda>(k, v). (k, json_norm v)) kvs))"
    by (intro sort_key_id_if_sorted) (simp add: comp_def case_prod_beta)
  moreover have "map (\<lambda>(k, v). (k, json_norm v)) (sort_key fst (map (\<lambda>(k, v). (k, json_norm v)) kvs))
      = sort_key fst (map (\<lambda>(k, v). (k, json_norm v)) kvs)"
    using JObj by (intro map_idI) (auto simp: snds.simps)
  ultimately show ?case by simp
qed auto

lemma verify_audit_ok:
  assumes "audit_ok (audit_records db) aid sid action payload" "json_wf (JObj payload)"
  shows "verify_audit (Some aid) sid action payload db = Inr ()"
proof -
  from assms(1) obtain a where a: "aid \<noteq> []" "fetchone (\<lambda>a. au_audit_id a = aid) (audit_records db) = Some a"
      "au_subject_id a = sid" "au_action a = action" "\<not> blank (au_actor a)" "py_strip (au_actor a) \<noteq> ''subject''"
      "timestamp_valid (au_occurred_at a)" "au_payload_json a = canonical_json (JObj payload)"
    by (auto simp: audit_ok_def)
  have "strict_json_loads (au_payload_json a) = Inr (json_norm (JObj payload))"
    unfolding a(8) by (rule strict_json_loads_canonical [OF assms(2)])
  with a show ?thesis by (simp add: verify_audit_def del: json_norm.simps canonical_json.simps)
qed

lemma audit_ok_append:
  "audit_ok A aid sid action payload \<Longrightarrow> audit_ok (A @ B) aid sid action payload"
  by (auto simp: audit_ok_def fetchone_append)

section \<open>Life cycles and revisions\<close>

definition revision_ok :: "env \<Rightarrow> resource \<Rightarrow> lifecycle \<Rightarrow> nat \<Rightarrow> revision_row \<Rightarrow> bool" where
  "revision_ok E k l n r =
     (rv_resource_id r = lc_resource_id l \<and> rv_subject_id r = lc_subject_id l \<and> \<not> revision_invalid r n l
      \<and> rv_state_hash r = revision_hash E k r \<and> revision_mismatch k r n l = None)"

definition history_ok :: "env \<Rightarrow> resource \<Rightarrow> lifecycle \<Rightarrow> revision_row list \<Rightarrow> bool" where
  "history_ok E k l h =
     (if lc_status l = ''active'' then (\<exists>r. h = [r] \<and> revision_ok E k l 1 r)
      else (\<exists>r s. h = [r, s] \<and> revision_ok E k l 1 r \<and> revision_ok E k l 2 s))"

definition history_of :: "string \<Rightarrow> revision_row list \<Rightarrow> revision_row list" where
  "history_of i R = filter (\<lambda>r. rv_resource_id r = i) R"

definition life_ok ::
    "env \<Rightarrow> resource \<Rightarrow> audit_row list \<Rightarrow> revision_row list \<Rightarrow> lifecycle \<Rightarrow> (string \<times> json) list \<Rightarrow> bool" where
  "life_ok E k A R l payload =
     (lifecycle_valid l \<and> is_ok (store_identifier (lc_resource_id l) ''x'') \<and> is_ok (validate_subject_id (lc_subject_id l))
      \<and> audit_ok A (lc_created_audit_id l) (lc_subject_id l) (''wallet_'' @ resource_name k @ ''_registered'') payload
      \<and> (lc_status l = ''revoked'' \<longrightarrow> audit_ok A (the (lc_revoked_audit_id l)) (lc_subject_id l)
           (''wallet_'' @ resource_name k @ ''_revoked'')
           [(id_field k, JStr (lc_resource_id l)), (''reason'', json_opt (lc_revoke_reason l))])
      \<and> history_ok E k l (history_of (lc_resource_id l) R))"

lemma life_okD:
  assumes "life_ok E k A R l payload"
  shows "lifecycle_valid l" "is_ok (store_identifier (lc_resource_id l) f)" "\<exists>u. validate_subject_id (lc_subject_id l) = Inr u"
    "history_ok E k l (history_of (lc_resource_id l) R)" "lc_resource_id l \<noteq> []"
proof -
  show "is_ok (store_identifier (lc_resource_id l) f)" using assms by (auto simp: life_ok_def store_identifier_def split: if_splits)
  show "lc_resource_id l \<noteq> []" using assms by (auto simp: life_ok_def store_identifier_def)
qed (use assms in \<open>auto simp: life_ok_def is_ok_iff\<close>)

lemma json_wf_opt [simp]: "json_wf (json_opt v)"
  by (cases v) (simp_all add: json_opt_def)

lemma verify_resource_audits_ok:
  assumes "life_ok E k (audit_records db) R l payload" "json_wf (JObj payload)"
  shows "verify_resource_audits k l payload db = Inr ()"
proof -
  have wf: "json_wf (JObj [(id_field k, JStr (lc_resource_id l)), (''reason'', json_opt (lc_revoke_reason l))])"
    by (simp add: id_field_def resource_name_def split: resource.splits)
  have 1: "verify_audit (Some (lc_created_audit_id l)) (lc_subject_id l) (''wallet_'' @ resource_name k @ ''_registered'') payload db = Inr ()"
    using assms by (intro verify_audit_ok) (simp_all add: life_ok_def)
  show ?thesis
  proof (cases "lc_status l = ''revoked''")
    case True
    then obtain a where a: "lc_revoked_audit_id l = Some a"
      using life_okD(1) [OF assms(1)] by (auto simp: lifecycle_valid_def)
    with True assms(1) have "verify_audit (Some a) (lc_subject_id l) (''wallet_'' @ resource_name k @ ''_revoked'')
        [(id_field k, JStr (lc_resource_id l)), (''reason'', json_opt (lc_revoke_reason l))] db = Inr ()"
      by (intro verify_audit_ok wf) (simp add: life_ok_def)
    with True a 1 show ?thesis by (simp add: verify_resource_audits_def)
  qed (use 1 in \<open>simp add: verify_resource_audits_def\<close>)
qed

lemma res_fold_append:
  "res_fold f (xs @ ys) s = res_bind (res_fold f xs s) (res_fold f ys)"
  by (induction xs arbitrary: s) (auto simp: res_bind_def split: sum.splits)

text \<open>The revisions of one resource take the scan to its end.\<close>

lemma scan_history:
  assumes h: "history_ok E k l h" and parent: "fetchone (\<lambda>p. lc_resource_id p = lc_resource_id l) parents = Some l"
    and own: "lc_subject_id l = sid" "lc_resource_id l \<noteq> []" and res: "map_of resources (lc_resource_id l) = Some l"
    and fin: "finish_revisions k resources current cnt finished = Inr f" and new: "current \<noteq> Some (lc_resource_id l)"
  shows "res_fold (verify_revision E k sid resources parents) h (current, cnt, finished)
      = Inr (Some (lc_resource_id l), expected_revisions l, f)"
proof -
  have mem: "lc_resource_id l \<in> fst ` set resources" using map_of_SomeD [OF res] by force
  have step1: "verify_revision E k sid resources parents r (current, cnt, finished) = Inr (Some (lc_resource_id l), 1, f)"
    if "revision_ok E k l 1 r" for r
    using that own parent res fin new mem by (simp add: verify_revision_def revision_ok_def)
  have step2: "verify_revision E k sid resources parents r (Some (lc_resource_id l), 1, f) = Inr (Some (lc_resource_id l), 2, f)"
    if "revision_ok E k l 2 r" for r
    using that own parent res mem by (simp add: verify_revision_def revision_ok_def numeral_2_eq_2)
  show ?thesis
    using h step1 step2 by (auto simp: history_ok_def expected_revisions_def split: if_splits)
qed

lemma scan_histories:
  assumes "distinct is" "\<And>i. i \<in> set is \<Longrightarrow> \<exists>l. map_of resources i = Some l \<and> lc_resource_id l = i \<and> lc_subject_id l = sid
      \<and> i \<noteq> [] \<and> fetchone (\<lambda>p. lc_resource_id p = i) parents = Some l \<and> history_ok E k l (H i)"
    and "finish_revisions k resources current cnt finished = Inr f" "\<And>i. i \<in> set is \<Longrightarrow> current \<noteq> Some i"
  shows "\<exists>current' cnt' f'. res_fold (verify_revision E k sid resources parents) (concat (map H is)) (current, cnt, finished)
      = Inr (current', cnt', f') \<and> finish_revisions k resources current' cnt' f' = Inr (f @ is)"
  using assms
proof (induction "is" arbitrary: current cnt finished f)
  case (Cons i "is")
  obtain l where l: "map_of resources i = Some l" "lc_resource_id l = i" "lc_subject_id l = sid" "i \<noteq> []"
      "fetchone (\<lambda>p. lc_resource_id p = i) parents = Some l" "history_ok E k l (H i)"
    using Cons.prems(2) by auto
  let ?s = "(Some i, expected_revisions l, f)"
  have 1: "res_fold (verify_revision E k sid resources parents) (H i) (current, cnt, finished) = Inr ?s"
    using scan_history [OF l(6), of parents sid resources current cnt finished f] l Cons.prems(3,4) by auto
  have 2: "finish_revisions k resources (Some i) (expected_revisions l) f = Inr (f @ [i])"
    using l(1) by (simp add: finish_revisions_def)
  have "\<exists>c n g. res_fold (verify_revision E k sid resources parents) (concat (map H is)) ?s = Inr (c, n, g)
      \<and> finish_revisions k resources c n g = Inr ((f @ [i]) @ is)"
    using Cons.prems(1,2) by (intro Cons.IH [OF _ _ 2]) auto
  moreover have "res_fold (verify_revision E k sid resources parents) (H i @ ys) s
      = res_bind (res_fold (verify_revision E k sid resources parents) (H i) s)
          (res_fold (verify_revision E k sid resources parents) ys)" for ys s
    by (rule res_fold_append)
  ultimately show ?case using 1 by simp
qed (auto simp: finish_revisions_def)

text \<open>Ordered by resource and number, the revisions are the histories one after the other.\<close>

lemma mset_groups:
  "distinct is \<Longrightarrow> mset (concat (map (\<lambda>i. filter (\<lambda>r. k r = i) R) is)) = mset (filter (\<lambda>r. k r \<in> set is) R)"
proof (induction "is")
  case (Cons i "is")
  have "filter_mset (\<lambda>r. k r = i \<or> k r \<in> set is) (mset R)
      = filter_mset (\<lambda>r. k r = i) (mset R) + filter_mset (\<lambda>r. k r \<in> set is) (mset R)"
    using Cons.prems by (intro multiset_eqI) auto
  with Cons show ?case by (simp add: mset_filter)
qed simp

abbreviation revision_key :: "revision_row \<Rightarrow> string \<times> int \<times> string" where
  "revision_key r \<equiv> (rv_resource_id r, rv_revision_number r, rv_revision_id r)"

lemma history_keys:
  assumes "history_ok E k l h"
  shows "sorted (map revision_key h)" "inj_on revision_key (set h)"
    "\<And>r. r \<in> set h \<Longrightarrow> rv_resource_id r = lc_resource_id l \<and> rv_subject_id r = lc_subject_id l"
  using assms by (auto simp: history_ok_def revision_ok_def revision_invalid_def less_eq_prod_def inj_on_def split: if_splits)

lemma sorted_histories:
  assumes "sorted is" "distinct is" "\<And>i. i \<in> set is \<Longrightarrow> sorted (map revision_key (H i)) \<and> (\<forall>r\<in>set (H i). rv_resource_id r = i)"
  shows "sorted (map revision_key (concat (map H is)))"
  using assms
proof (induction "is")
  case (Cons i "is")
  have "revision_key r \<le> revision_key s" if "r \<in> set (H i)" "s \<in> set (H j)" "j \<in> set is" for r s j
  proof -
    have "i < j" using Cons.prems(1,2) that(3) by (auto simp: order_less_le)
    moreover have "rv_resource_id r = i" "rv_resource_id s = j" using that Cons.prems(3) by auto
    ultimately show ?thesis by (simp add: less_eq_prod_def)
  qed
  with Cons show ?case by (auto simp: sorted_append)
qed simp

lemma verify_revisions_ok:
  assumes dist: "distinct (map lc_resource_id (lives k db))"
    and ok: "\<And>l. l \<in> set (lives k db) \<Longrightarrow> lc_resource_id l \<noteq> [] \<and> history_ok E k l (history_of (lc_resource_id l) (revisions k db))"
    and own: "\<And>r. r \<in> set (revisions k db) \<Longrightarrow> rv_resource_id r \<in> lc_resource_id ` set (lives k db)"
    and res: "distinct (map fst resources)" "set resources = (\<lambda>l. (lc_resource_id l, l)) ` {l \<in> set (lives k db). lc_subject_id l = sid}"
  shows "verify_revisions E k sid resources db = Inr ()"
proof -
  let ?L = "lives k db" and ?R = "revisions k db"
  let ?H = "\<lambda>i. history_of i ?R"
  define ids where "ids = sorted_list_of_set (fst ` set resources)"
  have ids: "set ids = lc_resource_id ` {l \<in> set ?L. lc_subject_id l = sid}" "sorted ids" "distinct ids"
    by (simp_all add: ids_def res(2) image_image)
  have parent: "fetchone (\<lambda>p. lc_resource_id p = lc_resource_id l) ?L = Some l" if "l \<in> set ?L" for l
    using fetchone_key [OF dist that] .
  have life: "\<exists>l\<in>set ?L. rv_resource_id r = lc_resource_id l \<and> rv_subject_id r = lc_subject_id l \<and> r \<in> set (?H (lc_resource_id l))"
    if r: "r \<in> set ?R" for r
  proof -
    obtain l where l: "l \<in> set ?L" "rv_resource_id r = lc_resource_id l" using own [OF r] by auto
    with r have "r \<in> set (?H (lc_resource_id l))" by (simp add: history_of_def)
    with l history_keys(3) [of E k l "?H (lc_resource_id l)"] ok show ?thesis by metis
  qed
  have sel: "filter (\<lambda>r. rv_subject_id r = sid \<or> map_option lc_subject_id (fetchone (\<lambda>l. lc_resource_id l = rv_resource_id r) ?L) = Some sid) ?R
      = filter (\<lambda>r. rv_resource_id r \<in> set ids) ?R"
  proof (intro filter_cong refl)
    fix r assume "r \<in> set ?R"
    then obtain l where l: "l \<in> set ?L" "rv_resource_id r = lc_resource_id l" "rv_subject_id r = lc_subject_id l" using life by blast
    have "rv_resource_id r \<in> set ids \<longleftrightarrow> lc_subject_id l = sid"
      using l(1,2) distinct_key_eq [OF dist] by (auto simp: ids(1))
    with l parent [OF l(1)] show "(rv_subject_id r = sid \<or> map_option lc_subject_id (fetchone (\<lambda>l. lc_resource_id l = rv_resource_id r) ?L) = Some sid)
        = (rv_resource_id r \<in> set ids)" by simp
  qed
  have inj: "inj_on revision_key (set ?R)"
  proof (rule inj_onI)
    fix r s assume rs: "r \<in> set ?R" "s \<in> set ?R" "revision_key r = revision_key s"
    from life [OF rs(1)] obtain l where l: "l \<in> set ?L" "rv_resource_id r = lc_resource_id l" "r \<in> set (?H (lc_resource_id l))" by blast
    with rs have "s \<in> set (?H (lc_resource_id l))" by (simp add: history_of_def)
    with l(3) inj_onD [OF history_keys(2) [OF conjunct2 [OF ok [OF l(1)]]] rs(3)] show "r = s" by blast
  qed
  have rows: "fetchall_by (\<lambda>r. rv_subject_id r = sid \<or> map_option lc_subject_id (fetchone (\<lambda>l. lc_resource_id l = rv_resource_id r) ?L) = Some sid)
      revision_key ?R = concat (map ?H ids)"
    unfolding fetchall_by_def sel
  proof (rule sort_key_inj_key_eq)
    show "mset (filter (\<lambda>r. rv_resource_id r \<in> set ids) ?R) = mset (concat (map ?H ids))"
      unfolding history_of_def by (rule mset_groups [OF ids(3), symmetric])
    show "inj_on revision_key (set (filter (\<lambda>r. rv_resource_id r \<in> set ids) ?R))"
      using inj by (rule inj_on_subset) auto
    show "sorted (map revision_key (concat (map ?H ids)))"
    proof (rule sorted_histories [OF ids(2,3)])
      fix i assume "i \<in> set ids"
      then obtain l where l: "l \<in> set ?L" "i = lc_resource_id l" by (auto simp: ids(1))
      from history_keys(1) [OF conjunct2 [OF ok [OF l(1)]]]
      show "sorted (map revision_key (?H i)) \<and> (\<forall>r\<in>set (?H i). rv_resource_id r = i)"
        unfolding l(2) by (simp add: history_of_def del: sorted_map)
    qed
  qed
  have "\<exists>c n f. res_fold (verify_revision E k sid resources ?L) (concat (map ?H ids)) (None, 0, []) = Inr (c, n, f)
      \<and> finish_revisions k resources c n f = Inr ([] @ ids)"
  proof (rule scan_histories [OF ids(3)])
    fix i assume "i \<in> set ids"
    then obtain l where l: "l \<in> set ?L" "lc_subject_id l = sid" "i = lc_resource_id l" by (auto simp: ids(1))
    have "map_of resources i = Some l" using res l by (intro map_of_is_SomeI) auto
    with l ok [OF l(1)] parent [OF l(1)] show "\<exists>l. map_of resources i = Some l \<and> lc_resource_id l = i \<and> lc_subject_id l = sid
      \<and> i \<noteq> [] \<and> fetchone (\<lambda>p. lc_resource_id p = i) ?L = Some l \<and> history_ok E k l (?H i)" by auto
  qed (simp_all add: finish_revisions_def)
  then obtain c n f where f: "res_fold (verify_revision E k sid resources ?L) (concat (map ?H ids)) (None, 0, []) = Inr (c, n, f)"
      "finish_revisions k resources c n f = Inr ids" by auto
  have "\<forall>x\<in>set resources. fst x \<in> set ids" by (auto simp: res(2) ids(1))
  then show ?thesis unfolding verify_revisions_def rows f(1) by (auto simp: f(2))
qed

section \<open>The registry\<close>

text \<open>What the three tables share: distinct identifiers, life cycles in order, and no revision without its resource.\<close>

definition table_ok ::
    "env \<Rightarrow> resource \<Rightarrow> ('r \<Rightarrow> lifecycle) \<Rightarrow> ('r \<Rightarrow> (string \<times> json) list) \<Rightarrow> audit_row list \<Rightarrow> revision_row list \<Rightarrow> 'r list \<Rightarrow> bool" where
  "table_ok E k life payload A R t =
     (distinct (map (lc_resource_id \<circ> life) t) \<and> (\<forall>r\<in>set t. life_ok E k A R (life r) (payload r))
      \<and> (\<forall>v\<in>set R. rv_resource_id v \<in> (lc_resource_id \<circ> life) ` set t))"

text \<open>The stored origin is its own validation; a row whose origin is not cannot be read back.\<close>

definition origin_stable :: "url_library \<Rightarrow> network_row \<Rightarrow> bool" where
  "origin_stable U r = (optional_rpc_url U (nw_rpc_url r) = Inr (nw_rpc_url r))"

definition network_ok :: "env \<Rightarrow> url_library \<Rightarrow> network_row \<Rightarrow> bool" where
  "network_ok E U r =
     ((origin_stable U r \<longrightarrow> validate_network_input U (network_row_input r) = Inr (network_row_input r)) \<and> nw_state_hash r = network_hash E r)"

definition asset_ok :: "env \<Rightarrow> network_row list \<Rightarrow> asset_row \<Rightarrow> bool" where
  "asset_ok E N r =
     (validate_asset_input (asset_row_input r) = Inr (asset_row_input r) \<and> as_state_hash r = asset_hash E r
      \<and> (\<exists>n\<in>set N. nw_network_id n = as_network_id r \<and> nw_subject_id n = as_subject_id r
           \<and> (as_asset_type r = ''native'' \<longrightarrow> as_symbol r = nw_native_symbol n)
           \<and> (as_status r = ''active'' \<longrightarrow> nw_status n = ''active'')))"

definition address_ok :: "env \<Rightarrow> network_row list \<Rightarrow> address_row \<Rightarrow> bool" where
  "address_ok E N r =
     (validate_address_input (address_row_input r) = Inr (address_row_input r) \<and> ad_state_hash r = address_hash E r
      \<and> (\<exists>n\<in>set N. nw_network_id n = ad_network_id r \<and> nw_subject_id n = ad_subject_id r
           \<and> (ad_status r = ''active'' \<longrightarrow> nw_status n = ''active'')))"

definition snapshot_ok :: "env \<Rightarrow> 'a wallet_db_scheme \<Rightarrow> snapshot_row \<Rightarrow> bool" where
  "snapshot_ok E db s =
     (balance_from_row E s = Inr s
      \<and> (\<exists>n\<in>set (wallet_networks db). nw_network_id n = bs_network_id s \<and> nw_subject_id n = bs_subject_id s)
      \<and> (\<exists>a\<in>set (wallet_assets db). as_asset_id a = bs_asset_id s \<and> as_subject_id a = bs_subject_id s
           \<and> as_network_id a = bs_network_id s)
      \<and> (\<exists>d\<in>set (wallet_addresses db). ad_address_id d = bs_address_id s \<and> ad_subject_id d = bs_subject_id s
           \<and> ad_network_id d = bs_network_id s))"

definition registry_ok :: "env \<Rightarrow> url_library \<Rightarrow> 'a registry_db_scheme \<Rightarrow> bool" where
  "registry_ok E U db =
     (table_ok E Network network_life network_payload (audit_records db) (wallet_network_revisions db) (wallet_networks db)
      \<and> table_ok E Asset asset_life asset_payload (audit_records db) (wallet_asset_revisions db) (wallet_assets db)
      \<and> table_ok E Address address_life address_payload (audit_records db) (wallet_address_revisions db) (wallet_addresses db)
      \<and> (\<forall>r\<in>set (wallet_networks db). network_ok E U r) \<and> (\<forall>r\<in>set (wallet_assets db). asset_ok E (wallet_networks db) r)
      \<and> (\<forall>r\<in>set (wallet_addresses db). address_ok E (wallet_networks db) r)
      \<and> (\<forall>s\<in>set (wallet_balance_snapshots db). snapshot_ok E db s))"

definition registry_counts :: "string \<Rightarrow> 'a registry_db_scheme \<Rightarrow> registry_summary" where
  "registry_counts sid db =
     \<lparr>rs_networks = count_where (\<lambda>r. nw_subject_id r = sid) (wallet_networks db),
      rs_network_revisions = revision_count (filter (\<lambda>l. lc_subject_id l = sid) (lives Network db)),
      rs_assets = count_where (\<lambda>r. as_subject_id r = sid) (wallet_assets db),
      rs_asset_revisions = revision_count (filter (\<lambda>l. lc_subject_id l = sid) (lives Asset db)),
      rs_addresses = count_where (\<lambda>r. ad_subject_id r = sid) (wallet_addresses db),
      rs_address_revisions = revision_count (filter (\<lambda>l. lc_subject_id l = sid) (lives Address db)),
      rs_snapshots = count_where (\<lambda>s. bs_subject_id s = sid) (wallet_balance_snapshots db)\<rparr>"

named_theorems life_simps

lemma life_fields [simp, life_simps]:
  "lc_resource_id (network_life n) = nw_network_id n" "lc_subject_id (network_life n) = nw_subject_id n" "lc_status (network_life n) = nw_status n"
  "lc_resource_id (asset_life a) = as_asset_id a" "lc_subject_id (asset_life a) = as_subject_id a" "lc_status (asset_life a) = as_status a"
  "lc_resource_id (address_life d) = ad_address_id d" "lc_subject_id (address_life d) = ad_subject_id d" "lc_status (address_life d) = ad_status d"
  by (simp_all add: network_life_def asset_life_def address_life_def)

lemma lives_simps [simp]:
  "lives Network db = map network_life (wallet_networks db)" "lives Asset db = map asset_life (wallet_assets db)"
  "lives Address db = map address_life (wallet_addresses db)"
  by (simp_all add: lives_def)

lemma revisions_simps [simp]:
  "revisions Network db = wallet_network_revisions db" "revisions Asset db = wallet_asset_revisions db"
  "revisions Address db = wallet_address_revisions db"
  by (simp_all add: revisions_def)

lemma table_okD:
  assumes "table_ok E k life payload A R t"
  shows "distinct (map (lc_resource_id \<circ> life) t)" "r \<in> set t \<Longrightarrow> life_ok E k A R (life r) (payload r)"
    "v \<in> set R \<Longrightarrow> rv_resource_id v \<in> (lc_resource_id \<circ> life) ` set t"
  using assms by (auto simp: table_ok_def)

text \<open>Rows that are in order are read as they are.\<close>

lemma identity_ok:
  assumes "life_ok E k A R l payload"
  shows "\<exists>u. res_bind (store_identifier (lc_resource_id l) f) (\<lambda>_. validate_subject_id (lc_subject_id l)) = Inr u"
    "lifecycle_values l = Inr l"
  using life_okD(1,3) [OF assms] life_okD(2) [OF assms, of f] by (auto simp: is_ok_iff lifecycle_values_def)

definition network_rec :: "network_row \<Rightarrow> network_record" where
  "network_rec r = \<lparr>nr_network_id = nw_network_id r, nr_subject_id = nw_subject_id r, nr_label = nw_label r,
     nr_chain_family = nw_chain_family r, nr_chain_id = nw_chain_id r, nr_native_symbol = nw_native_symbol r,
     nr_rpc_url = nw_rpc_url r, nr_status = nw_status r, nr_created_at = nw_created_at r,
     nr_revoked_at = nw_revoked_at r, nr_revoke_reason = nw_revoke_reason r\<rparr>"

definition asset_rec :: "asset_row \<Rightarrow> asset_record" where
  "asset_rec r = \<lparr>sr_asset_id = as_asset_id r, sr_subject_id = as_subject_id r, sr_network_id = as_network_id r,
     sr_asset_type = as_asset_type r, sr_contract_address = as_contract_address r, sr_name = as_name r,
     sr_symbol = as_symbol r, sr_decimals = as_decimals r, sr_status = as_status r, sr_created_at = as_created_at r,
     sr_revoked_at = as_revoked_at r, sr_revoke_reason = as_revoke_reason r\<rparr>"

definition address_rec :: "address_row \<Rightarrow> address_record" where
  "address_rec r = \<lparr>dr_address_id = ad_address_id r, dr_subject_id = ad_subject_id r, dr_network_id = ad_network_id r,
     dr_label = ad_label r, dr_address = ad_address r, dr_purpose = ad_purpose r, dr_status = ad_status r,
     dr_created_at = ad_created_at r, dr_revoked_at = ad_revoked_at r, dr_revoke_reason = ad_revoke_reason r\<rparr>"

lemma catch_value_error_Inr [simp]: "catch_value_error e (Inr x) = Inr x"
  by (simp add: catch_value_error_def)

lemma network_from_row_Inr:
  assumes "network_from_row E U n = Inr r"
  shows "r = network_rec n" "nw_state_hash n = network_hash E n" "lifecycle_valid (network_life n)"
    "validate_network_input U (network_row_input n) = Inr (network_row_input n)"
  using assms
  by (auto simp: network_from_row_def network_rec_def network_row_input_def lifecycle_values_def catch_value_error_def
      split: if_splits sum.splits py_error.splits)

lemma network_from_row_stable: "network_from_row E U n = Inr r \<Longrightarrow> origin_stable U n"
  by (drule network_from_row_Inr(4)) (auto simp: origin_stable_def validate_network_input_def network_row_input_def)

lemma network_from_row_ok:
  assumes "origin_stable U r" "network_ok E U r" "life_ok E Network A R (network_life r) payload"
  shows "network_from_row E U r = Inr (network_rec r)"
  using assms(1,2) identity_ok(1) [OF assms(3), of "''network identifier''"] identity_ok(2) [OF assms(3)]
  by (auto simp: network_from_row_def network_ok_def network_row_input_def network_rec_def
      simp del: res_bind_Inr_iff)

lemma asset_from_row_ok:
  assumes "asset_ok E N r" "life_ok E Asset A R (asset_life r) payload"
  shows "asset_from_row E r = Inr (asset_rec r)"
  using assms(1) identity_ok(1) [OF assms(2), of "''asset identifier''"] identity_ok(2) [OF assms(2)]
  by (auto simp: asset_from_row_def asset_ok_def asset_row_input_def asset_rec_def simp del: res_bind_Inr_iff)

lemma address_from_row_ok:
  assumes "address_ok E N r" "life_ok E Address A R (address_life r) payload"
  shows "address_from_row E r = Inr (address_rec r)"
  using assms(1) identity_ok(1) [OF assms(2), of "''address identifier''"] identity_ok(2) [OF assms(2)]
  by (auto simp: address_from_row_def address_ok_def address_row_input_def address_rec_def simp del: res_bind_Inr_iff)

lemma res_fold_collect:
  "(\<And>x acc. x \<in> set xs \<Longrightarrow> f x acc = Inr (acc @ [g x])) \<Longrightarrow> res_fold f xs acc = Inr (acc @ map g xs)"
  by (induction xs arbitrary: acc) auto

lemma res_fold_map:
  "(\<And>x acc. x \<in> set xs \<Longrightarrow> f x acc = Inr (acc @ [g x])) \<Longrightarrow> res_fold f xs [] = Inr (map g xs)"
  using res_fold_collect [of xs f g "[]"] by simp

lemma res_fold_add: "(\<And>x n. x \<in> set xs \<Longrightarrow> f x n = Inr (Suc n)) \<Longrightarrow> res_fold f xs n = Inr (n + length xs)"
  by (induction xs arbitrary: n) auto

lemma res_fold_length: "(\<And>x n. x \<in> set xs \<Longrightarrow> f x n = Inr (Suc n)) \<Longrightarrow> res_fold f xs 0 = Inr (length xs)"
  using res_fold_add [of xs f 0] by simp

lemma set_fetchall_by [simp]: "set (fetchall_by p key t) = {r \<in> set t. p r}"
  by (simp add: fetchall_by_def)

lemma distinct_fetchall_by: "distinct (map f t) \<Longrightarrow> distinct (map f (fetchall_by p key t))"
  by (auto simp: fetchall_by_def distinct_map inj_on_def)

lemma fetchall_by_cong: "(\<And>r. r \<in> set t \<Longrightarrow> p r = q r) \<Longrightarrow> fetchall_by p key t = fetchall_by q key t"
  by (simp add: fetchall_by_def cong: filter_cong)

lemma length_fetchall_by [simp]: "length (fetchall_by p key t) = count_where p t"
  by (simp add: fetchall_by_def count_where_def)

lemma revision_count_fetchall_by:
  assumes "\<And>r. r \<in> set t \<Longrightarrow> lc_subject_id (life r) = sid \<longleftrightarrow> p r"
  shows "revision_count (map life (fetchall_by p key t)) = revision_count (filter (\<lambda>l. lc_subject_id l = sid) (map life t))"
proof -
  have "mset (map life (fetchall_by p key t)) = mset (filter (\<lambda>l. lc_subject_id l = sid) (map life t))"
    using assms by (simp add: fetchall_by_def filter_map comp_def cong: filter_cong)
  then have "mset (map expected_revisions (map life (fetchall_by p key t)))
      = mset (map expected_revisions (filter (\<lambda>l. lc_subject_id l = sid) (map life t)))" by (metis mset_map)
  then show ?thesis unfolding revision_count_def by (metis sum_mset_sum_list)
qed

lemma table_revisions_ok:
  assumes ok: "table_ok E k life payload (audit_records db) (revisions k db) t" and l: "lives k db = map life t"
    and p: "\<And>r. r \<in> set t \<Longrightarrow> lc_subject_id (life r) = sid \<longleftrightarrow> p r"
  shows "verify_revisions E k sid (map (\<lambda>r. (lc_resource_id (life r), life r)) (fetchall_by p key t)) db = Inr ()"
proof (rule verify_revisions_ok)
  show "distinct (map lc_resource_id (lives k db))" using table_okD(1) [OF ok] by (simp add: l)
  show "lc_resource_id m \<noteq> [] \<and> history_ok E k m (history_of (lc_resource_id m) (revisions k db))" if "m \<in> set (lives k db)" for m
    using that table_okD(2) [OF ok] life_okD(4,5) by (fastforce simp: l)
  show "rv_resource_id v \<in> lc_resource_id ` set (lives k db)" if "v \<in> set (revisions k db)" for v
    using table_okD(3) [OF ok that] by (auto simp: l)
  show "distinct (map fst (map (\<lambda>r. (lc_resource_id (life r), life r)) (fetchall_by p key t)))"
    using distinct_fetchall_by [OF table_okD(1) [OF ok]] by (simp add: comp_def)
  show "set (map (\<lambda>r. (lc_resource_id (life r), life r)) (fetchall_by p key t))
      = (\<lambda>l. (lc_resource_id l, l)) ` {l \<in> set (lives k db). lc_subject_id l = sid}"
    using p by (auto simp: l)
qed

lemma registry_okD:
  assumes "registry_ok E U db"
  shows "table_ok E Network network_life network_payload (audit_records db) (wallet_network_revisions db) (wallet_networks db)"
    "table_ok E Asset asset_life asset_payload (audit_records db) (wallet_asset_revisions db) (wallet_assets db)"
    "table_ok E Address address_life address_payload (audit_records db) (wallet_address_revisions db) (wallet_addresses db)"
    "n \<in> set (wallet_networks db) \<Longrightarrow> network_ok E U n" "a \<in> set (wallet_assets db) \<Longrightarrow> asset_ok E (wallet_networks db) a"
    "d \<in> set (wallet_addresses db) \<Longrightarrow> address_ok E (wallet_networks db) d"
    "s \<in> set (wallet_balance_snapshots db) \<Longrightarrow> snapshot_ok E db s"
  using assms by (auto simp: registry_ok_def)

lemma registry_lives:
  assumes "registry_ok E U db"
  shows "n \<in> set (wallet_networks db) \<Longrightarrow> origin_stable U n \<Longrightarrow> network_from_row E U n = Inr (network_rec n)"
    "a \<in> set (wallet_assets db) \<Longrightarrow> asset_from_row E a = Inr (asset_rec a)"
    "d \<in> set (wallet_addresses db) \<Longrightarrow> address_from_row E d = Inr (address_rec d)"
    "distinct (map nw_network_id (wallet_networks db))" "distinct (map as_asset_id (wallet_assets db))"
    "distinct (map ad_address_id (wallet_addresses db))"
    "n \<in> set (wallet_networks db) \<Longrightarrow> network_of (nw_network_id n) db = Some n"
proof -
  note ok = registry_okD [OF assms]
  show "network_from_row E U n = Inr (network_rec n)" if "n \<in> set (wallet_networks db)" "origin_stable U n"
    using network_from_row_ok [OF that(2) ok(4) [OF that(1)] table_okD(2) [OF ok(1) that(1)]] .
  show "asset_from_row E a = Inr (asset_rec a)" if "a \<in> set (wallet_assets db)"
    using asset_from_row_ok [OF ok(5) [OF that] table_okD(2) [OF ok(2) that]] .
  show "address_from_row E d = Inr (address_rec d)" if "d \<in> set (wallet_addresses db)"
    using address_from_row_ok [OF ok(6) [OF that] table_okD(2) [OF ok(3) that]] .
  show d: "distinct (map nw_network_id (wallet_networks db))" "distinct (map as_asset_id (wallet_assets db))"
    "distinct (map ad_address_id (wallet_addresses db))"
    using table_okD(1) [OF ok(1)] table_okD(1) [OF ok(2)] table_okD(1) [OF ok(3)] by (simp_all add: comp_def)
  show "network_of (nw_network_id n) db = Some n" if "n \<in> set (wallet_networks db)"
    unfolding network_of_def by (rule fetchone_key [OF d(1) that])
qed

lemma json_wf_payloads:
  "json_wf (JObj (network_payload n))" "json_wf (JObj (asset_payload a))" "json_wf (JObj (address_payload d))"
  by (simp_all add: network_payload_def asset_payload_def address_payload_def)

lemma found_record:
  assumes ok: "registry_ok E U db" and n: "n \<in> set (wallet_networks db)" "nw_subject_id n = sid"
  shows "fetchone (\<lambda>m. nr_network_id m = nw_network_id n)
      (map network_rec (fetchall_by (\<lambda>r. nw_subject_id r = sid) key (wallet_networks db))) = Some (network_rec n)"
proof -
  let ?t = "map network_rec (fetchall_by (\<lambda>r. nw_subject_id r = sid) key (wallet_networks db))"
  have i: "nr_network_id (network_rec r) = nw_network_id r" for r by (simp add: network_rec_def)
  have "distinct (map nr_network_id ?t)" using distinct_fetchall_by [OF registry_lives(4) [OF ok]] by (simp add: comp_def i)
  moreover have "network_rec n \<in> set ?t" using n by simp
  ultimately show ?thesis using fetchone_key [of nr_network_id ?t "network_rec n"] unfolding i by blast
qed

lemma verify_asset_row_ok:
  assumes ok: "registry_ok E U db" and a: "a \<in> set (wallet_assets db)" "as_subject_id a = sid"
  shows "verify_asset_row E sid (map network_rec (fetchall_by (\<lambda>r. nw_subject_id r = sid) key (wallet_networks db))) db a acc
      = Inr (acc @ [(as_asset_id a, asset_life a)])"
proof -
  obtain n where n: "n \<in> set (wallet_networks db)" "nw_network_id n = as_network_id a" "nw_subject_id n = sid"
      "as_asset_type a = ''native'' \<Longrightarrow> as_symbol a = nw_native_symbol n" "as_status a = ''active'' \<Longrightarrow> nw_status n = ''active''"
    using registry_okD(5) [OF ok a(1)] a(2) by (auto simp: asset_ok_def)
  have f: "fetchone (\<lambda>m. nr_network_id m = as_network_id a) (map network_rec (fetchall_by (\<lambda>r. nw_subject_id r = sid) key (wallet_networks db)))
      = Some (network_rec n)"
    using found_record [OF ok n(1,3)] by (simp add: n(2))
  have w: "network_of (as_network_id a) db = Some n" using registry_lives(7) [OF ok n(1)] n(2) by simp
  have v: "verify_resource_audits Asset (asset_life a) (asset_payload a) db = Inr ()"
    by (rule verify_resource_audits_ok [OF table_okD(2) [OF registry_okD(2) [OF ok] a(1)] json_wf_payloads(2)])
  have r: "sr_asset_id (asset_rec a) = as_asset_id a" "sr_network_id (asset_rec a) = as_network_id a" "sr_status (asset_rec a) = as_status a"
      "sr_asset_type (asset_rec a) = as_asset_type a" "sr_symbol (asset_rec a) = as_symbol a"
      "nr_native_symbol (network_rec n) = nw_native_symbol n" "nr_status (network_rec n) = nw_status n"
    by (simp_all add: asset_rec_def network_rec_def)
  show ?thesis
    unfolding verify_asset_row_def registry_lives(2) [OF ok a(1)] using a(2) n(3,4,5) f w v by (simp add: r)
qed

lemma verify_address_row_ok:
  assumes ok: "registry_ok E U db" and a: "a \<in> set (wallet_addresses db)" "ad_subject_id a = sid"
  shows "verify_address_row E sid (map network_rec (fetchall_by (\<lambda>r. nw_subject_id r = sid) key (wallet_networks db))) db a acc
      = Inr (acc @ [(ad_address_id a, address_life a)])"
proof -
  obtain n where n: "n \<in> set (wallet_networks db)" "nw_network_id n = ad_network_id a" "nw_subject_id n = sid"
      "ad_status a = ''active'' \<Longrightarrow> nw_status n = ''active''"
    using registry_okD(6) [OF ok a(1)] a(2) by (auto simp: address_ok_def)
  have f: "fetchone (\<lambda>m. nr_network_id m = ad_network_id a) (map network_rec (fetchall_by (\<lambda>r. nw_subject_id r = sid) key (wallet_networks db)))
      = Some (network_rec n)"
    using found_record [OF ok n(1,3)] by (simp add: n(2))
  have w: "network_of (ad_network_id a) db = Some n" using registry_lives(7) [OF ok n(1)] n(2) by simp
  have v: "verify_resource_audits Address (address_life a) (address_payload a) db = Inr ()"
    by (rule verify_resource_audits_ok [OF table_okD(2) [OF registry_okD(3) [OF ok] a(1)] json_wf_payloads(3)])
  have r: "dr_address_id (address_rec a) = ad_address_id a" "dr_network_id (address_rec a) = ad_network_id a"
      "dr_status (address_rec a) = ad_status a" "nr_status (network_rec n) = nw_status n"
    by (simp_all add: address_rec_def network_rec_def)
  show ?thesis
    unfolding verify_address_row_def registry_lives(3) [OF ok a(1)] using a(2) n(3,4) f w v by (simp add: r)
qed

text \<open>The rows a snapshot refers to, as its query finds them.\<close>

lemma snapshot_rows:
  assumes ok: "registry_ok E U db" and s: "s \<in> set (wallet_balance_snapshots db)"
  obtains n a d where "n \<in> set (wallet_networks db)" "a \<in> set (wallet_assets db)" "d \<in> set (wallet_addresses db)"
    "nw_network_id n = bs_network_id s" "as_asset_id a = bs_asset_id s" "ad_address_id d = bs_address_id s"
    "nw_subject_id n = bs_subject_id s" "as_subject_id a = bs_subject_id s" "ad_subject_id d = bs_subject_id s"
    "as_network_id a = bs_network_id s" "ad_network_id d = bs_network_id s"
    "fetchone (\<lambda>a. as_asset_id a = bs_asset_id s) (wallet_assets db) = Some a"
    "fetchone (\<lambda>d. ad_address_id d = bs_address_id s) (wallet_addresses db) = Some d"
    "snapshot_owners s db = [Some (bs_subject_id s), Some (bs_subject_id s), Some (bs_subject_id s)]"
proof -
  from registry_okD(7) [OF ok s] obtain n a d where r: "n \<in> set (wallet_networks db)" "a \<in> set (wallet_assets db)" "d \<in> set (wallet_addresses db)"
      "nw_network_id n = bs_network_id s" "as_asset_id a = bs_asset_id s" "ad_address_id d = bs_address_id s"
      "nw_subject_id n = bs_subject_id s" "as_subject_id a = bs_subject_id s" "ad_subject_id d = bs_subject_id s"
      "as_network_id a = bs_network_id s" "ad_network_id d = bs_network_id s"
    unfolding snapshot_ok_def by blast
  have f: "fetchone (\<lambda>a. as_asset_id a = bs_asset_id s) (wallet_assets db) = Some a"
      "fetchone (\<lambda>d. ad_address_id d = bs_address_id s) (wallet_addresses db) = Some d" "network_of (bs_network_id s) db = Some n"
    using fetchone_key [OF registry_lives(5) [OF ok] r(2)] fetchone_key [OF registry_lives(6) [OF ok] r(3)]
      registry_lives(7) [OF ok r(1)] r(4-6) by simp_all
  show thesis by (rule that [OF r f(1,2)]) (simp add: snapshot_owners_def f r(7-9))
qed

lemma verify_snapshot_row_ok:
  assumes ok: "registry_ok E U db" and s: "s \<in> set (wallet_balance_snapshots db)" "bs_subject_id s = sid"
    and N: "\<And>n. n \<in> set (wallet_networks db) \<Longrightarrow> nw_subject_id n = sid \<Longrightarrow> nw_network_id n \<in> set ns"
    and A: "\<And>a. a \<in> set (wallet_assets db) \<Longrightarrow> as_subject_id a = sid \<Longrightarrow> as_asset_id a \<in> set as"
    and D: "\<And>d. d \<in> set (wallet_addresses db) \<Longrightarrow> ad_subject_id d = sid \<Longrightarrow> ad_address_id d \<in> set ds"
  shows "verify_snapshot_row E sid ns as ds db s c = Inr (Suc c)"
proof -
  obtain n a d where r: "n \<in> set (wallet_networks db)" "a \<in> set (wallet_assets db)" "d \<in> set (wallet_addresses db)"
    "nw_network_id n = bs_network_id s" "as_asset_id a = bs_asset_id s" "ad_address_id d = bs_address_id s"
    "nw_subject_id n = bs_subject_id s" "as_subject_id a = bs_subject_id s" "ad_subject_id d = bs_subject_id s"
    "as_network_id a = bs_network_id s" "ad_network_id d = bs_network_id s"
    "fetchone (\<lambda>a. as_asset_id a = bs_asset_id s) (wallet_assets db) = Some a"
    "fetchone (\<lambda>d. ad_address_id d = bs_address_id s) (wallet_addresses db) = Some d"
    "snapshot_owners s db = [Some (bs_subject_id s), Some (bs_subject_id s), Some (bs_subject_id s)]"
    by (rule snapshot_rows [OF ok s(1)])
  have b: "balance_from_row E s = Inr s" using registry_okD(7) [OF ok s(1)] by (simp add: snapshot_ok_def)
  have "bs_network_id s \<in> set ns" "bs_asset_id s \<in> set as" "bs_address_id s \<in> set ds"
    using N [OF r(1)] A [OF r(2)] D [OF r(3)] r(4-9) s(2) by simp_all
  then show ?thesis unfolding verify_snapshot_row_def b using s(2) r(10-14) by simp
qed

lemma registry_ok_verifies:
  assumes ok: "registry_ok E U db" and sid: "is_ok (validate_subject_id sid)"
    and stable: "\<And>n. n \<in> set (wallet_networks db) \<Longrightarrow> nw_subject_id n = sid \<Longrightarrow> origin_stable U n"
  shows "verify_registry_tables E U sid db = Inr (registry_counts sid db)"
proof -
  let ?nk = "\<lambda>r. (nw_created_at r, nw_network_id r)" and ?ak = "\<lambda>r. (as_created_at r, as_asset_id r)"
    and ?dk = "\<lambda>r. (ad_created_at r, ad_address_id r)" and ?sk = "\<lambda>s. (bs_observed_at s, bs_snapshot_id s)"
  let ?N = "fetchall_by (\<lambda>r. nw_subject_id r = sid) ?nk (wallet_networks db)"
    and ?A = "fetchall_by (\<lambda>r. as_subject_id r = sid) ?ak (wallet_assets db)"
    and ?D = "fetchall_by (\<lambda>r. ad_subject_id r = sid) ?dk (wallet_addresses db)"
    and ?S = "fetchall_by (\<lambda>s. bs_subject_id s = sid) ?sk (wallet_balance_snapshots db)"
  let ?al = "map (\<lambda>r. (as_asset_id r, asset_life r)) ?A" and ?dl = "map (\<lambda>r. (ad_address_id r, address_life r)) ?D"
  have A: "fetchall_by (\<lambda>r. as_subject_id r = sid \<or> map_option nw_subject_id (network_of (as_network_id r) db) = Some sid) ?ak (wallet_assets db) = ?A"
    using registry_okD(5) [OF ok] registry_lives(7) [OF ok] by (intro fetchall_by_cong) (fastforce simp: asset_ok_def)
  have D: "fetchall_by (\<lambda>r. ad_subject_id r = sid \<or> map_option nw_subject_id (network_of (ad_network_id r) db) = Some sid) ?dk (wallet_addresses db) = ?D"
    using registry_okD(6) [OF ok] registry_lives(7) [OF ok] by (intro fetchall_by_cong) (fastforce simp: address_ok_def)
  have S: "fetchall_by (\<lambda>s. bs_subject_id s = sid \<or> Some sid \<in> set (snapshot_owners s db)) ?sk (wallet_balance_snapshots db) = ?S"
  proof (rule fetchall_by_cong)
    fix s assume "s \<in> set (wallet_balance_snapshots db)"
    from snapshot_rows [OF ok this] show "(bs_subject_id s = sid \<or> Some sid \<in> set (snapshot_owners s db)) = (bs_subject_id s = sid)"
      by (metis empty_iff empty_set option.inject set_ConsD)
  qed
  have n: "res_fold (verify_network_row E U db) ?N [] = Inr (map network_rec ?N)"
    using registry_lives(1) [OF ok] stable verify_resource_audits_ok [OF table_okD(2) [OF registry_okD(1) [OF ok]] json_wf_payloads(1)]
    by (intro res_fold_map) (simp add: verify_network_row_def)
  have a: "res_fold (verify_asset_row E sid (map network_rec ?N) db) ?A [] = Inr ?al"
    by (intro res_fold_map verify_asset_row_ok [OF ok]) simp_all
  have d: "res_fold (verify_address_row E sid (map network_rec ?N) db) ?D [] = Inr ?dl"
    by (intro res_fold_map verify_address_row_ok [OF ok]) simp_all
  have s: "res_fold (verify_snapshot_row E sid (map nr_network_id (map network_rec ?N)) (map fst ?al) (map fst ?dl) db) ?S 0 = Inr (length ?S)"
    by (intro res_fold_length verify_snapshot_row_ok [OF ok]) (auto simp: network_rec_def image_iff)
  note t = registry_okD(1-3) [OF ok]
  have r: "verify_revisions E Network sid (map (\<lambda>r. (nw_network_id r, network_life r)) ?N) db = Inr ()"
      "verify_revisions E Asset sid ?al db = Inr ()" "verify_revisions E Address sid ?dl db = Inr ()"
    using table_revisions_ok [of E Network network_life network_payload db "wallet_networks db" sid "\<lambda>r. nw_subject_id r = sid" ?nk]
      table_revisions_ok [of E Asset asset_life asset_payload db "wallet_assets db" sid "\<lambda>r. as_subject_id r = sid" ?ak]
      table_revisions_ok [of E Address address_life address_payload db "wallet_addresses db" sid "\<lambda>r. ad_subject_id r = sid" ?dk] t
    by simp_all
  have c: "revision_count (map network_life ?N) = revision_count (filter (\<lambda>l. lc_subject_id l = sid) (map network_life (wallet_networks db)))"
      "revision_count (map asset_life ?A) = revision_count (filter (\<lambda>l. lc_subject_id l = sid) (map asset_life (wallet_assets db)))"
      "revision_count (map address_life ?D) = revision_count (filter (\<lambda>l. lc_subject_id l = sid) (map address_life (wallet_addresses db)))"
    by (rule revision_count_fetchall_by, simp)+
  obtain u where u: "validate_subject_id sid = Inr u" using sid by (auto simp: is_ok_iff)
  have m: "map snd (map (\<lambda>r. (f r, g r)) xs) = map g xs" for f :: "'r \<Rightarrow> string" and g :: "'r \<Rightarrow> lifecycle" and xs by simp
  show ?thesis
    unfolding verify_registry_tables_def Let_def u res_bind_simps n A D S a d r s m c
    by (simp add: registry_counts_def)
qed

end
