(* ===== verification/RegistryRevisions.thy ===== *)
theory RegistryRevisions
  imports RegistryAudit
begin

text \<open>
  How the transactions of the registry change its tables: what an audit, a revision and a row
  they write are, and that the conditions \<open>table_ok\<close> on one kind of resource survive a
  registration, a revocation and the audits of other components.  The three revision tables
  are revision logs in the sense of \<open>revision_log\<close>.
\<close>

section \<open>Revision tables\<close>

lemma set_revisions_simps [simp]:
  "revisions k (set_revisions k t db) = t" "audit_records (set_revisions k t db) = audit_records db"
  "wallet_networks (set_revisions k t db) = wallet_networks db" "wallet_assets (set_revisions k t db) = wallet_assets db"
  "wallet_addresses (set_revisions k t db) = wallet_addresses db"
  "wallet_balance_snapshots (set_revisions k t db) = wallet_balance_snapshots db"
  by (simp_all add: set_revisions_def revisions_def split: resource.splits)

lemma insert_revision_row_Inr:
  "insert_revision_row k v db = Inr db' \<Longrightarrow> db' = set_revisions k (revisions k db @ [v]) db"
  "insert_revision_row k v db = Inr db' \<Longrightarrow> revision_number_valid v (revisions k db)"
  by (auto simp: insert_revision_row_def Let_def split: if_splits)

interpretation rvlog: revision_log "revisions k" rv_resource_id rv_revision_number "insert_revision_row k"
proof
  fix v :: revision_row and db db' :: "'a registry_db_scheme"
  assume i: "insert_revision_row k v db = Inr db'"
  show "revisions k db' = revisions k db @ [v]" by (simp add: insert_revision_row_Inr(1) [OF i])
  show "rv_revision_number v = next_revision (map rv_revision_number (filter (\<lambda>x. rv_resource_id x = rv_resource_id v) (revisions k db)))"
    using insert_revision_row_Inr(2) [OF i] by (simp add: revision_number_valid_def)
qed

lemma insert_revision_Inr:
  assumes "insert_revision E k i sid n status reason aid now db = Inr db'"
  shows "db' = set_revisions k (revisions k db @ [new_revision E k (''wallet'' @ resource_name k @ ''rev_'' @ env_uuid E (fresh_ids db))
      i sid n status reason aid now]) (db\<lparr>fresh_ids := Suc (fresh_ids db)\<rparr>)"
  using insert_revision_row_Inr(1) [OF assms [unfolded insert_revision_def new_id_def Let_def prod.case]]
  by (simp add: revisions_def split: resource.splits)

lemma wallet_audit_Inr:
  assumes "wallet_audit E sid action actor payload db = Inr (aid, db')"
  shows "aid = ''audit_'' @ env_uuid E (fresh_ids db)" "aid \<notin> au_audit_id ` set (audit_records db)"
    "db' = db\<lparr>fresh_ids := Suc (fresh_ids db), ticks := Suc (ticks db),
       audit_records := audit_records db @ [\<lparr>au_audit_id = aid, au_subject_id = sid, au_action = action, au_actor = actor,
         au_payload_json = canonical_json (JObj payload), au_occurred_at = env_clock E (ticks db)\<rparr>]\<rparr>"
  using assms by (auto simp: wallet_audit_def kernel_defs split: if_splits)

section \<open>The environment\<close>

text \<open>\<open>uuid4().hex\<close> has 32 characters, and \<open>utc_now\<close> writes a time with its offset.\<close>

definition clock_valid :: "env \<Rightarrow> bool" where
  "clock_valid E = (\<forall>n. length (env_uuid E n) = 32 \<and> timestamp_valid (env_clock E n))"

lemma not_blank_prefix: "\<not> py_isspace c \<Longrightarrow> \<not> blank (c # s)"
  by (simp add: blank_iff)

lemma clock_validD:
  assumes "clock_valid E"
  shows "timestamp_valid (env_clock E n)" "length (env_uuid E n) = 32"
  using assms by (auto simp: clock_valid_def)

lemma store_identifier_drawn:
  assumes "clock_valid E" "\<not> py_isspace c" "length s \<le> 95"
  shows "store_identifier (c # s @ env_uuid E n) f = Inr ()"
  using assms clock_validD(2) [OF assms(1), of n] by (simp add: store_identifier_def not_blank_prefix)

section \<open>Audits and life cycles\<close>

lemma audit_ok_new:
  assumes "aid \<notin> au_audit_id ` set A" "aid \<noteq> []" "require_operator actor what = Inr ()" "timestamp_valid now"
  shows "audit_ok (A @ [\<lparr>au_audit_id = aid, au_subject_id = sid, au_action = action, au_actor = actor,
      au_payload_json = canonical_json (JObj payload), au_occurred_at = now\<rparr>]) aid sid action payload"
  using assms fetchone_fresh_key [OF assms(1)]
  by (auto simp: audit_ok_def fetchone_append require_operator_def split: if_splits)

lemma life_ok_audits: "life_ok E k A R l payload \<Longrightarrow> life_ok E k (A @ B) R l payload"
  by (auto simp: life_ok_def audit_ok_append)

lemma history_of_snoc: "history_of i (R @ [v]) = history_of i R @ (if rv_resource_id v = i then [v] else [])"
  by (simp add: history_of_def)

lemma life_ok_other:
  "rv_resource_id v \<noteq> lc_resource_id l \<Longrightarrow> life_ok E k A (R @ [v]) l payload = life_ok E k A R l payload"
  by (simp add: life_ok_def history_of_snoc)

lemma table_ok_audits: "table_ok E k life payload A R t \<Longrightarrow> table_ok E k life payload (A @ B) R t"
  by (auto simp: table_ok_def life_ok_audits)

lemma new_revision_fields [simp]:
  "rv_revision_id (new_revision E k rid i sid n status reason aid now) = rid"
  "rv_resource_id (new_revision E k rid i sid n status reason aid now) = i"
  "rv_subject_id (new_revision E k rid i sid n status reason aid now) = sid"
  "rv_revision_number (new_revision E k rid i sid n status reason aid now) = n"
  "rv_status (new_revision E k rid i sid n status reason aid now) = status"
  "rv_reason (new_revision E k rid i sid n status reason aid now) = reason"
  "rv_audit_id (new_revision E k rid i sid n status reason aid now) = aid"
  "rv_created_at (new_revision E k rid i sid n status reason aid now) = now"
  "rv_state_hash (new_revision E k rid i sid n status reason aid now)
     = revision_hash E k (new_revision E k rid i sid n status reason aid now)"
  by (simp_all add: new_revision_def Let_def revision_hash_def)

text \<open>The life cycle a registration starts, and what a revocation makes of it.\<close>

definition born :: "string \<Rightarrow> string \<Rightarrow> string \<Rightarrow> string \<Rightarrow> lifecycle" where
  "born i sid aid now = \<lparr>lc_resource_id = i, lc_subject_id = sid, lc_status = ''active'', lc_created_at = now,
     lc_revoked_at = None, lc_revoke_reason = None, lc_created_audit_id = aid, lc_revoked_audit_id = None\<rparr>"

definition ended :: "string \<Rightarrow> string \<Rightarrow> string \<Rightarrow> lifecycle \<Rightarrow> lifecycle" where
  "ended now reason aid l = l\<lparr>lc_status := ''revoked'', lc_revoked_at := Some now, lc_revoke_reason := Some reason,
     lc_revoked_audit_id := Some aid\<rparr>"

lemma life_ok_born:
  assumes a: "audit_ok A aid sid (''wallet_'' @ resource_name k @ ''_registered'') payload"
    and i: "is_ok (store_identifier i ''x'')" "is_ok (store_identifier aid ''x'')" "is_ok (validate_subject_id sid)"
    and now: "timestamp_valid now" and rid: "rid \<noteq> []" and new: "history_of i R = []"
  shows "life_ok E k A (R @ [new_revision E k rid i sid 1 ''active'' (''operator registered wallet '' @ resource_name k) aid now])
      (born i sid aid now) payload"
proof -
  have "aid \<noteq> []" using a by (auto simp: audit_ok_def)
  moreover have "\<not> blank (''operator registered wallet '' @ resource_name k)" by (simp add: blank_iff py_isspace_def)
  ultimately show ?thesis
    using assms by (auto simp: life_ok_def born_def lifecycle_valid_def store_identifier_def history_ok_def history_of_snoc revision_ok_def
        revision_invalid_def revision_mismatch_def expected_revisions_def split: if_splits)
qed

lemma life_ok_ended:
  assumes l: "life_ok E k A R l payload" "lc_status l = ''active''"
    and a: "audit_ok A aid (lc_subject_id l) (''wallet_'' @ resource_name k @ ''_revoked'')
      [(id_field k, JStr (lc_resource_id l)), (''reason'', JStr reason)]"
    and reason: "\<not> blank reason" "length reason \<le> 2000" and now: "timestamp_valid now" and rid: "rid \<noteq> []"
  shows "life_ok E k A (R @ [new_revision E k rid (lc_resource_id l) (lc_subject_id l) 2 ''revoked'' reason aid now])
      (ended now reason aid l) payload"
proof -
  have aid: "aid \<noteq> []" using a by (auto simp: audit_ok_def)
  obtain r where r: "history_of (lc_resource_id l) R = [r]" "revision_ok E k l 1 r"
    using l by (auto simp: life_ok_def history_ok_def)
  have "revision_ok E k (ended now reason aid l) 1 r"
    using r(2) l(2) by (auto simp: revision_ok_def revision_invalid_def revision_mismatch_def ended_def expected_revisions_def split: if_splits)
  moreover have "revision_ok E k (ended now reason aid l) 2
      (new_revision E k rid (lc_resource_id l) (lc_subject_id l) 2 ''revoked'' reason aid now)"
    using reason now rid aid by (simp add: revision_ok_def revision_invalid_def revision_mismatch_def ended_def expected_revisions_def)
  ultimately have h: "history_ok E k (ended now reason aid l) (history_of (lc_resource_id l)
      (R @ [new_revision E k rid (lc_resource_id l) (lc_subject_id l) 2 ''revoked'' reason aid now]))"
    by (simp add: history_of_snoc r(1) history_ok_def) (simp add: ended_def)
  show ?thesis
    unfolding life_ok_def using l a reason now aid h
    by (simp add: life_ok_def ended_def lifecycle_valid_def json_opt_def)
qed

section \<open>Tables\<close>

lemma table_ok_register:
  assumes t: "table_ok E k life payload A R t" and fresh: "i \<notin> (lc_resource_id \<circ> life) ` set t"
    and row: "life r = born i sid aid now" and audit: "audit_ok A aid sid (''wallet_'' @ resource_name k @ ''_registered'') (payload r)"
    and ids: "is_ok (store_identifier i ''x'')" "is_ok (store_identifier aid ''x'')" "is_ok (validate_subject_id sid)"
    and now: "timestamp_valid now" and rid: "rid \<noteq> []"
  shows "table_ok E k life payload A
      (R @ [new_revision E k rid i sid 1 ''active'' (''operator registered wallet '' @ resource_name k) aid now]) (t @ [r])"
proof -
  have i: "lc_resource_id (life r) = i" by (simp add: row born_def)
  have "history_of i R = []" using table_okD(3) [OF t] fresh by (auto simp: history_of_def filter_empty_conv)
  from life_ok_born [OF audit ids now rid this]
  have "life_ok E k A (R @ [new_revision E k rid i sid 1 ''active'' (''operator registered wallet '' @ resource_name k) aid now]) (life r) (payload r)"
    by (simp add: row)
  moreover have "life_ok E k A (R @ [new_revision E k rid i sid 1 ''active'' (''operator registered wallet '' @ resource_name k) aid now])
      (life x) (payload x)" if "x \<in> set t" for x
    using table_okD(2) [OF t that] fresh that by (subst life_ok_other) auto
  ultimately show ?thesis using table_okD(1,3) [OF t] fresh i by (auto simp: table_ok_def)
qed

lemma table_ok_revoke:
  assumes t: "table_ok E k life payload A R t" and r: "r \<in> set t" "lc_status (life r) = ''active''"
    and p: "\<And>x. x \<in> set t \<Longrightarrow> p x \<longleftrightarrow> x = r" and f: "life (f r) = ended now reason aid (life r)" "payload (f r) = payload r"
    and audit: "audit_ok A aid (lc_subject_id (life r)) (''wallet_'' @ resource_name k @ ''_revoked'')
      [(id_field k, JStr (lc_resource_id (life r))), (''reason'', JStr reason)]"
    and reason: "\<not> blank reason" "length reason \<le> 2000" and now: "timestamp_valid now" and rid: "rid \<noteq> []"
  shows "table_ok E k life payload A
      (R @ [new_revision E k rid (lc_resource_id (life r)) (lc_subject_id (life r)) 2 ''revoked'' reason aid now]) (update_where p f t)"
proof -
  let ?v = "new_revision E k rid (lc_resource_id (life r)) (lc_subject_id (life r)) 2 ''revoked'' reason aid now"
  have id: "lc_resource_id (life (f r)) = lc_resource_id (life r)" by (simp add: f ended_def)
  have ids: "map (lc_resource_id \<circ> life) (update_where p f t) = map (lc_resource_id \<circ> life) t"
    using p id by (auto simp: update_where_def)
  then have keys: "(lc_resource_id \<circ> life) ` set (update_where p f t) = (lc_resource_id \<circ> life) ` set t"
    by (metis list.set_map)
  have "life_ok E k A (R @ [?v]) (life x) (payload x)" if "x \<in> set (update_where p f t)" for x
  proof -
    from that obtain y where y: "y \<in> set t" "x = (if p y then f y else y)" unfolding set_update_where by blast
    then have y: "y \<in> set t" "x = (if y = r then f r else y)" using p [OF y(1)] by auto
    show ?thesis
    proof (cases "y = r")
      case True
      with y life_ok_ended [OF table_okD(2) [OF t r(1)] r(2) audit reason now rid] show ?thesis by (simp add: f)
    next
      case False
      then have "lc_resource_id (life y) \<noteq> lc_resource_id (life r)"
        using distinct_key_eq [OF table_okD(1) [OF t] y(1) r(1)] by auto
      with False y table_okD(2) [OF t y(1)] show ?thesis by (simp add: life_ok_other)
    qed
  qed
  with table_okD(1,3) [OF t] ids keys r(1) show ?thesis by (auto simp: table_ok_def)
qed

end
