(* ===== verification/RegistrySteps.thy ===== *)
theory RegistrySteps
  imports RegistryRevisions WalletPayments
begin

text \<open>
  What the transactions of the wallet registry write: a committed registration adds its
  audit, its row and the first revision; a revocation changes nothing or ends the life cycle of the active
  resource it names.
\<close>

section \<open>What a transaction writes\<close>

definition audit_of :: "env \<Rightarrow> string \<Rightarrow> string \<Rightarrow> string \<Rightarrow> (string \<times> json) list \<Rightarrow> 'a wallet_db_scheme \<Rightarrow> audit_row" where
  "audit_of E sid action actor payload db = \<lparr>au_audit_id = ''audit_'' @ env_uuid E (fresh_ids db), au_subject_id = sid,
     au_action = action, au_actor = actor, au_payload_json = canonical_json (JObj payload), au_occurred_at = env_clock E (ticks db)\<rparr>"

lemma wallet_audit_of:
  assumes "wallet_audit E sid action actor payload db = Inr (aid, db')"
  shows "aid = au_audit_id (audit_of E sid action actor payload db)" "aid \<notin> au_audit_id ` set (audit_records db)"
    "db' = db\<lparr>fresh_ids := Suc (fresh_ids db), ticks := Suc (ticks db),
       audit_records := audit_records db @ [audit_of E sid action actor payload db]\<rparr>"
  using wallet_audit_Inr [OF assms] by (simp_all add: audit_of_def)

lemma inserts_Inr:
  "insert_network n db = Inr db' \<Longrightarrow> db' = db\<lparr>wallet_networks := wallet_networks db @ [n]\<rparr>
     \<and> (\<forall>x\<in>set (wallet_networks db). \<not> network_clash n x) \<and> network_checks n"
  "insert_asset a db = Inr db' \<Longrightarrow> db' = db\<lparr>wallet_assets := wallet_assets db @ [a]\<rparr>
     \<and> (\<forall>x\<in>set (wallet_assets db). \<not> asset_clash a x)"
  "insert_address d db = Inr db' \<Longrightarrow> db' = db\<lparr>wallet_addresses := wallet_addresses db @ [d]\<rparr>
     \<and> (\<forall>x\<in>set (wallet_addresses db). \<not> address_clash d x)"
  by (auto simp: insert_network_def insert_asset_def insert_address_def split: if_splits)

text \<open>A committed registration adds its audit, its row and the first revision.\<close>

lemma register_network_transaction_Inr:
  assumes "register_network_transaction E sid p actor i now db = Inr db'"
  obtains a n rid where "a = audit_of E sid ''wallet_network_registered'' actor (network_payload (new_network E i sid p '''' now)) db"
    "n = new_network E i sid p (au_audit_id a) now"
    "rid \<noteq> []" "au_audit_id a \<notin> au_audit_id ` set (audit_records db)"
    "\<forall>x\<in>set (wallet_networks db). \<not> network_clash n x" "network_checks n"
    "db' = db\<lparr>fresh_ids := Suc (Suc (fresh_ids db)), ticks := Suc (ticks db), audit_records := audit_records db @ [a],
       wallet_networks := wallet_networks db @ [n], wallet_network_revisions := wallet_network_revisions db
         @ [new_revision E Network rid i sid 1 ''active'' (''operator registered wallet '' @ resource_name Network) (au_audit_id a) now]\<rparr>"
proof -
  from assms(1) obtain aid db1 db2 where s: "wallet_audit E sid ''wallet_network_registered'' actor
        (network_payload (new_network E i sid p '''' now)) db = Inr (aid, db1)"
      "insert_network (new_network E i sid p aid now) db1 = Inr db2"
      "insert_revision E Network i sid 1 ''active'' ''operator registered wallet network'' aid now db2 = Inr db'"
    by (auto simp: register_network_transaction_def split: if_splits)
  note a = wallet_audit_of [OF s(1)] and n = inserts_Inr(1) [OF s(2)] and v = insert_revision_Inr [OF s(3)]
  show thesis
    by (rule that [of "audit_of E sid ''wallet_network_registered'' actor (network_payload (new_network E i sid p '''' now)) db" "new_network E i sid p (au_audit_id (audit_of E sid ''wallet_network_registered'' actor (network_payload (new_network E i sid p '''' now)) db)) now" "''walletnetworkrev_'' @ env_uuid E (Suc (fresh_ids db))"])
      (use a n v in \<open>simp_all add: set_revisions_def resource_name_def\<close>)
qed

lemma register_asset_transaction_Inr:
  assumes "register_asset_transaction E U sid p actor i now db = Inr db'"
  obtains a n rid w where "a = audit_of E sid ''wallet_asset_registered'' actor (asset_payload (new_asset E i sid p '''' now)) db"
    "n = new_asset E i sid p (au_audit_id a) now"
    "rid \<noteq> []" "au_audit_id a \<notin> au_audit_id ` set (audit_records db)"
    "\<forall>x\<in>set (wallet_assets db). \<not> asset_clash n x"
    "w \<in> set (wallet_networks db)" "nw_network_id w = ai_network_id p" "nw_subject_id w = sid" "nw_status w = ''active''"
    "ai_asset_type p = ''native'' \<longrightarrow> ai_symbol p = nw_native_symbol w"
    "db' = db\<lparr>fresh_ids := Suc (Suc (fresh_ids db)), ticks := Suc (ticks db), audit_records := audit_records db @ [a],
       wallet_assets := wallet_assets db @ [n], wallet_asset_revisions := wallet_asset_revisions db
         @ [new_revision E Asset rid i sid 1 ''active'' (''operator registered wallet '' @ resource_name Asset) (au_audit_id a) now]\<rparr>"
proof -
  from assms(1) obtain w r aid db1 db2 where s: "network_row_of (ai_network_id p) sid db = Inr w" "network_from_row E U w = Inr r"
      "nr_status r = ''active''" "ai_asset_type p = ''native'' \<longrightarrow> ai_symbol p = nr_native_symbol r"
      "wallet_audit E sid ''wallet_asset_registered'' actor (asset_payload (new_asset E i sid p '''' now)) db = Inr (aid, db1)"
      "insert_asset (new_asset E i sid p aid now) db1 = Inr db2"
      "insert_revision E Asset i sid 1 ''active'' ''operator registered wallet asset'' aid now db2 = Inr db'"
    by (auto simp: register_asset_transaction_def split: if_splits)
  have w: "w \<in> set (wallet_networks db)" "nw_network_id w = ai_network_id p" "nw_subject_id w = sid"
    using s(1) by (auto simp: network_row_of_def dest: fetchone_Some split: option.splits)
  have r: "nr_status r = nw_status w" "nr_native_symbol r = nw_native_symbol w"
    using s(2) by (auto simp: network_from_row_def network_row_input_def split: if_splits)
  note a = wallet_audit_of [OF s(5)] and n = inserts_Inr(2) [OF s(6)] and v = insert_revision_Inr [OF s(7)]
  show thesis
    by (rule that [of "audit_of E sid ''wallet_asset_registered'' actor (asset_payload (new_asset E i sid p '''' now)) db" "new_asset E i sid p (au_audit_id (audit_of E sid ''wallet_asset_registered'' actor (asset_payload (new_asset E i sid p '''' now)) db)) now" "''walletassetrev_'' @ env_uuid E (Suc (fresh_ids db))" w])
      (use a n v w r s(3,4) in \<open>simp_all add: set_revisions_def resource_name_def\<close>)
qed

lemma register_address_transaction_Inr:
  assumes "register_address_transaction E U sid p actor i now db = Inr db'"
  obtains a n rid w where "a = audit_of E sid ''wallet_address_registered'' actor (address_payload (new_address E i sid p '''' now)) db"
    "n = new_address E i sid p (au_audit_id a) now"
    "rid \<noteq> []" "au_audit_id a \<notin> au_audit_id ` set (audit_records db)"
    "\<forall>x\<in>set (wallet_addresses db). \<not> address_clash n x"
    "w \<in> set (wallet_networks db)" "nw_network_id w = di_network_id p" "nw_subject_id w = sid" "nw_status w = ''active''"
    "db' = db\<lparr>fresh_ids := Suc (Suc (fresh_ids db)), ticks := Suc (ticks db), audit_records := audit_records db @ [a],
       wallet_addresses := wallet_addresses db @ [n], wallet_address_revisions := wallet_address_revisions db
         @ [new_revision E Address rid i sid 1 ''active'' (''operator registered wallet '' @ resource_name Address) (au_audit_id a) now]\<rparr>"
proof -
  from assms(1) obtain w r aid db1 db2 where s: "network_row_of (di_network_id p) sid db = Inr w" "network_from_row E U w = Inr r"
      "nr_status r = ''active''"
      "wallet_audit E sid ''wallet_address_registered'' actor (address_payload (new_address E i sid p '''' now)) db = Inr (aid, db1)"
      "insert_address (new_address E i sid p aid now) db1 = Inr db2"
      "insert_revision E Address i sid 1 ''active'' ''operator registered wallet address'' aid now db2 = Inr db'"
    by (auto simp: register_address_transaction_def split: if_splits)
  have w: "w \<in> set (wallet_networks db)" "nw_network_id w = di_network_id p" "nw_subject_id w = sid"
    using s(1) by (auto simp: network_row_of_def dest: fetchone_Some split: option.splits)
  have r: "nr_status r = nw_status w"
    using s(2) by (auto simp: network_from_row_def split: if_splits)
  note a = wallet_audit_of [OF s(4)] and n = inserts_Inr(3) [OF s(5)] and v = insert_revision_Inr [OF s(6)]
  show thesis
    by (rule that [of "audit_of E sid ''wallet_address_registered'' actor (address_payload (new_address E i sid p '''' now)) db" "new_address E i sid p (au_audit_id (audit_of E sid ''wallet_address_registered'' actor (address_payload (new_address E i sid p '''' now)) db)) now" "''walletaddressrev_'' @ env_uuid E (Suc (fresh_ids db))" w])
      (use a n v w r s(3) in \<open>simp_all add: set_revisions_def resource_name_def\<close>)
qed

text \<open>A revocation changes nothing, or ends the life cycle of the active resource it names.\<close>

lemma revoke_network_cases:
  assumes "revoke_network E U i reason actor sid db = (res, db')"
  obtains (failed) e where "res = Inl e" "db' = db"
  | (already) row r where "network_row_of i sid db = Inr row" "network_from_row E U row = Inr r" "nr_status r = ''revoked''" "res = Inr r" "db' = db"
  | (revoked) why row rid a where "require_operator actor ''revoke a wallet network'' = Inr ()" "why = py_strip reason" "\<not> blank why" "length why \<le> 2000"
    "row \<in> set (wallet_networks db)" "nw_network_id row = i" "nw_subject_id row = sid" "nw_status row = ''active''"
    "\<not> has_active_children sid i db" "is_ok (network_from_row E U row)"
    "rid \<noteq> []" "a = audit_of E sid ''wallet_network_revoked'' actor [(''network_id'', JStr i), (''reason'', JStr why)] (db\<lparr>ticks := Suc (ticks db)\<rparr>)"
    "au_audit_id a \<notin> au_audit_id ` set (audit_records db)"
    "res = get_network E U i sid db'"
    "db' = db\<lparr>fresh_ids := Suc (Suc (fresh_ids db)), ticks := Suc (Suc (ticks db)), audit_records := audit_records db @ [a],
       wallet_networks := update_where (\<lambda>r. nw_network_id r = i \<and> nw_subject_id r = sid)
         (\<lambda>r. r\<lparr>nw_status := ''revoked'', nw_state_hash := nw_state_hash (revoked_network E (env_clock E (ticks db)) why (au_audit_id a) row),
            nw_revoked_at := Some (env_clock E (ticks db)), nw_revoke_reason := Some why, nw_revoked_audit_id := Some (au_audit_id a)\<rparr>)
         (wallet_networks db),
       wallet_network_revisions := wallet_network_revisions db
         @ [new_revision E Network rid i sid 2 ''revoked'' why (au_audit_id a) (env_clock E (ticks db))]\<rparr>"
proof (cases "db' = db \<and> ((\<exists>e. res = Inl e) \<or> (\<exists>row r. network_row_of i sid db = Inr row \<and> network_from_row E U row = Inr r
    \<and> nr_status r = ''revoked'' \<and> res = Inr r))")
  case False
  let ?pre = "res_bind (require_operator actor ''revoke a wallet network'') (\<lambda>_. res_bind (revoke_reason_text reason) (\<lambda>reason.
           res_bind (validate_subject_id sid) (\<lambda>_. res_bind (network_row_of i sid db) (\<lambda>row.
           res_bind (network_from_row E U row) (\<lambda>r. Inr (reason, row, r))))))"
  obtain why row r where p: "?pre = Inr (why, row, r)" "nr_status r \<noteq> ''revoked''"
      "\<not> has_active_children sid i db"
    using assms False by (auto simp: revoke_network_def committed_def split: sum.splits if_splits prod.splits)
  from p(1) have c: "require_operator actor ''revoke a wallet network'' = Inr ()" "revoke_reason_text reason = Inr why"
      "network_row_of i sid db = Inr row" "network_from_row E U row = Inr r" by auto
  have why: "why = py_strip reason" "\<not> blank why" "length why \<le> 2000"
    using c(2) by (auto simp: revoke_reason_text_def Let_def blank_def split: if_splits)
  have row: "row \<in> set (wallet_networks db)" "nw_network_id row = i" "nw_subject_id row = sid"
    using c(3) by (auto simp: network_row_of_def dest: fetchone_Some split: option.splits)
  have st: "nw_status row = ''active''"
    using c(4) p(2) by (auto simp: network_from_row_def lifecycle_values_def lifecycle_valid_def network_life_def split: if_splits)
  let ?now = "env_clock E (ticks db)"
  let ?payload = "[(''network_id'', JStr i), (''reason'', JStr why)]"
  from assms False p obtain aid db2 db3 where s: "wallet_audit E sid ''wallet_network_revoked'' actor ?payload (db\<lparr>ticks := Suc (ticks db)\<rparr>) = Inr (aid, db2)"
      "update_network E row ?now why aid db2 = Inr db3" "insert_revision E Network i sid 2 ''revoked'' why aid ?now db3 = Inr db'"
      "res = get_network E U i sid db'"
    by (auto simp: revoke_network_def committed_def utc_now_def split: sum.splits if_splits)
  note a = wallet_audit_of [OF s(1)] and v = insert_revision_Inr [OF s(3)]
  have u: "db3 = db2\<lparr>wallet_networks := update_where (\<lambda>r. nw_network_id r = i \<and> nw_subject_id r = sid)
         (\<lambda>r. r\<lparr>nw_status := ''revoked'', nw_state_hash := nw_state_hash (revoked_network E ?now why aid row),
            nw_revoked_at := Some ?now, nw_revoke_reason := Some why, nw_revoked_audit_id := Some aid\<rparr>)
         (wallet_networks db2)\<rparr>"
    using s(2) row(2,3) by (auto simp: update_network_def Let_def update_guarded_Inr split: if_splits)
  show thesis
    by (rule revoked [of why row "''walletnetworkrev_'' @ env_uuid E (Suc (fresh_ids db))"
          "audit_of E sid ''wallet_network_revoked'' actor ?payload (db\<lparr>ticks := Suc (ticks db)\<rparr>)"])
      (use c(1,4) why row st p(2-) a v u s(4) in \<open>simp_all add: set_revisions_def resource_name_def\<close>)
qed (use failed already in blast)

lemma revoke_asset_cases:
  assumes "revoke_asset E i reason actor sid db = (res, db')"
  obtains (failed) e where "res = Inl e" "db' = db"
  | (already) row r where "asset_row_of i sid db = Inr row" "asset_from_row E row = Inr r" "sr_status r = ''revoked''" "res = Inr r" "db' = db"
  | (revoked) why row rid a where "require_operator actor ''revoke a wallet asset'' = Inr ()" "why = py_strip reason" "\<not> blank why" "length why \<le> 2000"
    "row \<in> set (wallet_assets db)" "as_asset_id row = i" "as_subject_id row = sid" "as_status row = ''active''"
    "rid \<noteq> []" "a = audit_of E sid ''wallet_asset_revoked'' actor [(''asset_id'', JStr i), (''reason'', JStr why)] (db\<lparr>ticks := Suc (ticks db)\<rparr>)"
    "au_audit_id a \<notin> au_audit_id ` set (audit_records db)"
    "res = get_asset E i sid db'"
    "db' = db\<lparr>fresh_ids := Suc (Suc (fresh_ids db)), ticks := Suc (Suc (ticks db)), audit_records := audit_records db @ [a],
       wallet_assets := update_where (\<lambda>r. as_asset_id r = i \<and> as_subject_id r = sid)
         (\<lambda>r. r\<lparr>as_status := ''revoked'', as_state_hash := as_state_hash (revoked_asset E (env_clock E (ticks db)) why (au_audit_id a) row),
            as_revoked_at := Some (env_clock E (ticks db)), as_revoke_reason := Some why, as_revoked_audit_id := Some (au_audit_id a)\<rparr>)
         (wallet_assets db),
       wallet_asset_revisions := wallet_asset_revisions db
         @ [new_revision E Asset rid i sid 2 ''revoked'' why (au_audit_id a) (env_clock E (ticks db))]\<rparr>"
proof (cases "db' = db \<and> ((\<exists>e. res = Inl e) \<or> (\<exists>row r. asset_row_of i sid db = Inr row \<and> asset_from_row E row = Inr r
    \<and> sr_status r = ''revoked'' \<and> res = Inr r))")
  case False
  let ?pre = "res_bind (require_operator actor ''revoke a wallet asset'') (\<lambda>_. res_bind (revoke_reason_text reason) (\<lambda>reason.
           res_bind (validate_subject_id sid) (\<lambda>_. res_bind (asset_row_of i sid db) (\<lambda>row.
           res_bind (asset_from_row E row) (\<lambda>r. Inr (reason, row, r))))))"
  obtain why row r where p: "?pre = Inr (why, row, r)" "sr_status r \<noteq> ''revoked''"
    using assms False by (auto simp: revoke_asset_def committed_def split: sum.splits if_splits prod.splits)
  from p(1) have c: "require_operator actor ''revoke a wallet asset'' = Inr ()" "revoke_reason_text reason = Inr why"
      "asset_row_of i sid db = Inr row" "asset_from_row E row = Inr r" by auto
  have why: "why = py_strip reason" "\<not> blank why" "length why \<le> 2000"
    using c(2) by (auto simp: revoke_reason_text_def Let_def blank_def split: if_splits)
  have row: "row \<in> set (wallet_assets db)" "as_asset_id row = i" "as_subject_id row = sid"
    using c(3) by (auto simp: asset_row_of_def dest: fetchone_Some split: option.splits)
  have st: "as_status row = ''active''"
    using c(4) p(2) by (auto simp: asset_from_row_def lifecycle_values_def lifecycle_valid_def asset_life_def split: if_splits)
  let ?now = "env_clock E (ticks db)"
  let ?payload = "[(''asset_id'', JStr i), (''reason'', JStr why)]"
  from assms False p obtain aid db2 db3 where s: "wallet_audit E sid ''wallet_asset_revoked'' actor ?payload (db\<lparr>ticks := Suc (ticks db)\<rparr>) = Inr (aid, db2)"
      "update_asset E row ?now why aid db2 = Inr db3" "insert_revision E Asset i sid 2 ''revoked'' why aid ?now db3 = Inr db'"
      "res = get_asset E i sid db'"
    by (auto simp: revoke_asset_def committed_def utc_now_def split: sum.splits if_splits)
  note a = wallet_audit_of [OF s(1)] and v = insert_revision_Inr [OF s(3)]
  have u: "db3 = db2\<lparr>wallet_assets := update_where (\<lambda>r. as_asset_id r = i \<and> as_subject_id r = sid)
         (\<lambda>r. r\<lparr>as_status := ''revoked'', as_state_hash := as_state_hash (revoked_asset E ?now why aid row),
            as_revoked_at := Some ?now, as_revoke_reason := Some why, as_revoked_audit_id := Some aid\<rparr>)
         (wallet_assets db2)\<rparr>"
    using s(2) row(2,3) by (auto simp: update_asset_def Let_def update_guarded_Inr split: if_splits)
  show thesis
    by (rule revoked [of why row "''walletassetrev_'' @ env_uuid E (Suc (fresh_ids db))"
          "audit_of E sid ''wallet_asset_revoked'' actor ?payload (db\<lparr>ticks := Suc (ticks db)\<rparr>)"])
      (use c(1) why row st p(2-) a v u s(4) in \<open>simp_all add: set_revisions_def resource_name_def\<close>)
qed (use failed already in blast)

lemma revoke_address_cases:
  assumes "revoke_address E i reason actor sid db = (res, db')"
  obtains (failed) e where "res = Inl e" "db' = db"
  | (already) row r where "address_row_of i sid db = Inr row" "address_from_row E row = Inr r" "dr_status r = ''revoked''" "res = Inr r" "db' = db"
  | (revoked) why row rid a where "require_operator actor ''revoke a wallet address'' = Inr ()" "why = py_strip reason" "\<not> blank why" "length why \<le> 2000"
    "row \<in> set (wallet_addresses db)" "ad_address_id row = i" "ad_subject_id row = sid" "ad_status row = ''active''"
    "rid \<noteq> []" "a = audit_of E sid ''wallet_address_revoked'' actor [(''address_id'', JStr i), (''reason'', JStr why)] (db\<lparr>ticks := Suc (ticks db)\<rparr>)"
    "au_audit_id a \<notin> au_audit_id ` set (audit_records db)"
    "res = get_address E i sid db'"
    "db' = db\<lparr>fresh_ids := Suc (Suc (fresh_ids db)), ticks := Suc (Suc (ticks db)), audit_records := audit_records db @ [a],
       wallet_addresses := update_where (\<lambda>r. ad_address_id r = i \<and> ad_subject_id r = sid)
         (\<lambda>r. r\<lparr>ad_status := ''revoked'', ad_state_hash := ad_state_hash (revoked_address E (env_clock E (ticks db)) why (au_audit_id a) row),
            ad_revoked_at := Some (env_clock E (ticks db)), ad_revoke_reason := Some why, ad_revoked_audit_id := Some (au_audit_id a)\<rparr>)
         (wallet_addresses db),
       wallet_address_revisions := wallet_address_revisions db
         @ [new_revision E Address rid i sid 2 ''revoked'' why (au_audit_id a) (env_clock E (ticks db))]\<rparr>"
proof (cases "db' = db \<and> ((\<exists>e. res = Inl e) \<or> (\<exists>row r. address_row_of i sid db = Inr row \<and> address_from_row E row = Inr r
    \<and> dr_status r = ''revoked'' \<and> res = Inr r))")
  case False
  let ?pre = "res_bind (require_operator actor ''revoke a wallet address'') (\<lambda>_. res_bind (revoke_reason_text reason) (\<lambda>reason.
           res_bind (validate_subject_id sid) (\<lambda>_. res_bind (address_row_of i sid db) (\<lambda>row.
           res_bind (address_from_row E row) (\<lambda>r. Inr (reason, row, r))))))"
  obtain why row r where p: "?pre = Inr (why, row, r)" "dr_status r \<noteq> ''revoked''"
    using assms False by (auto simp: revoke_address_def committed_def split: sum.splits if_splits prod.splits)
  from p(1) have c: "require_operator actor ''revoke a wallet address'' = Inr ()" "revoke_reason_text reason = Inr why"
      "address_row_of i sid db = Inr row" "address_from_row E row = Inr r" by auto
  have why: "why = py_strip reason" "\<not> blank why" "length why \<le> 2000"
    using c(2) by (auto simp: revoke_reason_text_def Let_def blank_def split: if_splits)
  have row: "row \<in> set (wallet_addresses db)" "ad_address_id row = i" "ad_subject_id row = sid"
    using c(3) by (auto simp: address_row_of_def dest: fetchone_Some split: option.splits)
  have st: "ad_status row = ''active''"
    using c(4) p(2) by (auto simp: address_from_row_def lifecycle_values_def lifecycle_valid_def address_life_def split: if_splits)
  let ?now = "env_clock E (ticks db)"
  let ?payload = "[(''address_id'', JStr i), (''reason'', JStr why)]"
  from assms False p obtain aid db2 db3 where s: "wallet_audit E sid ''wallet_address_revoked'' actor ?payload (db\<lparr>ticks := Suc (ticks db)\<rparr>) = Inr (aid, db2)"
      "update_address E row ?now why aid db2 = Inr db3" "insert_revision E Address i sid 2 ''revoked'' why aid ?now db3 = Inr db'"
      "res = get_address E i sid db'"
    by (auto simp: revoke_address_def committed_def utc_now_def split: sum.splits if_splits)
  note a = wallet_audit_of [OF s(1)] and v = insert_revision_Inr [OF s(3)]
  have u: "db3 = db2\<lparr>wallet_addresses := update_where (\<lambda>r. ad_address_id r = i \<and> ad_subject_id r = sid)
         (\<lambda>r. r\<lparr>ad_status := ''revoked'', ad_state_hash := ad_state_hash (revoked_address E ?now why aid row),
            ad_revoked_at := Some ?now, ad_revoke_reason := Some why, ad_revoked_audit_id := Some aid\<rparr>)
         (wallet_addresses db2)\<rparr>"
    using s(2) row(2,3) by (auto simp: update_address_def Let_def update_guarded_Inr split: if_splits)
  show thesis
    by (rule revoked [of why row "''walletaddressrev_'' @ env_uuid E (Suc (fresh_ids db))"
          "audit_of E sid ''wallet_address_revoked'' actor ?payload (db\<lparr>ticks := Suc (ticks db)\<rparr>)"])
      (use c(1) why row st p(2-) a v u s(4) in \<open>simp_all add: set_revisions_def resource_name_def\<close>)
qed (use failed already in blast)

end
