(* ===== verification/RegistryKeeps.thy ===== *)
theory RegistryKeeps
  imports RegistrySteps
begin

text \<open>
  Every transaction of the registry keeps \<open>registry_ok\<close>, and says what it returned and wrote: the
  effect lemmas of the three registrations and the three revocations.
\<close>

section \<open>References between tables\<close>

abbreviation network_key :: "network_row \<Rightarrow> string \<times> string" where
  "network_key n \<equiv> (nw_network_id n, nw_subject_id n)"

abbreviation asset_key :: "asset_row \<Rightarrow> string \<times> string \<times> string" where
  "asset_key a \<equiv> (as_asset_id a, as_subject_id a, as_network_id a)"

abbreviation address_key :: "address_row \<Rightarrow> string \<times> string \<times> string" where
  "address_key d \<equiv> (ad_address_id d, ad_subject_id d, ad_network_id d)"

lemma image_Bex: "x \<in> f ` S \<longleftrightarrow> (\<exists>y\<in>S. f y = x)"
  by auto

lemma snapshot_ok_keys:
  "snapshot_ok E db s \<longleftrightarrow> balance_from_row E s = Inr s
     \<and> (bs_network_id s, bs_subject_id s) \<in> network_key ` set (wallet_networks db)
     \<and> (bs_asset_id s, bs_subject_id s, bs_network_id s) \<in> asset_key ` set (wallet_assets db)
     \<and> (bs_address_id s, bs_subject_id s, bs_network_id s) \<in> address_key ` set (wallet_addresses db)"
  by (simp add: snapshot_ok_def image_Bex)

lemma snapshot_ok_mono:
  assumes "snapshot_ok E db s" "network_key ` set (wallet_networks db) \<subseteq> network_key ` set (wallet_networks db')"
    "asset_key ` set (wallet_assets db) \<subseteq> asset_key ` set (wallet_assets db')"
    "address_key ` set (wallet_addresses db) \<subseteq> address_key ` set (wallet_addresses db')"
  shows "snapshot_ok E db' s"
  using assms(1) subsetD [OF assms(2)] subsetD [OF assms(3)] subsetD [OF assms(4)] unfolding snapshot_ok_keys by simp

lemma asset_ok_mono: "asset_ok E N a \<Longrightarrow> set N \<subseteq> set M \<Longrightarrow> asset_ok E M a"
  unfolding asset_ok_def by blast

lemma address_ok_mono: "address_ok E N a \<Longrightarrow> set N \<subseteq> set M \<Longrightarrow> address_ok E M a"
  unfolding address_ok_def by blast

lemma asset_ok_update:
  assumes "asset_ok E N a" "\<And>n. p n \<Longrightarrow> nw_network_id (f n) = nw_network_id n \<and> nw_subject_id (f n) = nw_subject_id n
      \<and> nw_native_symbol (f n) = nw_native_symbol n"
    and "\<And>n. p n \<Longrightarrow> nw_network_id n = as_network_id a \<Longrightarrow> nw_subject_id n = as_subject_id a \<Longrightarrow> as_status a \<noteq> ''active''"
  shows "asset_ok E (update_where p f N) a"
proof -
  from assms(1) obtain n where n: "n \<in> set N" "nw_network_id n = as_network_id a" "nw_subject_id n = as_subject_id a"
      "as_asset_type a = ''native'' \<longrightarrow> as_symbol a = nw_native_symbol n" "as_status a = ''active'' \<longrightarrow> nw_status n = ''active''"
    by (auto simp: asset_ok_def)
  then have "(if p n then f n else n) \<in> set (update_where p f N)" by (auto simp: update_where_def)
  with n assms show ?thesis unfolding asset_ok_def by (intro conjI bexI [of _ "if p n then f n else n"]) auto
qed

lemma address_ok_update:
  assumes "address_ok E N a" "\<And>n. p n \<Longrightarrow> nw_network_id (f n) = nw_network_id n \<and> nw_subject_id (f n) = nw_subject_id n"
    and "\<And>n. p n \<Longrightarrow> nw_network_id n = ad_network_id a \<Longrightarrow> nw_subject_id n = ad_subject_id a \<Longrightarrow> ad_status a \<noteq> ''active''"
  shows "address_ok E (update_where p f N) a"
proof -
  from assms(1) obtain n where n: "n \<in> set N" "nw_network_id n = ad_network_id a" "nw_subject_id n = ad_subject_id a"
      "ad_status a = ''active'' \<longrightarrow> nw_status n = ''active''"
    by (auto simp: address_ok_def)
  then have "(if p n then f n else n) \<in> set (update_where p f N)" by (auto simp: update_where_def)
  with n assms show ?thesis unfolding address_ok_def by (intro conjI bexI [of _ "if p n then f n else n"]) auto
qed

section \<open>New rows\<close>

lemma new_row_inputs [simp]:
  "network_row_input (new_network E i sid p aid now) = p" "asset_row_input (new_asset E i sid q aid now) = q"
  "address_row_input (new_address E i sid r aid now) = r"
  by (simp_all add: new_network_def network_row_input_def new_asset_def asset_row_input_def new_address_def address_row_input_def Let_def)

lemma new_row_hashes [simp]:
  "nw_state_hash (new_network E i sid p aid now) = network_hash E (new_network E i sid p aid now)"
  "as_state_hash (new_asset E i sid q aid now) = asset_hash E (new_asset E i sid q aid now)"
  "ad_state_hash (new_address E i sid r aid now) = address_hash E (new_address E i sid r aid now)"
  by (simp_all add: new_network_def network_hash_def new_asset_def asset_hash_def new_address_def address_hash_def Let_def)

lemma new_network_ok:
  assumes "validate_network_input U input = Inr p"
  shows "network_ok E U (new_network E i sid p aid now)" "network_life (new_network E i sid p aid now) = born i sid aid now"
    "network_payload (new_network E i sid p aid now) = network_payload (new_network E i sid p '''' now)"
    "nw_network_id (new_network E i sid p aid now) = i" "nw_subject_id (new_network E i sid p aid now) = sid"
  using validate_network_input_normal [OF assms]
  by (simp_all add: network_ok_def origin_stable_def) (simp_all add: new_network_def Let_def network_life_def born_def network_payload_def)

lemma new_asset_ok:
  assumes "validate_asset_input p = Inr p" "w \<in> set N" "nw_network_id w = ai_network_id p" "nw_subject_id w = sid" "nw_status w = ''active''"
    "ai_asset_type p = ''native'' \<longrightarrow> ai_symbol p = nw_native_symbol w"
  shows "asset_ok E N (new_asset E i sid p aid now)"
  unfolding asset_ok_def using assms
  by (intro conjI bexI [OF _ assms(2)]) (simp_all, simp_all add: new_asset_def Let_def)

lemma new_asset_fields:
  "asset_life (new_asset E i sid p aid now) = born i sid aid now"
  "asset_payload (new_asset E i sid p aid now) = asset_payload (new_asset E i sid p '''' now)"
  "as_asset_id (new_asset E i sid p aid now) = i" "as_subject_id (new_asset E i sid p aid now) = sid"
  by (simp_all add: new_asset_def Let_def asset_life_def born_def asset_payload_def)

lemma new_address_ok:
  assumes "validate_address_input p = Inr p" "w \<in> set N" "nw_network_id w = di_network_id p" "nw_subject_id w = sid" "nw_status w = ''active''"
  shows "address_ok E N (new_address E i sid p aid now)"
  unfolding address_ok_def using assms
  by (intro conjI bexI [OF _ assms(2)]) (simp_all, simp_all add: new_address_def Let_def)

lemma new_address_fields:
  "address_life (new_address E i sid p aid now) = born i sid aid now"
  "address_payload (new_address E i sid p aid now) = address_payload (new_address E i sid p '''' now)"
  "ad_address_id (new_address E i sid p aid now) = i" "ad_subject_id (new_address E i sid p aid now) = sid"
  by (simp_all add: new_address_def Let_def address_life_def born_def address_payload_def)

lemma audit_of_id: "au_audit_id (audit_of E sid action actor payload db) = ''audit_'' @ env_uuid E (fresh_ids db)"
  by (simp add: audit_of_def)

lemma audit_of_ok:
  assumes "clock_valid E" "au_audit_id (audit_of E sid action actor payload db) \<notin> au_audit_id ` set A" "require_operator actor what = Inr ()"
  shows "audit_ok (A @ [audit_of E sid action actor payload db]) (au_audit_id (audit_of E sid action actor payload db)) sid action payload"
    "is_ok (store_identifier (au_audit_id (audit_of E sid action actor payload db)) f)"
proof -
  show "audit_ok (A @ [audit_of E sid action actor payload db]) (au_audit_id (audit_of E sid action actor payload db)) sid action payload"
    using audit_ok_new [OF assms(2) _ assms(3) clock_validD(1) [OF assms(1), of "ticks db"], of sid action payload] by (simp add: audit_of_def)
  show "is_ok (store_identifier (au_audit_id (audit_of E sid action actor payload db)) f)"
    using store_identifier_drawn [OF assms(1), of "CHR ''a''" "''udit_''" "fresh_ids db" f] by (simp add: audit_of_def py_isspace_def)
qed

lemma registering_Inr:
  assumes "registering E pfx what sid actor db = Inr (i, now, db1)"
  shows "require_operator actor what = Inr ()" "is_ok (validate_subject_id sid)" "i = pfx @ ''_'' @ env_uuid E (fresh_ids db)"
    "now = env_clock E (ticks db)" "db1 = db\<lparr>fresh_ids := Suc (fresh_ids db), ticks := Suc (ticks db)\<rparr>"
  using assms by (auto simp: registering_def new_id_def utc_now_def is_ok_iff)

section \<open>Registrations\<close>

lemma catch_sqlite_Inr [simp]: "catch_sqlite m x = Inr y \<longleftrightarrow> x = Inr y"
  by (auto simp: catch_sqlite_def split: sum.splits py_error.splits)

lemma committed_cases:
  assumes "committed read db m = (res, db')"
  obtains (failed) e where "m = Inl e" "res = Inl e" "db' = db" | (wrote) "m = Inr db'" "res = read db'"
  using assms by (cases m) (auto simp: committed_def)

lemma registry_okI:
  assumes "table_ok E Network network_life network_payload (audit_records db) (wallet_network_revisions db) (wallet_networks db)"
    "table_ok E Asset asset_life asset_payload (audit_records db) (wallet_asset_revisions db) (wallet_assets db)"
    "table_ok E Address address_life address_payload (audit_records db) (wallet_address_revisions db) (wallet_addresses db)"
    "\<And>n. n \<in> set (wallet_networks db) \<Longrightarrow> network_ok E U n" "\<And>a. a \<in> set (wallet_assets db) \<Longrightarrow> asset_ok E (wallet_networks db) a"
    "\<And>d. d \<in> set (wallet_addresses db) \<Longrightarrow> address_ok E (wallet_networks db) d"
    "\<And>s. s \<in> set (wallet_balance_snapshots db) \<Longrightarrow> snapshot_ok E db s"
  shows "registry_ok E U db"
  using assms by (simp add: registry_ok_def)

lemma registry_ok_audits:
  assumes ok: "registry_ok E U db"
    and same: "wallet_networks db' = wallet_networks db" "wallet_assets db' = wallet_assets db" "wallet_addresses db' = wallet_addresses db"
      "wallet_balance_snapshots db' = wallet_balance_snapshots db" "wallet_network_revisions db' = wallet_network_revisions db"
      "wallet_asset_revisions db' = wallet_asset_revisions db" "wallet_address_revisions db' = wallet_address_revisions db"
      "audit_records db' = audit_records db @ B"
  shows "registry_ok E U db'"
  using ok same snapshot_ok_mono [of E db _ db'] by (simp add: registry_ok_def table_ok_audits)

text \<open>What the three registrations share: the identifier, the audit and the first revision start the life cycle.\<close>

lemma registered_table:
  assumes env: "clock_valid E" and v: "registering E (c # pfx) what sid actor db = Inr (i, now, db1)" "\<not> py_isspace c" "length pfx \<le> 94"
    and t: "table_ok E k life payload (audit_records db) R t" and fresh: "i \<notin> (lc_resource_id \<circ> life) ` set t"
    and a: "a = audit_of E sid (''wallet_'' @ resource_name k @ ''_registered'') actor (payload r) db1"
      "au_audit_id a \<notin> au_audit_id ` set (audit_records db1)"
    and r: "life r = born i sid (au_audit_id a) now" and rid: "rid \<noteq> []"
  shows "table_ok E k life payload (audit_records db @ [a])
      (R @ [new_revision E k rid i sid 1 ''active'' (''operator registered wallet '' @ resource_name k) (au_audit_id a) now]) (t @ [r])"
    "is_ok (store_identifier i f)"
proof -
  note g = registering_Inr [OF v(1)]
  have i: "is_ok (store_identifier i f)" for f
    using store_identifier_drawn [OF env v(2), of "pfx @ ''_''" "fresh_ids db" f] v(3) by (simp add: g(3))
  then show "is_ok (store_identifier i f)" .
  have au: "audit_ok (audit_records db @ [a]) (au_audit_id a) sid (''wallet_'' @ resource_name k @ ''_registered'') (payload r)"
      "is_ok (store_identifier (au_audit_id a) ''x'')"
    using audit_of_ok [OF env a(2) [unfolded a(1)] g(1), folded a(1)] by (simp_all add: g(5))
  have "timestamp_valid now" using clock_validD(1) [OF env] by (simp add: g(4))
  from table_ok_register [OF table_ok_audits [OF t] fresh r au(1) i au(2) g(2) this rid]
  show "table_ok E k life payload (audit_records db @ [a])
      (R @ [new_revision E k rid i sid 1 ''active'' (''operator registered wallet '' @ resource_name k) (au_audit_id a) now]) (t @ [r])" .
qed

lemma register_network_effect:
  assumes ok: "registry_ok E U db" and env: "clock_valid E"
    and p: "validate_network_input U input = Inr p" and run: "register_network E U sid p actor db = (res, db')"
  shows "(\<exists>e. res = Inl e \<and> db' = db)
    \<or> registry_ok E U db' \<and> (\<exists>n. res = network_from_row E U n \<and> wallet_networks db' = wallet_networks db @ [n]
        \<and> network_row_input n = p \<and> nw_subject_id n = sid \<and> nw_status n = ''active'' \<and> (\<forall>x\<in>set (wallet_networks db). \<not> network_clash n x)
        \<and> wallet_tables db' = wallet_tables db \<and> wallet_assets db' = wallet_assets db \<and> wallet_addresses db' = wallet_addresses db
        \<and> wallet_balance_snapshots db' = wallet_balance_snapshots db)"
proof (cases "registering E ''walletnet'' ''register a wallet network'' sid actor db")
  case (Inr v)
  then obtain i now db1 where v: "registering E ''walletnet'' ''register a wallet network'' sid actor db = Inr (i, now, db1)"
    by (cases v) auto
  note g = registering_Inr [OF v]
  from run v have "committed (get_network E U i sid) db (catch_sqlite ''wallet network registration conflicts with durable state''
      (register_network_transaction E sid p actor i now db1)) = (res, db')"
    by (simp add: register_network_def)
  then show ?thesis
  proof (cases rule: committed_cases)
    case wrote
    obtain a n rid where a: "a = audit_of E sid ''wallet_network_registered'' actor (network_payload (new_network E i sid p '''' now)) db1"
      and n: "n = new_network E i sid p (au_audit_id a) now" and t: "rid \<noteq> []" "au_audit_id a \<notin> au_audit_id ` set (audit_records db1)"
        "\<forall>x\<in>set (wallet_networks db1). \<not> network_clash n x" "network_checks n"
      and db': "db' = db1\<lparr>fresh_ids := Suc (Suc (fresh_ids db1)), ticks := Suc (ticks db1), audit_records := audit_records db1 @ [a],
         wallet_networks := wallet_networks db1 @ [n], wallet_network_revisions := wallet_network_revisions db1
           @ [new_revision E Network rid i sid 1 ''active'' (''operator registered wallet '' @ resource_name Network) (au_audit_id a) now]\<rparr>"
      using wrote(1) unfolding catch_sqlite_Inr by (rule register_network_transaction_Inr)
    have d: "audit_records db' = audit_records db @ [a]" "wallet_networks db' = wallet_networks db @ [n]" "wallet_tables db' = wallet_tables db"
        "wallet_network_revisions db' = wallet_network_revisions db
           @ [new_revision E Network rid i sid 1 ''active'' (''operator registered wallet '' @ resource_name Network) (au_audit_id a) now]"
        "wallet_balance_snapshots db' = wallet_balance_snapshots db"
        "wallet_assets db' = wallet_assets db" "wallet_asset_revisions db' = wallet_asset_revisions db"
        "wallet_addresses db' = wallet_addresses db" "wallet_address_revisions db' = wallet_address_revisions db"
      by (simp_all add: db' g(5) wallet_tables_def)
    note f = new_network_ok(2-5) [OF p, of E i sid "au_audit_id a" now, folded n] and row = new_network_ok(1) [OF p, of E i sid "au_audit_id a" now, folded n]
    have fresh: "i \<notin> (lc_resource_id \<circ> network_life) ` set (wallet_networks db)" and
        clash: "\<forall>x\<in>set (wallet_networks db). \<not> network_clash n x"
      using t(3) f(3) by (auto simp: g(5) network_clash_def)
    have a': "a = audit_of E sid (''wallet_'' @ resource_name Network @ ''_registered'') actor (network_payload n) db1"
      by (simp add: a f(2) resource_name_def)
    note reg = registered_table [OF env v _ _ registry_okD(1) [OF ok] fresh a' t(2) f(1) t(1)]
    have tab: "table_ok E Network network_life network_payload (audit_records db') (wallet_network_revisions db') (wallet_networks db')"
      unfolding d(1,2,4) by (rule reg(1)) (simp_all add: py_isspace_def)
    have ok': "registry_ok E U db'"
    proof (rule registry_okI)
      show "network_ok E U x" if "x \<in> set (wallet_networks db')" for x
        using registry_okD(4) [OF ok] that row by (auto simp: d)
      show "asset_ok E (wallet_networks db') x" if "x \<in> set (wallet_assets db')" for x
        by (rule asset_ok_mono [OF registry_okD(5) [OF ok]]) (use that in \<open>auto simp: d\<close>)
      show "address_ok E (wallet_networks db') x" if "x \<in> set (wallet_addresses db')" for x
        by (rule address_ok_mono [OF registry_okD(6) [OF ok]]) (use that in \<open>auto simp: d\<close>)
      show "snapshot_ok E db' x" if "x \<in> set (wallet_balance_snapshots db')" for x
        by (rule snapshot_ok_mono [OF registry_okD(7) [OF ok]]) (use that in \<open>auto simp: d\<close>)
    qed (use tab registry_okD(1-3) [OF ok] in \<open>simp_all add: d table_ok_audits\<close>)
    have "fetchone (\<lambda>x. nw_network_id x = i \<and> nw_subject_id x = sid) (wallet_networks db) = None"
      using fresh by (auto simp: fetchone_None)
    moreover have "store_identifier i ''network identifier'' = Inr ()"
      using reg(2) [of "''network identifier''"] by (auto simp: is_ok_iff py_isspace_def)
    ultimately have "network_row_of i sid db' = Inr n"
      by (simp add: network_row_of_def d(2) fetchone_append f(3,4))
    then have "res = network_from_row E U n"
      using wrote(2) by (simp add: get_network_def)
    moreover have "network_row_input n = p" "nw_status n = ''active''" by (simp_all add: n) (simp add: new_network_def Let_def)
    ultimately show ?thesis using ok' clash f(4) d(2,3,5,6,8) by blast
  qed auto
qed (use run in \<open>auto simp: register_network_def\<close>)

lemma register_asset_effect:
  assumes ok: "registry_ok E U db" and env: "clock_valid E"
    and p: "validate_asset_input input = Inr p" and run: "register_asset E U sid p actor db = (res, db')"
  shows "(\<exists>e. res = Inl e \<and> db' = db)
    \<or> registry_ok E U db' \<and> (\<exists>n. res = Inr (asset_rec n) \<and> wallet_assets db' = wallet_assets db @ [n]
        \<and> asset_row_input n = p \<and> as_subject_id n = sid \<and> as_status n = ''active'' \<and> (\<forall>x\<in>set (wallet_assets db). \<not> asset_clash n x)
        \<and> wallet_tables db' = wallet_tables db \<and> wallet_networks db' = wallet_networks db \<and> wallet_addresses db' = wallet_addresses db
        \<and> wallet_balance_snapshots db' = wallet_balance_snapshots db)"
proof (cases "registering E ''walletasset'' ''register a wallet asset'' sid actor db")
  case (Inr v)
  then obtain i now db1 where v: "registering E ''walletasset'' ''register a wallet asset'' sid actor db = Inr (i, now, db1)"
    by (cases v) auto
  note g = registering_Inr [OF v]
  from run v have "committed (get_asset E i sid) db (catch_sqlite ''wallet asset registration conflicts with durable state''
      (register_asset_transaction E U sid p actor i now db1)) = (res, db')"
    by (simp add: register_asset_def)
  then show ?thesis
  proof (cases rule: committed_cases)
    case wrote
    obtain a n rid w where a: "a = audit_of E sid ''wallet_asset_registered'' actor (asset_payload (new_asset E i sid p '''' now)) db1"
      and n: "n = new_asset E i sid p (au_audit_id a) now" and t: "rid \<noteq> []" "au_audit_id a \<notin> au_audit_id ` set (audit_records db1)"
        "\<forall>x\<in>set (wallet_assets db1). \<not> asset_clash n x"
        "w \<in> set (wallet_networks db1)" "nw_network_id w = ai_network_id p" "nw_subject_id w = sid" "nw_status w = ''active''"
        "ai_asset_type p = ''native'' \<longrightarrow> ai_symbol p = nw_native_symbol w"
      and db': "db' = db1\<lparr>fresh_ids := Suc (Suc (fresh_ids db1)), ticks := Suc (ticks db1), audit_records := audit_records db1 @ [a],
         wallet_assets := wallet_assets db1 @ [n], wallet_asset_revisions := wallet_asset_revisions db1
           @ [new_revision E Asset rid i sid 1 ''active'' (''operator registered wallet '' @ resource_name Asset) (au_audit_id a) now]\<rparr>"
      using wrote(1) unfolding catch_sqlite_Inr by (rule register_asset_transaction_Inr)
    have d: "audit_records db' = audit_records db @ [a]" "wallet_assets db' = wallet_assets db @ [n]" "wallet_tables db' = wallet_tables db"
        "wallet_asset_revisions db' = wallet_asset_revisions db
           @ [new_revision E Asset rid i sid 1 ''active'' (''operator registered wallet '' @ resource_name Asset) (au_audit_id a) now]"
        "wallet_balance_snapshots db' = wallet_balance_snapshots db"
        "wallet_networks db' = wallet_networks db" "wallet_network_revisions db' = wallet_network_revisions db"
        "wallet_addresses db' = wallet_addresses db" "wallet_address_revisions db' = wallet_address_revisions db"
      by (simp_all add: db' g(5) wallet_tables_def)
    note f = new_asset_fields [of E i sid p "au_audit_id a" now, folded n]
    have row: "asset_ok E (wallet_networks db) n"
      unfolding n by (rule new_asset_ok [OF validate_asset_input_normal [OF p], of w]) (use t in \<open>simp_all add: g(5)\<close>)
    have fresh: "i \<notin> (lc_resource_id \<circ> asset_life) ` set (wallet_assets db)" and
        clash: "\<forall>x\<in>set (wallet_assets db). \<not> asset_clash n x"
      using t(3) f(3) by (auto simp: g(5) asset_clash_def)
    have a': "a = audit_of E sid (''wallet_'' @ resource_name Asset @ ''_registered'') actor (asset_payload n) db1"
      by (simp add: a f(2) resource_name_def)
    note reg = registered_table [OF env v _ _ registry_okD(2) [OF ok] fresh a' t(2) f(1) t(1)]
    have tab: "table_ok E Asset asset_life asset_payload (audit_records db') (wallet_asset_revisions db') (wallet_assets db')"
      unfolding d(1,2,4) by (rule reg(1)) (simp_all add: py_isspace_def)
    have ok': "registry_ok E U db'"
    proof (rule registry_okI)
      show "network_ok E U x" if "x \<in> set (wallet_networks db')" for x
        using registry_okD(4) [OF ok] that by (auto simp: d)
      show "asset_ok E (wallet_networks db') x" if "x \<in> set (wallet_assets db')" for x
        using registry_okD(5) [OF ok] that row by (auto simp: d)
      show "address_ok E (wallet_networks db') x" if "x \<in> set (wallet_addresses db')" for x
        by (rule address_ok_mono [OF registry_okD(6) [OF ok]]) (use that in \<open>auto simp: d\<close>)
      show "snapshot_ok E db' x" if "x \<in> set (wallet_balance_snapshots db')" for x
        by (rule snapshot_ok_mono [OF registry_okD(7) [OF ok]]) (use that in \<open>auto simp: d\<close>)
    qed (use tab registry_okD(1-3) [OF ok] in \<open>simp_all add: d table_ok_audits\<close>)
    have "fetchone (\<lambda>x. as_asset_id x = i \<and> as_subject_id x = sid) (wallet_assets db) = None"
      using fresh by (auto simp: fetchone_None)
    moreover have "store_identifier i ''asset identifier'' = Inr ()"
      using reg(2) [of "''asset identifier''"] by (auto simp: is_ok_iff py_isspace_def)
    ultimately have "asset_row_of i sid db' = Inr n"
      by (simp add: asset_row_of_def d(2) fetchone_append f(3,4))
    then have "res = Inr (asset_rec n)"
      using wrote(2) registry_lives(2) [OF ok', of n] by (simp add: get_asset_def d(2))
    moreover have "asset_row_input n = p" "as_status n = ''active''" by (simp_all add: n) (simp add: new_asset_def Let_def)
    ultimately show ?thesis using ok' clash f(4) d(2,3,5,6,8) by blast
  qed auto
qed (use run in \<open>auto simp: register_asset_def\<close>)

lemma register_address_effect:
  assumes ok: "registry_ok E U db" and env: "clock_valid E"
    and p: "validate_address_input input = Inr p" and run: "register_address E U sid p actor db = (res, db')"
  shows "(\<exists>e. res = Inl e \<and> db' = db)
    \<or> registry_ok E U db' \<and> (\<exists>n. res = Inr (address_rec n) \<and> wallet_addresses db' = wallet_addresses db @ [n]
        \<and> address_row_input n = p \<and> ad_subject_id n = sid \<and> ad_status n = ''active'' \<and> (\<forall>x\<in>set (wallet_addresses db). \<not> address_clash n x)
        \<and> wallet_tables db' = wallet_tables db \<and> wallet_networks db' = wallet_networks db \<and> wallet_assets db' = wallet_assets db
        \<and> wallet_balance_snapshots db' = wallet_balance_snapshots db)"
proof (cases "registering E ''walletaddr'' ''register a wallet address'' sid actor db")
  case (Inr v)
  then obtain i now db1 where v: "registering E ''walletaddr'' ''register a wallet address'' sid actor db = Inr (i, now, db1)"
    by (cases v) auto
  note g = registering_Inr [OF v]
  from run v have "committed (get_address E i sid) db (catch_sqlite ''wallet address registration conflicts with durable state''
      (register_address_transaction E U sid p actor i now db1)) = (res, db')"
    by (simp add: register_address_def)
  then show ?thesis
  proof (cases rule: committed_cases)
    case wrote
    obtain a n rid w where a: "a = audit_of E sid ''wallet_address_registered'' actor (address_payload (new_address E i sid p '''' now)) db1"
      and n: "n = new_address E i sid p (au_audit_id a) now" and t: "rid \<noteq> []" "au_audit_id a \<notin> au_audit_id ` set (audit_records db1)"
        "\<forall>x\<in>set (wallet_addresses db1). \<not> address_clash n x"
        "w \<in> set (wallet_networks db1)" "nw_network_id w = di_network_id p" "nw_subject_id w = sid" "nw_status w = ''active''"
      and db': "db' = db1\<lparr>fresh_ids := Suc (Suc (fresh_ids db1)), ticks := Suc (ticks db1), audit_records := audit_records db1 @ [a],
         wallet_addresses := wallet_addresses db1 @ [n], wallet_address_revisions := wallet_address_revisions db1
           @ [new_revision E Address rid i sid 1 ''active'' (''operator registered wallet '' @ resource_name Address) (au_audit_id a) now]\<rparr>"
      using wrote(1) unfolding catch_sqlite_Inr by (rule register_address_transaction_Inr)
    have d: "audit_records db' = audit_records db @ [a]" "wallet_addresses db' = wallet_addresses db @ [n]" "wallet_tables db' = wallet_tables db"
        "wallet_address_revisions db' = wallet_address_revisions db
           @ [new_revision E Address rid i sid 1 ''active'' (''operator registered wallet '' @ resource_name Address) (au_audit_id a) now]"
        "wallet_balance_snapshots db' = wallet_balance_snapshots db"
        "wallet_networks db' = wallet_networks db" "wallet_network_revisions db' = wallet_network_revisions db"
        "wallet_assets db' = wallet_assets db" "wallet_asset_revisions db' = wallet_asset_revisions db"
      by (simp_all add: db' g(5) wallet_tables_def)
    note f = new_address_fields [of E i sid p "au_audit_id a" now, folded n]
    have row: "address_ok E (wallet_networks db) n"
      unfolding n by (rule new_address_ok [OF validate_address_input_normal [OF p], of w]) (use t in \<open>simp_all add: g(5)\<close>)
    have fresh: "i \<notin> (lc_resource_id \<circ> address_life) ` set (wallet_addresses db)" and
        clash: "\<forall>x\<in>set (wallet_addresses db). \<not> address_clash n x"
      using t(3) f(3) by (auto simp: g(5) address_clash_def)
    have a': "a = audit_of E sid (''wallet_'' @ resource_name Address @ ''_registered'') actor (address_payload n) db1"
      by (simp add: a f(2) resource_name_def)
    note reg = registered_table [OF env v _ _ registry_okD(3) [OF ok] fresh a' t(2) f(1) t(1)]
    have tab: "table_ok E Address address_life address_payload (audit_records db') (wallet_address_revisions db') (wallet_addresses db')"
      unfolding d(1,2,4) by (rule reg(1)) (simp_all add: py_isspace_def)
    have ok': "registry_ok E U db'"
    proof (rule registry_okI)
      show "network_ok E U x" if "x \<in> set (wallet_networks db')" for x
        using registry_okD(4) [OF ok] that by (auto simp: d)
      show "asset_ok E (wallet_networks db') x" if "x \<in> set (wallet_assets db')" for x
        by (rule asset_ok_mono [OF registry_okD(5) [OF ok]]) (use that in \<open>auto simp: d\<close>)
      show "address_ok E (wallet_networks db') x" if "x \<in> set (wallet_addresses db')" for x
        using registry_okD(6) [OF ok] that row by (auto simp: d)
      show "snapshot_ok E db' x" if "x \<in> set (wallet_balance_snapshots db')" for x
        by (rule snapshot_ok_mono [OF registry_okD(7) [OF ok]]) (use that in \<open>auto simp: d\<close>)
    qed (use tab registry_okD(1-3) [OF ok] in \<open>simp_all add: d table_ok_audits\<close>)
    have "fetchone (\<lambda>x. ad_address_id x = i \<and> ad_subject_id x = sid) (wallet_addresses db) = None"
      using fresh by (auto simp: fetchone_None)
    moreover have "store_identifier i ''address identifier'' = Inr ()"
      using reg(2) [of "''address identifier''"] by (auto simp: is_ok_iff py_isspace_def)
    ultimately have "address_row_of i sid db' = Inr n"
      by (simp add: address_row_of_def d(2) fetchone_append f(3,4))
    then have "res = Inr (address_rec n)"
      using wrote(2) registry_lives(3) [OF ok', of n] by (simp add: get_address_def d(2))
    moreover have "address_row_input n = p" "ad_status n = ''active''" by (simp_all add: n) (simp add: new_address_def Let_def)
    ultimately show ?thesis using ok' clash f(4) d(2,3,5,6,8) by blast
  qed auto
qed (use run in \<open>auto simp: register_address_def\<close>)

section \<open>Revocations\<close>

lemma revoked_network_ok:
  "network_ok E U n \<Longrightarrow> network_ok E U (revoked_network E now why aid n)"
  "network_life (revoked_network E now why aid n) = ended now why aid (network_life n)"
  "network_payload (revoked_network E now why aid n) = network_payload n"
  "network_row_input (revoked_network E now why aid n) = network_row_input n"
  by (simp_all add: network_ok_def origin_stable_def revoked_network_def Let_def network_row_input_def network_hash_def network_life_def ended_def network_payload_def)

lemma revoked_asset_ok:
  "asset_ok E N a \<Longrightarrow> asset_ok E N (revoked_asset E now why aid a)"
  "asset_life (revoked_asset E now why aid a) = ended now why aid (asset_life a)"
  "asset_payload (revoked_asset E now why aid a) = asset_payload a"
  "asset_row_input (revoked_asset E now why aid a) = asset_row_input a"
  by (simp_all add: asset_ok_def revoked_asset_def Let_def asset_row_input_def asset_hash_def asset_life_def ended_def asset_payload_def) blast

lemma revoked_address_ok:
  "address_ok E N d \<Longrightarrow> address_ok E N (revoked_address E now why aid d)"
  "address_life (revoked_address E now why aid d) = ended now why aid (address_life d)"
  "address_payload (revoked_address E now why aid d) = address_payload d"
  "address_row_input (revoked_address E now why aid d) = address_row_input d"
  by (simp_all add: address_ok_def revoked_address_def Let_def address_row_input_def address_hash_def address_life_def ended_def address_payload_def) blast

text \<open>What the three revocations share.\<close>

lemma revoked_table:
  assumes env: "clock_valid E" and t: "table_ok E k life payload A R t" and r: "r \<in> set t" "lc_status (life r) = ''active''"
    and p: "\<And>x. x \<in> set t \<Longrightarrow> p x \<longleftrightarrow> x = r" and f: "life (f r) = ended (env_clock E m) why (au_audit_id a) (life r)" "payload (f r) = payload r"
    and a: "a = audit_of E (lc_subject_id (life r)) (''wallet_'' @ resource_name k @ ''_revoked'') actor
        [(id_field k, JStr (lc_resource_id (life r))), (''reason'', JStr why)] db" "au_audit_id a \<notin> au_audit_id ` set A"
    and op: "require_operator actor what = Inr ()" and why: "\<not> blank why" "length why \<le> 2000" and rid: "rid \<noteq> []"
  shows "table_ok E k life payload (A @ [a])
      (R @ [new_revision E k rid (lc_resource_id (life r)) (lc_subject_id (life r)) 2 ''revoked'' why (au_audit_id a) (env_clock E m)])
      (update_where p f t)"
  using audit_of_ok(1) [OF env a(2) [unfolded a(1)] op, folded a(1)] f clock_validD(1) [OF env, of m] why rid r
  by (intro table_ok_revoke [where f = f and p = p] table_ok_audits t p)

lemma update_where_single:
  assumes "distinct (map key t)" "r \<in> set t" "q r" "f r = s"
  shows "update_where (\<lambda>x. key x = key r \<and> q x) f t = map (\<lambda>x. if x = r then s else x) t"
proof -
  have "x = r" if "x \<in> set t" "key x = key r" for x using distinct_key_eq [OF assms(1) that(1) assms(2) that(2)] .
  with assms(3,4) show ?thesis by (auto simp: update_where_def)
qed

lemma revoke_network_effect:
  assumes ok: "registry_ok E U db" and env: "clock_valid E" and run: "revoke_network E U i reason actor sid db = (res, db')"
  shows "(\<exists>e. res = Inl e \<and> db' = db)
    \<or> (\<exists>n\<in>set (wallet_networks db). nw_network_id n = i \<and> nw_subject_id n = sid \<and> nw_status n = ''revoked'' \<and> res = Inr (network_rec n)
         \<and> origin_stable U n \<and> db' = db)
    \<or> registry_ok E U db' \<and> (\<exists>n\<in>set (wallet_networks db). \<exists>n'. nw_network_id n = i \<and> nw_subject_id n = sid \<and> nw_status n = ''active'' \<and> \<not> has_active_children sid i db
        \<and> network_life n' = ended (env_clock E (ticks db)) (py_strip reason) (''audit_'' @ env_uuid E (fresh_ids db)) (network_life n)
        \<and> network_row_input n' = network_row_input n \<and> res = Inr (network_rec n') \<and> origin_stable U n'
        \<and> wallet_networks db' = map (\<lambda>x. if x = n then n' else x) (wallet_networks db)
        \<and> wallet_tables db' = wallet_tables db \<and> wallet_assets db' = wallet_assets db \<and> wallet_addresses db' = wallet_addresses db
        \<and> wallet_balance_snapshots db' = wallet_balance_snapshots db)"
  using run
proof (cases rule: revoke_network_cases)
  case (already row r)
  have row: "row \<in> set (wallet_networks db)" "nw_network_id row = i" "nw_subject_id row = sid"
    using already(1) by (auto simp: network_row_of_def dest: fetchone_Some split: option.splits)
  have "r = network_rec row" by (rule network_from_row_Inr(1) [OF already(2)])
  with already(3,4) have "nw_status row = ''revoked''" "res = Inr (network_rec row)" by (simp_all add: network_rec_def)
  with row already(5) network_from_row_stable [OF already(2)] show ?thesis by blast
next
  case (revoked why n rid a)
  let ?now = "env_clock E (ticks db)"
  let ?p = "\<lambda>r. nw_network_id r = i \<and> nw_subject_id r = sid"
  let ?f = "\<lambda>r. r\<lparr>nw_status := ''revoked'', nw_state_hash := nw_state_hash (revoked_network E ?now why (au_audit_id a) n),
            nw_revoked_at := Some ?now, nw_revoke_reason := Some why, nw_revoked_audit_id := Some (au_audit_id a)\<rparr>"
  let ?R = "new_revision E Network rid i sid 2 ''revoked'' why (au_audit_id a) ?now"
  have row: "n \<in> set (wallet_networks db)" "nw_network_id n = i" "nw_subject_id n = sid" "nw_status n = ''active''"
    and child: "\<not> has_active_children sid i db" using revoked by simp_all
  define n' where n': "n' = revoked_network E ?now why (au_audit_id a) n"
  have f: "?f n = n'" by (simp add: n' revoked_network_def Let_def)
  note dist = registry_lives(4) [OF ok]
  have p: "?p x \<longleftrightarrow> x = n" if "x \<in> set (wallet_networks db)" for x
    using distinct_key_eq [OF dist that row(1)] row(2,3) by auto
  have db': "db' = db\<lparr>fresh_ids := Suc (Suc (fresh_ids db)), ticks := Suc (Suc (ticks db)), audit_records := audit_records db @ [a],
       wallet_networks := update_where ?p ?f (wallet_networks db), wallet_network_revisions := wallet_network_revisions db @ [?R]\<rparr>"
    using revoked by simp
  then have upd: "wallet_networks db' = update_where ?p ?f (wallet_networks db)" by simp
  have "update_where ?p ?f (wallet_networks db) = map (\<lambda>x. if x = n then n' else x) (wallet_networks db)"
    using update_where_single [where q = "\<lambda>r. nw_subject_id r = sid" and f = ?f, OF dist row(1,3) f] by (simp add: row(2))
  with db' have d: "audit_records db' = audit_records db @ [a]" "wallet_networks db' = map (\<lambda>x. if x = n then n' else x) (wallet_networks db)"
        "wallet_tables db' = wallet_tables db" "wallet_network_revisions db' = wallet_network_revisions db @ [?R]"
        "wallet_balance_snapshots db' = wallet_balance_snapshots db"
        "wallet_assets db' = wallet_assets db" "wallet_asset_revisions db' = wallet_asset_revisions db"
        "wallet_addresses db' = wallet_addresses db" "wallet_address_revisions db' = wallet_address_revisions db"
    by (simp_all add: wallet_tables_def)
  have tab: "table_ok E Network network_life network_payload (audit_records db') (wallet_network_revisions db') (wallet_networks db')"
    using revoked_table [OF env registry_okD(1) [OF ok] row(1), of ?p ?f "ticks db" why a actor "db\<lparr>ticks := Suc (ticks db)\<rparr>" "''revoke a wallet network''" rid]
      row p f revoked by (simp add: upd d(1,4) n' revoked_network_ok resource_name_def id_field_def)
  have ok': "registry_ok E U db'"
  proof (rule registry_okI)
      show "network_ok E U x" if "x \<in> set (wallet_networks db')" for x
        using that registry_okD(4) [OF ok] revoked_network_ok(1) row(1) by (auto simp: d(2) n')
      show "asset_ok E (wallet_networks db') x" if "x \<in> set (wallet_assets db')" for x
        unfolding upd by (rule asset_ok_update [OF registry_okD(5) [OF ok]])
          (use that child in \<open>auto simp: d has_active_children_def\<close>)
      show "address_ok E (wallet_networks db') x" if "x \<in> set (wallet_addresses db')" for x
        unfolding upd by (rule address_ok_update [OF registry_okD(6) [OF ok]])
          (use that child in \<open>auto simp: d has_active_children_def\<close>)
    show "snapshot_ok E db' x" if "x \<in> set (wallet_balance_snapshots db')" for x
      by (rule snapshot_ok_mono [OF registry_okD(7) [OF ok]])
        (use that image_update_where [of ?p network_key ?f "wallet_networks db"] in \<open>simp_all add: d(5-) upd\<close>)
  qed (use tab registry_okD(1-3) [OF ok] in \<open>simp_all add: d table_ok_audits\<close>)
  have mem: "n' \<in> set (wallet_networks db')" using row(1) by (auto simp: d(2))
  have id: "nw_network_id n' = i" "nw_subject_id n' = sid" using row(2,3) by (simp_all add: n' revoked_network_def Let_def)
  have "fetchone (\<lambda>x. nw_network_id x = i \<and> nw_subject_id x = sid) (wallet_networks db') = Some n'"
  proof -
    have "fetchone (\<lambda>x. nw_network_id x = nw_network_id n') (wallet_networks db') = Some n'" by (rule fetchone_key [OF registry_lives(4) [OF ok'] mem])
    with id show ?thesis unfolding fetchone_def find_Some_iff by (metis nth_mem)
  qed
  moreover have "is_ok (store_identifier i ''network identifier'')"
    using life_okD(2) [OF table_okD(2) [OF registry_okD(1) [OF ok] row(1)]] row(2) by simp
  ultimately have "network_row_of i sid db' = Inr n'" by (auto simp: network_row_of_def is_ok_iff)
  moreover have stable: "origin_stable U n'"
  proof -
    have "origin_stable U n" using revoked network_from_row_stable by (auto simp: is_ok_iff)
    then show ?thesis by (simp add: n' origin_stable_def revoked_network_def Let_def)
  qed
  ultimately have "res = Inr (network_rec n')"
    using revoked registry_lives(1) [OF ok' mem] by (simp add: get_network_def)
  moreover have "network_life n' = ended ?now (py_strip reason) (''audit_'' @ env_uuid E (fresh_ids db)) (network_life n)"
    using revoked by (simp add: n' revoked_network_ok audit_of_id)
  ultimately show ?thesis using ok' row child stable revoked_network_ok(4) [of E ?now why "au_audit_id a" n, folded n'] d(2,3,5,6,8) by blast
qed auto

lemma revoke_asset_effect:
  assumes ok: "registry_ok E U db" and env: "clock_valid E" and run: "revoke_asset E i reason actor sid db = (res, db')"
  shows "(\<exists>e. res = Inl e \<and> db' = db)
    \<or> (\<exists>n\<in>set (wallet_assets db). as_asset_id n = i \<and> as_subject_id n = sid \<and> as_status n = ''revoked'' \<and> res = Inr (asset_rec n) \<and> db' = db)
    \<or> registry_ok E U db' \<and> (\<exists>n\<in>set (wallet_assets db). \<exists>n'. as_asset_id n = i \<and> as_subject_id n = sid \<and> as_status n = ''active''
        \<and> asset_life n' = ended (env_clock E (ticks db)) (py_strip reason) (''audit_'' @ env_uuid E (fresh_ids db)) (asset_life n)
        \<and> asset_row_input n' = asset_row_input n \<and> res = Inr (asset_rec n')
        \<and> wallet_assets db' = map (\<lambda>x. if x = n then n' else x) (wallet_assets db)
        \<and> wallet_tables db' = wallet_tables db \<and> wallet_networks db' = wallet_networks db \<and> wallet_addresses db' = wallet_addresses db
        \<and> wallet_balance_snapshots db' = wallet_balance_snapshots db)"
  using run
proof (cases rule: revoke_asset_cases)
  case (already row r)
  have row: "row \<in> set (wallet_assets db)" "as_asset_id row = i" "as_subject_id row = sid"
    using already(1) by (auto simp: asset_row_of_def dest: fetchone_Some split: option.splits)
  have "r = asset_rec row" using already(2) registry_lives(2) [OF ok row(1)] by simp
  with already(3,4) have "as_status row = ''revoked''" "res = Inr (asset_rec row)" by (simp_all add: asset_rec_def)
  with row already(5) show ?thesis by blast
next
  case (revoked why n rid a)
  let ?now = "env_clock E (ticks db)"
  let ?p = "\<lambda>r. as_asset_id r = i \<and> as_subject_id r = sid"
  let ?f = "\<lambda>r. r\<lparr>as_status := ''revoked'', as_state_hash := as_state_hash (revoked_asset E ?now why (au_audit_id a) n),
            as_revoked_at := Some ?now, as_revoke_reason := Some why, as_revoked_audit_id := Some (au_audit_id a)\<rparr>"
  let ?R = "new_revision E Asset rid i sid 2 ''revoked'' why (au_audit_id a) ?now"
  have row: "n \<in> set (wallet_assets db)" "as_asset_id n = i" "as_subject_id n = sid" "as_status n = ''active''"
     using revoked by simp_all
  define n' where n': "n' = revoked_asset E ?now why (au_audit_id a) n"
  have f: "?f n = n'" by (simp add: n' revoked_asset_def Let_def)
  note dist = registry_lives(5) [OF ok]
  have p: "?p x \<longleftrightarrow> x = n" if "x \<in> set (wallet_assets db)" for x
    using distinct_key_eq [OF dist that row(1)] row(2,3) by auto
  have db': "db' = db\<lparr>fresh_ids := Suc (Suc (fresh_ids db)), ticks := Suc (Suc (ticks db)), audit_records := audit_records db @ [a],
       wallet_assets := update_where ?p ?f (wallet_assets db), wallet_asset_revisions := wallet_asset_revisions db @ [?R]\<rparr>"
    using revoked by simp
  then have upd: "wallet_assets db' = update_where ?p ?f (wallet_assets db)" by simp
  have "update_where ?p ?f (wallet_assets db) = map (\<lambda>x. if x = n then n' else x) (wallet_assets db)"
    using update_where_single [where q = "\<lambda>r. as_subject_id r = sid" and f = ?f, OF dist row(1,3) f] by (simp add: row(2))
  with db' have d: "audit_records db' = audit_records db @ [a]" "wallet_assets db' = map (\<lambda>x. if x = n then n' else x) (wallet_assets db)"
        "wallet_tables db' = wallet_tables db" "wallet_asset_revisions db' = wallet_asset_revisions db @ [?R]"
        "wallet_balance_snapshots db' = wallet_balance_snapshots db"
        "wallet_networks db' = wallet_networks db" "wallet_network_revisions db' = wallet_network_revisions db"
        "wallet_addresses db' = wallet_addresses db" "wallet_address_revisions db' = wallet_address_revisions db"
    by (simp_all add: wallet_tables_def)
  have tab: "table_ok E Asset asset_life asset_payload (audit_records db') (wallet_asset_revisions db') (wallet_assets db')"
    using revoked_table [OF env registry_okD(2) [OF ok] row(1), of ?p ?f "ticks db" why a actor "db\<lparr>ticks := Suc (ticks db)\<rparr>" "''revoke a wallet asset''" rid]
      row p f revoked by (simp add: upd d(1,4) n' revoked_asset_ok resource_name_def id_field_def)
  have ok': "registry_ok E U db'"
  proof (rule registry_okI)
      show "asset_ok E (wallet_networks db') x" if "x \<in> set (wallet_assets db')" for x
        using that registry_okD(5) [OF ok] revoked_asset_ok(1) row(1) by (auto simp: d(2) d(6) n')
    show "snapshot_ok E db' x" if "x \<in> set (wallet_balance_snapshots db')" for x
      by (rule snapshot_ok_mono [OF registry_okD(7) [OF ok]])
        (use that image_update_where [of ?p asset_key ?f "wallet_assets db"] in \<open>simp_all add: d(5-) upd\<close>)
  qed (use tab registry_okD(1-4,6) [OF ok] in \<open>simp_all add: d table_ok_audits\<close>)
  have mem: "n' \<in> set (wallet_assets db')" using row(1) by (auto simp: d(2))
  have id: "as_asset_id n' = i" "as_subject_id n' = sid" using row(2,3) by (simp_all add: n' revoked_asset_def Let_def)
  have "fetchone (\<lambda>x. as_asset_id x = i \<and> as_subject_id x = sid) (wallet_assets db') = Some n'"
  proof -
    have "fetchone (\<lambda>x. as_asset_id x = as_asset_id n') (wallet_assets db') = Some n'" by (rule fetchone_key [OF registry_lives(5) [OF ok'] mem])
    with id show ?thesis unfolding fetchone_def find_Some_iff by (metis nth_mem)
  qed
  moreover have "is_ok (store_identifier i ''asset identifier'')"
    using life_okD(2) [OF table_okD(2) [OF registry_okD(2) [OF ok] row(1)]] row(2) by simp
  ultimately have "asset_row_of i sid db' = Inr n'" by (auto simp: asset_row_of_def is_ok_iff)
  then have "res = Inr (asset_rec n')"
    using revoked registry_lives(2) [OF ok' mem] by (simp add: get_asset_def)
  moreover have "asset_life n' = ended ?now (py_strip reason) (''audit_'' @ env_uuid E (fresh_ids db)) (asset_life n)"
    using revoked by (simp add: n' revoked_asset_ok audit_of_id)
  ultimately show ?thesis using ok' row revoked_asset_ok(4) [of E ?now why "au_audit_id a" n, folded n'] d(2,3,5,6,8) by blast
qed auto

lemma revoke_address_effect:
  assumes ok: "registry_ok E U db" and env: "clock_valid E" and run: "revoke_address E i reason actor sid db = (res, db')"
  shows "(\<exists>e. res = Inl e \<and> db' = db)
    \<or> (\<exists>n\<in>set (wallet_addresses db). ad_address_id n = i \<and> ad_subject_id n = sid \<and> ad_status n = ''revoked'' \<and> res = Inr (address_rec n) \<and> db' = db)
    \<or> registry_ok E U db' \<and> (\<exists>n\<in>set (wallet_addresses db). \<exists>n'. ad_address_id n = i \<and> ad_subject_id n = sid \<and> ad_status n = ''active''
        \<and> address_life n' = ended (env_clock E (ticks db)) (py_strip reason) (''audit_'' @ env_uuid E (fresh_ids db)) (address_life n)
        \<and> address_row_input n' = address_row_input n \<and> res = Inr (address_rec n')
        \<and> wallet_addresses db' = map (\<lambda>x. if x = n then n' else x) (wallet_addresses db)
        \<and> wallet_tables db' = wallet_tables db \<and> wallet_networks db' = wallet_networks db \<and> wallet_assets db' = wallet_assets db
        \<and> wallet_balance_snapshots db' = wallet_balance_snapshots db)"
  using run
proof (cases rule: revoke_address_cases)
  case (already row r)
  have row: "row \<in> set (wallet_addresses db)" "ad_address_id row = i" "ad_subject_id row = sid"
    using already(1) by (auto simp: address_row_of_def dest: fetchone_Some split: option.splits)
  have "r = address_rec row" using already(2) registry_lives(3) [OF ok row(1)] by simp
  with already(3,4) have "ad_status row = ''revoked''" "res = Inr (address_rec row)" by (simp_all add: address_rec_def)
  with row already(5) show ?thesis by blast
next
  case (revoked why n rid a)
  let ?now = "env_clock E (ticks db)"
  let ?p = "\<lambda>r. ad_address_id r = i \<and> ad_subject_id r = sid"
  let ?f = "\<lambda>r. r\<lparr>ad_status := ''revoked'', ad_state_hash := ad_state_hash (revoked_address E ?now why (au_audit_id a) n),
            ad_revoked_at := Some ?now, ad_revoke_reason := Some why, ad_revoked_audit_id := Some (au_audit_id a)\<rparr>"
  let ?R = "new_revision E Address rid i sid 2 ''revoked'' why (au_audit_id a) ?now"
  have row: "n \<in> set (wallet_addresses db)" "ad_address_id n = i" "ad_subject_id n = sid" "ad_status n = ''active''"
     using revoked by simp_all
  define n' where n': "n' = revoked_address E ?now why (au_audit_id a) n"
  have f: "?f n = n'" by (simp add: n' revoked_address_def Let_def)
  note dist = registry_lives(6) [OF ok]
  have p: "?p x \<longleftrightarrow> x = n" if "x \<in> set (wallet_addresses db)" for x
    using distinct_key_eq [OF dist that row(1)] row(2,3) by auto
  have db': "db' = db\<lparr>fresh_ids := Suc (Suc (fresh_ids db)), ticks := Suc (Suc (ticks db)), audit_records := audit_records db @ [a],
       wallet_addresses := update_where ?p ?f (wallet_addresses db), wallet_address_revisions := wallet_address_revisions db @ [?R]\<rparr>"
    using revoked by simp
  then have upd: "wallet_addresses db' = update_where ?p ?f (wallet_addresses db)" by simp
  have "update_where ?p ?f (wallet_addresses db) = map (\<lambda>x. if x = n then n' else x) (wallet_addresses db)"
    using update_where_single [where q = "\<lambda>r. ad_subject_id r = sid" and f = ?f, OF dist row(1,3) f] by (simp add: row(2))
  with db' have d: "audit_records db' = audit_records db @ [a]" "wallet_addresses db' = map (\<lambda>x. if x = n then n' else x) (wallet_addresses db)"
        "wallet_tables db' = wallet_tables db" "wallet_address_revisions db' = wallet_address_revisions db @ [?R]"
        "wallet_balance_snapshots db' = wallet_balance_snapshots db"
        "wallet_networks db' = wallet_networks db" "wallet_network_revisions db' = wallet_network_revisions db"
        "wallet_assets db' = wallet_assets db" "wallet_asset_revisions db' = wallet_asset_revisions db"
    by (simp_all add: wallet_tables_def)
  have tab: "table_ok E Address address_life address_payload (audit_records db') (wallet_address_revisions db') (wallet_addresses db')"
    using revoked_table [OF env registry_okD(3) [OF ok] row(1), of ?p ?f "ticks db" why a actor "db\<lparr>ticks := Suc (ticks db)\<rparr>" "''revoke a wallet address''" rid]
      row p f revoked by (simp add: upd d(1,4) n' revoked_address_ok resource_name_def id_field_def)
  have ok': "registry_ok E U db'"
  proof (rule registry_okI)
      show "address_ok E (wallet_networks db') x" if "x \<in> set (wallet_addresses db')" for x
        using that registry_okD(6) [OF ok] revoked_address_ok(1) row(1) by (auto simp: d(2) d(6) n')
    show "snapshot_ok E db' x" if "x \<in> set (wallet_balance_snapshots db')" for x
      by (rule snapshot_ok_mono [OF registry_okD(7) [OF ok]])
        (use that image_update_where [of ?p address_key ?f "wallet_addresses db"] in \<open>simp_all add: d(5-) upd\<close>)
  qed (use tab registry_okD(1-5) [OF ok] in \<open>simp_all add: d table_ok_audits\<close>)
  have mem: "n' \<in> set (wallet_addresses db')" using row(1) by (auto simp: d(2))
  have id: "ad_address_id n' = i" "ad_subject_id n' = sid" using row(2,3) by (simp_all add: n' revoked_address_def Let_def)
  have "fetchone (\<lambda>x. ad_address_id x = i \<and> ad_subject_id x = sid) (wallet_addresses db') = Some n'"
  proof -
    have "fetchone (\<lambda>x. ad_address_id x = ad_address_id n') (wallet_addresses db') = Some n'" by (rule fetchone_key [OF registry_lives(6) [OF ok'] mem])
    with id show ?thesis unfolding fetchone_def find_Some_iff by (metis nth_mem)
  qed
  moreover have "is_ok (store_identifier i ''address identifier'')"
    using life_okD(2) [OF table_okD(2) [OF registry_okD(3) [OF ok] row(1)]] row(2) by simp
  ultimately have "address_row_of i sid db' = Inr n'" by (auto simp: address_row_of_def is_ok_iff)
  then have "res = Inr (address_rec n')"
    using revoked registry_lives(3) [OF ok' mem] by (simp add: get_address_def)
  moreover have "address_life n' = ended ?now (py_strip reason) (''audit_'' @ env_uuid E (fresh_ids db)) (address_life n)"
    using revoked by (simp add: n' revoked_address_ok audit_of_id)
  ultimately show ?thesis using ok' row revoked_address_ok(4) [of E ?now why "au_audit_id a" n, folded n'] d(2,3,5,6,8) by blast
qed auto

end
