(* ===== verification/RegistrySafety.thy ===== *)
theory RegistrySafety
  imports RegistryKeeps
begin

text \<open>
  The registry as a whole: what an observation writes, its committed transactions as a step
  relation, the states they reach, and that these meet \<open>registry_ok\<close>.
\<close>

section \<open>Observations\<close>

lemma balance_from_row_same: "balance_from_row E s = Inr r \<Longrightarrow> r = s"
  by (auto simp: balance_from_row_def split: if_splits)

definition registry_tables :: "'a registry_db_scheme \<Rightarrow> _" where
  "registry_tables db = (wallet_networks db, wallet_assets db, wallet_addresses db, wallet_network_revisions db,
     wallet_asset_revisions db, wallet_address_revisions db)"

lemma new_snapshot_fields [simp]:
  "bs_snapshot_id (new_snapshot E i sid w p o' c) = i" "bs_subject_id (new_snapshot E i sid w p o' c) = sid"
  "bs_network_id (new_snapshot E i sid w p o' c) = w" "bs_asset_id (new_snapshot E i sid w p o' c) = oi_asset_id p"
  "bs_address_id (new_snapshot E i sid w p o' c) = oi_address_id p" "bs_balance (new_snapshot E i sid w p o' c) = oi_balance p"
  by (simp_all add: new_snapshot_def Let_def)

lemma record_connection_effect:
  assumes run: "record_balance_snapshot_connection E U sid p actor snapshot created db = Inr (r, db')"
  shows "wallet_balance_snapshots db' = wallet_balance_snapshots db @ [r] \<and> balance_from_row E r = Inr r
    \<and> bs_snapshot_id r \<notin> bs_snapshot_id ` set (wallet_balance_snapshots db)
    \<and> bs_subject_id r = sid \<and> bs_asset_id r = oi_asset_id p \<and> bs_address_id r = oi_address_id p \<and> bs_balance r = oi_balance p
    \<and> (bs_network_id r, sid) \<in> network_key ` set (wallet_networks db)
    \<and> (oi_asset_id p, sid, bs_network_id r) \<in> asset_key ` set (wallet_assets db)
    \<and> (oi_address_id p, sid, bs_network_id r) \<in> address_key ` set (wallet_addresses db)
    \<and> audit_records db' = audit_records db \<and> registry_tables db' = registry_tables db \<and> wallet_tables db' = wallet_tables db"
proof -
  obtain i db1 c db2 where dr: "drawn_id E snapshot db = (i, db1)" "drawn_time E created db1 = (c, db2)" by (metis surj_pair)
  have same: "wallet_networks db2 = wallet_networks db" "wallet_assets db2 = wallet_assets db" "wallet_addresses db2 = wallet_addresses db"
      "wallet_balance_snapshots db2 = wallet_balance_snapshots db" "audit_records db2 = audit_records db"
      "registry_tables db2 = registry_tables db" "wallet_tables db2 = wallet_tables db"
    using dr by (auto simp: drawn_id_def drawn_time_def new_id_def utc_now_def registry_tables_def wallet_tables_def split: option.splits if_splits)
  from run dr obtain w t db3 row where s: "insert_snapshot (new_snapshot E i sid w p t c) db2 = Inr db3"
      "fetchone (\<lambda>s. bs_snapshot_id s = i \<and> bs_subject_id s = sid) (wallet_balance_snapshots db3) = Some row"
      "balance_from_row E row = Inr r" "db' = db3"
    by (auto simp: record_balance_snapshot_connection_def Let_def split: option.splits)
  let ?n = "new_snapshot E i sid w p t c"
  have ins: "db3 = db2\<lparr>wallet_balance_snapshots := wallet_balance_snapshots db2 @ [?n]\<rparr>"
      "i \<notin> bs_snapshot_id ` set (wallet_balance_snapshots db2)"
      "(w, sid) \<in> network_key ` set (wallet_networks db2)" "(oi_asset_id p, sid, w) \<in> asset_key ` set (wallet_assets db2)"
      "(oi_address_id p, sid, w) \<in> address_key ` set (wallet_addresses db2)"
    using s(1) by (auto simp: insert_snapshot_def image_Bex split: if_splits)
  have "fetchone (\<lambda>s. bs_snapshot_id s = i \<and> bs_subject_id s = sid) (wallet_balance_snapshots db2) = None"
    using ins(2) by (auto simp: fetchone_None)
  with s(2) have row: "row = ?n" by (simp add: ins(1) fetchone_append)
  have "r = ?n" using balance_from_row_same [OF s(3)] row by simp
  with s(3,4) row ins same show ?thesis by (auto simp: registry_tables_def wallet_tables_def)
qed

lemma record_snapshot_ok:
  assumes ok: "registry_ok E U db" and run: "record_balance_snapshot_connection E U sid p actor snapshot created db = Inr (r, db')"
  shows "registry_ok E U db'"
proof -
  note e = record_connection_effect [OF run]
  have t: "wallet_networks db' = wallet_networks db" "wallet_assets db' = wallet_assets db" "wallet_addresses db' = wallet_addresses db"
      "wallet_network_revisions db' = wallet_network_revisions db" "wallet_asset_revisions db' = wallet_asset_revisions db"
      "wallet_address_revisions db' = wallet_address_revisions db" "audit_records db' = audit_records db"
    using e by (simp_all add: registry_tables_def)
  have "snapshot_ok E db' r" using e by (simp add: snapshot_ok_keys t)
  moreover have "snapshot_ok E db' s" if "s \<in> set (wallet_balance_snapshots db)" for s
    by (rule snapshot_ok_mono [OF registry_okD(7) [OF ok that]]) (simp_all add: t)
  ultimately show ?thesis using ok e by (auto simp: registry_ok_def t)
qed

lemma record_balance_snapshot_connects:
  assumes "record_balance_snapshot E U sid p actor db = Inr (r, db')"
  obtains i c where "record_balance_snapshot_connection E U sid p actor (Some i) (Some c)
      (db\<lparr>fresh_ids := Suc (fresh_ids db), ticks := Suc (ticks db)\<rparr>) = Inr (r, db')"
  using assms by (auto simp: record_balance_snapshot_def new_id_def utc_now_def)

section \<open>Steps and reachable states\<close>

text \<open>
  One committed transaction on the registry, with any arguments.  The inputs have passed their
  models, as every caller constructs one.  \<open>others\<close> is a write of another component: it leaves the
  tables of the registry alone and may add audit records.
\<close>

inductive registry_step :: "env \<Rightarrow> url_library \<Rightarrow> 'a registry_db_scheme \<Rightarrow> 'a registry_db_scheme \<Rightarrow> bool" for E U where
  register_network: "validate_network_input U ni = Inr np \<Longrightarrow> register_network E U sid np actor db = (nres, db') \<Longrightarrow> registry_step E U db db'"
| register_asset: "validate_asset_input ai = Inr ap \<Longrightarrow> register_asset E U sid ap actor db = (ares, db') \<Longrightarrow> registry_step E U db db'"
| register_address: "validate_address_input di = Inr dp \<Longrightarrow> register_address E U sid dp actor db = (dres, db') \<Longrightarrow> registry_step E U db db'"
| revoke_network: "revoke_network E U i reason actor sid db = (nres, db') \<Longrightarrow> registry_step E U db db'"
| revoke_asset: "revoke_asset E i reason actor sid db = (ares, db') \<Longrightarrow> registry_step E U db db'"
| revoke_address: "revoke_address E i reason actor sid db = (dres, db') \<Longrightarrow> registry_step E U db db'"
| record_balance: "validate_balance_input bi = Inr bp \<Longrightarrow> record_balance_snapshot E U sid bp actor db = Inr (br, db') \<Longrightarrow> registry_step E U db db'"
| observe: "validate_balance_input bi = Inr bp
    \<Longrightarrow> record_balance_snapshot_connection E U sid bp actor snapshot created db = Inr (br, db') \<Longrightarrow> registry_step E U db db'"
| others: "registry_tables db' = registry_tables db \<Longrightarrow> wallet_balance_snapshots db' = wallet_balance_snapshots db
    \<Longrightarrow> audit_records db' = audit_records db @ audits \<Longrightarrow> registry_step E U db db'"

inductive registry_reachable :: "env \<Rightarrow> url_library \<Rightarrow> 'a registry_db_scheme \<Rightarrow> bool" for E U where
  start: "registry_tables db = ([], [], [], [], [], []) \<Longrightarrow> wallet_balance_snapshots db = [] \<Longrightarrow> registry_reachable E U db"
| step: "registry_reachable E U db \<Longrightarrow> registry_step E U db db' \<Longrightarrow> registry_reachable E U db'"

lemma registry_ok_draws:
  "registry_ok E U (db\<lparr>fresh_ids := a, ticks := b\<rparr>) = registry_ok E U db"
  by (simp add: registry_ok_def snapshot_ok_def)

lemma registry_step_ok:
  assumes env: "clock_valid E" and "registry_step E U db db'" "registry_ok E U db"
  shows "registry_ok E U db'"
  using assms(2,3)
proof (cases rule: registry_step.cases)
  case register_network
  from register_network_effect [OF assms(3) env this] assms(3) show ?thesis by auto
next
  case register_asset
  from register_asset_effect [OF assms(3) env this] assms(3) show ?thesis by auto
next
  case register_address
  from register_address_effect [OF assms(3) env this] assms(3) show ?thesis by auto
next
  case revoke_network
  from revoke_network_effect [OF assms(3) env this] assms(3) show ?thesis by auto
next
  case revoke_asset
  from revoke_asset_effect [OF assms(3) env this] assms(3) show ?thesis by auto
next
  case revoke_address
  from revoke_address_effect [OF assms(3) env this] assms(3) show ?thesis by auto
next
  case record_balance
  from record_balance_snapshot_connects [OF record_balance(2)] record_snapshot_ok [where U = U] assms(3) registry_ok_draws
  show ?thesis by metis
next
  case observe
  from record_snapshot_ok [OF assms(3) observe(2)] show ?thesis .
next
  case others
  then show ?thesis using registry_ok_audits [OF assms(3)] by (auto simp: registry_tables_def)
qed

lemma registry_reachable_ok:
  assumes "clock_valid E" "registry_reachable E U db"
  shows "registry_ok E U db"
  using assms(2)
proof induction
  case (start db)
  then show ?case by (simp add: registry_ok_def registry_tables_def table_ok_def)
qed (rule registry_step_ok [OF assms(1)])

end
