(* ===== verification/RegistryHistory.thy ===== *)
theory RegistryHistory
  imports RegistrySafety
begin

text \<open>
  How the rows of the registry evolve along its steps: no row disappears, the columns an
  operator registered never change, the life cycle moves at most once from active to revoked,
  and no two rows clash on what the schema reserves.
\<close>

section \<open>Evolution of a row\<close>

definition life_moves :: "lifecycle \<Rightarrow> lifecycle \<Rightarrow> bool" where
  "life_moves l m = (m = l \<or> lc_status l = ''active'' \<and> (\<exists>now why aid. m = ended now why aid l))"

lemma life_moves_refl [simp]: "life_moves l l"
  by (simp add: life_moves_def)

lemma life_moves_trans: "life_moves l m \<Longrightarrow> life_moves m n \<Longrightarrow> life_moves l n"
  by (auto simp: life_moves_def ended_def)

lemma life_moves_fields:
  assumes "life_moves l m"
  shows "lc_resource_id m = lc_resource_id l" "lc_subject_id m = lc_subject_id l" "lc_status l = ''revoked'' \<Longrightarrow> m = l"
  using assms by (auto simp: life_moves_def ended_def)

definition network_moves :: "network_row \<Rightarrow> network_row \<Rightarrow> bool" where
  "network_moves n m = (life_moves (network_life n) (network_life m) \<and> network_row_input m = network_row_input n
     \<and> (nw_status n = ''revoked'' \<longrightarrow> m = n))"

definition asset_moves :: "asset_row \<Rightarrow> asset_row \<Rightarrow> bool" where
  "asset_moves n m = (life_moves (asset_life n) (asset_life m) \<and> asset_row_input m = asset_row_input n
     \<and> (as_status n = ''revoked'' \<longrightarrow> m = n))"

definition address_moves :: "address_row \<Rightarrow> address_row \<Rightarrow> bool" where
  "address_moves n m = (life_moves (address_life n) (address_life m) \<and> address_row_input m = address_row_input n
     \<and> (ad_status n = ''revoked'' \<longrightarrow> m = n))"

lemmas moves_defs = network_moves_def asset_moves_def address_moves_def

lemma row_moves_refl [simp]: "network_moves n n" "asset_moves a a" "address_moves d d"
  by (simp_all add: moves_defs)

lemma network_moves_trans: "network_moves a b \<Longrightarrow> network_moves b c \<Longrightarrow> network_moves a c"
  by (auto simp: network_moves_def intro: life_moves_trans)

lemma asset_moves_trans: "asset_moves a b \<Longrightarrow> asset_moves b c \<Longrightarrow> asset_moves a c"
  by (auto simp: asset_moves_def intro: life_moves_trans)

lemma address_moves_trans: "address_moves a b \<Longrightarrow> address_moves b c \<Longrightarrow> address_moves a c"
  by (auto simp: address_moves_def intro: life_moves_trans)

text \<open>Every row of one table lives on in another.\<close>

definition lives_on :: "('r \<Rightarrow> 'r \<Rightarrow> bool) \<Rightarrow> 'r list \<Rightarrow> 'r list \<Rightarrow> bool" where
  "lives_on moves t u = (\<forall>x\<in>set t. \<exists>y\<in>set u. moves x y)"

lemma lives_on_append: "(\<And>x. moves x x) \<Longrightarrow> lives_on moves t (t @ u)"
  by (auto simp: lives_on_def)

lemma lives_on_refl: "(\<And>x. moves x x) \<Longrightarrow> lives_on moves t t"
  by (auto simp: lives_on_def)

lemma lives_on_replace: "(\<And>x. moves x x) \<Longrightarrow> moves n m \<Longrightarrow> lives_on moves t (map (\<lambda>x. if x = n then m else x) t)"
  by (auto simp: lives_on_def)

lemma lives_on_trans:
  assumes "\<And>x y z. moves x y \<Longrightarrow> moves y z \<Longrightarrow> moves x z" "lives_on moves t u" "lives_on moves u v"
  shows "lives_on moves t v"
  using assms unfolding lives_on_def by blast

definition registry_evolves :: "'a registry_db_scheme \<Rightarrow> 'a registry_db_scheme \<Rightarrow> bool" where
  "registry_evolves db db' =
     (lives_on network_moves (wallet_networks db) (wallet_networks db') \<and> lives_on asset_moves (wallet_assets db) (wallet_assets db')
      \<and> lives_on address_moves (wallet_addresses db) (wallet_addresses db')
      \<and> prefix (wallet_balance_snapshots db) (wallet_balance_snapshots db'))"

lemma registry_evolves_refl: "registry_evolves db db"
  by (simp add: registry_evolves_def lives_on_refl)

lemma registry_evolves_trans:
  assumes "registry_evolves a b" "registry_evolves b c"
  shows "registry_evolves a c"
proof -
  have "lives_on network_moves (wallet_networks a) (wallet_networks c)"
    by (rule lives_on_trans [where u = "wallet_networks b", OF network_moves_trans]) (use assms in \<open>simp_all add: registry_evolves_def\<close>)
  moreover have "lives_on asset_moves (wallet_assets a) (wallet_assets c)"
    by (rule lives_on_trans [where u = "wallet_assets b", OF asset_moves_trans]) (use assms in \<open>simp_all add: registry_evolves_def\<close>)
  moreover have "lives_on address_moves (wallet_addresses a) (wallet_addresses c)"
    by (rule lives_on_trans [where u = "wallet_addresses b", OF address_moves_trans]) (use assms in \<open>simp_all add: registry_evolves_def\<close>)
  ultimately show ?thesis using assms unfolding registry_evolves_def by (auto intro: prefix_order.trans)
qed

section \<open>Clashes\<close>

abbreviation apart :: "('r \<Rightarrow> 'r \<Rightarrow> bool) \<Rightarrow> 'r list \<Rightarrow> bool" where
  "apart clash t \<equiv> pairwise (\<lambda>x y. \<not> clash x y) (set t)"

definition registry_apart :: "'a registry_db_scheme \<Rightarrow> bool" where
  "registry_apart db = (apart network_clash (wallet_networks db) \<and> apart asset_clash (wallet_assets db)
     \<and> apart address_clash (wallet_addresses db))"

lemma clash_sym:
  "network_clash n m = network_clash m n" "asset_clash a b = asset_clash b a" "address_clash d e = address_clash e d"
  by (auto simp: network_clash_def asset_clash_def address_clash_def)

lemma apart_snoc:
  assumes "apart clash t" "\<forall>x\<in>set t. \<not> clash n x" "\<And>x y. clash x y = clash y x"
  shows "apart clash (t @ [n])"
  using assms by (auto simp: pairwise_def)

lemma apart_replace:
  assumes "apart clash t" "n \<in> set t" "\<And>x. x \<in> set t \<Longrightarrow> clash m x \<Longrightarrow> clash n x" "\<And>x y. clash x y = clash y x"
  shows "apart clash (map (\<lambda>x. if x = n then m else x) t)"
  using assms unfolding pairwise_def by (auto split: if_splits)

lemma moved_clash:
  "network_moves n m \<Longrightarrow> network_clash m x \<Longrightarrow> network_clash n x"
  "asset_moves a b \<Longrightarrow> asset_clash b y \<Longrightarrow> asset_clash a y"
  "address_moves d e \<Longrightarrow> address_clash e z \<Longrightarrow> address_clash d z"
proof -
  show "network_clash n x" if "network_moves n m" "network_clash m x"
    using that life_moves_fields(1,2) [of "network_life n" "network_life m"]
    by (auto simp: network_moves_def network_clash_def network_row_input_def)
  show "asset_clash a y" if "asset_moves a b" "asset_clash b y"
    using that life_moves_fields(1,2) [of "asset_life a" "asset_life b"]
    by (auto simp: asset_moves_def asset_clash_def asset_row_input_def)
  show "address_clash d z" if "address_moves d e" "address_clash e z"
  proof -
    have "ad_status e = ''active'' \<Longrightarrow> ad_status d = ''active''"
      using that(1) by (auto simp: address_moves_def life_moves_def ended_def address_life_def)
    with that life_moves_fields(1,2) [of "address_life d" "address_life e"] show ?thesis
      by (auto simp: address_moves_def address_clash_def address_row_input_def)
  qed
qed

section \<open>Steps\<close>

lemma revoked_moves:
  "network_life m = ended now why aid (network_life n) \<Longrightarrow> nw_status n = ''active'' \<Longrightarrow> network_row_input m = network_row_input n
     \<Longrightarrow> network_moves n m"
  "asset_life b = ended now why aid (asset_life a) \<Longrightarrow> as_status a = ''active'' \<Longrightarrow> asset_row_input b = asset_row_input a
     \<Longrightarrow> asset_moves a b"
  "address_life e = ended now why aid (address_life d) \<Longrightarrow> ad_status d = ''active'' \<Longrightarrow> address_row_input e = address_row_input d
     \<Longrightarrow> address_moves d e"
  by (auto simp: moves_defs life_moves_def)

text \<open>What a step makes of the registry: it evolves, keeps apart what was apart, and leaves the economy alone.\<close>

definition registry_progress :: "'a registry_db_scheme \<Rightarrow> 'a registry_db_scheme \<Rightarrow> bool" where
  "registry_progress db db' = (registry_evolves db db' \<and> (registry_apart db \<longrightarrow> registry_apart db'))"

lemma progress_refl: "registry_progress db db"
  by (simp add: registry_progress_def registry_evolves_refl)

lemma progress_network:
  assumes "wallet_networks db' = wallet_networks db @ [n] \<and> (\<forall>x\<in>set (wallet_networks db). \<not> network_clash n x)
      \<or> n \<in> set (wallet_networks db) \<and> network_moves n m \<and> wallet_networks db' = map (\<lambda>x. if x = n then m else x) (wallet_networks db)"
    "wallet_assets db' = wallet_assets db" "wallet_addresses db' = wallet_addresses db" "wallet_balance_snapshots db' = wallet_balance_snapshots db"
  shows "registry_progress db db'"
proof -
  have "lives_on network_moves (wallet_networks db) (wallet_networks db')"
    using assms(1) by (elim disjE) (simp_all add: lives_on_append lives_on_replace)
  moreover have "apart network_clash (wallet_networks db')" if a: "apart network_clash (wallet_networks db)"
    using assms(1) apart_snoc [OF a _ clash_sym(1)] apart_replace [OF a _ moved_clash(1) clash_sym(1)]
    by (elim disjE conjE) (simp_all del: set_map set_append)
  ultimately show ?thesis
    using assms(2-4) by (simp add: registry_progress_def registry_evolves_def registry_apart_def lives_on_refl)
qed

lemma progress_asset:
  assumes "wallet_assets db' = wallet_assets db @ [n] \<and> (\<forall>x\<in>set (wallet_assets db). \<not> asset_clash n x)
      \<or> n \<in> set (wallet_assets db) \<and> asset_moves n m \<and> wallet_assets db' = map (\<lambda>x. if x = n then m else x) (wallet_assets db)"
    "wallet_networks db' = wallet_networks db" "wallet_addresses db' = wallet_addresses db" "wallet_balance_snapshots db' = wallet_balance_snapshots db"
  shows "registry_progress db db'"
proof -
  have "lives_on asset_moves (wallet_assets db) (wallet_assets db')"
    using assms(1) by (elim disjE) (simp_all add: lives_on_append lives_on_replace)
  moreover have "apart asset_clash (wallet_assets db')" if a: "apart asset_clash (wallet_assets db)"
    using assms(1) apart_snoc [OF a _ clash_sym(2)] apart_replace [OF a _ moved_clash(2) clash_sym(2)]
    by (elim disjE conjE) (simp_all del: set_map set_append)
  ultimately show ?thesis
    using assms(2-4) by (simp add: registry_progress_def registry_evolves_def registry_apart_def lives_on_refl)
qed

lemma progress_address:
  assumes "wallet_addresses db' = wallet_addresses db @ [n] \<and> (\<forall>x\<in>set (wallet_addresses db). \<not> address_clash n x)
      \<or> n \<in> set (wallet_addresses db) \<and> address_moves n m \<and> wallet_addresses db' = map (\<lambda>x. if x = n then m else x) (wallet_addresses db)"
    "wallet_networks db' = wallet_networks db" "wallet_assets db' = wallet_assets db" "wallet_balance_snapshots db' = wallet_balance_snapshots db"
  shows "registry_progress db db'"
proof -
  have "lives_on address_moves (wallet_addresses db) (wallet_addresses db')"
    using assms(1) by (elim disjE) (simp_all add: lives_on_append lives_on_replace)
  moreover have "apart address_clash (wallet_addresses db')" if a: "apart address_clash (wallet_addresses db)"
    using assms(1) apart_snoc [OF a _ clash_sym(3)] apart_replace [OF a _ moved_clash(3) clash_sym(3)]
    by (elim disjE conjE) (simp_all del: set_map set_append)
  ultimately show ?thesis
    using assms(2-4) by (simp add: registry_progress_def registry_evolves_def registry_apart_def lives_on_refl)
qed

lemma progress_tables:
  assumes "registry_tables db' = registry_tables db" "prefix (wallet_balance_snapshots db) (wallet_balance_snapshots db')"
  shows "registry_progress db db'"
  using assms by (simp add: registry_progress_def registry_evolves_def registry_apart_def registry_tables_def lives_on_refl)

lemma registry_step_progress:
  assumes env: "clock_valid E" and "registry_step E U db db'" and ok: "registry_ok E U db"
  shows "registry_progress db db'"
  using assms(2)
proof (cases rule: registry_step.cases)
  case register_network
  from register_network_effect [OF ok env this] show ?thesis
    by (elim disjE exE conjE) (simp_all add: progress_refl, rule progress_network, auto)
next
  case register_asset
  from register_asset_effect [OF ok env this] show ?thesis
    by (elim disjE exE conjE) (simp_all add: progress_refl, rule progress_asset, auto)
next
  case register_address
  from register_address_effect [OF ok env this] show ?thesis
    by (elim disjE exE conjE) (simp_all add: progress_refl, rule progress_address, auto)
next
  case revoke_network
  from revoke_network_effect [OF ok env this] show ?thesis
    by (elim disjE exE bexE conjE)
      (simp add: progress_refl, simp add: progress_refl, rule progress_network [OF disjI2 [OF conjI [OF _ conjI [OF revoked_moves(1)]]]], assumption+)
next
  case revoke_asset
  from revoke_asset_effect [OF ok env this] show ?thesis
    by (elim disjE exE bexE conjE)
      (simp add: progress_refl, simp add: progress_refl, rule progress_asset [OF disjI2 [OF conjI [OF _ conjI [OF revoked_moves(2)]]]], assumption+)
next
  case revoke_address
  from revoke_address_effect [OF ok env this] show ?thesis
    by (elim disjE exE bexE conjE)
      (simp add: progress_refl, simp add: progress_refl, rule progress_address [OF disjI2 [OF conjI [OF _ conjI [OF revoked_moves(3)]]]], assumption+)
next
  case (record_balance bi bp sid actor br)
  from record_balance(2) obtain i c where "record_balance_snapshot_connection E U sid bp actor (Some i) (Some c)
      (db\<lparr>fresh_ids := Suc (fresh_ids db), ticks := Suc (ticks db)\<rparr>) = Inr (br, db')"
    by (rule record_balance_snapshot_connects)
  from record_connection_effect [OF this] show ?thesis by (intro progress_tables) (simp_all add: registry_tables_def)
next
  case observe
  from record_connection_effect [OF observe(2)] show ?thesis by (intro progress_tables) simp_all
next
  case others
  then show ?thesis by (intro progress_tables) simp_all
qed

lemma registry_reachable_apart:
  assumes env: "clock_valid E" and "registry_reachable E U db"
  shows "registry_apart db"
  using assms(2)
proof induction
  case (step db db')
  from registry_step_progress [OF env step(2) registry_reachable_ok [OF env step(1)]] step(3) show ?case
    by (simp add: registry_progress_def)
qed (simp add: registry_apart_def registry_tables_def)

lemma registry_later_evolves:
  assumes env: "clock_valid E" and "(registry_step E U)\<^sup>*\<^sup>* db db'" "registry_reachable E U db"
  shows "registry_evolves db db' \<and> registry_reachable E U db'"
  using assms(2,3)
proof (induction rule: rtranclp_induct)
  case (step b c)
  from step.IH step.prems have b: "registry_evolves db b" "registry_reachable E U b" by simp_all
  from registry_step_progress [OF env step(2) registry_reachable_ok [OF env b(2)]] have "registry_evolves b c"
    by (simp add: registry_progress_def)
  with b registry_evolves_trans show ?case using registry_reachable.step [OF b(2) step(2)] by blast
qed (simp add: registry_evolves_refl)

end
