(* ===== verification/RegistryRun.thy ===== *)
theory RegistryRun
  imports RegistryHistory
begin

text \<open>
  A concrete run of the registry: a network and an address are registered, and the address and
  the network are revoked.  The witnesses of the registry's properties are applied to its states.
\<close>

definition reg_uuid :: "nat \<Rightarrow> string" where
  "reg_uuid n = take 32 (replicate n (CHR ''a'') @ replicate 32 (CHR ''b''))"

text \<open>A digest that tells a revoked row from an active one.\<close>

definition reg_digest :: "bool \<Rightarrow> string" where
  "reg_digest revoked = replicate 64 (if revoked then CHR ''b'' else CHR ''a'')"

definition reg_sha256 :: "string \<Rightarrow> string" where
  "reg_sha256 s = (case strict_json_loads s of Inr (JObj kvs) \<Rightarrow> reg_digest ((''status'', JStr ''revoked'') \<in> set kvs)
     | _ \<Rightarrow> reg_digest False)"

definition reg_env :: env where
  "reg_env = \<lparr>env_sha256 = reg_sha256, env_clock = (\<lambda>_. sample_time), env_uuid = reg_uuid,
     env_segment = (\<lambda>_ _. Inl (IntegrityError ''no archive''))\<rparr>"

definition reg_parts :: url_parts where
  "reg_parts = \<lparr>up_scheme = ''https'', up_hostname = Some ''rpc.example'', up_username = None, up_password = None, up_port = None,
     up_path = '''', up_query = '''', up_fragment = ''''\<rparr>"

definition reg_urls :: url_library where
  "reg_urls = \<lparr>url_split = (\<lambda>s. if s = ''https://rpc.example'' then Some reg_parts else None),
     url_idna = (\<lambda>h. if h = ''rpc.example'' then Some h else None), url_global = (\<lambda>_. None)\<rparr>"

definition reg0 :: registry_db where
  "reg0 = \<lparr>ticks = 10, fresh_ids = 10, subject_identity = [''sub''], runtime_state = [], events = [],
     event_chain_roots = [], training_policies = [], training_records = [], audit_records = [],
     private_conversation_messages = [], private_conversations = [], autonomous_projects = [], goals = [],
     wallet_networks = [], wallet_assets = [], wallet_addresses = [],
     wallet_balance_snapshots = [], wallet_bounties = [], wallet_bounty_submissions = [], wallet_payment_policies = [],
     wallet_payment_orders = [], wallet_ledger_journals = [], wallet_ledger_entries = [], wallet_payment_executions = [],
     wallet_payment_execution_attempts = [], wallet_payment_reconciliation_events = [],
     wallet_network_revisions = [], wallet_asset_revisions = [], wallet_address_revisions = []\<rparr>"

definition reg_network :: network_input where
  "reg_network = \<lparr>ni_label = ''main'', ni_chain_family = ''evm'', ni_chain_id = 1, ni_native_symbol = ''ETH'',
     ni_rpc_url = Some ''https://rpc.example''\<rparr>"

definition reg_id :: "string \<Rightarrow> nat \<Rightarrow> string" where
  "reg_id pfx n = pfx @ ''_'' @ reg_uuid n"

definition reg_asset :: asset_input where
  "reg_asset = \<lparr>ai_network_id = reg_id ''walletnet'' 10, ai_asset_type = ''native'', ai_contract_address = None, ai_name = ''ether'',
     ai_symbol = ''ETH'', ai_decimals = 18\<rparr>"

definition reg_address :: address_input where
  "reg_address = \<lparr>di_network_id = reg_id ''walletnet'' 10, di_label = ''pay'', di_address = ''0x'' @ replicate 40 (CHR ''1''),
     di_purpose = ''spending''\<rparr>"

lemma reg_env_simps [simp]: "env_clock reg_env n = sample_time" "env_uuid reg_env n = reg_uuid n" "env_sha256 reg_env = reg_sha256"
  by (simp_all add: reg_env_def)

lemma reg_uuid_simps [simp]: "length (reg_uuid n) = 32" "m \<le> 32 \<Longrightarrow> n \<le> 32 \<Longrightarrow> reg_uuid m = reg_uuid n \<longleftrightarrow> m = n"
proof -
  show "length (reg_uuid n) = 32" by (simp add: reg_uuid_def)
  have "length (filter (\<lambda>c. c = CHR ''a'') (reg_uuid n)) = n" if "n \<le> 32" for n using that by (simp add: reg_uuid_def)
  then show "reg_uuid m = reg_uuid n \<longleftrightarrow> m = n" if "m \<le> 32" "n \<le> 32" using that by metis
qed

lemma reg_digest_simps [simp]: "valid_hash (reg_digest r)" "reg_digest r = reg_digest q \<longleftrightarrow> r = q"
  by (auto simp: reg_digest_def valid_hash_def list_all_iff hex_lower_def)

lemma reg_hash:
  assumes "json_wf (JObj kvs)"
  shows "content_hash reg_sha256 (JObj kvs) = reg_digest ((''status'', JStr ''revoked'') \<in> (\<lambda>(k, v). (k, json_norm v)) ` set kvs)"
  using strict_json_loads_canonical [OF assms] by (simp add: content_hash_def reg_sha256_def)

lemma reg_hashes [simp]:
  "network_hash reg_env n = reg_digest (nw_status n = ''revoked'')" "address_hash reg_env d = reg_digest (ad_status d = ''revoked'')"
  "asset_hash reg_env a = reg_digest (as_status a = ''revoked'')" "revision_hash reg_env k v = reg_digest (rv_status v = ''revoked'')"
  by (simp_all add: network_hash_def address_hash_def asset_hash_def revision_hash_def reg_hash json_opt_def split: option.split) auto

lemma reg_clock: "clock_valid reg_env"
  by (simp add: clock_valid_def timestamp_valid_def sample_time_def time_eval)

section \<open>The states\<close>

lemma reg_new_id [simp]: "new_id reg_env pfx db = (reg_id pfx (fresh_ids db), db\<lparr>fresh_ids := Suc (fresh_ids db)\<rparr>)"
  by (simp add: new_id_def reg_id_def)

lemma reg_utc_now [simp]: "utc_now reg_env db = (sample_time, db\<lparr>ticks := Suc (ticks db)\<rparr>)"
  by (simp add: utc_now_def)

lemma reg_id_simps [simp]: "m \<le> 32 \<Longrightarrow> n \<le> 32 \<Longrightarrow> reg_id pfx m = reg_id pfx n \<longleftrightarrow> m = n" "reg_id pfx n \<noteq> []"
  by (simp_all add: reg_id_def)

definition reg_audit :: "nat \<Rightarrow> string \<Rightarrow> (string \<times> json) list \<Rightarrow> audit_row" where
  "reg_audit n action payload = \<lparr>au_audit_id = reg_id ''audit'' n, au_subject_id = ''sub'', au_action = action, au_actor = ''op'',
     au_payload_json = canonical_json (JObj payload), au_occurred_at = sample_time\<rparr>"

lemma reg_audit_simps [simp]: "au_audit_id (reg_audit n action payload) = reg_id ''audit'' n"
  "au_subject_id (reg_audit n action payload) = ''sub''" "au_action (reg_audit n action payload) = action"
  by (simp_all add: reg_audit_def)

lemma reg_wallet_audit:
  assumes "subject_identity db = [''sub'']" "reg_id ''audit'' (fresh_ids db) \<notin> au_audit_id ` set (audit_records db)"
  shows "wallet_audit reg_env ''sub'' action ''op'' payload db = Inr (reg_id ''audit'' (fresh_ids db),
     db\<lparr>fresh_ids := Suc (fresh_ids db), ticks := Suc (ticks db), audit_records := audit_records db @ [reg_audit (fresh_ids db) action payload]\<rparr>)"
  using assms by (simp add: wallet_audit_def insert_audit_def reg_audit_def)

lemma reg_inputs [simp]: "validate_subject_id ''sub'' = Inr ''sub''" "require_operator ''op'' what = Inr ()"
  by code_simp (simp add: require_operator_def py_strip_def py_isspace_def blank_def)

definition reg_network_row :: network_row where
  "reg_network_row = new_network reg_env (reg_id ''walletnet'' 10) ''sub'' reg_network (reg_id ''audit'' 11) sample_time"

definition reg1 :: registry_db where
  "reg1 = reg0\<lparr>fresh_ids := 13, ticks := 12, audit_records := [reg_audit 11 ''wallet_network_registered'' (network_payload reg_network_row)],
     wallet_networks := [reg_network_row], wallet_network_revisions := [new_revision reg_env Network (reg_id ''walletnetworkrev'' 12)
       (reg_id ''walletnet'' 10) ''sub'' 1 ''active'' ''operator registered wallet network'' (reg_id ''audit'' 11) sample_time]\<rparr>"

lemma reg_network_row_simps [simp]:
  "nw_network_id reg_network_row = reg_id ''walletnet'' 10" "nw_subject_id reg_network_row = ''sub''" "nw_status reg_network_row = ''active''"
  "nw_created_audit_id reg_network_row = reg_id ''audit'' 11" "network_row_input reg_network_row = reg_network"
  "nw_native_symbol reg_network_row = ''ETH''"
  "network_life reg_network_row = born (reg_id ''walletnet'' 10) ''sub'' (reg_id ''audit'' 11) sample_time"
  by (simp_all add: reg_network_row_def new_network_def Let_def network_row_input_def reg_network_def network_life_def born_def)

lemma reg_network_row_checks: "network_checks reg_network_row"
  by (simp add: network_checks_def born_def lifecycle_checks_def)
    (simp add: reg_network_row_def new_network_def Let_def reg_network_def symbol_pattern_def symbol_char_def is_upper_def sql_trim_def)

lemmas reg_eval = audited_def lifecycle_references_def insert_revision_def insert_revision_row_def revision_number_valid_def
  resource_name_def set_revisions_def next_revision_def trimmed_between_def sql_trim_def born_def

lemma reg1_run:
  "register_network_transaction reg_env ''sub'' reg_network ''op'' (reg_id ''walletnet'' 10) sample_time (reg0\<lparr>fresh_ids := 11, ticks := 11\<rparr>) = Inr reg1"
proof -
  have p: "network_payload (new_network reg_env i ''sub'' reg_network '''' sample_time) = network_payload (new_network reg_env i ''sub'' reg_network a sample_time)" for i a
    by (simp add: network_payload_def new_network_def Let_def)
  show ?thesis
    using reg_network_row_checks
    by (simp add: register_network_transaction_def reg0_def reg1_def reg_wallet_audit p [of _ "reg_id ''audit'' 11"] reg_network_row_def [symmetric]
        insert_network_def reg_eval)
qed

lemma reg_network_valid: "validate_network_input reg_urls reg_network = Inr reg_network"
  by (simp add: validate_network_input_def reg_network_def reg_urls_def reg_parts_def text_length_def wallet_text_def py_strip_def py_isspace_def Let_def
      chain_family_def int_range_def sqlite_int64_max_def symbol_text_def symbol_pattern_def symbol_char_def is_upper_def py_upper_def upper_char_def is_lower_def
      optional_rpc_url_def rpc_url_def origin_host_def origin_text_def py_lower_def lower_char_def)

lemma reg1_step: "registry_step reg_env reg_urls reg0 reg1"
proof (rule registry_step.register_network [OF reg_network_valid])
  show "register_network reg_env reg_urls ''sub'' reg_network ''op'' reg0
      = (get_network reg_env reg_urls (reg_id ''walletnet'' 10) ''sub'' reg1, reg1)"
    using reg1_run by (simp add: register_network_def registering_def committed_def catch_sqlite_def reg0_def)
qed

lemma reg1_reachable: "registry_reachable reg_env reg_urls reg1"
  by (rule registry_reachable.step [OF registry_reachable.start reg1_step]) (simp_all add: reg0_def registry_tables_def)

definition reg_address_row :: address_row where
  "reg_address_row = new_address reg_env (reg_id ''walletaddr'' 13) ''sub'' reg_address (reg_id ''audit'' 14) sample_time"

definition reg2 :: registry_db where
  "reg2 = reg1\<lparr>fresh_ids := 16, ticks := 14, audit_records := audit_records reg1 @ [reg_audit 14 ''wallet_address_registered'' (address_payload reg_address_row)],
     wallet_addresses := [reg_address_row], wallet_address_revisions := [new_revision reg_env Address (reg_id ''walletaddressrev'' 15)
       (reg_id ''walletaddr'' 13) ''sub'' 1 ''active'' ''operator registered wallet address'' (reg_id ''audit'' 14) sample_time]\<rparr>"

lemma reg_address_row_simps [simp]:
  "ad_address_id reg_address_row = reg_id ''walletaddr'' 13" "ad_subject_id reg_address_row = ''sub''" "ad_status reg_address_row = ''active''"
  "ad_network_id reg_address_row = reg_id ''walletnet'' 10"
  "ad_created_audit_id reg_address_row = reg_id ''audit'' 14" "address_row_input reg_address_row = reg_address"
  "address_life reg_address_row = born (reg_id ''walletaddr'' 13) ''sub'' (reg_id ''audit'' 14) sample_time"
  "ad_state_hash reg_address_row = reg_digest False"
  by (simp_all add: reg_address_row_def new_address_def Let_def address_row_input_def reg_address_def address_life_def born_def)

lemma reg_address_checks: "address_checks reg_address_row"
  by (simp add: address_checks_def born_def lifecycle_checks_def)
    (simp add: reg_address_row_def new_address_def Let_def reg_address_def sql_trim_def list_all_iff hex_lower_def address_purposes_def)

lemma reg_store_identifier [simp]: "pfx \<noteq> [] \<Longrightarrow> \<not> py_isspace (hd pfx) \<Longrightarrow> length pfx \<le> 90 \<Longrightarrow> store_identifier (reg_id pfx n) f = Inr ()"
  by (cases pfx) (auto simp: store_identifier_def reg_id_def not_blank_prefix)

lemma reg1_tables [simp]: "wallet_networks reg1 = [reg_network_row]" "wallet_addresses reg1 = []" "subject_identity reg1 = [''sub'']"
  "fresh_ids reg1 = 13" "ticks reg1 = 12"
  "audit_records reg1 = [reg_audit 11 ''wallet_network_registered'' (network_payload reg_network_row)]" "wallet_address_revisions reg1 = []"
  by (simp_all add: reg1_def reg0_def)

lemma reg_origin_stable: "nw_rpc_url n = Some ''https://rpc.example'' \<Longrightarrow> origin_stable reg_urls n"
  by (simp add: origin_stable_def reg_urls_def reg_parts_def text_length_def wallet_text_def py_strip_def py_isspace_def Let_def
      optional_rpc_url_def rpc_url_def origin_host_def origin_text_def py_lower_def lower_char_def is_upper_def)

lemma reg_network_origin [simp]: "nw_rpc_url reg_network_row = Some ''https://rpc.example''"
  by (simp add: reg_network_row_def new_network_def Let_def reg_network_def)

lemma reg1_network: "network_from_row reg_env reg_urls reg_network_row = Inr (network_rec reg_network_row)"
  using registry_lives(1) [OF registry_reachable_ok [OF reg_clock reg1_reachable]] by (simp add: reg_origin_stable)

lemma reg2_run:
  "register_address_transaction reg_env reg_urls ''sub'' reg_address ''op'' (reg_id ''walletaddr'' 13) sample_time (reg1\<lparr>fresh_ids := 14, ticks := 13\<rparr>) = Inr reg2"
proof -
  have p: "address_payload (new_address reg_env i ''sub'' reg_address '''' sample_time) = address_payload (new_address reg_env i ''sub'' reg_address a sample_time)" for i a
    by (simp add: address_payload_def new_address_def Let_def)
  have n: "di_network_id reg_address = reg_id ''walletnet'' 10" "nr_status (network_rec reg_network_row) = ''active''"
    by (simp_all add: reg_address_def network_rec_def)
  show ?thesis
    using reg_address_checks
    by (simp add: register_address_transaction_def reg2_def reg_wallet_audit p [of _ "reg_id ''audit'' 14"] reg_address_row_def [symmetric]
        insert_address_def reg_eval n network_row_of_def reg1_network py_isspace_def)
qed

lemma reg_address_valid: "validate_address_input reg_address = Inr reg_address"
proof -
  have "canonical_evm_address (''0x'' @ replicate 40 (CHR ''1'')) = Inr (''0x'' @ replicate 40 (CHR ''1''))" by code_simp
  moreover have "wallet_text f 128 (reg_id ''walletnet'' 10) = Inr (reg_id ''walletnet'' 10)" for f
    by (simp add: wallet_text_def Let_def reg_id_def reg_uuid_def py_strip_def py_isspace_def numeral_eq_Suc)
  moreover have "length (reg_id ''walletnet'' 10) = 42" by (simp add: reg_id_def)
  ultimately show ?thesis
    by (simp add: validate_address_input_def reg_address_def text_length_def purpose_value_def address_purposes_def)
      (simp add: wallet_text_def py_strip_def py_isspace_def)
qed

lemma reg2_result: "register_address reg_env reg_urls ''sub'' reg_address ''op'' reg1
    = (get_address reg_env (reg_id ''walletaddr'' 13) ''sub'' reg2, reg2)"
  using reg2_run by (simp add: register_address_def registering_def committed_def catch_sqlite_def)

lemma reg2_step: "registry_step reg_env reg_urls reg1 reg2"
  by (rule registry_step.register_address [OF reg_address_valid reg2_result])

lemma reg2_reachable: "registry_reachable reg_env reg_urls reg2"
  by (rule registry_reachable.step [OF reg1_reachable reg2_step])

definition reg_revoked_row :: address_row where
  "reg_revoked_row = revoked_address reg_env sample_time ''lost'' (reg_id ''audit'' 16) reg_address_row"

definition reg3 :: registry_db where
  "reg3 = reg2\<lparr>ticks := 16, audit_records := audit_records reg2 @ [reg_audit 16 ''wallet_address_revoked''
       [(''address_id'', JStr (reg_id ''walletaddr'' 13)), (''reason'', JStr ''lost'')]],
     wallet_addresses := [reg_revoked_row], fresh_ids := 18, wallet_address_revisions := wallet_address_revisions reg2 @ [new_revision reg_env Address
       (reg_id ''walletaddressrev'' 17) (reg_id ''walletaddr'' 13) ''sub'' 2 ''revoked'' ''lost'' (reg_id ''audit'' 16) sample_time]\<rparr>"

lemma reg2_tables [simp]: "wallet_networks reg2 = [reg_network_row]" "wallet_addresses reg2 = [reg_address_row]" "subject_identity reg2 = [''sub'']"
  "fresh_ids reg2 = 16" "ticks reg2 = 14" "wallet_assets reg2 = []"
  "audit_records reg2 = [reg_audit 11 ''wallet_network_registered'' (network_payload reg_network_row),
     reg_audit 14 ''wallet_address_registered'' (address_payload reg_address_row)]"
  "wallet_address_revisions reg2 = [new_revision reg_env Address (reg_id ''walletaddressrev'' 15)
       (reg_id ''walletaddr'' 13) ''sub'' 1 ''active'' ''operator registered wallet address'' (reg_id ''audit'' 14) sample_time]"
  by (simp_all add: reg2_def reg1_def reg0_def)

lemma reg_revoked_simps [simp]:
  "ad_address_id reg_revoked_row = reg_id ''walletaddr'' 13" "ad_subject_id reg_revoked_row = ''sub''" "ad_status reg_revoked_row = ''revoked''"
  "ad_network_id reg_revoked_row = reg_id ''walletnet'' 10"
  "address_life reg_revoked_row = ended sample_time ''lost'' (reg_id ''audit'' 16) (born (reg_id ''walletaddr'' 13) ''sub'' (reg_id ''audit'' 14) sample_time)"
  "ad_state_hash reg_revoked_row = reg_digest True"
  "reg_address_row\<lparr>ad_status := ''revoked'', ad_state_hash := reg_digest True, ad_revoked_at := Some sample_time,
     ad_revoke_reason := Some ''lost'', ad_revoked_audit_id := Some (reg_id ''audit'' 16)\<rparr> = reg_revoked_row"
  by (simp_all add: reg_revoked_row_def revoked_address_ok) (simp_all add: revoked_address_def Let_def)

lemma reg_revoked_checks: "address_checks reg_revoked_row"
proof -
  have "ad_label reg_revoked_row = ad_label reg_address_row" "ad_address reg_revoked_row = ad_address reg_address_row"
      "ad_purpose reg_revoked_row = ad_purpose reg_address_row"
    by (simp_all add: reg_revoked_row_def revoked_address_def Let_def)
  with reg_address_checks show ?thesis
    by (simp add: address_checks_def lifecycle_checks_def ended_def born_def sql_trim_def)
qed

lemma reg2_address: "address_from_row reg_env reg_address_row = Inr (address_rec reg_address_row)"
  using registry_lives(3) [OF registry_reachable_ok [OF reg_clock reg2_reachable]] by simp

lemma reg3_result: "revoke_address reg_env (reg_id ''walletaddr'' 13) ''lost'' ''op'' ''sub'' reg2
    = (get_address reg_env (reg_id ''walletaddr'' 13) ''sub'' reg3, reg3)"
proof -
  have r: "revoke_reason_text ''lost'' = Inr ''lost''" by (simp add: revoke_reason_text_def py_strip_def py_isspace_def Let_def)
  have s: "dr_status (address_rec reg_address_row) = ''active''" by (simp add: address_rec_def)
  show ?thesis
    using reg_revoked_checks
    by (simp add: revoke_address_def r s address_row_of_def reg2_address py_isspace_def committed_def reg_wallet_audit update_address_def
        reg_revoked_row_def [symmetric] update_guarded_def lifecycle_moves_def reg_eval ended_def reg3_def update_where_def)
qed

lemma reg3_step: "registry_step reg_env reg_urls reg2 reg3"
  by (rule registry_step.revoke_address [OF reg3_result])

lemma reg3_reachable: "registry_reachable reg_env reg_urls reg3"
  by (rule registry_reachable.step [OF reg2_reachable reg3_step])

lemma reg3_tables [simp]: "wallet_addresses reg3 = [reg_revoked_row]" "wallet_networks reg3 = [reg_network_row]"
  by (simp_all add: reg3_def)

text \<open>With its address revoked, the network can be revoked too.\<close>

definition reg_ended_row :: network_row where
  "reg_ended_row = revoked_network reg_env sample_time ''old'' (reg_id ''audit'' 18) reg_network_row"

definition reg4 :: registry_db where
  "reg4 = reg3\<lparr>ticks := 18, audit_records := audit_records reg3 @ [reg_audit 18 ''wallet_network_revoked''
       [(''network_id'', JStr (reg_id ''walletnet'' 10)), (''reason'', JStr ''old'')]],
     wallet_networks := [reg_ended_row], fresh_ids := 20, wallet_network_revisions := wallet_network_revisions reg3 @ [new_revision reg_env Network
       (reg_id ''walletnetworkrev'' 19) (reg_id ''walletnet'' 10) ''sub'' 2 ''revoked'' ''old'' (reg_id ''audit'' 18) sample_time]\<rparr>"

lemma reg3_more [simp]: "subject_identity reg3 = [''sub'']" "fresh_ids reg3 = 18" "ticks reg3 = 16" "wallet_assets reg3 = []"
  "audit_records reg3 = [reg_audit 11 ''wallet_network_registered'' (network_payload reg_network_row),
     reg_audit 14 ''wallet_address_registered'' (address_payload reg_address_row),
     reg_audit 16 ''wallet_address_revoked'' [(''address_id'', JStr (reg_id ''walletaddr'' 13)), (''reason'', JStr ''lost'')]]"
  "wallet_network_revisions reg3 = [new_revision reg_env Network (reg_id ''walletnetworkrev'' 12)
       (reg_id ''walletnet'' 10) ''sub'' 1 ''active'' ''operator registered wallet network'' (reg_id ''audit'' 11) sample_time]"
  by (simp_all add: reg3_def) (simp add: reg2_def reg1_def)

lemma reg_ended_simps [simp]:
  "nw_network_id reg_ended_row = reg_id ''walletnet'' 10" "nw_subject_id reg_ended_row = ''sub''" "nw_status reg_ended_row = ''revoked''"
  "network_life reg_ended_row = ended sample_time ''old'' (reg_id ''audit'' 18) (born (reg_id ''walletnet'' 10) ''sub'' (reg_id ''audit'' 11) sample_time)"
  "nw_state_hash reg_ended_row = reg_digest True"
  "reg_network_row\<lparr>nw_status := ''revoked'', nw_state_hash := reg_digest True, nw_revoked_at := Some sample_time,
     nw_revoke_reason := Some ''old'', nw_revoked_audit_id := Some (reg_id ''audit'' 18)\<rparr> = reg_ended_row"
  "nw_state_hash reg_network_row = reg_digest False"
  by (simp_all add: reg_ended_row_def revoked_network_ok) (simp_all add: revoked_network_def Let_def, simp add: reg_network_row_def new_network_def Let_def)

lemma reg_ended_checks: "network_checks reg_ended_row"
proof -
  have "nw_label reg_ended_row = nw_label reg_network_row" "nw_chain_family reg_ended_row = nw_chain_family reg_network_row"
      "nw_chain_id reg_ended_row = nw_chain_id reg_network_row" "nw_native_symbol reg_ended_row = nw_native_symbol reg_network_row"
      "nw_rpc_url reg_ended_row = nw_rpc_url reg_network_row"
    by (simp_all add: reg_ended_row_def revoked_network_def Let_def)
  with reg_network_row_checks show ?thesis
    by (simp add: network_checks_def lifecycle_checks_def ended_def born_def sql_trim_def)
qed

lemma reg4_run: "revoke_network reg_env reg_urls (reg_id ''walletnet'' 10) ''old'' ''op'' ''sub'' reg3
    = (get_network reg_env reg_urls (reg_id ''walletnet'' 10) ''sub'' reg4, reg4)"
proof -
  have r: "revoke_reason_text ''old'' = Inr ''old''" by (simp add: revoke_reason_text_def py_strip_def py_isspace_def Let_def)
  have s: "nr_status (network_rec reg_network_row) = ''active''" by (simp add: network_rec_def)
  show ?thesis
    using reg_ended_checks
    by (simp add: revoke_network_def r s network_row_of_def reg1_network py_isspace_def committed_def reg_wallet_audit update_network_def
        reg_ended_row_def [symmetric] update_guarded_def network_trigger_allows_def lifecycle_moves_def reg_eval ended_def reg4_def update_where_def
        has_active_children_def)
qed

lemma reg4_result: "revoke_network reg_env reg_urls (reg_id ''walletnet'' 10) ''old'' ''op'' ''sub'' reg3 = (Inr (network_rec reg_ended_row), reg4)"
proof -
  have "registry_reachable reg_env reg_urls reg4"
    by (rule registry_reachable.step [OF reg3_reachable registry_step.revoke_network [OF reg4_run]])
  note ok = registry_reachable_ok [OF reg_clock this]
  have n: "wallet_networks reg4 = [reg_ended_row]" by (simp add: reg4_def)
  moreover have "nw_rpc_url reg_ended_row = Some ''https://rpc.example''"
    by (simp add: reg_ended_row_def revoked_network_def Let_def)
  ultimately show ?thesis
    using reg4_run registry_lives(1) [OF ok, of reg_ended_row] by (simp add: reg_origin_stable)
      (simp add: get_network_def network_row_of_def py_isspace_def)
qed

end
