(* ===== verification/Registry.thy ===== *)
theory Registry
  imports RegistryRun
begin

text \<open>
  The properties of the wallet registry: its integrity check accepts every state the code can
  reach, and what it accepts is authentic; a registration is all or nothing; a revocation is
  final and cannot orphan an active resource.
\<close>

section \<open>What the check establishes\<close>

lemma res_fold_each:
  "res_fold f xs s = Inr t \<Longrightarrow> x \<in> set xs \<Longrightarrow> \<exists>u v. f x u = Inr v"
  by (induction xs arbitrary: s) auto

lemma asset_from_row_Inr:
  assumes "asset_from_row E a = Inr r"
  shows "r = asset_rec a" "as_state_hash a = asset_hash E a" "lifecycle_valid (asset_life a)"
  using assms
  by (auto simp: asset_from_row_def asset_rec_def asset_row_input_def lifecycle_values_def split: if_splits)

lemma address_from_row_Inr:
  assumes "address_from_row E d = Inr r"
  shows "r = address_rec d" "ad_state_hash d = address_hash E d" "lifecycle_valid (address_life d)"
  using assms
  by (auto simp: address_from_row_def address_rec_def address_row_input_def lifecycle_values_def split: if_splits)

lemma verify_registry_Inr:
  assumes "verify_registry A E U sid db = Inr s"
  obtains ns as ds where "res_fold (verify_network_row E U db) (fetchall_by (\<lambda>r. nw_subject_id r = sid) (\<lambda>r. (nw_created_at r, nw_network_id r)) (wallet_networks db)) [] = Inr ns"
    "res_fold (verify_asset_row E sid ns db) (fetchall_by (\<lambda>r. as_subject_id r = sid \<or>
        map_option nw_subject_id (network_of (as_network_id r) db) = Some sid) (\<lambda>r. (as_created_at r, as_asset_id r)) (wallet_assets db)) [] = Inr as"
    "res_fold (verify_address_row E sid ns db) (fetchall_by (\<lambda>r. ad_subject_id r = sid \<or>
        map_option nw_subject_id (network_of (ad_network_id r) db) = Some sid) (\<lambda>r. (ad_created_at r, ad_address_id r)) (wallet_addresses db)) [] = Inr ds"
  using assms unfolding verify_registry_def verify_registry_tables_def Let_def res_bind_Inr_iff by blast

lemma verified_networks:
  assumes "res_fold (verify_network_row E U db) (fetchall_by (\<lambda>r. nw_subject_id r = sid) k (wallet_networks db)) [] = Inr ns"
  shows "r \<in> set ns \<Longrightarrow> \<exists>n\<in>set (wallet_networks db). nw_subject_id n = sid \<and> r = network_rec n"
proof -
  have "\<forall>r\<in>set ns. \<exists>n\<in>set (wallet_networks db). nw_subject_id n = sid \<and> r = network_rec n"
    using assms by (rule res_fold_invariant) (auto simp: verify_network_row_def dest!: network_from_row_Inr(1))
  then show "r \<in> set ns \<Longrightarrow> \<exists>n\<in>set (wallet_networks db). nw_subject_id n = sid \<and> r = network_rec n" by blast
qed

lemma verified_stable:
  assumes "verify_registry A E U sid db = Inr s" "n \<in> set (wallet_networks db)" "nw_subject_id n = sid"
  shows "origin_stable U n"
proof -
  obtain ns where "res_fold (verify_network_row E U db) (fetchall_by (\<lambda>r. nw_subject_id r = sid) (\<lambda>r. (nw_created_at r, nw_network_id r)) (wallet_networks db)) [] = Inr ns"
    by (rule verify_registry_Inr [OF assms(1)])
  from res_fold_each [OF this, of n] assms(2,3) obtain u v where "verify_network_row E U db n u = Inr v" by auto
  then show ?thesis using network_from_row_stable by (auto simp: verify_network_row_def)
qed

definition authentic_rows :: "env \<Rightarrow> string \<Rightarrow> 'a registry_db_scheme \<Rightarrow> bool" where
  "authentic_rows E sid db =
     ((\<forall>n\<in>set (wallet_networks db). nw_subject_id n = sid \<longrightarrow> nw_state_hash n = network_hash E n \<and> lifecycle_valid (network_life n))
      \<and> (\<forall>a\<in>set (wallet_assets db). as_subject_id a = sid \<longrightarrow> as_state_hash a = asset_hash E a \<and> lifecycle_valid (asset_life a)
           \<and> (\<exists>n\<in>set (wallet_networks db). nw_network_id n = as_network_id a \<and> nw_subject_id n = sid
                \<and> (as_status a = ''active'' \<longrightarrow> nw_status n = ''active'')))
      \<and> (\<forall>d\<in>set (wallet_addresses db). ad_subject_id d = sid \<longrightarrow> ad_state_hash d = address_hash E d \<and> lifecycle_valid (address_life d)
           \<and> (\<exists>n\<in>set (wallet_networks db). nw_network_id n = ad_network_id d \<and> nw_subject_id n = sid
                \<and> (ad_status d = ''active'' \<longrightarrow> nw_status n = ''active''))))"

lemma verified_asset:
  assumes ns: "\<And>r. r \<in> set ns \<Longrightarrow> \<exists>n\<in>set (wallet_networks db). nw_subject_id n = sid \<and> r = network_rec n"
    and v: "verify_asset_row E sid ns db a acc = Inr acc'"
  shows "as_state_hash a = asset_hash E a" "lifecycle_valid (asset_life a)"
    "\<exists>n\<in>set (wallet_networks db). nw_network_id n = as_network_id a \<and> nw_subject_id n = sid \<and> (as_status a = ''active'' \<longrightarrow> nw_status n = ''active'')"
proof -
  obtain r w where r: "asset_from_row E a = Inr r" "fetchone (\<lambda>n. nr_network_id n = sr_network_id r) ns = Some w"
      "sr_status r = ''active'' \<longrightarrow> nr_status w = ''active''"
    using v by (auto simp: verify_asset_row_def split: if_splits option.splits)
  show "as_state_hash a = asset_hash E a" "lifecycle_valid (asset_life a)" using asset_from_row_Inr [OF r(1)] by simp_all
  from fetchone_Some [OF r(2)] ns obtain n where "n \<in> set (wallet_networks db)" "nw_subject_id n = sid" "w = network_rec n"
      "nr_network_id w = sr_network_id r" by blast
  with r(3) asset_from_row_Inr(1) [OF r(1)] show "\<exists>n\<in>set (wallet_networks db). nw_network_id n = as_network_id a \<and> nw_subject_id n = sid
      \<and> (as_status a = ''active'' \<longrightarrow> nw_status n = ''active'')"
    by (auto simp: asset_rec_def network_rec_def)
qed

lemma verified_address:
  assumes ns: "\<And>r. r \<in> set ns \<Longrightarrow> \<exists>n\<in>set (wallet_networks db). nw_subject_id n = sid \<and> r = network_rec n"
    and v: "verify_address_row E sid ns db a acc = Inr acc'"
  shows "ad_state_hash a = address_hash E a" "lifecycle_valid (address_life a)"
    "\<exists>n\<in>set (wallet_networks db). nw_network_id n = ad_network_id a \<and> nw_subject_id n = sid \<and> (ad_status a = ''active'' \<longrightarrow> nw_status n = ''active'')"
proof -
  obtain r w where r: "address_from_row E a = Inr r" "fetchone (\<lambda>n. nr_network_id n = dr_network_id r) ns = Some w"
      "dr_status r = ''active'' \<longrightarrow> nr_status w = ''active''"
    using v by (auto simp: verify_address_row_def split: if_splits option.splits)
  show "ad_state_hash a = address_hash E a" "lifecycle_valid (address_life a)" using address_from_row_Inr [OF r(1)] by simp_all
  from fetchone_Some [OF r(2)] ns obtain n where "n \<in> set (wallet_networks db)" "nw_subject_id n = sid" "w = network_rec n"
      "nr_network_id w = dr_network_id r" by blast
  with r(3) address_from_row_Inr(1) [OF r(1)] show "\<exists>n\<in>set (wallet_networks db). nw_network_id n = ad_network_id a \<and> nw_subject_id n = sid
      \<and> (ad_status a = ''active'' \<longrightarrow> nw_status n = ''active'')"
    by (auto simp: address_rec_def network_rec_def)
qed

section \<open>Reading back\<close>

lemma fetchone_key_and: "distinct (map k t) \<Longrightarrow> r \<in> set t \<Longrightarrow> q r \<Longrightarrow> fetchone (\<lambda>x. k x = k r \<and> q x) t = Some r"
  by (induction t) (auto simp: rev_image_eqI)

definition record_input :: "address_record \<Rightarrow> address_input" where
  "record_input r = \<lparr>di_network_id = dr_network_id r, di_label = dr_label r, di_address = dr_address r, di_purpose = dr_purpose r\<rparr>"

lemma record_input_rec: "record_input (address_rec d) = address_row_input d"
  by (simp add: record_input_def address_rec_def address_row_input_def)

lemma get_address_rec:
  assumes "registry_ok E U db" "d \<in> set (wallet_addresses db)"
  shows "get_address E (ad_address_id d) (ad_subject_id d) db = Inr (address_rec d)"
proof -
  note life = table_okD(2) [OF registry_okD(3) [OF assms(1)] assms(2)]
  have "is_ok (store_identifier (ad_address_id d) ''address identifier'')" using life_okD(2) [OF life] by simp
  moreover have "fetchone (\<lambda>a. ad_address_id a = ad_address_id d \<and> ad_subject_id a = ad_subject_id d) (wallet_addresses db) = Some d"
    by (rule fetchone_key_and [OF registry_lives(6) [OF assms(1)] assms(2)]) simp
  ultimately show ?thesis using registry_lives(3) [OF assms] by (auto simp: get_address_def address_row_of_def is_ok_iff)
qed

lemma no_active_children:
  assumes ok: "registry_ok E U db" and n: "n \<in> set (wallet_networks db)" "nw_network_id n = i" "nw_status n = ''revoked''"
  shows "\<not> has_active_children sid i db"
proof -
  have same: "m = n" if "m \<in> set (wallet_networks db)" "nw_network_id m = i" for m
    using distinct_key_eq [OF registry_lives(4) [OF ok] that(1) n(1)] n(2) that(2) by simp
  have "as_status a \<noteq> ''active''" if "a \<in> set (wallet_assets db)" "as_network_id a = i" for a
    using registry_okD(5) [OF ok that(1)] that(2) same n(3) by (auto simp: asset_ok_def)
  moreover have "ad_status a \<noteq> ''active''" if "a \<in> set (wallet_addresses db)" "ad_network_id a = i" for a
    using registry_okD(6) [OF ok that(1)] that(2) same n(3) by (auto simp: address_ok_def)
  ultimately show ?thesis unfolding has_active_children_def by blast
qed

lemma get_network_rec:
  assumes "registry_ok E U db" "n \<in> set (wallet_networks db)" "origin_stable U n"
  shows "get_network E U (nw_network_id n) (nw_subject_id n) db = Inr (network_rec n)"
proof -
  note life = table_okD(2) [OF registry_okD(1) [OF assms(1)] assms(2)]
  have "is_ok (store_identifier (nw_network_id n) ''network identifier'')" using life_okD(2) [OF life] by simp
  moreover have "fetchone (\<lambda>a. nw_network_id a = nw_network_id n \<and> nw_subject_id a = nw_subject_id n) (wallet_networks db) = Some n"
    by (rule fetchone_key_and [OF registry_lives(4) [OF assms(1)] assms(2)]) simp
  ultimately show ?thesis using registry_lives(1) [OF assms] by (auto simp: get_network_def network_row_of_def is_ok_iff)
qed

section \<open>Properties\<close>

text \<open>
  C10. In every state the registry can reach by its operations, interleaved with the writes of
  other components, the integrity check of a subject returns exactly when the stored origin of
  each of its networks is one that the validation maps to itself and the check of the
  acquisition ledger returns; it then counts the subject's rows, and adds the acquisition
  details when there are runs.  The clock returns timestamps; of the address library nothing
  is assumed.
\<close>

theorem registry_verifies:
  assumes "clock_valid E" "registry_reachable E U db" "is_ok (validate_subject_id sid)"
  shows "verify_registry acquisition E U sid db = Inr (s, d) \<longleftrightarrow>
     (\<forall>n\<in>set (wallet_networks db). nw_subject_id n = sid \<longrightarrow> origin_stable U n)
     \<and> s = registry_counts sid db
     \<and> (\<exists>a. acquisition sid db = Inr a \<and> d = (if aq_runs a \<noteq> 0 then Some a else None))"
proof (cases "\<forall>n\<in>set (wallet_networks db). nw_subject_id n = sid \<longrightarrow> origin_stable U n")
  case True
  then have "verify_registry_tables E U sid db = Inr (registry_counts sid db)"
    by (intro registry_ok_verifies [OF registry_reachable_ok [OF assms(1,2)] assms(3)]) blast
  with True show ?thesis by (auto simp: verify_registry_def)
next
  case False
  then show ?thesis using verified_stable by blast
qed

theorem registry_verifies_witness:
  "verify_registry (\<lambda>_ _. Inr \<lparr>aq_runs = 0, aq_others = []\<rparr>) reg_env reg_urls ''sub'' reg3 = Inr (registry_counts ''sub'' reg3, None)
     \<and> rs_networks (registry_counts ''sub'' reg3) = 1 \<and> rs_address_revisions (registry_counts ''sub'' reg3) = 2"
  using registry_verifies [OF reg_clock reg3_reachable, of "''sub''" "\<lambda>_ _. Inr \<lparr>aq_runs = 0, aq_others = []\<rparr>"]
  by (simp add: reg_origin_stable registry_counts_def revision_count_def expected_revisions_def ended_def born_def)

text \<open>
  C11. A database the check accepts is authentic for the subject: every network, asset and
  address row carries the digest of its own columns and a coherent life cycle, and stands on a network of the same
  subject, an active one when it is active itself.
\<close>

theorem verified_registry_authentic:
  assumes "verify_registry acquisition E U sid db = Inr s"
  shows "authentic_rows E sid db"
proof -
  obtain ns as ds where f: "res_fold (verify_network_row E U db) (fetchall_by (\<lambda>r. nw_subject_id r = sid) (\<lambda>r. (nw_created_at r, nw_network_id r)) (wallet_networks db)) [] = Inr ns"
    "res_fold (verify_asset_row E sid ns db) (fetchall_by (\<lambda>r. as_subject_id r = sid \<or>
        map_option nw_subject_id (network_of (as_network_id r) db) = Some sid) (\<lambda>r. (as_created_at r, as_asset_id r)) (wallet_assets db)) [] = Inr as"
    "res_fold (verify_address_row E sid ns db) (fetchall_by (\<lambda>r. ad_subject_id r = sid \<or>
        map_option nw_subject_id (network_of (ad_network_id r) db) = Some sid) (\<lambda>r. (ad_created_at r, ad_address_id r)) (wallet_addresses db)) [] = Inr ds"
    by (rule verify_registry_Inr [OF assms])
  note ns = verified_networks [OF f(1)]
  have n: "\<forall>n\<in>set (wallet_networks db). nw_subject_id n = sid \<longrightarrow> nw_state_hash n = network_hash E n \<and> lifecycle_valid (network_life n)"
  proof (intro ballI impI)
    fix n assume "n \<in> set (wallet_networks db)" "nw_subject_id n = sid"
    with res_fold_each [OF f(1), of n] obtain u v where "verify_network_row E U db n u = Inr v" by auto
    then show "nw_state_hash n = network_hash E n \<and> lifecycle_valid (network_life n)"
      by (auto simp: verify_network_row_def dest: network_from_row_Inr)
  qed
  have a: "\<forall>a\<in>set (wallet_assets db). as_subject_id a = sid \<longrightarrow> as_state_hash a = asset_hash E a \<and> lifecycle_valid (asset_life a)
      \<and> (\<exists>n\<in>set (wallet_networks db). nw_network_id n = as_network_id a \<and> nw_subject_id n = sid
           \<and> (as_status a = ''active'' \<longrightarrow> nw_status n = ''active''))"
  proof (intro ballI impI)
    fix a assume "a \<in> set (wallet_assets db)" "as_subject_id a = sid"
    with res_fold_each [OF f(2), of a] obtain u v where "verify_asset_row E sid ns db a u = Inr v" by auto
    from verified_asset [OF ns this] show "as_state_hash a = asset_hash E a \<and> lifecycle_valid (asset_life a)
      \<and> (\<exists>n\<in>set (wallet_networks db). nw_network_id n = as_network_id a \<and> nw_subject_id n = sid
           \<and> (as_status a = ''active'' \<longrightarrow> nw_status n = ''active''))" by (intro conjI)
  qed
  have d: "\<forall>d\<in>set (wallet_addresses db). ad_subject_id d = sid \<longrightarrow> ad_state_hash d = address_hash E d \<and> lifecycle_valid (address_life d)
      \<and> (\<exists>n\<in>set (wallet_networks db). nw_network_id n = ad_network_id d \<and> nw_subject_id n = sid
           \<and> (ad_status d = ''active'' \<longrightarrow> nw_status n = ''active''))"
  proof (intro ballI impI)
    fix d assume "d \<in> set (wallet_addresses db)" "ad_subject_id d = sid"
    with res_fold_each [OF f(3), of d] obtain u v where "verify_address_row E sid ns db d u = Inr v" by auto
    from verified_address [OF ns this] show "ad_state_hash d = address_hash E d \<and> lifecycle_valid (address_life d)
      \<and> (\<exists>n\<in>set (wallet_networks db). nw_network_id n = ad_network_id d \<and> nw_subject_id n = sid
           \<and> (ad_status d = ''active'' \<longrightarrow> nw_status n = ''active''))" by (intro conjI)
  qed
  show ?thesis unfolding authentic_rows_def using n a d by (intro conjI)
qed

theorem verified_registry_authentic_witness: "authentic_rows reg_env ''sub'' reg3 \<and> wallet_addresses reg3 = [reg_revoked_row]"
proof -
  have "verify_registry_tables reg_env reg_urls ''sub'' reg3 = Inr (registry_counts ''sub'' reg3)"
    by (rule registry_ok_verifies [OF registry_reachable_ok [OF reg_clock reg3_reachable]]) (simp_all add: reg_origin_stable)
  then have "verify_registry (\<lambda>_ _. Inr \<lparr>aq_runs = 0, aq_others = []\<rparr>) reg_env reg_urls ''sub'' reg3 = Inr (registry_counts ''sub'' reg3, None)"
    by (simp add: verify_registry_def)
  from verified_registry_authentic [OF this] show ?thesis by simp
qed

text \<open>
  C13. In every reachable state, with a clock that returns timestamps, registering an address is all or nothing: it raises and leaves the database as it was, or
  it returns the active record with the validated columns, which \<open>get_address\<close> then reads back,
  and every address that was there before is still read as before; the tables of the economy
  do not change.
\<close>

theorem register_address_all_or_nothing:
  assumes "clock_valid E" "registry_reachable E U db" "validate_address_input input = Inr p"
    "register_address E U sid p actor db = (res, db')"
  shows "(\<exists>e. res = Inl e) \<and> db' = db
    \<or> (\<exists>r. res = Inr r \<and> record_input r = p \<and> dr_subject_id r = sid \<and> dr_status r = ''active''
        \<and> get_address E (dr_address_id r) sid db' = Inr r \<and> wallet_tables db' = wallet_tables db
        \<and> (\<forall>d\<in>set (wallet_addresses db). get_address E (ad_address_id d) (ad_subject_id d) db'
             = get_address E (ad_address_id d) (ad_subject_id d) db))"
proof (cases "\<exists>e. res = Inl e \<and> db' = db")
  case False
  note ok = registry_reachable_ok [OF assms(1,2)]
  from register_address_effect [OF ok assms(1,3,4)] False obtain d where ok': "registry_ok E U db'"
    and d: "res = Inr (address_rec d)" "wallet_addresses db' = wallet_addresses db @ [d]" "address_row_input d = p" "ad_subject_id d = sid"
      "ad_status d = ''active''" "wallet_tables db' = wallet_tables db" by blast
  have "get_address E (ad_address_id d) sid db' = Inr (address_rec d)" using get_address_rec [OF ok', of d] d(2,4) by simp
  moreover have "get_address E (ad_address_id x) (ad_subject_id x) db' = get_address E (ad_address_id x) (ad_subject_id x) db"
    if "x \<in> set (wallet_addresses db)" for x
    using get_address_rec [OF ok that] get_address_rec [OF ok', of x] that d(2) by simp
  ultimately show ?thesis using d record_input_rec [of d] by (intro disjI2 exI [of _ "address_rec d"]) (simp add: address_rec_def)
qed auto

theorem register_address_all_or_nothing_witness:
  "\<exists>r. fst (register_address reg_env reg_urls ''sub'' reg_address ''op'' reg1) = Inr r \<and> record_input r = reg_address
     \<and> get_address reg_env (dr_address_id r) ''sub'' reg2 = Inr r"
proof -
  have "reg2 \<noteq> reg1" using reg1_tables(2) reg2_tables(2) by force
  then show ?thesis
    using register_address_all_or_nothing [OF reg_clock reg1_reachable reg_address_valid reg2_result] reg2_result by auto
qed

text \<open>
  C12. With a clock that returns timestamps, whatever runs after a reachable state, no registered resource disappears and none is rewritten: its columns
  stay, its life cycle moves at most once, from active to revoked, and a revoked row never changes again; observed
  balances are only appended to.
\<close>

theorem registry_rows_final:
  assumes "clock_valid E" "registry_reachable E U db" "(registry_step E U)\<^sup>*\<^sup>* db db'"
  shows "registry_evolves db db'"
  using registry_later_evolves [OF assms(1,3,2)] by simp

theorem registry_rows_final_witness: "registry_evolves reg1 reg3 \<and> registry_evolves reg2 reg3 \<and> ad_status (hd (wallet_addresses reg2)) = ''active''
    \<and> ad_status (hd (wallet_addresses reg3)) = ''revoked''"
proof -
  have 2: "(registry_step reg_env reg_urls)\<^sup>*\<^sup>* reg2 reg3" by (rule r_into_rtranclp, rule reg3_step)
  have 1: "(registry_step reg_env reg_urls)\<^sup>*\<^sup>* reg1 reg3" by (rule converse_rtranclp_into_rtranclp, rule reg2_step, rule 2)
  show ?thesis
    using registry_rows_final [OF reg_clock reg1_reachable 1] registry_rows_final [OF reg_clock reg2_reachable 2] by simp
qed

text \<open>What a subject's active addresses on one network, and its networks, may not share.\<close>

definition addresses_exclusive :: "address_row list \<Rightarrow> bool" where
  "addresses_exclusive t = (\<forall>x\<in>set t. \<forall>y\<in>set t. x \<noteq> y \<and> ad_subject_id x = ad_subject_id y
      \<and> ad_network_id x = ad_network_id y \<and> ad_status x = ''active'' \<and> ad_status y = ''active''
        \<longrightarrow> ad_label x \<noteq> ad_label y \<and> ad_address x \<noteq> ad_address y)"

definition networks_exclusive :: "network_row list \<Rightarrow> bool" where
  "networks_exclusive t = (\<forall>x\<in>set t. \<forall>y\<in>set t. x \<noteq> y \<and> nw_subject_id x = nw_subject_id y
      \<longrightarrow> nw_label x \<noteq> nw_label y \<and> (nw_chain_family x \<noteq> nw_chain_family y \<or> nw_chain_id x \<noteq> nw_chain_id y))"

text \<open>
  C15. In every reachable state, with a clock that returns timestamps, what the schema reserves is held once: two different active
  addresses of a subject on one network differ in label and in address, two different networks of a
  subject in label and in chain.
\<close>

theorem registry_exclusive:
  assumes "clock_valid E" "registry_reachable E U db"
  shows "addresses_exclusive (wallet_addresses db) \<and> networks_exclusive (wallet_networks db)"
proof -
  note apart = registry_reachable_apart [OF assms, unfolded registry_apart_def]
  have d: "ad_label x \<noteq> ad_label y \<and> ad_address x \<noteq> ad_address y"
    if "x \<in> set (wallet_addresses db)" "y \<in> set (wallet_addresses db)" "x \<noteq> y" "ad_subject_id x = ad_subject_id y"
      "ad_network_id x = ad_network_id y" "ad_status x = ''active''" "ad_status y = ''active''" for x y
    using pairwiseD [OF conjunct2 [OF conjunct2 [OF apart]] that(2,1) not_sym [OF that(3)]] that(4-7) unfolding address_clash_def by simp
  have n: "nw_label x \<noteq> nw_label y \<and> (nw_chain_family x \<noteq> nw_chain_family y \<or> nw_chain_id x \<noteq> nw_chain_id y)"
    if "x \<in> set (wallet_networks db)" "y \<in> set (wallet_networks db)" "x \<noteq> y" "nw_subject_id x = nw_subject_id y" for x y
    using pairwiseD [OF conjunct1 [OF apart] that(2,1) not_sym [OF that(3)]] that(4) unfolding network_clash_def by simp
  show ?thesis unfolding addresses_exclusive_def networks_exclusive_def
    by (intro conjI [OF ballI [OF ballI [OF impI]] ballI [OF ballI [OF impI]]]) (elim conjE, rule d n; assumption)+
qed

theorem registry_exclusive_witness:
  "wallet_networks reg2 \<noteq> [] \<and> addresses_exclusive (wallet_addresses reg2) \<and> networks_exclusive (wallet_networks reg2)"
  using registry_exclusive [OF reg_clock reg2_reachable] by (simp add: reg2_def reg1_def)

text \<open>
  C14. In every reachable state, with a clock that returns timestamps, a revocation of a network that returns leaves it revoked, readable as such, and with
  no active asset or address on it.
\<close>

theorem revoke_network_guarded:
  assumes "clock_valid E" "registry_reachable E U db" "revoke_network E U i reason actor sid db = (Inr r, db')"
  shows "nr_status r = ''revoked'' \<and> get_network E U i sid db' = Inr r \<and> \<not> has_active_children sid i db'"
proof -
  note ok = registry_reachable_ok [OF assms(1,2)]
  have "\<exists>n\<in>set (wallet_networks db'). nw_network_id n = i \<and> nw_subject_id n = sid \<and> nw_status n = ''revoked'' \<and> r = network_rec n
      \<and> origin_stable U n \<and> registry_ok E U db'"
    using revoke_network_effect [OF ok assms(1,3)]
  proof (elim disjE conjE bexE exE)
    fix n assume "n \<in> set (wallet_networks db)" "nw_network_id n = i" "nw_subject_id n = sid" "nw_status n = ''revoked''"
      "Inr r = Inr (network_rec n)" "origin_stable U n" "db' = db"
    with ok show ?thesis by auto
  next
    fix n n' assume n: "registry_ok E U db'" "n \<in> set (wallet_networks db)" "nw_network_id n = i" "nw_subject_id n = sid"
        "network_life n' = ended (env_clock E (ticks db)) (py_strip reason) (''audit_'' @ env_uuid E (fresh_ids db)) (network_life n)"
        "Inr r = Inr (network_rec n')" "origin_stable U n'" "wallet_networks db' = map (\<lambda>x. if x = n then n' else x) (wallet_networks db)"
    have "nw_network_id n' = i" "nw_subject_id n' = sid" "nw_status n' = ''revoked''"
      using n(3,4) arg_cong [OF n(5), of lc_resource_id] arg_cong [OF n(5), of lc_subject_id] arg_cong [OF n(5), of lc_status]
      by (simp_all add: ended_def)
    moreover have "n' \<in> set (wallet_networks db')" using n(2,8) by auto
    ultimately show ?thesis using n(1,6,7) by blast
  qed auto
  then obtain n where n: "n \<in> set (wallet_networks db')" "nw_network_id n = i" "nw_subject_id n = sid" "nw_status n = ''revoked''"
      "r = network_rec n" "origin_stable U n" and ok': "registry_ok E U db'" by blast
  show ?thesis using n no_active_children [OF ok' n(1,2,4)] get_network_rec [OF ok' n(1,6)] by (simp add: network_rec_def)
qed

theorem revoke_network_guarded_witness:
  "nr_status (network_rec reg_ended_row) = ''revoked'' \<and> get_network reg_env reg_urls (reg_id ''walletnet'' 10) ''sub'' reg4 = Inr (network_rec reg_ended_row)
     \<and> \<not> has_active_children ''sub'' (reg_id ''walletnet'' 10) reg4"
  by (rule revoke_network_guarded [OF reg_clock reg3_reachable reg4_result])

section \<open>Origins that do not validate again\<close>

text \<open>
  An address library that keeps a blank at the end of a host, as \<open>urlsplit\<close> and the \<open>idna\<close> codec
  do for \<^verbatim>\<open>https://example.com /\<close>, and a registration with that origin.
\<close>

definition gap_urls :: url_library where
  "gap_urls = \<lparr>url_split = (\<lambda>s. if s = ''https://example.com /'' then Some (reg_parts\<lparr>up_hostname := Some ''example.com '', up_path := ''/''\<rparr>)
       else if s = ''https://example.com'' then Some (reg_parts\<lparr>up_hostname := Some ''example.com''\<rparr>) else None),
     url_idna = Some, url_global = (\<lambda>_. None)\<rparr>"

definition gap_network :: network_input where
  "gap_network = reg_network\<lparr>ni_rpc_url := Some ''https://example.com ''\<rparr>"

definition gap_row :: network_row where
  "gap_row = new_network reg_env (reg_id ''walletnet'' 10) ''sub'' gap_network (reg_id ''audit'' 11) sample_time"

definition gap1 :: registry_db where
  "gap1 = reg0\<lparr>fresh_ids := 13, ticks := 12, audit_records := [reg_audit 11 ''wallet_network_registered'' (network_payload gap_row)],
     wallet_networks := [gap_row], wallet_network_revisions := [new_revision reg_env Network (reg_id ''walletnetworkrev'' 12)
       (reg_id ''walletnet'' 10) ''sub'' 1 ''active'' ''operator registered wallet network'' (reg_id ''audit'' 11) sample_time]\<rparr>"

lemmas gap_eval = gap_urls_def reg_parts_def text_length_def wallet_text_def py_strip_def py_isspace_def Let_def
  optional_rpc_url_def rpc_url_def origin_host_def origin_text_def py_lower_def lower_char_def is_upper_def

lemma gap_valid: "validate_network_input gap_urls (reg_network\<lparr>ni_rpc_url := Some ''https://example.com /''\<rparr>) = Inr gap_network"
  by (simp add: validate_network_input_def gap_network_def reg_network_def gap_eval chain_family_def int_range_def sqlite_int64_max_def
      symbol_text_def symbol_pattern_def symbol_char_def py_upper_def upper_char_def is_lower_def)

lemma gap_unstable: "optional_rpc_url gap_urls (ni_rpc_url gap_network) \<noteq> Inr (ni_rpc_url gap_network)"
  by (simp add: gap_network_def gap_eval)

lemma gap_run:
  "register_network reg_env gap_urls ''sub'' gap_network ''op'' reg0
     = (get_network reg_env gap_urls (reg_id ''walletnet'' 10) ''sub'' gap1, gap1)"
proof -
  have p: "network_payload (new_network reg_env i ''sub'' gap_network '''' sample_time) = network_payload (new_network reg_env i ''sub'' gap_network a sample_time)" for i a
    by (simp add: network_payload_def new_network_def Let_def)
  have r: "nw_network_id gap_row = reg_id ''walletnet'' 10" "nw_status gap_row = ''active''" "nw_subject_id gap_row = ''sub''" "nw_created_audit_id gap_row = reg_id ''audit'' 11"
      "network_life gap_row = born (reg_id ''walletnet'' 10) ''sub'' (reg_id ''audit'' 11) sample_time"
    by (simp_all add: gap_row_def new_network_def Let_def network_life_def born_def)
  have "network_checks gap_row"
    by (simp add: network_checks_def r born_def lifecycle_checks_def)
      (simp add: gap_row_def new_network_def Let_def gap_network_def reg_network_def symbol_pattern_def symbol_char_def is_upper_def sql_trim_def)
  then have "register_network_transaction reg_env ''sub'' gap_network ''op'' (reg_id ''walletnet'' 10) sample_time (reg0\<lparr>fresh_ids := 11, ticks := 11\<rparr>) = Inr gap1"
    by (simp add: register_network_transaction_def reg0_def gap1_def reg_wallet_audit p [of _ "reg_id ''audit'' 11"] gap_row_def [symmetric]
        insert_network_def reg_eval r)
  then show ?thesis by (simp add: register_network_def registering_def committed_def catch_sqlite_def reg0_def)
qed

text \<open>
  C39. In every reachable state, with a clock that returns timestamps, a registration that
  commits an origin which the validation accepted and does not map to itself raises when it reads the
  network back, and leaves the active row; whatever runs later, the integrity check of the subject
  never returns again.
\<close>

theorem unstable_origin_unreadable:
  assumes "clock_valid E" "registry_reachable E U db" "validate_network_input U input = Inr p"
    "optional_rpc_url U (ni_rpc_url p) \<noteq> Inr (ni_rpc_url p)"
    "register_network E U sid p actor db = (res, db1)" "db1 \<noteq> db" "(registry_step E U)\<^sup>*\<^sup>* db1 db2"
  shows "\<not> is_ok res \<and> (\<exists>n\<in>set (wallet_networks db1). network_row_input n = p \<and> nw_subject_id n = sid \<and> nw_status n = ''active'')
     \<and> \<not> is_ok (verify_registry acquisition E U sid db2)"
proof -
  note ok = registry_reachable_ok [OF assms(1,2)]
  have reach: "registry_reachable E U db1"
    by (rule registry_reachable.step [OF assms(2) registry_step.register_network [OF assms(3,5)]])
  obtain n where n: "res = network_from_row E U n" "wallet_networks db1 = wallet_networks db @ [n]" "network_row_input n = p"
      "nw_subject_id n = sid" "nw_status n = ''active''"
    using register_network_effect [OF ok assms(1,3,5)] assms(6) by blast
  have url: "nw_rpc_url n = ni_rpc_url p" using n(3) by (auto simp: network_row_input_def)
  have un: "\<not> origin_stable U m" if "nw_rpc_url m = ni_rpc_url p" for m using assms(4) that by (simp add: origin_stable_def)
  have "\<not> is_ok res" using un [OF url] network_from_row_stable n(1) by (auto simp: is_ok_iff)
  moreover have "registry_evolves db1 db2" using registry_later_evolves [OF assms(1,7) reach] by simp
  then obtain m where m: "m \<in> set (wallet_networks db2)" "network_moves n m" using n(2) by (auto simp: registry_evolves_def lives_on_def)
  then have "nw_rpc_url m = ni_rpc_url p" "nw_subject_id m = sid"
    using n(3,4) by (auto simp: network_moves_def network_row_input_def life_moves_def network_life_def ended_def)
  then have "\<not> is_ok (verify_registry acquisition E U sid db2)" unfolding is_ok_iff using un verified_stable [OF _ m(1)] by blast
  ultimately show ?thesis using n by auto
qed

theorem unstable_origin_unreadable_witness:
  "\<not> is_ok (get_network reg_env gap_urls (reg_id ''walletnet'' 10) ''sub'' gap1)
     \<and> \<not> is_ok (verify_registry (\<lambda>_ _. Inr \<lparr>aq_runs = 0, aq_others = []\<rparr>) reg_env gap_urls ''sub'' gap1)"
proof -
  have "registry_reachable reg_env gap_urls reg0" by (rule registry_reachable.start) (simp_all add: reg0_def registry_tables_def)
  moreover have "length (wallet_networks gap1) \<noteq> length (wallet_networks reg0)" by (simp add: gap1_def reg0_def)
  then have "gap1 \<noteq> reg0" by metis
  ultimately show ?thesis
    using unstable_origin_unreadable [OF reg_clock _ gap_valid gap_unstable gap_run, of gap1] by blast
qed

end
