(* ===== verification/Spec2Isabelle.thy ===== *)
theory Spec2Isabelle
  imports PyJson PyTime Kernel EventStore Lifecycle ActionLedger Workflow Fencing WalletSafety Registry
begin

text \<open>
  \<^bold>\<open>Noyra: a verified core.\<close>  Noyra (\<^verbatim>\<open>src/src/noyra\<close>) is a local runtime for one long-lived
  subject.  Everything it does is evidence in one SQLite database: events, actions, workflow
  checkpoints, leases and payments are rows that are written in transactions, carry digests of
  their own content and are audited by integrity checks.  This development models the stores
  that carry that evidence and the part of the wallet that moves money, and proves that the
  histories the code can produce are the ones its checks accept, that guarded state machines
  stay on their tables, and that money and authority are neither lost nor duplicated.

  \<^bold>\<open>Conventions.\<close>  A database is a record of tables, a table the list of its rows in \<open>rowid\<close>
  order (\<open>Prelude\<close>: \<open>fetchone\<close>, \<open>update_where\<close>, \<open>fetchall_by\<close>).  An operation that runs in one
  transaction is a function to \<open>py_error + result \<times> db\<close>: an exception is a rollback and carries
  no database.  A method that commits and then does more (reads back, calls a signer, commits
  again) returns its result or exception together with the database it left.  The constraints,
  unique indexes and triggers of \<^verbatim>\<open>core/schema\<close> are branches of the insert and update functions.
  What lies outside the repository is a parameter: \<open>env\<close> holds \<open>sha256\<close>, the readings of the clock,
  the values of \<open>uuid4\<close> and the archived payloads; the answers of a signer, the release evidence,
  the mutation guard, the check of the acquisition ledger and the URL functions of the standard library are
  arguments.  What is assumed of them are named hypotheses: digests are 64 hexadecimal digits (\<open>digests_valid\<close>) and the
  clock returns timestamps with a time zone (\<open>clock_valid\<close>, \<open>clock_readable\<close>), in any order; each has
  a witness that satisfies it.  Nothing is assumed of the URL functions: \<open>urlsplit\<close> and the \<open>idna\<close> codec do accept
  origins that do not validate again (\<open>origin_stable\<close>, \<open>unstable_origin_unreadable\<close>).  No property assumes that the digest is injective:
  results about tampering conclude with a collision at a known position instead.
  Concurrency is the interleaving of committed transactions: the step relations let any
  worker take any step with any arguments, and their rule \<open>others\<close> lets the other components write their own tables.

  \<^bold>\<open>Values.\<close>  \<open>PyJson\<close> (\<^verbatim>\<open>core/types.py\<close>): \<open>canonical_json\<close>, \<open>strict_json_loads\<close>, \<open>content_hash\<close>; the parser
  reads back what the printer wrote, and equal digested texts mean equal values.  Its
  fuel \<open>2 * length s + 2\<close> is enough because every recursive call consumes a character or descends from a
  value to its members (\<open>parse_fuel_enough\<close>: more fuel never changes the answer); the recursion
  limit of the interpreter is not modelled.  \<open>PyTime\<close> (\<^verbatim>\<open>core/events.py\<close>, \<^verbatim>\<open>wallet/types.py\<close>): timestamps,
  whose text order is the order of time.  Characters have code points below 256.

  \<^bold>\<open>Interfaces.\<close>  \<open>HashChain\<close> (locale \<open>hash_chain\<close>, interpreted by the event chain), \<open>StateMachine\<close>
  (locale \<open>status_machine\<close>, interpreted by the lifecycle, the action ledger and the workflow), \<open>Revisions\<close>
  (locale \<open>revision_log\<close>, interpreted by the revision tables of actions, behaviour logs and wallet
  resources) and, in \<open>Fencing\<close>, \<open>fencing_tokens\<close>, interpreted by the epoch leases.

  \<^bold>\<open>Kernel stores.\<close>  \<open>Kernel\<close> (\<^verbatim>\<open>core/schema/base.py\<close>, \<^verbatim>\<open>core/storage.py\<close>): shared tables, audit records,
  the training provenance of events.  \<open>EventStore\<close> (\<^verbatim>\<open>core/events.py\<close>): every reachable chain verifies, and two
  histories with one root are equal up to a collision.  \<open>Lifecycle\<close> (\<^verbatim>\<open>core/lifecycle.py\<close>): the state
  machine of the subject; recovery never resumes activity and a pause fails closed.
  \<open>ActionLedger\<close> (\<^verbatim>\<open>core/actions.py\<close>): an action starts at most once, a definite outcome is final, the whole
  ledger always verifies.  \<open>Workflow\<close> (\<^verbatim>\<open>autonomy/workflow.py\<close>): checkpoint histories.  A checkpoint reads
  the clock before its transaction opens, so a call has two phases and calls overlap (\<open>workflow_step\<close> carries the pending ones): in
  every reachable store the check fails only for commits out of the order of their readings, and does fail then.  \<open>Fencing\<close> (\<^verbatim>\<open>migration/fencing.py\<close>): one epoch
  at a time holds a subject; the leases refine a lock and a stale lease is rejected.

  \<^bold>\<open>Wallet economy.\<close>  \<open>WalletTypes\<close> (\<^verbatim>\<open>wallet/economy_types.py\<close>), \<open>WalletTables\<close> (rows, constraints and digests),
  \<open>WalletOrders\<close> (payment orders and the double-entry ledger of \<^verbatim>\<open>wallet/economy.py\<close>) and
  \<open>WalletBounties\<close> (bounties, submissions, policies).  \<open>WalletTransfer\<close>, \<open>WalletExecution\<close> and \<open>WalletDispatch\<close>
  (\<^verbatim>\<open>wallet/execution.py\<close>): transfer envelopes, the durable execution of a payment, and the methods that
  talk to the signer.  \<open>WalletOutcomes\<close> and \<open>WalletPreparation\<close> show that each of these transactions keeps the
  invariants, \<open>WalletPayments\<close> makes them one step relation (\<open>wallet_step\<close>), \<open>WalletSafety\<close> states what holds in
  every reachable state (the ledger mirrors the orders, awards are bounded, one order per accepted submission, a retry re-signs the
  same envelope, and two defects: a payment taken back by a reorganisation is never confirmed again, and a reused hash leaves an execution signing), and \<open>WalletRun\<close> evaluates a payment from bounty to confirmation for the witnesses.

  \<^bold>\<open>Wallet registry.\<close>  \<open>WalletInputs\<close> (the input models of \<^verbatim>\<open>wallet/types.py\<close>, each a normal form) and
  \<open>WalletRegistry\<close> (\<open>WalletStore\<close> of \<^verbatim>\<open>wallet/store.py\<close>: networks, assets, addresses, their revisions,
  observed balances, listings and the integrity check, which ends with the check of the acquisition ledger, a parameter).  \<open>RegistryAudit\<close> turns the check into conditions on the tables and shows that it accepts
  what meets them; \<open>RegistryRevisions\<close>, \<open>RegistrySteps\<close> and \<open>RegistryKeeps\<close> show what each transaction writes and that it keeps them;
  \<open>RegistrySafety\<close> collects the transactions in \<open>registry_step\<close>; \<open>RegistryHistory\<close> follows the rows along
  them; \<open>RegistryRun\<close> is a concrete run and \<open>Registry\<close> holds the properties: the check accepts a
  reachable state exactly when the stored origins validate again, rows are final, and what the indexes reserve is held once.  The
  registry leaves the tables of the economy alone (\<open>wallet_tables\<close> in the effect lemmas), so its transactions are among the
  \<open>others\<close> of \<open>wallet_step\<close>; those of the economy only read the registry's tables.

  \<^bold>\<open>Not modelled.\<close>  The HTTP service, the process supervision and the command line (routing and glue); the
  connection pool, locking, backups and the migration of old schemas in \<^verbatim>\<open>core/database.py\<close> (the
  tables are those of the current schema); \<^verbatim>\<open>core/integrity.py\<close>, a read-only audit over the tables of
  every component; the encrypted archive, keystores, RPC clients and dispatch locks (cryptography, network, threads:
  their answers are parameters); cognition and model accounting, which are driven by answers of language
  models; the wallet's balance polling with its acquisition ledger, and payment scheduling; observation health and status summaries
  of the registry, which only aggregate its rows for display.
\<close>

end
